(* ===== verification/UTA_Prelude.thy ===== *)
theory UTA_Prelude
  imports Main "HOL-Library.AList" "HOL-Library.Char_ord" "HOL-Library.List_Lexorder"
begin

text \<open>
  Shared vocabulary of the development: JavaScript errors as values, the error bind used for
  sequences of throwing calls, strings (truthiness, \<open>join\<close>, decimal printing of counters),
  and the insertion-ordered \<open>Map\<close> of JavaScript as an association list.  Every other theory
  imports this one.

  Strings are character lists; literals of the source outside ASCII are written as the bytes of
  their UTF-8 encoding.
\<close>

section \<open>Hint collections\<close>

named_theorems err_simps \<open>rewriting the error bind\<close>
named_theorems dec_simps \<open>comparison and sign of decimal values\<close>
named_theorems git_simps \<open>unfolding the operations of the commit log\<close>

section \<open>Errors\<close>

text \<open>
  \<open>BrokerErrorCode\<close> of the protocol package and the error classes that the trading code
  throws.  A \<open>TypeError\<close> is what reading a method of \<open>undefined\<close> raises, a
  \<open>DecimalError\<close> is what \<open>new Decimal(s)\<close> raises on a malformed string.
\<close>

datatype broker_error_code =
  CONFIG | AUTH | NETWORK | EXCHANGE | MARKET_CLOSED | CONNECTING | UNKNOWN

datatype js_error =
    PlainError string
  | PendingHashConflictError string
  | BrokerError broker_error_code string
  | TypeError
  | DecimalError string

fun err_message :: "js_error \<Rightarrow> string" where
  "err_message (PlainError m) = m"
| "err_message (PendingHashConflictError m) = m"
| "err_message (BrokerError c m) = m"
| "err_message TypeError = ''Cannot read properties of undefined''"
| "err_message (DecimalError s) = ''[DecimalError] Invalid argument: '' @ s"

text \<open>Sequencing of throwing computations: the first error wins.\<close>

definition bindE :: "'e + 'a \<Rightarrow> ('a \<Rightarrow> 'e + 'b) \<Rightarrow> 'e + 'b" where
  "bindE m f = (case m of Inl e \<Rightarrow> Inl e | Inr a \<Rightarrow> f a)"

lemma bindE_simps [simp, err_simps]:
  "bindE (Inl e) f = Inl e"
  "bindE (Inr a) f = f a"
  by (simp_all add: bindE_def)

lemma bindE_eq_Inr:
  "bindE m f = Inr b \<longleftrightarrow> (\<exists>a. m = Inr a \<and> f a = Inr b)"
  by (cases m) auto

lemma bindE_eq_Inl:
  "bindE m f = Inl e \<longleftrightarrow> m = Inl e \<or> (\<exists>a. m = Inr a \<and> f a = Inl e)"
  by (cases m) auto

definition ensure :: "bool \<Rightarrow> 'e \<Rightarrow> 'e + unit" where
  "ensure b e = (if b then Inr () else Inl e)"

lemma ensure_simps [simp, err_simps]:
  "ensure True e = Inr ()"
  "ensure False e = Inl e"
  "ensure b e = Inr u \<longleftrightarrow> b"
  "ensure b e = Inl e' \<longleftrightarrow> \<not> b \<and> e' = e"
  by (auto simp: ensure_def)

definition is_Inl :: "'a + 'b \<Rightarrow> bool" where
  "is_Inl x = (case x of Inl _ \<Rightarrow> True | Inr _ \<Rightarrow> False)"

lemma is_Inl_simps [simp]: "is_Inl (Inl e)" "\<not> is_Inl (Inr a)"
  by (simp_all add: is_Inl_def)

section \<open>Strings\<close>

text \<open>JavaScript truthiness of an optional string: \<open>undefined\<close> and the empty string are falsy.\<close>

definition truthy :: "string option \<Rightarrow> bool" where
  "truthy s = (case s of None \<Rightarrow> False | Some t \<Rightarrow> t \<noteq> [])"

lemma truthy_simps [simp]:
  "\<not> truthy None"
  "truthy (Some t) \<longleftrightarrow> t \<noteq> []"
  by (simp_all add: truthy_def)

lemma truthyE:
  assumes "truthy s"
  obtains t where "s = Some t" "t \<noteq> []"
  using assms by (cases s) auto

text \<open>\<open>a || b\<close> on strings, and \<open>a || undefined\<close>.\<close>

definition or_str :: "string \<Rightarrow> string \<Rightarrow> string" where
  "or_str a b = (if a = [] then b else a)"

definition or_undef :: "string \<Rightarrow> string option" where
  "or_undef a = (if a = [] then None else Some a)"

definition opt_or :: "string option \<Rightarrow> string \<Rightarrow> string" where
  "opt_or a b = (if truthy a then the a else b)"

lemma opt_or_simps [simp]:
  "opt_or None b = b"
  "opt_or (Some a) b = (if a = [] then b else a)"
  by (simp_all add: opt_or_def)

lemma or_undef_truthy [simp]: "truthy (or_undef a) \<longleftrightarrow> a \<noteq> []"
  by (simp add: or_undef_def)

text \<open>\<open>xs.join(sep)\<close>.\<close>

fun join :: "string \<Rightarrow> string list \<Rightarrow> string" where
  "join sep [] = []"
| "join sep [x] = x"
| "join sep (x # y # xs) = x @ sep @ join sep (y # xs)"

text \<open>Decimal printing of counters and lengths.\<close>

definition digit_char :: "nat \<Rightarrow> char" where
  "digit_char d = char_of (48 + d)"

fun nat_digits :: "nat \<Rightarrow> nat list" where
  "nat_digits n = (if n < 10 then [n] else nat_digits (n div 10) @ [n mod 10])"

declare nat_digits.simps [simp del]

definition nat_str :: "nat \<Rightarrow> string" where
  "nat_str n = map digit_char (nat_digits n)"

definition int_str :: "int \<Rightarrow> string" where
  "int_str i = (if i < 0 then ''-'' @ nat_str (nat (- i)) else nat_str (nat i))"

text \<open>\<open>toUpperCase\<close> on the ASCII letters, the alphabet of sides, order types and currencies.\<close>

definition upper_char :: "char \<Rightarrow> char" where
  "upper_char c = (let n = (of_char c :: nat) in if 97 \<le> n \<and> n \<le> 122 then char_of (n - 32) else c)"

definition to_upper :: "string \<Rightarrow> string" where
  "to_upper s = map upper_char s"

definition lower_char :: "char \<Rightarrow> char" where
  "lower_char c = (let n = (of_char c :: nat) in if 65 \<le> n \<and> n \<le> 90 then char_of (n + 32) else c)"

definition to_lower :: "string \<Rightarrow> string" where
  "to_lower s = map lower_char s"

text \<open>The dashes and arrows of the source's messages, as UTF-8 bytes.\<close>

definition em_dash :: string where
  "em_dash = [CHR 0xE2, CHR 0x80, CHR 0x94]"

definition arrow :: string where
  "arrow = [CHR 0xE2, CHR 0x86, CHR 0x92]"

text \<open>Patterns found in a message: literals, with \<open>~\<close> standing for an optional character.\<close>

fun match_at :: "string \<Rightarrow> string \<Rightarrow> bool" where
  "match_at [] s = True"
| "match_at (p # ps) s =
     (if p = CHR ''~'' then match_at ps s \<or>
        (case s of [] \<Rightarrow> False | x # xs \<Rightarrow> x \<noteq> CHR 0x0A \<and> x \<noteq> CHR 0x0D \<and> match_at ps xs)
      else (case s of [] \<Rightarrow> False | x # xs \<Rightarrow> x = p \<and> match_at ps xs))"

fun found_in :: "string \<Rightarrow> string \<Rightarrow> bool" where
  "found_in p [] = match_at p []"
| "found_in p (x # xs) = (match_at p (x # xs) \<or> found_in p xs)"

text \<open>\<open>[...new Set(xs)]\<close>: first occurrences, in order.\<close>

fun uniq :: "'a list \<Rightarrow> 'a list" where
  "uniq [] = []"
| "uniq (x # xs) = x # uniq (filter (\<lambda>y. y \<noteq> x) xs)"

lemma uniq_filter: "uniq (filter P xs) = filter P (uniq xs)"
proof (induction xs rule: uniq.induct)
  case 1
  then show ?case by simp
next
  case (2 x xs)
  have comm: "filter (\<lambda>y. y \<noteq> x) (filter P xs) = filter P (filter (\<lambda>y. y \<noteq> x) xs)"
    by (simp add: conj_commute)
  show ?case
  proof (cases "P x")
    case True
    have "uniq (filter P (x # xs)) = x # uniq (filter (\<lambda>y. y \<noteq> x) (filter P xs))"
      using True by simp
    also have "\<dots> = x # uniq (filter P (filter (\<lambda>y. y \<noteq> x) xs))"
      by (simp only: comm)
    also have "\<dots> = x # filter P (uniq (filter (\<lambda>y. y \<noteq> x) xs))"
      by (simp only: "2.IH")
    finally show ?thesis using True by simp
  next
    case False
    have "filter P (filter (\<lambda>y. y \<noteq> x) xs) = filter P xs"
      using False by (auto intro: filter_cong)
    with False "2.IH" show ?thesis by simp
  qed
qed

lemma set_uniq [simp]: "set (uniq xs) = set xs"
  by (induction xs rule: uniq.induct) auto

lemma distinct_uniq [simp]: "distinct (uniq xs)"
  by (induction xs rule: uniq.induct) auto

section \<open>The insertion-ordered map\<close>

text \<open>
  A JavaScript \<open>Map\<close> keeps its entries in the order of first insertion: \<open>set\<close> on a present
  key replaces the value in place, on an absent key it appends.  \<open>AList.update\<close> and
  \<open>AList.delete\<close> do exactly that.  The locale states what the clients rely on.
\<close>

type_synonym ('k, 'v) jsmap = "('k \<times> 'v) list"

definition jm_get :: "('k, 'v) jsmap \<Rightarrow> 'k \<Rightarrow> 'v option" where
  "jm_get m k = map_of m k"

definition jm_set :: "'k \<Rightarrow> 'v \<Rightarrow> ('k, 'v) jsmap \<Rightarrow> ('k, 'v) jsmap" where
  "jm_set k v m = AList.update k v m"

definition jm_delete :: "'k \<Rightarrow> ('k, 'v) jsmap \<Rightarrow> ('k, 'v) jsmap" where
  "jm_delete k m = AList.delete k m"

definition jm_values :: "('k, 'v) jsmap \<Rightarrow> 'v list" where
  "jm_values m = map snd m"

definition jm_ok :: "('k, 'v) jsmap \<Rightarrow> bool" where
  "jm_ok m = distinct (map fst m)"

locale ordered_map =
  fixes lookup_m :: "'m \<Rightarrow> 'k \<Rightarrow> 'v option"
    and set_m :: "'k \<Rightarrow> 'v \<Rightarrow> 'm \<Rightarrow> 'm"
    and delete_m :: "'k \<Rightarrow> 'm \<Rightarrow> 'm"
    and invar_m :: "'m \<Rightarrow> bool"
  assumes lookup_set: "lookup_m (set_m k v m) = (lookup_m m)(k \<mapsto> v)"
    and lookup_delete: "invar_m m \<Longrightarrow> lookup_m (delete_m k m) = (lookup_m m)(k := None)"
    and invar_set: "invar_m m \<Longrightarrow> invar_m (set_m k v m)"
    and invar_delete: "invar_m m \<Longrightarrow> invar_m (delete_m k m)"
begin

lemma set_same: "lookup_m (set_m k v m) k = Some v"
  by (simp add: lookup_set)

lemma set_other: "k' \<noteq> k \<Longrightarrow> lookup_m (set_m k v m) k' = lookup_m m k'"
  by (simp add: lookup_set)

lemma set_set: "lookup_m (set_m k v (set_m k v' m)) = lookup_m (set_m k v m)"
  by (simp add: lookup_set)

lemma delete_same: "invar_m m \<Longrightarrow> lookup_m (delete_m k m) k = None"
  by (simp add: lookup_delete)

lemma delete_other: "invar_m m \<Longrightarrow> k' \<noteq> k \<Longrightarrow> lookup_m (delete_m k m) k' = lookup_m m k'"
  by (simp add: lookup_delete)

end

interpretation jm: ordered_map jm_get jm_set jm_delete jm_ok
proof unfold_locales
  fix m :: "('k, 'v) jsmap" and k v
  show "jm_get (jm_set k v m) = (jm_get m)(k \<mapsto> v)"
    by (auto simp: jm_get_def jm_set_def update_conv')
next
  fix m :: "('k, 'v) jsmap" and k
  show "jm_get (jm_delete k m) = (jm_get m)(k := None)"
    by (auto simp: jm_get_def jm_delete_def delete_conv')
next
  fix m :: "('k, 'v) jsmap" and k v
  assume "jm_ok m"
  then show "jm_ok (jm_set k v m)"
    by (simp add: jm_ok_def jm_set_def distinct_update)
next
  fix m :: "('k, 'v) jsmap" and k
  assume "jm_ok m"
  then show "jm_ok (jm_delete k m)"
    by (simp add: jm_ok_def jm_delete_def distinct_delete)
qed

lemmas jm_lookup [simp] = jm.set_same jm.set_other

lemma jm_get_Nil [simp]: "jm_get [] k = None"
  by (simp add: jm_get_def)

lemma jm_ok_Nil [simp]: "jm_ok []"
  by (simp add: jm_ok_def)

lemma jm_get_in_values: "jm_get m k = Some v \<Longrightarrow> v \<in> set (jm_values m)"
  by (auto simp: jm_get_def jm_values_def dest!: map_of_SomeD intro: rev_image_eqI)

lemma jm_keys_set: "fst ` set (jm_set k v m) = insert k (fst ` set m)"
  by (simp add: jm_set_def dom_update)

section \<open>Lists\<close>

text \<open>Sequential map of a throwing function: stops at the first error.\<close>

fun mapE :: "('a \<Rightarrow> 'e + 'b) \<Rightarrow> 'a list \<Rightarrow> 'e + 'b list" where
  "mapE f [] = Inr []"
| "mapE f (x # xs) = bindE (f x) (\<lambda>y. bindE (mapE f xs) (\<lambda>ys. Inr (y # ys)))"

lemma mapE_Inr_length: "mapE f xs = Inr ys \<Longrightarrow> length ys = length xs"
  by (induction xs arbitrary: ys) (auto simp: bindE_eq_Inr)

lemma mapE_Inr_map: "(\<And>x. x \<in> set xs \<Longrightarrow> f x = Inr (g x)) \<Longrightarrow> mapE f xs = Inr (map g xs)"
  by (induction xs) auto

text \<open>A loop whose body may throw.\<close>

fun foldE :: "('x \<Rightarrow> 's \<Rightarrow> 'e + 's) \<Rightarrow> 'x list \<Rightarrow> 's \<Rightarrow> 'e + 's" where
  "foldE f [] s = Inr s"
| "foldE f (x # xs) s = bindE (f x s) (foldE f xs)"

lemma foldE_append: "foldE f (xs @ ys) s = bindE (foldE f xs s) (foldE f ys)"
proof (induction xs arbitrary: s)
  case Nil
  then show ?case by simp
next
  case (Cons x xs)
  then show ?case by (cases "f x s") simp_all
qed

lemma foldE_invariant:
  assumes "foldE f xs s = Inr s'" and "I s"
    and "\<And>x s s'. x \<in> set xs \<Longrightarrow> I s \<Longrightarrow> f x s = Inr s' \<Longrightarrow> I s'"
  shows "I s'"
  using assms
proof (induction xs arbitrary: s)
  case Nil
  then show ?case by simp
next
  case (Cons x xs)
  from Cons.prems(1) obtain s1 where s1: "f x s = Inr s1" "foldE f xs s1 = Inr s'"
    by (auto simp: bindE_eq_Inr)
  have "I s1" using Cons.prems(3) [OF _ Cons.prems(2) s1(1)] by simp
  moreover have "I s2" if "y \<in> set xs" "I s3" "f y s3 = Inr s2" for y s3 s2
    using Cons.prems(3) [of y s3 s2] that by simp
  ultimately show ?case using Cons.IH [OF s1(2)] by blast
qed

lemma mapE_Inr_nth: "mapE f xs = Inr ys \<Longrightarrow> i < length xs \<Longrightarrow> f (xs ! i) = Inr (ys ! i)"
proof (induction xs arbitrary: ys i)
  case Nil
  then show ?case by simp
next
  case (Cons x xs)
  then show ?case by (cases i) (auto simp: bindE_eq_Inr)
qed

lemma find_append: "find P (xs @ ys) = (case find P xs of Some x \<Rightarrow> Some x | None \<Rightarrow> find P ys)"
  by (induction xs) auto

lemma find_None_rev: "find P xs = None \<Longrightarrow> find P (rev xs) = None"
  unfolding find_None_iff by simp

text \<open>\<open>xs[i]\<close>: \<open>undefined\<close> out of range.\<close>

definition elem_at :: "'a list \<Rightarrow> nat \<Rightarrow> 'a option" where
  "elem_at xs i = (if i < length xs then Some (xs ! i) else None)"

lemma elem_at_simps [simp]:
  "elem_at [] i = None"
  "elem_at (x # xs) 0 = Some x"
  "elem_at (x # xs) (Suc i) = elem_at xs i"
  by (simp_all add: elem_at_def)

lemma elem_at_in_set: "elem_at xs i = Some x \<Longrightarrow> x \<in> set xs"
  by (auto simp: elem_at_def split: if_splits)

end
