(* ===== verification/Decimal_JS.thy ===== *)
theory Decimal_JS
  imports Complex_Main UTA_Prelude
begin

text \<open>
  The decimal numbers of the trading code.  The code computes with the package \<open>decimal.js\<close>,
  which is not part of the repository.  A value of its class is modelled by what it denotes: a
  rational number, one of the two infinities, or \<open>NaN\<close>; comparison and sign are read off
  that value (a signed zero is the zero it compares equal to).  The package's rounding
  arithmetic, its parser and its printers are parameters: a record \<open>decimal_js\<close> that every
  definition using them takes as an argument.  The locale \<open>decimal_laws\<close> lists the documented
  behaviour of the package that the proofs rely on, \<open>decimal_exact\<close> adds that no result of the
  computation at hand needs more digits than the configured precision.
\<close>

section \<open>Values\<close>

datatype dec = Fin rat | PosInf | NegInf | NotANumber

text \<open>\<open>UNSET_DECIMAL\<close> of the IBKR package, the sentinel of an absent field.\<close>

definition UNSET_DECIMAL :: dec where
  "UNSET_DECIMAL = Fin 170141183460469231731687303715884105727"

text \<open>\<open>UNSET_DOUBLE\<close>, the largest finite double, as the rational it denotes.\<close>

definition UNSET_DOUBLE :: rat where
  "UNSET_DOUBLE = 179769313486231570814527423731704356798070567525844996598917476803157260780028538760589558632766878171540458953514382464234321326889464182768467546703537516986049910576551282076245490090389328944075868508455133942304583236903222948165808559332123348274797826204144723168738177180919299881250404026184124858368"

fun d_lt :: "dec \<Rightarrow> dec \<Rightarrow> bool" where
  "d_lt (Fin a) (Fin b) = (a < b)"
| "d_lt (Fin a) PosInf = True"
| "d_lt NegInf (Fin b) = True"
| "d_lt NegInf PosInf = True"
| "d_lt _ _ = False"

definition d_equals :: "dec \<Rightarrow> dec \<Rightarrow> bool" where
  "d_equals a b = (a \<noteq> NotANumber \<and> a = b)"

definition d_lte :: "dec \<Rightarrow> dec \<Rightarrow> bool" where
  "d_lte a b = (d_lt a b \<or> d_equals a b)"

definition d_gt :: "dec \<Rightarrow> dec \<Rightarrow> bool" where
  "d_gt a b = d_lt b a"

definition d_gte :: "dec \<Rightarrow> dec \<Rightarrow> bool" where
  "d_gte a b = d_lte b a"

definition d_isZero :: "dec \<Rightarrow> bool" where
  "d_isZero a = (a = Fin 0)"

definition d_isFinite :: "dec \<Rightarrow> bool" where
  "d_isFinite a = (case a of Fin _ \<Rightarrow> True | _ \<Rightarrow> False)"

fun d_neg :: "dec \<Rightarrow> dec" where
  "d_neg (Fin a) = Fin (- a)"
| "d_neg PosInf = NegInf"
| "d_neg NegInf = PosInf"
| "d_neg NotANumber = NotANumber"

fun d_abs :: "dec \<Rightarrow> dec" where
  "d_abs (Fin a) = Fin \<bar>a\<bar>"
| "d_abs PosInf = PosInf"
| "d_abs NegInf = PosInf"
| "d_abs NotANumber = NotANumber"

text \<open>\<open>Decimal.max(a, b)\<close>: \<open>NaN\<close> when an argument is.\<close>

definition d_max :: "dec \<Rightarrow> dec \<Rightarrow> dec" where
  "d_max a b = (if a = NotANumber \<or> b = NotANumber then NotANumber
                else if d_lt a b then b else a)"

lemma d_equals_Fin [simp, dec_simps]: "d_equals (Fin a) (Fin b) \<longleftrightarrow> a = b"
  by (simp add: d_equals_def)

lemma d_equals_refl [simp]: "d_equals (Fin a) (Fin a)"
  by simp

lemma d_lte_Fin [simp, dec_simps]: "d_lte (Fin a) (Fin b) \<longleftrightarrow> a \<le> b"
  by (auto simp: d_lte_def)

lemma d_gt_Fin [simp, dec_simps]: "d_gt (Fin a) (Fin b) \<longleftrightarrow> b < a"
  by (simp add: d_gt_def)

lemma d_gte_Fin [simp, dec_simps]: "d_gte (Fin a) (Fin b) \<longleftrightarrow> b \<le> a"
  by (simp add: d_gte_def)

lemma d_isZero_Fin [simp, dec_simps]: "d_isZero (Fin a) \<longleftrightarrow> a = 0"
  by (simp add: d_isZero_def)

lemma d_isFinite_simps [simp, dec_simps]:
  "d_isFinite (Fin a)" "\<not> d_isFinite PosInf" "\<not> d_isFinite NegInf" "\<not> d_isFinite NotANumber"
  by (simp_all add: d_isFinite_def)

lemma d_isFiniteE:
  assumes "d_isFinite d"
  obtains a where "d = Fin a"
  using assms by (cases d) auto

lemma d_gt_Fin_finite: "d_gt d (Fin a) \<Longrightarrow> d_isFinite d \<Longrightarrow> \<exists>b. d = Fin b \<and> a < b"
  by (cases d) auto

lemma d_compare_NaN [simp, dec_simps]:
  "\<not> d_lt NotANumber b" "\<not> d_lt a NotANumber" "\<not> d_gt NotANumber b" "\<not> d_gt a NotANumber"
  "\<not> d_equals NotANumber b" "\<not> d_equals a NotANumber"
  "\<not> d_lte NotANumber b" "\<not> d_lte a NotANumber"
  by (cases a; cases b; simp add: d_gt_def d_lte_def d_equals_def)+

lemma d_max_Fin [simp, dec_simps]: "d_max (Fin a) (Fin b) = Fin (max a b)"
  by (auto simp: d_max_def max_def)

lemma d_max_NaN [simp, dec_simps]: "d_max NotANumber b = NotANumber" "d_max a NotANumber = NotANumber"
  by (simp_all add: d_max_def)

lemma d_lt_irrefl [simp]: "\<not> d_lt a a"
  by (cases a) auto

lemma d_lt_trans: "d_lt a b \<Longrightarrow> d_lt b c \<Longrightarrow> d_lt a c"
  by (cases a; cases b; cases c) auto

lemma d_lt_imp_not_gt: "d_lt a b \<Longrightarrow> \<not> d_gt a b"
  by (cases a; cases b) (auto simp: d_gt_def)

section \<open>The package as a parameter\<close>

text \<open>
  \<open>dj_parse s\<close> is \<open>new Decimal(s)\<close> (\<open>None\<close>: it throws), the two printers are \<open>toString\<close>
  and \<open>toFixed\<close> without and with a number of places, \<open>dj_num_str\<close> prints a JavaScript number
  (\<open>String(n)\<close>, a template's hole).
\<close>

record decimal_js =
  dj_plus :: "dec \<Rightarrow> dec \<Rightarrow> dec"
  dj_minus :: "dec \<Rightarrow> dec \<Rightarrow> dec"
  dj_times :: "dec \<Rightarrow> dec \<Rightarrow> dec"
  dj_div :: "dec \<Rightarrow> dec \<Rightarrow> dec"
  dj_parse :: "string \<Rightarrow> dec option"
  dj_to_string :: "dec \<Rightarrow> string"
  dj_to_fixed :: "dec \<Rightarrow> string"
  dj_to_fixed_dp :: "nat \<Rightarrow> dec \<Rightarrow> string"
  dj_num_str :: "rat \<Rightarrow> string"

text \<open>\<open>new Decimal(s)\<close> with its exception, and on an optional or empty string with a default.\<close>

definition new_dec :: "decimal_js \<Rightarrow> string \<Rightarrow> js_error + dec" where
  "new_dec D s = (case dj_parse D s of None \<Rightarrow> Inl (DecimalError s) | Some d \<Rightarrow> Inr d)"

lemma new_dec_Inr [simp]: "new_dec D s = Inr d \<longleftrightarrow> dj_parse D s = Some d"
  by (simp add: new_dec_def split: option.splits)

text \<open>The values a \<open>Decimal\<close> can hold: finite decimal fractions and the special values.\<close>

fun dec_repr :: "dec \<Rightarrow> bool" where
  "dec_repr (Fin r) = (\<exists>k \<le> nat (snd (quotient_of r)). snd (quotient_of r) dvd 10 ^ k)"
| "dec_repr _ = True"

declare dec_repr.simps(1) [simp del]

text \<open>
  Documented behaviour: a result of \<open>plus\<close>, \<open>minus\<close>, \<open>times\<close>, \<open>div\<close> on finite operands is
  the exact result rounded to the configured precision by \<open>rnd\<close>; rounding is monotone, keeps
  zero and only zero at zero; \<open>NaN\<close> is absorbing; parsing inverts both printers.
\<close>

locale decimal_laws =
  fixes D :: decimal_js and rnd :: "rat \<Rightarrow> rat"
  assumes plus_Fin: "dj_plus D (Fin a) (Fin b) = Fin (rnd (a + b))"
    and minus_Fin: "dj_minus D (Fin a) (Fin b) = Fin (rnd (a - b))"
    and times_Fin: "dj_times D (Fin a) (Fin b) = Fin (rnd (a * b))"
    and div_Fin: "b \<noteq> 0 \<Longrightarrow> dj_div D (Fin a) (Fin b) = Fin (rnd (a / b))"
    and rnd_mono: "x \<le> y \<Longrightarrow> rnd x \<le> rnd y"
    and rnd_eq_0: "rnd x = 0 \<longleftrightarrow> x = 0"
    and NaN_left: "dj_plus D NotANumber u = NotANumber" "dj_minus D NotANumber u = NotANumber"
      "dj_times D NotANumber u = NotANumber" "dj_div D NotANumber u = NotANumber"
    and NaN_right: "dj_plus D u NotANumber = NotANumber" "dj_minus D u NotANumber = NotANumber"
      "dj_times D u NotANumber = NotANumber" "dj_div D u NotANumber = NotANumber"
    and parse_to_string: "dec_repr d \<Longrightarrow> dj_parse D (dj_to_string D d) = Some d"
    and parse_to_fixed: "dec_repr d \<Longrightarrow> dj_parse D (dj_to_fixed D d) = Some d"
    and print_nonempty: "dj_to_string D d \<noteq> []" "dj_to_fixed D d \<noteq> []"
begin

lemma rnd_0: "rnd 0 = 0"
  by (simp add: rnd_eq_0)

lemma rnd_pos: "0 < x \<Longrightarrow> 0 < rnd x"
  using rnd_mono [of 0 x] rnd_eq_0 [of x] by (auto simp: rnd_0)

lemma rnd_neg: "x < 0 \<Longrightarrow> rnd x < 0"
  using rnd_mono [of x 0] rnd_eq_0 [of x] by (auto simp: rnd_0)

lemma rnd_nonneg_iff: "0 \<le> rnd x \<longleftrightarrow> 0 \<le> x"
  using rnd_pos [of x] rnd_neg [of x] by (cases x "0 :: rat" rule: linorder_cases) (auto simp: rnd_0)

lemma rnd_pos_iff: "0 < rnd x \<longleftrightarrow> 0 < x"
  using rnd_pos [of x] rnd_nonneg_iff [of "x"] rnd_eq_0 [of x] by (auto simp: less_le)

lemma rnd_le_0_iff: "rnd x \<le> 0 \<longleftrightarrow> x \<le> 0"
  using rnd_pos_iff [of x] by (simp add: not_less [symmetric])

lemma rnd_less_0_iff: "rnd x < 0 \<longleftrightarrow> x < 0"
  using rnd_nonneg_iff [of x] by (simp add: not_le [symmetric])

lemmas dj_arith = plus_Fin minus_Fin times_Fin div_Fin

lemma minus_gt_0: "d_lt (dj_minus D (Fin a) (Fin b)) (Fin 0) \<longleftrightarrow> a < b"
  by (simp add: dj_arith rnd_less_0_iff)

lemma minus_isZero: "d_isZero (dj_minus D (Fin a) (Fin b)) \<longleftrightarrow> a = b"
  by (simp add: dj_arith rnd_eq_0)

lemma div_mono_pos: "0 < b \<Longrightarrow> a \<le> a' \<Longrightarrow>
    d_lte (dj_div D (Fin a) (Fin b)) (dj_div D (Fin a') (Fin b))"
  by (simp add: dj_arith rnd_mono divide_right_mono)

end

locale decimal_exact = decimal_laws +
  assumes rnd_exact: "rnd x = x"
begin

lemma exact_arith:
  "dj_plus D (Fin a) (Fin b) = Fin (a + b)"
  "dj_minus D (Fin a) (Fin b) = Fin (a - b)"
  "dj_times D (Fin a) (Fin b) = Fin (a * b)"
  "b \<noteq> 0 \<Longrightarrow> dj_div D (Fin a) (Fin b) = Fin (a / b)"
  by (simp_all add: dj_arith rnd_exact)

end

end
