(* ===== verification/Git_Types.thy ===== *)
theory Git_Types
  imports Decimal_JS
begin

text \<open>
  The data of the trading ledger: IBKR contracts and orders
  (\<open>packages/ibkr/src/contract.ts\<close>, \<open>order.ts\<close>), positions, account and quote data of the broker
  interface (\<open>packages/uta-protocol/src/types/broker.ts\<close>) and the operations, results, commits
  and state snapshots of the ledger (\<open>packages/uta-protocol/src/types/git.ts\<close>), with the sentinel
  boundary of \<open>OrderHelper.ts\<close>.

  A field that is a \<open>Decimal\<close> in memory holds a string once it went through \<open>JSON.parse\<close>, until
  some code wraps it again; \<open>jdec\<close> is such a field.  Positions are generic in the type of their
  quantity: \<open>dec\<close> in memory, \<open>string\<close> in a persisted file.
\<close>

section \<open>Decimal fields\<close>

datatype jdec = DVal dec | DStr string

text \<open>Calling a \<open>Decimal\<close> method on the field, and its truthiness.\<close>

fun as_dec :: "jdec \<Rightarrow> js_error + dec" where
  "as_dec (DVal d) = Inr d"
| "as_dec (DStr s) = Inl TypeError"

fun jd_truthy :: "jdec option \<Rightarrow> bool" where
  "jd_truthy None = False"
| "jd_truthy (Some (DVal d)) = True"
| "jd_truthy (Some (DStr s)) = (s \<noteq> [])"

text \<open>\<open>String(x)\<close>, and what \<open>JSON.stringify\<close> and \<open>JSON.parse\<close> leave of the field.\<close>

fun jd_string :: "decimal_js \<Rightarrow> jdec \<Rightarrow> string" where
  "jd_string D (DVal d) = dj_to_string D d"
| "jd_string D (DStr s) = s"

definition jd_json :: "decimal_js \<Rightarrow> jdec \<Rightarrow> jdec" where
  "jd_json D x = DStr (jd_string D x)"

text \<open>\<open>new Decimal(String(x))\<close>.\<close>

definition jd_wrap :: "decimal_js \<Rightarrow> jdec \<Rightarrow> js_error + jdec" where
  "jd_wrap D x = bindE (new_dec D (jd_string D x)) (\<lambda>d. Inr (DVal d))"

fun jd_is_unset :: "jdec \<Rightarrow> bool" where
  "jd_is_unset (DVal d) = d_equals d UNSET_DECIMAL"
| "jd_is_unset (DStr s) = False"

fun jd_opt_repr :: "jdec option \<Rightarrow> bool" where
  "jd_opt_repr (Some (DVal d)) = dec_repr d"
| "jd_opt_repr _ = True"

lemma d_equals_UNSET [simp]: "d_equals UNSET_DECIMAL UNSET_DECIMAL"
  by (simp add: UNSET_DECIMAL_def)

section \<open>Contracts\<close>

record contract =
  c_conId :: int
  c_symbol :: string
  c_secType :: string
  c_lastTradeDateOrContractMonth :: string
  c_strike :: rat
  c_right :: string
  c_multiplier :: string
  c_exchange :: string
  c_primaryExchange :: string
  c_currency :: string
  c_localSymbol :: string
  c_tradingClass :: string
  c_secIdType :: string
  c_secId :: string
  c_description :: string
  c_issuerId :: string
  c_aliceId :: "string option"

definition new_contract :: contract where
  "new_contract =
     \<lparr>c_conId = 0, c_symbol = '''', c_secType = '''', c_lastTradeDateOrContractMonth = '''',
      c_strike = UNSET_DOUBLE, c_right = '''', c_multiplier = '''', c_exchange = '''',
      c_primaryExchange = '''', c_currency = '''', c_localSymbol = '''', c_tradingClass = '''',
      c_secIdType = '''', c_secId = '''', c_description = '''', c_issuerId = '''', c_aliceId = None\<rparr>"

text \<open>\<open>contract.symbol || contract.aliceId || d\<close>.\<close>

definition contract_label :: "contract \<Rightarrow> string \<Rightarrow> string" where
  "contract_label c d = or_str (c_symbol c) (opt_or (c_aliceId c) d)"

section \<open>Orders\<close>

text \<open>
  \<open>Order\<close> and \<open>Partial<Order>\<close>: every field is optional; \<open>new Order()\<close> fills in the defaults.
  The fields of the class that the trading code never reads are left out; they are copied along
  with the object wherever a spread copies it.
\<close>

record order =
  o_orderId :: "int option"
  o_action :: "string option"
  o_totalQuantity :: "jdec option"
  o_orderType :: "string option"
  o_lmtPrice :: "jdec option"
  o_auxPrice :: "jdec option"
  o_tif :: "string option"
  o_ocaGroup :: "string option"
  o_parentId :: "int option"
  o_outsideRth :: "bool option"
  o_goodTillDate :: "string option"
  o_trailStopPrice :: "jdec option"
  o_trailingPercent :: "jdec option"
  o_cashQty :: "jdec option"
  o_filledQuantity :: "jdec option"

definition new_order :: order where
  "new_order =
     \<lparr>o_orderId = Some 0, o_action = Some '''', o_totalQuantity = Some (DVal UNSET_DECIMAL),
      o_orderType = Some '''', o_lmtPrice = Some (DVal UNSET_DECIMAL),
      o_auxPrice = Some (DVal UNSET_DECIMAL), o_tif = Some '''', o_ocaGroup = Some '''',
      o_parentId = Some 0, o_outsideRth = Some False, o_goodTillDate = Some '''',
      o_trailStopPrice = Some (DVal UNSET_DECIMAL), o_trailingPercent = Some (DVal UNSET_DECIMAL),
      o_cashQty = Some (DVal UNSET_DECIMAL), o_filledQuantity = Some (DVal UNSET_DECIMAL)\<rparr>"

definition empty_changes :: order where
  "empty_changes =
     \<lparr>o_orderId = None, o_action = None, o_totalQuantity = None, o_orderType = None,
      o_lmtPrice = None, o_auxPrice = None, o_tif = None, o_ocaGroup = None, o_parentId = None,
      o_outsideRth = None, o_goodTillDate = None, o_trailStopPrice = None,
      o_trailingPercent = None, o_cashQty = None, o_filledQuantity = None\<rparr>"

text \<open>\<open>Object.assign(target, source)\<close> on the present fields of the source.\<close>

definition over :: "'a option \<Rightarrow> 'a option \<Rightarrow> 'a option" where
  "over a b = (case b of None \<Rightarrow> a | Some _ \<Rightarrow> b)"

definition assign_order :: "order \<Rightarrow> order \<Rightarrow> order" where
  "assign_order t s =
     \<lparr>o_orderId = over (o_orderId t) (o_orderId s), o_action = over (o_action t) (o_action s),
      o_totalQuantity = over (o_totalQuantity t) (o_totalQuantity s),
      o_orderType = over (o_orderType t) (o_orderType s),
      o_lmtPrice = over (o_lmtPrice t) (o_lmtPrice s),
      o_auxPrice = over (o_auxPrice t) (o_auxPrice s), o_tif = over (o_tif t) (o_tif s),
      o_ocaGroup = over (o_ocaGroup t) (o_ocaGroup s),
      o_parentId = over (o_parentId t) (o_parentId s),
      o_outsideRth = over (o_outsideRth t) (o_outsideRth s),
      o_goodTillDate = over (o_goodTillDate t) (o_goodTillDate s),
      o_trailStopPrice = over (o_trailStopPrice t) (o_trailStopPrice s),
      o_trailingPercent = over (o_trailingPercent t) (o_trailingPercent s),
      o_cashQty = over (o_cashQty t) (o_cashQty s),
      o_filledQuantity = over (o_filledQuantity t) (o_filledQuantity s)\<rparr>"

lemma over_simps [simp]: "over a None = a" "over a (Some x) = Some x"
  by (simp_all add: over_def)

text \<open>The decimal fields of an order, in the order of \<open>SENTINEL_DECIMAL_FIELDS\<close>.\<close>

definition sentinel_fields :: "order \<Rightarrow> jdec option list" where
  "sentinel_fields od =
     [o_totalQuantity od, o_cashQty od, o_lmtPrice od, o_auxPrice od, o_trailStopPrice od,
      o_trailingPercent od, o_filledQuantity od]"

definition map_decimals :: "(jdec option \<Rightarrow> jdec option) \<Rightarrow> order \<Rightarrow> order" where
  "map_decimals f od = od
     \<lparr>o_totalQuantity := f (o_totalQuantity od), o_cashQty := f (o_cashQty od),
      o_lmtPrice := f (o_lmtPrice od), o_auxPrice := f (o_auxPrice od),
      o_trailStopPrice := f (o_trailStopPrice od),
      o_trailingPercent := f (o_trailingPercent od),
      o_filledQuantity := f (o_filledQuantity od)\<rparr>"

lemma sentinel_fields_map: "sentinel_fields (map_decimals f od) = map f (sentinel_fields od)"
  by (simp add: sentinel_fields_def map_decimals_def)

lemma map_decimals_comp: "map_decimals f (map_decimals g od) = map_decimals (f \<circ> g) od"
  by (simp add: map_decimals_def)

lemma map_decimals_id: "(\<And>x. x \<in> set (sentinel_fields od) \<Longrightarrow> f x = x) \<Longrightarrow> map_decimals f od = od"
  by (simp add: map_decimals_def sentinel_fields_def)

section \<open>The sentinel boundary\<close>

text \<open>\<open>OrderHelper.toWire\<close>: the fields that hold the sentinel are deleted.\<close>

definition wire_field :: "jdec option \<Rightarrow> jdec option" where
  "wire_field x = (case x of None \<Rightarrow> None | Some v \<Rightarrow> if jd_is_unset v then None else Some v)"

definition toWire :: "order \<Rightarrow> order" where
  "toWire od = map_decimals wire_field od"

definition no_sentinel :: "order \<Rightarrow> bool" where
  "no_sentinel od = list_all (\<lambda>x. case x of None \<Rightarrow> True | Some v \<Rightarrow> \<not> jd_is_unset v) (sentinel_fields od)"

lemma wire_field_idem [simp]: "wire_field (wire_field x) = wire_field x"
  by (auto simp: wire_field_def split: option.splits)

lemma wire_field_clean: "wire_field x = Some v \<Longrightarrow> \<not> jd_is_unset v"
  by (auto simp: wire_field_def split: option.splits if_splits)

lemma no_sentinel_toWire [simp]: "no_sentinel (toWire od)"
  by (auto simp: no_sentinel_def toWire_def sentinel_fields_map list_all_iff wire_field_clean
      split: option.splits)

lemma toWire_idem [simp]: "toWire (toWire od) = toWire od"
  by (simp add: toWire_def map_decimals_comp comp_def)

lemma toWire_clean: "no_sentinel od \<Longrightarrow> toWire od = od"
  unfolding toWire_def
  by (rule map_decimals_id) (auto simp: no_sentinel_def list_all_iff wire_field_def split: option.splits)

text \<open>\<open>OrderHelper.read\<close>: the nullable view; \<open>unsetToUndef\<close> calls a method of the field.\<close>

record order_view =
  v_action :: "string option"
  v_orderType :: "string option"
  v_tif :: "string option"
  v_totalQuantity :: "dec option"
  v_cashQty :: "dec option"
  v_lmtPrice :: "dec option"
  v_auxPrice :: "dec option"
  v_trailStopPrice :: "dec option"
  v_trailingPercent :: "dec option"
  v_filledQuantity :: "dec option"
  v_outsideRth :: "bool option"
  v_parentId :: "int option"
  v_ocaGroup :: "string option"
  v_goodTillDate :: "string option"

definition unsetToUndef :: "jdec option \<Rightarrow> js_error + dec option" where
  "unsetToUndef x = (case x of None \<Rightarrow> Inl TypeError | Some v \<Rightarrow>
     bindE (as_dec v) (\<lambda>d. Inr (if d_equals d UNSET_DECIMAL then None else Some d)))"

definition nonempty :: "string option \<Rightarrow> string option" where
  "nonempty s = (if truthy s then s else None)"

definition read_order :: "order \<Rightarrow> js_error + order_view" where
  "read_order od =
     bindE (unsetToUndef (o_totalQuantity od)) (\<lambda>tq.
     bindE (unsetToUndef (o_cashQty od)) (\<lambda>cq.
     bindE (unsetToUndef (o_lmtPrice od)) (\<lambda>lp.
     bindE (unsetToUndef (o_auxPrice od)) (\<lambda>ap.
     bindE (unsetToUndef (o_trailStopPrice od)) (\<lambda>ts.
     bindE (unsetToUndef (o_trailingPercent od)) (\<lambda>tp.
     bindE (unsetToUndef (o_filledQuantity od)) (\<lambda>fq.
     Inr \<lparr>v_action = o_action od, v_orderType = o_orderType od, v_tif = nonempty (o_tif od),
          v_totalQuantity = tq, v_cashQty = cq, v_lmtPrice = lp, v_auxPrice = ap,
          v_trailStopPrice = ts, v_trailingPercent = tp, v_filledQuantity = fq,
          v_outsideRth = (if o_outsideRth od = Some True then Some True else None),
          v_parentId = (if o_parentId od = Some 0 then None else o_parentId od),
          v_ocaGroup = nonempty (o_ocaGroup od),
          v_goodTillDate = nonempty (o_goodTillDate od)\<rparr>)))))))"

lemma unsetToUndef_DVal [simp]:
  "unsetToUndef (Some (DVal d)) = Inr (if d_equals d UNSET_DECIMAL then None else Some d)"
  by (simp add: unsetToUndef_def)

section \<open>Positions, orders and accounts of the broker interface\<close>

datatype side = Long | Short

datatype cost_source = FromBroker | FromWallet

record position_risk =
  pr_leverage :: "string option"
  pr_liquidationPrice :: "string option"
  pr_marginMode :: "string option"

record 'q position =
  p_contract :: contract
  p_currency :: string
  p_side :: side
  p_quantity :: 'q
  p_avgCost :: string
  p_marketPrice :: string
  p_marketValue :: string
  p_unrealizedPnL :: string
  p_realizedPnL :: string
  p_multiplier :: "string option"
  p_avgCostSource :: "cost_source option"
  p_risk :: "position_risk option"

definition map_quantity :: "('a \<Rightarrow> 'b) \<Rightarrow> 'a position \<Rightarrow> 'b position" where
  "map_quantity f p =
     \<lparr>p_contract = p_contract p, p_currency = p_currency p, p_side = p_side p,
      p_quantity = f (p_quantity p), p_avgCost = p_avgCost p, p_marketPrice = p_marketPrice p,
      p_marketValue = p_marketValue p, p_unrealizedPnL = p_unrealizedPnL p,
      p_realizedPnL = p_realizedPnL p, p_multiplier = p_multiplier p,
      p_avgCostSource = p_avgCostSource p, p_risk = p_risk p\<rparr>"

datatype leg_kind = TakeProfit | StopLoss

record leg =
  l_orderId :: string
  l_kind :: leg_kind

text \<open>\<open>TpSlParams\<close>: the price of the take profit, price and limit of the stop loss.\<close>

record tpsl =
  ts_takeProfit :: "string option"
  ts_stopLoss :: "(string \<times> string option) option"

record order_state =
  os_status :: string
  os_commissionAndFees :: rat
  os_commissionAndFeesCurrency :: string

record open_order =
  oo_contract :: contract
  oo_order :: order
  oo_orderState :: order_state
  oo_orderId :: "string option"
  oo_avgFillPrice :: "string option"
  oo_tpsl :: "tpsl option"

record account_info =
  ai_baseCurrency :: string
  ai_netLiquidation :: string
  ai_totalCashValue :: string
  ai_unrealizedPnL :: string
  ai_realizedPnL :: "string option"
  ai_buyingPower :: "string option"
  ai_initMarginReq :: "string option"
  ai_maintMarginReq :: "string option"
  ai_dayTradesRemaining :: "int option"

datatype sub_kind = SubSpot | SubDerivatives | SubUnified

record sub_account_ref =
  sa_id :: string
  sa_label :: string
  sa_kind :: sub_kind

text \<open>The time value of a \<open>Date\<close> is absent when the date is invalid.\<close>

record quote =
  q_contract :: contract
  q_last :: string
  q_bid :: string
  q_ask :: string
  q_volume :: string
  q_high :: "string option"
  q_low :: "string option"
  q_timestamp :: "int option"

section \<open>Operations and results of the ledger\<close>

record order_cancel =
  oc_manualOrderCancelTime :: string
  oc_extOperator :: string
  oc_manualOrderIndicator :: int

datatype operation =
    PlaceOrder contract order "tpsl option"
  | ModifyOrder string order
  | ClosePosition contract "jdec option"
  | CancelOrder string "order_cancel option"
  | SyncOrders
  | ObserveExternalOrder contract order
  | ReconcileBalance string string string

datatype action =
  ActPlaceOrder | ActModifyOrder | ActClosePosition | ActCancelOrder | ActSyncOrders
  | ActObserveExternalOrder | ActReconcileBalance

fun op_action :: "operation \<Rightarrow> action" where
  "op_action (PlaceOrder _ _ _) = ActPlaceOrder"
| "op_action (ModifyOrder _ _) = ActModifyOrder"
| "op_action (ClosePosition _ _) = ActClosePosition"
| "op_action (CancelOrder _ _) = ActCancelOrder"
| "op_action SyncOrders = ActSyncOrders"
| "op_action (ObserveExternalOrder _ _) = ActObserveExternalOrder"
| "op_action (ReconcileBalance _ _ _) = ActReconcileBalance"

datatype op_status = Submitted | Filled | Rejected | Cancelled | UserRejected

fun status_str :: "op_status \<Rightarrow> string" where
  "status_str Submitted = ''submitted''"
| "status_str Filled = ''filled''"
| "status_str Rejected = ''rejected''"
| "status_str Cancelled = ''cancelled''"
| "status_str UserRejected = ''user-rejected''"

fun action_str :: "action \<Rightarrow> string" where
  "action_str ActPlaceOrder = ''placeOrder''"
| "action_str ActModifyOrder = ''modifyOrder''"
| "action_str ActClosePosition = ''closePosition''"
| "action_str ActCancelOrder = ''cancelOrder''"
| "action_str ActSyncOrders = ''syncOrders''"
| "action_str ActObserveExternalOrder = ''observeExternalOrder''"
| "action_str ActReconcileBalance = ''reconcileBalance''"

text \<open>An execution is represented by its price, the only field the ledger reads.\<close>

record op_result =
  r_action :: action
  r_success :: bool
  r_orderId :: "string option"
  r_status :: op_status
  r_executionPrice :: "rat option"
  r_orderState :: "string option"
  r_filledQty :: "string option"
  r_filledPrice :: "string option"
  r_fee :: "string option"
  r_feeCurrency :: "string option"
  r_error :: "string option"
  r_legs :: "leg list option"
  r_symbol :: "string option"

definition result_of :: "action \<Rightarrow> bool \<Rightarrow> op_status \<Rightarrow> op_result" where
  "result_of a ok s =
     \<lparr>r_action = a, r_success = ok, r_orderId = None, r_status = s, r_executionPrice = None,
      r_orderState = None, r_filledQty = None, r_filledPrice = None, r_fee = None,
      r_feeCurrency = None, r_error = None, r_legs = None, r_symbol = None\<rparr>"

lemma result_of_sel [simp]:
  "r_action (result_of a ok s) = a" "r_success (result_of a ok s) = ok"
  "r_status (result_of a ok s) = s" "r_orderId (result_of a ok s) = None"
  "r_error (result_of a ok s) = None" "r_legs (result_of a ok s) = None"
  "r_symbol (result_of a ok s) = None" "r_filledQty (result_of a ok s) = None"
  "r_filledPrice (result_of a ok s) = None" "r_executionPrice (result_of a ok s) = None"
  by (simp_all add: result_of_def)

record 'q git_state =
  gs_netLiquidation :: string
  gs_totalCashValue :: string
  gs_unrealizedPnL :: string
  gs_realizedPnL :: string
  gs_positions :: "'q position list"
  gs_pendingOrders :: "open_order list"

record 'q git_commit =
  gc_hash :: string
  gc_parentHash :: "string option"
  gc_message :: string
  gc_operations :: "operation list"
  gc_results :: "op_result list"
  gc_stateAfter :: "'q git_state"
  gc_timestamp :: string
  gc_round :: "int option"

record 'q git_export =
  ge_commits :: "'q git_commit list"
  ge_head :: "string option"

record add_result =
  ar_index :: nat
  ar_operation :: operation

record commit_prepare_result =
  cp_hash :: string
  cp_message :: string
  cp_operationCount :: nat

record push_result =
  pu_hash :: string
  pu_message :: string
  pu_operationCount :: nat
  pu_submitted :: "op_result list"
  pu_rejected :: "op_result list"

record reject_result =
  rj_hash :: string
  rj_message :: string
  rj_operationCount :: nat

record order_status_update =
  u_orderId :: string
  u_symbol :: string
  u_previousStatus :: op_status
  u_currentStatus :: op_status
  u_filledPrice :: "string option"
  u_filledQty :: "string option"
  u_fee :: "string option"
  u_feeCurrency :: "string option"

record sync_result =
  sy_hash :: string
  sy_updatedCount :: nat
  sy_updates :: "order_status_update list"

text \<open>\<open>getOperationSymbol\<close>.\<close>

fun getOperationSymbol :: "operation option \<Rightarrow> string" where
  "getOperationSymbol None = ''unknown''"
| "getOperationSymbol (Some (PlaceOrder c _ _)) = contract_label c ''unknown''"
| "getOperationSymbol (Some (ModifyOrder _ _)) = ''unknown''"
| "getOperationSymbol (Some (ClosePosition c _)) = contract_label c ''unknown''"
| "getOperationSymbol (Some (CancelOrder _ _)) = ''unknown''"
| "getOperationSymbol (Some SyncOrders) = ''unknown''"
| "getOperationSymbol (Some (ObserveExternalOrder c _)) = contract_label c ''unknown''"
| "getOperationSymbol (Some (ReconcileBalance aliceId _ _)) = aliceId"

end
