(* ===== verification/Trading_Git.thy ===== *)
theory Trading_Git
  imports Git_Types "HOL-Library.Sublist"
begin

text \<open>
  The write side of \<open>git/TradingGit.ts\<close>: staging, preparing a commit, pushing it to the broker,
  rejecting it, and the three synthesized commits (reconcile, observed orders, sync).  The object's
  fields are the record \<open>trading_git\<close>; a method returns its result or the exception it throws,
  the new state and, where it awaits a callback, the new world.  The world is what the callbacks
  of \<open>TradingGitConfig\<close> read and change; the clock and the SHA-256 hash are read through the same
  record.
\<close>

section \<open>State and configuration\<close>

record trading_git =
  g_stagingArea :: "operation list"
  g_pendingMessage :: "string option"
  g_pendingHash :: "string option"
  g_inflightWrite :: bool
  g_commits :: "dec git_commit list"
  g_head :: "string option"
  g_currentRound :: "int option"

definition new_git :: trading_git where
  "new_git = \<lparr>g_stagingArea = [], g_pendingMessage = None, g_pendingHash = None,
     g_inflightWrite = False, g_commits = [], g_head = None, g_currentRound = None\<rparr>"

text \<open>The object whose JSON text is hashed: of a commit, or of a sync.\<close>

datatype hash_input =
    HashCommit string "operation list" string "string option"
  | HashUpdates "order_status_update list" string "string option"

text \<open>The reply of the dispatcher: not an object, or the fields that are read of it.\<close>

record raw_obj =
  ro_success :: bool
  ro_error :: "string option"
  ro_orderId :: "string option"
  ro_orderState :: "string option"
  ro_legs :: "leg list option"

datatype raw = RawInvalid | RawObj raw_obj

record 'w git_config =
  executeOperation :: "operation \<Rightarrow> 'w \<Rightarrow> (js_error + raw) \<times> 'w"
  getGitState :: "trading_git \<Rightarrow> 'w \<Rightarrow> (js_error + dec git_state) \<times> 'w"
  onCommit :: "(dec git_export \<Rightarrow> 'w \<Rightarrow> (js_error + unit) \<times> 'w) option"
  clock :: "'w \<Rightarrow> string"
  commitHash :: "hash_input \<Rightarrow> string"

section \<open>Export\<close>

fun projectOperation :: "operation \<Rightarrow> operation" where
  "projectOperation (PlaceOrder c od t) = PlaceOrder c (toWire od) t"
| "projectOperation (ObserveExternalOrder c od) = ObserveExternalOrder c (toWire od)"
| "projectOperation (ModifyOrder i od) = ModifyOrder i (toWire od)"
| "projectOperation op = op"

definition projectCommit :: "'q git_commit \<Rightarrow> 'q git_commit" where
  "projectCommit c = c\<lparr>gc_operations := map projectOperation (gc_operations c)\<rparr>"

definition exportState :: "trading_git \<Rightarrow> dec git_export" where
  "exportState g = \<lparr>ge_commits = map projectCommit (g_commits g), ge_head = g_head g\<rparr>"

section \<open>Staging\<close>

definition inflight_error :: js_error where
  "inflight_error = PendingHashConflictError ''A wallet write is already in progress''"

definition awaiting_error :: js_error where
  "awaiting_error = PendingHashConflictError
     ''A commit is awaiting approval. Push or reject it before staging more operations.''"

definition changed_error :: js_error where
  "changed_error = PendingHashConflictError ''Pending commit changed''"

definition tg_add :: "operation \<Rightarrow> trading_git \<Rightarrow> (js_error + add_result) \<times> trading_git" where
  "tg_add op g =
     (if g_inflightWrite g then (Inl inflight_error, g)
      else if g_pendingHash g \<noteq> None \<or> g_pendingMessage g \<noteq> None then (Inl awaiting_error, g)
      else let staged = g_stagingArea g @ [op]
        in (Inr \<lparr>ar_index = length staged - 1, ar_operation = op\<rparr>, g\<lparr>g_stagingArea := staged\<rparr>))"

definition tg_commit ::
  "(hash_input \<Rightarrow> string) \<Rightarrow> string \<Rightarrow> string \<Rightarrow> trading_git \<Rightarrow> (js_error + commit_prepare_result) \<times> trading_git"
where
  "tg_commit H timestamp message g =
     (if g_inflightWrite g then (Inl inflight_error, g)
      else if g_stagingArea g = [] then (Inl (PlainError ''Nothing to commit: staging area is empty''), g)
      else let h = H (HashCommit message (g_stagingArea g) timestamp (g_head g))
        in (Inr \<lparr>cp_hash = h, cp_message = message, cp_operationCount = length (g_stagingArea g)\<rparr>,
            g\<lparr>g_pendingHash := Some h, g_pendingMessage := Some message\<rparr>))"

definition setCurrentRound :: "int \<Rightarrow> trading_git \<Rightarrow> trading_git" where
  "setCurrentRound rnd g = g\<lparr>g_currentRound := Some rnd\<rparr>"

section \<open>Results of operations\<close>

definition mapOrderStatus :: "string option \<Rightarrow> op_status" where
  "mapOrderStatus s =
     (if s = Some ''Filled'' then Filled
      else if s = Some ''Cancelled'' then Cancelled
      else if s = Some ''Inactive'' then Rejected
      else Submitted)"

definition parseOperationResult :: "operation \<Rightarrow> raw \<Rightarrow> op_result" where
  "parseOperationResult op rw =
     (case rw of
        RawInvalid \<Rightarrow> (result_of (op_action op) False Rejected)
          \<lparr>r_error := Some ''Invalid response from trading engine''\<rparr>
      | RawObj ob \<Rightarrow>
          (if \<not> ro_success ob then (result_of (op_action op) False Rejected)
             \<lparr>r_error := Some (case ro_error ob of None \<Rightarrow> ''Unknown error'' | Some e \<Rightarrow> e)\<rparr>
           else (result_of (op_action op) True (mapOrderStatus (ro_orderState ob)))
             \<lparr>r_orderId := ro_orderId ob, r_orderState := ro_orderState ob,
              r_legs := (case ro_legs ob of None \<Rightarrow> None | Some ls \<Rightarrow> if ls = [] then None else Some ls)\<rparr>))"

definition failed_result :: "operation \<Rightarrow> js_error \<Rightarrow> op_result" where
  "failed_result op e = (result_of (op_action op) False Rejected)\<lparr>r_error := Some (err_message e)\<rparr>"

text \<open>One turn of the execution loop of \<open>executePush\<close>, and the loop.\<close>

definition exec_op :: "'w git_config \<Rightarrow> operation \<Rightarrow> 'w \<Rightarrow> op_result \<times> 'w" where
  "exec_op cfg op w =
     (case executeOperation cfg op w of
        (Inl e, w') \<Rightarrow> (failed_result op e, w')
      | (Inr rw, w') \<Rightarrow> (parseOperationResult op rw, w'))"

fun exec_ops :: "'w git_config \<Rightarrow> operation list \<Rightarrow> 'w \<Rightarrow> op_result list \<times> 'w" where
  "exec_ops cfg [] w = ([], w)"
| "exec_ops cfg (op # ops) w =
     (let (r, w1) = exec_op cfg op w; (rs, w2) = exec_ops cfg ops w1 in (r # rs, w2))"

section \<open>Appending a commit\<close>

definition append_commit :: "dec git_commit \<Rightarrow> trading_git \<Rightarrow> trading_git" where
  "append_commit c g = g\<lparr>g_commits := g_commits g @ [c], g_head := Some (gc_hash c)\<rparr>"

text \<open>\<open>this.commits.push(commit); this.head = hash; await this.config.onCommit?.(this.exportState())\<close>.\<close>

definition persist_commit ::
  "'w git_config \<Rightarrow> dec git_commit \<Rightarrow> trading_git \<Rightarrow> 'w \<Rightarrow> (js_error + unit) \<times> trading_git \<times> 'w"
where
  "persist_commit cfg c g w =
     (let g1 = append_commit c g in
      case onCommit cfg of
        None \<Rightarrow> (Inr (), g1, w)
      | Some cb \<Rightarrow> (let (r, w1) = cb (exportState g1) w in (r, g1, w1)))"

definition clear_staging :: "trading_git \<Rightarrow> trading_git" where
  "clear_staging g = g\<lparr>g_stagingArea := [], g_pendingMessage := None, g_pendingHash := None\<rparr>"

section \<open>Push\<close>

definition assertPrepared :: "string \<Rightarrow> trading_git \<Rightarrow> js_error + unit" where
  "assertPrepared what g =
     (if g_stagingArea g = [] then Inl (PlainError (''Nothing to '' @ what @ '': staging area is empty''))
      else if g_pendingMessage g = None \<or> g_pendingHash g = None
        then Inl (PlainError (''Nothing to '' @ what @ '': please commit first''))
      else Inr ())"

definition beginWrite :: "string \<Rightarrow> trading_git \<Rightarrow> (js_error + unit) \<times> trading_git" where
  "beginWrite expected g =
     (if g_inflightWrite g then (Inl inflight_error, g)
      else if expected = [] \<or> Some expected \<noteq> g_pendingHash g then (Inl changed_error, g)
      else (Inr (), g\<lparr>g_inflightWrite := True\<rparr>))"

definition executePush ::
  "'w git_config \<Rightarrow> trading_git \<Rightarrow> 'w \<Rightarrow> (js_error + push_result) \<times> trading_git \<times> 'w"
where
  "executePush cfg g w =
     (case (g_stagingArea g, g_pendingMessage g, g_pendingHash g) of
        ([], _, _) \<Rightarrow> (Inl (PlainError ''Nothing to push: staging area is empty''), g, w)
      | (operations, Some message, Some hash) \<Rightarrow>
          (let (results, w1) = exec_ops cfg operations w in
           case getGitState cfg g w1 of
             (Inl e, w2) \<Rightarrow> (Inl e, g, w2)
           | (Inr stateAfter, w2) \<Rightarrow>
               (let commit = \<lparr>gc_hash = hash, gc_parentHash = g_head g, gc_message = message,
                      gc_operations = operations, gc_results = results, gc_stateAfter = stateAfter,
                      gc_timestamp = clock cfg w2, gc_round = g_currentRound g\<rparr> in
                case persist_commit cfg commit g w2 of
                  (Inl e, g1, w3) \<Rightarrow> (Inl e, g1, w3)
                | (Inr _, g1, w3) \<Rightarrow>
                    (Inr \<lparr>pu_hash = hash, pu_message = message, pu_operationCount = length operations,
                          pu_submitted = filter r_success results,
                          pu_rejected = filter (\<lambda>r. \<not> r_success r) results\<rparr>,
                     clear_staging g1, w3)))
      | _ \<Rightarrow> (Inl (PlainError ''Nothing to push: please commit first''), g, w))"

text \<open>The \<open>try\<close> / \<open>finally\<close> of \<open>push\<close> and \<open>reject\<close>.\<close>

definition end_write :: "trading_git \<Rightarrow> trading_git" where
  "end_write g = g\<lparr>g_inflightWrite := False\<rparr>"

definition tg_push ::
  "'w git_config \<Rightarrow> string \<Rightarrow> trading_git \<Rightarrow> 'w \<Rightarrow> (js_error + push_result) \<times> trading_git \<times> 'w"
where
  "tg_push cfg expected g w =
     (case assertPrepared ''push'' g of
        Inl e \<Rightarrow> (Inl e, g, w)
      | Inr _ \<Rightarrow>
          (case beginWrite expected g of
             (Inl e, g1) \<Rightarrow> (Inl e, g1, w)
           | (Inr _, g1) \<Rightarrow>
               (let (r, g2, w2) = executePush cfg g1 w in (r, end_write g2, w2))))"

section \<open>Reject\<close>

definition reject_message :: "string \<Rightarrow> string option \<Rightarrow> string" where
  "reject_message pm reason =
     ''[rejected] '' @ pm @ (if truthy reason then '' '' @ em_dash @ '' '' @ the reason else [])"

definition user_rejected :: "string option \<Rightarrow> operation \<Rightarrow> op_result" where
  "user_rejected reason op =
     (result_of (op_action op) False UserRejected)\<lparr>r_error := Some (opt_or reason ''Rejected by user'')\<rparr>"

definition executeReject ::
  "'w git_config \<Rightarrow> string option \<Rightarrow> trading_git \<Rightarrow> 'w \<Rightarrow> (js_error + reject_result) \<times> trading_git \<times> 'w"
where
  "executeReject cfg reason g w =
     (case (g_stagingArea g, g_pendingMessage g, g_pendingHash g) of
        ([], _, _) \<Rightarrow> (Inl (PlainError ''Nothing to reject: staging area is empty''), g, w)
      | (operations, Some pm, Some hash) \<Rightarrow>
          (case getGitState cfg g w of
             (Inl e, w1) \<Rightarrow> (Inl e, g, w1)
           | (Inr stateAfter, w1) \<Rightarrow>
               (let message = reject_message pm reason;
                    commit = \<lparr>gc_hash = hash, gc_parentHash = g_head g, gc_message = message,
                      gc_operations = operations, gc_results = map (user_rejected reason) operations,
                      gc_stateAfter = stateAfter, gc_timestamp = clock cfg w1,
                      gc_round = g_currentRound g\<rparr> in
                case persist_commit cfg commit g w1 of
                  (Inl e, g1, w2) \<Rightarrow> (Inl e, g1, w2)
                | (Inr _, g1, w2) \<Rightarrow>
                    (Inr \<lparr>rj_hash = hash, rj_message = message, rj_operationCount = length operations\<rparr>,
                     clear_staging g1, w2)))
      | _ \<Rightarrow> (Inl (PlainError ''Nothing to reject: please commit first''), g, w))"

definition tg_reject ::
  "'w git_config \<Rightarrow> string option \<Rightarrow> string \<Rightarrow> trading_git \<Rightarrow> 'w \<Rightarrow> (js_error + reject_result) \<times> trading_git \<times> 'w"
where
  "tg_reject cfg reason expected g w =
     (case assertPrepared ''reject'' g of
        Inl e \<Rightarrow> (Inl e, g, w)
      | Inr _ \<Rightarrow>
          (case beginWrite expected g of
             (Inl e, g1) \<Rightarrow> (Inl e, g1, w)
           | (Inr _, g1) \<Rightarrow>
               (let (r, g2, w2) = executeReject cfg reason g1 w in (r, end_write g2, w2))))"

section \<open>Synthesized commits\<close>

text \<open>
  \<open>recordReconcile\<close>, \<open>recordObservedOrders\<close> and \<open>sync\<close> append a commit without going through the
  staging area; they do not look at \<open>inflightWrite\<close>.
\<close>

definition reconcile_message :: "decimal_js \<Rightarrow> string \<Rightarrow> dec \<Rightarrow> dec \<Rightarrow> string" where
  "reconcile_message D aliceId qtyDelta markPrice =
     ''reconcile: '' @ (if d_gte qtyDelta (Fin 0) then ''observed'' else ''released'') @ '' '' @
     dj_to_fixed D (d_abs qtyDelta) @ '' '' @ aliceId @ '' @ '' @ dj_to_fixed D markPrice"

definition reconcile_commit ::
  "decimal_js \<Rightarrow> (hash_input \<Rightarrow> string) \<Rightarrow> string \<Rightarrow> string \<Rightarrow> dec \<Rightarrow> dec \<Rightarrow> dec git_state \<Rightarrow> string option
    \<Rightarrow> trading_git \<Rightarrow> dec git_commit"
where
  "reconcile_commit D H timestamp aliceId qtyDelta markPrice stateAfter msg g =
     (let priceStr = dj_to_fixed D markPrice;
          op = ReconcileBalance aliceId (dj_to_fixed D qtyDelta) priceStr;
          res = (result_of ActReconcileBalance True Filled)
            \<lparr>r_filledQty := Some (dj_to_fixed D (d_abs qtyDelta)), r_filledPrice := Some priceStr\<rparr>;
          message = (case msg of Some m \<Rightarrow> m | None \<Rightarrow> reconcile_message D aliceId qtyDelta markPrice)
      in \<lparr>gc_hash = H (HashCommit message [op] timestamp (g_head g)), gc_parentHash = g_head g,
          gc_message = message, gc_operations = [op], gc_results = [res],
          gc_stateAfter = stateAfter, gc_timestamp = timestamp, gc_round = g_currentRound g\<rparr>)"

definition then_hash :: "string \<Rightarrow> (js_error + unit) \<times> trading_git \<times> 'w \<Rightarrow> (js_error + string) \<times> trading_git \<times> 'w" where
  "then_hash h x = (case x of (r, g, w) \<Rightarrow> (bindE r (\<lambda>_. Inr h), g, w))"

definition recordReconcile ::
  "decimal_js \<Rightarrow> 'w git_config \<Rightarrow> string \<Rightarrow> dec \<Rightarrow> dec \<Rightarrow> dec git_state \<Rightarrow> string option
    \<Rightarrow> trading_git \<Rightarrow> 'w \<Rightarrow> (js_error + string) \<times> trading_git \<times> 'w"
where
  "recordReconcile D cfg aliceId qtyDelta markPrice stateAfter msg g w =
     (let c = reconcile_commit D (commitHash cfg) (clock cfg w) aliceId qtyDelta markPrice stateAfter msg g
      in then_hash (gc_hash c) (persist_commit cfg c g w))"

type_synonym observed = "contract \<times> order \<times> string"

definition observed_commit ::
  "(hash_input \<Rightarrow> string) \<Rightarrow> string \<Rightarrow> observed list \<Rightarrow> dec git_state \<Rightarrow> trading_git \<Rightarrow> dec git_commit"
where
  "observed_commit H timestamp obs stateAfter g =
     (let ops = map (\<lambda>(c, od, i). ObserveExternalOrder c od) obs;
          res = map (\<lambda>(c, od, i). (result_of ActObserveExternalOrder True Submitted)\<lparr>r_orderId := Some i\<rparr>) obs;
          message = ''[observed] '' @ nat_str (length obs) @ '' external order(s) not placed through Alice''
      in \<lparr>gc_hash = H (HashCommit message ops timestamp (g_head g)), gc_parentHash = g_head g,
          gc_message = message, gc_operations = ops, gc_results = res,
          gc_stateAfter = stateAfter, gc_timestamp = timestamp, gc_round = g_currentRound g\<rparr>)"

definition recordObservedOrders ::
  "'w git_config \<Rightarrow> observed list \<Rightarrow> dec git_state \<Rightarrow> trading_git \<Rightarrow> 'w \<Rightarrow> (js_error + string) \<times> trading_git \<times> 'w"
where
  "recordObservedOrders cfg obs stateAfter g w =
     (let c = observed_commit (commitHash cfg) (clock cfg w) obs stateAfter g
      in then_hash (gc_hash c) (persist_commit cfg c g w))"

definition sync_message :: "order_status_update list \<Rightarrow> string" where
  "sync_message updates =
     ''[sync] '' @ join '', '' (map (\<lambda>u. u_symbol u @ '' '' @ status_str (u_currentStatus u)) (take 3 updates)) @
     (if 3 < length updates then '' +'' @ nat_str (length updates - 3) @ '' more'' else [])"

definition sync_result_of :: "order_status_update \<Rightarrow> op_result" where
  "sync_result_of u = (result_of ActSyncOrders True (u_currentStatus u))
     \<lparr>r_orderId := Some (u_orderId u), r_symbol := Some (u_symbol u), r_filledQty := u_filledQty u,
      r_filledPrice := u_filledPrice u, r_fee := u_fee u, r_feeCurrency := u_feeCurrency u\<rparr>"

definition sync_commit ::
  "(hash_input \<Rightarrow> string) \<Rightarrow> string \<Rightarrow> order_status_update list \<Rightarrow> dec git_state \<Rightarrow> trading_git \<Rightarrow> dec git_commit"
where
  "sync_commit H timestamp updates st g =
     \<lparr>gc_hash = H (HashUpdates updates timestamp (g_head g)), gc_parentHash = g_head g,
      gc_message = sync_message updates, gc_operations = [SyncOrders],
      gc_results = map sync_result_of updates, gc_stateAfter = st, gc_timestamp = timestamp,
      gc_round = g_currentRound g\<rparr>"

definition tg_sync ::
  "'w git_config \<Rightarrow> order_status_update list \<Rightarrow> dec git_state \<Rightarrow> trading_git \<Rightarrow> 'w
    \<Rightarrow> (js_error + sync_result) \<times> trading_git \<times> 'w"
where
  "tg_sync cfg updates st g w =
     (if updates = [] then
        (Inr \<lparr>sy_hash = (case g_head g of None \<Rightarrow> '''' | Some h \<Rightarrow> h), sy_updatedCount = 0, sy_updates = []\<rparr>, g, w)
      else let c = sync_commit (commitHash cfg) (clock cfg w) updates st g in
        (case persist_commit cfg c g w of (r, g1, w1) \<Rightarrow>
           (bindE r (\<lambda>_. Inr \<lparr>sy_hash = gc_hash c, sy_updatedCount = length updates,
                              sy_updates = updates\<rparr>), g1, w1)))"

section \<open>The commit log\<close>

text \<open>Entries linked by parent pointers, newest last.\<close>

fun linked_by :: "('c \<Rightarrow> 'h) \<Rightarrow> ('c \<Rightarrow> 'h option) \<Rightarrow> 'h option \<Rightarrow> 'c list \<Rightarrow> bool" where
  "linked_by idf par p [] = True"
| "linked_by idf par p (c # cs) = (par c = p \<and> linked_by idf par (Some (idf c)) cs)"

definition tip_of :: "('c \<Rightarrow> 'h) \<Rightarrow> 'h option \<Rightarrow> 'c list \<Rightarrow> 'h option" where
  "tip_of idf p cs = (if cs = [] then p else Some (idf (last cs)))"

lemma linked_by_append:
  "linked_by idf par p (xs @ ys) \<longleftrightarrow> linked_by idf par p xs \<and> linked_by idf par (tip_of idf p xs) ys"
  by (induction xs arbitrary: p) (auto simp: tip_of_def)

lemma tip_of_append [simp]: "tip_of idf p (xs @ [c]) = Some (idf c)"
  by (simp add: tip_of_def)

locale commit_log =
  fixes entries :: "'s \<Rightarrow> 'c list" and tip :: "'s \<Rightarrow> 'h option"
    and idf :: "'c \<Rightarrow> 'h" and par :: "'c \<Rightarrow> 'h option"
    and append :: "'c \<Rightarrow> 's \<Rightarrow> 's"
  assumes entries_append: "entries (append c s) = entries s @ [c]"
    and tip_append: "tip (append c s) = Some (idf c)"
begin

lemma chain_append:
  assumes "linked_by idf par None (entries s)" "tip s = tip_of idf None (entries s)" "par c = tip s"
  shows "linked_by idf par None (entries (append c s))"
    "tip (append c s) = tip_of idf None (entries (append c s))"
  using assms by (simp_all add: entries_append tip_append linked_by_append)

lemma prefix_append: "prefix (entries s) (entries (append c s))"
  by (simp add: entries_append)

end

interpretation lg: commit_log g_commits g_head gc_hash gc_parentHash append_commit
  by unfold_locales (simp_all add: append_commit_def)

lemma append_commit_sel [simp]:
  "g_commits (append_commit c g) = g_commits g @ [c]"
  "g_head (append_commit c g) = Some (gc_hash c)"
  "g_stagingArea (append_commit c g) = g_stagingArea g"
  "g_pendingMessage (append_commit c g) = g_pendingMessage g"
  "g_pendingHash (append_commit c g) = g_pendingHash g"
  "g_inflightWrite (append_commit c g) = g_inflightWrite g"
  "g_currentRound (append_commit c g) = g_currentRound g"
  by (simp_all add: append_commit_def)

lemma clear_staging_sel [simp]:
  "g_commits (clear_staging g) = g_commits g" "g_head (clear_staging g) = g_head g"
  "g_stagingArea (clear_staging g) = []" "g_pendingMessage (clear_staging g) = None"
  "g_pendingHash (clear_staging g) = None" "g_inflightWrite (clear_staging g) = g_inflightWrite g"
  "g_currentRound (clear_staging g) = g_currentRound g"
  by (simp_all add: clear_staging_def)

lemma end_write_sel [simp]:
  "g_commits (end_write g) = g_commits g" "g_head (end_write g) = g_head g"
  "g_stagingArea (end_write g) = g_stagingArea g"
  "g_pendingMessage (end_write g) = g_pendingMessage g"
  "g_pendingHash (end_write g) = g_pendingHash g" "\<not> g_inflightWrite (end_write g)"
  "g_currentRound (end_write g) = g_currentRound g"
  by (simp_all add: end_write_def)

lemma persist_commit_state: "persist_commit cfg c g w = (r, g1, w1) \<Longrightarrow> g1 = append_commit c g"
  by (auto simp: persist_commit_def Let_def split: option.splits prod.splits)

lemma exec_ops_length: "exec_ops cfg ops w = (rs, w') \<Longrightarrow> length rs = length ops"
  by (induction ops arbitrary: w rs) (auto split: prod.splits)

lemma parse_action [simp]:
  "r_action (parseOperationResult op rw) = op_action op" "r_action (failed_result op e) = op_action op"
  by (auto simp: parseOperationResult_def failed_result_def split: raw.splits)

lemma exec_ops_actions: "exec_ops cfg ops w = (rs, w') \<Longrightarrow> map r_action rs = map op_action ops"
  by (induction ops arbitrary: w rs) (auto simp: exec_op_def split: prod.splits sum.splits)

text \<open>What the broker replies to the operations of a push, in turn, and how a reply is recorded.\<close>

fun exec_replies :: "'w git_config \<Rightarrow> operation list \<Rightarrow> 'w \<Rightarrow> (js_error + raw) list" where
  "exec_replies cfg [] w = []"
| "exec_replies cfg (op # ops) w =
     (let (reply, w1) = executeOperation cfg op w in reply # exec_replies cfg ops w1)"

definition recorded_as :: "operation \<Rightarrow> js_error + raw \<Rightarrow> op_result \<Rightarrow> bool" where
  "recorded_as op reply r \<longleftrightarrow> r_action r = op_action op \<and>
     (case reply of
        Inl e \<Rightarrow> \<not> r_success r \<and> r_status r = Rejected \<and> r_error r = Some (err_message e)
      | Inr RawInvalid \<Rightarrow> \<not> r_success r \<and> r_status r = Rejected \<and>
          r_error r = Some ''Invalid response from trading engine''
      | Inr (RawObj ob) \<Rightarrow>
          if ro_success ob then
            r_success r \<and> r_error r = None \<and> r_orderId r = ro_orderId ob \<and>
            (r_status r = Filled \<longleftrightarrow> ro_orderState ob = Some ''Filled'') \<and>
            (r_status r = Cancelled \<longleftrightarrow> ro_orderState ob = Some ''Cancelled'') \<and>
            (r_status r = Rejected \<longleftrightarrow> ro_orderState ob = Some ''Inactive'') \<and>
            r_status r \<in> {Filled, Cancelled, Rejected, Submitted}
          else \<not> r_success r \<and> r_status r = Rejected \<and>
            r_error r = Some (case ro_error ob of None \<Rightarrow> ''Unknown error'' | Some e \<Rightarrow> e))"

lemma failed_recorded: "recorded_as op (Inl e) (failed_result op e)"
  by (simp add: recorded_as_def failed_result_def)

lemma parsed_recorded: "recorded_as op (Inr rw) (parseOperationResult op rw)"
  by (simp add: recorded_as_def parseOperationResult_def mapOrderStatus_def split: raw.split)

lemma exec_ops_recorded:
  "exec_ops cfg ops w = (rs, w') \<Longrightarrow> length (exec_replies cfg ops w) = length ops \<and>
     list_all2 (\<lambda>(op, reply) r. recorded_as op reply r) (zip ops (exec_replies cfg ops w)) rs"
proof (induction ops arbitrary: w rs)
  case Nil
  then show ?case by simp
next
  case (Cons op ops)
  then show ?case
    by (auto simp: exec_op_def failed_recorded parsed_recorded split: prod.splits sum.splits)
qed

section \<open>What a push and a reject do\<close>

definition push_ready :: "string \<Rightarrow> trading_git \<Rightarrow> bool" where
  "push_ready expected g \<longleftrightarrow> \<not> g_inflightWrite g \<and> g_stagingArea g \<noteq> [] \<and>
     g_pendingMessage g \<noteq> None \<and> g_pendingHash g = Some expected \<and> expected \<noteq> []"

definition staged_commit ::
  "trading_git \<Rightarrow> string \<Rightarrow> op_result list \<Rightarrow> dec git_state \<Rightarrow> string \<Rightarrow> dec git_commit"
where
  "staged_commit g message rs st timestamp =
     \<lparr>gc_hash = the (g_pendingHash g), gc_parentHash = g_head g, gc_message = message,
      gc_operations = g_stagingArea g, gc_results = rs, gc_stateAfter = st,
      gc_timestamp = timestamp, gc_round = g_currentRound g\<rparr>"

lemma staged_commit_sel [simp]:
  "gc_hash (staged_commit g m rs st t) = the (g_pendingHash g)"
  "gc_parentHash (staged_commit g m rs st t) = g_head g"
  "gc_operations (staged_commit g m rs st t) = g_stagingArea g"
  "gc_results (staged_commit g m rs st t) = rs"
  "gc_message (staged_commit g m rs st t) = m"
  by (simp_all add: staged_commit_def)

lemma write_guard:
  "(case assertPrepared what g of Inl e \<Rightarrow> (Inl e, g, w)
    | Inr _ \<Rightarrow> (case beginWrite expected g of (Inl e, g1) \<Rightarrow> (Inl e, g1, w) | (Inr _, g1) \<Rightarrow> k g1))
   = (if push_ready expected g then k (g\<lparr>g_inflightWrite := True\<rparr>)
      else (Inl (case assertPrepared what g of Inl e \<Rightarrow> e
                 | Inr _ \<Rightarrow> if g_inflightWrite g then inflight_error else changed_error), g, w))"
  by (auto simp: assertPrepared_def beginWrite_def push_ready_def)

lemma tg_push_refused:
  "\<not> push_ready h g \<Longrightarrow> \<exists>e. tg_push cfg h g w = (Inl e, g, w)"
  unfolding tg_push_def write_guard by simp

lemma tg_reject_refused:
  "\<not> push_ready h g \<Longrightarrow> \<exists>e. tg_reject cfg reason h g w = (Inl e, g, w)"
  unfolding tg_reject_def write_guard by simp

lemma push_ready_hash: "push_ready h g \<Longrightarrow> g_pendingHash g = Some h"
  by (simp add: push_ready_def)

lemma push_readyE:
  assumes "push_ready h g"
  obtains op ops m where "g_stagingArea g = op # ops" "g_pendingMessage g = Some m"
    "g_pendingHash g = Some h" "\<not> g_inflightWrite g" "h \<noteq> []"
  using assms by (cases "g_stagingArea g") (auto simp: push_ready_def)

lemma end_write_inflight [simp]: "\<not> g_inflightWrite g \<Longrightarrow> end_write (g\<lparr>g_inflightWrite := True\<rparr>) = g"
  by (cases g) (simp add: end_write_def)

text \<open>The three outcomes of an accepted push: the snapshot, the persistence callback or nothing failed.\<close>

lemma tg_push_ready:
  assumes ready: "push_ready h g" and push: "tg_push cfg h g w = (r, g', w')"
    and exec: "exec_ops cfg (g_stagingArea g) w = (rs, w1)"
  obtains
    (snapshot_failed) e where "r = Inl e" "g' = g"
      "getGitState cfg (g\<lparr>g_inflightWrite := True\<rparr>) w1 = (Inl e, w')"
  | (persist_failed) e st w2 c where "r = Inl e"
      "getGitState cfg (g\<lparr>g_inflightWrite := True\<rparr>) w1 = (Inr st, w2)"
      "c = staged_commit g (the (g_pendingMessage g)) rs st (clock cfg w2)"
      "g' = append_commit c g"
  | (pushed) st w2 c where
      "r = Inr \<lparr>pu_hash = h, pu_message = the (g_pendingMessage g),
         pu_operationCount = length (g_stagingArea g), pu_submitted = filter r_success rs,
         pu_rejected = filter (\<lambda>x. \<not> r_success x) rs\<rparr>"
      "getGitState cfg (g\<lparr>g_inflightWrite := True\<rparr>) w1 = (Inr st, w2)"
      "c = staged_commit g (the (g_pendingMessage g)) rs st (clock cfg w2)"
      "g' = clear_staging (append_commit c g)"
proof -
  let ?g1 = "g\<lparr>g_inflightWrite := True\<rparr>"
  from ready obtain op ops m where g: "g_stagingArea g = op # ops" "g_pendingMessage g = Some m"
    "g_pendingHash g = Some h" "\<not> g_inflightWrite g" by (rule push_readyE)
  obtain r1 g1 w1' where ex: "executePush cfg ?g1 w = (r1, g1, w1')" by (cases "executePush cfg ?g1 w")
  have eq: "r = r1" "g' = end_write g1" "w' = w1'"
    using push ex ready unfolding tg_push_def write_guard by simp_all
  obtain sr w2 where st: "getGitState cfg ?g1 w1 = (sr, w2)" by (cases "getGitState cfg ?g1 w1")
  show thesis
  proof (cases sr)
    case (Inl e)
    then show thesis using ex st exec g eq snapshot_failed by (auto simp: executePush_def)
  next
    case (Inr s)
    let ?c = "staged_commit g m rs s (clock cfg w2)"
    have c: "\<lparr>gc_hash = h, gc_parentHash = g_head g, gc_message = m, gc_operations = op # ops,
        gc_results = rs, gc_stateAfter = s, gc_timestamp = clock cfg w2, gc_round = g_currentRound g\<rparr> = ?c"
      using g by (simp add: staged_commit_def)
    obtain pr g2 w3 where p: "persist_commit cfg ?c ?g1 w2 = (pr, g2, w3)"
      by (cases "persist_commit cfg ?c ?g1 w2")
    have g2: "g2 = append_commit ?c ?g1" using p by (rule persist_commit_state)
    have e1: "end_write (append_commit ?c ?g1) = append_commit ?c g"
      "end_write (clear_staging (append_commit ?c ?g1)) = clear_staging (append_commit ?c g)"
      using g(4) by (cases g; simp add: end_write_def append_commit_def clear_staging_def)+
    show thesis
    proof (cases pr)
      case (Inl e)
      have "executePush cfg ?g1 w = (Inl e, g2, w3)"
        using exec st Inr p Inl g by (simp add: executePush_def c)
      then show thesis using ex eq g2 e1 g st Inr persist_failed [of e s w2 ?c] by simp
    next
      case pr: (Inr u)
      have "executePush cfg ?g1 w = (Inr \<lparr>pu_hash = h, pu_message = m,
         pu_operationCount = length (g_stagingArea g), pu_submitted = filter r_success rs,
         pu_rejected = filter (\<lambda>x. \<not> r_success x) rs\<rparr>, clear_staging g2, w3)"
        using exec st Inr p pr g by (simp add: executePush_def c)
      then show thesis using ex eq g2 e1 g st Inr pushed [of s w2 ?c] by simp
    qed
  qed
qed

lemma tg_reject_ready:
  assumes ready: "push_ready h g" and rej: "tg_reject cfg reason h g w = (r, g', w')"
  obtains
    (snapshot_failed) e where "r = Inl e" "g' = g"
      "getGitState cfg (g\<lparr>g_inflightWrite := True\<rparr>) w = (Inl e, w')"
  | (persist_failed) e st w1 c where "r = Inl e"
      "getGitState cfg (g\<lparr>g_inflightWrite := True\<rparr>) w = (Inr st, w1)"
      "c = staged_commit g (reject_message (the (g_pendingMessage g)) reason)
         (map (user_rejected reason) (g_stagingArea g)) st (clock cfg w1)"
      "g' = append_commit c g"
  | (rejected) st w1 c where
      "r = Inr \<lparr>rj_hash = h, rj_message = reject_message (the (g_pendingMessage g)) reason,
         rj_operationCount = length (g_stagingArea g)\<rparr>"
      "getGitState cfg (g\<lparr>g_inflightWrite := True\<rparr>) w = (Inr st, w1)"
      "c = staged_commit g (reject_message (the (g_pendingMessage g)) reason)
         (map (user_rejected reason) (g_stagingArea g)) st (clock cfg w1)"
      "g' = clear_staging (append_commit c g)"
proof -
  let ?g1 = "g\<lparr>g_inflightWrite := True\<rparr>"
  from ready obtain op ops m where g: "g_stagingArea g = op # ops" "g_pendingMessage g = Some m"
    "g_pendingHash g = Some h" "\<not> g_inflightWrite g" by (rule push_readyE)
  let ?rs = "map (user_rejected reason) (op # ops)"
  obtain r1 g1 w1' where ex: "executeReject cfg reason ?g1 w = (r1, g1, w1')"
    by (cases "executeReject cfg reason ?g1 w")
  have eq: "r = r1" "g' = end_write g1" "w' = w1'"
    using rej ex ready unfolding tg_reject_def write_guard by simp_all
  obtain sr w2 where st: "getGitState cfg ?g1 w = (sr, w2)" by (cases "getGitState cfg ?g1 w")
  show thesis
  proof (cases sr)
    case (Inl e)
    then show thesis using ex st g eq snapshot_failed by (auto simp: executeReject_def)
  next
    case (Inr s)
    let ?c = "staged_commit g (reject_message m reason) ?rs s (clock cfg w2)"
    have c: "\<lparr>gc_hash = h, gc_parentHash = g_head g, gc_message = reject_message m reason,
        gc_operations = op # ops, gc_results = ?rs, gc_stateAfter = s,
        gc_timestamp = clock cfg w2, gc_round = g_currentRound g\<rparr> = ?c"
      using g by (simp add: staged_commit_def)
    obtain pr g2 w3 where p: "persist_commit cfg ?c ?g1 w2 = (pr, g2, w3)"
      by (cases "persist_commit cfg ?c ?g1 w2")
    have g2: "g2 = append_commit ?c ?g1" using p by (rule persist_commit_state)
    have e1: "end_write (append_commit ?c ?g1) = append_commit ?c g"
      "end_write (clear_staging (append_commit ?c ?g1)) = clear_staging (append_commit ?c g)"
      using g(4) by (cases g; simp add: end_write_def append_commit_def clear_staging_def)+
    show thesis
    proof (cases pr)
      case (Inl e)
      have "executeReject cfg reason ?g1 w = (Inl e, g2, w3)"
        using st Inr p Inl g c by (simp add: executeReject_def Let_def)
      then show thesis using ex eq g2 e1 g st Inr persist_failed [of e s w2 ?c] by simp
    next
      case pr: (Inr u)
      have "executeReject cfg reason ?g1 w = (Inr \<lparr>rj_hash = h, rj_message = reject_message m reason,
         rj_operationCount = length (g_stagingArea g)\<rparr>, clear_staging g2, w3)"
        using st Inr p pr g c by (simp add: executeReject_def Let_def)
      then show thesis using ex eq g2 e1 g st Inr rejected [of s w2 ?c] by simp
    qed
  qed
qed

section \<open>Runs of calls\<close>

text \<open>One call of a client on the ledger, and a sequence of calls, each run to its end.\<close>

datatype git_call =
    CallAdd operation
  | CallCommit string
  | CallPush string
  | CallReject "string option" string
  | CallReconcile string dec dec "dec git_state" "string option"
  | CallObserved "observed list" "dec git_state"
  | CallSync "order_status_update list" "dec git_state"
  | CallRound int

fun run_call :: "decimal_js \<Rightarrow> 'w git_config \<Rightarrow> git_call \<Rightarrow> trading_git \<times> 'w \<Rightarrow> trading_git \<times> 'w" where
  "run_call D cfg (CallAdd op) (g, w) = (snd (tg_add op g), w)"
| "run_call D cfg (CallCommit m) (g, w) = (snd (tg_commit (commitHash cfg) (clock cfg w) m g), w)"
| "run_call D cfg (CallPush h) (g, w) = snd (tg_push cfg h g w)"
| "run_call D cfg (CallReject rs h) (g, w) = snd (tg_reject cfg rs h g w)"
| "run_call D cfg (CallReconcile a q p st m) (g, w) = snd (recordReconcile D cfg a q p st m g w)"
| "run_call D cfg (CallObserved obs st) (g, w) = snd (recordObservedOrders cfg obs st g w)"
| "run_call D cfg (CallSync us st) (g, w) = snd (tg_sync cfg us st g w)"
| "run_call D cfg (CallRound n) (g, w) = (setCurrentRound n g, w)"

definition run_calls :: "decimal_js \<Rightarrow> 'w git_config \<Rightarrow> git_call list \<Rightarrow> trading_git \<times> 'w \<Rightarrow> trading_git \<times> 'w" where
  "run_calls D cfg = fold (run_call D cfg)"

text \<open>A commit pairs every operation with a result of the same action, or is a sync commit.\<close>

definition commit_ok :: "'q git_commit \<Rightarrow> bool" where
  "commit_ok c \<longleftrightarrow> map r_action (gc_results c) = map op_action (gc_operations c) \<or>
     gc_operations c = [SyncOrders] \<and> (\<forall>r \<in> set (gc_results c). r_action r = ActSyncOrders)"

text \<open>
  The invariant of the object at rest: no write in flight, the hash and the message of a pending
  commit come together and only with staged operations, commits form one chain from the root to the
  head, and each commit is well formed.
\<close>

definition git_ok :: "trading_git \<Rightarrow> bool" where
  "git_ok g \<longleftrightarrow> \<not> g_inflightWrite g \<and>
     (g_pendingHash g = None \<longleftrightarrow> g_pendingMessage g = None) \<and>
     (g_pendingHash g \<noteq> None \<longrightarrow> g_stagingArea g \<noteq> []) \<and>
     linked_by gc_hash gc_parentHash None (g_commits g) \<and>
     g_head g = tip_of gc_hash None (g_commits g) \<and>
     list_all commit_ok (g_commits g)"

lemma git_ok_append:
  assumes "git_ok g" "gc_parentHash c = g_head g" "commit_ok c"
  shows "git_ok (append_commit c g)"
  using assms by (auto simp: git_ok_def linked_by_append)

lemma git_ok_clear: "git_ok g \<Longrightarrow> git_ok (clear_staging g)"
  by (simp add: git_ok_def)

lemma commit_ok_staged: "map r_action rs = map op_action (g_stagingArea g) \<Longrightarrow>
    commit_ok (staged_commit g m rs st t)"
  by (simp add: commit_ok_def)

lemma user_rejected_action [simp]: "r_action (user_rejected reason op) = op_action op"
  by (simp add: user_rejected_def)

lemma synthesized_commits [simp]:
  "gc_parentHash (reconcile_commit D H t a q p st m g) = g_head g"
  "gc_parentHash (observed_commit H t obs st g) = g_head g"
  "gc_parentHash (sync_commit H t us st g) = g_head g"
  "commit_ok (reconcile_commit D H t a q p st m g)"
  "commit_ok (observed_commit H t obs st g)"
  "commit_ok (sync_commit H t us st g)"
  by (auto simp: reconcile_commit_def observed_commit_def sync_commit_def sync_result_of_def
      commit_ok_def Let_def)

text \<open>Every call leaves the log alone or appends one linked, well-formed commit to it.\<close>

lemma push_effect:
  assumes "tg_push cfg h g w = (r, g', w')"
  obtains "g' = g"
  | c where "g' = append_commit c g \<or> g' = clear_staging (append_commit c g)"
      "gc_parentHash c = g_head g" "commit_ok c"
proof (cases "push_ready h g")
  case False
  then show thesis using tg_push_refused [of h g cfg w] assms that(1) by auto
next
  case True
  obtain rs w1 where e: "exec_ops cfg (g_stagingArea g) w = (rs, w1)"
    by (cases "exec_ops cfg (g_stagingArea g) w")
  from True assms e show thesis
    by (cases rule: tg_push_ready)
      (use that(1) in blast,
       (rule that(2), blast, simp, simp add: commit_ok_staged exec_ops_actions [OF e])+)
qed

lemma reject_effect:
  assumes "tg_reject cfg reason h g w = (r, g', w')"
  obtains "g' = g"
  | c where "g' = append_commit c g \<or> g' = clear_staging (append_commit c g)"
      "gc_parentHash c = g_head g" "commit_ok c"
proof (cases "push_ready h g")
  case False
  then show thesis using tg_reject_refused [of h g cfg reason w] assms that(1) by auto
next
  case True
  from True assms show thesis
    by (cases rule: tg_reject_ready)
      (use that(1) in blast, (rule that(2), blast, simp, simp add: commit_ok_staged comp_def)+)
qed

lemma persisted_effect:
  assumes "snd (persist_commit cfg c g w) = (g', w')"
  shows "g' = append_commit c g"
  using assms persist_commit_state by (metis prod.collapse)

lemma then_hash_state: "snd (then_hash h x) = snd x"
  by (simp add: then_hash_def split: prod.splits)

lemma tg_sync_state:
  assumes "tg_sync cfg us st g w = (r, g', w')"
  shows "g' = g \<or> g' = append_commit (sync_commit (commitHash cfg) (clock cfg w) us st g) g"
  using assms persist_commit_state
  by (fastforce simp: tg_sync_def Let_def split: if_splits prod.splits)

lemma tg_add_git_ok: "git_ok g \<Longrightarrow> git_ok (snd (tg_add op g))"
  by (auto simp: tg_add_def Let_def git_ok_def)

lemma tg_commit_git_ok: "git_ok g \<Longrightarrow> git_ok (snd (tg_commit H t m g))"
  by (auto simp: tg_commit_def Let_def git_ok_def)

lemma tg_add_commit_log [simp]:
  "g_commits (snd (tg_add op g)) = g_commits g" "g_commits (snd (tg_commit H t m g)) = g_commits g"
  by (simp_all add: tg_add_def tg_commit_def Let_def)

lemma run_call_ok:
  assumes "run_call D cfg cl (g, w) = (g', w')" "git_ok g"
  shows "git_ok g' \<and> prefix (g_commits g) (g_commits g')"
proof (cases cl)
  case (CallAdd op)
  then show ?thesis using assms tg_add_git_ok [of g op] by auto
next
  case (CallCommit m)
  then show ?thesis using assms tg_commit_git_ok [of g] by auto
next
  case (CallPush h)
  then obtain r where "tg_push cfg h g w = (r, g', w')"
    using assms by (cases "tg_push cfg h g w") auto
  then show ?thesis using assms(2)
    by (cases rule: push_effect) (auto intro: git_ok_append git_ok_clear)
next
  case (CallReject rs h)
  then obtain r where "tg_reject cfg rs h g w = (r, g', w')"
    using assms by (cases "tg_reject cfg rs h g w") auto
  then show ?thesis using assms(2)
    by (cases rule: reject_effect) (auto intro: git_ok_append git_ok_clear)
next
  case (CallReconcile a q p st m)
  then have "g' = append_commit (reconcile_commit D (commitHash cfg) (clock cfg w) a q p st m g) g"
    using assms by (auto simp: recordReconcile_def Let_def then_hash_state dest: persisted_effect)
  then show ?thesis using assms(2) by (simp add: git_ok_append)
next
  case (CallObserved obs st)
  then have "g' = append_commit (observed_commit (commitHash cfg) (clock cfg w) obs st g) g"
    using assms by (auto simp: recordObservedOrders_def Let_def then_hash_state dest: persisted_effect)
  then show ?thesis using assms(2) by (simp add: git_ok_append)
next
  case (CallSync us st)
  then obtain r where "tg_sync cfg us st g w = (r, g', w')"
    using assms by (cases "tg_sync cfg us st g w") auto
  then show ?thesis using assms(2) tg_sync_state [of cfg us st g w r g' w'] by (auto simp: git_ok_append)
next
  case (CallRound n)
  then show ?thesis using assms by (auto simp: git_ok_def setCurrentRound_def)
qed

lemma run_calls_ok:
  "git_ok (fst s) \<Longrightarrow> git_ok (fst (run_calls D cfg cls s)) \<and>
     prefix (g_commits (fst s)) (g_commits (fst (run_calls D cfg cls s)))"
proof (induction cls arbitrary: s)
  case Nil
  then show ?case by (simp add: run_calls_def)
next
  case (Cons cl cls)
  obtain g w where s: "s = (g, w)" by (cases s)
  obtain g1 w1 where s1: "run_call D cfg cl (g, w) = (g1, w1)" by (cases "run_call D cfg cl (g, w)")
  have ok: "git_ok g1" "prefix (g_commits g) (g_commits g1)"
    using run_call_ok [OF s1] Cons.prems s by auto
  have "git_ok (fst (run_calls D cfg cls (g1, w1))) \<and>
      prefix (g_commits g1) (g_commits (fst (run_calls D cfg cls (g1, w1))))"
    using Cons.IH [of "(g1, w1)"] ok(1) by simp
  then show ?case using s s1 ok(2) by (auto simp: run_calls_def intro: prefix_order.trans)
qed

lemma git_ok_new [simp]: "git_ok new_git"
  by (simp add: git_ok_def new_git_def tip_of_def)

lemma ledger_run_ok: "git_ok (fst (run_calls D cfg cls (new_git, w)))"
  using run_calls_ok [of "(new_git, w)" D cfg cls] by simp

lemma run_call_grows:
  assumes "run_call D cfg cl (g, w) = (g', w')"
  shows "length (g_commits g') \<le> Suc (length (g_commits g))"
proof (cases cl)
  case (CallPush h)
  then obtain r where "tg_push cfg h g w = (r, g', w')" using assms by (cases "tg_push cfg h g w") auto
  then show ?thesis by (cases rule: push_effect) auto
next
  case (CallReject rs h)
  then obtain r where "tg_reject cfg rs h g w = (r, g', w')"
    using assms by (cases "tg_reject cfg rs h g w") auto
  then show ?thesis by (cases rule: reject_effect) auto
next
  case (CallSync us st)
  then obtain r where "tg_sync cfg us st g w = (r, g', w')"
    using assms by (cases "tg_sync cfg us st g w") auto
  then show ?thesis using tg_sync_state [of cfg us st g w r g' w'] by auto
qed (use assms in \<open>auto simp: recordReconcile_def recordObservedOrders_def Let_def then_hash_state
      setCurrentRound_def dest: persisted_effect\<close>)

lemma run_calls_grow:
  "length (g_commits (fst (run_calls D cfg cls s))) \<le> length (g_commits (fst s)) + length cls"
proof (induction cls arbitrary: s)
  case Nil
  then show ?case by (simp add: run_calls_def)
next
  case (Cons cl cls)
  have "length (g_commits (fst (run_call D cfg cl s))) \<le> Suc (length (g_commits (fst s)))"
    by (cases s; cases "run_call D cfg cl s") (auto dest: run_call_grows)
  then show ?case using Cons.IH [of "run_call D cfg cl s"] by (simp add: run_calls_def)
qed

text \<open>
  The part of a commit that the ledger itself owns: all of it but the order objects that operations
  and the snapshot refer to.
\<close>

definition ledger_entry :: "'q git_commit \<Rightarrow>
  string \<times> string option \<times> string \<times> string \<times> int option \<times> action list \<times> op_result list" where
  "ledger_entry c = (gc_hash c, gc_parentHash c, gc_message c, gc_timestamp c, gc_round c,
     map op_action (gc_operations c), gc_results c)"

section \<open>Tracing the operations handed to the broker\<close>

text \<open>The configuration instrumented with the list of operations handed to the broker.\<close>

definition traced :: "'w git_config \<Rightarrow> ('w \<times> operation list) git_config" where
  "traced cfg =
     \<lparr>executeOperation = (\<lambda>op (w, t). let (r, w') = executeOperation cfg op w in (r, w', t @ [op])),
      getGitState = (\<lambda>g (w, t). let (r, w') = getGitState cfg g w in (r, w', t)),
      onCommit = (case onCommit cfg of None \<Rightarrow> None
        | Some cb \<Rightarrow> Some (\<lambda>x (w, t). let (r, w') = cb x w in (r, w', t))),
      clock = (\<lambda>(w, t). clock cfg w), commitHash = commitHash cfg\<rparr>"

lemma traced_exec_ops:
  "exec_ops (traced cfg) ops (w, t) = (let (rs, w') = exec_ops cfg ops w in (rs, w', t @ ops))"
proof (induction ops arbitrary: w t)
  case Nil
  then show ?case by simp
next
  case (Cons op ops)
  then show ?case
    by (auto simp: exec_op_def traced_def Let_def split: prod.splits sum.splits)
qed

lemma traced_exec_op: "exec_op (traced cfg) op (w, t) = (r, w', t') \<Longrightarrow> t' = t @ [op]"
  by (auto simp: exec_op_def traced_def split: prod.splits sum.splits)

lemma traced_state: "getGitState (traced cfg) g (w, t) = (r, w', t') \<Longrightarrow> t' = t"
  by (auto simp: traced_def split: prod.splits)

lemma traced_persist: "persist_commit (traced cfg) c g (w, t) = (r, g', w', t') \<Longrightarrow> t' = t"
  by (auto simp: persist_commit_def traced_def Let_def split: option.splits prod.splits)

lemma traced_push: "executePush (traced cfg) g (w, t) = (r, g', w', t') \<Longrightarrow>
    t' = (if g_pendingMessage g = None \<or> g_pendingHash g = None then t else t @ g_stagingArea g)"
  by (auto simp: executePush_def traced_exec_ops Let_def
      split: prod.splits list.splits option.splits sum.splits
      dest!: traced_state traced_persist traced_exec_op)

lemma traced_reject: "executeReject (traced cfg) reason g (w, t) = (r, g', w', t') \<Longrightarrow> t' = t"
  by (auto simp: executeReject_def Let_def
      split: prod.splits list.splits option.splits sum.splits
      dest!: traced_state traced_persist)

lemma push_traced:
  "snd (snd (snd (tg_push (traced cfg) h g (w, t)))) = (if push_ready h g then t @ g_stagingArea g else t)"
proof (cases "push_ready h g")
  case False
  then show ?thesis using tg_push_refused [of h g "traced cfg" "(w, t)"] by auto
next
  case True
  then show ?thesis
    unfolding tg_push_def write_guard using True
    by (auto simp: push_ready_def split: prod.splits dest: traced_push)
qed

lemma push_callback_throws:
  assumes ready: "push_ready h g"
    and ex: "exec_ops cfg (g_stagingArea g) w = (rs, w1)"
    and st: "getGitState cfg (g\<lparr>g_inflightWrite := True\<rparr>) w1 = (Inr st, w2)"
    and c: "c = staged_commit g (the (g_pendingMessage g)) rs st (clock cfg w2)"
    and cb: "onCommit cfg = Some cb" "cb (exportState (append_commit c g)) w2 = (Inl e, w3)"
  shows "tg_push (traced cfg) h g (w, t) = (Inl e, append_commit c g, w3, t @ g_stagingArea g)"
proof -
  let ?g1 = "g\<lparr>g_inflightWrite := True\<rparr>"
  from ready obtain op ops m where g: "g_stagingArea g = op # ops" "g_pendingMessage g = Some m"
    "g_pendingHash g = Some h" "\<not> g_inflightWrite g" by (rule push_readyE)
  have c': "\<lparr>gc_hash = h, gc_parentHash = g_head g, gc_message = m, gc_operations = op # ops,
      gc_results = rs, gc_stateAfter = st, gc_timestamp = clock cfg w2, gc_round = g_currentRound g\<rparr> = c"
    using g c by (simp add: staged_commit_def)
  have texp: "exportState (append_commit c ?g1) = exportState (append_commit c g)"
    by (simp add: exportState_def)
  have tr: "exec_ops (traced cfg) (op # ops) (w, t) = (rs, w1, t @ op # ops)"
    "getGitState (traced cfg) ?g1 (w1, t @ op # ops) = (Inr st, w2, t @ op # ops)"
    "clock (traced cfg) (w2, t @ op # ops) = clock cfg w2"
    using ex st g traced_exec_ops [of cfg "op # ops" w t] by (simp_all add: traced_def)
  have p: "persist_commit (traced cfg) c ?g1 (w2, t @ op # ops) = (Inl e, append_commit c ?g1, w3, t @ op # ops)"
    using cb texp by (simp add: persist_commit_def traced_def)
  have "executePush (traced cfg) ?g1 (w, t) = (Inl e, append_commit c ?g1, w3, t @ op # ops)"
    using tr p g by (simp add: executePush_def c' del: exec_ops.simps)
  moreover have "end_write (append_commit c ?g1) = append_commit c g"
    using g(4) by (cases g) (simp add: end_write_def append_commit_def)
  ultimately show ?thesis using ready g unfolding tg_push_def write_guard by simp
qed

section \<open>A concrete configuration\<close>

text \<open>
  The world counts calls; every operation is accepted with an order id, and the persistence callback
  fails on demand.
\<close>

definition demo_state :: "dec git_state" where
  "demo_state = \<lparr>gs_netLiquidation = ''100'', gs_totalCashValue = ''100'', gs_unrealizedPnL = ''0'',
     gs_realizedPnL = ''0'', gs_positions = [], gs_pendingOrders = []\<rparr>"

definition demo_cfg :: "bool \<Rightarrow> nat git_config" where
  "demo_cfg fails =
     \<lparr>executeOperation = (\<lambda>op w. (Inr (RawObj \<lparr>ro_success = True, ro_error = None, ro_orderId = Some ''7'',
        ro_orderState = Some ''Submitted'', ro_legs = None\<rparr>), Suc w)),
      getGitState = (\<lambda>g w. (Inr demo_state, Suc w)),
      onCommit = Some (\<lambda>x w. (if fails then Inl (PlainError ''disk full'') else Inr (), w)),
      clock = (\<lambda>w. nat_str w), commitHash = (\<lambda>x. ''h'')\<rparr>"

definition demo_op :: operation where
  "demo_op = CancelOrder ''7'' None"

definition demo_prepared :: trading_git where
  "demo_prepared = new_git\<lparr>g_stagingArea := [demo_op], g_pendingMessage := Some ''m'',
     g_pendingHash := Some ''h''\<rparr>"

lemmas demo_eval = demo_cfg_def demo_state_def demo_op_def demo_prepared_def new_git_def traced_def
  tg_push_def tg_reject_def executePush_def executeReject_def assertPrepared_def beginWrite_def
  persist_commit_def append_commit_def clear_staging_def end_write_def exec_op_def Let_def

section \<open>Properties of the ledger\<close>

text \<open>C2: over any sequence of calls on a fresh ledger (staging, preparing, pushing, rejecting,
  reconciling, observing, syncing), whatever the broker, the snapshot and the persistence callback
  answer or throw, the object is well formed at rest: no write is left in flight, a pending hash
  exists exactly with a pending message and staged operations, every commit's parent is the commit
  before it, the head is the last commit, and every commit pairs its operations with results of the
  same action.\<close>

theorem ledger_invariant: "git_ok (fst (run_calls D cfg cls (new_git, w)))"
  by (rule ledger_run_ok)

text \<open>C3: the log is append-only: whatever is called next, the commits recorded so far stay where
  they are with their hash, parent, message, time, round, the actions of their operations and their
  results, every later commit comes after them, and each call adds at most one.  (The order objects
  that an operation or a snapshot of a commit refers to belong to the broker and are not part of
  the statement: the simulated exchange hands its own objects out and edits them later.)\<close>

theorem ledger_append_only:
  "prefix (map ledger_entry (g_commits (fst (run_calls D cfg cls (new_git, w)))))
     (map ledger_entry (g_commits (fst (run_calls D cfg (cls @ cls') (new_git, w))))) \<and>
   length (g_commits (fst (run_calls D cfg (cls @ cls') (new_git, w))))
     \<le> length (g_commits (fst (run_calls D cfg cls (new_git, w)))) + length cls'"
  using run_calls_ok [of "run_calls D cfg cls (new_git, w)" D cfg cls'] ledger_run_ok [of D cfg cls w]
    run_calls_grow [of D cfg cls' "run_calls D cfg cls (new_git, w)"]
  by (auto simp: run_calls_def intro: map_mono_prefix)

text \<open>C1: a push hands the broker exactly the staged operations, each once and in staging order,
  when the expected hash is the pending one and no other write runs; otherwise it hands over
  nothing.  This holds whatever the broker, the snapshot or the persistence callback do.\<close>

theorem push_executes_staged_once:
  "snd (snd (snd (tg_push (traced cfg) h g (w, t)))) = (if push_ready h g then t @ g_stagingArea g else t)"
  by (rule push_traced)

text \<open>C5: rejecting a pending commit never reaches the broker, whether the call succeeds or fails
  and wherever it fails.  A rejection that returns has recorded one commit in which every staged
  operation is user-rejected with the given reason, has cleared the staging area and moved the head
  to the pending hash; one that fails leaves what is staged and pending as it was.\<close>

theorem reject_records_without_executing:
  assumes "tg_reject (traced cfg) reason h g (w, t) = (r, g', w', t')"
  shows "t' = t \<and>
    (case r of
       Inl e \<Rightarrow> g_stagingArea g' = g_stagingArea g \<and> g_pendingHash g' = g_pendingHash g \<and>
         g_pendingMessage g' = g_pendingMessage g \<and> g_inflightWrite g' = g_inflightWrite g
     | Inr res \<Rightarrow> g_stagingArea g' = [] \<and> g_pendingHash g' = None \<and> g_pendingMessage g' = None \<and>
         g_head g' = Some h \<and> \<not> g_inflightWrite g' \<and>
         (\<exists>c. g_commits g' = g_commits g @ [c] \<and> gc_operations c = g_stagingArea g \<and>
            map r_action (gc_results c) = map op_action (g_stagingArea g) \<and>
            (\<forall>r \<in> set (gc_results c). \<not> r_success r \<and> r_status r = UserRejected \<and>
               r_error r = Some (opt_or reason ''Rejected by user''))))"
proof (cases "push_ready h g")
  case False
  then show ?thesis
    using assms tg_reject_refused [of h g "traced cfg" reason "(w, t)"] by auto
next
  case ready: True
  have t: "t' = t"
    using assms ready unfolding tg_reject_def write_guard by (auto split: prod.splits dest: traced_reject)
  have "\<not> g_inflightWrite g" using ready by (simp add: push_ready_def)
  with ready assms show ?thesis
    by (cases rule: tg_reject_ready) (simp_all add: push_ready_hash [OF ready] t user_rejected_def comp_def)
qed

lemma reject_records_without_executing_witness:
  "fst (snd (snd (tg_reject (traced (demo_cfg False)) (Some ''late'') ''h'' demo_prepared (0, [])))) = (1 :: nat)
   \<and> snd (snd (snd (tg_reject (traced (demo_cfg False)) (Some ''late'') ''h'' demo_prepared (0 :: nat, [])))) = []"
proof -
  obtain res g' w' t' where r: "tg_reject (traced (demo_cfg False)) (Some ''late'') ''h'' demo_prepared (0, [])
      = (Inr res, g', w', t')" and w: "w' = 1"
    by (simp add: demo_eval)
  show ?thesis using reject_records_without_executing [OF r] r w by simp
qed

text \<open>C4: a successful push appends one commit that holds the staged operations and, operation by
  operation, what the broker replied to it in turn: an error it threw is a rejected result with the
  error's message, a reply that is no object is rejected as an invalid response, a reply without
  success is rejected with its error (or \<open>Unknown error\<close>), and only a reply with success is a
  successful result, with the order id it carries and the status its order state stands for.  The
  push returns the split of these results into submitted and rejected ones, moves the head to the
  pending hash and clears the staging area.\<close>

theorem push_functional:
  assumes "tg_push cfg h g w = (Inr res, g', w')"
  shows "\<exists>rs. map gc_operations (g_commits g') = map gc_operations (g_commits g) @ [g_stagingArea g] \<and>
    map gc_results (g_commits g') = map gc_results (g_commits g) @ [rs] \<and>
    length (exec_replies cfg (g_stagingArea g) w) = length (g_stagingArea g) \<and>
    list_all2 (\<lambda>(op, reply) r. recorded_as op reply r)
      (zip (g_stagingArea g) (exec_replies cfg (g_stagingArea g) w)) rs \<and>
    g_head g' = Some h \<and> g_stagingArea g' = [] \<and> g_pendingMessage g' = None \<and>
    g_pendingHash g' = None \<and>
    pu_submitted res = filter r_success rs \<and> pu_rejected res = filter (\<lambda>r. \<not> r_success r) rs"
proof -
  have ready: "push_ready h g" using assms tg_push_refused [of h g cfg w] by auto
  obtain rs w1 where ex: "exec_ops cfg (g_stagingArea g) w = (rs, w1)"
    by (cases "exec_ops cfg (g_stagingArea g) w")
  from ready assms ex exec_ops_recorded [OF ex] show ?thesis
    by (cases rule: tg_push_ready) (auto simp: push_ready_hash [OF ready])
qed

lemma push_functional_witness:
  "g_head (fst (snd (tg_push (demo_cfg False) ''h'' demo_prepared 0))) = Some ''h''"
proof -
  obtain res g' w' where p: "tg_push (demo_cfg False) ''h'' demo_prepared 0 = (Inr res, g', w')"
    by (simp add: demo_eval)
  show ?thesis using push_functional [OF p] p by auto
qed

text \<open>C6: when the broker has answered every operation and the snapshot was taken, but the
  persistence callback throws, the push fails with that error although the commit is in the log and
  the head, while the staged operations and the pending hash are still there: the same hash is
  accepted again, and a second push hands every operation to the broker a second time.\<close>

theorem push_retry_executes_twice:
  assumes "push_ready h g"
    and "exec_ops cfg (g_stagingArea g) w = (rs, w1)"
    and "getGitState cfg (g\<lparr>g_inflightWrite := True\<rparr>) w1 = (Inr st, w2)"
    and "c = staged_commit g (the (g_pendingMessage g)) rs st (clock cfg w2)"
    and "onCommit cfg = Some cb" and "cb (exportState (append_commit c g)) w2 = (Inl e, w3)"
  shows "tg_push (traced cfg) h g (w, t) = (Inl e, append_commit c g, w3, t @ g_stagingArea g) \<and>
    push_ready h (append_commit c g) \<and>
    snd (snd (snd (tg_push (traced cfg) h (append_commit c g) (w3, t @ g_stagingArea g))))
      = t @ g_stagingArea g @ g_stagingArea g"
proof -
  have "tg_push (traced cfg) h g (w, t) = (Inl e, append_commit c g, w3, t @ g_stagingArea g)"
    using assms by (rule push_callback_throws)
  moreover have "push_ready h (append_commit c g)" using assms(1) by (simp add: push_ready_def)
  ultimately show ?thesis using push_traced [of cfg h "append_commit c g" w3 "t @ g_stagingArea g"] by simp
qed

lemma push_retry_executes_twice_witness:
  "\<exists>e g'. tg_push (traced (demo_cfg True)) ''h'' demo_prepared (0, []) = (Inl e, g', 2, [demo_op]) \<and>
     snd (snd (snd (tg_push (traced (demo_cfg True)) ''h'' g' (2, [demo_op])))) = [demo_op, demo_op]"
proof -
  have ready: "push_ready ''h'' demo_prepared" by (simp add: push_ready_def demo_prepared_def new_git_def demo_op_def)
  obtain rs where ex: "exec_ops (demo_cfg True) (g_stagingArea demo_prepared) 0 = (rs, 1)"
    by (simp add: demo_eval)
  have st: "getGitState (demo_cfg True) (demo_prepared\<lparr>g_inflightWrite := True\<rparr>) 1 = (Inr demo_state, 2)"
    by (simp add: demo_cfg_def)
  have cb: "onCommit (demo_cfg True) = Some (\<lambda>x w. (Inl (PlainError ''disk full''), w))"
    by (simp add: demo_cfg_def)
  have "g_stagingArea demo_prepared = [demo_op]" by (simp add: demo_prepared_def)
  then show ?thesis
    using push_retry_executes_twice [OF ready ex st refl cb refl, of "[]"] by auto
qed

end
