(* ===== verification/Rat_Rounding.thy ===== *)
theory Rat_Rounding
  imports Complex_Main "HOL-Library.Log_Nat"
begin

text \<open>
  Rounding of rationals to a floating format: the exponent of a number in a base, the multiples of a
  unit that depends on it, and what holds for every way of rounding to an integer that is monotone
  and keeps integers (a locale; the decimal package rounds half up, JavaScript half to even).
\<close>

section \<open>Exponents\<close>

text \<open>\<open>b ^ e \<le> x < b ^ (e + 1)\<close> for a positive \<open>x\<close>.\<close>

definition rat_exp :: "nat \<Rightarrow> rat \<Rightarrow> int" where
  "rat_exp b x = (if 1 \<le> x then int (floorlog b (nat \<lfloor>x\<rfloor>)) - 1
                  else - int (floorlog b (nat (\<lceil>1 / x\<rceil> - 1))))"

lemma floorlog_gt: "1 < b \<Longrightarrow> n < b ^ floorlog b n"
  using floorlog_bounds [of n b] by (cases "n = 0") auto

lemma floorlog_le: "1 < b \<Longrightarrow> 0 < n \<Longrightarrow> b ^ (floorlog b n - 1) \<le> n"
  using floorlog_bounds [of n b] by auto

lemma of_nat_le_pow: "n \<le> b ^ k \<Longrightarrow> (of_nat n :: rat) \<le> of_nat b ^ k"
  by (metis of_nat_le_iff of_nat_power)

lemma pow_le_of_nat: "b ^ k \<le> n \<Longrightarrow> (of_nat b :: rat) ^ k \<le> of_nat n"
  by (metis of_nat_le_iff of_nat_power)

lemma of_nat_less_pow: "n < b ^ k \<Longrightarrow> (of_nat n :: rat) + 1 \<le> of_nat b ^ k"
  using of_nat_le_pow [of "Suc n" b k] by simp

lemma rat_exp_ge1:
  assumes "1 < b" "1 \<le> x"
  shows "of_nat b powi rat_exp b x \<le> x" "x < of_nat b powi (rat_exp b x + 1)"
proof -
  let ?n = "nat \<lfloor>x\<rfloor>" and ?k = "floorlog b (nat \<lfloor>x\<rfloor>)"
  have n: "0 < ?n" using assms by (simp add: le_floor_iff)
  have k: "0 < ?k" using n assms by (simp add: floorlog_def)
  have "int ?n = \<lfloor>x\<rfloor>" using assms by simp
  then have "of_nat ?n = (of_int \<lfloor>x\<rfloor> :: rat)" by (metis of_int_of_nat_eq)
  then have fl: "of_nat ?n \<le> x" "x < of_nat ?n + 1"
    using floor_correct [of x] by simp_all
  have e: "rat_exp b x = int (?k - 1)" using assms k by (simp add: rat_exp_def)
  have "(of_nat b :: rat) ^ (?k - 1) \<le> of_nat ?n"
    by (rule pow_le_of_nat) (rule floorlog_le [OF assms(1) n])
  then have "(of_nat b :: rat) ^ (?k - 1) \<le> x" using fl(1) by (rule order_trans)
  then show "of_nat b powi rat_exp b x \<le> x" unfolding e by (simp only: power_int_of_nat)
  have "of_nat ?n + 1 \<le> (of_nat b :: rat) ^ ?k"
    by (rule of_nat_less_pow) (rule floorlog_gt [OF assms(1)])
  moreover have "rat_exp b x + 1 = int ?k" using e k by simp
  ultimately show "x < of_nat b powi (rat_exp b x + 1)" using fl(2) by simp
qed

lemma rat_exp_lt1:
  assumes "1 < b" "0 < x" "x < 1"
  shows "of_nat b powi rat_exp b x \<le> x" "x < of_nat b powi (rat_exp b x + 1)"
proof -
  let ?m = "nat (\<lceil>1 / x\<rceil> - 1)" and ?k = "floorlog b (nat (\<lceil>1 / x\<rceil> - 1))"
  have b: "0 < (of_nat b :: rat)" using assms by simp
  have y: "1 < 1 / x" using assms by simp
  have "of_int 1 < 1 / x" using y by (simp only: of_int_1)
  then have c: "1 < \<lceil>1 / x\<rceil>" by (simp only: less_ceiling_iff)
  then have "0 < \<lceil>1 / x\<rceil> - 1" by linarith
  then have m: "0 < ?m" and im: "int ?m = \<lceil>1 / x\<rceil> - 1" by (simp_all only: zero_less_nat_eq nat_0_le less_imp_le)
  have k: "0 < ?k" using m assms by (simp add: floorlog_def)
  have e: "rat_exp b x = - int ?k" using assms by (simp add: rat_exp_def)
  have up: "1 / x \<le> of_nat ?m + 1"
  proof -
    have "1 / x \<le> of_int \<lceil>1 / x\<rceil>" by simp
    also have "\<dots> = of_int (int ?m + 1)" unfolding im by simp
    finally show ?thesis by (simp only: of_int_add of_int_of_nat_eq of_int_1)
  qed
  have lo: "of_nat ?m < 1 / x"
  proof -
    have "of_int (\<lceil>1 / x\<rceil> - 1) < 1 / x" by linarith
    then have "of_int (int ?m) < 1 / x" by (simp only: im)
    then show ?thesis by (simp only: of_int_of_nat_eq)
  qed
  have "of_nat ?m + 1 \<le> (of_nat b :: rat) ^ ?k"
    by (rule of_nat_less_pow) (rule floorlog_gt [OF assms(1)])
  with up have "1 / x \<le> of_nat b ^ ?k" by (rule order_trans)
  then have "1 / of_nat b ^ ?k \<le> x" using assms b by (simp add: field_simps)
  then show "of_nat b powi rat_exp b x \<le> x" unfolding e by (simp add: power_int_minus field_simps)
  have "(of_nat b :: rat) ^ (?k - 1) \<le> of_nat ?m"
    by (rule pow_le_of_nat) (rule floorlog_le [OF assms(1) m])
  then have "of_nat b ^ (?k - 1) < 1 / x" using lo by (rule le_less_trans)
  then have "x < 1 / of_nat b ^ (?k - 1)" using assms b by (simp add: field_simps)
  moreover have "rat_exp b x + 1 = - int (?k - 1)" using e k by simp
  ultimately show "x < of_nat b powi (rat_exp b x + 1)" by (simp add: power_int_minus field_simps)
qed

lemma rat_exp_bounds:
  "1 < b \<Longrightarrow> 0 < x \<Longrightarrow> of_nat b powi rat_exp b x \<le> x \<and> x < of_nat b powi (rat_exp b x + 1)"
  using rat_exp_ge1 [of b x] rat_exp_lt1 [of b x] by (cases "1 \<le> x") auto

lemma powi_mono: "1 < b \<Longrightarrow> i \<le> j \<Longrightarrow> (of_nat b :: rat) powi i \<le> of_nat b powi j"
  by (rule power_int_increasing) auto

lemma rat_exp_mono:
  assumes "1 < b" "0 < x" "x \<le> y"
  shows "rat_exp b x \<le> rat_exp b y"
proof (rule ccontr)
  assume "\<not> rat_exp b x \<le> rat_exp b y"
  then have "(of_nat b :: rat) powi (rat_exp b y + 1) \<le> of_nat b powi rat_exp b x"
    using assms(1) by (intro powi_mono) auto
  with rat_exp_bounds [of b x] rat_exp_bounds [of b y] assms show False by linarith
qed

section \<open>Rounding to a multiple of a unit\<close>

definition round_unit :: "(rat \<Rightarrow> int) \<Rightarrow> nat \<Rightarrow> int \<Rightarrow> rat \<Rightarrow> rat" where
  "round_unit h b u x = of_int (h (x / of_nat b powi u)) * of_nat b powi u"

definition round_format :: "(rat \<Rightarrow> int) \<Rightarrow> nat \<Rightarrow> (int \<Rightarrow> int) \<Rightarrow> rat \<Rightarrow> rat" where
  "round_format h b u x = (if x = 0 then 0 else if 0 < x then round_unit h b (u (rat_exp b x)) x
     else - round_unit h b (u (rat_exp b (- x))) (- x))"

text \<open>
  \<open>h\<close> rounds to an integer, \<open>u\<close> gives the exponent of the unit; where the unit changes, the powers
  of the base are multiples of it.
\<close>

locale int_rounding =
  fixes h :: "rat \<Rightarrow> int" and b :: nat and u :: "int \<Rightarrow> int"
  assumes base: "1 < b"
    and h_mono: "x \<le> y \<Longrightarrow> h x \<le> h y"
    and h_int: "h (of_int n) = n"
    and u_mono: "i \<le> j \<Longrightarrow> u i \<le> u j"
    and u_le: "i \<le> j \<Longrightarrow> u i = u j \<or> u j \<le> j"
begin

lemma pow_pos: "0 < (of_nat b :: rat) powi k"
  using base by simp

lemma round_unit_mono: "x \<le> y \<Longrightarrow> round_unit h b k x \<le> round_unit h b k y"
  unfolding round_unit_def using pow_pos [of k]
  by (intro mult_right_mono) (auto intro!: h_mono divide_right_mono simp: less_imp_le)

text \<open>Multiples of the unit are kept, powers of the base above it among them.\<close>

lemma round_unit_multiple: "round_unit h b k (of_int n * of_nat b powi k) = of_int n * of_nat b powi k"
  using base by (simp add: round_unit_def h_int)

lemma pow_multiple: "k \<le> e \<Longrightarrow> (of_nat b :: rat) powi e = of_int (int b ^ nat (e - k)) * of_nat b powi k"
proof -
  assume "k \<le> e"
  then have "(of_nat b :: rat) powi e = of_nat b powi int (nat (e - k)) * of_nat b powi k"
    using base by (simp add: power_int_add [symmetric])
  also have "(of_nat b :: rat) powi int (nat (e - k)) = of_int (int b ^ nat (e - k))"
    by (simp only: power_int_of_nat) simp
  finally show ?thesis .
qed

lemma round_unit_pow: "k \<le> e \<Longrightarrow> round_unit h b k (of_nat b powi e) = of_nat b powi e"
  by (simp only: pow_multiple [of k e] round_unit_multiple)

lemma round_unit_nonneg: "0 \<le> x \<Longrightarrow> 0 \<le> round_unit h b k x"
  using round_unit_mono [of 0 x k] h_int [of 0] by (simp add: round_unit_def)

lemma round_pos_mono:
  assumes "0 < x" "x \<le> y"
  shows "round_unit h b (u (rat_exp b x)) x \<le> round_unit h b (u (rat_exp b y)) y"
proof (cases "u (rat_exp b x) = u (rat_exp b y)")
  case True
  then show ?thesis by (simp add: round_unit_mono assms(2))
next
  case False
  let ?e = "rat_exp b y" and ?p = "of_nat b powi rat_exp b y :: rat"
  have le: "rat_exp b x \<le> ?e" by (rule rat_exp_mono [OF base assms])
  have u: "u ?e \<le> ?e" "u (rat_exp b x) \<le> ?e" using u_le [OF le] u_mono [OF le] False by auto
  have "rat_exp b x + 1 \<le> ?e" using le False by (cases "rat_exp b x = ?e") auto
  then have "of_nat b powi (rat_exp b x + 1) \<le> ?p" by (rule powi_mono [OF base])
  then have "x \<le> ?p" "?p \<le> y" using rat_exp_bounds [OF base, of x] rat_exp_bounds [OF base, of y] assms by auto
  then have "round_unit h b (u (rat_exp b x)) x \<le> ?p" "?p \<le> round_unit h b (u ?e) y"
    using round_unit_mono [of x ?p "u (rat_exp b x)"] round_unit_mono [of ?p y "u ?e"] round_unit_pow [OF u(1)]
      round_unit_pow [OF u(2)] by simp_all
  then show ?thesis by (rule order_trans)
qed

lemma format_mono:
  assumes "x \<le> y"
  shows "round_format h b u x \<le> round_format h b u y"
proof -
  have pos: "0 \<le> z \<Longrightarrow> 0 \<le> round_format h b u z" and neg: "z \<le> 0 \<Longrightarrow> round_format h b u z \<le> 0" for z
    using round_unit_nonneg [of z] round_unit_nonneg [of "- z"] by (auto simp: round_format_def)
  consider "0 < x" | "x \<le> 0" "0 \<le> y" | "y < 0" using assms by linarith
  then show ?thesis
  proof cases
    case 1
    with assms show ?thesis by (simp add: round_format_def round_pos_mono)
  next
    case 2
    from neg [OF 2(1)] pos [OF 2(2)] show ?thesis by (rule order_trans)
  next
    case 3
    with assms show ?thesis using round_pos_mono [of "- y" "- x"] by (simp add: round_format_def)
  qed
qed

lemma format_zero [simp]: "round_format h b u 0 = 0"
  by (simp add: round_format_def)

lemma format_neg: "round_format h b u (- x) = - round_format h b u x"
  by (cases "x = 0"; cases "0 < x") (auto simp: round_format_def)

text \<open>A multiple of its own unit is in the format.\<close>

lemma format_multiple_pos:
  assumes "0 < x" "x = of_int n * of_nat b powi k" "u (rat_exp b x) \<le> k"
  shows "round_format h b u x = x"
proof -
  let ?u = "u (rat_exp b x)"
  have x: "x = of_int (n * int b ^ nat (k - ?u)) * of_nat b powi ?u" using assms(2) pow_multiple [OF assms(3)] by simp
  have "round_unit h b ?u x = x" by (subst (1 3) x) (rule round_unit_multiple)
  then show ?thesis using assms(1) by (simp add: round_format_def)
qed

lemma format_pos:
  assumes "0 < x" "u (rat_exp b x) \<le> rat_exp b x"
  shows "0 < round_format h b u x"
proof -
  have "0 < (of_nat b :: rat) powi rat_exp b x" by (rule pow_pos)
  also have "\<dots> \<le> round_unit h b (u (rat_exp b x)) x"
    using round_unit_mono [of "of_nat b powi rat_exp b x" x "u (rat_exp b x)"] round_unit_pow [OF assms(2)]
      rat_exp_bounds [OF base assms(1)] by simp
  finally show ?thesis using assms(1) by (simp add: round_format_def)
qed

end

text \<open>Rounding half up and half to even.\<close>

definition half_up :: "rat \<Rightarrow> int" where
  "half_up x = \<lfloor>x + 1 / 2\<rfloor>"

definition half_even :: "rat \<Rightarrow> int" where
  "half_even x = (let n = \<lfloor>x\<rfloor>; d = x - of_int n in
     if d < 1 / 2 \<or> d = 1 / 2 \<and> even n then n else n + 1)"

lemma half_even_mono:
  assumes "x \<le> y"
  shows "half_even x \<le> half_even y"
proof (cases "\<lfloor>x\<rfloor> = \<lfloor>y\<rfloor>")
  case True
  then show ?thesis using assms by (auto simp: half_even_def Let_def)
next
  case False
  then have "\<lfloor>x\<rfloor> + 1 \<le> \<lfloor>y\<rfloor>" using floor_mono [OF assms] by simp
  then show ?thesis by (auto simp: half_even_def Let_def)
qed

lemma half_even_int: "half_even (of_int n) = n"
  by (simp add: half_even_def)

lemma half_up_mono: "x \<le> y \<Longrightarrow> half_up x \<le> half_up y"
  by (simp add: half_up_def floor_mono)

lemma half_up_int: "half_up (of_int n) = n"
  by (simp add: half_up_def floor_eq_iff)

end
