(* ===== verification/Decimal_Instance.thy ===== *)
theory Decimal_Instance
  imports Decimal_JS Rat_Rounding
begin

text \<open>
  Two concrete instances of the decimal parameter: \<open>exact_decimal\<close>, which never rounds, and
  \<open>decimal20\<close>, the package's default configuration, which rounds every result half up to
  twenty significant digits.  Both print and parse finite decimal fractions positionally.  They
  show that the laws assumed of the package can hold, and the witnesses of the development
  compute with them.
\<close>

section \<open>Printing\<close>

text \<open>The digits of a number, padded on the left with zeros to at least \<open>k\<close> digits.\<close>

definition pad_digits :: "nat \<Rightarrow> nat \<Rightarrow> nat list" where
  "pad_digits k n = (let ds = nat_digits n in replicate (k - length ds) 0 @ ds)"

definition dec_scale :: "rat \<Rightarrow> nat" where
  "dec_scale r = (case find (\<lambda>k. snd (quotient_of r) dvd 10 ^ k) [0..<Suc (nat (snd (quotient_of r)))]
                  of None \<Rightarrow> 0 | Some k \<Rightarrow> k)"

definition scaled :: "rat \<Rightarrow> nat" where
  "scaled r = nat \<lfloor>\<bar>r\<bar> * 10 ^ dec_scale r\<rfloor>"

definition print_rat :: "rat \<Rightarrow> string" where
  "print_rat r =
     (let k = dec_scale r; ds = map digit_char (pad_digits (Suc k) (scaled r)); m = length ds - k
      in (if r < 0 then ''-'' else '''') @ take m ds @ (if k = 0 then '''' else ''.'' @ drop m ds))"

fun print_dec :: "dec \<Rightarrow> string" where
  "print_dec (Fin r) = print_rat r"
| "print_dec PosInf = ''Infinity''"
| "print_dec NegInf = ''-Infinity''"
| "print_dec NotANumber = ''NaN''"

definition print_fixed :: "nat \<Rightarrow> dec \<Rightarrow> string" where
  "print_fixed dp d = (case d of
     Fin r \<Rightarrow>
       (let n = nat \<lfloor>\<bar>r\<bar> * 10 ^ dp + 1 / 2\<rfloor>; ds = map digit_char (pad_digits (Suc dp) n);
            m = length ds - dp
        in (if r < 0 then ''-'' else '''') @ take m ds @ (if dp = 0 then '''' else ''.'' @ drop m ds))
   | _ \<Rightarrow> print_dec d)"

section \<open>Parsing\<close>

definition char_digit :: "char \<Rightarrow> nat option" where
  "char_digit c = (let n = (of_char c :: nat) in if 48 \<le> n \<and> n \<le> 57 then Some (n - 48) else None)"

text \<open>Digits with at most one point: the value of the digits and the number of places.\<close>

fun parse_digits :: "nat \<Rightarrow> nat option \<Rightarrow> string \<Rightarrow> (nat \<times> nat) option" where
  "parse_digits acc plc [] = Some (acc, case plc of None \<Rightarrow> 0 | Some k \<Rightarrow> k)"
| "parse_digits acc plc (c # cs) =
     (if c = CHR ''.'' then (case plc of None \<Rightarrow> parse_digits acc (Some 0) cs | Some _ \<Rightarrow> None)
      else case char_digit c of
        None \<Rightarrow> None
      | Some d \<Rightarrow> parse_digits (10 * acc + d) (map_option Suc plc) cs)"

definition parse_unsigned :: "string \<Rightarrow> rat option" where
  "parse_unsigned s = (if s = [] then None else
     map_option (\<lambda>(n, k). of_nat n / 10 ^ k) (parse_digits 0 None s))"

definition parse_dec :: "string \<Rightarrow> dec option" where
  "parse_dec s = (if s = ''Infinity'' then Some PosInf
     else if s = ''-Infinity'' then Some NegInf
     else if s = ''NaN'' then Some NotANumber
     else case s of
       [] \<Rightarrow> None
     | c # cs \<Rightarrow>
         if c = CHR ''-'' then map_option (\<lambda>r. Fin (- r)) (parse_unsigned cs)
         else map_option Fin (parse_unsigned (c # cs)))"

section \<open>Round trip\<close>

lemma char_digit_digit_char: "d < 10 \<Longrightarrow> char_digit (digit_char d) = Some d"
  by (simp add: char_digit_def digit_char_def)

lemma digit_char_not_point: "d < 10 \<Longrightarrow> digit_char d \<noteq> CHR ''.''"
proof
  assume d: "d < 10" and "digit_char d = CHR ''.''"
  then have "of_char (digit_char d) = (46 :: nat)" by simp
  with d show False by (simp add: digit_char_def)
qed

lemma nat_digits_lt: "d \<in> set (nat_digits n) \<Longrightarrow> d < 10"
proof (induction n rule: nat_digits.induct)
  case (1 n)
  show ?case
  proof (cases "n < 10")
    case True
    then show ?thesis using "1.prems" by (simp add: nat_digits.simps [of n])
  next
    case False
    then show ?thesis using "1.prems" "1.IH" by (auto simp: nat_digits.simps [of n])
  qed
qed

lemma nat_digits_nonempty [simp]: "nat_digits n \<noteq> []"
  by (subst nat_digits.simps) simp

lemma pad_digits_lt: "d \<in> set (pad_digits k n) \<Longrightarrow> d < 10"
  by (auto simp: pad_digits_def Let_def nat_digits_lt split: if_splits)

lemma length_pad_digits: "k \<le> length (pad_digits k n)"
  by (simp add: pad_digits_def Let_def)

definition digits_value :: "nat \<Rightarrow> nat list \<Rightarrow> nat" where
  "digits_value acc ds = foldl (\<lambda>a d. 10 * a + d) acc ds"

lemma digits_value_append: "digits_value a (xs @ ys) = digits_value (digits_value a xs) ys"
  by (simp add: digits_value_def)

lemma digits_value_nat_digits: "digits_value 0 (nat_digits n) = n"
proof (induction n rule: nat_digits.induct)
  case (1 n)
  show ?case
  proof (cases "n < 10")
    case True
    then show ?thesis by (simp add: nat_digits.simps [of n] digits_value_def)
  next
    case False
    then have "digits_value 0 (nat_digits n) = digits_value (n div 10) [n mod 10]"
      using "1.IH" by (simp add: nat_digits.simps [of n] digits_value_append)
    then show ?thesis by (simp add: digits_value_def)
  qed
qed

lemma digits_value_zeros: "digits_value 0 (replicate k 0) = 0"
  by (induction k) (auto simp: digits_value_def)

lemma digits_value_pad: "digits_value 0 (pad_digits k n) = n"
  by (simp add: pad_digits_def Let_def digits_value_append digits_value_zeros digits_value_nat_digits)

lemma parse_digits_map:
  "(\<And>d. d \<in> set ds \<Longrightarrow> d < 10) \<Longrightarrow>
   parse_digits acc plc (map digit_char ds @ rest) =
   parse_digits (digits_value acc ds) (map_option (\<lambda>k. k + length ds) plc) rest"
proof (induction ds arbitrary: acc plc)
  case Nil
  then show ?case by (cases plc) (simp_all add: digits_value_def)
next
  case (Cons d ds)
  have d: "d < 10" using Cons.prems by simp
  have "parse_digits acc plc (map digit_char (d # ds) @ rest)
      = parse_digits (10 * acc + d) (map_option Suc plc) (map digit_char ds @ rest)"
    using d by (simp add: digit_char_not_point char_digit_digit_char)
  also have "\<dots> = parse_digits (digits_value (10 * acc + d) ds)
      (map_option (\<lambda>k. k + length ds) (map_option Suc plc)) rest"
    by (rule Cons.IH) (use Cons.prems in simp)
  finally show ?case
    by (cases plc) (simp_all add: digits_value_def)
qed

lemma parse_point: "(\<And>d. d \<in> set (xs @ ys) \<Longrightarrow> d < 10) \<Longrightarrow>
   parse_digits 0 None (map digit_char xs @ ''.'' @ map digit_char ys) =
   Some (digits_value 0 (xs @ ys), length ys)"
  using parse_digits_map [of xs 0 None "''.'' @ map digit_char ys"]
    parse_digits_map [of ys "digits_value 0 xs" "Some 0" "[]"]
  by (simp add: digits_value_append)

lemma parse_no_point: "(\<And>d. d \<in> set xs \<Longrightarrow> d < 10) \<Longrightarrow>
   parse_digits 0 None (map digit_char xs) = Some (digits_value 0 xs, 0)"
  using parse_digits_map [of xs 0 None "[]"] by simp

lemma dec_scale_dvd:
  assumes "dec_repr (Fin r)"
  shows "snd (quotient_of r) dvd 10 ^ dec_scale r"
proof -
  let ?d = "snd (quotient_of r)"
  obtain k where k: "k \<le> nat ?d" "?d dvd 10 ^ k" using assms by (auto simp: dec_repr.simps)
  then have "k \<in> set [0..<Suc (nat ?d)]" by auto
  with k(2) have "find (\<lambda>k. ?d dvd 10 ^ k) [0..<Suc (nat ?d)] \<noteq> None"
    unfolding find_None_iff by blast
  then obtain j where j: "find (\<lambda>k. ?d dvd 10 ^ k) [0..<Suc (nat ?d)] = Some j" by blast
  then have "?d dvd 10 ^ j" unfolding find_Some_iff by blast
  moreover have "dec_scale r = j" unfolding dec_scale_def j by simp
  ultimately show ?thesis by simp
qed

lemma scaled_eq:
  assumes "dec_repr (Fin r)"
  shows "of_nat (scaled r) = \<bar>r\<bar> * 10 ^ dec_scale r"
proof -
  obtain n d where nd: "quotient_of r = (n, d)" by (cases "quotient_of r")
  then have d: "d > 0" and r: "r = of_int n / of_int d"
    by (auto simp: quotient_of_denom_pos quotient_of_div)
  from dec_scale_dvd [OF assms] nd obtain q where q: "10 ^ dec_scale r = d * q" by auto
  have "(10 :: rat) ^ dec_scale r = of_int (10 ^ dec_scale r)" by simp
  also have "\<dots> = of_int d * of_int q" by (simp only: q of_int_mult)
  finally have "\<bar>r\<bar> * 10 ^ dec_scale r = of_int (\<bar>n\<bar> * q)"
    using d r by (simp add: abs_mult)
  moreover have "0 \<le> \<bar>n\<bar> * q"
  proof -
    have "0 < d * q" unfolding q [symmetric] by simp
    with d have "0 < q" by (simp add: zero_less_mult_iff)
    then show ?thesis by simp
  qed
  ultimately show ?thesis unfolding scaled_def by (simp only: floor_of_int of_nat_nat)
qed

lemma parse_print_unsigned:
  fixes n k :: nat
  defines "ds \<equiv> map digit_char (pad_digits (Suc k) n)"
  defines "m \<equiv> length ds - k"
  shows "parse_unsigned (take m ds @ (if k = 0 then '''' else ''.'' @ drop m ds))
    = Some (of_nat n / 10 ^ k)"
proof -
  let ?p = "pad_digits (Suc k) n"
  have ne: "ds \<noteq> []" using length_pad_digits [of "Suc k" n] by (auto simp: ds_def)
  have len: "Suc k \<le> length ds" using length_pad_digits [of "Suc k" n] by (simp add: ds_def)
  show ?thesis
  proof (cases "k = 0")
    case True
    then have "take m ds @ (if k = 0 then '''' else ''.'' @ drop m ds) = ds"
      by (simp add: m_def)
    moreover have "parse_digits 0 None ds = Some (n, 0)"
      using parse_no_point [of ?p] pad_digits_lt by (auto simp: ds_def digits_value_pad)
    ultimately show ?thesis using ne True by (simp add: parse_unsigned_def)
  next
    case False
    have "take m ds = map digit_char (take m ?p)" "drop m ds = map digit_char (drop m ?p)"
      by (simp_all add: ds_def take_map drop_map)
    moreover have "parse_digits 0 None (map digit_char (take m ?p) @ ''.'' @ map digit_char (drop m ?p))
        = Some (digits_value 0 (take m ?p @ drop m ?p), length (drop m ?p))"
      by (rule parse_point) (auto simp: pad_digits_lt)
    moreover have "length (drop m ?p) = k" using len by (simp add: ds_def m_def)
    ultimately show ?thesis
      using False by (simp add: parse_unsigned_def digits_value_pad)
  qed
qed

lemma digit_char_range: "d < 10 \<Longrightarrow> of_char (digit_char d) \<in> {48..57 :: nat}"
  by (simp add: digit_char_def)

lemma print_unsigned_head:
  fixes n k :: nat
  defines "ds \<equiv> map digit_char (pad_digits (Suc k) n)"
  assumes "take (length ds - k) ds @ t = c # cs"
  shows "of_char c \<in> {48..57 :: nat}"
proof -
  have len: "Suc k \<le> length ds" using length_pad_digits [of "Suc k" n] by (simp add: ds_def)
  then have "c = hd ds" using assms(2) by (cases ds) (auto simp: take_Cons' split: if_splits)
  moreover have "hd ds \<in> set ds" using len by (cases ds) auto
  ultimately obtain d where "d \<in> set (pad_digits (Suc k) n)" "c = digit_char d"
    by (auto simp: ds_def)
  then show ?thesis using pad_digits_lt digit_char_range by blast
qed

lemma parse_print_rat:
  assumes "dec_repr (Fin r)"
  shows "parse_dec (print_rat r) = Some (Fin r)"
proof -
  let ?k = "dec_scale r" and ?n = "scaled r"
  let ?ds = "map digit_char (pad_digits (Suc ?k) ?n)"
  let ?m = "length ?ds - ?k"
  let ?u = "take ?m ?ds @ (if ?k = 0 then '''' else ''.'' @ drop ?m ?ds)"
  have u: "parse_unsigned ?u = Some \<bar>r\<bar>"
    using parse_print_unsigned [of ?k ?n] scaled_eq [OF assms] by simp
  then obtain c cs where c: "?u = c # cs" by (cases ?u) (auto simp: parse_unsigned_def)
  then have rng: "of_char c \<in> {48..57 :: nat}" by (rule print_unsigned_head)
  have nI: "c \<noteq> CHR ''I''" and nN: "c \<noteq> CHR ''N''" and nm: "c \<noteq> CHR ''-''"
    using rng by auto
  have p: "print_rat r = (if r < 0 then ''-'' else '''') @ (c # cs)"
    unfolding c [symmetric] by (simp add: print_rat_def Let_def)
  have u': "parse_unsigned (c # cs) = Some \<bar>r\<bar>" using u unfolding c .
  show ?thesis
  proof (cases "r < 0")
    case True
    then show ?thesis using p u' nI by (simp add: parse_dec_def)
  next
    case False
    then show ?thesis using p u' nI nN nm by (simp add: parse_dec_def)
  qed
qed

lemma parse_print_dec:
  assumes "dec_repr d"
  shows "parse_dec (print_dec d) = Some d"
proof (cases d)
  case (Fin r)
  with assms have "dec_repr (Fin r)" by (simp only:)
  then have "parse_dec (print_rat r) = Some (Fin r)" by (rule parse_print_rat)
  with Fin show ?thesis by simp
qed (simp_all add: parse_dec_def)

lemma print_dec_nonempty: "print_dec d \<noteq> []"
proof (cases d)
  case (Fin r)
  have "length (map digit_char (pad_digits (Suc (dec_scale r)) (scaled r))) \<ge> Suc (dec_scale r)"
    using length_pad_digits by simp
  then have "print_rat r \<noteq> []" by (auto simp: print_rat_def Let_def)
  with Fin show ?thesis by simp
qed simp_all

section \<open>Rounding to twenty significant digits\<close>

definition round20 :: "rat \<Rightarrow> rat" where
  "round20 = round_format half_up 10 (\<lambda>e. e - 19)"

interpretation hu: int_rounding half_up 10 "\<lambda>e. e - 19"
  by unfold_locales (simp_all add: half_up_mono half_up_int)

lemma round20_mono: "x \<le> y \<Longrightarrow> round20 x \<le> round20 y"
  unfolding round20_def by (rule hu.format_mono)

lemma round20_eq_0: "round20 x = 0 \<longleftrightarrow> x = 0"
  using hu.format_pos [of x] hu.format_pos [of "- x"] hu.format_neg [of x] hu.format_zero
  unfolding round20_def by (cases x "0 :: rat" rule: linorder_cases) auto

section \<open>The instances\<close>

fun dec_plus :: "(rat \<Rightarrow> rat) \<Rightarrow> dec \<Rightarrow> dec \<Rightarrow> dec" where
  "dec_plus rnd (Fin a) (Fin b) = Fin (rnd (a + b))"
| "dec_plus rnd NotANumber b = NotANumber"
| "dec_plus rnd a NotANumber = NotANumber"
| "dec_plus rnd PosInf NegInf = NotANumber"
| "dec_plus rnd NegInf PosInf = NotANumber"
| "dec_plus rnd PosInf b = PosInf"
| "dec_plus rnd NegInf b = NegInf"
| "dec_plus rnd a b = b"

fun dec_times :: "(rat \<Rightarrow> rat) \<Rightarrow> dec \<Rightarrow> dec \<Rightarrow> dec" where
  "dec_times rnd (Fin a) (Fin b) = Fin (rnd (a * b))"
| "dec_times rnd NotANumber b = NotANumber"
| "dec_times rnd a NotANumber = NotANumber"
| "dec_times rnd a b = (if d_isZero a \<or> d_isZero b then NotANumber
     else if d_lt a (Fin 0) = d_lt b (Fin 0) then PosInf else NegInf)"

fun dec_div :: "(rat \<Rightarrow> rat) \<Rightarrow> dec \<Rightarrow> dec \<Rightarrow> dec" where
  "dec_div rnd (Fin a) (Fin b) = (if b \<noteq> 0 then Fin (rnd (a / b))
     else if a = 0 then NotANumber else if 0 < a then PosInf else NegInf)"
| "dec_div rnd NotANumber b = NotANumber"
| "dec_div rnd a NotANumber = NotANumber"
| "dec_div rnd (Fin a) b = Fin 0"
| "dec_div rnd a (Fin b) = (if d_lt a (Fin 0) = (b < 0) then PosInf else NegInf)"
| "dec_div rnd a b = NotANumber"

definition decimal_with :: "(rat \<Rightarrow> rat) \<Rightarrow> decimal_js" where
  "decimal_with rnd =
     \<lparr>dj_plus = dec_plus rnd, dj_minus = (\<lambda>a b. dec_plus rnd a (d_neg b)),
      dj_times = dec_times rnd, dj_div = dec_div rnd,
      dj_parse = parse_dec, dj_to_string = print_dec, dj_to_fixed = print_dec,
      dj_to_fixed_dp = print_fixed, dj_num_str = print_rat\<rparr>"

definition exact_decimal :: decimal_js where
  "exact_decimal = decimal_with (\<lambda>x. x)"

definition decimal20 :: decimal_js where
  "decimal20 = decimal_with round20"

lemma dec_NaN [simp]:
  "dec_plus rnd a NotANumber = NotANumber" "dec_times rnd a NotANumber = NotANumber"
  "dec_div rnd a NotANumber = NotANumber"
  by (cases a; simp)+

lemma decimal_with_sel:
  "dj_plus (decimal_with rnd) = dec_plus rnd"
  "dj_minus (decimal_with rnd) a b = dec_plus rnd a (d_neg b)"
  "dj_times (decimal_with rnd) = dec_times rnd"
  "dj_div (decimal_with rnd) = dec_div rnd"
  "dj_parse (decimal_with rnd) = parse_dec"
  "dj_to_string (decimal_with rnd) = print_dec"
  "dj_to_fixed (decimal_with rnd) = print_dec"
  by (simp_all add: decimal_with_def)

lemma decimal_with_laws:
  assumes mono: "\<And>x y. x \<le> y \<Longrightarrow> rnd x \<le> rnd y" and zero: "\<And>x. rnd x = 0 \<longleftrightarrow> x = 0"
  shows "decimal_laws (decimal_with rnd) rnd"
proof (rule decimal_laws.intro)
  fix d assume "dec_repr d"
  then show "dj_parse (decimal_with rnd) (dj_to_string (decimal_with rnd) d) = Some d"
    "dj_parse (decimal_with rnd) (dj_to_fixed (decimal_with rnd) d) = Some d"
    by (simp_all only: decimal_with_sel parse_print_dec)
next
  fix d show "dj_to_string (decimal_with rnd) d \<noteq> []" "dj_to_fixed (decimal_with rnd) d \<noteq> []"
    by (simp_all only: decimal_with_sel print_dec_nonempty not_False_eq_True)
next
  fix x y :: rat assume "x \<le> y"
  then show "rnd x \<le> rnd y" by (rule mono)
next
  fix x show "rnd x = 0 \<longleftrightarrow> x = 0" by (rule zero)
next
  fix a b :: rat
  show "dj_plus (decimal_with rnd) (Fin a) (Fin b) = Fin (rnd (a + b))"
    "dj_minus (decimal_with rnd) (Fin a) (Fin b) = Fin (rnd (a - b))"
    "dj_times (decimal_with rnd) (Fin a) (Fin b) = Fin (rnd (a * b))"
    by (simp_all add: decimal_with_sel)
  assume "b \<noteq> 0"
  then show "dj_div (decimal_with rnd) (Fin a) (Fin b) = Fin (rnd (a / b))"
    by (simp add: decimal_with_sel)
next
  fix u
  show "dj_plus (decimal_with rnd) NotANumber u = NotANumber"
    "dj_minus (decimal_with rnd) NotANumber u = NotANumber"
    "dj_times (decimal_with rnd) NotANumber u = NotANumber"
    "dj_div (decimal_with rnd) NotANumber u = NotANumber"
    by (simp_all add: decimal_with_sel)
  show "dj_plus (decimal_with rnd) u NotANumber = NotANumber"
    "dj_minus (decimal_with rnd) u NotANumber = NotANumber"
    "dj_times (decimal_with rnd) u NotANumber = NotANumber"
    "dj_div (decimal_with rnd) u NotANumber = NotANumber"
    by (simp_all add: decimal_with_sel)
qed

interpretation ex: decimal_exact exact_decimal "\<lambda>x. x"
proof -
  have "decimal_laws exact_decimal (\<lambda>x. x)"
    unfolding exact_decimal_def by (rule decimal_with_laws) auto
  then show "decimal_exact exact_decimal (\<lambda>x. x)"
    by (simp add: decimal_exact_def decimal_exact_axioms_def)
qed

interpretation d20: decimal_laws decimal20 round20
  unfolding decimal20_def by (rule decimal_with_laws) (erule round20_mono, rule round20_eq_0)

lemma exact_decimal_sel [simp]:
  "dj_plus exact_decimal = dec_plus (\<lambda>x. x)"
  "dj_minus exact_decimal a b = dec_plus (\<lambda>x. x) a (d_neg b)"
  "dj_times exact_decimal = dec_times (\<lambda>x. x)"
  "dj_div exact_decimal = dec_div (\<lambda>x. x)"
  "dj_parse exact_decimal = parse_dec"
  "dj_to_string exact_decimal = print_dec"
  "dj_to_fixed exact_decimal = print_dec"
  "dj_to_fixed_dp exact_decimal = print_fixed"
  "dj_num_str exact_decimal = print_rat"
  by (simp_all add: exact_decimal_def decimal_with_def)

section \<open>Evaluation\<close>

text \<open>Rewriting that lets the simplifier print and parse closed decimals.\<close>

lemma nat_digits_eval [simp]:
  "nat_digits 0 = [0]" "nat_digits (Suc 0) = [1]" "nat_digits 1 = [1]"
  "nat_digits (numeral w) = (if numeral w < (10 :: nat) then [numeral w]
     else nat_digits (numeral w div 10) @ [numeral w mod 10])"
  by (subst nat_digits.simps; simp)+

lemma dec_scale_denom_1: "snd (quotient_of r) = 1 \<Longrightarrow> dec_scale r = 0"
  by (simp add: dec_scale_def upt_conv_Cons)

lemma dec_scale_eval [simp]:
  "dec_scale 0 = 0" "dec_scale 1 = 0" "dec_scale (numeral w) = 0" "dec_scale (- 1) = 0"
  "dec_scale (- numeral w) = 0"
  by (simp_all add: dec_scale_denom_1)

lemma scaled_eval [simp]:
  "scaled 0 = 0" "scaled 1 = 1" "scaled (numeral w) = numeral w" "scaled (- 1) = 1"
  "scaled (- numeral w) = numeral w"
  by (simp_all add: scaled_def)

lemma dec_repr_eval [simp]:
  "dec_repr (Fin 0)" "dec_repr (Fin 1)" "dec_repr (Fin (numeral w))" "dec_repr (Fin (- 1))"
  "dec_repr (Fin (- numeral w))"
  by (auto simp: dec_repr.simps intro!: exI [of _ 0])

lemma digit_char_eval [simp]:
  "digit_char 0 = CHR ''0''" "digit_char 1 = CHR ''1''" "digit_char (Suc 0) = CHR ''1''"
  "digit_char 2 = CHR ''2''" "digit_char 3 = CHR ''3''" "digit_char 4 = CHR ''4''"
  "digit_char 5 = CHR ''5''" "digit_char 6 = CHR ''6''" "digit_char 7 = CHR ''7''"
  "digit_char 8 = CHR ''8''" "digit_char 9 = CHR ''9''"
  by code_simp+

lemmas decimal_eval = print_rat_def pad_digits_def Let_def
  parse_dec_def parse_unsigned_def char_digit_def

text \<open>Code equations that print and parse over binary integers instead of unary naturals.\<close>

function int_digits :: "int \<Rightarrow> nat list" where
  "int_digits n = (if n < 10 then [nat n] else int_digits (n div 10) @ [nat (n mod 10)])"
  by pat_completeness auto
termination
  by (relation "measure nat") auto

declare int_digits.simps [simp del]

lemma int_digits_nat: "0 \<le> n \<Longrightarrow> int_digits n = nat_digits (nat n)"
proof (induction n rule: int_digits.induct)
  case (1 n)
  show ?case
  proof (cases "n < 10")
    case True
    then show ?thesis using "1.prems" by (simp add: int_digits.simps [of n] nat_digits.simps [of "nat n"])
  next
    case False
    then have "int_digits (n div 10) = nat_digits (nat n div 10)"
      using 1 by (simp add: nat_div_distrib)
    moreover have "nat (n mod 10) = nat n mod 10" using "1.prems" by (simp add: nat_mod_distrib)
    moreover have "\<not> nat n < 10" using False by simp
    ultimately show ?thesis using False
      by (simp add: int_digits.simps [of n] nat_digits.simps [of "nat n"])
  qed
qed

definition pad_int :: "nat \<Rightarrow> int \<Rightarrow> nat list" where
  "pad_int k n = (let ds = int_digits n in replicate (k - length ds) 0 @ ds)"

lemma pad_digits_int: "0 \<le> n \<Longrightarrow> pad_digits k (nat n) = pad_int k n"
  by (simp add: pad_digits_def pad_int_def int_digits_nat)

lemma print_rat_code [code]:
  "print_rat r =
     (let k = dec_scale r; ds = map digit_char (pad_int (Suc k) \<lfloor>\<bar>r\<bar> * 10 ^ k\<rfloor>); m = length ds - k
      in (if r < 0 then ''-'' else []) @ take m ds @ (if k = 0 then [] else ''.'' @ drop m ds))"
  by (simp add: print_rat_def scaled_def pad_digits_int)

lemma print_fixed_code [code]:
  "print_fixed dp d = (case d of
     Fin r \<Rightarrow>
       (let ds = map digit_char (pad_int (Suc dp) \<lfloor>\<bar>r\<bar> * 10 ^ dp + 1 / 2\<rfloor>); m = length ds - dp
        in (if r < 0 then ''-'' else []) @ take m ds @ (if dp = 0 then [] else ''.'' @ drop m ds))
   | _ \<Rightarrow> print_dec d)"
  by (cases d) (simp_all add: print_fixed_def pad_digits_int)

fun parse_int :: "int \<Rightarrow> nat option \<Rightarrow> string \<Rightarrow> (int \<times> nat) option" where
  "parse_int acc plc [] = Some (acc, case plc of None \<Rightarrow> 0 | Some k \<Rightarrow> k)"
| "parse_int acc plc (c # cs) =
     (if c = CHR ''.'' then (case plc of None \<Rightarrow> parse_int acc (Some 0) cs | Some _ \<Rightarrow> None)
      else case char_digit c of
        None \<Rightarrow> None
      | Some d \<Rightarrow> parse_int (10 * acc + int d) (map_option Suc plc) cs)"

lemma parse_int_digits:
  "parse_int (int acc) plc s = map_option (\<lambda>(n, k). (int n, k)) (parse_digits acc plc s)"
proof (induction acc plc s rule: parse_digits.induct)
  case (1 acc plc)
  then show ?case by simp
next
  case (2 acc plc c cs)
  have "parse_int (10 * int acc + int d) (map_option Suc plc) cs
      = map_option (\<lambda>(n, k). (int n, k)) (parse_digits (10 * acc + d) (map_option Suc plc) cs)"
    if "c \<noteq> CHR ''.''" "char_digit c = Some d" for d
    using "2.IH"(2) [OF that(1) that(2)] by simp
  then show ?case using "2.IH"(1) by (auto split: option.splits)
qed

lemma parse_unsigned_code [code]:
  "parse_unsigned s = (if s = [] then None else
     map_option (\<lambda>(n, k). of_int n / 10 ^ k) (parse_int 0 None s))"
  using parse_int_digits [of 0 None s]
  by (auto simp: parse_unsigned_def option.map_comp comp_def intro!: option.map_cong0)

end
