(* ===== verification/Git_Log.thy ===== *)
theory Git_Log
  imports Trading_Git Decimal_Instance
begin

text \<open>
  The read side of \<open>git/TradingGit.ts\<close>: the log with its per-operation summaries, \<open>show\<close> and
  \<open>status\<close>, the known and the pending order ids, and the restoration of a persisted ledger
  (\<open>restore\<close> and the \<open>rehydrate\<close> functions).  \<open>json_commit\<close> is what a commit becomes when
  \<open>git-persistence.ts\<close> writes it with \<open>JSON.stringify\<close> and reads it back with \<open>JSON.parse\<close>:
  decimals are strings, absent fields stay absent.
\<close>

section \<open>Summaries\<close>

text \<open>\<open>v && !v.equals(UNSET_DECIMAL)\<close>, with the value: \<open>None\<close> when absent or the sentinel.\<close>

definition live_dec :: "jdec option \<Rightarrow> js_error + dec option" where
  "live_dec v =
     (if \<not> jd_truthy v then Inr None
      else bindE (as_dec (the v)) (\<lambda>d. Inr (if d_equals d UNSET_DECIMAL then None else Some d)))"

definition formatOptionalDecimal :: "decimal_js \<Rightarrow> string \<Rightarrow> jdec option \<Rightarrow> js_error + string option" where
  "formatOptionalDecimal D pre v =
     bindE (live_dec v) (\<lambda>x. Inr (map_option (\<lambda>d. pre @ dj_to_fixed D d) x))"

definition status_or :: "op_result option \<Rightarrow> string \<Rightarrow> string" where
  "status_or res dflt = (case res of None \<Rightarrow> dflt | Some r \<Rightarrow> status_str (r_status r))"

definition has_status :: "op_result option \<Rightarrow> op_status \<Rightarrow> bool" where
  "has_status res s = (case res of None \<Rightarrow> False | Some r \<Rightarrow> r_status r = s)"

text \<open>\<open>result.execution?.price\<close> when it is truthy, printed.\<close>

definition exec_price_str :: "decimal_js \<Rightarrow> op_result option \<Rightarrow> string option" where
  "exec_price_str D res = (case res of None \<Rightarrow> None | Some r \<Rightarrow>
     (case r_executionPrice r of None \<Rightarrow> None | Some p \<Rightarrow> if p = 0 then None else Some (dj_num_str D p)))"

definition order_side :: "order \<Rightarrow> string" where
  "order_side od = opt_or (o_action od) ''unknown''"

definition present :: "string option list \<Rightarrow> string list" where
  "present xs = map the (filter truthy xs)"

definition format_place_order :: "decimal_js \<Rightarrow> order \<Rightarrow> op_result option \<Rightarrow> js_error + string" where
  "format_place_order D od res =
     bindE (live_dec (o_totalQuantity od)) (\<lambda>qty.
     bindE (live_dec (o_cashQty od)) (\<lambda>cash.
     bindE (formatOptionalDecimal D ''@'' (o_lmtPrice od)) (\<lambda>lmt.
     bindE (formatOptionalDecimal D ''stop @'' (o_auxPrice od)) (\<lambda>aux.
     let sizeStr = (case cash of
           Some c \<Rightarrow> if d_gt c (Fin 0) then ''$'' @ dj_to_fixed D c
                      else (case qty of Some q \<Rightarrow> dj_to_fixed D q | None \<Rightarrow> ''?'')
         | None \<Rightarrow> (case qty of Some q \<Rightarrow> dj_to_fixed D q | None \<Rightarrow> ''?''));
         terms = join '' '' (present [o_orderType od, lmt, aux, o_tif od]);
         summary = order_side od @ '' '' @ sizeStr @ (if terms = [] then [] else '' '' @ terms)
     in Inr (if has_status res UserRejected then summary @ '' (user-rejected)''
             else if has_status res Filled then summary @
               (case exec_price_str D res of Some p \<Rightarrow> '' '' @ arrow @ '' filled @'' @ p | None \<Rightarrow> '' (filled)'')
             else summary @ '' ('' @ status_or res ''unknown'' @ '')'')))))"

fun formatOperationChange :: "decimal_js \<Rightarrow> operation \<Rightarrow> op_result option \<Rightarrow> js_error + string" where
  "formatOperationChange D (PlaceOrder c od t) res = format_place_order D od res"
| "formatOperationChange D (ClosePosition c qty) res = Inr
     (if has_status res Filled then
        ''closed'' @ (if jd_truthy qty then '' (partial: '' @ jd_string D (the qty) @ '')'' else []) @
        (case exec_price_str D res of Some p \<Rightarrow> '' @'' @ p | None \<Rightarrow> [])
      else ''close ('' @ status_or res ''unknown'' @ '')'')"
| "formatOperationChange D (ModifyOrder i od) res = Inr (''modified '' @ i)"
| "formatOperationChange D (CancelOrder i oc) res = Inr (''cancelled order '' @ i)"
| "formatOperationChange D SyncOrders res = Inr
     (''synced '' @ arrow @ '' '' @ status_or res ''unknown'' @
      (if truthy (Option.bind res r_filledPrice) then '' @'' @ the (Option.bind res r_filledPrice)
       else (case exec_price_str D res of Some p \<Rightarrow> '' @'' @ p | None \<Rightarrow> [])) @
      (if truthy (Option.bind res r_filledQty) then '' ('' @ the (Option.bind res r_filledQty) @ '' filled)'' else []))"
| "formatOperationChange D (ObserveExternalOrder c od) res =
     bindE (live_dec (o_totalQuantity od)) (\<lambda>qty.
     let qtyStr = (case qty of Some q \<Rightarrow> dj_to_fixed D q | None \<Rightarrow> ''?'');
         hd = ''external '' @ order_side od @ '' '' @ qtyStr
     in Inr (if has_status res Filled then
               hd @ (if truthy (Option.bind res r_filledPrice) then '' @'' @ the (Option.bind res r_filledPrice) else [])
             else hd @ '' ('' @ status_or res ''observed'' @ '')''))"
| "formatOperationChange D (ReconcileBalance a qd mp) res =
     bindE (new_dec D qd) (\<lambda>delta. Inr
       ((if d_gte delta (Fin 0) then ''observed'' else ''released'') @ '' '' @
        dj_to_fixed D (d_abs delta) @ '' @'' @ mp))"

record order_terms =
  ot_side :: "string option"
  ot_orderType :: "string option"
  ot_totalQuantity :: "string option"
  ot_cashQuantity :: "string option"
  ot_limitPrice :: "string option"
  ot_auxPrice :: "string option"
  ot_timeInForce :: "string option"

record operation_summary =
  sm_symbol :: string
  sm_action :: action
  sm_change :: string
  sm_status :: op_status
  sm_order :: "order_terms option"

definition summary_order :: "decimal_js \<Rightarrow> operation \<Rightarrow> js_error + order_terms option" where
  "summary_order D op = (case op of
     PlaceOrder c od t \<Rightarrow>
       bindE (formatOptionalDecimal D [] (o_totalQuantity od)) (\<lambda>tq.
       bindE (formatOptionalDecimal D [] (o_cashQty od)) (\<lambda>cq.
       bindE (formatOptionalDecimal D [] (o_lmtPrice od)) (\<lambda>lp.
       bindE (formatOptionalDecimal D [] (o_auxPrice od)) (\<lambda>ap.
       Inr (Some \<lparr>ot_side = o_action od, ot_orderType = o_orderType od, ot_totalQuantity = tq,
         ot_cashQuantity = cq, ot_limitPrice = lp, ot_auxPrice = ap, ot_timeInForce = o_tif od\<rparr>)))))
   | _ \<Rightarrow> Inr None)"

text \<open>\<open>commit.operations[j] ?? commit.operations[0]\<close>.\<close>

definition row_op :: "'q git_commit \<Rightarrow> nat \<Rightarrow> operation option" where
  "row_op c j = (case elem_at (gc_operations c) j of Some x \<Rightarrow> Some x | None \<Rightarrow> elem_at (gc_operations c) 0)"

text \<open>The row of the longer of the two lists at position \<open>i\<close>; \<open>Inr None\<close> is the \<open>continue\<close>.\<close>

definition summary_row ::
  "decimal_js \<Rightarrow> 'q git_commit \<Rightarrow> string option \<Rightarrow> nat \<Rightarrow> js_error + operation_summary option"
where
  "summary_row D c filterSymbol i =
     (let op = row_op c i;
          res = elem_at (gc_results c) i;
          symb = opt_or (Option.bind res r_symbol) (getOperationSymbol op)
      in if truthy filterSymbol \<and> symb \<noteq> the filterSymbol then Inr None
         else (case op of None \<Rightarrow> Inl TypeError | Some o1 \<Rightarrow>
           bindE (formatOperationChange D o1 res) (\<lambda>change.
           bindE (summary_order D o1) (\<lambda>terms.
           Inr (Some \<lparr>sm_symbol = symb, sm_action = op_action o1, sm_change = change,
             sm_status = (case res of Some r \<Rightarrow> r_status r | None \<Rightarrow> Rejected), sm_order = terms\<rparr>)))))"

definition buildOperationSummaries ::
  "decimal_js \<Rightarrow> 'q git_commit \<Rightarrow> string option \<Rightarrow> js_error + operation_summary list"
where
  "buildOperationSummaries D c filterSymbol =
     bindE (mapE (summary_row D c filterSymbol) [0..<max (length (gc_operations c)) (length (gc_results c))])
       (\<lambda>rows. Inr (map the (filter (\<lambda>x. x \<noteq> None) rows)))"

record commit_log_entry =
  le_hash :: string
  le_parentHash :: "string option"
  le_message :: string
  le_timestamp :: string
  le_round :: "int option"
  le_operations :: "operation_summary list"

definition log_entry :: "decimal_js \<Rightarrow> string option \<Rightarrow> 'q git_commit \<Rightarrow> js_error + commit_log_entry" where
  "log_entry D symb c = bindE (buildOperationSummaries D c symb) (\<lambda>rows.
     Inr \<lparr>le_hash = gc_hash c, le_parentHash = gc_parentHash c, le_message = gc_message c,
          le_timestamp = gc_timestamp c, le_round = gc_round c, le_operations = rows\<rparr>)"

definition log_commits :: "nat \<Rightarrow> string option \<Rightarrow> trading_git \<Rightarrow> dec git_commit list" where
  "log_commits limit symb g =
     (let cs = rev (g_commits g);
          cs1 = (if truthy symb then filter (\<lambda>c. \<exists>op \<in> set (gc_operations c).
                   getOperationSymbol (Some op) = the symb) cs else cs)
      in take limit cs1)"

definition tg_log :: "decimal_js \<Rightarrow> nat option \<Rightarrow> string option \<Rightarrow> trading_git \<Rightarrow> js_error + commit_log_entry list" where
  "tg_log D limit symb g =
     mapE (log_entry D symb) (log_commits (case limit of None \<Rightarrow> 10 | Some n \<Rightarrow> n) symb g)"

section \<open>Show and status\<close>

definition tg_show :: "string \<Rightarrow> trading_git \<Rightarrow> dec git_commit option" where
  "tg_show h g = map_option projectCommit (find (\<lambda>c. gc_hash c = h) (g_commits g))"

record git_status =
  st_staged :: "operation list"
  st_pendingMessage :: "string option"
  st_pendingHash :: "string option"
  st_head :: "string option"
  st_commitCount :: nat

definition tg_status :: "trading_git \<Rightarrow> git_status" where
  "tg_status g = \<lparr>st_staged = map projectOperation (g_stagingArea g),
     st_pendingMessage = g_pendingMessage g, st_pendingHash = g_pendingHash g, st_head = g_head g,
     st_commitCount = length (g_commits g)\<rparr>"

section \<open>Order ids\<close>

text \<open>The ids a result mentions, each with the status it gives the order; legs are born submitted.\<close>

definition leg_ids :: "op_result \<Rightarrow> string list" where
  "leg_ids r = (case r_legs r of None \<Rightarrow> [] | Some ls \<Rightarrow> map l_orderId ls)"

definition own_id :: "op_result \<Rightarrow> string list" where
  "own_id r = (if truthy (r_orderId r) then [the (r_orderId r)] else [])"

definition mentions :: "op_result \<Rightarrow> (string \<times> op_status) list" where
  "mentions r = map (\<lambda>i. (i, r_status r)) (own_id r) @ map (\<lambda>i. (i, Submitted)) (leg_ids r)"

definition result_ids :: "op_result \<Rightarrow> string list" where
  "result_ids r = own_id r @ leg_ids r"

definition commit_ids :: "'q git_commit \<Rightarrow> string list" where
  "commit_ids c = concat (map result_ids (gc_results c))"

definition getKnownOrderIds :: "trading_git \<Rightarrow> string list" where
  "getKnownOrderIds g = uniq (concat (map commit_ids (g_commits g)))"

text \<open>The newest-first scan of \<open>getPendingOrderIds\<close>: the first status seen of an id stays.\<close>

definition set_first :: "'k \<times> 'v \<Rightarrow> ('k, 'v) jsmap \<Rightarrow> ('k, 'v) jsmap" where
  "set_first kv m = (if jm_get m (fst kv) = None then jm_set (fst kv) (snd kv) m else m)"

definition commit_mentions :: "'q git_commit \<Rightarrow> (string \<times> op_status) list" where
  "commit_mentions c = concat (map mentions (gc_results c))"

definition scan_status :: "'q git_commit list \<Rightarrow> (string, op_status) jsmap" where
  "scan_status cs = fold set_first (concat (map commit_mentions (rev cs))) []"

record pending_order =
  po_orderId :: string
  po_symbol :: string
  po_localSymbol :: "string option"
  po_aliceId :: "string option"

text \<open>\<open>hasContract ? op.contract : undefined\<close>.\<close>

definition op_contract :: "operation option \<Rightarrow> contract option" where
  "op_contract op = (case op of
      Some (PlaceOrder c _ _) \<Rightarrow> Some c
    | Some (ClosePosition c _) \<Rightarrow> Some c
    | Some (ObserveExternalOrder c _) \<Rightarrow> Some c
    | _ \<Rightarrow> None)"

definition pending_of :: "operation option \<Rightarrow> string \<Rightarrow> pending_order" where
  "pending_of op i =
     \<lparr>po_orderId = i, po_symbol = getOperationSymbol op,
      po_localSymbol = (case op_contract op of None \<Rightarrow> None | Some c \<Rightarrow> or_undef (c_localSymbol c)),
      po_aliceId = (case op_contract op of None \<Rightarrow> None | Some c \<Rightarrow> nonempty (c_aliceId c))\<rparr>"

text \<open>The candidates of the second scan, oldest first, each with the operation it came from.\<close>

definition commit_candidates :: "'q git_commit \<Rightarrow> pending_order list" where
  "commit_candidates c =
     concat (map (\<lambda>(j, r). map (pending_of (row_op c j)) (result_ids r)) (List.enumerate 0 (gc_results c)))"

definition collect_pending ::
  "(string, op_status) jsmap \<Rightarrow> pending_order \<Rightarrow> pending_order list \<Rightarrow> pending_order list"
where
  "collect_pending st p acc =
     (if po_orderId p \<in> set (map po_orderId acc) \<or> jm_get st (po_orderId p) \<noteq> Some Submitted then acc
      else acc @ [p])"

definition getPendingOrderIds :: "trading_git \<Rightarrow> pending_order list" where
  "getPendingOrderIds g =
     fold (collect_pending (scan_status (g_commits g))) (concat (map commit_candidates (g_commits g))) []"

section \<open>JSON and restore\<close>

definition json_order :: "decimal_js \<Rightarrow> order \<Rightarrow> order" where
  "json_order D od = map_decimals (map_option (jd_json D)) od"

fun json_operation :: "decimal_js \<Rightarrow> operation \<Rightarrow> operation" where
  "json_operation D (PlaceOrder c od t) = PlaceOrder c (json_order D od) t"
| "json_operation D (ModifyOrder i od) = ModifyOrder i (json_order D od)"
| "json_operation D (ClosePosition c q) = ClosePosition c (map_option (jd_json D) q)"
| "json_operation D (ObserveExternalOrder c od) = ObserveExternalOrder c (json_order D od)"
| "json_operation D op = op"

definition json_state :: "decimal_js \<Rightarrow> dec git_state \<Rightarrow> string git_state" where
  "json_state D st =
     \<lparr>gs_netLiquidation = gs_netLiquidation st, gs_totalCashValue = gs_totalCashValue st,
      gs_unrealizedPnL = gs_unrealizedPnL st, gs_realizedPnL = gs_realizedPnL st,
      gs_positions = map (map_quantity (dj_to_string D)) (gs_positions st),
      gs_pendingOrders = map (\<lambda>x. x\<lparr>oo_order := json_order D (oo_order x)\<rparr>) (gs_pendingOrders st)\<rparr>"

definition with_state :: "'p git_state \<Rightarrow> operation list \<Rightarrow> 'q git_commit \<Rightarrow> 'p git_commit" where
  "with_state st ops c =
     \<lparr>gc_hash = gc_hash c, gc_parentHash = gc_parentHash c, gc_message = gc_message c,
      gc_operations = ops, gc_results = gc_results c, gc_stateAfter = st,
      gc_timestamp = gc_timestamp c, gc_round = gc_round c\<rparr>"

definition json_commit :: "decimal_js \<Rightarrow> dec git_commit \<Rightarrow> string git_commit" where
  "json_commit D c = with_state (json_state D (gc_stateAfter c)) (map (json_operation D) (gc_operations c)) c"

definition json_export :: "decimal_js \<Rightarrow> dec git_export \<Rightarrow> string git_export" where
  "json_export D x = \<lparr>ge_commits = map (json_commit D) (ge_commits x), ge_head = ge_head x\<rparr>"

text \<open>\<open>if (order.f != null) rehydrated.f = new Decimal(String(order.f))\<close>.\<close>

definition rehydrate_field :: "decimal_js \<Rightarrow> jdec option \<Rightarrow> jdec option \<Rightarrow> js_error + jdec option" where
  "rehydrate_field D dflt v = (case v of None \<Rightarrow> Inr dflt | Some x \<Rightarrow> bindE (jd_wrap D x) (\<lambda>y. Inr (Some y)))"

definition rehydrateOrder :: "decimal_js \<Rightarrow> order \<Rightarrow> js_error + order" where
  "rehydrateOrder D od =
     (let r = assign_order new_order od in
      bindE (rehydrate_field D (o_totalQuantity r) (o_totalQuantity od)) (\<lambda>tq.
      bindE (rehydrate_field D (o_lmtPrice r) (o_lmtPrice od)) (\<lambda>lp.
      bindE (rehydrate_field D (o_auxPrice r) (o_auxPrice od)) (\<lambda>ap.
      bindE (rehydrate_field D (o_trailStopPrice r) (o_trailStopPrice od)) (\<lambda>ts.
      bindE (rehydrate_field D (o_trailingPercent r) (o_trailingPercent od)) (\<lambda>tp.
      bindE (rehydrate_field D (o_cashQty r) (o_cashQty od)) (\<lambda>cq.
      Inr (r\<lparr>o_totalQuantity := tq, o_lmtPrice := lp, o_auxPrice := ap, o_trailStopPrice := ts,
             o_trailingPercent := tp, o_cashQty := cq\<rparr>))))))))"

fun rehydrateOperation :: "decimal_js \<Rightarrow> operation \<Rightarrow> js_error + operation" where
  "rehydrateOperation D (PlaceOrder c od t) = bindE (rehydrateOrder D od) (\<lambda>od'. Inr (PlaceOrder c od' t))"
| "rehydrateOperation D (ObserveExternalOrder c od) =
     bindE (rehydrateOrder D od) (\<lambda>od'. Inr (ObserveExternalOrder c od'))"
| "rehydrateOperation D (ClosePosition c q) = bindE (rehydrate_field D None q) (\<lambda>q'. Inr (ClosePosition c q'))"
| "rehydrateOperation D op = Inr op"

definition rehydrate_position :: "decimal_js \<Rightarrow> string position \<Rightarrow> js_error + dec position" where
  "rehydrate_position D p = bindE (new_dec D (p_quantity p)) (\<lambda>q.
     Inr ((map_quantity (\<lambda>_. q) p)
       \<lparr>p_multiplier := Some (case p_multiplier p of None \<Rightarrow> ''1'' | Some m \<Rightarrow> m)\<rparr>))"

definition rehydrateGitState :: "decimal_js \<Rightarrow> string git_state \<Rightarrow> js_error + dec git_state" where
  "rehydrateGitState D st = bindE (mapE (rehydrate_position D) (gs_positions st)) (\<lambda>ps.
     Inr \<lparr>gs_netLiquidation = gs_netLiquidation st, gs_totalCashValue = gs_totalCashValue st,
          gs_unrealizedPnL = gs_unrealizedPnL st, gs_realizedPnL = gs_realizedPnL st,
          gs_positions = ps, gs_pendingOrders = gs_pendingOrders st\<rparr>)"

definition rehydrateCommit :: "decimal_js \<Rightarrow> string git_commit \<Rightarrow> js_error + dec git_commit" where
  "rehydrateCommit D c =
     bindE (mapE (rehydrateOperation D) (gc_operations c)) (\<lambda>ops.
     bindE (rehydrateGitState D (gc_stateAfter c)) (\<lambda>st. Inr (with_state st ops c)))"

definition restore :: "decimal_js \<Rightarrow> string git_export \<Rightarrow> js_error + trading_git" where
  "restore D x = bindE (mapE (rehydrateCommit D) (ge_commits x)) (\<lambda>cs.
     Inr (new_git\<lparr>g_commits := cs, g_head := ge_head x\<rparr>))"

section \<open>The pending scan\<close>

text \<open>The newest word of the log on an order id.\<close>

definition newest_status :: "'q git_commit list \<Rightarrow> string \<Rightarrow> op_status option" where
  "newest_status cs i = map_of (concat (map commit_mentions (rev cs))) i"

lemma set_first_get:
  "jm_get (set_first kv m) k = (case jm_get m k of Some v \<Rightarrow> Some v | None \<Rightarrow> if k = fst kv then Some (snd kv) else None)"
  by (cases "k = fst kv") (auto simp: set_first_def jm.lookup_set split: option.splits)

lemma fold_set_first_get:
  "jm_get (fold set_first xs m) k = (case jm_get m k of Some v \<Rightarrow> Some v | None \<Rightarrow> map_of xs k)"
proof (induction xs arbitrary: m)
  case Nil
  then show ?case by (simp split: option.splits)
next
  case (Cons kv xs)
  then show ?case by (cases kv) (auto simp: set_first_get split: option.splits)
qed

lemma scan_status_get: "jm_get (scan_status cs) i = newest_status cs i"
  by (simp add: scan_status_def newest_status_def fold_set_first_get)

lemma pending_of_id [simp]: "po_orderId (pending_of op i) = i"
  by (simp add: pending_of_def)

lemma mention_ids: "map fst (mentions r) = result_ids r"
  by (simp add: mentions_def result_ids_def comp_def)

lemma commit_mention_ids: "map fst (commit_mentions c) = commit_ids c"
  by (simp add: commit_mentions_def commit_ids_def map_concat comp_def mention_ids)

lemma candidate_ids_aux:
  "map po_orderId (concat (map (\<lambda>(j, r). map (pending_of (row_op c j)) (result_ids r)) (List.enumerate n rs)))
   = concat (map result_ids rs)"
  by (induction rs arbitrary: n) (simp_all add: comp_def)

lemma candidate_ids: "map po_orderId (commit_candidates c) = commit_ids c"
  by (simp add: commit_candidates_def commit_ids_def candidate_ids_aux)

lemma newest_status_ids: "newest_status cs i \<noteq> None \<longleftrightarrow> i \<in> set (concat (map commit_ids cs))"
proof -
  have "newest_status cs i \<noteq> None \<longleftrightarrow> i \<in> fst ` set (concat (map commit_mentions (rev cs)))"
    unfolding newest_status_def by (simp only: map_of_eq_None_iff) blast
  also have "fst ` set (concat (map commit_mentions (rev cs))) = set (concat (map commit_ids cs))"
    by (simp add: image_UN flip: commit_mention_ids)
  finally show ?thesis .
qed

lemma collect_pending_ids:
  "set (map po_orderId (fold (collect_pending st) ps acc)) =
     set (map po_orderId acc) \<union> {po_orderId p | p. p \<in> set ps \<and> jm_get st (po_orderId p) = Some Submitted}"
  by (induction ps arbitrary: acc) (auto simp: collect_pending_def)

lemma collect_pending_distinct:
  "distinct (map po_orderId acc) \<Longrightarrow> distinct (map po_orderId (fold (collect_pending st) ps acc))"
  by (induction ps arbitrary: acc) (auto simp: collect_pending_def)

definition pending_ids :: "trading_git \<Rightarrow> string set" where
  "pending_ids g = set (map po_orderId (getPendingOrderIds g))"

lemma pending_ids_newest: "pending_ids g = {i. newest_status (g_commits g) i = Some Submitted}"
proof -
  let ?ps = "concat (map commit_candidates (g_commits g))"
  have "map po_orderId ?ps = concat (map commit_ids (g_commits g))"
    by (simp add: map_concat comp_def candidate_ids)
  then have ids: "po_orderId ` set ?ps = set (concat (map commit_ids (g_commits g)))"
    by (metis set_map)
  have "pending_ids g = {po_orderId p | p. p \<in> set ?ps \<and> newest_status (g_commits g) (po_orderId p) = Some Submitted}"
    unfolding pending_ids_def getPendingOrderIds_def collect_pending_ids scan_status_get by simp
  also have "\<dots> = {i \<in> po_orderId ` set ?ps. newest_status (g_commits g) i = Some Submitted}"
    by blast
  also have "\<dots> = {i. newest_status (g_commits g) i = Some Submitted}"
    unfolding ids using newest_status_ids [of "g_commits g"] by (metis (mono_tags, lifting) option.distinct(1))
  finally show ?thesis .
qed

lemma newest_status_append:
  "newest_status (cs @ [c]) i = (case map_of (commit_mentions c) i of Some s \<Rightarrow> Some s | None \<Rightarrow> newest_status cs i)"
  by (auto simp: newest_status_def map_add_def split: option.splits)

lemma pending_distinct: "distinct (map po_orderId (getPendingOrderIds g))"
  unfolding getPendingOrderIds_def by (rule collect_pending_distinct) simp


lemma sync_commit_mentions:
  "(\<forall>u \<in> set us. u_orderId u \<noteq> []) \<Longrightarrow>
   commit_mentions (sync_commit H t us st g) = map (\<lambda>u. (u_orderId u, u_currentStatus u)) us"
  by (induction us) (auto simp: commit_mentions_def sync_commit_def sync_result_of_def mentions_def
      own_id_def leg_ids_def)

lemma sync_settles:
  assumes "tg_sync cfg us st g w = (r, g', w')"
    and "\<forall>u \<in> set us. u_orderId u \<noteq> [] \<and> u_currentStatus u \<noteq> Submitted"
  shows "pending_ids g' = pending_ids g - u_orderId ` set us"
proof (cases "us = []")
  case True
  then show ?thesis using assms(1) by (auto simp: tg_sync_def)
next
  case False
  let ?c = "sync_commit (commitHash cfg) (clock cfg w) us st g"
  have g': "g_commits g' = g_commits g @ [?c]"
    using assms(1) False persist_commit_state [of cfg ?c g w]
    by (auto simp: tg_sync_def Let_def split: prod.splits)
  let ?m = "map (\<lambda>u. (u_orderId u, u_currentStatus u)) us"
  have m: "commit_mentions ?c = ?m" using assms(2) by (simp add: sync_commit_mentions)
  have "newest_status (g_commits g') i = Some Submitted \<longleftrightarrow>
      newest_status (g_commits g) i = Some Submitted \<and> i \<notin> u_orderId ` set us" for i
  proof (cases "map_of ?m i")
    case None
    then have "i \<notin> u_orderId ` set us" by (force simp: map_of_eq_None_iff)
    then show ?thesis using None by (simp add: g' newest_status_append m)
  next
    case (Some s)
    then have "(i, s) \<in> set ?m" by (rule map_of_SomeD)
    then have "i \<in> u_orderId ` set us" "s \<noteq> Submitted" using assms(2) by auto
    then show ?thesis using Some by (simp add: g' newest_status_append m)
  qed
  then show ?thesis by (auto simp: pending_ids_newest)
qed

text \<open>A sync that reports terminal states removes exactly the reported orders from the pending
  set, even when the persistence callback throws.\<close>

theorem sync_settles_orders:
  assumes "tg_sync cfg us st g w = (r, g', w')"
    and "\<forall>u \<in> set us. u_orderId u \<noteq> [] \<and> u_currentStatus u \<noteq> Submitted"
  shows "pending_ids g' = pending_ids g - u_orderId ` set us"
  by (rule sync_settles [OF assms])

section \<open>Round trip through the file\<close>

text \<open>
  An order as the staging layer and the brokers build it: every field present, the prices and sizes
  \<open>Decimal\<close> instances that a \<open>Decimal\<close> can hold.  The filled quantity may be in either form.
\<close>

definition live_field :: "jdec option \<Rightarrow> bool" where
  "live_field v = (case v of Some (DVal d) \<Rightarrow> dec_repr d | _ \<Rightarrow> False)"

definition live_order :: "order \<Rightarrow> bool" where
  "live_order od \<longleftrightarrow> o_orderId od \<noteq> None \<and> o_action od \<noteq> None \<and> o_orderType od \<noteq> None \<and>
     o_tif od \<noteq> None \<and> o_ocaGroup od \<noteq> None \<and> o_parentId od \<noteq> None \<and> o_outsideRth od \<noteq> None \<and>
     o_goodTillDate od \<noteq> None \<and> o_filledQuantity od \<noteq> None \<and>
     live_field (o_totalQuantity od) \<and> live_field (o_lmtPrice od) \<and> live_field (o_auxPrice od) \<and>
     live_field (o_trailStopPrice od) \<and> live_field (o_trailingPercent od) \<and> live_field (o_cashQty od)"

fun live_operation :: "operation \<Rightarrow> bool" where
  "live_operation (PlaceOrder c od t) = live_order od"
| "live_operation (ObserveExternalOrder c od) = live_order od"
| "live_operation (ClosePosition c q) = (q = None \<or> live_field q)"
| "live_operation op = True"

definition live_position :: "dec position \<Rightarrow> bool" where
  "live_position p \<longleftrightarrow> dec_repr (p_quantity p) \<and> p_multiplier p \<noteq> None"

definition live_commit :: "dec git_commit \<Rightarrow> bool" where
  "live_commit c \<longleftrightarrow> list_all live_operation (gc_operations c) \<and>
     list_all live_position (gs_positions (gc_stateAfter c))"

text \<open>The restored form: a filled quantity other than the sentinel, the changes of a modify
  operation and the orders of the snapshot stay the strings of the file.\<close>

definition restored_order :: "decimal_js \<Rightarrow> order \<Rightarrow> order" where
  "restored_order D od = od\<lparr>o_filledQuantity :=
     over (Some (DVal UNSET_DECIMAL)) (map_option (jd_json D) (wire_field (o_filledQuantity od)))\<rparr>"

fun restored_operation :: "decimal_js \<Rightarrow> operation \<Rightarrow> operation" where
  "restored_operation D (PlaceOrder c od t) = PlaceOrder c (restored_order D od) t"
| "restored_operation D (ObserveExternalOrder c od) = ObserveExternalOrder c (restored_order D od)"
| "restored_operation D (ModifyOrder i od) = ModifyOrder i (json_order D (toWire od))"
| "restored_operation D op = op"

definition restored_state :: "decimal_js \<Rightarrow> dec git_state \<Rightarrow> dec git_state" where
  "restored_state D st = st\<lparr>gs_pendingOrders := gs_pendingOrders (json_state D st)\<rparr>"

definition restored_commit :: "decimal_js \<Rightarrow> dec git_commit \<Rightarrow> dec git_commit" where
  "restored_commit D c =
     with_state (restored_state D (gc_stateAfter c)) (map (restored_operation D) (gc_operations c)) c"

lemma repr_UNSET [simp]: "dec_repr UNSET_DECIMAL"
  by (simp add: UNSET_DECIMAL_def)

lemma d_equals_UNSET_iff: "d_equals d UNSET_DECIMAL \<longleftrightarrow> d = UNSET_DECIMAL"
  by (auto simp: d_equals_def UNSET_DECIMAL_def)

lemma wire_over: "x \<noteq> None \<Longrightarrow> over x (wire_field x) = x"
  by (auto simp: wire_field_def)

lemma rehydrate_live_field:
  assumes "decimal_laws D rnd" "live_field x"
  shows "rehydrate_field D (over (Some (DVal UNSET_DECIMAL)) (map_option (jd_json D) (wire_field x)))
    (map_option (jd_json D) (wire_field x)) = Inr x"
proof -
  obtain d where x: "x = Some (DVal d)" "dec_repr d"
    using assms(2) by (auto simp: live_field_def split: option.splits jdec.splits)
  then have "dj_parse D (dj_to_string D d) = Some d"
    using decimal_laws.parse_to_string [OF assms(1)] by simp
  then show ?thesis
    using x by (auto simp: rehydrate_field_def wire_field_def jd_wrap_def jd_json_def new_dec_def
        d_equals_UNSET_iff)
qed

lemma json_order_wire:
  "json_order D (toWire od) = map_decimals (\<lambda>x. map_option (jd_json D) (wire_field x)) od"
  by (simp add: json_order_def toWire_def map_decimals_comp comp_def)

lemma rehydrate_live_order:
  assumes "decimal_laws D rnd" "live_order od"
  shows "rehydrateOrder D (json_order D (toWire od)) = Inr (restored_order D od)"
  using assms(2) unfolding rehydrateOrder_def json_order_wire Let_def live_order_def
  by (auto simp: map_decimals_def assign_order_def new_order_def rehydrate_live_field [OF assms(1)]
      restored_order_def)

lemma rehydrate_live_operation:
  assumes "decimal_laws D rnd" "live_operation op"
  shows "rehydrateOperation D (json_operation D (projectOperation op)) = Inr (restored_operation D op)"
proof (cases op)
  case (ClosePosition c q)
  have "rehydrate_field D None (map_option (jd_json D) q) = Inr q"
  proof (cases q)
    case None
    then show ?thesis by (simp add: rehydrate_field_def)
  next
    case (Some x)
    then obtain d where "x = DVal d" "dec_repr d"
      using assms(2) ClosePosition by (auto simp: live_field_def split: jdec.splits)
    then show ?thesis using decimal_laws.parse_to_string [OF assms(1)] Some
      by (auto simp: rehydrate_field_def jd_wrap_def jd_json_def new_dec_def)
  qed
  then show ?thesis by (simp add: ClosePosition)
qed (use assms in \<open>simp_all add: rehydrate_live_order\<close>)

lemma rehydrate_live_position:
  assumes "decimal_laws D rnd" "live_position p"
  shows "rehydrate_position D (map_quantity (dj_to_string D) p) = Inr p"
proof -
  obtain m where m: "p_multiplier p = Some m" and q: "dec_repr (p_quantity p)"
    using assms(2) by (auto simp: live_position_def)
  have "new_dec D (dj_to_string D (p_quantity p)) = Inr (p_quantity p)"
    using decimal_laws.parse_to_string [OF assms(1) q] by simp
  then show ?thesis using m by (cases p) (simp add: rehydrate_position_def map_quantity_def new_dec_def)
qed

lemma rehydrate_live_state:
  assumes "decimal_laws D rnd" "list_all live_position (gs_positions st)"
  shows "rehydrateGitState D (json_state D st) = Inr (restored_state D st)"
proof -
  have "mapE (rehydrate_position D) (map (map_quantity (dj_to_string D)) ps) = Inr ps"
    if "list_all live_position ps" for ps
    using that by (induction ps) (simp_all add: rehydrate_live_position [OF assms(1)])
  then show ?thesis using assms(2)
    by (simp add: rehydrateGitState_def json_state_def restored_state_def)
qed

lemma gc_stateAfter_projectCommit [simp]:
  "gc_stateAfter (projectCommit c) = gc_stateAfter c"
  "gc_operations (projectCommit c) = map projectOperation (gc_operations c)"
  by (simp_all add: projectCommit_def)

lemma with_state_sel [simp]:
  "gc_operations (with_state st ops c) = ops" "gc_stateAfter (with_state st ops c) = st"
  "with_state st ops (with_state st' ops' c) = with_state st ops c"
  "with_state st ops (projectCommit c) = with_state st ops c"
  "projectCommit (with_state st ops c) = with_state st (map projectOperation ops) c"
  by (simp_all add: with_state_def projectCommit_def)

lemma rehydrate_live_commit:
  assumes "decimal_laws D rnd" "live_commit c"
  shows "rehydrateCommit D (json_commit D (projectCommit c)) = Inr (restored_commit D c)"
proof -
  have "mapE (rehydrateOperation D) (map (\<lambda>op. json_operation D (projectOperation op)) ops)
      = Inr (map (restored_operation D) ops)" if "list_all live_operation ops" for ops
    using that by (induction ops) (simp_all add: rehydrate_live_operation [OF assms(1)])
  then show ?thesis using assms(2)
    by (simp add: rehydrateCommit_def json_commit_def live_commit_def comp_def
        rehydrate_live_state [OF assms(1)] restored_commit_def)
qed

lemma restore_live:
  assumes "decimal_laws D rnd" "list_all live_commit (g_commits g)"
  shows "restore D (json_export D (exportState g)) =
    Inr (new_git\<lparr>g_commits := map (restored_commit D) (g_commits g), g_head := g_head g\<rparr>)"
proof -
  have "mapE (rehydrateCommit D) (map (\<lambda>c. json_commit D (projectCommit c)) cs)
      = Inr (map (restored_commit D) cs)" if "list_all live_commit cs" for cs
    using that by (induction cs) (simp_all add: rehydrate_live_commit [OF assms(1)])
  then show ?thesis using assms(2)
    by (simp add: restore_def json_export_def exportState_def comp_def)
qed

lemma jd_json_idem [simp]: "jd_json D (jd_json D x) = jd_json D x"
  by (simp add: jd_json_def)

lemma jd_json_not_unset [simp]: "\<not> jd_is_unset (jd_json D x)"
  by (simp add: jd_json_def)

lemma json_wire_stable: "map_option (jd_json D) (wire_field (map_option (jd_json D) x)) = map_option (jd_json D) x"
  by (cases x) (simp_all add: wire_field_def)

lemma json_restored_order: "json_order D (toWire (restored_order D od)) = json_order D (toWire od)"
proof -
  have "map_option (jd_json D) (wire_field (over (Some (DVal UNSET_DECIMAL)) (map_option (jd_json D) (wire_field x))))
      = map_option (jd_json D) (wire_field x)" for x
    by (cases "wire_field x") (simp_all add: wire_field_def)
  then show ?thesis
    unfolding json_order_wire by (simp add: map_decimals_def restored_order_def)
qed

lemma json_restored_operation:
  "json_operation D (projectOperation (restored_operation D op)) = json_operation D (projectOperation op)"
proof (cases op)
  case (ModifyOrder i od)
  then show ?thesis
    unfolding ModifyOrder restored_operation.simps projectOperation.simps json_operation.simps json_order_wire
    by (simp add: map_decimals_comp comp_def json_wire_stable)
qed (simp_all add: json_restored_order)

lemma json_order_idem: "json_order D (json_order D od) = json_order D od"
  by (simp add: json_order_def map_decimals_comp comp_def option.map_comp)

lemma json_restored_state: "json_state D (restored_state D st) = json_state D st"
  by (simp add: json_state_def restored_state_def json_order_idem)

lemma json_restored_commit: "json_commit D (projectCommit (restored_commit D c)) = json_commit D (projectCommit c)"
  by (simp add: json_commit_def restored_commit_def json_restored_state json_restored_operation comp_def)

text \<open>C11: a ledger written to its file and read back is the same ledger at rest as far as the
  file can tell: restoring never throws, head and commit results are unchanged, so are the pending
  and the known orders, and writing it again produces the same file.  The decimal package enters by
  the law that parsing inverts printing.\<close>

theorem restore_round_trip:
  assumes "decimal_laws D rnd" and "list_all live_commit (g_commits g)"
  shows "\<exists>g'. restore D (json_export D (exportState g)) = Inr g' \<and>
    json_export D (exportState g') = json_export D (exportState g) \<and> g_head g' = g_head g \<and>
    map gc_results (g_commits g') = map gc_results (g_commits g) \<and>
    pending_ids g' = pending_ids g \<and> getKnownOrderIds g' = getKnownOrderIds g"
proof -
  let ?g' = "new_git\<lparr>g_commits := map (restored_commit D) (g_commits g), g_head := g_head g\<rparr>"
  have res: "gc_results (restored_commit D c) = gc_results c" for c
    by (simp add: restored_commit_def with_state_def)
  have ids: "commit_mentions (restored_commit D c) = commit_mentions c" "commit_ids (restored_commit D c) = commit_ids c" for c
    by (simp_all add: commit_mentions_def commit_ids_def res)
  have "pending_ids ?g' = pending_ids g"
    by (simp add: pending_ids_newest newest_status_def rev_map comp_def ids)
  moreover have "getKnownOrderIds ?g' = getKnownOrderIds g"
    by (simp add: getKnownOrderIds_def comp_def ids)
  moreover have "json_export D (exportState ?g') = json_export D (exportState g)"
    by (simp add: json_export_def exportState_def json_restored_commit)
  ultimately show ?thesis
    using restore_live [OF assms] by (intro exI [of _ ?g']) (simp add: comp_def res)
qed

text \<open>An order placed through the ledger survives the file: the sentinel fields that
  \<open>toWire\<close> deletes come back as the sentinel, every price and size as the same decimal.\<close>

theorem restore_placed_order:
  assumes "decimal_laws D rnd" and "live_order od" and "o_filledQuantity od = Some (DVal UNSET_DECIMAL)"
  shows "rehydrateOperation D (json_operation D (projectOperation (PlaceOrder c od t))) = Inr (PlaceOrder c od t)"
proof -
  have "restored_order D od = od"
    using assms(3) by (cases od) (simp add: restored_order_def wire_field_def)
  then show ?thesis using rehydrate_live_operation [OF assms(1), of "PlaceOrder c od t"] assms(2) by simp
qed

fun clean_operation :: "operation \<Rightarrow> bool" where
  "clean_operation (PlaceOrder c od t) = no_sentinel od"
| "clean_operation (ObserveExternalOrder c od) = no_sentinel od"
| "clean_operation (ModifyOrder i od) = no_sentinel od"
| "clean_operation op = True"

lemma clean_project [simp]: "clean_operation (projectOperation op)"
  by (cases op) simp_all

definition clean_commit :: "'q git_commit \<Rightarrow> bool" where
  "clean_commit c = list_all clean_operation (gc_operations c)"

lemma clean_commit_project [simp]: "clean_commit (projectCommit c)"
  by (simp add: clean_commit_def list_all_iff)

lemma sentinel_limit: "o_lmtPrice od = Some (DVal UNSET_DECIMAL) \<Longrightarrow> \<not> no_sentinel od"
  by (simp add: no_sentinel_def sentinel_fields_def)

text \<open>No operation that leaves the ledger, by \<open>status\<close>, \<open>show\<close> or the exported state that
  the persistence callback receives, carries the decimal sentinel in its order.\<close>

theorem exported_operations_clean:
  "list_all clean_commit (ge_commits (exportState g)) \<and> list_all clean_operation (st_staged (tg_status g)) \<and>
   pred_option clean_commit (tg_show h g)"
  by (cases "find (\<lambda>c. gc_hash c = h) (g_commits g)")
    (simp_all add: exportState_def tg_status_def tg_show_def list_all_iff)

text \<open>The boundary does not cover the snapshot: an order that the broker reports as open with
  an unset limit price leaves the ledger inside \<open>stateAfter.pendingOrders\<close> with the sentinel.\<close>

theorem exported_snapshot_keeps_sentinel:
  assumes "c \<in> set (g_commits g)" and "x \<in> set (gs_pendingOrders (gc_stateAfter c))"
    and "o_lmtPrice (oo_order x) = Some (DVal UNSET_DECIMAL)"
  shows "list_ex (\<lambda>c. list_ex (\<lambda>y. \<not> no_sentinel (oo_order y)) (gs_pendingOrders (gc_stateAfter c)))
     (ge_commits (exportState g))"
proof -
  have "\<not> no_sentinel (oo_order x)" using assms(3) by (rule sentinel_limit)
  then show ?thesis using assms(1,2) by (auto simp: exportState_def list_ex_iff)
qed

text \<open>A sync commit shows one row per update, in order, attributed to the update's own symbol
  and status, although the commit holds a single operation.\<close>

theorem sync_summary_rows:
  assumes "us \<noteq> []" and "\<forall>u \<in> set us. u_symbol u \<noteq> []"
  shows "\<exists>rows. buildOperationSummaries D (sync_commit H t us st g) None = Inr rows \<and>
    map sm_symbol rows = map u_symbol us \<and> map sm_status rows = map u_currentStatus us \<and>
    list_all (\<lambda>r. sm_action r = ActSyncOrders \<and> sm_order r = None) rows"
proof -
  let ?c = "sync_commit H t us st g"
  let ?row = "\<lambda>u. \<lparr>sm_symbol = u_symbol u, sm_action = ActSyncOrders,
    sm_change = projr (formatOperationChange D SyncOrders (Some (sync_result_of u))),
    sm_status = u_currentStatus u, sm_order = None\<rparr>"
  have row: "summary_row D ?c None i = Inr (Some (?row (us ! i)))" if "i < length us" for i
  proof -
    have sy: "u_symbol (us ! i) \<noteq> []" using that assms(2) by auto
    have o: "row_op ?c i = Some SyncOrders"
      by (cases i) (simp_all add: row_op_def sync_commit_def)
    have r: "elem_at (gc_results ?c) i = Some (sync_result_of (us ! i))"
      using that by (simp add: elem_at_def sync_commit_def)
    show ?thesis unfolding summary_row_def o r
      using sy by (simp add: sync_result_of_def summary_order_def Let_def)
  qed
  have n: "max (length (gc_operations ?c)) (length (gc_results ?c)) = length us"
    using assms(1) by (cases us) (simp_all add: sync_commit_def)
  have "mapE (summary_row D ?c None) [0..<length us] = Inr (map (\<lambda>i. Some (?row (us ! i))) [0..<length us])"
    by (rule mapE_Inr_map) (simp add: row)
  moreover have "map (\<lambda>i. Some (?row (us ! i))) [0..<length us] = map (\<lambda>u. Some (?row u)) us"
    by (rule nth_equalityI) simp_all
  ultimately have "buildOperationSummaries D ?c None = Inr (map ?row us)"
    unfolding buildOperationSummaries_def n by (simp add: filter_map comp_def)
  then show ?thesis by (simp add: comp_def list_all_iff)
qed

section \<open>Witnesses\<close>

definition demo_update :: order_status_update where
  "demo_update = \<lparr>u_orderId = ''7'', u_symbol = ''AAPL'', u_previousStatus = Submitted,
     u_currentStatus = Filled, u_filledPrice = Some ''150'', u_filledQty = Some ''1'', u_fee = None,
     u_feeCurrency = None\<rparr>"

definition demo_order :: order where
  "demo_order = new_order\<lparr>o_action := Some ''BUY'', o_orderType := Some ''MKT'',
     o_totalQuantity := Some (DVal (Fin 1))\<rparr>"

definition demo_open_order :: open_order where
  "demo_open_order = \<lparr>oo_contract = new_contract, oo_order = demo_order,
     oo_orderState = \<lparr>os_status = ''Submitted'', os_commissionAndFees = UNSET_DOUBLE,
       os_commissionAndFeesCurrency = ''''\<rparr>,
     oo_orderId = Some ''7'', oo_avgFillPrice = None, oo_tpsl = None\<rparr>"

definition demo_commit :: "dec git_commit" where
  "demo_commit = \<lparr>gc_hash = ''h'', gc_parentHash = None, gc_message = ''m'',
     gc_operations = [PlaceOrder new_contract demo_order None],
     gc_results = [(result_of ActPlaceOrder True Submitted)\<lparr>r_orderId := Some ''7''\<rparr>],
     gc_stateAfter = demo_state\<lparr>gs_pendingOrders := [demo_open_order]\<rparr>, gc_timestamp = ''t'',
     gc_round = None\<rparr>"

definition demo_git :: trading_git where
  "demo_git = append_commit demo_commit new_git"

lemma demo_live: "live_order demo_order" "live_commit demo_commit"
  by (simp_all add: live_order_def demo_order_def new_order_def live_field_def live_commit_def
      demo_commit_def demo_state_def)

lemma demo_pending: "pending_ids demo_git = {''7''}"
  by (auto simp: pending_ids_newest demo_git_def demo_commit_def new_git_def newest_status_def
      commit_mentions_def mentions_def own_id_def leg_ids_def split: if_splits)

lemma sync_settles_orders_witness:
  "pending_ids demo_git = {''7''} \<and>
   pending_ids (fst (snd (tg_sync (demo_cfg False) [demo_update] demo_state demo_git 0))) = {}"
proof -
  obtain r g' w' where s: "tg_sync (demo_cfg False) [demo_update] demo_state demo_git 0 = (r, g', w')"
    by (cases "tg_sync (demo_cfg False) [demo_update] demo_state demo_git 0")
  have "pending_ids g' = pending_ids demo_git - u_orderId ` set [demo_update]"
    using s by (rule sync_settles_orders) (simp add: demo_update_def)
  then show ?thesis using s demo_pending by (simp add: demo_update_def)
qed

lemma restore_round_trip_witness:
  "\<exists>g'. restore exact_decimal (json_export exact_decimal (exportState demo_git)) = Inr g' \<and>
     pending_ids g' = {''7''}"
proof -
  have "list_all live_commit (g_commits demo_git)"
    using demo_live by (simp add: demo_git_def new_git_def)
  from restore_round_trip [OF ex.decimal_laws_axioms this] show ?thesis
    using demo_pending by auto
qed

lemma restore_placed_order_witness:
  "rehydrateOperation exact_decimal
     (json_operation exact_decimal (projectOperation (PlaceOrder new_contract demo_order None)))
   = Inr (PlaceOrder new_contract demo_order None)"
  by (rule restore_placed_order [OF ex.decimal_laws_axioms demo_live(1)])
    (simp add: demo_order_def new_order_def)

lemma exported_snapshot_keeps_sentinel_witness:
  "list_ex (\<lambda>c. list_ex (\<lambda>y. \<not> no_sentinel (oo_order y)) (gs_pendingOrders (gc_stateAfter c)))
     (ge_commits (exportState demo_git))"
  by (rule exported_snapshot_keeps_sentinel [of demo_commit demo_git demo_open_order])
    (simp_all add: demo_git_def new_git_def demo_commit_def demo_open_order_def demo_order_def new_order_def)

lemma sync_summary_rows_witness:
  "\<exists>rows. buildOperationSummaries exact_decimal
      (sync_commit (\<lambda>x. ''h'') ''t'' [demo_update] demo_state demo_git) None = Inr rows \<and>
    map sm_symbol rows = [''AAPL'']"
  using sync_summary_rows [of "[demo_update]" exact_decimal "\<lambda>x. ''h''" "''t''" demo_state demo_git]
  by (auto simp: demo_update_def)

end
