(* ===== verification/Git_Interleaving.thy ===== *)
theory Git_Interleaving
  imports Trading_Git Decimal_Instance
begin

text \<open>
  \<open>TradingGit.ts\<close> under JavaScript's event loop.  A \<open>push\<close> or \<open>reject\<close> runs up to its first
  \<open>await\<close>, and other calls of the ledger run before it resumes: more pushes, staging, and the
  commits of sync, observation and reconciliation, which do not look at \<open>inflightWrite\<close>.  A state
  holds the ledger and the writes that are suspended; an event starts a call or answers one that a
  write awaits.  The main results: the flag keeps the writes apart, a write ends after as many
  answers as it awaits, and every interleaving has the effect of the calls of \<open>Trading_Git\<close> run one
  after the other, each write at the moment its snapshot arrives.
\<close>

section \<open>Suspended writes and events\<close>

text \<open>
  What a suspended write awaits: the result of the operation at the head of the rest (with the results
  so far), the snapshot, or the persistence callback.
\<close>

datatype await =
    AwaitOp "op_result list" operation "operation list"
  | AwaitState "op_result list"
  | AwaitPersist

datatype write_kind = PushCall | RejectCall "string option"

record write_call =
  wc_id :: nat
  wc_kind :: write_kind
  wc_operations :: "operation list"
  wc_message :: string
  wc_hash :: string
  wc_await :: await

record machine =
  m_git :: trading_git
  m_writes :: "write_call list"
  m_nextId :: nat

datatype booking =
    BookReconcile string dec dec "dec git_state" "string option"
  | BookObserved "observed list" "dec git_state"
  | BookSync "order_status_update list" "dec git_state"

datatype event =
    EvAdd operation
  | EvCommit string string
  | EvPush string
  | EvReject "string option" string
  | EvRound int
  | EvBook booking string
  | EvOp nat "js_error + raw"
  | EvState nat "js_error + dec git_state" string
  | EvPersist nat "js_error + unit"

section \<open>Steps\<close>

definition idle :: "trading_git \<Rightarrow> machine" where
  "idle g = \<lparr>m_git = g, m_writes = [], m_nextId = 0\<rparr>"

text \<open>The message of the commit: of a reject it is built before the first \<open>await\<close>.\<close>

definition write_message :: "write_kind \<Rightarrow> string \<Rightarrow> string" where
  "write_message k pm = (case k of PushCall \<Rightarrow> pm | RejectCall reason \<Rightarrow> reject_message pm reason)"

definition first_await :: "write_kind \<Rightarrow> operation list \<Rightarrow> await" where
  "first_await k ops =
     (case k of
        PushCall \<Rightarrow> (case ops of [] \<Rightarrow> AwaitState [] | x # xs \<Rightarrow> AwaitOp [] x xs)
      | RejectCall reason \<Rightarrow> AwaitState (map (user_rejected reason) ops))"

definition kind_name :: "write_kind \<Rightarrow> string" where
  "kind_name k = (case k of PushCall \<Rightarrow> ''push'' | RejectCall _ \<Rightarrow> ''reject'')"

text \<open>A call of \<open>push\<close> or \<open>reject\<close>, to its first \<open>await\<close> or to the error it throws.\<close>

definition start_write :: "write_kind \<Rightarrow> string \<Rightarrow> machine \<Rightarrow> machine" where
  "start_write k expected m =
     (case assertPrepared (kind_name k) (m_git m) of
        Inl e \<Rightarrow> m
      | Inr _ \<Rightarrow>
          (case beginWrite expected (m_git m) of
             (Inl e, g1) \<Rightarrow> m\<lparr>m_git := g1\<rparr>
           | (Inr _, g1) \<Rightarrow>
               (case (g_pendingMessage g1, g_pendingHash g1) of
                  (Some pm, Some h) \<Rightarrow>
                    m\<lparr>m_git := g1,
                      m_writes := m_writes m @ [\<lparr>wc_id = m_nextId m, wc_kind = k, wc_operations = g_stagingArea g1,
                        wc_message = write_message k pm, wc_hash = h, wc_await = first_await k (g_stagingArea g1)\<rparr>],
                      m_nextId := Suc (m_nextId m)\<rparr>
                | _ \<Rightarrow> m\<lparr>m_git := end_write g1\<rparr>)))"

definition write_of :: "nat \<Rightarrow> machine \<Rightarrow> write_call option" where
  "write_of i m = find (\<lambda>c. wc_id c = i) (m_writes m)"

definition set_await :: "nat \<Rightarrow> await \<Rightarrow> machine \<Rightarrow> machine" where
  "set_await i a m = m\<lparr>m_writes := map (\<lambda>c. if wc_id c = i then c\<lparr>wc_await := a\<rparr> else c) (m_writes m)\<rparr>"

text \<open>The \<open>finally\<close> of a write.\<close>

definition finish_write :: "nat \<Rightarrow> machine \<Rightarrow> machine" where
  "finish_write i m = m\<lparr>m_git := end_write (m_git m), m_writes := filter (\<lambda>c. wc_id c \<noteq> i) (m_writes m)\<rparr>"

definition result_of_answer :: "operation \<Rightarrow> js_error + raw \<Rightarrow> op_result" where
  "result_of_answer op x = (case x of Inl e \<Rightarrow> failed_result op e | Inr rw \<Rightarrow> parseOperationResult op rw)"

definition next_await :: "op_result list \<Rightarrow> operation list \<Rightarrow> await" where
  "next_await rs ops = (case ops of [] \<Rightarrow> AwaitState rs | x # xs \<Rightarrow> AwaitOp rs x xs)"

definition write_commit :: "write_call \<Rightarrow> op_result list \<Rightarrow> dec git_state \<Rightarrow> string \<Rightarrow> trading_git \<Rightarrow> dec git_commit" where
  "write_commit c rs st t g =
     \<lparr>gc_hash = wc_hash c, gc_parentHash = g_head g, gc_message = wc_message c,
      gc_operations = wc_operations c, gc_results = rs, gc_stateAfter = st, gc_timestamp = t,
      gc_round = g_currentRound g\<rparr>"

definition booking_commit ::
  "decimal_js \<Rightarrow> (hash_input \<Rightarrow> string) \<Rightarrow> booking \<Rightarrow> string \<Rightarrow> trading_git \<Rightarrow> dec git_commit"
where
  "booking_commit D H b t g =
     (case b of
        BookReconcile a q p st msg \<Rightarrow> reconcile_commit D H t a q p st msg g
      | BookObserved obs st \<Rightarrow> observed_commit H t obs st g
      | BookSync us st \<Rightarrow> sync_commit H t us st g)"

text \<open>A sync of no updates returns at once.\<close>

definition book :: "decimal_js \<Rightarrow> (hash_input \<Rightarrow> string) \<Rightarrow> booking \<Rightarrow> string \<Rightarrow> trading_git \<Rightarrow> trading_git" where
  "book D H b t g = (case b of BookSync [] _ \<Rightarrow> g | _ \<Rightarrow> append_commit (booking_commit D H b t g) g)"

text \<open>An event that no write waits for is not enabled.\<close>

fun mstep :: "decimal_js \<Rightarrow> (hash_input \<Rightarrow> string) \<Rightarrow> event \<Rightarrow> machine \<Rightarrow> machine option" where
  "mstep D H (EvAdd op) m = Some (m\<lparr>m_git := snd (tg_add op (m_git m))\<rparr>)"
| "mstep D H (EvCommit msg t) m = Some (m\<lparr>m_git := snd (tg_commit H t msg (m_git m))\<rparr>)"
| "mstep D H (EvPush expected) m = Some (start_write PushCall expected m)"
| "mstep D H (EvReject reason expected) m = Some (start_write (RejectCall reason) expected m)"
| "mstep D H (EvRound n) m = Some (m\<lparr>m_git := setCurrentRound n (m_git m)\<rparr>)"
| "mstep D H (EvBook b t) m = Some (m\<lparr>m_git := book D H b t (m_git m)\<rparr>)"
| "mstep D H (EvOp i x) m =
     (case write_of i m of
        Some c \<Rightarrow> (case wc_await c of
            AwaitOp rs op ops \<Rightarrow> Some (set_await i (next_await (rs @ [result_of_answer op x]) ops) m)
          | _ \<Rightarrow> None)
      | None \<Rightarrow> None)"
| "mstep D H (EvState i x t) m =
     (case write_of i m of
        Some c \<Rightarrow> (case wc_await c of
            AwaitState rs \<Rightarrow> (case x of
                Inl e \<Rightarrow> Some (finish_write i m)
              | Inr st \<Rightarrow> Some (set_await i AwaitPersist
                  (m\<lparr>m_git := append_commit (write_commit c rs st t (m_git m)) (m_git m)\<rparr>)))
          | _ \<Rightarrow> None)
      | None \<Rightarrow> None)"
| "mstep D H (EvPersist i x) m =
     (case write_of i m of
        Some c \<Rightarrow> (case wc_await c of
            AwaitPersist \<Rightarrow> (case x of
                Inl e \<Rightarrow> Some (finish_write i m)
              | Inr _ \<Rightarrow> Some (finish_write i (m\<lparr>m_git := clear_staging (m_git m)\<rparr>)))
          | _ \<Rightarrow> None)
      | None \<Rightarrow> None)"

fun mrun :: "decimal_js \<Rightarrow> (hash_input \<Rightarrow> string) \<Rightarrow> event list \<Rightarrow> machine \<Rightarrow> machine option" where
  "mrun D H [] m = Some m"
| "mrun D H (x # xs) m = (case mstep D H x m of None \<Rightarrow> None | Some m1 \<Rightarrow> mrun D H xs m1)"

section \<open>The flag keeps the writes apart\<close>

definition awaits_ok :: "write_kind \<Rightarrow> operation list \<Rightarrow> await \<Rightarrow> bool" where
  "awaits_ok k ops aw = (case aw of
      AwaitOp rs op rest \<Rightarrow> k = PushCall \<and> (\<exists>don xs. ops = don @ op # rest \<and> length xs = length don \<and>
        rs = map2 result_of_answer don xs)
    | AwaitState rs \<Rightarrow> (case k of
        PushCall \<Rightarrow> (\<exists>xs. length xs = length ops \<and> rs = map2 result_of_answer ops xs)
      | RejectCall reason \<Rightarrow> rs = map (user_rejected reason) ops)
    | AwaitPersist \<Rightarrow> True)"

definition write_ok :: "trading_git \<Rightarrow> write_call \<Rightarrow> bool" where
  "write_ok g c \<longleftrightarrow> wc_operations c \<noteq> [] \<and> wc_hash c \<noteq> [] \<and> g_stagingArea g = wc_operations c \<and>
     g_pendingHash g = Some (wc_hash c) \<and>
     (\<exists>pm. g_pendingMessage g = Some pm \<and> wc_message c = write_message (wc_kind c) pm) \<and>
     awaits_ok (wc_kind c) (wc_operations c) (wc_await c)"

definition machine_ok :: "machine \<Rightarrow> bool" where
  "machine_ok m \<longleftrightarrow> (case m_writes m of
      [] \<Rightarrow> \<not> g_inflightWrite (m_git m)
    | [c] \<Rightarrow> g_inflightWrite (m_git m) \<and> wc_id c < m_nextId m \<and> write_ok (m_git m) c
    | _ \<Rightarrow> False)"

lemma machine_okE:
  assumes "machine_ok m"
  obtains (quiet) "m_writes m = []" "\<not> g_inflightWrite (m_git m)"
  | (busy) c where "m_writes m = [c]" "g_inflightWrite (m_git m)" "wc_id c < m_nextId m" "write_ok (m_git m) c"
  using assms by (auto simp: machine_ok_def split: list.splits)

lemma start_write_eq:
  "start_write k expected m =
     (if push_ready expected (m_git m) then
        m\<lparr>m_git := (m_git m)\<lparr>g_inflightWrite := True\<rparr>,
          m_writes := m_writes m @ [\<lparr>wc_id = m_nextId m, wc_kind = k, wc_operations = g_stagingArea (m_git m),
            wc_message = write_message k (the (g_pendingMessage (m_git m))), wc_hash = expected,
            wc_await = first_await k (g_stagingArea (m_git m))\<rparr>],
          m_nextId := Suc (m_nextId m)\<rparr>
      else m)"
  by (auto simp: start_write_def assertPrepared_def beginWrite_def push_ready_def)

lemma write_of_single: "m_writes m = [c] \<Longrightarrow> write_of i m = (if wc_id c = i then Some c else None)"
  by (simp add: write_of_def)

lemma write_of_quiet: "m_writes m = [] \<Longrightarrow> write_of i m = None"
  by (simp add: write_of_def)

lemma booking_sel [simp]:
  "g_stagingArea (book D H b t g) = g_stagingArea g" "g_pendingHash (book D H b t g) = g_pendingHash g"
  "g_pendingMessage (book D H b t g) = g_pendingMessage g"
  "g_inflightWrite (book D H b t g) = g_inflightWrite g"
  by (auto simp: book_def split: booking.splits list.splits)

lemma round_sel [simp]:
  "g_stagingArea (setCurrentRound n g) = g_stagingArea g" "g_pendingHash (setCurrentRound n g) = g_pendingHash g"
  "g_pendingMessage (setCurrentRound n g) = g_pendingMessage g"
  "g_inflightWrite (setCurrentRound n g) = g_inflightWrite g" "g_commits (setCurrentRound n g) = g_commits g"
  "g_head (setCurrentRound n g) = g_head g"
  by (simp_all add: setCurrentRound_def)

lemma write_ok_cong:
  "g_stagingArea g = g_stagingArea g' \<Longrightarrow> g_pendingHash g = g_pendingHash g' \<Longrightarrow>
   g_pendingMessage g = g_pendingMessage g' \<Longrightarrow> write_ok g c = write_ok g' c"
  by (simp add: write_ok_def)

text \<open>Staging and committing are refused while a write is suspended, and keep the flag at rest.\<close>

lemma refused_in_flight:
  "g_inflightWrite g \<Longrightarrow> snd (tg_add op g) = g" "g_inflightWrite g \<Longrightarrow> snd (tg_commit H t msg g) = g"
  by (simp_all add: tg_add_def tg_commit_def)

lemma staging_keeps_flag:
  "g_inflightWrite (snd (tg_add op g)) = g_inflightWrite g"
  "g_inflightWrite (snd (tg_commit H t msg g)) = g_inflightWrite g"
  by (simp_all add: tg_add_def tg_commit_def Let_def)

lemma first_await_ok: "awaits_ok k ops (first_await k ops)"
  by (auto simp: awaits_ok_def first_await_def split: write_kind.splits list.splits)

lemma next_await_ok:
  assumes "awaits_ok k ops (AwaitOp rs op rest)"
  shows "awaits_ok k ops (next_await (rs @ [result_of_answer op x]) rest)"
proof -
  from assms obtain don xs where k: "k = PushCall" and ops: "ops = don @ op # rest"
    and xs: "length xs = length don" "rs = map2 result_of_answer don xs"
    by (auto simp: awaits_ok_def)
  then have rs: "rs @ [result_of_answer op x] = map2 result_of_answer (don @ [op]) (xs @ [x])" by simp
  show ?thesis
  proof (cases rest)
    case Nil
    then show ?thesis using k ops xs(1) unfolding rs
      by (auto simp: awaits_ok_def next_await_def intro!: exI [of _ "xs @ [x]"])
  next
    case (Cons y ys)
    then show ?thesis using k ops xs(1) unfolding rs
      by (auto simp: awaits_ok_def next_await_def intro!: exI [of _ "don @ [op]"] exI [of _ "xs @ [x]"])
  qed
qed

lemma machine_ok_step:
  assumes "machine_ok m" "mstep D H ev m = Some m'"
  shows "machine_ok m'"
  using assms(1)
proof (cases rule: machine_okE)
  case quiet
  then show ?thesis using assms(2)
    by (cases ev) (auto simp: machine_ok_def start_write_eq write_of_quiet staging_keeps_flag write_ok_def
        push_ready_def first_await_ok split: if_splits)
next
  case (busy c)
  have no: "\<not> push_ready h (m_git m)" for h using busy(2) by (simp add: push_ready_def)
  note wo = write_of_single [OF busy(1)]
  show ?thesis
  proof (cases ev)
    case (EvOp i x)
    then obtain rs op rest where a: "wc_id c = i" "wc_await c = AwaitOp rs op rest"
      "m' = set_await i (next_await (rs @ [result_of_answer op x]) rest) m"
      using assms(2) by (auto simp: wo split: if_splits await.splits)
    then show ?thesis using busy next_await_ok [of "wc_kind c" "wc_operations c" rs op rest x]
      by (simp add: machine_ok_def set_await_def write_ok_def)
  next
    case (EvState i x t)
    then obtain rs where a: "wc_id c = i" "wc_await c = AwaitState rs"
      using assms(2) by (auto simp: wo split: if_splits await.splits)
    then show ?thesis using assms(2) busy EvState
      by (cases x) (auto simp: wo machine_ok_def set_await_def finish_write_def write_ok_def awaits_ok_def)
  next
    case (EvPersist i x)
    then obtain rs where a: "wc_id c = i" "wc_await c = AwaitPersist"
      using assms(2) by (auto simp: wo split: if_splits await.splits)
    then show ?thesis using assms(2) busy EvPersist
      by (cases x) (auto simp: wo machine_ok_def finish_write_def)
  qed (use assms(2) busy no in \<open>auto simp: machine_ok_def start_write_eq refused_in_flight write_ok_def\<close>)
qed

lemma mrun_append: "mrun D H (xs @ ys) m = Option.bind (mrun D H xs m) (mrun D H ys)"
  by (induction xs arbitrary: m) (auto split: option.splits)

lemma machine_ok_run:
  assumes "machine_ok m" "mrun D H evs m = Some m'"
  shows "machine_ok m'"
  using assms by (induction evs arbitrary: m) (auto split: option.splits intro: machine_ok_step)

lemma machine_ok_idle: "machine_ok (idle g) \<longleftrightarrow> \<not> g_inflightWrite g"
  by (simp add: machine_ok_def idle_def)

text \<open>C7: however the calls interleave, at most one write is suspended, the flag tells whether there is
  one, and while it is suspended the staged operations and the pending commit are the ones it was
  approved with: nothing can be staged under it, swapped or pushed twice at once.\<close>

theorem writes_exclude_each_other:
  assumes "mrun D H evs (idle g) = Some m" and "\<not> g_inflightWrite g"
  shows "length (m_writes m) \<le> 1 \<and> (g_inflightWrite (m_git m) \<longleftrightarrow> m_writes m \<noteq> []) \<and>
    (\<forall>c \<in> set (m_writes m). g_stagingArea (m_git m) = wc_operations c \<and>
       g_pendingHash (m_git m) = Some (wc_hash c))"
proof -
  have "machine_ok m" using machine_ok_run [OF _ assms(1)] assms(2) by (simp add: machine_ok_idle)
  then show ?thesis by (cases rule: machine_okE) (auto simp: write_ok_def)
qed

section \<open>A write ends\<close>

text \<open>The answers that a write still waits for when nothing fails, and those that a run gave it.\<close>

definition remaining :: "await \<Rightarrow> nat" where
  "remaining aw = (case aw of AwaitOp _ _ rest \<Rightarrow> length rest + 3 | AwaitState _ \<Rightarrow> 2 | AwaitPersist \<Rightarrow> 1)"

fun answered :: "event \<Rightarrow> nat option" where
  "answered (EvOp i x) = Some i"
| "answered (EvState i x t) = Some i"
| "answered (EvPersist i x) = Some i"
| "answered _ = None"

definition answers_to :: "nat \<Rightarrow> event list \<Rightarrow> nat" where
  "answers_to i evs = length (filter (\<lambda>ev. answered ev = Some i) evs)"

definition left_of :: "nat \<Rightarrow> machine \<Rightarrow> nat" where
  "left_of i m = (case write_of i m of None \<Rightarrow> 0 | Some c \<Rightarrow> remaining (wc_await c))"

lemma remaining_pos [simp]: "remaining aw \<noteq> 0"
  by (cases aw) (simp_all add: remaining_def)

lemma remaining_next: "remaining (next_await rs ops) = length ops + 2"
  by (cases ops) (simp_all add: remaining_def next_await_def)

lemma left_of_step:
  assumes "machine_ok m" "mstep D H ev m = Some m'" "i < m_nextId m"
  shows "left_of i m' + (if answered ev = Some i then 1 else 0) \<le> left_of i m \<and> i < m_nextId m'"
  using assms(1)
proof (cases rule: machine_okE)
  case quiet
  then show ?thesis using assms(2,3)
    by (cases ev) (auto simp: left_of_def start_write_eq write_of_def)
next
  case (busy c)
  have no: "\<not> push_ready h (m_git m)" for h using busy(2) by (simp add: push_ready_def)
  note wo = write_of_single [OF busy(1)]
  show ?thesis
  proof (cases ev)
    case (EvOp j x)
    then obtain rs op rest where a: "wc_id c = j" "wc_await c = AwaitOp rs op rest"
      "m' = set_await j (next_await (rs @ [result_of_answer op x]) rest) m"
      using assms(2) by (auto simp: wo split: if_splits await.splits)
    then show ?thesis using busy assms(3) EvOp
      by (auto simp: left_of_def wo set_await_def write_of_def remaining_next) (simp_all add: remaining_def)
  next
    case (EvState j x t)
    then obtain rs where a: "wc_id c = j" "wc_await c = AwaitState rs"
      using assms(2) by (auto simp: wo split: if_splits await.splits)
    then show ?thesis using assms(2,3) busy EvState
      by (cases x) (auto simp: wo left_of_def set_await_def finish_write_def write_of_def remaining_def)
  next
    case (EvPersist j x)
    then obtain rs where a: "wc_id c = j" "wc_await c = AwaitPersist"
      using assms(2) by (auto simp: wo split: if_splits await.splits)
    then show ?thesis using assms(2,3) busy EvPersist
      by (cases x) (auto simp: wo left_of_def finish_write_def write_of_def remaining_def)
  qed (use assms(2,3) busy no in \<open>auto simp: left_of_def start_write_eq write_of_def\<close>)
qed

lemma left_of_run:
  assumes "mrun D H evs m = Some m'" "machine_ok m" "i < m_nextId m"
  shows "left_of i m' + answers_to i evs \<le> left_of i m"
  using assms
proof (induction evs arbitrary: m)
  case Nil
  then show ?case by (simp add: answers_to_def)
next
  case (Cons ev evs)
  then obtain m1 where m1: "mstep D H ev m = Some m1" "mrun D H evs m1 = Some m'"
    by (auto split: option.splits)
  from left_of_step [OF Cons.prems(2) m1(1) Cons.prems(3)] Cons.IH [OF m1(2) machine_ok_step [OF Cons.prems(2) m1(1)]]
  show ?case by (auto simp: answers_to_def)
qed

lemma awaited_answer_enabled:
  assumes "write_of i m = Some c"
  shows "\<exists>ev. answered ev = Some i \<and> mstep D H ev m \<noteq> None"
proof (cases "wc_await c")
  case (AwaitOp rs op rest)
  then show ?thesis using assms by (intro exI [of _ "EvOp i (Inl TypeError)"]) simp
next
  case (AwaitState rs)
  then show ?thesis using assms by (intro exI [of _ "EvState i (Inl TypeError) []"]) simp
next
  case AwaitPersist
  then show ?thesis using assms by (intro exI [of _ "EvPersist i (Inl TypeError)"]) simp
qed

lemma last_answer_drops_flag:
  assumes "machine_ok m" and "mstep D H ev m = Some m'" and "answered ev = Some i" and "write_of i m' = None"
  shows "m_writes m' = [] \<and> \<not> g_inflightWrite (m_git m')"
proof -
  have "write_of i m \<noteq> None" using assms(2,3) by (cases ev) (auto split: option.splits)
  then obtain c where c: "m_writes m = [c]" "wc_id c = i"
    using machine_okE [OF assms(1)] by (metis write_of_quiet write_of_single)
  note wo = write_of_single [OF c(1)]
  have one: "length (m_writes m') \<le> 1 \<and> set (map wc_id (m_writes m')) \<subseteq> {i}"
    using assms(2,3) c by (cases ev)
      (auto simp: wo set_await_def finish_write_def split: await.splits sum.splits)
  then have "m_writes m' = []"
    using assms(4) by (cases "m_writes m'") (auto simp: write_of_def)
  moreover have "machine_ok m'" using assms(1,2) by (rule machine_ok_step)
  ultimately show ?thesis by (auto simp: machine_ok_def)
qed

text \<open>C9: a suspended write always has an answer to wait for, and it ends: whatever the answers are
  and whatever happens in between, it takes at most one answer for each operation left and two more,
  and after those it is gone.  The answer that ends it, be it a success or an error, lowers the flag
  and leaves no write behind; and whenever it is gone with no other write running, the flag is
  down.\<close>

theorem suspended_write_ends:
  assumes "mrun D H evs (idle g) = Some m" and "\<not> g_inflightWrite g" and "write_of i m = Some c"
    and "mrun D H evs' m = Some m'"
  shows "(\<exists>ev. answered ev = Some i \<and> mstep D H ev m \<noteq> None) \<and>
    answers_to i evs' \<le> length (wc_operations c) + 2 \<and>
    (answers_to i evs' = remaining (wc_await c) \<longrightarrow> write_of i m' = None) \<and>
    (evs' \<noteq> [] \<and> answered (last evs') = Some i \<and> write_of i m' = None \<longrightarrow>
       m_writes m' = [] \<and> \<not> g_inflightWrite (m_git m')) \<and>
    (m_writes m' = [] \<longrightarrow> \<not> g_inflightWrite (m_git m'))"
proof -
  have ok: "machine_ok m" using machine_ok_run [OF _ assms(1)] assms(2) by (simp add: machine_ok_idle)
  then obtain "m_writes m = [c]" "wc_id c = i" "i < m_nextId m" "write_ok (m_git m) c"
    using assms(3) by (cases rule: machine_okE) (auto simp: write_of_def split: if_splits)
  note c = this
  have "remaining (wc_await c) \<le> length (wc_operations c) + 2"
    using c(4) by (cases "wc_await c") (auto simp: remaining_def write_ok_def awaits_ok_def)
  moreover have left: "left_of i m' + answers_to i evs' \<le> remaining (wc_await c)"
    using left_of_run [OF assms(4) ok c(3)] assms(3) by (simp add: left_of_def)
  moreover have "write_of i m' = None" if "left_of i m' = 0"
    using that by (auto simp: left_of_def split: option.splits)
  moreover have "m_writes m' = [] \<and> \<not> g_inflightWrite (m_git m')"
    if "evs' \<noteq> []" "answered (last evs') = Some i" "write_of i m' = None"
  proof -
    have "mrun D H evs' m = Option.bind (mrun D H (butlast evs') m) (mrun D H [last evs'])"
      using that(1) mrun_append [of D H "butlast evs'" "[last evs']" m] by simp
    then obtain m1 where "mrun D H (butlast evs') m = Some m1" "mstep D H (last evs') m1 = Some m'"
      using assms(4) by (cases "mrun D H (butlast evs') m") (auto split: option.splits)
    then show ?thesis using last_answer_drops_flag [OF machine_ok_run [OF ok]] that by blast
  qed
  moreover have "\<not> g_inflightWrite (m_git m')" if "m_writes m' = []"
    using machine_ok_run [OF ok assms(4)] that by (simp add: machine_ok_def)
  ultimately show ?thesis using awaited_answer_enabled [OF assms(3)] by auto
qed

section \<open>Every interleaving is a sequence of calls\<close>

text \<open>
  A call of the sequential model with the answers that it gets: the executor answers from a list,
  the snapshot, the callback and the clock once each.
\<close>

record script =
  sc_replies :: "(js_error + raw) list"
  sc_state :: "js_error + dec git_state"
  sc_time :: string
  sc_persist :: "js_error + unit"

definition script_reply :: "operation \<Rightarrow> script \<Rightarrow> (js_error + raw) \<times> script" where
  "script_reply op s = (case sc_replies s of
      [] \<Rightarrow> (Inl TypeError, s)
    | x # xs \<Rightarrow> (x, s\<lparr>sc_replies := xs\<rparr>))"

definition script_cfg :: "(hash_input \<Rightarrow> string) \<Rightarrow> script git_config" where
  "script_cfg H = \<lparr>executeOperation = script_reply, getGitState = (\<lambda>g s. (sc_state s, s)),
     onCommit = Some (\<lambda>x s. (sc_persist s, s)), clock = sc_time, commitHash = H\<rparr>"

definition seq_step :: "decimal_js \<Rightarrow> (hash_input \<Rightarrow> string) \<Rightarrow> git_call \<times> script \<Rightarrow> trading_git \<Rightarrow> trading_git" where
  "seq_step D H x g = fst (run_call D (script_cfg H) (fst x) (g, snd x))"

definition seq_run :: "decimal_js \<Rightarrow> (hash_input \<Rightarrow> string) \<Rightarrow> (git_call \<times> script) list \<Rightarrow> trading_git \<Rightarrow> trading_git" where
  "seq_run D H = fold (seq_step D H)"

text \<open>The call that an event makes, and the call of a write.\<close>

definition booking_call :: "booking \<Rightarrow> git_call" where
  "booking_call b = (case b of BookReconcile a q p st msg \<Rightarrow> CallReconcile a q p st msg
    | BookObserved obs st \<Rightarrow> CallObserved obs st | BookSync us st \<Rightarrow> CallSync us st)"

fun call_made :: "event \<Rightarrow> git_call list" where
  "call_made (EvAdd op) = [CallAdd op]"
| "call_made (EvCommit msg t) = [CallCommit msg]"
| "call_made (EvPush h) = [CallPush h]"
| "call_made (EvReject reason h) = [CallReject reason h]"
| "call_made (EvRound n) = [CallRound n]"
| "call_made (EvBook b t) = [booking_call b]"
| "call_made _ = []"

definition write_call_of :: "write_call \<Rightarrow> git_call" where
  "write_call_of c = (case wc_kind c of PushCall \<Rightarrow> CallPush (wc_hash c) | RejectCall r \<Rightarrow> CallReject r (wc_hash c))"

lemma script_exec:
  "length xs = length ops \<Longrightarrow> sc_replies s = xs @ ys \<Longrightarrow>
   exec_ops (script_cfg H) ops s = (map2 result_of_answer ops xs, s\<lparr>sc_replies := ys\<rparr>)"
proof (induction ops arbitrary: xs s)
  case (Cons op ops)
  then obtain x xs' where xs: "xs = x # xs'" "length xs' = length ops" by (cases xs) auto
  have "exec_op (script_cfg H) op s = (result_of_answer op x, s\<lparr>sc_replies := xs' @ ys\<rparr>)"
    using Cons.prems xs by (simp add: exec_op_def script_cfg_def script_reply_def result_of_answer_def split: sum.splits)
  then show ?case using Cons.IH [of xs' "s\<lparr>sc_replies := xs' @ ys\<rparr>"] xs by simp
qed (auto simp: zip_Nil)

lemma seq_book: "seq_step D H (booking_call b, \<lparr>sc_replies = [], sc_state = x, sc_time = t, sc_persist = p\<rparr>) g = book D H b t g"
  by (cases b) (auto simp: seq_step_def booking_call_def book_def booking_commit_def recordReconcile_def
      recordObservedOrders_def tg_sync_def then_hash_def persist_commit_def script_cfg_def Let_def
      split: list.splits)

lemma script_sel [simp]:
  "getGitState (script_cfg H) g s = (sc_state s, s)" "onCommit (script_cfg H) = Some (\<lambda>x s. (sc_persist s, s))"
  "clock (script_cfg H) = sc_time" "commitHash (script_cfg H) = H"
  by (simp_all add: script_cfg_def)

lemma end_write_append:
  assumes "\<not> g_inflightWrite g"
  shows "end_write (append_commit c (g\<lparr>g_inflightWrite := True\<rparr>)) = append_commit c g"
    and "end_write (clear_staging (append_commit c (g\<lparr>g_inflightWrite := True\<rparr>))) = clear_staging (append_commit c g)"
  using assms by (cases g; simp add: end_write_def append_commit_def clear_staging_def)+

text \<open>A write whose answers are all known, run in one piece.\<close>

definition whole_write :: "write_call \<Rightarrow> (js_error + raw) list \<Rightarrow> js_error + dec git_state \<Rightarrow> string \<Rightarrow> js_error + unit \<Rightarrow> git_call \<times> script" where
  "whole_write c xs st t p =
     (write_call_of c, \<lparr>sc_replies = xs, sc_state = st, sc_time = t, sc_persist = p\<rparr>)"

lemma seq_write:
  assumes "write_ok g c" "\<not> g_inflightWrite g" "wc_await c = AwaitState rs"
  shows "\<exists>xs. \<forall>e st t p. seq_step D H (whole_write c xs (Inl e) t p) g = g \<and>
    seq_step D H (whole_write c xs (Inr st) t p) g =
      (case p of Inl _ \<Rightarrow> append_commit (write_commit c rs st t g) g
       | Inr _ \<Rightarrow> clear_staging (append_commit (write_commit c rs st t g) g))"
proof -
  have ready: "push_ready (wc_hash c) g" using assms by (auto simp: write_ok_def push_ready_def)
  obtain pm where pm: "g_pendingMessage g = Some pm" "wc_message c = write_message (wc_kind c) pm"
    using assms(1) by (auto simp: write_ok_def)
  obtain op os where opc: "wc_operations c = op # os" using assms(1) by (cases "wc_operations c") (auto simp: write_ok_def)
  have ops: "g_stagingArea g = op # os" "g_pendingHash g = Some (wc_hash c)"
    using assms(1) opc by (auto simp: write_ok_def)
  have wc: "write_commit c rs st t g = \<lparr>gc_hash = wc_hash c, gc_parentHash = g_head g, gc_message = wc_message c,
      gc_operations = op # os, gc_results = rs, gc_stateAfter = st, gc_timestamp = t, gc_round = g_currentRound g\<rparr>"
    for rs st t by (simp add: write_commit_def opc)
  note fin = end_write_append [OF assms(2)] end_write_inflight [OF assms(2)]
  show ?thesis
  proof (cases "wc_kind c")
    case PushCall
    then obtain xs where xs: "length xs = length (op # os)" "rs = map2 result_of_answer (op # os) xs"
      using assms(1,3) by (auto simp: write_ok_def awaits_ok_def opc)
    have ex: "exec_ops (script_cfg H) (op # os) \<lparr>sc_replies = xs, sc_state = st, sc_time = t, sc_persist = p\<rparr> =
        (rs, \<lparr>sc_replies = [], sc_state = st, sc_time = t, sc_persist = p\<rparr>)" for st t p
      using script_exec [OF xs(1), of _ "[]"] xs(2) by simp
    have msg: "wc_message c = pm" using pm(2) PushCall by (simp add: write_message_def)
    have "seq_step D H (whole_write c xs (Inl e) t p) g = g \<and>
      seq_step D H (whole_write c xs (Inr st) t p) g =
      (case p of Inl _ \<Rightarrow> append_commit (write_commit c rs st t g) g
       | Inr _ \<Rightarrow> clear_staging (append_commit (write_commit c rs st t g) g))" for e st t p
      by (cases p) (simp_all add: seq_step_def whole_write_def write_call_of_def PushCall tg_push_def write_guard ready
        executePush_def ops pm(1) ex msg wc persist_commit_def Let_def fin del: exec_ops.simps)
    then show ?thesis by blast
  next
    case (RejectCall reason)
    then have rs: "rs = map (user_rejected reason) (op # os)"
      using assms(1,3) by (auto simp: write_ok_def awaits_ok_def opc)
    have msg: "wc_message c = reject_message pm reason" using pm(2) RejectCall by (simp add: write_message_def)
    have "seq_step D H (whole_write c [] (Inl e) t p) g = g \<and>
      seq_step D H (whole_write c [] (Inr st) t p) g =
      (case p of Inl _ \<Rightarrow> append_commit (write_commit c rs st t g) g
       | Inr _ \<Rightarrow> clear_staging (append_commit (write_commit c rs st t g) g))" for e st t p
      by (cases p) (simp_all add: seq_step_def whole_write_def write_call_of_def RejectCall tg_reject_def write_guard ready
        executeReject_def ops pm(1) rs msg wc persist_commit_def Let_def fin)
    then show ?thesis by blast
  qed
qed

text \<open>
  The ledger without its flag is the result of a sequence of calls that were made; behind a commit
  whose callback is awaited there is a second one, for the case that the callback succeeds.
\<close>

definition explained ::
  "decimal_js \<Rightarrow> (hash_input \<Rightarrow> string) \<Rightarrow> trading_git \<Rightarrow> event list \<Rightarrow> trading_git \<Rightarrow> bool"
where
  "explained D H g0 evs g \<longleftrightarrow>
     (\<exists>calls. fst ` set calls \<subseteq> set (concat (map call_made evs)) \<and> g = seq_run D H calls g0)"

definition linear_inv ::
  "decimal_js \<Rightarrow> (hash_input \<Rightarrow> string) \<Rightarrow> trading_git \<Rightarrow> event list \<Rightarrow> machine \<Rightarrow> bool"
where
  "linear_inv D H g0 evs m \<longleftrightarrow> explained D H g0 evs (end_write (m_git m)) \<and>
     (\<forall>c \<in> set (m_writes m). write_call_of c \<in> set (concat (map call_made evs)) \<and>
        (wc_await c = AwaitPersist \<longrightarrow> explained D H g0 evs (clear_staging (end_write (m_git m)))))"

lemma explained_mono:
  assumes "explained D H g0 evs g"
  shows "explained D H g0 (evs @ [ev]) g"
  using assms unfolding explained_def by fastforce

lemma explained_step:
  assumes "explained D H g0 evs g" "fst x \<in> set (concat (map call_made evs))"
  shows "explained D H g0 evs (seq_step D H x g)"
proof -
  obtain calls where "fst ` set calls \<subseteq> set (concat (map call_made evs))" "g = seq_run D H calls g0"
    using assms(1) unfolding explained_def by blast
  then show ?thesis using assms(2)
    unfolding explained_def by (intro exI [of _ "calls @ [x]"]) (simp add: seq_run_def)
qed

lemma explained_call:
  assumes "explained D H g0 evs g" "fst x \<in> set (call_made ev)"
  shows "explained D H g0 (evs @ [ev]) (seq_step D H x g)"
  using explained_step [OF explained_mono [OF assms(1), of ev], of x] assms(2) by simp

text \<open>What other calls do to the ledger does not depend on the flag or on the staging area.\<close>

lemma book_end_write: "end_write (book D H b t g) = book D H b t (end_write g)"
  by (cases g) (auto simp: book_def booking_commit_def append_commit_def end_write_def reconcile_commit_def
      observed_commit_def sync_commit_def Let_def split: booking.splits list.splits)

lemma book_clear: "clear_staging (book D H b t g) = book D H b t (clear_staging g)"
  by (cases g) (auto simp: book_def booking_commit_def append_commit_def clear_staging_def reconcile_commit_def
      observed_commit_def sync_commit_def Let_def split: booking.splits list.splits)

lemma round_commutes:
  "end_write (setCurrentRound n g) = setCurrentRound n (end_write g)"
  "clear_staging (setCurrentRound n g) = setCurrentRound n (clear_staging g)"
  by (cases g; simp add: end_write_def clear_staging_def setCurrentRound_def)+

definition any_script :: "string \<Rightarrow> script" where
  "any_script t = \<lparr>sc_replies = [], sc_state = Inl TypeError, sc_time = t, sc_persist = Inr ()\<rparr>"

lemma seq_simple:
  "seq_step D H (CallAdd op, any_script t) g = snd (tg_add op g)"
  "seq_step D H (CallCommit msg, any_script t) g = snd (tg_commit H t msg g)"
  "seq_step D H (CallRound n, any_script t) g = setCurrentRound n g"
  "seq_step D H (booking_call b, any_script t) g = book D H b t g"
  using seq_book by (simp_all add: seq_step_def any_script_def)

lemma end_write_quiet [simp]: "\<not> g_inflightWrite g \<Longrightarrow> end_write g = g"
  by (cases g) (simp add: end_write_def)

lemma end_write_append_commit:
  "end_write (append_commit (write_commit c rs st t g) g) =
     append_commit (write_commit c rs st t (end_write g)) (end_write g)"
  "clear_staging (end_write g) = end_write (clear_staging g)" "end_write (end_write g) = end_write g"
  by (cases g; simp add: end_write_def append_commit_def write_commit_def clear_staging_def)+

lemma first_await_simps [simp]: "first_await k ops \<noteq> AwaitPersist" "next_await rs ops \<noteq> AwaitPersist"
  by (auto simp: first_await_def next_await_def split: write_kind.splits list.splits)

lemma write_call_of_await [simp]: "write_call_of (c\<lparr>wc_await := a\<rparr>) = write_call_of c"
  by (simp add: write_call_of_def split: write_kind.splits)

lemma linear_inv_quiet:
  assumes "m_writes m = []" "\<not> g_inflightWrite (m_git m)" "linear_inv D H g0 evs m" "mstep D H ev m = Some m'"
  shows "linear_inv D H g0 (evs @ [ev]) m'"
proof -
  have ex: "explained D H g0 evs (m_git m)" using assms(2,3) by (simp add: linear_inv_def)
  note ex' = explained_mono [OF ex, of ev]
  show ?thesis
  proof (cases ev)
    case (EvAdd op)
    then show ?thesis using assms explained_call [OF ex, of "(CallAdd op, any_script [])" ev]
      by (auto simp: linear_inv_def seq_simple staging_keeps_flag)
  next
    case (EvCommit msg t)
    then show ?thesis using assms explained_call [OF ex, of "(CallCommit msg, any_script t)" ev]
      by (auto simp: linear_inv_def seq_simple staging_keeps_flag)
  next
    case (EvRound n)
    then show ?thesis using assms explained_call [OF ex, of "(CallRound n, any_script [])" ev]
      by (auto simp: linear_inv_def seq_simple)
  next
    case (EvBook b t)
    then show ?thesis using assms explained_call [OF ex, of "(booking_call b, any_script t)" ev]
      by (auto simp: linear_inv_def seq_simple)
  next
    case (EvPush h)
    then show ?thesis using assms ex' by (auto simp: linear_inv_def start_write_eq write_call_of_def split: if_splits)
  next
    case (EvReject r h)
    then show ?thesis using assms ex' by (auto simp: linear_inv_def start_write_eq write_call_of_def split: if_splits)
  qed (use assms in \<open>auto simp: write_of_quiet\<close>)
qed

lemma linear_inv_busy:
  assumes "m_writes m = [c]" "g_inflightWrite (m_git m)" "write_ok (m_git m) c" "linear_inv D H g0 evs m"
    and "mstep D H ev m = Some m'"
  shows "linear_inv D H g0 (evs @ [ev]) m'"
proof -
  let ?g = "end_write (m_git m)"
  have ex: "explained D H g0 evs ?g" and call: "write_call_of c \<in> set (concat (map call_made evs))"
    and cleared: "wc_await c = AwaitPersist \<Longrightarrow> explained D H g0 evs (clear_staging ?g)"
    using assms(1,4) by (auto simp: linear_inv_def)
  note ex' = explained_mono [OF ex, of ev] and cleared' = explained_mono [OF cleared, of ev]
  have no: "\<not> push_ready h (m_git m)" for h using assms(2) by (simp add: push_ready_def)
  note wo = write_of_single [OF assms(1)]
  show ?thesis
  proof (cases ev)
    case (EvRound n)
    then show ?thesis
      using assms call explained_call [OF ex, of "(CallRound n, any_script [])" ev]
        explained_call [OF cleared, of "(CallRound n, any_script [])" ev]
      by (auto simp: linear_inv_def seq_simple round_commutes)
  next
    case (EvBook b t)
    then show ?thesis
      using assms call explained_call [OF ex, of "(booking_call b, any_script t)" ev]
        explained_call [OF cleared, of "(booking_call b, any_script t)" ev]
      by (auto simp: linear_inv_def seq_simple book_end_write book_clear)
  next
    case (EvOp i x)
    then obtain rs op rest where a: "wc_id c = i" "wc_await c = AwaitOp rs op rest"
      "m' = set_await i (next_await (rs @ [result_of_answer op x]) rest) m"
      using assms(5) by (auto simp: wo split: if_splits await.splits)
    then show ?thesis using assms(1) ex' call by (auto simp: linear_inv_def set_await_def)
  next
    case (EvState i x t)
    then obtain rs where a: "wc_id c = i" "wc_await c = AwaitState rs"
      using assms(5) by (auto simp: wo split: if_splits await.splits)
    show ?thesis
    proof (cases x)
      case (Inl e)
      then show ?thesis using a assms(1,5) EvState ex'
        by (auto simp: wo linear_inv_def finish_write_def end_write_append_commit)
    next
      case (Inr st)
      have m': "m' = set_await i AwaitPersist
          (m\<lparr>m_git := append_commit (write_commit c rs st t (m_git m)) (m_git m)\<rparr>)"
        using a assms(5) EvState Inr by (simp add: wo)
      have ok: "write_ok ?g c" using assms(3) by (subst write_ok_cong [of _ "m_git m"]) simp_all
      obtain xs where xs: "seq_step D H (whole_write c xs (Inr st) t p) ?g =
          (case p of Inl _ \<Rightarrow> append_commit (write_commit c rs st t ?g) ?g
           | Inr _ \<Rightarrow> clear_staging (append_commit (write_commit c rs st t ?g) ?g))" for p
        using seq_write [OF ok _ a(2), of D H] by (metis end_write_sel(6))
      have c: "fst (whole_write c xs (Inr st) t p) \<in> set (concat (map call_made evs))" for p
        using call by (simp add: whole_write_def)
      have e1: "explained D H g0 evs (append_commit (write_commit c rs st t ?g) ?g)"
        using explained_step [OF ex c, of "Inl TypeError"] by (simp add: xs)
      have e2: "explained D H g0 evs (clear_staging (append_commit (write_commit c rs st t ?g) ?g))"
        using explained_step [OF ex c, of "Inr ()"] by (simp add: xs)
      from explained_mono [OF e1, of ev] explained_mono [OF e2, of ev] call a(1) assms(1) show ?thesis
        unfolding m' linear_inv_def set_await_def by (simp add: end_write_append_commit(1))
    qed
  next
    case (EvPersist i x)
    then have a: "wc_id c = i" "wc_await c = AwaitPersist"
      using assms(5) by (auto simp: wo split: if_splits await.splits)
    show ?thesis
    proof (cases x)
      case (Inl e)
      then show ?thesis using a assms(1,5) EvPersist ex'
        by (auto simp: wo linear_inv_def finish_write_def end_write_append_commit)
    next
      case (Inr y)
      then show ?thesis using a assms(1,5) EvPersist cleared'
        by (auto simp: wo linear_inv_def finish_write_def end_write_append_commit)
    qed
  qed (use assms ex' call cleared' no in \<open>auto simp: linear_inv_def start_write_eq refused_in_flight\<close>)
qed

lemma linear_inv_run:
  assumes "mrun D H evs m = Some m'" "machine_ok m" "linear_inv D H g0 evs0 m"
  shows "linear_inv D H g0 (evs0 @ evs) m'"
  using assms
proof (induction evs arbitrary: m evs0)
  case (Cons ev evs)
  then obtain m1 where m1: "mstep D H ev m = Some m1" "mrun D H evs m1 = Some m'"
    by (auto split: option.splits)
  have "linear_inv D H g0 (evs0 @ [ev]) m1"
    using Cons.prems(2) linear_inv_quiet [OF _ _ Cons.prems(3) m1(1)] linear_inv_busy [OF _ _ _ Cons.prems(3) m1(1)]
    by (cases rule: machine_okE) auto
  from Cons.IH [OF m1(2) machine_ok_step [OF Cons.prems(2) m1(1)] this] show ?case by simp
qed simp

text \<open>C8: concurrency adds nothing to the ledger.  Whatever calls interleave, once no write is
  suspended the ledger is the result of running calls that were made, one after the other and each to its end, in the
  sequential model, so all that holds of sequences of calls holds of interleavings.\<close>

theorem interleaving_linearizes:
  assumes "mrun D H evs (idle g) = Some m" and "\<not> g_inflightWrite g" and "m_writes m = []"
  shows "\<exists>calls. fst ` set calls \<subseteq> set (concat (map call_made evs)) \<and> m_git m = seq_run D H calls g"
proof -
  have "linear_inv D H g [] (idle g)"
    using assms(2) by (auto simp: linear_inv_def explained_def idle_def seq_run_def intro: exI [of _ "[]"])
  from linear_inv_run [OF assms(1) _ this] have inv: "linear_inv D H g evs m"
    using assms(2) by (simp add: machine_ok_idle)
  have "machine_ok m" using machine_ok_run [OF _ assms(1)] assms(2) by (simp add: machine_ok_idle)
  then have "\<not> g_inflightWrite (m_git m)" using assms(3) by (simp add: machine_ok_def)
  then have "end_write (m_git m) = m_git m" by (rule end_write_quiet)
  then show ?thesis using inv unfolding linear_inv_def explained_def by simp
qed

section \<open>Witnesses\<close>

text \<open>Two pushes of one commit overlap, and a balance is booked between the execution and the snapshot.\<close>

definition demo_events :: "event list" where
  "demo_events =
     [EvPush ''h'', EvPush ''h'', EvOp 0 (Inl TypeError), EvAdd demo_op,
      EvBook (BookReconcile ''a|BTC'' (Fin 2) (Fin 30) demo_state None) ''t1'',
      EvState 0 (Inr demo_state) ''t2'', EvPersist 0 (Inr ())]"

definition demo_machine :: "nat \<Rightarrow> machine option" where
  "demo_machine n = mrun exact_decimal (\<lambda>x. ''h2'') (take n demo_events) (idle demo_prepared)"

lemma demo_rest: "\<not> g_inflightWrite demo_prepared"
  by (simp add: demo_prepared_def new_git_def)

lemma demo_halfway:
  obtains m c where "demo_machine 5 = Some m" "write_of 0 m = Some c" "m_writes m = [c]"
    "remaining (wc_await c) = 2" "mrun exact_decimal (\<lambda>x. ''h2'') (drop 5 demo_events) m = demo_machine 7"
proof -
  have "case demo_machine 5 of None \<Rightarrow> False | Some m \<Rightarrow> (case m_writes m of [c] \<Rightarrow> wc_id c = 0 \<and> remaining (wc_await c) = 2 | _ \<Rightarrow> False)"
    by code_simp
  then obtain m c where m: "demo_machine 5 = Some m" "m_writes m = [c]" "wc_id c = 0" "remaining (wc_await c) = 2"
    by (auto split: option.splits list.splits)
  have "demo_machine 7 = Option.bind (demo_machine 5) (mrun exact_decimal (\<lambda>x. ''h2'') (drop 5 demo_events))"
    unfolding demo_machine_def mrun_append [symmetric] by (simp add: demo_events_def)
  then show thesis using that [of m c] m by (simp add: write_of_def)
qed

lemma writes_exclude_each_other_witness:
  "\<exists>m c. demo_machine 5 = Some m \<and> m_writes m = [c] \<and> g_stagingArea (m_git m) = wc_operations c"
proof -
  obtain m c where m: "demo_machine 5 = Some m" "m_writes m = [c]" by (rule demo_halfway)
  from writes_exclude_each_other [OF m(1) [unfolded demo_machine_def] demo_rest] m show ?thesis by auto
qed

lemma demo_end: "case demo_machine 7 of None \<Rightarrow> False | Some m \<Rightarrow> m_writes m = [] \<and> length (g_commits (m_git m)) = 2"
  by code_simp

lemma suspended_write_ends_witness:
  "\<exists>m m'. demo_machine 5 = Some m \<and> write_of 0 m \<noteq> None \<and> demo_machine 7 = Some m' \<and> write_of 0 m' = None"
proof -
  obtain m c where m: "demo_machine 5 = Some m" "write_of 0 m = Some c" "remaining (wc_await c) = 2"
    "mrun exact_decimal (\<lambda>x. ''h2'') (drop 5 demo_events) m = demo_machine 7" by (rule demo_halfway)
  obtain m' where m': "demo_machine 7 = Some m'" using demo_end by (auto split: option.splits)
  have "answers_to 0 (drop 5 demo_events) = 2" by (simp add: demo_events_def answers_to_def)
  with suspended_write_ends [OF m(1) [unfolded demo_machine_def] demo_rest m(2) m(4) [unfolded m']] m m'
  show ?thesis by auto
qed

lemma interleaving_linearizes_witness:
  "\<exists>m calls. demo_machine 7 = Some m \<and> length (g_commits (m_git m)) = 2 \<and>
     m_git m = seq_run exact_decimal (\<lambda>x. ''h2'') calls demo_prepared"
proof -
  obtain m where m: "demo_machine 7 = Some m" "m_writes m = []" "length (g_commits (m_git m)) = 2"
    using demo_end by (auto split: option.splits)
  from interleaving_linearizes [OF m(1) [unfolded demo_machine_def] demo_rest m(2)] m show ?thesis by auto
qed

end
