(* ===== verification/JS_Strings.thy ===== *)
theory JS_Strings
  imports UTA_Prelude
begin

text \<open>
  The string methods of JavaScript that several components use, on ASCII text: \<open>trim\<close>, \<open>startsWith\<close>,
  \<open>includes\<close>, \<open>indexOf\<close> and the order of \<open>localeCompare\<close> on strings of one alphabet.
\<close>

definition is_space :: "char \<Rightarrow> bool" where
  "is_space c \<longleftrightarrow> (let n = (of_char c :: nat) in n = 32 \<or> (9 \<le> n \<and> n \<le> 13))"

definition trim :: "string \<Rightarrow> string" where
  "trim s = rev (dropWhile is_space (rev (dropWhile is_space s)))"

fun starts_with :: "string \<Rightarrow> string \<Rightarrow> bool" where
  "starts_with [] s = True"
| "starts_with (p # ps) [] = False"
| "starts_with (p # ps) (x # xs) = (x = p \<and> starts_with ps xs)"

fun occurs_in :: "string \<Rightarrow> string \<Rightarrow> bool" where
  "occurs_in p [] = (p = [])"
| "occurs_in p (x # xs) = (starts_with p (x # xs) \<or> occurs_in p xs)"

definition ends_with :: "string \<Rightarrow> string \<Rightarrow> bool" where
  "ends_with p s = starts_with (rev p) (rev s)"

lemma trim_eq_Nil: "trim s = [] \<longleftrightarrow> list_all is_space s"
  by (induction s) (auto simp: trim_def list_all_iff)

lemma starts_with_iff: "starts_with p s \<longleftrightarrow> (\<exists>r. s = p @ r)"
  by (induction p s rule: starts_with.induct) auto

lemma starts_with_refl [simp]: "starts_with p p"
  by (simp add: starts_with_iff)

lemma occurs_in_starts: "starts_with p s \<Longrightarrow> occurs_in p s"
  by (cases s) (auto simp: starts_with_iff)

end
