(* ===== verification/Simulate.thy ===== *)
theory Simulate
  imports Git_Log JS_Strings
begin

text \<open>
  The what-if calculation \<open>simulatePriceChange\<close> of \<open>git/TradingGit.ts\<close> with its two helpers.
  \<open>parseFloat\<close> is a parameter: a JavaScript number is a rational here, \<open>None\<close> is \<open>NaN\<close> (an
  infinite result of \<open>parseFloat\<close> is outside the model).
\<close>

section \<open>Price changes\<close>

datatype change_kind = Absolute | Relative

definition parsePriceChange :: "(string \<Rightarrow> rat option) \<Rightarrow> string \<Rightarrow> (change_kind \<times> rat) option" where
  "parsePriceChange parseFloat change =
     (let trimmed = trim change in
      if trimmed \<noteq> [] \<and> hd trimmed = CHR ''@'' then
        (case parseFloat (tl trimmed) of
           None \<Rightarrow> None
         | Some v \<Rightarrow> if v \<le> 0 then None else Some (Absolute, v))
      else if trimmed \<noteq> [] \<and> last trimmed = CHR ''%'' then
        (case parseFloat (butlast trimmed) of None \<Rightarrow> None | Some v \<Rightarrow> Some (Relative, v))
      else None)"

definition applyPriceChange :: "decimal_js \<Rightarrow> dec \<Rightarrow> change_kind \<Rightarrow> rat \<Rightarrow> dec" where
  "applyPriceChange D currentPrice kind v =
     (case kind of
        Absolute \<Rightarrow> Fin v
      | Relative \<Rightarrow> dj_times D currentPrice (dj_plus D (Fin 1) (dj_div D (Fin v) (Fin 100))))"

record price_change_input =
  pc_symbol :: string
  pc_change :: string

definition DERIVATIVE_SECTYPES :: "string list" where
  "DERIVATIVE_SECTYPES = [''OPT'', ''FOP'', ''WAR'', ''IOPT'', ''BAG'']"

text \<open>The note on an excluded row; \<open>pos.contract.strike &&\<close> skips zero.\<close>

definition excluded_note :: "decimal_js \<Rightarrow> string \<Rightarrow> contract \<Rightarrow> string" where
  "excluded_note D symb c = symb @ '' '' @ c_secType c @
     (if c_strike c \<noteq> 0 \<and> c_strike c \<noteq> UNSET_DOUBLE then '' '' @ dj_num_str D (c_strike c) else [])"

text \<open>\<open>pos.contract.symbol || pos.contract.aliceId\<close>.\<close>

definition label_opt :: "contract \<Rightarrow> string option" where
  "label_opt c = (if c_symbol c \<noteq> [] then Some (c_symbol c) else c_aliceId c)"

text \<open>The loop over the rows for one parsed change: row \<open>i\<close> is priced, excluded or skipped.\<close>

type_synonym pricing = "(nat, dec) jsmap \<times> string list"

definition price_row ::
  "decimal_js \<Rightarrow> string \<Rightarrow> change_kind \<times> rat \<Rightarrow> nat \<times> dec position \<Rightarrow> pricing \<Rightarrow> js_error + pricing"
where
  "price_row D symb kv ip acc =
     (case (kv, ip, acc) of ((kind, v), (i, pos), (prices, excl)) \<Rightarrow>
        if symb = ''all'' then
          bindE (new_dec D (p_marketPrice pos)) (\<lambda>mp.
            Inr (jm_set i (applyPriceChange D mp kind v) prices, excl))
        else if label_opt (p_contract pos) \<noteq> Some symb then Inr acc
        else if c_secType (p_contract pos) \<in> set DERIVATIVE_SECTYPES then
          Inr (prices, excl @ [excluded_note D symb (p_contract pos)])
        else bindE (new_dec D (p_marketPrice pos)) (\<lambda>mp.
            Inr (jm_set i (applyPriceChange D mp kind v) prices, excl)))"

text \<open>The loop over the requested changes; \<open>Inr (Inl c)\<close> is the early return on a malformed one.\<close>

fun price_changes ::
  "decimal_js \<Rightarrow> (string \<Rightarrow> rat option) \<Rightarrow> dec position list \<Rightarrow> price_change_input list \<Rightarrow> pricing
    \<Rightarrow> js_error + (price_change_input + pricing)"
where
  "price_changes D pf ps [] acc = Inr (Inr acc)"
| "price_changes D pf ps (pc # pcs) acc =
     (case parsePriceChange pf (pc_change pc) of
        None \<Rightarrow> Inr (Inl pc)
      | Some kv \<Rightarrow> bindE (foldE (price_row D (pc_symbol pc) kv) (List.enumerate 0 ps) acc)
                    (price_changes D pf ps pcs))"

section \<open>Rows\<close>

record sim_current =
  sc_symbol :: string
  sc_side :: side
  sc_qty :: string
  sc_avgCost :: string
  sc_marketPrice :: string
  sc_unrealizedPnL :: string
  sc_marketValue :: string

record sim_after =
  sf_symbol :: string
  sf_side :: side
  sf_qty :: string
  sf_avgCost :: string
  sf_simulatedPrice :: string
  sf_unrealizedPnL :: string
  sf_marketValue :: string
  sf_pnlChange :: string
  sf_priceChangePercent :: string

definition current_row :: "decimal_js \<Rightarrow> dec position \<Rightarrow> sim_current" where
  "current_row D pos =
     \<lparr>sc_symbol = contract_label (p_contract pos) ''unknown'', sc_side = p_side pos,
      sc_qty = dj_to_string D (p_quantity pos), sc_avgCost = p_avgCost pos,
      sc_marketPrice = p_marketPrice pos, sc_unrealizedPnL = p_unrealizedPnL pos,
      sc_marketValue = p_marketValue pos\<rparr>"

definition percent_str :: "decimal_js \<Rightarrow> dec \<Rightarrow> string" where
  "percent_str D x = (if d_gte x (Fin 0) then ''+'' else []) @ dj_to_fixed_dp D 2 x @ ''%''"

definition new_pnl :: "decimal_js \<Rightarrow> side \<Rightarrow> dec \<Rightarrow> dec \<Rightarrow> dec \<Rightarrow> dec \<Rightarrow> dec" where
  "new_pnl D sd simPrice avgCost q mlt =
     (case sd of
        Long \<Rightarrow> dj_times D (dj_times D (dj_minus D simPrice avgCost) q) mlt
      | Short \<Rightarrow> dj_times D (dj_times D (dj_minus D avgCost simPrice) q) mlt)"

text \<open>One turn of the map over the positions: the new PnL and the row.\<close>

definition simulate_row ::
  "decimal_js \<Rightarrow> (nat, dec) jsmap \<Rightarrow> nat \<times> dec position \<Rightarrow> js_error + (dec \<times> sim_after)"
where
  "simulate_row D prices ip =
     (case ip of (i, pos) \<Rightarrow>
        bindE (new_dec D (p_marketPrice pos)) (\<lambda>mktPrice.
        let simPrice = (case jm_get prices i of Some x \<Rightarrow> x | None \<Rightarrow> mktPrice);
            priceChange = dj_minus D simPrice mktPrice;
            pct = (if d_gt mktPrice (Fin 0) then dj_times D (dj_div D priceChange mktPrice) (Fin 100) else Fin 0)
        in bindE (new_dec D (p_avgCost pos)) (\<lambda>avgCost.
           bindE (new_dec D (opt_or (p_multiplier pos) ''1'')) (\<lambda>mlt.
           let pnl = new_pnl D (p_side pos) simPrice avgCost (p_quantity pos) mlt
           in bindE (new_dec D (p_unrealizedPnL pos)) (\<lambda>oldPnl.
              Inr (pnl,
                \<lparr>sf_symbol = contract_label (p_contract pos) ''unknown'', sf_side = p_side pos,
                 sf_qty = dj_to_string D (p_quantity pos), sf_avgCost = p_avgCost pos,
                 sf_simulatedPrice = dj_to_string D simPrice, sf_unrealizedPnL = dj_to_string D pnl,
                 sf_marketValue = dj_to_string D (dj_times D (dj_times D simPrice (p_quantity pos)) mlt),
                 sf_pnlChange = dj_to_string D (dj_minus D pnl oldPnl),
                 sf_priceChangePercent = percent_str D pct\<rparr>))))))"

text \<open>The reduction to the row with the smallest PnL change: its change, symbol and percentage.\<close>

definition worst_step ::
  "decimal_js \<Rightarrow> sim_after \<Rightarrow> dec \<times> sim_after \<Rightarrow> js_error + (dec \<times> sim_after)"
where
  "worst_step D p w =
     bindE (new_dec D (sf_pnlChange p)) (\<lambda>c. Inr (if d_lt c (fst w) then (c, p) else w))"

definition worst_row :: "decimal_js \<Rightarrow> sim_after list \<Rightarrow> js_error + (dec \<times> sim_after)" where
  "worst_row D rows =
     (case rows of [] \<Rightarrow> Inl TypeError | r # _ \<Rightarrow>
        bindE (new_dec D (sf_pnlChange r)) (\<lambda>c. foldE (worst_step D) rows (c, r)))"

section \<open>The simulation\<close>

record 'r sim_state =
  ss_equity :: string
  ss_unrealizedPnL :: string
  ss_totalPnL :: string
  ss_positions :: "'r list"

record sim_summary =
  su_totalPnLChange :: string
  su_equityChange :: string
  su_equityChangePercent :: string
  su_worstCase :: string

record sim_result =
  si_success :: bool
  si_error :: "string option"
  si_currentState :: "sim_current sim_state"
  si_simulatedState :: "sim_after sim_state"
  si_summary :: sim_summary

definition total_pnl :: "decimal_js \<Rightarrow> dec \<Rightarrow> dec \<Rightarrow> dec" where
  "total_pnl D cash equity =
     (if d_gt cash (Fin 0) then dj_times D (dj_div D (dj_minus D equity cash) cash) (Fin 100) else Fin 0)"

definition sim_state_of :: "decimal_js \<Rightarrow> dec \<Rightarrow> dec \<Rightarrow> dec \<Rightarrow> 'r list \<Rightarrow> 'r sim_state" where
  "sim_state_of D equity pnl ttl rows =
     \<lparr>ss_equity = dj_to_string D equity, ss_unrealizedPnL = dj_to_string D pnl,
      ss_totalPnL = dj_to_string D ttl, ss_positions = rows\<rparr>"

definition unchanged_result ::
  "decimal_js \<Rightarrow> dec \<Rightarrow> dec \<Rightarrow> dec \<Rightarrow> bool \<Rightarrow> string option \<Rightarrow> string \<Rightarrow> sim_result"
where
  "unchanged_result D equity pnl ttl ok err worst =
     \<lparr>si_success = ok, si_error = err,
      si_currentState = sim_state_of D equity pnl ttl [],
      si_simulatedState = sim_state_of D equity pnl ttl [],
      si_summary = \<lparr>su_totalPnLChange = ''0'', su_equityChange = ''0'',
        su_equityChangePercent = ''0.0%'', su_worstCase = worst\<rparr>\<rparr>"

definition invalid_change_message :: "price_change_input \<Rightarrow> string" where
  "invalid_change_message pc =
     ''Invalid change format for '' @ pc_symbol pc @ '': '' @ [CHR 0x22] @ pc_change pc @ [CHR 0x22] @
     ''. Use '' @ [CHR 0x22] @ ''@150'' @ [CHR 0x22] @ '' for absolute or '' @ [CHR 0x22] @ ''+10%'' @
     [CHR 0x22] @ '' / '' @ [CHR 0x22] @ ''-5%'' @ [CHR 0x22] @ '' for relative.''"

definition excluded_str :: "string list \<Rightarrow> string" where
  "excluded_str excl = (if excl = [] then []
     else '' NOTE: derivative positions not simulated (their price does not track the underlying 1:1): '' @
          join '', '' excl @ ''.'')"

definition worst_str :: "decimal_js \<Rightarrow> dec \<times> sim_after \<Rightarrow> string" where
  "worst_str D w =
     (if d_lt (fst w) (Fin 0) then sf_symbol (snd w) @ '' would lose $'' @
        dj_to_fixed_dp D 2 (d_abs (fst w)) @ '' ('' @ sf_priceChangePercent (snd w) @ '')''
      else ''All positions would profit or break even.'')"

text \<open>The numbers after the price changes are known.\<close>

definition simulated_result ::
  "decimal_js \<Rightarrow> dec \<Rightarrow> dec \<Rightarrow> dec \<Rightarrow> dec position list \<Rightarrow> pricing \<Rightarrow> js_error + sim_result"
where
  "simulated_result D equity pnl cash ps pr =
     bindE (mapE (simulate_row D (fst pr)) (List.enumerate 0 ps)) (\<lambda>rows.
     let simPnl = foldl (dj_plus D) (Fin 0) (map fst rows);
         pnlDiff = dj_minus D simPnl pnl;
         simEquity = dj_plus D equity pnlDiff;
         equityPct = (if d_gt equity (Fin 0) then dj_times D (dj_div D pnlDiff equity) (Fin 100) else Fin 0)
     in bindE (worst_row D (map snd rows)) (\<lambda>w.
        Inr \<lparr>si_success = True, si_error = None,
             si_currentState = sim_state_of D equity pnl (total_pnl D cash equity) (map (current_row D) ps),
             si_simulatedState = sim_state_of D simEquity simPnl (total_pnl D cash simEquity) (map snd rows),
             si_summary = \<lparr>su_totalPnLChange = dj_to_string D pnlDiff, su_equityChange = dj_to_string D pnlDiff,
               su_equityChangePercent = percent_str D equityPct,
               su_worstCase = worst_str D w @ excluded_str (snd pr)\<rparr>\<rparr>))"

definition simulate_on ::
  "decimal_js \<Rightarrow> (string \<Rightarrow> rat option) \<Rightarrow> price_change_input list \<Rightarrow> dec git_state \<Rightarrow> js_error + sim_result"
where
  "simulate_on D pf pcs st =
     bindE (new_dec D (gs_netLiquidation st)) (\<lambda>equity.
     bindE (new_dec D (gs_unrealizedPnL st)) (\<lambda>pnl.
     bindE (new_dec D (gs_totalCashValue st)) (\<lambda>cash.
     let ttl = total_pnl D cash equity in
     if gs_positions st = [] then
       Inr (unchanged_result D equity pnl ttl True None ''No positions to simulate.'')
     else bindE (price_changes D pf (gs_positions st) pcs ([], [])) (\<lambda>r.
       case r of
         Inl pc \<Rightarrow> Inr (unchanged_result D equity pnl ttl False (Some (invalid_change_message pc)) [])
       | Inr pr \<Rightarrow> simulated_result D equity pnl cash (gs_positions st) pr))))"

definition simulatePriceChange ::
  "decimal_js \<Rightarrow> (string \<Rightarrow> rat option) \<Rightarrow> 'w git_config \<Rightarrow> price_change_input list \<Rightarrow> trading_git \<Rightarrow> 'w
    \<Rightarrow> (js_error + sim_result) \<times> 'w"
where
  "simulatePriceChange D pf cfg pcs g w =
     (case getGitState cfg g w of
        (Inl e, w1) \<Rightarrow> (Inl e, w1)
      | (Inr st, w1) \<Rightarrow> (simulate_on D pf pcs st, w1))"

section \<open>Which rows a request prices\<close>

definition applies_to :: "price_change_input \<Rightarrow> dec position \<Rightarrow> bool" where
  "applies_to pc pos \<longleftrightarrow> pc_symbol pc = ''all'' \<or>
     label_opt (p_contract pos) = Some (pc_symbol pc) \<and>
     c_secType (p_contract pos) \<notin> set DERIVATIVE_SECTYPES"

text \<open>The target price of a row: the last change of the request that applies to it.\<close>

definition row_target ::
  "decimal_js \<Rightarrow> (string \<Rightarrow> rat option) \<Rightarrow> price_change_input list \<Rightarrow> dec position \<Rightarrow> dec option"
where
  "row_target D pf pcs pos =
     (case find (\<lambda>pc. applies_to pc pos) (rev pcs) of
        None \<Rightarrow> None
      | Some pc \<Rightarrow> (case (parsePriceChange pf (pc_change pc), dj_parse D (p_marketPrice pos)) of
           (Some (k, v), Some mp) \<Rightarrow> Some (applyPriceChange D mp k v)
         | _ \<Rightarrow> None))"

lemma price_row_get:
  assumes "price_row D (pc_symbol pc) (k, v) (i, pos) (prices, excl) = Inr (prices', excl')"
  shows "jm_get prices' j = (if j = i \<and> applies_to pc pos
     then map_option (\<lambda>mp. applyPriceChange D mp k v) (dj_parse D (p_marketPrice pos))
     else jm_get prices j)"
  using assms
  by (auto simp: price_row_def applies_to_def bindE_eq_Inr jm.lookup_set
      split: if_splits)

lemma price_rows_get:
  assumes "foldE (price_row D (pc_symbol pc) (k, v)) (List.enumerate n ps) (prices, excl) = Inr (prices', excl')"
  shows "jm_get prices' j = (if n \<le> j \<and> j < n + length ps \<and> applies_to pc (ps ! (j - n))
     then map_option (\<lambda>mp. applyPriceChange D mp k v) (dj_parse D (p_marketPrice (ps ! (j - n))))
     else jm_get prices j)"
  using assms
proof (induction ps arbitrary: n prices excl)
  case Nil
  then show ?case by auto
next
  case (Cons p ps)
  from Cons.prems obtain pr1 ex1 where
    1: "price_row D (pc_symbol pc) (k, v) (n, p) (prices, excl) = Inr (pr1, ex1)" and
    2: "foldE (price_row D (pc_symbol pc) (k, v)) (List.enumerate (Suc n) ps) (pr1, ex1) = Inr (prices', excl')"
    by (auto simp: bindE_eq_Inr)
  show ?case
  proof (cases "j = n")
    case True
    then show ?thesis using Cons.IH [OF 2] price_row_get [OF 1, of j] by simp
  next
    case False
    have nth: "n < j \<Longrightarrow> (p # ps) ! (j - n) = ps ! (j - Suc n)"
      by (simp add: nth_Cons')
    show ?thesis using False Cons.IH [OF 2] price_row_get [OF 1, of j] nth
      by (auto simp: Suc_le_eq)
  qed
qed

lemma price_changes_get:
  assumes "price_changes D pf ps pcs (prices, excl) = Inr (Inr (prices', excl'))" "j < length ps"
  shows "jm_get prices' j = (case row_target D pf pcs (ps ! j) of
     Some x \<Rightarrow> Some x
   | None \<Rightarrow> if find (\<lambda>pc. applies_to pc (ps ! j)) pcs = None then jm_get prices j else None)"
  using assms
proof (induction pcs arbitrary: prices excl)
  case Nil
  then show ?case by (simp add: row_target_def)
next
  case (Cons pc pcs)
  from Cons.prems obtain k v pr1 ex1 where kv: "parsePriceChange pf (pc_change pc) = Some (k, v)" and
    1: "foldE (price_row D (pc_symbol pc) (k, v)) (List.enumerate 0 ps) (prices, excl) = Inr (pr1, ex1)" and
    2: "price_changes D pf ps pcs (pr1, ex1) = Inr (Inr (prices', excl'))"
    by (auto simp: bindE_eq_Inr split: option.splits)
  have g: "jm_get pr1 j = (if applies_to pc (ps ! j)
     then map_option (\<lambda>mp. applyPriceChange D mp k v) (dj_parse D (p_marketPrice (ps ! j)))
     else jm_get prices j)"
    using price_rows_get [OF 1, of j] Cons.prems(2) by simp
  have IH: "jm_get prices' j = (case row_target D pf pcs (ps ! j) of
     Some x \<Rightarrow> Some x
   | None \<Rightarrow> if find (\<lambda>pc. applies_to pc (ps ! j)) pcs = None then jm_get pr1 j else None)"
    using Cons.IH [OF 2 Cons.prems(2)] .
  show ?case
  proof (cases "find (\<lambda>pc. applies_to pc (ps ! j)) (rev pcs)")
    case (Some pc')
    then have rt: "row_target D pf (pc # pcs) (ps ! j) = row_target D pf pcs (ps ! j)"
      by (simp add: row_target_def find_append)
    have "find (\<lambda>pc. applies_to pc (ps ! j)) pcs \<noteq> None"
      using Some find_None_rev [of "\<lambda>pc. applies_to pc (ps ! j)" pcs] by auto
    then show ?thesis using IH rt by (auto split: option.splits)
  next
    case None
    then have rt: "row_target D pf pcs (ps ! j) = None"
      by (simp add: row_target_def)
    have none: "find (\<lambda>pc. applies_to pc (ps ! j)) pcs = None"
      using None unfolding find_None_iff by simp
    have "row_target D pf (pc # pcs) (ps ! j) = (if applies_to pc (ps ! j)
        then map_option (\<lambda>mp. applyPriceChange D mp k v) (dj_parse D (p_marketPrice (ps ! j))) else None)"
      using None kv by (auto simp: row_target_def find_append split: option.splits)
    then show ?thesis using IH rt none g by (auto split: option.splits)
  qed
qed

lemma simulate_row_price:
  "simulate_row D prices (i, pos) = Inr (x, row) \<Longrightarrow>
   \<exists>mp. dj_parse D (p_marketPrice pos) = Some mp \<and>
     sf_simulatedPrice row = dj_to_string D (case jm_get prices i of Some x \<Rightarrow> x | None \<Rightarrow> mp)"
  by (auto simp: simulate_row_def bindE_eq_Inr Let_def)

text \<open>In a successful simulation every row is marked at the last change of the request that
  applies to it (its own label or \<open>all\<close>), and at its market price when none applies; a derivative
  row is never re-marked by a change addressed to its underlying's symbol.\<close>

theorem simulated_price_of_row:
  assumes "simulate_on D pf pcs st = Inr res" and "si_success res" and "i < length (gs_positions st)"
  shows "\<exists>mp. dj_parse D (p_marketPrice (gs_positions st ! i)) = Some mp \<and>
    sf_simulatedPrice (ss_positions (si_simulatedState res) ! i) =
      dj_to_string D (case row_target D pf pcs (gs_positions st ! i) of Some x \<Rightarrow> x | None \<Rightarrow> mp)"
proof -
  let ?ps = "gs_positions st"
  have ne: "?ps \<noteq> []" using assms(3) by auto
  from assms(1) ne obtain equity pnl cash r where
    0: "price_changes D pf ?ps pcs ([], []) = Inr r" and
    r: "(case r of Inl pc \<Rightarrow> Inr (unchanged_result D equity pnl (total_pnl D cash equity) False
          (Some (invalid_change_message pc)) [])
        | Inr pr \<Rightarrow> simulated_result D equity pnl cash ?ps pr) = Inr res"
    by (auto simp: simulate_on_def bindE_eq_Inr Let_def)
  from r assms(2) obtain pr where pr: "r = Inr pr" and
    2: "simulated_result D equity pnl cash ?ps pr = Inr res"
    by (cases r) (auto simp: unchanged_result_def)
  have 1: "price_changes D pf ?ps pcs ([], []) = Inr (Inr pr)" using 0 pr by simp
  from 2 obtain rows where rows: "mapE (simulate_row D (fst pr)) (List.enumerate 0 ?ps) = Inr rows"
    and pos: "ss_positions (si_simulatedState res) = map snd rows"
    by (auto simp: simulated_result_def bindE_eq_Inr Let_def sim_state_of_def)
  have len: "length rows = length ?ps" using mapE_Inr_length [OF rows] by simp
  have "simulate_row D (fst pr) (i, ?ps ! i) = Inr (rows ! i)"
    using mapE_Inr_nth [OF rows, of i] assms(3) by (simp add: nth_enumerate_eq)
  then obtain mp where mp: "dj_parse D (p_marketPrice (?ps ! i)) = Some mp" and
    sf: "sf_simulatedPrice (snd (rows ! i)) =
      dj_to_string D (case jm_get (fst pr) i of Some x \<Rightarrow> x | None \<Rightarrow> mp)"
    using simulate_row_price [of D "fst pr" i "?ps ! i" "fst (rows ! i)" "snd (rows ! i)"] by auto
  have "price_changes D pf ?ps pcs ([], []) = Inr (Inr (fst pr, snd pr))" using 1 by simp
  from price_changes_get [OF this assms(3)]
  have "jm_get (fst pr) i = row_target D pf pcs (?ps ! i)"
    by (cases "row_target D pf pcs (?ps ! i)") (simp_all split: if_splits)
  then show ?thesis using mp sf pos len assms(3) by simp
qed

lemma worst_fold:
  assumes "foldE (worst_step D) rows (c0, r0) = Inr (c, r)" and "dj_parse D (sf_pnlChange r0) = Some c0"
  shows "(r = r0 \<or> r \<in> set rows) \<and> dj_parse D (sf_pnlChange r) = Some c \<and> (c = c0 \<or> d_lt c c0) \<and>
    (\<forall>x \<in> set rows. \<exists>d. dj_parse D (sf_pnlChange x) = Some d \<and> \<not> d_lt d c)"
  using assms
proof (induction rows arbitrary: c0 r0)
  case Nil
  then show ?case by simp
next
  case (Cons x rows)
  from Cons.prems(1) obtain s1 where s1: "worst_step D x (c0, r0) = Inr s1" and
    f1: "foldE (worst_step D) rows s1 = Inr (c, r)"
    by (auto simp: bindE_eq_Inr)
  from s1 obtain d where d: "dj_parse D (sf_pnlChange x) = Some d" and
    s1': "s1 = (if d_lt d c0 then (d, x) else (c0, r0))"
    by (auto simp: worst_step_def bindE_eq_Inr)
  have f: "foldE (worst_step D) rows (if d_lt d c0 then (d, x) else (c0, r0)) = Inr (c, r)"
    using f1 unfolding s1' .
  show ?case
  proof (cases "d_lt d c0")
    case True
    with f d have IH: "(r = x \<or> r \<in> set rows) \<and> dj_parse D (sf_pnlChange r) = Some c \<and> (c = d \<or> d_lt c d) \<and>
      (\<forall>x \<in> set rows. \<exists>d. dj_parse D (sf_pnlChange x) = Some d \<and> \<not> d_lt d c)"
      using Cons.IH [of d x] by simp
    have "d_lt c c0" using IH True d_lt_trans by blast
    moreover have "\<not> d_lt d c" using IH d_lt_trans [of d c d] by auto
    ultimately show ?thesis using IH d by auto
  next
    case False
    with f have IH: "(r = r0 \<or> r \<in> set rows) \<and> dj_parse D (sf_pnlChange r) = Some c \<and> (c = c0 \<or> d_lt c c0) \<and>
      (\<forall>x \<in> set rows. \<exists>d. dj_parse D (sf_pnlChange x) = Some d \<and> \<not> d_lt d c)"
      using Cons.IH [of c0 r0] Cons.prems(2) by simp
    have "\<not> d_lt d c" using IH False d_lt_trans [of d c c0] by auto
    then show ?thesis using IH d by auto
  qed
qed

text \<open>The row reported as the worst case is one of the simulated rows, and no row has a
  smaller PnL change.\<close>

theorem worst_row_minimal:
  assumes "worst_row D rows = Inr (c, r)"
  shows "r \<in> set rows \<and> dj_parse D (sf_pnlChange r) = Some c \<and>
    (\<forall>x \<in> set rows. \<exists>d. dj_parse D (sf_pnlChange x) = Some d \<and> \<not> d_lt d c)"
proof -
  from assms obtain r0 rs c0 where rows: "rows = r0 # rs" and c0: "dj_parse D (sf_pnlChange r0) = Some c0"
    and f: "foldE (worst_step D) rows (c0, r0) = Inr (c, r)"
    by (auto simp: worst_row_def bindE_eq_Inr split: list.splits)
  show ?thesis using worst_fold [OF f c0] rows by auto
qed

section \<open>Witnesses\<close>

definition demo_position :: "string \<Rightarrow> string \<Rightarrow> dec position" where
  "demo_position st price = \<lparr>p_contract = new_contract\<lparr>c_symbol := ''AAPL'', c_secType := st, c_strike := 0\<rparr>,
     p_currency = ''USD'', p_side = Long, p_quantity = Fin 2, p_avgCost = ''90'', p_marketPrice = price,
     p_marketValue = ''0'', p_unrealizedPnL = ''20'', p_realizedPnL = ''0'', p_multiplier = Some ''1'',
     p_avgCostSource = None, p_risk = None\<rparr>"

definition demo_book :: "dec git_state" where
  "demo_book = demo_state\<lparr>gs_positions := [demo_position ''STK'' ''100'', demo_position ''OPT'' ''5'']\<rparr>"

definition demo_change :: price_change_input where
  "demo_change = \<lparr>pc_symbol = ''AAPL'', pc_change = ''@110''\<rparr>"

definition demo_sim :: "js_error + sim_result" where
  "demo_sim = simulate_on exact_decimal (\<lambda>_. Some 110) [demo_change] demo_book"

lemma demo_sim_ok: "(case demo_sim of Inr r \<Rightarrow> si_success r | _ \<Rightarrow> False)"
  by code_simp

lemma simulated_price_of_row_witness:
  "\<exists>res. demo_sim = Inr res \<and>
     sf_simulatedPrice (ss_positions (si_simulatedState res) ! 0) = ''110'' \<and>
     sf_simulatedPrice (ss_positions (si_simulatedState res) ! 1) = ''5''"
proof -
  obtain res where res: "demo_sim = Inr res" "si_success res"
    using demo_sim_ok by (auto split: sum.splits)
  have t: "row_target exact_decimal (\<lambda>_. Some 110) [demo_change] (gs_positions demo_book ! 0) = Some (Fin 110)"
    "row_target exact_decimal (\<lambda>_. Some 110) [demo_change] (gs_positions demo_book ! 1) = None"
    "dj_parse exact_decimal (p_marketPrice (gs_positions demo_book ! 1)) = Some (Fin 5)"
    "dj_to_string exact_decimal (Fin 110) = ''110''" "dj_to_string exact_decimal (Fin 5) = ''5''"
    by code_simp+
  have n: "0 < length (gs_positions demo_book)" "1 < length (gs_positions demo_book)"
    by (simp_all add: demo_book_def)
  show ?thesis
    using simulated_price_of_row [OF res(1) [unfolded demo_sim_def] res(2) n(1)]
      simulated_price_of_row [OF res(1) [unfolded demo_sim_def] res(2) n(2)] res(1) t by auto
qed

definition demo_row :: "string \<Rightarrow> sim_after" where
  "demo_row change = \<lparr>sf_symbol = change, sf_side = Long, sf_qty = ''1'', sf_avgCost = ''1'',
     sf_simulatedPrice = ''1'', sf_unrealizedPnL = ''1'', sf_marketValue = ''1'', sf_pnlChange = change,
     sf_priceChangePercent = ''0''\<rparr>"

lemma worst_row_minimal_witness:
  "\<exists>c r. worst_row exact_decimal [demo_row ''2'', demo_row ''-7'', demo_row ''1''] = Inr (c, r) \<and>
     r \<in> set [demo_row ''2'', demo_row ''-7'', demo_row ''1''] \<and> c = Fin (- 7)"
proof -
  have "worst_row exact_decimal [demo_row ''2'', demo_row ''-7'', demo_row ''1''] = Inr (Fin (- 7), demo_row ''-7'')"
    by code_simp
  from worst_row_minimal [OF this] this show ?thesis by blast
qed

end
