(* ===== verification/Position_Math.thy ===== *)
theory Position_Math
  imports Git_Types Decimal_Instance "HOL-Library.Multiset"
begin

text \<open>
  \<open>position-math.ts\<close>: the one implementation of market value, unrealized PnL and account
  aggregation.  An input is a \<open>Decimal\<close>, a string, a finite number or absent.
\<close>

datatype num_in = NDec dec | NStr string | NNum rat | NUndefined

fun toDecimal :: "decimal_js \<Rightarrow> num_in \<Rightarrow> js_error + dec" where
  "toDecimal D (NDec d) = Inr d"
| "toDecimal D (NStr s) = (if s = [] then Inr (Fin 0) else new_dec D s)"
| "toDecimal D (NNum r) = Inr (Fin r)"
| "toDecimal D NUndefined = Inr (Fin 0)"

definition multiplierToDecimal :: "decimal_js \<Rightarrow> string option \<Rightarrow> js_error + dec" where
  "multiplierToDecimal D m =
     (if \<not> truthy m then Inr (Fin 1)
      else bindE (new_dec D (the m)) (\<lambda>d. Inr (if d_isZero d then Fin 1 else d)))"

record position_math_input =
  pm_quantity :: num_in
  pm_marketPrice :: num_in
  pm_avgCost :: num_in
  pm_multiplier :: "string option"
  pm_side :: side

definition side_sign :: "side \<Rightarrow> dec" where
  "side_sign s = (case s of Long \<Rightarrow> Fin 1 | Short \<Rightarrow> Fin (- 1))"

definition pnl_dec :: "decimal_js \<Rightarrow> dec \<Rightarrow> dec \<Rightarrow> dec \<Rightarrow> dec \<Rightarrow> side \<Rightarrow> dec" where
  "pnl_dec D qty mark avg mlt sd =
     dj_times D (dj_times D (dj_times D qty (dj_minus D mark avg)) mlt) (side_sign sd)"

text \<open>Market value and unrealized PnL, printed.\<close>

definition derivePositionMath :: "decimal_js \<Rightarrow> position_math_input \<Rightarrow> js_error + string \<times> string" where
  "derivePositionMath D x =
     bindE (toDecimal D (pm_quantity x)) (\<lambda>qty.
     bindE (toDecimal D (pm_marketPrice x)) (\<lambda>mark.
     bindE (toDecimal D (pm_avgCost x)) (\<lambda>avg.
     bindE (multiplierToDecimal D (pm_multiplier x)) (\<lambda>mlt.
     Inr (dj_to_string D (dj_times D (dj_times D qty mark) mlt),
          dj_to_string D (pnl_dec D qty mark avg mlt (pm_side x)))))))"

definition pnlOf :: "decimal_js \<Rightarrow> position_math_input \<Rightarrow> js_error + string" where
  "pnlOf D x =
     bindE (toDecimal D (pm_quantity x)) (\<lambda>qty.
     bindE (toDecimal D (pm_marketPrice x)) (\<lambda>mark.
     bindE (toDecimal D (pm_avgCost x)) (\<lambda>avg.
     bindE (multiplierToDecimal D (pm_multiplier x)) (\<lambda>mlt.
     Inr (dj_to_string D (pnl_dec D qty mark avg mlt (pm_side x)))))))"

section \<open>Account aggregation\<close>

type_synonym aggregate_input = "side \<times> num_in"

definition signed_value :: "decimal_js \<Rightarrow> aggregate_input \<Rightarrow> js_error + dec" where
  "signed_value D p = bindE (toDecimal D (snd p)) (\<lambda>mv. Inr (if fst p = Short then d_neg mv else mv))"

fun total_market_value :: "decimal_js \<Rightarrow> aggregate_input list \<Rightarrow> dec \<Rightarrow> js_error + dec" where
  "total_market_value D [] acc = Inr acc"
| "total_market_value D (p # ps) acc =
     bindE (signed_value D p) (\<lambda>v. total_market_value D ps (dj_plus D acc v))"

text \<open>Net liquidation and total market value.\<close>

definition aggregateAccountFromPositions ::
  "decimal_js \<Rightarrow> num_in \<Rightarrow> aggregate_input list \<Rightarrow> js_error + dec \<times> dec"
where
  "aggregateAccountFromPositions D cash ps =
     bindE (toDecimal D cash) (\<lambda>c.
     bindE (total_market_value D ps (Fin 0)) (\<lambda>t. Inr (dj_plus D c t, t)))"

section \<open>Properties\<close>

text \<open>The number an input denotes, when it denotes one.\<close>

definition num_val :: "decimal_js \<Rightarrow> num_in \<Rightarrow> rat option" where
  "num_val D x = (case toDecimal D x of Inr (Fin r) \<Rightarrow> Some r | _ \<Rightarrow> None)"

lemma num_val_Some: "num_val D x = Some r \<longleftrightarrow> toDecimal D x = Inr (Fin r)"
  by (auto simp: num_val_def split: sum.splits dec.splits)

definition mult_val :: "decimal_js \<Rightarrow> string option \<Rightarrow> rat option" where
  "mult_val D m = (case multiplierToDecimal D m of Inr (Fin r) \<Rightarrow> Some r | _ \<Rightarrow> None)"

lemma mult_val_Some: "mult_val D m = Some r \<longleftrightarrow> multiplierToDecimal D m = Inr (Fin r)"
  by (auto simp: mult_val_def split: sum.splits dec.splits)

definition sign_of :: "side \<Rightarrow> rat" where
  "sign_of s = (case s of Long \<Rightarrow> 1 | Short \<Rightarrow> - 1)"

lemma side_sign_Fin [simp]: "side_sign s = Fin (sign_of s)"
  by (simp add: side_sign_def sign_of_def split: side.splits)

text \<open>With exact arithmetic the derived numbers are the documented formulas, quantity times
  price times multiplier, and quantity times (price minus cost) times multiplier times the sign of
  the side; the PnL-only helper returns the same PnL.\<close>

theorem position_math_formulas:
  assumes "decimal_exact D rnd" and "num_val D (pm_quantity x) = Some q"
    and "num_val D (pm_marketPrice x) = Some p" and "num_val D (pm_avgCost x) = Some a"
    and "mult_val D (pm_multiplier x) = Some k"
  shows "derivePositionMath D x = Inr (dj_to_string D (Fin (q * p * k)),
      dj_to_string D (Fin (q * (p - a) * k * sign_of (pm_side x)))) \<and>
    pnlOf D x = Inr (dj_to_string D (Fin (q * (p - a) * k * sign_of (pm_side x))))"
  using assms(2-) decimal_exact.exact_arith [OF assms(1)]
  by (simp add: derivePositionMath_def pnlOf_def pnl_dec_def num_val_Some mult_val_Some)

text \<open>An absent, empty or zero multiplier counts as one, so no position is valued at zero for
  the lack of a multiplier.\<close>

theorem multiplier_default:
  "multiplierToDecimal D m = Inr d \<Longrightarrow> \<not> d_isZero d"
  by (auto simp: multiplierToDecimal_def bindE_eq_Inr split: if_splits)

definition signed_val :: "decimal_js \<Rightarrow> aggregate_input \<Rightarrow> rat option" where
  "signed_val D p = map_option (\<lambda>r. if fst p = Short then - r else r) (num_val D (snd p))"

lemma total_market_value_exact:
  assumes "decimal_exact D rnd" and "\<forall>p \<in> set ps. signed_val D p = Some (f p)"
  shows "total_market_value D ps (Fin t) = Inr (Fin (t + sum_list (map f ps)))"
  using assms(2)
proof (induction ps arbitrary: t)
  case Nil
  then show ?case by simp
next
  case (Cons p ps)
  then have "signed_value D p = Inr (Fin (f p))"
    by (auto simp: signed_value_def signed_val_def num_val_Some)
  then show ?case using Cons decimal_exact.exact_arith(1) [OF assms(1)] by (simp add: add.assoc)
qed

text \<open>With exact arithmetic the account's equity is the cash plus the market values of the long
  positions minus those of the short ones, whatever the order of the positions.\<close>

theorem aggregate_signed_sum:
  assumes "decimal_exact D rnd" and "num_val D cash = Some c"
    and "\<forall>p \<in> set ps. signed_val D p = Some (f p)" and "mset qs = mset ps"
  shows "aggregateAccountFromPositions D cash ps = Inr (Fin (c + sum_list (map f ps)), Fin (sum_list (map f ps)))
    \<and> aggregateAccountFromPositions D cash qs = aggregateAccountFromPositions D cash ps"
proof -
  have qs: "\<forall>p \<in> set qs. signed_val D p = Some (f p)"
    using assms(3) mset_eq_setD [OF assms(4)] by simp
  have s: "sum_list (map f qs) = sum_list (map f ps)"
    using assms(4) by (metis mset_map sum_mset_sum_list)
  show ?thesis
    using total_market_value_exact [OF assms(1,3), of 0] total_market_value_exact [OF assms(1) qs, of 0]
      assms(2) decimal_exact.exact_arith(1) [OF assms(1)] s
    by (simp add: aggregateAccountFromPositions_def num_val_Some)
qed

section \<open>Witnesses\<close>

lemma position_math_formulas_witness:
  "derivePositionMath exact_decimal \<lparr>pm_quantity = NStr ''2'', pm_marketPrice = NNum 3, pm_avgCost = NNum 1,
     pm_multiplier = Some ''100'', pm_side = Short\<rparr> = Inr (''600'', ''-400'')"
proof -
  let ?x = "\<lparr>pm_quantity = NStr ''2'', pm_marketPrice = NNum 3, pm_avgCost = NNum 1,
     pm_multiplier = Some ''100'', pm_side = Short\<rparr>"
  have "num_val exact_decimal (pm_quantity ?x) = Some 2" "num_val exact_decimal (pm_marketPrice ?x) = Some 3"
    "num_val exact_decimal (pm_avgCost ?x) = Some 1" "mult_val exact_decimal (pm_multiplier ?x) = Some 100"
    by code_simp+
  from position_math_formulas [OF ex.decimal_exact_axioms this]
  have "derivePositionMath exact_decimal ?x = Inr (dj_to_string exact_decimal (Fin (2 * 3 * 100)),
      dj_to_string exact_decimal (Fin (2 * (3 - 1) * 100 * sign_of Short)))" by simp
  moreover have "dj_to_string exact_decimal (Fin (2 * 3 * 100)) = ''600''"
    "dj_to_string exact_decimal (Fin (2 * (3 - 1) * 100 * sign_of Short)) = ''-400''"
    by code_simp+
  ultimately show ?thesis by simp
qed

lemma multiplier_default_witness:
  "multiplierToDecimal exact_decimal (Some ''0'') = Inr (Fin 1) \<and> \<not> d_isZero (Fin 1)"
proof -
  have m: "multiplierToDecimal exact_decimal (Some ''0'') = Inr (Fin 1)" by code_simp
  show ?thesis using multiplier_default [OF m] m by blast
qed

lemma aggregate_signed_sum_witness:
  "aggregateAccountFromPositions exact_decimal (NNum 100) [(Short, NNum 30), (Long, NNum 50)]
   = Inr (Fin 120, Fin 20)"
proof -
  have "num_val exact_decimal (NNum 100) = Some 100"
    "\<forall>p \<in> set [(Short, NNum 30), (Long, NNum 50)]. signed_val exact_decimal p
       = Some (if fst p = Short then - 30 else 50)"
    by (simp_all add: num_val_def signed_val_def)
  from aggregate_signed_sum [OF ex.decimal_exact_axioms this refl] show ?thesis by simp
qed

end
