(* ===== verification/Cost_Basis.thy ===== *)
theory Cost_Basis
  imports Git_Log Position_Math
begin

text \<open>
  \<open>cost-basis.ts\<close>: the weighted average cost of one instrument, replayed from the commit log.
  The first pass attributes order ids to the operation that introduced them, the second applies the
  fills in order; a sync commit holds one operation and one result per order.
\<close>

datatype direction = Buy | Sell

definition matchesAliceId :: "operation \<Rightarrow> string \<Rightarrow> bool" where
  "matchesAliceId op aliceId = (case op of
      PlaceOrder c _ _ \<Rightarrow> c_aliceId c = Some aliceId
    | ClosePosition c _ \<Rightarrow> c_aliceId c = Some aliceId
    | ObserveExternalOrder c _ \<Rightarrow> c_aliceId c = Some aliceId
    | ReconcileBalance a _ _ \<Rightarrow> a = aliceId
    | _ \<Rightarrow> False)"

definition order_direction :: "order \<Rightarrow> direction" where
  "order_direction od =
     (if to_upper (case o_action od of None \<Rightarrow> '''' | Some a \<Rightarrow> a) = ''SELL'' then Sell else Buy)"

fun fillDirection :: "decimal_js \<Rightarrow> operation \<Rightarrow> js_error + direction" where
  "fillDirection D (PlaceOrder c od t) = Inr (order_direction od)"
| "fillDirection D (ObserveExternalOrder c od) = Inr (order_direction od)"
| "fillDirection D (ClosePosition c q) = Inr Sell"
| "fillDirection D (ReconcileBalance a qd mp) =
     bindE (new_dec D qd) (\<lambda>d. Inr (if d_gte d (Fin 0) then Buy else Sell))"
| "fillDirection D op = Inr Buy"

text \<open>The first pass.\<close>

type_synonym order_meta = "(string, bool \<times> direction) jsmap"

definition introduces_order :: "operation \<Rightarrow> bool" where
  "introduces_order op = (case op of
      PlaceOrder _ _ _ \<Rightarrow> True | ClosePosition _ _ \<Rightarrow> True | ObserveExternalOrder _ _ \<Rightarrow> True | _ \<Rightarrow> False)"

text \<open>The operations of a commit, each with its result when there is one at its position.\<close>

definition op_results :: "'q git_commit \<Rightarrow> (operation \<times> op_result option) list" where
  "op_results c = map (\<lambda>(i, op). (op, elem_at (gc_results c) i)) (List.enumerate 0 (gc_operations c))"

definition meta_step ::
  "decimal_js \<Rightarrow> string \<Rightarrow> operation \<times> op_result option \<Rightarrow> order_meta \<Rightarrow> js_error + order_meta"
where
  "meta_step D aliceId x m =
     (case x of (op, res) \<Rightarrow>
        if \<not> introduces_order op \<or> \<not> truthy (Option.bind res r_orderId) then Inr m
        else bindE (fillDirection D op) (\<lambda>dir.
          Inr (jm_set (the (Option.bind res r_orderId)) (matchesAliceId op aliceId, dir) m)))"

definition order_metas :: "decimal_js \<Rightarrow> string \<Rightarrow> 'q git_commit list \<Rightarrow> js_error + order_meta" where
  "order_metas D aliceId cs = foldE (meta_step D aliceId) (concat (map op_results cs)) []"

text \<open>The second pass.\<close>

record cost_state =
  cb_avg :: dec
  cb_qty :: dec
  cb_fillCount :: nat
  cb_counted :: "string list"

definition cost_init :: cost_state where
  "cost_init = \<lparr>cb_avg = Fin 0, cb_qty = Fin 0, cb_fillCount = 0, cb_counted = []\<rparr>"

definition applyFill :: "decimal_js \<Rightarrow> dec \<Rightarrow> dec \<Rightarrow> direction \<Rightarrow> cost_state \<Rightarrow> cost_state" where
  "applyFill D fillQty fillPrice dir st =
     (let st1 = (case dir of
          Buy \<Rightarrow>
            (let newQty = dj_plus D (cb_qty st) fillQty in
             if d_isZero newQty then st\<lparr>cb_avg := Fin 0, cb_qty := Fin 0\<rparr>
             else st\<lparr>cb_avg := dj_div D (dj_plus D (dj_times D (cb_avg st) (cb_qty st))
                        (dj_times D fillPrice fillQty)) newQty,
                     cb_qty := newQty\<rparr>)
        | Sell \<Rightarrow>
            (let newQty = dj_minus D (cb_qty st) fillQty in
             if d_lte newQty (Fin 0) then st\<lparr>cb_avg := Fin 0, cb_qty := Fin 0\<rparr>
             else st\<lparr>cb_qty := newQty\<rparr>))
      in st1\<lparr>cb_fillCount := Suc (cb_fillCount st1)\<rparr>)"

definition count_order :: "string option \<Rightarrow> cost_state \<Rightarrow> cost_state" where
  "count_order oid st = (if truthy oid then st\<lparr>cb_counted := the oid # cb_counted st\<rparr> else st)"

text \<open>A fill given by its strings; zero quantities are skipped.\<close>

definition fill_from ::
  "decimal_js \<Rightarrow> op_result \<Rightarrow> js_error + direction \<Rightarrow> cost_state \<Rightarrow> js_error + cost_state"
where
  "fill_from D r dir st =
     bindE (new_dec D (the (r_filledQty r))) (\<lambda>fq.
     if d_isZero fq then Inr st
     else bindE (new_dec D (the (r_filledPrice r))) (\<lambda>fp.
          bindE dir (\<lambda>d. Inr (count_order (r_orderId r) (applyFill D fq fp d st)))))"

definition sync_fill :: "decimal_js \<Rightarrow> order_meta \<Rightarrow> op_result \<Rightarrow> cost_state \<Rightarrow> js_error + cost_state" where
  "sync_fill D metas r st =
     (if \<not> r_success r \<or> r_status r \<noteq> Filled then Inr st
      else if \<not> truthy (r_orderId r) \<or> the (r_orderId r) \<in> set (cb_counted st) then Inr st
      else if \<not> truthy (r_filledQty r) \<or> \<not> truthy (r_filledPrice r) then Inr st
      else case jm_get metas (the (r_orderId r)) of
        None \<Rightarrow> Inr st
      | Some (mt, dir) \<Rightarrow> if \<not> mt then Inr st else fill_from D r (Inr dir) st)"

definition op_fill ::
  "decimal_js \<Rightarrow> string \<Rightarrow> operation \<times> op_result option \<Rightarrow> cost_state \<Rightarrow> js_error + cost_state"
where
  "op_fill D aliceId x st =
     (case x of
        (op, None) \<Rightarrow> Inr st
      | (op, Some r) \<Rightarrow>
          if \<not> matchesAliceId op aliceId then Inr st
          else if \<not> r_success r then Inr st
          else if \<not> truthy (r_filledQty r) \<or> \<not> truthy (r_filledPrice r) then Inr st
          else fill_from D r (fillDirection D op) st)"

definition is_sync_commit :: "'q git_commit \<Rightarrow> bool" where
  "is_sync_commit c = list_ex (\<lambda>op. op_action op = ActSyncOrders) (gc_operations c)"

definition cost_commit ::
  "decimal_js \<Rightarrow> string \<Rightarrow> order_meta \<Rightarrow> 'q git_commit \<Rightarrow> cost_state \<Rightarrow> js_error + cost_state"
where
  "cost_commit D aliceId metas c st =
     (if is_sync_commit c then foldE (sync_fill D metas) (gc_results c) st
      else foldE (op_fill D aliceId) (op_results c) st)"

record cost_basis =
  cr_avgCost :: dec
  cr_qty :: dec
  cr_fillCount :: nat

definition cost_result :: "cost_state \<Rightarrow> cost_basis option" where
  "cost_result st = (if cb_fillCount st = 0 then None
     else Some \<lparr>cr_avgCost = cb_avg st, cr_qty = cb_qty st, cr_fillCount = cb_fillCount st\<rparr>)"

definition recomputeCostBasis ::
  "decimal_js \<Rightarrow> 'q git_commit list \<Rightarrow> string \<Rightarrow> js_error + cost_basis option"
where
  "recomputeCostBasis D cs aliceId =
     bindE (order_metas D aliceId cs) (\<lambda>metas.
     bindE (foldE (cost_commit D aliceId metas) cs cost_init) (\<lambda>st. Inr (cost_result st)))"

definition isCostBasisRelevant :: "operation \<Rightarrow> op_result option \<Rightarrow> bool" where
  "isCostBasisRelevant op res =
     (case res of None \<Rightarrow> False | Some r \<Rightarrow>
        if \<not> r_success r \<or> \<not> truthy (r_filledQty r) \<or> \<not> truthy (r_filledPrice r) then False
        else op_action op = ActPlaceOrder \<or> op_action op = ActClosePosition \<or> op_action op = ActReconcileBalance)"

section \<open>The average stays between the prices paid\<close>

text \<open>The strings of a result denote a non-negative quantity and a price in a range, or nothing.\<close>

definition sound_fill :: "decimal_js \<Rightarrow> rat \<Rightarrow> rat \<Rightarrow> op_result \<Rightarrow> bool" where
  "sound_fill D lo hi r \<longleftrightarrow>
     (case r_filledQty r of None \<Rightarrow> True | Some s \<Rightarrow>
        (case dj_parse D s of None \<Rightarrow> True | Some (Fin x) \<Rightarrow> 0 \<le> x | _ \<Rightarrow> False)) \<and>
     (case r_filledPrice r of None \<Rightarrow> True | Some s \<Rightarrow>
        (case dj_parse D s of None \<Rightarrow> True | Some (Fin y) \<Rightarrow> lo \<le> y \<and> y \<le> hi | _ \<Rightarrow> False))"

definition cost_inv :: "rat \<Rightarrow> rat \<Rightarrow> cost_state \<Rightarrow> bool" where
  "cost_inv lo hi st \<longleftrightarrow> (\<exists>a q. cb_avg st = Fin a \<and> cb_qty st = Fin q \<and>
     (q = 0 \<and> a = 0 \<or> 0 < q \<and> lo \<le> a \<and> a \<le> hi) \<and> (cb_fillCount st = 0 \<longrightarrow> q = 0))"

lemma weighted_average_bounds:
  fixes a q x y lo hi :: rat
  assumes "q = 0 \<and> a = 0 \<or> 0 < q \<and> lo \<le> a \<and> a \<le> hi" "0 < x" "lo \<le> y" "y \<le> hi"
  shows "lo \<le> (a * q + y * x) / (q + x)" "(a * q + y * x) / (q + x) \<le> hi"
proof -
  have pos: "0 < q + x" and q: "0 \<le> q" using assms by auto
  have "lo * q \<le> a * q" "a * q \<le> hi * q" using assms(1) by auto
  moreover have "lo * x \<le> y * x" "y * x \<le> hi * x" using assms by auto
  ultimately have "lo * (q + x) \<le> a * q + y * x" "a * q + y * x \<le> hi * (q + x)"
    by (simp_all add: distrib_left)
  then show "lo \<le> (a * q + y * x) / (q + x)" "(a * q + y * x) / (q + x) \<le> hi"
    using pos by (simp_all add: pos_le_divide_eq pos_divide_le_eq)
qed

lemma applyFill_inv:
  assumes "decimal_exact D rnd" "cost_inv lo hi st" "0 < x" "lo \<le> y" "y \<le> hi"
  shows "cost_inv lo hi (applyFill D (Fin x) (Fin y) dir st)"
proof -
  note E = decimal_exact.exact_arith [OF assms(1)]
  from assms(2) obtain a q where st: "cb_avg st = Fin a" "cb_qty st = Fin q"
    and aq: "q = 0 \<and> a = 0 \<or> 0 < q \<and> lo \<le> a \<and> a \<le> hi"
    by (auto simp: cost_inv_def)
  then have q: "0 \<le> q" by auto
  show ?thesis
  proof (cases dir)
    case Buy
    have "q + x \<noteq> 0" using q assms(3) by simp
    then show ?thesis using weighted_average_bounds [OF aq assms(3-5)] q assms(3)
      by (simp add: Buy applyFill_def cost_inv_def st E)
  next
    case Sell
    show ?thesis
    proof (cases "q - x \<le> 0")
      case True
      then show ?thesis by (simp add: Sell applyFill_def cost_inv_def st E)
    next
      case False
      then have "0 < q" "lo \<le> a" "a \<le> hi" using aq assms(3) by auto
      then show ?thesis using False by (simp add: Sell applyFill_def cost_inv_def st E)
    qed
  qed
qed

lemma count_order_inv [simp]: "cost_inv lo hi (count_order i st) = cost_inv lo hi st"
  by (simp add: count_order_def cost_inv_def)

lemma fill_from_inv:
  assumes "decimal_exact D rnd" "cost_inv lo hi st" "sound_fill D lo hi r"
    "truthy (r_filledQty r)" "truthy (r_filledPrice r)" "fill_from D r dir st = Inr st'"
  shows "cost_inv lo hi st'"
proof -
  from assms(4,5) obtain s t where st: "r_filledQty r = Some s" "r_filledPrice r = Some t"
    by (auto elim!: truthyE)
  from assms(6) st obtain fq where fq: "dj_parse D s = Some fq" and
    rest: "(if d_isZero fq then Inr st else bindE (new_dec D (the (r_filledPrice r))) (\<lambda>fp.
          bindE dir (\<lambda>d. Inr (count_order (r_orderId r) (applyFill D fq fp d st))))) = Inr st'"
    by (auto simp: fill_from_def bindE_eq_Inr)
  obtain x where x: "fq = Fin x" "0 \<le> x"
    using assms(3) st fq by (cases fq) (auto simp: sound_fill_def)
  show ?thesis
  proof (cases "x = 0")
    case True
    then show ?thesis using rest x assms(2) by simp
  next
    case False
    with rest x obtain fp d where fp: "dj_parse D t = Some fp" and
      st': "st' = count_order (r_orderId r) (applyFill D (Fin x) fp d st)"
      using st by (auto simp: bindE_eq_Inr)
    obtain y where y: "fp = Fin y" "lo \<le> y" "y \<le> hi"
      using assms(3) st fp by (cases fp) (auto simp: sound_fill_def)
    have "0 < x" using x False by simp
    then show ?thesis using applyFill_inv [OF assms(1,2) _ y(2,3)] st' y(1) by simp
  qed
qed

lemma op_results_result: "(op, Some r) \<in> set (op_results c) \<Longrightarrow> r \<in> set (gc_results c)"
  by (auto simp: op_results_def dest!: sym [of "Some r"] intro: elem_at_in_set)

lemma cost_commit_inv:
  assumes "decimal_exact D rnd" "cost_inv lo hi st" "list_all (sound_fill D lo hi) (gc_results c)"
    "cost_commit D aliceId metas c st = Inr st'"
  shows "cost_inv lo hi st'"
proof (cases "is_sync_commit c")
  case True
  then have "foldE (sync_fill D metas) (gc_results c) st = Inr st'"
    using assms(4) by (simp add: cost_commit_def)
  then show ?thesis
  proof (rule foldE_invariant [where I = "cost_inv lo hi"])
    fix r s s' assume "r \<in> set (gc_results c)" "cost_inv lo hi s" "sync_fill D metas r s = Inr s'"
    moreover from this have "sound_fill D lo hi r" using assms(3) by (simp add: list_all_iff)
    ultimately show "cost_inv lo hi s'"
      by (auto simp: sync_fill_def split: if_splits option.splits intro: fill_from_inv [OF assms(1)])
  qed (rule assms(2))
next
  case False
  then have "foldE (op_fill D aliceId) (op_results c) st = Inr st'"
    using assms(4) by (simp add: cost_commit_def)
  then show ?thesis
  proof (rule foldE_invariant [where I = "cost_inv lo hi"])
    fix x s s' assume x: "x \<in> set (op_results c)" "cost_inv lo hi s" "op_fill D aliceId x s = Inr s'"
    show "cost_inv lo hi s'"
    proof (cases x)
      case (Pair op res)
      show ?thesis
      proof (cases res)
        case None
        then show ?thesis using x Pair by (simp add: op_fill_def)
      next
        case (Some r)
        then have "sound_fill D lo hi r"
          using x Pair op_results_result [of op r c] assms(3) by (auto simp: list_all_iff)
        then show ?thesis using x Pair Some
          by (auto simp: op_fill_def split: if_splits intro: fill_from_inv [OF assms(1)])
      qed
    qed
  qed (rule assms(2))
qed

lemma cost_init_inv [simp]: "cost_inv lo hi cost_init"
  by (simp add: cost_inv_def cost_init_def)

definition sound_log :: "decimal_js \<Rightarrow> rat \<Rightarrow> rat \<Rightarrow> 'q git_commit list \<Rightarrow> bool" where
  "sound_log D lo hi cs = list_all (\<lambda>c. list_all (sound_fill D lo hi) (gc_results c)) cs"

lemma cost_log_inv:
  assumes "decimal_exact D rnd" "sound_log D lo hi cs" "foldE (cost_commit D aliceId metas) cs cost_init = Inr st"
  shows "cost_inv lo hi st"
  using assms(3)
proof (rule foldE_invariant [where I = "cost_inv lo hi"])
  fix c s s' assume "c \<in> set cs" "cost_inv lo hi s" "cost_commit D aliceId metas c s = Inr s'"
  moreover from this have "list_all (sound_fill D lo hi) (gc_results c)"
    using assms(2) by (simp add: sound_log_def list_all_iff)
  ultimately show "cost_inv lo hi s'" using cost_commit_inv [OF assms(1)] by blast
qed simp

text \<open>C12: with exact arithmetic and fills of non-negative quantity, the reconstructed quantity is
  never negative, an empty position has cost zero, and the average cost of a held position lies
  between the lowest and the highest execution price of the log.\<close>

theorem cost_basis_bounds:
  assumes "decimal_exact D rnd" and "sound_log D lo hi cs"
    and "recomputeCostBasis D cs aliceId = Inr (Some r)"
  shows "\<exists>a q. cr_avgCost r = Fin a \<and> cr_qty r = Fin q \<and>
    (q = 0 \<and> a = 0 \<or> 0 < q \<and> lo \<le> a \<and> a \<le> hi)"
proof -
  from assms(3) obtain metas st where
    f: "foldE (cost_commit D aliceId metas) cs cost_init = Inr st" and r: "cost_result st = Some r"
    by (auto simp: recomputeCostBasis_def bindE_eq_Inr)
  from cost_log_inv [OF assms(1,2) f] r show ?thesis
    by (auto simp: cost_inv_def cost_result_def split: if_splits)
qed

text \<open>The reconstruction reads the operations and results of the log and nothing else of it.\<close>

definition same_trades :: "'q git_commit list \<Rightarrow> 'p git_commit list \<Rightarrow> bool" where
  "same_trades cs cs' \<longleftrightarrow> list_all2 (\<lambda>c c'. gc_operations c = gc_operations c' \<and> gc_results c = gc_results c') cs cs'"

lemma foldE_cong2:
  assumes "list_all2 R xs ys" and "\<And>x y s. R x y \<Longrightarrow> f x s = g y s"
  shows "foldE f xs s = foldE g ys s"
  using assms(1) by (induction arbitrary: s rule: list_all2_induct) (auto simp: assms(2) bindE_def split: sum.splits)

lemma recompute_same_trades:
  assumes "same_trades cs cs'"
  shows "recomputeCostBasis D cs aliceId = recomputeCostBasis D cs' aliceId"
proof -
  have "map op_results cs = map op_results cs'"
    using assms unfolding same_trades_def by (induction rule: list_all2_induct) (simp_all add: op_results_def)
  moreover have "foldE (cost_commit D aliceId m) cs st = foldE (cost_commit D aliceId m) cs' st" for m st
    using assms unfolding same_trades_def
    by (rule foldE_cong2) (simp add: cost_commit_def is_sync_commit_def op_results_def)
  ultimately show ?thesis by (simp add: recomputeCostBasis_def order_metas_def)
qed

section \<open>Reconciliation\<close>

definition projected_qty :: "cost_basis option \<Rightarrow> dec" where
  "projected_qty r = (case r of None \<Rightarrow> Fin 0 | Some x \<Rightarrow> cr_qty x)"

lemma op_results_reconcile:
  "op_results (reconcile_commit D H t aliceId qd p st msg g) =
    [(ReconcileBalance aliceId (dj_to_fixed D qd) (dj_to_fixed D p),
      Some ((result_of ActReconcileBalance True Filled)
        \<lparr>r_filledQty := Some (dj_to_fixed D (d_abs qd)), r_filledPrice := Some (dj_to_fixed D p)\<rparr>))]"
  by (simp add: op_results_def reconcile_commit_def Let_def)

lemma order_metas_reconcile:
  "order_metas D aliceId (cs @ [reconcile_commit D H t aliceId' qd p st msg g]) = order_metas D aliceId cs"
proof -
  have "foldE (meta_step D aliceId) (op_results (reconcile_commit D H t aliceId' qd p st msg g)) m = Inr m" for m
    by (simp add: op_results_reconcile meta_step_def introduces_order_def)
  then show ?thesis
    by (cases "foldE (meta_step D aliceId) (concat (map op_results cs)) []")
      (simp_all add: order_metas_def foldE_append)
qed

lemma dec_repr_abs: "dec_repr (Fin d) \<Longrightarrow> dec_repr (Fin \<bar>d\<bar>)"
proof (cases "d < 0")
  case True
  obtain n k where "quotient_of d = (n, k)" by (cases "quotient_of d")
  then have "quotient_of (- d) = (- n, k)" by (simp add: rat_uminus_code)
  moreover assume "dec_repr (Fin d)"
  ultimately show ?thesis using True \<open>quotient_of d = (n, k)\<close> by (simp add: dec_repr.simps)
qed simp

lemma cost_commit_reconcile:
  assumes "decimal_exact D rnd" "dec_repr (Fin d)" "dec_repr (Fin p)" "d \<noteq> 0"
  shows "cost_commit D aliceId metas (reconcile_commit D H t aliceId (Fin d) (Fin p) s msg g) st =
    Inr (applyFill D (Fin \<bar>d\<bar>) (Fin p) (if 0 \<le> d then Buy else Sell) st)"
proof -
  have L: "decimal_laws D rnd" using assms(1) by (simp add: decimal_exact_def)
  have parse: "dj_parse D (dj_to_fixed D (Fin d)) = Some (Fin d)"
    "dj_parse D (dj_to_fixed D (Fin p)) = Some (Fin p)"
    "dj_parse D (dj_to_fixed D (Fin \<bar>d\<bar>)) = Some (Fin \<bar>d\<bar>)"
    using decimal_laws.parse_to_fixed [OF L] assms(2,3) dec_repr_abs [OF assms(2)] by simp_all
  have ne: "dj_to_fixed D x \<noteq> []" for x using decimal_laws.print_nonempty(2) [OF L] .
  have sync: "\<not> is_sync_commit (reconcile_commit D H t aliceId (Fin d) (Fin p) s msg g)"
    by (simp add: is_sync_commit_def reconcile_commit_def Let_def)
  show ?thesis using assms(4) parse ne
    by (simp add: cost_commit_def sync op_results_reconcile op_fill_def matchesAliceId_def fill_from_def
        new_dec_def count_order_def)
qed

lemma reconcile_basis:
  assumes "decimal_exact D rnd" and "sound_log D lo hi cs" and "recomputeCostBasis D cs aliceId = Inr r0"
    and "projected_qty r0 = Fin q" and "d \<noteq> 0" and "dec_repr (Fin d)" and "dec_repr (Fin p)"
  shows "\<exists>r. recomputeCostBasis D (cs @ [reconcile_commit D H t aliceId (Fin d) (Fin p) s msg g]) aliceId = Inr (Some r) \<and>
    cr_qty r = Fin (max 0 (q + d)) \<and>
    (d < 0 \<longrightarrow> 0 < q + d \<longrightarrow> (\<exists>b. r0 = Some b \<and> cr_avgCost r = cr_avgCost b)) \<and>
    (0 < d \<longrightarrow> q = 0 \<longrightarrow> cr_avgCost r = Fin p)"
proof -
  note E = decimal_exact.exact_arith [OF assms(1)]
  from assms(3) obtain metas st where m: "order_metas D aliceId cs = Inr metas" and
    f: "foldE (cost_commit D aliceId metas) cs cost_init = Inr st" and r0: "cost_result st = r0"
    by (auto simp: recomputeCostBasis_def bindE_eq_Inr)
  from cost_log_inv [OF assms(1,2) f] obtain a q' where st: "cb_avg st = Fin a" "cb_qty st = Fin q'"
    and inv: "q' = 0 \<and> a = 0 \<or> 0 < q' \<and> lo \<le> a \<and> a \<le> hi" "cb_fillCount st = 0 \<longrightarrow> q' = 0"
    by (auto simp: cost_inv_def)
  have q': "q' = q"
    using assms(4) r0 st inv(2) by (auto simp: projected_qty_def cost_result_def split: if_splits)
  have q0: "0 \<le> q" using inv(1) q' by auto
  let ?dir = "if 0 \<le> d then Buy else Sell"
  let ?st = "applyFill D (Fin \<bar>d\<bar>) (Fin p) ?dir st"
  have rec: "recomputeCostBasis D (cs @ [reconcile_commit D H t aliceId (Fin d) (Fin p) s msg g]) aliceId
      = Inr (cost_result ?st)"
    using m f cost_commit_reconcile [OF assms(1,6,7,5)]
    by (simp add: recomputeCostBasis_def order_metas_reconcile foldE_append)
  have cnt: "cb_fillCount ?st = Suc (cb_fillCount st)" if "?dir = dir" for dir
    using that by (cases dir) (auto simp: applyFill_def Let_def)
  show ?thesis
  proof (cases "0 \<le> d")
    case True
    then have d: "0 < d" and nz: "q + d \<noteq> 0" using assms(5) q0 by auto
    have "cb_qty ?st = Fin (q + d)" "cb_avg ?st = Fin ((a * q + p * d) / (q + d))"
      using True nz by (simp_all add: applyFill_def st q' E)
    moreover have "q = 0 \<Longrightarrow> (a * q + p * d) / (q + d) = p" using d by simp
    ultimately show ?thesis using rec cnt [of Buy] True d q0 by (auto simp: cost_result_def)
  next
    case False
    then have "\<bar>d\<bar> = - d" by simp
    show ?thesis
    proof (cases "q + d \<le> 0")
      case True
      then have "cb_qty ?st = Fin 0" using False by (simp add: applyFill_def st q' E)
      then show ?thesis using rec cnt [of Sell] False True by (auto simp: cost_result_def)
    next
      case h: False
      have "cb_qty ?st = Fin (q + d)" "cb_avg ?st = Fin a"
        using h False by (simp_all add: applyFill_def st q' E)
      moreover have "cb_fillCount st \<noteq> 0" using inv(2) q' h False by auto
      then have "r0 = Some \<lparr>cr_avgCost = Fin a, cr_qty = Fin q, cr_fillCount = cb_fillCount st\<rparr>"
        using r0 st q' by (simp add: cost_result_def)
      ultimately show ?thesis using rec cnt [of Sell] False h by (auto simp: cost_result_def)
    qed
  qed
qed

text \<open>Recording a drift as a reconcile commit makes the reconstructed quantity the projected one
  plus the drift, the drift at the given price for an increase and at the running average for a
  decrease that leaves a holding; a decrease that empties the position resets it.\<close>

theorem reconcile_closes_drift:
  assumes "decimal_exact D rnd" and "sound_log D lo hi cs" and "recomputeCostBasis D cs aliceId = Inr r0"
    and "projected_qty r0 = Fin q" and "d \<noteq> 0" and "dec_repr (Fin d)" and "dec_repr (Fin p)"
  shows "\<exists>r. recomputeCostBasis D (cs @ [reconcile_commit D H t aliceId (Fin d) (Fin p) s msg g]) aliceId = Inr (Some r) \<and>
    cr_qty r = Fin (max 0 (q + d)) \<and>
    (d < 0 \<longrightarrow> 0 < q + d \<longrightarrow> (\<exists>b. r0 = Some b \<and> cr_avgCost r = cr_avgCost b)) \<and>
    (0 < d \<longrightarrow> q = 0 \<longrightarrow> cr_avgCost r = Fin p)"
  by (rule reconcile_basis [OF assms])

section \<open>Asynchronous fills\<close>

text \<open>The commit of a placed order that rests, and a sync update that fills it.\<close>

definition resting_commit :: "contract \<Rightarrow> order \<Rightarrow> string \<Rightarrow> dec git_state \<Rightarrow> dec git_commit" where
  "resting_commit c od i st =
     \<lparr>gc_hash = ''h'', gc_parentHash = None, gc_message = ''m'', gc_operations = [PlaceOrder c od None],
      gc_results = [(result_of ActPlaceOrder True Submitted)\<lparr>r_orderId := Some i\<rparr>],
      gc_stateAfter = st, gc_timestamp = ''t'', gc_round = None\<rparr>"

definition fill_update :: "string \<Rightarrow> string \<Rightarrow> string \<Rightarrow> order_status_update" where
  "fill_update i q p = \<lparr>u_orderId = i, u_symbol = ''s'', u_previousStatus = Submitted,
     u_currentStatus = Filled, u_filledPrice = Some p, u_filledQty = Some q, u_fee = None,
     u_feeCurrency = None\<rparr>"

lemma sync_commit_sel [simp]:
  "gc_operations (sync_commit H t us st g) = [SyncOrders]"
  "gc_results (sync_commit H t us st g) = map sync_result_of us"
  "is_sync_commit (sync_commit H t us st g)"
  by (simp_all add: sync_commit_def is_sync_commit_def)

lemma meta_sync [simp]:
  "foldE (meta_step D aliceId) (op_results (sync_commit H t us st g)) m = Inr m"
  by (simp add: op_results_def meta_step_def introduces_order_def split: prod.splits)

lemma sync_result_of_sel [simp]:
  "r_success (sync_result_of u)" "r_status (sync_result_of u) = u_currentStatus u"
  "r_orderId (sync_result_of u) = Some (u_orderId u)" "r_filledQty (sync_result_of u) = u_filledQty u"
  "r_filledPrice (sync_result_of u) = u_filledPrice u"
  by (simp_all add: sync_result_of_def)

lemma async_fill_aux:
  assumes "decimal_exact D rnd" and "c_aliceId c = Some aliceId" and "order_direction od = Buy" and "i \<noteq> []"
    and "dj_parse D qs = Some (Fin q)" and "dj_parse D ps = Some (Fin p)" and "0 < q" and "qs \<noteq> []" and "ps \<noteq> []"
  shows "recomputeCostBasis D
      [resting_commit c od i st, sync_commit H t [fill_update i qs ps] st' g] aliceId
      = Inr (Some \<lparr>cr_avgCost = Fin p, cr_qty = Fin q, cr_fillCount = 1\<rparr>) \<and>
    recomputeCostBasis D
      [resting_commit c od i st, sync_commit H t [fill_update i qs ps] st' g,
       sync_commit H' t' [fill_update i qs ps] st'' g'] aliceId
      = Inr (Some \<lparr>cr_avgCost = Fin p, cr_qty = Fin q, cr_fillCount = 1\<rparr>)"
proof -
  note E = decimal_exact.exact_arith [OF assms(1)]
  let ?metas = "[(i, (True, Buy))]"
  have ops: "op_results (resting_commit c od i st) = [(PlaceOrder c od None,
      Some ((result_of ActPlaceOrder True Submitted)\<lparr>r_orderId := Some i\<rparr>))]"
    by (simp add: op_results_def resting_commit_def)
  have m1: "foldE (meta_step D aliceId) (op_results (resting_commit c od i st)) [] = Inr ?metas"
    using assms(2,3,4) by (simp add: ops meta_step_def introduces_order_def matchesAliceId_def jm_set_def)
  have metas: "order_metas D aliceId [resting_commit c od i st, sync_commit H t [fill_update i qs ps] st' g] = Inr ?metas"
    "order_metas D aliceId [resting_commit c od i st, sync_commit H t [fill_update i qs ps] st' g,
      sync_commit H' t' [fill_update i qs ps] st'' g'] = Inr ?metas"
    using m1 by (simp_all add: order_metas_def foldE_append)
  have ns: "\<not> is_sync_commit (resting_commit c od i st)"
    by (simp add: is_sync_commit_def resting_commit_def)
  let ?s1 = "\<lparr>cb_avg = Fin p, cb_qty = Fin q, cb_fillCount = 1, cb_counted = [i]\<rparr>"
  have c1: "cost_commit D aliceId ?metas (resting_commit c od i st) cost_init = Inr cost_init"
    by (simp add: cost_commit_def ns ops op_fill_def)
  have g1: "jm_get ?metas i = Some (True, Buy)" by (simp add: jm_get_def)
  have c2: "cost_commit D aliceId ?metas (sync_commit Hx tx [fill_update i qs ps] sx gx) cost_init = Inr ?s1"
    for Hx tx sx gx
    using assms(4-9) g1
    by (simp add: cost_commit_def sync_fill_def fill_update_def fill_from_def applyFill_def cost_init_def
        count_order_def new_dec_def E)
  have c3: "cost_commit D aliceId ?metas (sync_commit Hx tx [fill_update i qs ps] sx gx) ?s1 = Inr ?s1"
    for Hx tx sx gx
    using assms(4) by (simp add: cost_commit_def sync_fill_def fill_update_def)
  show ?thesis
    unfolding recomputeCostBasis_def metas using c1 c2 c3 by (simp add: cost_result_def)
qed

text \<open>A buy order that rests in one commit and fills in a later sync counts at its execution
  quantity and price, and once: a second sync commit that reports the same fill changes nothing.\<close>

theorem async_fill_counted_once:
  assumes "decimal_exact D rnd" and "c_aliceId c = Some aliceId" and "order_direction od = Buy" and "i \<noteq> []"
    and "dj_parse D qs = Some (Fin q)" and "dj_parse D ps = Some (Fin p)" and "0 < q" and "qs \<noteq> []" and "ps \<noteq> []"
  shows "recomputeCostBasis D
      [resting_commit c od i st, sync_commit H t [fill_update i qs ps] st' g] aliceId
      = Inr (Some \<lparr>cr_avgCost = Fin p, cr_qty = Fin q, cr_fillCount = 1\<rparr>) \<and>
    recomputeCostBasis D
      [resting_commit c od i st, sync_commit H t [fill_update i qs ps] st' g,
       sync_commit H' t' [fill_update i qs ps] st'' g'] aliceId
      = Inr (Some \<lparr>cr_avgCost = Fin p, cr_qty = Fin q, cr_fillCount = 1\<rparr>)"
  using async_fill_aux [OF assms] .

section \<open>Witnesses\<close>

definition demo_contract :: contract where
  "demo_contract = new_contract\<lparr>c_symbol := ''BTC'', c_secType := ''CRYPTO'', c_aliceId := Some ''a|BTC''\<rparr>"

definition demo_fills :: "dec git_commit list" where
  "demo_fills = [resting_commit demo_contract demo_order ''7'' demo_state,
     sync_commit (\<lambda>x. ''s'') ''t'' [fill_update ''7'' ''2'' ''30''] demo_state new_git]"

lemma demo_contract_aliceId [simp]: "c_aliceId demo_contract = Some ''a|BTC''"
  by (simp add: demo_contract_def)

lemma demo_order_buy [simp]: "order_direction demo_order = Buy"
  by (simp add: order_direction_def demo_order_def to_upper_def upper_char_def Let_def)

lemma demo_parse: "dj_parse exact_decimal ''2'' = Some (Fin 2)" "dj_parse exact_decimal ''30'' = Some (Fin 30)"
  by code_simp+

lemma demo_fills_basis:
  "recomputeCostBasis exact_decimal demo_fills ''a|BTC''
    = Inr (Some \<lparr>cr_avgCost = Fin 30, cr_qty = Fin 2, cr_fillCount = 1\<rparr>)"
  unfolding demo_fills_def
  using async_fill_aux [OF ex.decimal_exact_axioms demo_contract_aliceId demo_order_buy _ demo_parse]
  by simp

lemma async_fill_counted_once_witness:
  "recomputeCostBasis exact_decimal demo_fills ''a|BTC''
    = Inr (Some \<lparr>cr_avgCost = Fin 30, cr_qty = Fin 2, cr_fillCount = 1\<rparr>)"
  unfolding demo_fills_def
  using async_fill_counted_once [OF ex.decimal_exact_axioms demo_contract_aliceId demo_order_buy _ demo_parse]
  by simp

lemma demo_fills_sound: "sound_log exact_decimal 20 40 demo_fills"
  by (simp add: sound_log_def demo_fills_def resting_commit_def sound_fill_def fill_update_def demo_parse
      del: exact_decimal_sel)

lemma cost_basis_bounds_witness:
  "recomputeCostBasis exact_decimal demo_fills ''a|BTC''
    = Inr (Some \<lparr>cr_avgCost = Fin 30, cr_qty = Fin 2, cr_fillCount = 1\<rparr>) \<and> (20 :: rat) \<le> 30 \<and> (30 :: rat) \<le> 40"
  using cost_basis_bounds [OF ex.decimal_exact_axioms demo_fills_sound demo_fills_basis] demo_fills_basis
  by auto

lemma reconcile_closes_drift_witness:
  "\<exists>r. recomputeCostBasis exact_decimal (demo_fills @
      [reconcile_commit exact_decimal (\<lambda>x. ''r'') ''t'' ''a|BTC'' (Fin (- 1)) (Fin 50) demo_state None new_git]) ''a|BTC''
      = Inr (Some r) \<and> cr_qty r = Fin 1 \<and> cr_avgCost r = Fin 30"
proof -
  let ?r0 = "Some \<lparr>cr_avgCost = Fin 30, cr_qty = Fin 2, cr_fillCount = 1\<rparr>"
  have q: "projected_qty ?r0 = Fin 2" by (simp add: projected_qty_def)
  have d: "(- 1 :: rat) \<noteq> 0" "dec_repr (Fin (- 1))" "dec_repr (Fin 50)" by simp_all
  from reconcile_closes_drift [OF ex.decimal_exact_axioms demo_fills_sound demo_fills_basis q d,
      of "\<lambda>x. ''r''" "''t''" demo_state None new_git]
  show ?thesis by auto
qed

end
