(* ===== verification/JS_Sort.thy ===== *)
theory JS_Sort
  imports Main "HOL-Library.Multiset"
begin

text \<open>
  \<open>Array.prototype.sort\<close> with a comparator, which is stable, as an insertion sort: it keeps the
  elements, and with a comparator that subtracts keys it is the stable sort of the library.
\<close>

text \<open>\<open>xs.sort(cmp)\<close>: each element goes before the first one it compares below.\<close>

fun sort_insert :: "('a \<Rightarrow> 'a \<Rightarrow> int) \<Rightarrow> 'a \<Rightarrow> 'a list \<Rightarrow> 'a list" where
  "sort_insert cmp x [] = [x]"
| "sort_insert cmp x (y # ys) = (if cmp x y < 0 then x # y # ys else y # sort_insert cmp x ys)"

definition js_sort :: "('a \<Rightarrow> 'a \<Rightarrow> int) \<Rightarrow> 'a list \<Rightarrow> 'a list" where
  "js_sort cmp xs = fold (sort_insert cmp) xs []"

lemma sort_insert_mset: "mset (sort_insert cmp x xs) = add_mset x (mset xs)"
  by (induction xs) auto

lemma js_sort_mset_acc: "mset (fold (sort_insert cmp) xs acc) = mset xs + mset acc"
  by (induction xs arbitrary: acc) (auto simp: sort_insert_mset)

lemma js_sort_mset [simp]: "mset (js_sort cmp xs) = mset xs"
  by (simp add: js_sort_def js_sort_mset_acc)

lemma js_sort_set [simp]: "set (js_sort cmp xs) = set xs"
  using js_sort_mset [of cmp xs] mset_eq_setD by blast

lemma js_sort_length [simp]: "length (js_sort cmp xs) = length xs"
  using js_sort_mset [of cmp xs] by (metis size_mset)

section \<open>Comparing keys\<close>

text \<open>A comparator that tells which of two keys is the smaller, whatever it returns otherwise.\<close>

definition compares :: "('a \<Rightarrow> 'k::linorder) \<Rightarrow> ('a \<Rightarrow> 'a \<Rightarrow> int) \<Rightarrow> bool" where
  "compares f cmp \<longleftrightarrow> (\<forall>a b. cmp a b < 0 \<longleftrightarrow> f a < f b)"

lemma sort_insert_set: "set (sort_insert cmp x xs) = insert x (set xs)"
  using sort_insert_mset [of cmp x xs] by (metis mset_eq_setD mset.simps(2) list.simps(15))

lemma sort_insert_sorted:
  "compares f cmp \<Longrightarrow> sorted (map f xs) \<Longrightarrow> sorted (map f (sort_insert cmp x xs))"
  by (induction xs) (auto simp: compares_def sort_insert_set)

lemma sort_insert_filter:
  assumes "compares f cmp" "sorted (map f xs)"
  shows "filter (\<lambda>y. f y = k) (sort_insert cmp x xs) = filter (\<lambda>y. f y = k) (xs @ [x])"
  using assms(2)
proof (induction xs)
  case (Cons y ys)
  show ?case
  proof (cases "f x < f y")
    case True
    then have "filter (\<lambda>z. f z = f x) (y # ys) = []"
      using Cons.prems by (auto simp: filter_empty_conv)
    with True assms(1) show ?thesis by (auto simp: compares_def)
  next
    case False
    with Cons assms(1) show ?thesis by (auto simp: compares_def)
  qed
qed simp

lemma js_sort_acc:
  assumes "compares f cmp"
  shows "sorted (map f acc) \<Longrightarrow> sorted (map f (fold (sort_insert cmp) xs acc)) \<and>
    filter (\<lambda>y. f y = k) (fold (sort_insert cmp) xs acc) = filter (\<lambda>y. f y = k) (acc @ xs)"
proof (induction xs arbitrary: acc)
  case (Cons x xs)
  from Cons.IH [OF sort_insert_sorted [OF assms Cons.prems]] show ?case
    by (simp add: sort_insert_filter [OF assms Cons.prems])
qed simp

theorem js_sort_key: "compares f cmp \<Longrightarrow> js_sort cmp xs = sort_key f xs"
  using js_sort_acc [of f cmp "[]"]
  by (intro properties_for_sort_key [symmetric]) (simp_all add: js_sort_def eq_commute js_sort_mset_acc)

lemma js_sort_sorted: "compares f cmp \<Longrightarrow> sorted (map f (js_sort cmp xs))"
  by (simp add: js_sort_key)

section \<open>By score, then by position\<close>

text \<open>\<open>xs.map((x, i) => ({ x, i, s: score(x) })).sort((a, b) => b.s - a.s || a.i - b.i).map((y) => y.x)\<close>.\<close>

definition by_score :: "('a \<Rightarrow> int) \<Rightarrow> 'a \<times> nat \<Rightarrow> 'a \<times> nat \<Rightarrow> int" where
  "by_score score a b =
     (let d = score (fst b) - score (fst a) in if d \<noteq> 0 then d else int (snd a) - int (snd b))"

definition rank_by :: "('a \<Rightarrow> int) \<Rightarrow> 'a list \<Rightarrow> 'a list" where
  "rank_by score xs = map fst (js_sort (by_score score) (zip xs [0..<length xs]))"

lemma insert_by_score:
  "\<forall>y \<in> set ys. snd y < i \<Longrightarrow>
     map fst (sort_insert (by_score score) (x, i) ys) = sort_insert (\<lambda>a b. score b - score a) x (map fst ys)"
  by (induction ys) (auto simp: by_score_def Let_def)

lemma fold_by_score:
  "\<forall>y \<in> set acc. snd y < n \<Longrightarrow>
     map fst (fold (sort_insert (by_score score)) (zip xs [n..<n + length xs]) acc) =
     fold (sort_insert (\<lambda>a b. score b - score a)) xs (map fst acc)"
proof (induction xs arbitrary: n acc)
  case (Cons x xs)
  have "[n..<n + length (x # xs)] = n # [Suc n..<Suc n + length xs]"
    using upt_conv_Cons [of n "n + length (x # xs)"] by simp
  moreover have "\<forall>y \<in> set (sort_insert (by_score score) (x, n) acc). snd y < Suc n"
    using Cons.prems by (auto simp: sort_insert_set less_SucI)
  ultimately show ?case
    using Cons.IH [of "sort_insert (by_score score) (x, n) acc" "Suc n"] insert_by_score [OF Cons.prems, of score x]
    by simp
qed simp

theorem rank_by_stable: "rank_by score xs = sort_key (\<lambda>x. - score x) xs"
  using fold_by_score [of "[]" 0 score xs] js_sort_key [of "\<lambda>x. - score x" "\<lambda>a b. score b - score a" xs]
  by (simp add: rank_by_def js_sort_def compares_def)

lemma set_rank_by [simp]: "set (rank_by score xs) = set xs"
  by (simp add: rank_by_stable)

lemma rank_by_sorted: "sorted_wrt (\<lambda>a b. score b \<le> score a) (rank_by score xs)"
  using sorted_sort_key [of "\<lambda>x. - score x" xs] by (simp add: rank_by_stable sorted_map)

end
