(* ===== verification/Order_History.thy ===== *)
theory Order_History
  imports Cost_Basis JS_Sort
begin

text \<open>
  \<open>order-history.ts\<close>: the exchange-frontend projections of the commit log, one row per order and
  one row per fill.  \<open>Array.prototype.sort\<close> is modelled as the insertion sort that the engine runs
  on the comparator; the comparator of the source never answers zero.
\<close>

section \<open>Rows\<close>

datatype hist_side = HBuy | HSell

datatype hist_source = FromAlice | FromExternal

datatype trade_source = TradeOrder | TradeExternal | TradeReconcile

record history_contract =
  hc_aliceId :: "string option"
  hc_symbol :: "string option"
  hc_localSymbol :: "string option"
  hc_secType :: "string option"
  hc_currency :: "string option"
  hc_exchange :: "string option"
  hc_expiry :: "string option"
  hc_strike :: "string option"
  hc_right :: "string option"
  hc_multiplier :: "string option"

record order_history_entry =
  he_orderId :: "string option"
  he_timestamp :: string
  he_resolvedAt :: "string option"
  he_contract :: history_contract
  he_side :: hist_side
  he_orderType :: "string option"
  he_quantity :: "string option"
  he_limitPrice :: "string option"
  he_stopPrice :: "string option"
  he_status :: op_status
  he_filledQty :: "string option"
  he_avgFillPrice :: "string option"
  he_fee :: "string option"
  he_feeCurrency :: "string option"
  he_source :: hist_source
  he_commitHash :: string
  he_message :: string
  he_error :: "string option"

record trade_history_entry =
  te_timestamp :: string
  te_orderId :: "string option"
  te_contract :: history_contract
  te_side :: hist_side
  te_quantity :: string
  te_price :: string
  te_value :: string
  te_fee :: "string option"
  te_feeCurrency :: "string option"
  te_source :: trade_source
  te_commitHash :: string

definition toHistoryContract :: "decimal_js \<Rightarrow> contract \<Rightarrow> history_contract" where
  "toHistoryContract D c =
     \<lparr>hc_aliceId = nonempty (c_aliceId c), hc_symbol = or_undef (c_symbol c),
      hc_localSymbol = or_undef (c_localSymbol c), hc_secType = or_undef (c_secType c),
      hc_currency = or_undef (c_currency c), hc_exchange = or_undef (c_exchange c),
      hc_expiry = or_undef (c_lastTradeDateOrContractMonth c),
      hc_strike = (if c_strike c \<noteq> UNSET_DOUBLE \<and> 0 < c_strike c then Some (dj_num_str D (c_strike c)) else None),
      hc_right = (if c_right c = ''C'' \<or> c_right c = ''CALL'' then Some ''C''
                  else if c_right c = ''P'' \<or> c_right c = ''PUT'' then Some ''P'' else None),
      hc_multiplier = or_undef (c_multiplier c)\<rparr>"

definition decStr :: "decimal_js \<Rightarrow> jdec option \<Rightarrow> js_error + string option" where
  "decStr D v = (case v of None \<Rightarrow> Inr None | Some x \<Rightarrow>
     bindE (case x of DVal d \<Rightarrow> Inr d | DStr s \<Rightarrow> new_dec D s) (\<lambda>d.
       Inr (if d_equals d UNSET_DECIMAL then None else nonempty (Some (dj_to_fixed D d)))))"

definition hist_order_side :: "order \<Rightarrow> hist_side" where
  "hist_order_side od =
     (if to_upper (case o_action od of None \<Rightarrow> ''BUY'' | Some a \<Rightarrow> a) = ''SELL'' then HSell else HBuy)"

record order_fields =
  of_side :: hist_side
  of_orderType :: "string option"
  of_quantity :: "string option"
  of_limitPrice :: "string option"
  of_stopPrice :: "string option"

definition orderFields :: "decimal_js \<Rightarrow> order \<Rightarrow> js_error + order_fields" where
  "orderFields D od =
     bindE (decStr D (o_totalQuantity od)) (\<lambda>q.
     bindE (decStr D (o_lmtPrice od)) (\<lambda>l.
     bindE (decStr D (o_auxPrice od)) (\<lambda>s.
     Inr \<lparr>of_side = hist_order_side od, of_orderType = nonempty (o_orderType od), of_quantity = q,
          of_limitPrice = l, of_stopPrice = s\<rparr>)))"

text \<open>The fields an introducing operation contributes; \<open>None\<close> for the other operations.\<close>

definition intro_fields ::
  "decimal_js \<Rightarrow> operation \<Rightarrow> (contract \<times> (js_error + order_fields) \<times> hist_source) option"
where
  "intro_fields D op = (case op of
      PlaceOrder c od t \<Rightarrow> Some (c, orderFields D od, FromAlice)
    | ObserveExternalOrder c od \<Rightarrow> Some (c, orderFields D od, FromExternal)
    | ClosePosition c q \<Rightarrow> Some (c, Inr \<lparr>of_side = HSell, of_orderType = Some ''MKT'',
          of_quantity = map_option (jd_string D) q, of_limitPrice = None, of_stopPrice = None\<rparr>, FromAlice)
    | _ \<Rightarrow> None)"

definition result_field :: "(op_result \<Rightarrow> string option) \<Rightarrow> op_result option \<Rightarrow> string option" where
  "result_field f res = nonempty (Option.bind res f)"

definition history_entry ::
  "decimal_js \<Rightarrow> 'q git_commit \<Rightarrow> op_result option \<Rightarrow> contract \<Rightarrow> order_fields \<Rightarrow> hist_source
    \<Rightarrow> order_history_entry"
where
  "history_entry D cm res c f src =
     \<lparr>he_orderId = result_field r_orderId res, he_timestamp = gc_timestamp cm, he_resolvedAt = None,
      he_contract = toHistoryContract D c, he_side = of_side f, he_orderType = of_orderType f,
      he_quantity = of_quantity f, he_limitPrice = of_limitPrice f, he_stopPrice = of_stopPrice f,
      he_status = (case res of None \<Rightarrow> Rejected | Some r \<Rightarrow> r_status r),
      he_filledQty = result_field r_filledQty res, he_avgFillPrice = result_field r_filledPrice res,
      he_fee = None, he_feeCurrency = None, he_source = src, he_commitHash = gc_hash cm,
      he_message = gc_message cm, he_error = result_field r_error res\<rparr>"

section \<open>Order history\<close>

type_synonym order_rows = "(string, order_history_entry) jsmap \<times> order_history_entry list"

text \<open>A change of the row of a known order in place.\<close>

definition update_row ::
  "string \<Rightarrow> (order_history_entry \<Rightarrow> order_history_entry) \<Rightarrow> order_rows \<Rightarrow> order_rows"
where
  "update_row i f st = (case jm_get (fst st) i of
     None \<Rightarrow> st | Some e \<Rightarrow> (jm_set i (f e) (fst st), snd st))"

definition history_op ::
  "decimal_js \<Rightarrow> 'q git_commit \<Rightarrow> operation \<times> op_result option \<Rightarrow> order_rows \<Rightarrow> js_error + order_rows"
where
  "history_op D cm x st =
     (case x of (op, res) \<Rightarrow>
        (case intro_fields D op of
           Some (c, fl, src) \<Rightarrow>
             bindE fl (\<lambda>f.
             let e = history_entry D cm res c f src in
             Inr (case he_orderId e of
                    Some i \<Rightarrow> (jm_set i e (fst st), snd st)
                  | None \<Rightarrow> (fst st, snd st @ [e])))
         | None \<Rightarrow>
             (case op of
                CancelOrder i oc \<Rightarrow>
                  Inr (if (case res of None \<Rightarrow> False | Some r \<Rightarrow> r_success r)
                       then update_row i (\<lambda>e. e\<lparr>he_status := Cancelled, he_resolvedAt := Some (gc_timestamp cm)\<rparr>) st
                       else st)
              | _ \<Rightarrow> Inr st)))"

definition set_if :: "string option \<Rightarrow> string option \<Rightarrow> string option" where
  "set_if new old = (if truthy new then new else old)"

definition history_sync :: "'q git_commit \<Rightarrow> op_result \<Rightarrow> order_rows \<Rightarrow> order_rows" where
  "history_sync cm r st =
     (if \<not> truthy (r_orderId r) \<or> \<not> r_success r then st
      else update_row (the (r_orderId r)) (\<lambda>e. e\<lparr>he_status := r_status r,
             he_resolvedAt := Some (gc_timestamp cm), he_filledQty := set_if (r_filledQty r) (he_filledQty e),
             he_avgFillPrice := set_if (r_filledPrice r) (he_avgFillPrice e),
             he_fee := set_if (r_fee r) (he_fee e),
             he_feeCurrency := set_if (r_feeCurrency r) (he_feeCurrency e)\<rparr>) st)"

definition history_commit :: "decimal_js \<Rightarrow> 'q git_commit \<Rightarrow> order_rows \<Rightarrow> js_error + order_rows" where
  "history_commit D cm st =
     bindE (foldE (history_op D cm) (op_results cm) st) (\<lambda>st1.
     Inr (if is_sync_commit cm then fold (history_sync cm) (gc_results cm) st1 else st1))"

definition newest_first :: "('a \<Rightarrow> string) \<Rightarrow> 'a \<Rightarrow> 'a \<Rightarrow> int" where
  "newest_first ts a b = (if ts a < ts b then 1 else - 1)"

definition limited :: "nat option \<Rightarrow> 'a list \<Rightarrow> 'a list" where
  "limited limit xs = (case limit of None \<Rightarrow> xs | Some n \<Rightarrow> if n = 0 then xs else take n xs)"

definition order_rows_of :: "decimal_js \<Rightarrow> 'q git_commit list \<Rightarrow> js_error + order_rows" where
  "order_rows_of D cs = foldE (history_commit D) cs ([], [])"

definition projectOrderHistory ::
  "decimal_js \<Rightarrow> 'q git_commit list \<Rightarrow> nat option \<Rightarrow> js_error + order_history_entry list"
where
  "projectOrderHistory D cs limit =
     bindE (order_rows_of D cs) (\<lambda>st.
     Inr (limited limit (js_sort (newest_first he_timestamp) (jm_values (fst st) @ snd st))))"

section \<open>Trade history\<close>

type_synonym trade_meta = "(string, history_contract \<times> hist_side \<times> string) jsmap"

definition multiplier_or_1 :: "contract \<Rightarrow> string" where
  "multiplier_or_1 c = or_str (c_multiplier c) ''1''"

definition trade_meta_step ::
  "decimal_js \<Rightarrow> operation \<times> op_result option \<Rightarrow> trade_meta \<Rightarrow> js_error + trade_meta"
where
  "trade_meta_step D x m =
     (case x of (op, res) \<Rightarrow>
        if \<not> truthy (Option.bind res r_orderId) then Inr m
        else (case intro_fields D op of
            None \<Rightarrow> Inr m
          | Some (c, fl, src) \<Rightarrow> bindE fl (\<lambda>f.
              Inr (jm_set (the (Option.bind res r_orderId)) (toHistoryContract D c, of_side f, multiplier_or_1 c) m))))"

fun commitSourceIsExternal :: "'q git_commit list \<Rightarrow> string \<Rightarrow> bool" where
  "commitSourceIsExternal [] i = False"
| "commitSourceIsExternal (c # cs) i =
     (case find (\<lambda>(op, res). Option.bind res r_orderId = Some i) (op_results c) of
        Some (op, res) \<Rightarrow> op_action op = ActObserveExternalOrder
      | None \<Rightarrow> commitSourceIsExternal cs i)"

type_synonym trade_rows = "trade_history_entry list \<times> string list"

text \<open>The local function \<open>push\<close>: the value is computed and the row appended.\<close>

definition push_trade ::
  "decimal_js \<Rightarrow> 'q git_commit \<Rightarrow> op_result \<Rightarrow> string option \<Rightarrow> history_contract \<Rightarrow> hist_side
    \<Rightarrow> string option \<Rightarrow> trade_source \<Rightarrow> (string option \<times> string option) \<Rightarrow> trade_rows \<Rightarrow> js_error + trade_rows"
where
  "push_trade D cm r oid c sd mlt src fees st =
     bindE (new_dec D (the (r_filledQty r))) (\<lambda>q.
     bindE (new_dec D (the (r_filledPrice r))) (\<lambda>p.
     bindE (new_dec D (opt_or mlt ''1'')) (\<lambda>k.
     Inr (fst st @ [\<lparr>te_timestamp = gc_timestamp cm, te_orderId = nonempty oid, te_contract = c,
            te_side = sd, te_quantity = the (r_filledQty r), te_price = the (r_filledPrice r),
            te_value = dj_to_fixed D (dj_times D (dj_times D q p) k), te_fee = nonempty (fst fees),
            te_feeCurrency = nonempty (snd fees), te_source = src, te_commitHash = gc_hash cm\<rparr>],
          (if truthy oid then the oid # snd st else snd st)))))"

definition trade_sync ::
  "decimal_js \<Rightarrow> 'q git_commit list \<Rightarrow> trade_meta \<Rightarrow> 'q git_commit \<Rightarrow> op_result \<Rightarrow> trade_rows \<Rightarrow> js_error + trade_rows"
where
  "trade_sync D cs metas cm r st =
     (if \<not> truthy (r_orderId r) \<or> r_status r \<noteq> Filled then Inr st
      else if \<not> truthy (r_filledQty r) \<or> \<not> truthy (r_filledPrice r) \<or> the (r_orderId r) \<in> set (snd st) then Inr st
      else case jm_get metas (the (r_orderId r)) of
        None \<Rightarrow> Inr st
      | Some (c, sd, mlt) \<Rightarrow>
          push_trade D cm r (r_orderId r) c sd (Some mlt)
            (if commitSourceIsExternal cs (the (r_orderId r)) then TradeExternal else TradeOrder)
            (r_fee r, r_feeCurrency r) st)"

definition alice_only :: "string \<Rightarrow> history_contract" where
  "alice_only a = \<lparr>hc_aliceId = Some a, hc_symbol = None, hc_localSymbol = None, hc_secType = None,
     hc_currency = None, hc_exchange = None, hc_expiry = None, hc_strike = None, hc_right = None,
     hc_multiplier = None\<rparr>"

definition trade_op ::
  "decimal_js \<Rightarrow> 'q git_commit \<Rightarrow> operation \<times> op_result option \<Rightarrow> trade_rows \<Rightarrow> js_error + trade_rows"
where
  "trade_op D cm x st =
     (case x of
        (op, None) \<Rightarrow> Inr st
      | (op, Some r) \<Rightarrow>
          if \<not> r_success r then Inr st
          else (case op of
            ReconcileBalance a qd mp \<Rightarrow>
              if \<not> truthy (r_filledQty r) \<or> \<not> truthy (r_filledPrice r) then Inr st
              else bindE (new_dec D qd) (\<lambda>d.
                push_trade D cm r None (alice_only a) (if d_gte d (Fin 0) then HBuy else HSell) None
                  TradeReconcile (None, None) st)
          | _ \<Rightarrow> (case intro_fields D op of
                None \<Rightarrow> Inr st
              | Some (c, fl, src) \<Rightarrow>
                  if r_status r \<noteq> Filled \<or> \<not> truthy (r_filledQty r) \<or> \<not> truthy (r_filledPrice r) then Inr st
                  else if truthy (r_orderId r) \<and> the (r_orderId r) \<in> set (snd st) then Inr st
                  else bindE fl (\<lambda>f.
                    push_trade D cm r (r_orderId r) (toHistoryContract D c) (of_side f)
                      (Some (multiplier_or_1 c))
                      (if op_action op = ActObserveExternalOrder then TradeExternal else TradeOrder)
                      (None, None) st))))"

definition trade_commit ::
  "decimal_js \<Rightarrow> 'q git_commit list \<Rightarrow> trade_meta \<Rightarrow> 'q git_commit \<Rightarrow> trade_rows \<Rightarrow> js_error + trade_rows"
where
  "trade_commit D cs metas cm st =
     (if is_sync_commit cm then foldE (trade_sync D cs metas cm) (gc_results cm) st
      else foldE (trade_op D cm) (op_results cm) st)"

definition projectTradeHistory ::
  "decimal_js \<Rightarrow> 'q git_commit list \<Rightarrow> nat option \<Rightarrow> js_error + trade_history_entry list"
where
  "projectTradeHistory D cs limit =
     bindE (foldE (trade_meta_step D) (concat (map op_results cs)) []) (\<lambda>metas.
     bindE (foldE (trade_commit D cs metas) cs ([], [])) (\<lambda>st.
     Inr (limited limit (js_sort (newest_first te_timestamp) (fst st)))))"

section \<open>The sort\<close>

definition descending :: "('a \<Rightarrow> string) \<Rightarrow> 'a list \<Rightarrow> bool" where
  "descending ts = sorted_wrt (\<lambda>a b. ts b \<le> ts a)"

lemma sort_insert_descending:
  "descending ts xs \<Longrightarrow> descending ts (sort_insert (newest_first ts) x xs)"
proof (induction xs)
  case Nil
  then show ?case by (simp add: descending_def)
next
  case (Cons y ys)
  have set: "set (sort_insert (newest_first ts) x ys) = insert x (set ys)"
    using sort_insert_mset [of "newest_first ts" x ys] by (metis mset_eq_setD mset.simps(2) list.simps(15))
  have cmp: "newest_first ts x y < 0 \<longleftrightarrow> \<not> ts x < ts y"
    by (simp add: newest_first_def)
  show ?case
  proof (cases "ts x < ts y")
    case True
    then show ?thesis using Cons set
      by (auto simp: descending_def cmp)
  next
    case False
    then have "ts y \<le> ts x" by simp
    then show ?thesis using Cons.prems False
      by (auto simp: descending_def cmp intro: order_trans)
  qed
qed

lemma js_sort_descending: "descending ts (js_sort (newest_first ts) xs)"
proof -
  have "descending ts acc \<Longrightarrow> descending ts (fold (sort_insert (newest_first ts)) xs acc)" for acc
    by (induction xs arbitrary: acc) (auto simp: sort_insert_descending)
  then show ?thesis by (simp add: js_sort_def descending_def)
qed

lemma limited_take: "\<exists>n. limited l xs = take n xs"
proof (cases l)
  case None
  then show ?thesis by (auto simp: limited_def intro: exI [of _ "length xs"])
next
  case (Some n)
  then show ?thesis by (cases "n = 0") (auto simp: limited_def intro: exI [of _ "length xs"])
qed

section \<open>One row per order\<close>

definition row_ids :: "order_history_entry list \<Rightarrow> string list" where
  "row_ids rows = map the (filter (\<lambda>x. x \<noteq> None) (map he_orderId rows))"

definition rows_ok :: "order_rows \<Rightarrow> bool" where
  "rows_ok st \<longleftrightarrow> jm_ok (fst st) \<and> (\<forall>(k, e) \<in> set (fst st). he_orderId e = Some k) \<and>
     (\<forall>e \<in> set (snd st). he_orderId e = None)"

text \<open>The order ids that the log introduces.\<close>

definition intro_ids :: "operation \<times> op_result option \<Rightarrow> string set" where
  "intro_ids x = (case x of (op, res) \<Rightarrow>
     if introduces_order op \<and> truthy (Option.bind res r_orderId) then {the (Option.bind res r_orderId)} else {})"

definition introduced_ids :: "'q git_commit list \<Rightarrow> string set" where
  "introduced_ids cs = (\<Union>c \<in> set cs. \<Union>x \<in> set (op_results c). intro_ids x)"

lemma intro_fields_iff: "intro_fields D op = None \<longleftrightarrow> \<not> introduces_order op"
  by (cases op) (simp_all add: intro_fields_def introduces_order_def)

lemma jm_set_entries: "set (jm_set k v m) \<subseteq> insert (k, v) (set m)"
  unfolding jm_set_def
proof (induction m)
  case Nil
  then show ?case by simp
next
  case (Cons kv m)
  then show ?case by (cases kv) auto
qed

lemma jm_get_mem: "jm_get m k = Some v \<Longrightarrow> (k, v) \<in> set m"
  by (simp add: jm_get_def map_of_SomeD)

lemma rows_ok_set: "rows_ok st \<Longrightarrow> he_orderId e = Some i \<Longrightarrow> rows_ok (jm_set i e (fst st), snd st)"
  using jm_set_entries [of i e "fst st"] jm.invar_set [of "fst st" i e] by (auto simp: rows_ok_def)

lemma update_row_ok:
  assumes "rows_ok st" "\<And>e. he_orderId (f e) = he_orderId e"
  shows "rows_ok (update_row i f st) \<and> fst ` set (fst (update_row i f st)) = fst ` set (fst st)"
proof (cases "jm_get (fst st) i")
  case None
  then show ?thesis using assms(1) by (simp add: update_row_def)
next
  case (Some e)
  have "he_orderId e = Some i" using assms(1) jm_get_mem [OF Some] by (auto simp: rows_ok_def)
  then have "rows_ok (jm_set i (f e) (fst st), snd st)" using assms by (intro rows_ok_set) auto
  moreover have "i \<in> fst ` set (fst st)" using jm_get_mem [OF Some] by force
  ultimately show ?thesis using Some by (auto simp: update_row_def jm_keys_set)
qed

lemma result_field_truthy: "result_field f res = (if truthy (Option.bind res f) then Option.bind res f else None)"
  by (simp add: result_field_def nonempty_def)

lemma history_entry_id [simp]: "he_orderId (history_entry D cm res c f src) = result_field r_orderId res"
  by (simp add: history_entry_def)

lemma history_op_ok:
  assumes "history_op D cm x st = Inr st'" "rows_ok st"
  shows "rows_ok st' \<and> fst ` set (fst st') = fst ` set (fst st) \<union> intro_ids x"
proof (cases x)
  case (Pair op res)
  show ?thesis
  proof (cases "intro_fields D op")
    case (Some y)
    obtain c fl src where y: "y = (c, fl, src)" by (cases y)
    have intro: "introduces_order op" using Some intro_fields_iff [of D op] by auto
    from assms(1) Pair Some y obtain f where
      st': "st' = (case result_field r_orderId res of
          Some i \<Rightarrow> (jm_set i (history_entry D cm res c f src) (fst st), snd st)
        | None \<Rightarrow> (fst st, snd st @ [history_entry D cm res c f src]))"
      by (auto simp: history_op_def bindE_eq_Inr Let_def)
    show ?thesis
    proof (cases "truthy (Option.bind res r_orderId)")
      case True
      then obtain i where i: "Option.bind res r_orderId = Some i" by (auto elim: truthyE)
      then show ?thesis using st' True intro Pair assms(2)
        by (auto simp: result_field_truthy intro_ids_def jm_keys_set intro!: rows_ok_set)
    next
      case False
      then show ?thesis using st' Pair assms(2)
        by (auto simp: result_field_truthy intro_ids_def rows_ok_def)
    qed
  next
    case None
    then have "intro_ids x = {}" using intro_fields_iff [of D op] Pair by (simp add: intro_ids_def)
    moreover have "st' = st \<or> (\<exists>i oc. op = CancelOrder i oc \<and> st' = update_row i
        (\<lambda>e. e\<lparr>he_status := Cancelled, he_resolvedAt := Some (gc_timestamp cm)\<rparr>) st)"
      using assms(1) Pair None by (auto simp: history_op_def split: operation.splits if_splits)
    ultimately show ?thesis
      using assms(2) update_row_ok [of st "\<lambda>e. e\<lparr>he_status := Cancelled, he_resolvedAt := Some (gc_timestamp cm)\<rparr>"]
      by (elim disjE exE conjE) simp_all
  qed
qed

lemma history_sync_ok:
  "rows_ok st \<Longrightarrow> rows_ok (history_sync cm r st) \<and>
     fst ` set (fst (history_sync cm r st)) = fst ` set (fst st)"
  unfolding history_sync_def by (auto dest: update_row_ok [THEN conjunct1] simp: update_row_ok)

lemma history_syncs_ok:
  "rows_ok st \<Longrightarrow> rows_ok (fold (history_sync cm) rs st) \<and>
     fst ` set (fst (fold (history_sync cm) rs st)) = fst ` set (fst st)"
  by (induction rs arbitrary: st) (simp_all add: history_sync_ok)

lemma history_ops_ok:
  "foldE (history_op D cm) xs st = Inr st' \<Longrightarrow> rows_ok st \<Longrightarrow>
   rows_ok st' \<and> fst ` set (fst st') = fst ` set (fst st) \<union> (\<Union>x \<in> set xs. intro_ids x)"
proof (induction xs arbitrary: st)
  case Nil
  then show ?case by simp
next
  case (Cons x xs)
  from Cons.prems(1) obtain s1 where s1: "history_op D cm x st = Inr s1" "foldE (history_op D cm) xs s1 = Inr st'"
    by (auto simp: bindE_eq_Inr)
  show ?case using history_op_ok [OF s1(1) Cons.prems(2)] Cons.IH [OF s1(2)] by auto
qed

lemma history_commit_ok:
  assumes "history_commit D cm st = Inr st'" "rows_ok st"
  shows "rows_ok st' \<and> fst ` set (fst st') = fst ` set (fst st) \<union> (\<Union>x \<in> set (op_results cm). intro_ids x)"
proof -
  from assms(1) obtain s1 where s1: "foldE (history_op D cm) (op_results cm) st = Inr s1" and
    st': "st' = (if is_sync_commit cm then fold (history_sync cm) (gc_results cm) s1 else s1)"
    by (auto simp: history_commit_def bindE_eq_Inr)
  show ?thesis using history_ops_ok [OF s1 assms(2)] history_syncs_ok [of s1 cm "gc_results cm"] st'
    by (cases "is_sync_commit cm") simp_all
qed

lemma order_rows_aux:
  "foldE (history_commit D) cs st = Inr st' \<Longrightarrow> rows_ok st \<Longrightarrow>
   rows_ok st' \<and> fst ` set (fst st') = fst ` set (fst st) \<union> introduced_ids cs"
proof (induction cs arbitrary: st)
  case Nil
  then show ?case by (simp add: introduced_ids_def)
next
  case (Cons c cs)
  from Cons.prems(1) obtain s1 where s1: "history_commit D c st = Inr s1" "foldE (history_commit D) cs s1 = Inr st'"
    by (auto simp: bindE_eq_Inr)
  show ?case using history_commit_ok [OF s1(1) Cons.prems(2)] Cons.IH [OF s1(2)]
    by (auto simp: introduced_ids_def)
qed

lemma order_rows_ok:
  assumes "order_rows_of D cs = Inr st"
  shows "rows_ok st" "fst ` set (fst st) = introduced_ids cs"
proof -
  have "rows_ok ([], [])" by (simp add: rows_ok_def)
  from order_rows_aux [OF assms [unfolded order_rows_of_def] this]
  show "rows_ok st" "fst ` set (fst st) = introduced_ids cs" by simp_all
qed

lemma row_ids_mset: "mset xs = mset ys \<Longrightarrow> mset (row_ids xs) = mset (row_ids ys)"
  by (simp add: row_ids_def)

lemma rows_ok_ids:
  assumes "rows_ok st"
  shows "row_ids (jm_values (fst st) @ snd st) = map fst (fst st)"
proof -
  have "row_ids (jm_values m) = map fst m" if "\<forall>(k, e) \<in> set m. he_orderId e = Some k" for m
    using that by (induction m) (auto simp: row_ids_def jm_values_def)
  moreover have "row_ids xs = []" if "\<forall>e \<in> set xs. he_orderId e = None" for xs
    using that by (simp add: row_ids_def)
  ultimately show ?thesis using assms by (simp add: row_ids_def rows_ok_def)
qed

text \<open>C14: the order history has exactly one row per order id that the log introduces, newest
  first by the time the order entered the log.\<close>

theorem order_history_one_row_per_order:
  assumes "projectOrderHistory D cs None = Inr rows"
  shows "distinct (row_ids rows) \<and> set (row_ids rows) = introduced_ids cs \<and> descending he_timestamp rows"
proof -
  from assms obtain st where st: "order_rows_of D cs = Inr st" and
    rows: "rows = js_sort (newest_first he_timestamp) (jm_values (fst st) @ snd st)"
    by (auto simp: projectOrderHistory_def bindE_eq_Inr limited_def)
  have "mset (row_ids rows) = mset (map fst (fst st))"
    using row_ids_mset [of rows "jm_values (fst st) @ snd st"] rows_ok_ids [OF order_rows_ok(1) [OF st]] rows
    by simp
  then have "distinct (row_ids rows) = distinct (map fst (fst st))" "set (row_ids rows) = set (map fst (fst st))"
    by (metis mset_eq_imp_distinct_iff) (metis \<open>mset (row_ids rows) = mset (map fst (fst st))\<close> mset_eq_setD)
  then show ?thesis
    using order_rows_ok [OF st] rows js_sort_descending by (auto simp: rows_ok_def jm_ok_def)
qed

text \<open>A sync update resolves the row of its order, status, time and the reported fill and fee,
  and touches no other row.\<close>

theorem sync_resolves_row:
  assumes "order_rows_of D cs = Inr st" and "jm_get (fst st) (u_orderId u) = Some e" and "u_orderId u \<noteq> []"
  shows "\<exists>st' e'. order_rows_of D (cs @ [sync_commit H t [u] s g]) = Inr st' \<and>
    jm_get (fst st') = (jm_get (fst st))(u_orderId u \<mapsto> e') \<and> snd st' = snd st \<and>
    he_status e' = u_currentStatus u \<and> he_resolvedAt e' = Some t \<and>
    he_filledQty e' = set_if (u_filledQty u) (he_filledQty e) \<and>
    he_avgFillPrice e' = set_if (u_filledPrice u) (he_avgFillPrice e) \<and>
    he_fee e' = set_if (u_fee u) (he_fee e) \<and> he_timestamp e' = he_timestamp e \<and>
    he_contract e' = he_contract e \<and> he_source e' = he_source e"
proof -
  let ?c = "sync_commit H t [u] s g"
  have ts: "gc_timestamp ?c = t" by (simp add: sync_commit_def)
  have ops: "op_results ?c = [(SyncOrders, Some (sync_result_of u))]"
    by (simp add: op_results_def)
  have "history_commit D ?c st = Inr (history_sync ?c (sync_result_of u) st)"
    by (simp add: history_commit_def ops history_op_def intro_fields_def)
  then have run: "order_rows_of D (cs @ [?c]) = Inr (history_sync ?c (sync_result_of u) st)"
    using assms(1) by (simp add: order_rows_of_def foldE_append)
  show ?thesis
    unfolding run using assms(2,3)
    by (simp add: history_sync_def update_row_def ts jm.lookup_set)
      (simp add: sync_result_of_def, rule exI, rule conjI, rule refl, simp)
qed

section \<open>One trade per order\<close>

definition trade_ids :: "trade_history_entry list \<Rightarrow> string list" where
  "trade_ids rows = map the (filter (\<lambda>x. x \<noteq> None) (map te_orderId rows))"

definition trades_ok :: "trade_rows \<Rightarrow> bool" where
  "trades_ok st \<longleftrightarrow> distinct (trade_ids (fst st)) \<and> set (trade_ids (fst st)) \<subseteq> set (snd st)"

lemma trade_ids_snoc:
  "trade_ids (xs @ [x]) = trade_ids xs @ (case te_orderId x of None \<Rightarrow> [] | Some i \<Rightarrow> [i])"
  by (simp add: trade_ids_def split: option.splits)

lemma trades_ok_init [simp]: "trades_ok ([], [])"
  by (simp add: trades_ok_def trade_ids_def)

lemma push_trade_ok:
  assumes "push_trade D cm r oid c sd mlt src fees st = Inr st'" "trades_ok st"
    "truthy oid \<Longrightarrow> the oid \<notin> set (snd st)"
  shows "trades_ok st'"
  using assms
  by (auto simp: push_trade_def bindE_eq_Inr trades_ok_def trade_ids_snoc nonempty_def elim!: truthyE) blast

lemma trade_sync_ok: "trade_sync D cs metas cm r st = Inr st' \<Longrightarrow> trades_ok st \<Longrightarrow> trades_ok st'"
  by (auto simp: trade_sync_def split: if_splits option.splits prod.splits intro: push_trade_ok)

lemma trade_op_ok:
  assumes "trade_op D cm x st = Inr st'" "trades_ok st"
  shows "trades_ok st'"
proof (cases x)
  case (Pair op res)
  show ?thesis
  proof (cases res)
    case None
    then show ?thesis using assms Pair by (simp add: trade_op_def)
  next
    case (Some r)
    show ?thesis
      using assms Pair Some
      by (cases op; auto simp: trade_op_def intro_fields_def bindE_eq_Inr split: if_splits intro: push_trade_ok)
  qed
qed

lemma trade_commit_ok:
  assumes "trade_commit D cs metas cm st = Inr st'" "trades_ok st"
  shows "trades_ok st'"
proof (cases "is_sync_commit cm")
  case True
  then have "foldE (trade_sync D cs metas cm) (gc_results cm) st = Inr st'"
    using assms(1) by (simp add: trade_commit_def)
  then show ?thesis
    by (rule foldE_invariant [where I = trades_ok]) (use assms(2) trade_sync_ok in auto)
next
  case False
  then have "foldE (trade_op D cm) (op_results cm) st = Inr st'"
    using assms(1) by (simp add: trade_commit_def)
  then show ?thesis
    by (rule foldE_invariant [where I = trades_ok]) (use assms(2) trade_op_ok in auto)
qed

text \<open>C15: no order id appears in two rows of the trade history, whichever of push, sync or retry
  reported its fill, and the rows are newest first.\<close>

theorem trade_history_no_double_count:
  assumes "projectTradeHistory D cs limit = Inr rows"
  shows "distinct (trade_ids rows) \<and> descending te_timestamp rows"
proof -
  from assms obtain metas st where f: "foldE (trade_commit D cs metas) cs ([], []) = Inr st" and
    rows: "rows = limited limit (js_sort (newest_first te_timestamp) (fst st))"
    by (auto simp: projectTradeHistory_def bindE_eq_Inr)
  let ?all = "js_sort (newest_first te_timestamp) (fst st)"
  have "trades_ok st" using f
    by (rule foldE_invariant [where I = trades_ok]) (simp, rule trade_commit_ok)
  then have "distinct (trade_ids (fst st))" by (simp add: trades_ok_def)
  moreover have "mset (trade_ids ?all) = mset (trade_ids (fst st))"
    by (simp add: trade_ids_def)
  ultimately have d: "distinct (trade_ids ?all)" by (metis mset_eq_imp_distinct_iff)
  obtain n where n: "rows = take n ?all" using limited_take [of limit ?all] rows by blast
  have "trade_ids ?all = trade_ids (take n ?all) @ trade_ids (drop n ?all)"
    by (simp add: trade_ids_def flip: map_append filter_append)
  with d have "distinct (trade_ids rows)" by (simp add: n)
  moreover have "descending te_timestamp rows"
    using js_sort_descending [of te_timestamp "fst st"] unfolding n descending_def by (rule sorted_wrt_take)
  ultimately show ?thesis by simp
qed

section \<open>Fills reported by a push\<close>

lemma exec_ops_no_fill: "exec_ops cfg ops w = (rs, w') \<Longrightarrow> r \<in> set rs \<Longrightarrow> r_filledQty r = None"
  by (induction ops arbitrary: w rs)
    (auto simp: exec_op_def parseOperationResult_def failed_result_def
      split: prod.splits sum.splits raw.splits if_splits)

lemma foldE_skip: "(\<And>x. x \<in> set xs \<Longrightarrow> f x s = Inr s) \<Longrightarrow> foldE f xs s = Inr s"
  by (induction xs) auto

lemma skip1: "(\<And>op r. x = (op, Some r) \<Longrightarrow> r_filledQty r = None) \<Longrightarrow> op_fill D a x st = Inr st"
  by (cases x; cases "snd x") (auto simp: op_fill_def)

lemma skip2: "(\<And>op r. x = (op, Some r) \<Longrightarrow> r_filledQty r = None) \<Longrightarrow> trade_op D c x st = Inr st"
  by (cases x; cases "snd x") (auto simp: trade_op_def split: operation.splits option.splits)

text \<open>The results that a push records never carry a filled quantity, so a commit of a push
  changes neither the cost basis nor the trade history, even when the broker's reply says the order
  was filled at once; such an order is not pending either, so no later sync reports its fill.\<close>

theorem push_fills_invisible:
  assumes "exec_ops cfg (g_stagingArea g) w = (rs, w')" and "SyncOrders \<notin> set (g_stagingArea g)"
  shows "cost_commit D a metas (staged_commit g m rs st t) cst = Inr cst \<and>
    trade_commit D cs tmetas (staged_commit g m rs st t) tst = Inr tst"
proof -
  let ?c = "staged_commit g m rs st t"
  have "op_action op = ActSyncOrders \<Longrightarrow> op = SyncOrders" for op by (cases op) auto
  then have sync: "\<not> is_sync_commit ?c" using assms(2) by (auto simp: is_sync_commit_def list_ex_iff)
  have none: "r_filledQty r = None" if "(op, Some r) \<in> set (op_results ?c)" for op r
    using exec_ops_no_fill [OF assms(1)] op_results_result [OF that] by simp
  have "op_fill D a x cst = Inr cst" if "x \<in> set (op_results ?c)" for x
    by (rule skip1) (use that none in auto)
  moreover have "trade_op D ?c x tst = Inr tst" if "x \<in> set (op_results ?c)" for x
    by (rule skip2) (use that none in auto)
  ultimately show ?thesis
    by (simp add: cost_commit_def trade_commit_def sync foldE_skip)
qed

section \<open>Witnesses\<close>

lemma demo_history_run:
  "(case projectOrderHistory exact_decimal demo_fills None of
      Inr rows \<Rightarrow> map he_orderId rows = [Some ''7''] \<and> map he_status rows = [Filled] | _ \<Rightarrow> False)"
  by code_simp

lemma demo_trades_run:
  "(case projectTradeHistory exact_decimal demo_fills None of
      Inr rows \<Rightarrow> map te_orderId rows = [Some ''7''] \<and> map te_value rows = [''60''] | _ \<Rightarrow> False)"
  by code_simp

lemma order_history_one_row_per_order_witness:
  "\<exists>rows. projectOrderHistory exact_decimal demo_fills None = Inr rows \<and> map he_orderId rows = [Some ''7''] \<and>
     introduced_ids demo_fills = {''7''}"
proof -
  obtain rows where r: "projectOrderHistory exact_decimal demo_fills None = Inr rows" "map he_orderId rows = [Some ''7'']"
    using demo_history_run by (auto split: sum.splits)
  show ?thesis using order_history_one_row_per_order [OF r(1)] r by (auto simp: row_ids_def)
qed

lemma demo_resting_run:
  "(case order_rows_of exact_decimal [resting_commit demo_contract demo_order ''7'' demo_state] of
      Inr st \<Rightarrow> (case jm_get (fst st) ''7'' of Some e \<Rightarrow> he_status e = Submitted | None \<Rightarrow> False)
    | Inl _ \<Rightarrow> False)"
  by code_simp

lemma sync_resolves_row_witness:
  "\<exists>st' e'. order_rows_of exact_decimal demo_fills = Inr st' \<and> jm_get (fst st') ''7'' = Some e' \<and>
     he_status e' = Filled \<and> he_avgFillPrice e' = Some ''30''"
proof -
  let ?u = "fill_update ''7'' ''2'' ''30''"
  obtain st e where st: "order_rows_of exact_decimal [resting_commit demo_contract demo_order ''7'' demo_state] = Inr st"
    and e: "jm_get (fst st) ''7'' = Some e"
    using demo_resting_run by (auto split: sum.splits option.splits)
  have u: "u_orderId ?u = ''7''" "u_currentStatus ?u = Filled" "u_filledPrice ?u = Some ''30''"
    by (simp_all add: fill_update_def)
  have i: "jm_get (fst st) (u_orderId ?u) = Some e" "u_orderId ?u \<noteq> []" using e u by simp_all
  from sync_resolves_row [OF st i, of "\<lambda>x. ''s''" "''t''" demo_state new_git] u
  show ?thesis by (auto simp: demo_fills_def set_if_def)
qed

lemma trade_history_no_double_count_witness:
  "\<exists>rows. projectTradeHistory exact_decimal demo_fills None = Inr rows \<and> trade_ids rows = [''7''] \<and>
     distinct (trade_ids rows)"
proof -
  obtain rows where r: "projectTradeHistory exact_decimal demo_fills None = Inr rows" "map te_orderId rows = [Some ''7'']"
    using demo_trades_run by (auto split: sum.splits)
  show ?thesis using trade_history_no_double_count [OF r(1)] r by (auto simp: trade_ids_def)
qed

lemma push_fills_invisible_witness:
  "\<exists>rs w'. exec_ops (demo_cfg False) (g_stagingArea demo_prepared) 0 = (rs, w') \<and>
     cost_commit exact_decimal ''a'' [] (staged_commit demo_prepared ''m'' rs demo_state ''t'') cost_init = Inr cost_init"
proof -
  obtain rs w' where e: "exec_ops (demo_cfg False) (g_stagingArea demo_prepared) 0 = (rs, w')"
    by (cases "exec_ops (demo_cfg False) (g_stagingArea demo_prepared) 0")
  have "SyncOrders \<notin> set (g_stagingArea demo_prepared)" by (simp add: demo_prepared_def demo_op_def)
  from push_fills_invisible [OF e this] e show ?thesis by blast
qed

end
