(* ===== verification/Contract_Discipline.thy ===== *)
theory Contract_Discipline
  imports Position_Math
begin

text \<open>
  \<open>contract-discipline.ts\<close>, the structural validation of contracts per security type, and
  \<open>brokers/contract-builder.ts\<close>, the two constructors that every broker's output goes through.
\<close>

section \<open>Validation\<close>

definition SEC_TYPES :: "string list" where
  "SEC_TYPES = [''STK'', ''OPT'', ''FUT'', ''FOP'', ''IND'', ''CASH'', ''BOND'', ''CMDTY'', ''WAR'',
     ''IOPT'', ''FUND'', ''BAG'', ''NEWS'', ''CFD'', ''CRYPTO'', ''CRYPTO_PERP'']"

definition isSecType :: "string \<Rightarrow> bool" where
  "isSecType s \<longleftrightarrow> s \<in> set SEC_TYPES"

datatype contract_field = FLastTradeDate | FStrike | FRight | FMultiplier

fun field_name :: "contract_field \<Rightarrow> string" where
  "field_name FLastTradeDate = ''lastTradeDateOrContractMonth''"
| "field_name FStrike = ''strike''"
| "field_name FRight = ''right''"
| "field_name FMultiplier = ''multiplier''"

definition bySecType :: "string \<Rightarrow> contract_field list" where
  "bySecType s =
     (if s = ''OPT'' \<or> s = ''FOP'' then [FLastTradeDate, FStrike, FRight, FMultiplier]
      else if s = ''FUT'' then [FLastTradeDate, FMultiplier]
      else [])"

fun hasContractField :: "contract \<Rightarrow> contract_field \<Rightarrow> bool" where
  "hasContractField c FLastTradeDate = (c_lastTradeDateOrContractMonth c \<noteq> [])"
| "hasContractField c FStrike = (c_strike c \<noteq> UNSET_DOUBLE)"
| "hasContractField c FRight = (c_right c \<noteq> [])"
| "hasContractField c FMultiplier = (c_multiplier c \<noteq> [])"

definition quoted :: "string \<Rightarrow> string" where
  "quoted s = [CHR 0x22] @ s @ [CHR 0x22]"

definition known_right :: "string \<Rightarrow> bool" where
  "known_right r \<longleftrightarrow> to_upper r \<in> {''C'', ''P'', ''CALL'', ''PUT''}"

text \<open>The list of errors; the result is \<open>ok\<close> when it is empty.\<close>

definition validateContract :: "contract \<Rightarrow> string list" where
  "validateContract c =
     (if c_symbol c = [] then [''symbol is required''] else []) @
     (if c_secType c = [] then [''secType is required'']
      else if \<not> isSecType (c_secType c)
        then [''secType '' @ quoted (c_secType c) @ '' is not a known SecType (allowed: '' @ join '', '' SEC_TYPES @ '')'']
      else []) @
     (if c_exchange c = [] then [''exchange is required''] else []) @
     (if c_currency c = [] then [''currency is required''] else []) @
     (if isSecType (c_secType c) then
        map (\<lambda>f. c_secType c @ '' requires '' @ field_name f)
          (filter (\<lambda>f. \<not> hasContractField c f) (bySecType (c_secType c))) @
        (if (c_secType c = ''OPT'' \<or> c_secType c = ''FOP'') \<and> c_right c \<noteq> [] \<and> \<not> known_right (c_right c)
         then [c_secType c @ '' right must be C/P/CALL/PUT (got '' @ quoted (c_right c) @ '')'']
         else [])
      else [])"

definition assertContract :: "contract \<Rightarrow> js_error + unit" where
  "assertContract c = (if validateContract c = [] then Inr ()
     else Inl (PlainError (''Invalid contract: '' @ join ''; '' (validateContract c))))"

section \<open>Builders\<close>

record build_contract_input =
  bc_symbol :: string
  bc_secType :: string
  bc_exchange :: string
  bc_currency :: string
  bc_localSymbol :: "string option"
  bc_lastTradeDateOrContractMonth :: "string option"
  bc_strike :: "rat option"
  bc_right :: "string option"
  bc_multiplier :: "string option"
  bc_primaryExchange :: "string option"
  bc_conId :: "int option"
  bc_tradingClass :: "string option"
  bc_description :: "string option"

text \<open>\<open>if (v) c.f = v\<close> on a string field whose default is empty.\<close>

definition str_or_default :: "string option \<Rightarrow> string" where
  "str_or_default v = (if truthy v then the v else [])"

definition built_contract :: "build_contract_input \<Rightarrow> contract" where
  "built_contract x = new_contract
     \<lparr>c_symbol := bc_symbol x, c_secType := bc_secType x, c_exchange := bc_exchange x,
      c_currency := bc_currency x,
      c_localSymbol := (case bc_localSymbol x of None \<Rightarrow> bc_symbol x | Some s \<Rightarrow> s),
      c_lastTradeDateOrContractMonth := str_or_default (bc_lastTradeDateOrContractMonth x),
      c_strike := (case bc_strike x of None \<Rightarrow> UNSET_DOUBLE | Some k \<Rightarrow> k),
      c_right := str_or_default (bc_right x), c_multiplier := str_or_default (bc_multiplier x),
      c_primaryExchange := str_or_default (bc_primaryExchange x),
      c_conId := (case bc_conId x of None \<Rightarrow> 0 | Some i \<Rightarrow> i),
      c_tradingClass := str_or_default (bc_tradingClass x),
      c_description := str_or_default (bc_description x)\<rparr>"

definition buildContract :: "build_contract_input \<Rightarrow> js_error + contract" where
  "buildContract x = bindE (assertContract (built_contract x)) (\<lambda>_. Inr (built_contract x))"

record build_position_input =
  bp_contract :: contract
  bp_currency :: string
  bp_side :: side
  bp_quantity :: dec
  bp_avgCost :: string
  bp_marketPrice :: string
  bp_realizedPnL :: string
  bp_multiplier :: "string option"
  bp_marketValue :: "string option"
  bp_unrealizedPnL :: "string option"
  bp_avgCostSource :: "cost_source option"
  bp_risk :: "position_risk option"

definition position_multiplier :: "build_position_input \<Rightarrow> string" where
  "position_multiplier x = (case bp_multiplier x of Some m \<Rightarrow> m
     | None \<Rightarrow> or_str (c_multiplier (bp_contract x)) ''1'')"

definition lost_multiplier_error :: "contract \<Rightarrow> string \<Rightarrow> js_error" where
  "lost_multiplier_error c m = PlainError (''buildPosition: '' @ c_secType c @ '' '' @ c_symbol c @
     '' has multiplier='' @ [CHR 0x27] @ m @ [CHR 0x27] @ '' '' @ em_dash @
     '' upstream broker decode is missing the contract multiplier. Position values would be off by ~100x.'')"

definition position_values :: "decimal_js \<Rightarrow> build_position_input \<Rightarrow> js_error + string \<times> string" where
  "position_values D x =
     (case (bp_marketValue x, bp_unrealizedPnL x) of
        (Some mv, Some pnl) \<Rightarrow> Inr (mv, pnl)
      | (mv, pnl) \<Rightarrow>
          bindE (derivePositionMath D \<lparr>pm_quantity = NDec (bp_quantity x),
              pm_marketPrice = NStr (bp_marketPrice x), pm_avgCost = NStr (bp_avgCost x),
              pm_multiplier = Some (position_multiplier x), pm_side = bp_side x\<rparr>)
            (\<lambda>(dmv, dpnl). Inr (case mv of Some v \<Rightarrow> v | None \<Rightarrow> dmv, case pnl of Some v \<Rightarrow> v | None \<Rightarrow> dpnl)))"

definition buildPosition :: "decimal_js \<Rightarrow> build_position_input \<Rightarrow> js_error + dec position" where
  "buildPosition D x =
     (let m = position_multiplier x; c = bp_contract x in
      if (c_secType c = ''OPT'' \<or> c_secType c = ''FOP'') \<and> (m = ''1'' \<or> m = [])
      then Inl (lost_multiplier_error c m)
      else bindE (position_values D x) (\<lambda>(mv, pnl).
        Inr \<lparr>p_contract = c, p_currency = bp_currency x, p_side = bp_side x,
             p_quantity = bp_quantity x, p_avgCost = bp_avgCost x, p_marketPrice = bp_marketPrice x,
             p_marketValue = mv, p_unrealizedPnL = pnl, p_realizedPnL = bp_realizedPnL x,
             p_multiplier = Some m, p_avgCostSource = bp_avgCostSource x, p_risk = bp_risk x\<rparr>))"

section \<open>Properties\<close>

text \<open>The taxonomy as a predicate on a contract.\<close>

definition well_formed_contract :: "contract \<Rightarrow> bool" where
  "well_formed_contract c \<longleftrightarrow>
     c_symbol c \<noteq> [] \<and> c_exchange c \<noteq> [] \<and> c_currency c \<noteq> [] \<and> isSecType (c_secType c) \<and>
     (c_secType c \<in> {''OPT'', ''FOP'', ''FUT''} \<longrightarrow> c_lastTradeDateOrContractMonth c \<noteq> [] \<and> c_multiplier c \<noteq> []) \<and>
     (c_secType c \<in> {''OPT'', ''FOP''} \<longrightarrow> c_strike c \<noteq> UNSET_DOUBLE \<and> known_right (c_right c))"

lemma known_right_nonempty: "known_right r \<Longrightarrow> r \<noteq> []"
  by (auto simp: known_right_def to_upper_def)

lemma isSecType_nonempty: "isSecType s \<Longrightarrow> s \<noteq> []"
  by (auto simp: isSecType_def SEC_TYPES_def)

lemma validateContract_ok: "validateContract c = [] \<longleftrightarrow> well_formed_contract c"
proof (cases "isSecType (c_secType c)")
  case True
  then show ?thesis
    using isSecType_nonempty [OF True] known_right_nonempty [of "c_right c"]
    by (auto simp: validateContract_def well_formed_contract_def bySecType_def filter_empty_conv split: if_splits)
next
  case False
  then show ?thesis by (auto simp: validateContract_def well_formed_contract_def)
qed

text \<open>The contract builder returns a contract exactly when the fields it was given form a
  well-formed contract of the taxonomy, an option only with expiry, strike, a recognised right and a
  multiplier, a future only with expiry and multiplier; otherwise it throws.\<close>

theorem buildContract_sound:
  "(\<exists>c. buildContract x = Inr c) \<longleftrightarrow> well_formed_contract (built_contract x)"
  by (simp add: buildContract_def assertContract_def validateContract_ok)

text \<open>The position builder never returns an option position without a real multiplier, and
  unless the venue supplied both values the value and PnL of a position are those of the shared
  position math at the position's own multiplier.\<close>

theorem buildPosition_multiplier:
  assumes "buildPosition D x = Inr p"
  shows "\<exists>m. p_multiplier p = Some m \<and>
    (c_secType (p_contract p) \<in> {''OPT'', ''FOP''} \<longrightarrow> m \<noteq> ''1'' \<and> m \<noteq> []) \<and>
    (bp_marketValue x = None \<longrightarrow> bp_unrealizedPnL x = None \<longrightarrow>
       derivePositionMath D \<lparr>pm_quantity = NDec (p_quantity p), pm_marketPrice = NStr (p_marketPrice p),
         pm_avgCost = NStr (p_avgCost p), pm_multiplier = Some m, pm_side = p_side p\<rparr>
       = Inr (p_marketValue p, p_unrealizedPnL p))"
  using assms
  by (auto simp: buildPosition_def Let_def bindE_eq_Inr position_values_def split: if_splits)

section \<open>Witnesses\<close>

lemma buildPosition_multiplier_witness:
  "\<exists>p. buildPosition exact_decimal
      \<lparr>bp_contract = new_contract\<lparr>c_symbol := ''AAPL'', c_secType := ''OPT'', c_multiplier := ''100''\<rparr>,
       bp_currency = ''USD'', bp_side = Long, bp_quantity = Fin 2, bp_avgCost = ''1'', bp_marketPrice = ''3'',
       bp_realizedPnL = ''0'', bp_multiplier = None, bp_marketValue = None, bp_unrealizedPnL = None,
       bp_avgCostSource = None, bp_risk = None\<rparr> = Inr p \<and> p_multiplier p = Some ''100'' \<and> p_marketValue p = ''600''"
proof -
  let ?x = "\<lparr>bp_contract = new_contract\<lparr>c_symbol := ''AAPL'', c_secType := ''OPT'', c_multiplier := ''100''\<rparr>,
       bp_currency = ''USD'', bp_side = Long, bp_quantity = Fin 2, bp_avgCost = ''1'', bp_marketPrice = ''3'',
       bp_realizedPnL = ''0'', bp_multiplier = None, bp_marketValue = None, bp_unrealizedPnL = None,
       bp_avgCostSource = None, bp_risk = None\<rparr>"
  have "case buildPosition exact_decimal ?x of
      Inr p \<Rightarrow> p_multiplier p = Some ''100'' \<and> p_marketValue p = ''600'' | Inl _ \<Rightarrow> False"
    by code_simp
  then obtain p where p: "buildPosition exact_decimal ?x = Inr p" "p_multiplier p = Some ''100''" "p_marketValue p = ''600''"
    by (auto split: sum.splits)
  show ?thesis using buildPosition_multiplier [OF p(1)] p by blast
qed

end
