(* ===== verification/Guards.thy ===== *)
theory Guards
  imports Decimal_Instance Git_Log
begin

text \<open>
  \<open>guards/*.ts\<close>: the three built-in guards, their registry and the pipeline that runs them
  before an operation reaches the broker.  A guard object is a value of \<open>guard\<close>; a check returns
  the verdict (\<open>None\<close> allows) and the object after it, because the cooldown guard remembers the
  last trade.  The pipeline is written over any type of guard objects, since the registry accepts
  guards of other packages; the locale \<open>guard_contract\<close> is what it needs of them.
\<close>

section \<open>Guards\<close>

record guard_context =
  gx_operation :: operation
  gx_positions :: "dec position list"
  gx_account :: account_info

text \<open>
  The options of a guard after \<open>Number(...)\<close>: a JavaScript number is a value of \<open>dec\<close>, \<open>NaN\<close> for
  an option that is no number.
\<close>

record guard_options =
  go_minIntervalMs :: "dec option"
  go_maxPercentOfEquity :: "dec option"
  go_symbols :: "string list option"

datatype guard =
    CooldownGuard dec "(string, int) jsmap"
  | MaxPositionSizeGuard dec
  | SymbolWhitelistGuard "string list"

fun guard_name :: "guard \<Rightarrow> string" where
  "guard_name (CooldownGuard _ _) = ''cooldown''"
| "guard_name (MaxPositionSizeGuard _) = ''max-position-size''"
| "guard_name (SymbolWhitelistGuard _) = ''symbol-whitelist''"

definition DEFAULT_MIN_INTERVAL_MS :: dec where
  "DEFAULT_MIN_INTERVAL_MS = Fin 60000"

definition DEFAULT_MAX_PERCENT :: dec where
  "DEFAULT_MAX_PERCENT = Fin 25"

definition new_cooldown :: "guard_options \<Rightarrow> js_error + guard" where
  "new_cooldown opts = Inr (CooldownGuard
     (case go_minIntervalMs opts of None \<Rightarrow> DEFAULT_MIN_INTERVAL_MS | Some m \<Rightarrow> m) [])"

definition new_max_position :: "guard_options \<Rightarrow> js_error + guard" where
  "new_max_position opts = Inr (MaxPositionSizeGuard
     (case go_maxPercentOfEquity opts of None \<Rightarrow> DEFAULT_MAX_PERCENT | Some m \<Rightarrow> m))"

definition new_whitelist :: "guard_options \<Rightarrow> js_error + guard" where
  "new_whitelist opts = (case go_symbols opts of
     None \<Rightarrow> Inl (PlainError (''symbol-whitelist guard requires a non-empty '' @ [CHR 0x22] @ ''symbols'' @ [CHR 0x22] @ '' array in options''))
   | Some [] \<Rightarrow> Inl (PlainError (''symbol-whitelist guard requires a non-empty '' @ [CHR 0x22] @ ''symbols'' @ [CHR 0x22] @ '' array in options''))
   | Some ss \<Rightarrow> Inr (SymbolWhitelistGuard ss))"

text \<open>A number in a template string.\<close>

fun num_text :: "decimal_js \<Rightarrow> dec \<Rightarrow> string" where
  "num_text D (Fin r) = dj_num_str D r"
| "num_text D PosInf = ''Infinity''"
| "num_text D NegInf = ''-Infinity''"
| "num_text D NotANumber = ''NaN''"

fun remaining_secs :: "dec \<Rightarrow> int \<Rightarrow> dec" where
  "remaining_secs (Fin m) elapsed = Fin (of_int \<lceil>(m - of_int elapsed) / 1000\<rceil>)"
| "remaining_secs d elapsed = d"

definition cooldown_check ::
  "decimal_js \<Rightarrow> guard_context \<Rightarrow> dec \<Rightarrow> (string, int) jsmap \<Rightarrow> int \<Rightarrow> string option \<times> (string, int) jsmap"
where
  "cooldown_check D ctx minInterval lastTrade now =
     (if op_action (gx_operation ctx) \<noteq> ActPlaceOrder then (None, lastTrade)
      else let symbol = getOperationSymbol (Some (gx_operation ctx)) in
        (case jm_get lastTrade symbol of
           Some lastTime \<Rightarrow>
             (if d_lt (Fin (of_int (now - lastTime))) minInterval
              then (Some (''Cooldown active for '' @ symbol @ '': '' @
                      num_text D (remaining_secs minInterval (now - lastTime)) @ ''s remaining''), lastTrade)
              else (None, jm_set symbol now lastTrade))
         | None \<Rightarrow> (None, jm_set symbol now lastTrade)))"

text \<open>A field of an order that the guard reads: calling \<open>equals\<close> of a missing one throws.\<close>

definition added_value :: "decimal_js \<Rightarrow> order \<Rightarrow> dec position option \<Rightarrow> js_error + dec" where
  "added_value D od existing =
     bindE (unsetToUndef (o_cashQty od)) (\<lambda>cashQty.
     bindE (unsetToUndef (o_totalQuantity od)) (\<lambda>qty.
       case (cashQty, qty, existing) of
         (Some c, q, ex) \<Rightarrow>
           (if d_gt c (Fin 0) then Inr c
            else (case (q, ex) of
                    (Some n, Some p) \<Rightarrow> bindE (new_dec D (p_marketPrice p)) (\<lambda>mp. Inr (dj_times D n mp))
                  | _ \<Rightarrow> Inr (Fin 0)))
       | (None, Some n, Some p) \<Rightarrow> bindE (new_dec D (p_marketPrice p)) (\<lambda>mp. Inr (dj_times D n mp))
       | _ \<Rightarrow> Inr (Fin 0)))"

definition percent_of_equity :: "decimal_js \<Rightarrow> dec \<Rightarrow> dec \<Rightarrow> dec" where
  "percent_of_equity D projected netLiq =
     (if d_gt netLiq (Fin 0) then dj_times D (dj_div D projected netLiq) (Fin 100) else Fin 0)"

definition max_position_check :: "decimal_js \<Rightarrow> guard_context \<Rightarrow> dec \<Rightarrow> js_error + string option" where
  "max_position_check D ctx maxPercent =
     (case gx_operation ctx of
        PlaceOrder c od t \<Rightarrow>
          (let symbol = c_symbol c;
               existing = find (\<lambda>p. c_symbol (p_contract p) = symbol) (gx_positions ctx) in
           bindE (new_dec D (case existing of None \<Rightarrow> ''0'' | Some p \<Rightarrow> p_marketValue p)) (\<lambda>currentValue.
           bindE (added_value D od existing) (\<lambda>added.
             if d_isZero added then Inr None
             else
               bindE (new_dec D (ai_netLiquidation (gx_account ctx))) (\<lambda>netLiq.
               let percent = percent_of_equity D (dj_plus D currentValue added) netLiq in
               Inr (if d_gt percent maxPercent
                    then Some (''Position for '' @ symbol @ '' would be '' @ dj_to_fixed_dp D 1 percent @
                           ''% of equity (limit: '' @ num_text D maxPercent @ ''%)'')
                    else None)))))
      | _ \<Rightarrow> Inr None)"

definition whitelist_check :: "guard_context \<Rightarrow> string list \<Rightarrow> string option" where
  "whitelist_check ctx allowed =
     (let symbol = getOperationSymbol (Some (gx_operation ctx)) in
      if symbol = ''unknown'' then None
      else if symbol \<notin> set allowed then Some (''Symbol '' @ symbol @ '' is not in the allowed list'')
      else None)"

text \<open>\<open>clk\<close> is \<open>Date.now()\<close>.\<close>

fun guard_check ::
  "decimal_js \<Rightarrow> ('w \<Rightarrow> int) \<Rightarrow> guard_context \<Rightarrow> guard \<Rightarrow> 'w \<Rightarrow> (js_error + string option) \<times> guard"
where
  "guard_check D clk ctx (CooldownGuard m lastTrade) w =
     (case cooldown_check D ctx m lastTrade (clk w) of (v, l) \<Rightarrow> (Inr v, CooldownGuard m l))"
| "guard_check D clk ctx (MaxPositionSizeGuard m) w = (max_position_check D ctx m, MaxPositionSizeGuard m)"
| "guard_check D clk ctx (SymbolWhitelistGuard ss) w = (Inr (whitelist_check ctx ss), SymbolWhitelistGuard ss)"

section \<open>Registry\<close>

type_synonym 'g registry = "(string, guard_options \<Rightarrow> js_error + 'g) jsmap"

definition builtinGuards :: "guard registry" where
  "builtinGuards = [(''max-position-size'', new_max_position), (''cooldown'', new_cooldown),
     (''symbol-whitelist'', new_whitelist)]"

definition registerGuard :: "string \<Rightarrow> (guard_options \<Rightarrow> js_error + 'g) \<Rightarrow> 'g registry \<Rightarrow> 'g registry" where
  "registerGuard ty create reg = jm_set ty create reg"

definition no_options :: guard_options where
  "no_options = \<lparr>go_minIntervalMs = None, go_maxPercentOfEquity = None, go_symbols = None\<rparr>"

text \<open>An entry of unknown type is skipped with a warning.\<close>

fun resolveGuards :: "'g registry \<Rightarrow> (string \<times> guard_options option) list \<Rightarrow> js_error + 'g list" where
  "resolveGuards reg [] = Inr []"
| "resolveGuards reg ((ty, opts) # cfgs) =
     (case jm_get reg ty of
        None \<Rightarrow> resolveGuards reg cfgs
      | Some create \<Rightarrow>
          bindE (create (case opts of None \<Rightarrow> no_options | Some ops \<Rightarrow> ops)) (\<lambda>g.
          bindE (resolveGuards reg cfgs) (\<lambda>gs. Inr (g # gs))))"

section \<open>Pipeline\<close>

text \<open>
  The two reads of \<open>Promise.all\<close> both start; the model runs them in the order of the list and
  lets the first failure win.
\<close>

record 'w account_view =
  av_getPositions :: "'w \<Rightarrow> (js_error + dec position list) \<times> 'w"
  av_getAccount :: "'w \<Rightarrow> (js_error + account_info) \<times> 'w"

definition fetch_context ::
  "'w account_view \<Rightarrow> operation \<Rightarrow> 'w \<Rightarrow> (js_error + guard_context) \<times> 'w"
where
  "fetch_context av op w =
     (let (ps, w1) = av_getPositions av w; (acc, w2) = av_getAccount av w1 in
      (bindE ps (\<lambda>p. bindE acc (\<lambda>a.
         Inr \<lparr>gx_operation = op, gx_positions = p, gx_account = a\<rparr>)), w2))"

text \<open>The loop over the guards: the first rejection ends it.\<close>

fun run_guards ::
  "('g \<Rightarrow> string) \<Rightarrow> (guard_context \<Rightarrow> 'g \<Rightarrow> 'w \<Rightarrow> (js_error + string option) \<times> 'g)
    \<Rightarrow> guard_context \<Rightarrow> 'g list \<Rightarrow> 'w \<Rightarrow> (js_error + string option) \<times> 'g list"
where
  "run_guards name check ctx [] w = (Inr None, [])"
| "run_guards name check ctx (g # gs) w =
     (case check ctx g w of
        (Inl e, g') \<Rightarrow> (Inl e, g' # gs)
      | (Inr (Some rejection), g') \<Rightarrow> (Inr (Some (''[guard:'' @ name g' @ ''] '' @ rejection)), g' # gs)
      | (Inr None, g') \<Rightarrow> (case run_guards name check ctx gs w of (v, gs') \<Rightarrow> (v, g' # gs')))"

definition guard_rejection :: "string \<Rightarrow> raw" where
  "guard_rejection msg = RawObj \<lparr>ro_success = False, ro_error = Some msg, ro_orderId = None,
     ro_orderState = None, ro_legs = None\<rparr>"

definition createGuardPipeline ::
  "('g \<Rightarrow> string) \<Rightarrow> (guard_context \<Rightarrow> 'g \<Rightarrow> 'w \<Rightarrow> (js_error + string option) \<times> 'g)
    \<Rightarrow> (operation \<Rightarrow> 'w \<Rightarrow> (js_error + raw) \<times> 'w) \<Rightarrow> 'w account_view
    \<Rightarrow> operation \<Rightarrow> 'g list \<Rightarrow> 'w \<Rightarrow> (js_error + raw) \<times> 'g list \<times> 'w"
where
  "createGuardPipeline name check dispatcher av op gs w =
     (if gs = [] then (case dispatcher op w of (r, w1) \<Rightarrow> (r, gs, w1))
      else case fetch_context av op w of
        (Inl e, w1) \<Rightarrow> (Inl e, gs, w1)
      | (Inr ctx, w1) \<Rightarrow>
          (case run_guards name check ctx gs w1 of
             (Inl e, gs1) \<Rightarrow> (Inl e, gs1, w1)
           | (Inr (Some msg), gs1) \<Rightarrow> (Inr (guard_rejection msg), gs1, w1)
           | (Inr None, gs1) \<Rightarrow> (case dispatcher op w1 of (r, w2) \<Rightarrow> (r, gs1, w2))))"

section \<open>What a guard must promise\<close>

locale guard_contract =
  fixes name :: "'g \<Rightarrow> string"
    and check :: "guard_context \<Rightarrow> 'g \<Rightarrow> 'w \<Rightarrow> (js_error + string option) \<times> 'g"
    and permits :: "guard_context \<Rightarrow> 'g \<Rightarrow> 'w \<Rightarrow> bool"
  assumes check_permits: "check ctx g w = (Inr None, g') \<Longrightarrow> permits ctx g w"
    and check_name: "check ctx g w = (v, g') \<Longrightarrow> name g' = name g"
begin

lemma run_each:
  "run_guards name check ctx gs w = (v, gs') \<Longrightarrow> i < length gs \<Longrightarrow>
    length gs' = length gs \<and> (gs' ! i = gs ! i \<or> gs' ! i = snd (check ctx (gs ! i) w))"
proof (induction gs arbitrary: v gs' i)
  case Nil
  then show ?case by simp
next
  case (Cons g gs)
  show ?case
  proof (cases "fst (check ctx g w) = Inr None")
    case True
    then obtain g1 where g1: "check ctx g w = (Inr None, g1)" by (metis prod.collapse)
    obtain v2 gs2 where r: "run_guards name check ctx gs w = (v2, gs2)" by (metis prod.exhaust)
    have len: "length gs2 = length gs"
      using Cons.IH [OF r] r by (cases gs) auto
    from Cons.prems g1 r have "gs' = g1 # gs2" by simp
    with g1 len Cons.IH [OF r] Cons.prems(2) show ?thesis by (cases i) auto
  next
    case False
    then have "gs' = snd (check ctx g w) # gs"
      using Cons.prems(1) by (auto split: prod.splits sum.splits option.splits)
    then show ?thesis using Cons.prems(2) by (cases i) auto
  qed
qed

lemma run_length: "run_guards name check ctx gs w = (v, gs') \<Longrightarrow> length gs' = length gs"
  using run_each [of ctx gs w v gs' 0] by (cases gs) auto

lemma run_passed:
  "run_guards name check ctx gs w = (Inr None, gs') \<Longrightarrow> i < length gs \<Longrightarrow>
    check ctx (gs ! i) w = (Inr None, gs' ! i)"
proof (induction gs arbitrary: gs' i)
  case Nil
  then show ?case by simp
next
  case (Cons g gs)
  from Cons.prems(1) obtain g1 gs2 where "check ctx g w = (Inr None, g1)"
    "run_guards name check ctx gs w = (Inr None, gs2)" "gs' = g1 # gs2"
    by (auto split: prod.splits sum.splits option.splits)
  with Cons show ?case by (cases i) auto
qed

lemma run_permits:
  "run_guards name check ctx gs w = (Inr None, gs') \<Longrightarrow> g \<in> set gs \<Longrightarrow> permits ctx g w"
  using run_passed check_permits by (metis in_set_conv_nth)

lemma run_names:
  "run_guards name check ctx gs w = (v, gs') \<Longrightarrow> map name gs' = map name gs"
proof (rule nth_equalityI)
  assume r: "run_guards name check ctx gs w = (v, gs')"
  show "length (map name gs') = length (map name gs)" by (simp add: run_length [OF r])
  fix i assume "i < length (map name gs')"
  then have i: "i < length gs" "i < length gs'" by (simp_all add: run_length [OF r])
  have "name (snd (check ctx (gs ! i) w)) = name (gs ! i)"
    by (rule check_name [of ctx "gs ! i" w "fst (check ctx (gs ! i) w)"]) simp
  then show "map name gs' ! i = map name gs ! i"
    using run_each [OF r i(1)] i by auto
qed

end

text \<open>What each built-in guard permits, without its memory and its messages.\<close>

definition places :: "operation \<Rightarrow> bool" where
  "places op \<longleftrightarrow> op_action op = ActPlaceOrder"

definition op_symbol :: "operation \<Rightarrow> string" where
  "op_symbol op = getOperationSymbol (Some op)"

fun guard_permits :: "decimal_js \<Rightarrow> ('w \<Rightarrow> int) \<Rightarrow> guard_context \<Rightarrow> guard \<Rightarrow> 'w \<Rightarrow> bool" where
  "guard_permits D clk ctx (CooldownGuard m lastTrade) w =
     (places (gx_operation ctx) \<longrightarrow>
        (case jm_get lastTrade (op_symbol (gx_operation ctx)) of None \<Rightarrow> True
         | Some t \<Rightarrow> \<not> d_lt (Fin (of_int (clk w - t))) m))"
| "guard_permits D clk ctx (MaxPositionSizeGuard m) w = (max_position_check D ctx m = Inr None)"
| "guard_permits D clk ctx (SymbolWhitelistGuard ss) w =
     (op_symbol (gx_operation ctx) \<in> insert ''unknown'' (set ss))"

interpretation bg: guard_contract guard_name "guard_check D clk" "guard_permits D clk" for D clk
proof unfold_locales
  fix ctx g and w :: 'a and g'
  assume "guard_check D clk ctx g w = (Inr None, g')"
  then show "guard_permits D clk ctx g w"
    by (cases g) (auto simp: cooldown_check_def whitelist_check_def places_def op_symbol_def Let_def
        split: prod.splits if_splits option.splits)
next
  fix ctx g and w :: 'a and v g'
  assume "guard_check D clk ctx g w = (v, g')"
  then show "guard_name g' = guard_name g"
    by (cases g) (auto split: prod.splits)
qed

section \<open>Runs of the pipeline\<close>

text \<open>
  A run of guarded calls.  Between two calls the world moves by an arbitrary \<open>env\<close>; the second
  component of the world is a ghost log of what reached the dispatcher, and when.
\<close>

definition logged ::
  "(operation \<Rightarrow> 'w \<Rightarrow> (js_error + raw) \<times> 'w) \<Rightarrow> ('w \<Rightarrow> int) \<Rightarrow> operation \<Rightarrow> 'w \<times> (operation \<times> int) list
    \<Rightarrow> (js_error + raw) \<times> 'w \<times> (operation \<times> int) list"
where
  "logged disp clk op wl = (case disp op (fst wl) of (r, w1) \<Rightarrow> (r, w1, snd wl @ [(op, clk (fst wl))]))"

definition lift_view :: "'w account_view \<Rightarrow> ('w \<times> 'l) account_view" where
  "lift_view av = \<lparr>av_getPositions = (\<lambda>(w, l). case av_getPositions av w of (r, w1) \<Rightarrow> (r, w1, l)),
                   av_getAccount = (\<lambda>(w, l). case av_getAccount av w of (r, w1) \<Rightarrow> (r, w1, l))\<rparr>"

definition guarded_call ::
  "decimal_js \<Rightarrow> ('w \<Rightarrow> int) \<Rightarrow> (operation \<Rightarrow> 'w \<Rightarrow> (js_error + raw) \<times> 'w) \<Rightarrow> 'w account_view
    \<Rightarrow> operation \<Rightarrow> guard list \<Rightarrow> 'w \<times> (operation \<times> int) list
    \<Rightarrow> (js_error + raw) \<times> guard list \<times> 'w \<times> (operation \<times> int) list"
where
  "guarded_call D clk disp av op gs wl =
     createGuardPipeline guard_name (guard_check D (clk \<circ> fst)) (logged disp clk) (lift_view av) op gs wl"

fun guarded_run ::
  "decimal_js \<Rightarrow> ('w \<Rightarrow> int) \<Rightarrow> (operation \<Rightarrow> 'w \<Rightarrow> (js_error + raw) \<times> 'w) \<Rightarrow> 'w account_view
    \<Rightarrow> (('w \<Rightarrow> 'w) \<times> operation) list \<Rightarrow> guard list \<Rightarrow> 'w \<times> (operation \<times> int) list
    \<Rightarrow> guard list \<times> 'w \<times> (operation \<times> int) list"
where
  "guarded_run D clk disp av [] gs wl = (gs, wl)"
| "guarded_run D clk disp av ((env, op) # calls) gs wl =
     (case guarded_call D clk disp av op gs (env (fst wl), snd wl) of
        (r, gs1, wl1) \<Rightarrow> guarded_run D clk disp av calls gs1 wl1)"

text \<open>\<open>Date.now()\<close> does not run backwards over any step.\<close>

definition clock_forward ::
  "('w \<Rightarrow> int) \<Rightarrow> (operation \<Rightarrow> 'w \<Rightarrow> (js_error + raw) \<times> 'w) \<Rightarrow> 'w account_view \<Rightarrow> (('w \<Rightarrow> 'w) \<times> operation) list \<Rightarrow> bool"
where
  "clock_forward clk disp av calls \<longleftrightarrow>
     (\<forall>op w. clk w \<le> clk (snd (disp op w))) \<and>
     (\<forall>w. clk w \<le> clk (snd (av_getPositions av w)) \<and> clk w \<le> clk (snd (av_getAccount av w))) \<and>
     (\<forall>(env, op) \<in> set calls. \<forall>w. clk w \<le> clk (env w))"

definition spaced :: "dec \<Rightarrow> (operation \<times> int) list \<Rightarrow> bool" where
  "spaced m tr = sorted_wrt (\<lambda>(op1, t1) (op2, t2). places op1 \<longrightarrow> places op2 \<longrightarrow>
     op_symbol op1 = op_symbol op2 \<longrightarrow> \<not> d_lt (Fin (of_int (t2 - t1))) m) tr"

definition cooldown_inv :: "dec \<Rightarrow> nat \<Rightarrow> guard list \<Rightarrow> int \<Rightarrow> (operation \<times> int) list \<Rightarrow> bool" where
  "cooldown_inv m k gs now tr \<longleftrightarrow> k < length gs \<and> spaced m tr \<and>
     (\<exists>lt. gs ! k = CooldownGuard m lt \<and> (\<forall>s t. jm_get lt s = Some t \<longrightarrow> t \<le> now) \<and>
        (\<forall>(op, t) \<in> set tr. places op \<longrightarrow> (\<exists>t'. jm_get lt (op_symbol op) = Some t' \<and> t \<le> t')))"

lemma d_lt_earlier: "t \<le> t' \<Longrightarrow> d_lt (Fin (of_int (now - t))) m \<Longrightarrow> d_lt (Fin (of_int (now - t'))) m"
  by (cases m) (auto elim: le_less_trans [rotated])

lemma cooldown_step:
  assumes "guard_check D clk ctx (CooldownGuard m lt) w = (v, g')"
  obtains lt' where "g' = CooldownGuard m lt'"
    "\<And>s. jm_get lt' s = jm_get lt s \<or> jm_get lt' s = Some (clk w)"
    "v = Inr None \<Longrightarrow> places (gx_operation ctx) \<Longrightarrow> jm_get lt' (op_symbol (gx_operation ctx)) = Some (clk w)"
proof -
  obtain x lt' where c: "cooldown_check D ctx m lt (clk w) = (x, lt')" by (metis prod.exhaust)
  have *: "jm_get lt' s = jm_get lt s \<or> jm_get lt' s = Some (clk w)" for s
    using c by (auto simp: cooldown_check_def Let_def jm.lookup_set split: if_splits option.splits)
  have **: "x = None \<Longrightarrow> places (gx_operation ctx) \<Longrightarrow> jm_get lt' (op_symbol (gx_operation ctx)) = Some (clk w)"
    using c by (auto simp: cooldown_check_def Let_def places_def op_symbol_def split: if_splits option.splits)
  show thesis
    using that [of lt'] assms c * ** by auto
qed

lemma cooldown_inv_later: "cooldown_inv m k gs now tr \<Longrightarrow> now \<le> now' \<Longrightarrow> cooldown_inv m k gs now' tr"
  unfolding cooldown_inv_def by (meson order.trans)

lemma cooldown_inv_run:
  assumes r: "run_guards guard_name (guard_check D clk) ctx gs w = (v, gs')"
    and inv: "cooldown_inv m k gs now tr" and now: "now \<le> clk w"
  shows "cooldown_inv m k gs' (clk w) tr"
proof -
  from inv obtain lt where k: "k < length gs" and lt: "gs ! k = CooldownGuard m lt"
    and old: "\<forall>s t. jm_get lt s = Some t \<longrightarrow> t \<le> now"
    and cov: "\<forall>(op, t) \<in> set tr. places op \<longrightarrow> (\<exists>t'. jm_get lt (op_symbol op) = Some t' \<and> t \<le> t')"
    by (auto simp: cooldown_inv_def)
  obtain v' g' where g': "guard_check D clk ctx (CooldownGuard m lt) w = (v', g')" by (metis prod.exhaust)
  obtain lt' where lt': "g' = CooldownGuard m lt'"
    "\<And>s. jm_get lt' s = jm_get lt s \<or> jm_get lt' s = Some (clk w)"
    using cooldown_step [OF g'] by metis
  have "\<exists>l. gs' ! k = CooldownGuard m l \<and> (\<forall>s. jm_get l s = jm_get lt s \<or> jm_get l s = Some (clk w))"
    using bg.run_each [OF r k] lt g' lt' by auto
  then obtain l where l: "gs' ! k = CooldownGuard m l"
    "\<And>s. jm_get l s = jm_get lt s \<or> jm_get l s = Some (clk w)" by blast
  have o': "t \<le> clk w" if "jm_get l s = Some t" for s t
  proof -
    have "jm_get lt s = Some t \<or> t = clk w" using l(2) [of s] that by auto
    then show ?thesis using old now by (meson order.refl order.trans)
  qed
  have c': "\<exists>t'. jm_get l (op_symbol op) = Some t' \<and> t \<le> t'" if "(op, t) \<in> set tr" "places op" for op t
  proof -
    from cov that obtain t' where "jm_get lt (op_symbol op) = Some t'" "t \<le> t'" by auto
    then show ?thesis using l(2) [of "op_symbol op"] old now by force
  qed
  show ?thesis using inv k l(1) o' c' bg.run_length [OF r] by (auto simp: cooldown_inv_def)
qed

lemma spaced_append:
  "spaced m (tr @ [(op, t)]) \<longleftrightarrow> spaced m tr \<and>
    (\<forall>(op1, t1) \<in> set tr. places op1 \<longrightarrow> places op \<longrightarrow> op_symbol op1 = op_symbol op \<longrightarrow>
       \<not> d_lt (Fin (of_int (t - t1))) m)"
  by (auto simp: spaced_def sorted_wrt_append)

lemma cooldown_inv_passed:
  assumes r: "run_guards guard_name (guard_check D clk) ctx gs w = (Inr None, gs')"
    and inv: "cooldown_inv m k gs now tr" and now: "now \<le> clk w"
  shows "cooldown_inv m k gs' (clk w) (tr @ [(gx_operation ctx, clk w)])"
proof -
  let ?op = "gx_operation ctx"
  from inv obtain lt where k: "k < length gs" and lt: "gs ! k = CooldownGuard m lt"
    and cov: "\<forall>(op, t) \<in> set tr. places op \<longrightarrow> (\<exists>t'. jm_get lt (op_symbol op) = Some t' \<and> t \<le> t')"
    and sp: "spaced m tr"
    by (auto simp: cooldown_inv_def)
  have chk: "guard_check D clk ctx (CooldownGuard m lt) w = (Inr None, gs' ! k)"
    using bg.run_passed [OF r k] lt by simp
  have perm: "guard_permits D clk ctx (CooldownGuard m lt) w" by (rule bg.check_permits [OF chk])
  obtain lt' where lt': "gs' ! k = CooldownGuard m lt'"
    "places ?op \<Longrightarrow> jm_get lt' (op_symbol ?op) = Some (clk w)"
    by (rule cooldown_step [OF chk]) auto
  have far: "\<not> d_lt (Fin (of_int (clk w - t1))) m"
    if t1: "(op1, t1) \<in> set tr" "places op1" "places ?op" "op_symbol op1 = op_symbol ?op" for op1 t1
  proof -
    from cov t1 obtain t' where "jm_get lt (op_symbol ?op) = Some t'" "t1 \<le> t'" by force
    with perm t1(3) show ?thesis using d_lt_earlier [of t1 t' "clk w" m] by auto
  qed
  from cooldown_inv_run [OF r inv now]
  have "cooldown_inv m k gs' (clk w) tr" .
  moreover have "spaced m (tr @ [(?op, clk w)])" using sp far by (auto simp: spaced_append)
  ultimately show ?thesis using lt' by (auto simp: cooldown_inv_def)
qed

lemma fetch_context_forward:
  assumes "fetch_context (lift_view av) op (w, tr) = (r, w1, tr1)" and "clock_forward clk disp av calls"
  shows "tr1 = tr" "clk w \<le> clk w1" "\<And>ctx. r = Inr ctx \<Longrightarrow> gx_operation ctx = op"
proof -
  obtain r1 v1 where p: "av_getPositions av w = (r1, v1)" by (metis prod.exhaust)
  obtain r2 v2 where a: "av_getAccount av v1 = (r2, v2)" by (metis prod.exhaust)
  have r: "r = bindE r1 (\<lambda>p. bindE r2 (\<lambda>a. Inr \<lparr>gx_operation = op, gx_positions = p, gx_account = a\<rparr>))"
    "w1 = v2" "tr1 = tr"
    using assms(1) by (simp_all add: fetch_context_def lift_view_def p a)
  have "clk w \<le> clk v1" "clk v1 \<le> clk v2"
    using assms(2) p a by (auto simp: clock_forward_def dest: spec [of _ w] spec [of _ v1])
  with r show "tr1 = tr" "clk w \<le> clk w1" "\<And>ctx. r = Inr ctx \<Longrightarrow> gx_operation ctx = op"
    by (auto simp: bindE_eq_Inr)
qed

lemma cooldown_inv_call:
  assumes c: "guarded_call D clk disp av op gs (w, tr) = (r, gs1, w1, tr1)"
    and inv: "cooldown_inv m k gs now tr" and now: "now \<le> clk w" and fw: "clock_forward clk disp av calls"
  shows "cooldown_inv m k gs1 (clk w1) tr1"
proof -
  have ne: "gs \<noteq> []" using inv by (auto simp: cooldown_inv_def)
  obtain cx w2 tr2 where f: "fetch_context (lift_view av) op (w, tr) = (cx, w2, tr2)" by (metis prod.exhaust)
  note ff = fetch_context_forward [OF f fw]
  have le: "now \<le> (clk \<circ> fst) (w2, tr2)" using now ff(2) by simp
  have disp: "clk w2 \<le> clk w'" if "disp op w2 = (x, w')" for x w'
    using fw that by (auto simp: clock_forward_def dest!: spec [of _ op] spec [of _ w2])
  show ?thesis
  proof (cases cx)
    case (Inl e)
    with c ne f have "gs1 = gs" "w1 = w2" "tr1 = tr2" by (simp_all add: guarded_call_def createGuardPipeline_def)
    then show ?thesis using cooldown_inv_later [OF inv] le ff(1) by simp
  next
    case (Inr ctx)
    obtain v gs2 where r: "run_guards guard_name (guard_check D (clk \<circ> fst)) ctx gs (w2, tr2) = (v, gs2)"
      by (metis prod.exhaust)
    show ?thesis
    proof (cases "v = Inr None")
      case True
      obtain x w3 where d: "disp op w2 = (x, w3)" by (metis prod.exhaust)
      have eq: "gs1 = gs2" "w1 = w3" "tr1 = tr @ [(op, clk w2)]"
        using c ne f Inr r True d ff(1) by (simp_all add: guarded_call_def createGuardPipeline_def logged_def)
      have "cooldown_inv m k gs2 (clk w2) (tr @ [(op, clk w2)])"
        using cooldown_inv_passed [OF r [unfolded True] inv le] ff(3) [OF Inr] by simp
      then show ?thesis using cooldown_inv_later disp [OF d] eq by auto
    next
      case False
      then have "gs1 = gs2" "w1 = w2" "tr1 = tr"
        using c ne f Inr r ff(1) by (auto simp: guarded_call_def createGuardPipeline_def split: sum.splits option.splits)
      then show ?thesis using cooldown_inv_run [OF r inv le] by simp
    qed
  qed
qed

lemma cooldown_inv_guarded_run:
  assumes "guarded_run D clk disp av calls gs (w, tr) = (gs', w', tr')"
    and "cooldown_inv m k gs now tr" "now \<le> clk w" "clock_forward clk disp av calls"
  shows "spaced m tr'"
  using assms
proof (induction calls arbitrary: gs w tr now)
  case Nil
  then show ?case by (simp add: cooldown_inv_def)
next
  case (Cons x calls)
  obtain env op where x: "x = (env, op)" by (metis prod.exhaust)
  obtain r gs1 w1 tr1 where c: "guarded_call D clk disp av op gs (env w, tr) = (r, gs1, w1, tr1)"
    by (metis prod.exhaust)
  have fw: "clock_forward clk disp av calls" using Cons.prems(4) by (simp add: clock_forward_def)
  have "clk w \<le> clk (env w)" using Cons.prems(4) by (simp add: clock_forward_def x)
  then have le: "now \<le> clk (env w)" using Cons.prems(3) by simp
  have "guarded_run D clk disp av calls gs1 (w1, tr1) = (gs', w', tr')"
    using Cons.prems(1) x c by simp
  then show ?case
    using Cons.IH cooldown_inv_call [OF c Cons.prems(2) le fw] fw by blast
qed

section \<open>Properties\<close>

text \<open>C16: with a cooldown guard in the pipeline, any two new orders for the same symbol that reach
  the broker are at least the configured interval apart, whatever the other guards, the broker and
  the account answer, as long as the clock does not run backwards.\<close>

theorem cooldown_spacing:
  assumes "CooldownGuard m [] \<in> set gs" and "clock_forward clk disp av calls"
    and "guarded_run D clk disp av calls gs (w, []) = (gs', w', tr)"
  shows "spaced m tr"
proof -
  obtain k where "k < length gs" "gs ! k = CooldownGuard m []"
    using assms(1) by (metis in_set_conv_nth)
  then have "cooldown_inv m k gs (clk w) []" by (simp add: cooldown_inv_def spaced_def)
  with assms(2,3) show ?thesis by (blast intro: cooldown_inv_guarded_run)
qed

text \<open>With exact arithmetic the position-size guard, capped at \<open>m\<close> percent, admits a quantity
  order on a held symbol exactly when the held value plus quantity times price stays within \<open>m\<close>
  percent of a positive net liquidation; on an account whose net liquidation is not positive it
  admits everything, and neither the contract's multiplier nor the side of the order enters.\<close>

theorem max_position_verdict:
  assumes "decimal_exact D rnd" "0 \<le> m"
    and "find (\<lambda>p. c_symbol (p_contract p) = c_symbol c) ps = Some p"
    and "od = new_order\<lparr>o_action := Some act, o_totalQuantity := Some (DVal (Fin n))\<rparr>"
    and "0 < n" "Fin n \<noteq> UNSET_DECIMAL" "0 < mp"
    and "dj_parse D (p_marketPrice p) = Some (Fin mp)" "dj_parse D (p_marketValue p) = Some (Fin mv)"
    and "dj_parse D (ai_netLiquidation acc) = Some (Fin nl)"
  shows "max_position_check D
        \<lparr>gx_operation = PlaceOrder c od t, gx_positions = ps, gx_account = acc\<rparr> (Fin m) = Inr None
      \<longleftrightarrow> nl \<le> 0 \<or> (mv + n * mp) / nl * 100 \<le> m"
  using assms(2-) decimal_exact.exact_arith [OF assms(1)]
  by (auto simp: max_position_check_def Let_def added_value_def new_order_def new_dec_def unsetToUndef_def
      percent_of_equity_def d_equals_def not_less d_gt_def)

section \<open>Witnesses\<close>

text \<open>A world that is its own clock; every call takes ten milliseconds.\<close>

definition demo_buy :: operation where
  "demo_buy = PlaceOrder (new_contract\<lparr>c_symbol := ''AAPL''\<rparr>) new_order None"

definition clock_disp :: "operation \<Rightarrow> int \<Rightarrow> (js_error + raw) \<times> int" where
  "clock_disp op w = (Inr RawInvalid, w + 10)"

definition empty_account :: account_info where
  "empty_account = \<lparr>ai_baseCurrency = ''USD'', ai_netLiquidation = ''100'', ai_totalCashValue = ''100'',
     ai_unrealizedPnL = ''0'', ai_realizedPnL = None, ai_buyingPower = None, ai_initMarginReq = None,
     ai_maintMarginReq = None, ai_dayTradesRemaining = None\<rparr>"

definition clock_view :: "int account_view" where
  "clock_view = \<lparr>av_getPositions = (\<lambda>w. (Inr [], w)), av_getAccount = (\<lambda>w. (Inr empty_account, w))\<rparr>"

definition demo_calls :: "((int \<Rightarrow> int) \<times> operation) list" where
  "demo_calls = [(\<lambda>w. w, demo_buy), (\<lambda>w. w + 100, demo_buy), (\<lambda>w. w + 60000, demo_buy)]"

lemma cooldown_spacing_witness:
  "\<exists>gs' w'. guarded_run exact_decimal (\<lambda>w. w) clock_disp clock_view demo_calls [CooldownGuard (Fin 60000) []] (0, [])
      = (gs', w', [(demo_buy, 0), (demo_buy, 60110)]) \<and> spaced (Fin 60000) [(demo_buy, 0), (demo_buy, 60110)]"
proof -
  let ?run = "guarded_run exact_decimal (\<lambda>w. w) clock_disp clock_view demo_calls [CooldownGuard (Fin 60000) []] (0, [])"
  have "snd (snd ?run) = [(demo_buy, 0), (demo_buy, 60110)]" by code_simp
  then obtain gs' w' where r: "?run = (gs', w', [(demo_buy, 0), (demo_buy, 60110)])"
    by (metis prod.collapse)
  have "clock_forward (\<lambda>w. w) clock_disp clock_view demo_calls"
    by (simp add: clock_forward_def clock_disp_def clock_view_def demo_calls_def)
  from cooldown_spacing [OF _ this r] r show ?thesis by auto
qed

text \<open>Ten options at 3 with multiplier 100, on an account of 1000 of which none is held yet in
  value: the true exposure is three times the equity, the guard sees 3 percent.\<close>

definition demo_option :: "dec position" where
  "demo_option = \<lparr>p_contract = new_contract\<lparr>c_symbol := ''AAPL'', c_secType := ''OPT'', c_multiplier := ''100''\<rparr>,
     p_currency = ''USD'', p_side = Long, p_quantity = Fin 0, p_avgCost = ''3'', p_marketPrice = ''3'',
     p_marketValue = ''0'', p_unrealizedPnL = ''0'', p_realizedPnL = ''0'', p_multiplier = Some ''100'',
     p_avgCostSource = None, p_risk = None\<rparr>"

lemma max_position_verdict_witness:
  "max_position_check exact_decimal
     \<lparr>gx_operation = PlaceOrder (p_contract demo_option)
        (new_order\<lparr>o_action := Some ''BUY'', o_totalQuantity := Some (DVal (Fin 10))\<rparr>) None,
      gx_positions = [demo_option], gx_account = empty_account\<lparr>ai_netLiquidation := ''1000''\<rparr>\<rparr> (Fin 25) = Inr None"
proof -
  have p: "dj_parse exact_decimal (p_marketPrice demo_option) = Some (Fin 3)"
    "dj_parse exact_decimal (p_marketValue demo_option) = Some (Fin 0)"
    "dj_parse exact_decimal (ai_netLiquidation (empty_account\<lparr>ai_netLiquidation := ''1000''\<rparr>)) = Some (Fin 1000)"
    by code_simp+
  show ?thesis
    by (subst max_position_verdict [OF ex.decimal_exact_axioms _ _ refl _ _ _ p])
      (simp_all add: UNSET_DECIMAL_def)
qed

end
