(* ===== verification/Auto_Risk.thy ===== *)
theory Auto_Risk
  imports Guards
begin

text \<open>
  \<open>auto-trading-risk.ts\<close>: the envelope around pushes that an agent starts by itself.  The
  controller's state is the record \<open>risk_state\<close>; broker, clock and the state file are the record
  \<open>risk_env\<close>.  A day, in the code the date part of an ISO timestamp that is only compared, is the
  number of the UTC day.
\<close>

section \<open>State\<close>

record risk_policy =
  rp_maxOrderNotional :: rat
  rp_maxSymbolExposurePercent :: rat
  rp_maxDailyLoss :: rat
  rp_maxOrdersPerHour :: nat
  rp_maxOrdersPerDay :: nat
  rp_maxSlippageBps :: rat
  rp_maxQuoteAgeMs :: int
  rp_allowedAliceIds :: "string list"
  rp_pauseAfterConsecutiveErrors :: int

record risk_state =
  rs_day :: int
  rs_openingNetLiquidation :: "string option"
  rs_openingRealizedPnL :: "string option"
  rs_orderTimestamps :: "int list"
  rs_consecutiveErrors :: int
  rs_paused :: bool
  rs_pauseReason :: "string option"

text \<open>The parsed state file: a field of the wrong type is absent.\<close>

record risk_file =
  rf_day :: "int option"
  rf_openingNetLiquidation :: "string option"
  rf_openingRealizedPnL :: "string option"
  rf_orderTimestamps :: "int list option"
  rf_consecutiveErrors :: "int option"
  rf_paused :: "bool option"
  rf_pauseReason :: "string option"

record 'w risk_env =
  re_clock :: "'w \<Rightarrow> int"
  re_getAccount :: "'w \<Rightarrow> (js_error + account_info) \<times> 'w"
  re_getPositions :: "'w \<Rightarrow> (js_error + dec position list) \<times> 'w"
  re_getQuote :: "contract \<Rightarrow> 'w \<Rightarrow> (js_error + quote) \<times> 'w"
  re_getNativeKey :: "contract \<Rightarrow> string"
  re_readState :: "'w \<Rightarrow> (js_error + risk_file) \<times> 'w"
  re_writeState :: "risk_state \<Rightarrow> 'w \<Rightarrow> (js_error + unit) \<times> 'w"

definition day_of :: "int \<Rightarrow> int" where
  "day_of t = t div 86400000"

definition risk_today :: "'w risk_env \<Rightarrow> 'w \<Rightarrow> int" where
  "risk_today env w = day_of (re_clock env w)"

definition new_risk_state :: "int \<Rightarrow> risk_state" where
  "new_risk_state day = \<lparr>rs_day = day, rs_openingNetLiquidation = None, rs_openingRealizedPnL = None,
     rs_orderTimestamps = [], rs_consecutiveErrors = 0, rs_paused = False, rs_pauseReason = None\<rparr>"

definition persist_risk :: "'w risk_env \<Rightarrow> risk_state \<Rightarrow> 'w \<Rightarrow> (js_error + unit) \<times> risk_state \<times> 'w" where
  "persist_risk env st w = (case re_writeState env st w of (r, w1) \<Rightarrow> (r, st, w1))"

definition rollDay :: "'w risk_env \<Rightarrow> risk_state \<Rightarrow> 'w \<Rightarrow> (js_error + unit) \<times> risk_state \<times> 'w" where
  "rollDay env st w =
     (let day = risk_today env w in
      if rs_day st \<noteq> day
      then persist_risk env ((new_risk_state day)\<lparr>rs_paused := rs_paused st, rs_pauseReason := rs_pauseReason st\<rparr>) w
      else (Inr (), st, w))"

definition risk_load :: "'w risk_env \<Rightarrow> risk_state \<Rightarrow> 'w \<Rightarrow> (js_error + unit) \<times> risk_state \<times> 'w" where
  "risk_load env st w =
     (case re_readState env w of
        (Inl e, w1) \<Rightarrow> rollDay env st w1
      | (Inr f, w1) \<Rightarrow> rollDay env
          \<lparr>rs_day = (case rf_day f of Some d \<Rightarrow> d | None \<Rightarrow> risk_today env w1),
           rs_openingNetLiquidation = rf_openingNetLiquidation f,
           rs_openingRealizedPnL = rf_openingRealizedPnL f,
           rs_orderTimestamps = (case rf_orderTimestamps f of Some ts \<Rightarrow> ts | None \<Rightarrow> []),
           rs_consecutiveErrors = (case rf_consecutiveErrors f of Some n \<Rightarrow> n | None \<Rightarrow> 0),
           rs_paused = (rf_paused f = Some True), rs_pauseReason = rf_pauseReason f\<rparr> w1)"

definition hour_ms :: int where
  "hour_ms = 3600000"

definition recent_orders :: "int \<Rightarrow> int list \<Rightarrow> int list" where
  "recent_orders now ts = filter (\<lambda>t. now - hour_ms \<le> t) ts"

record risk_status =
  rk_paused :: bool
  rk_pauseReason :: "string option"
  rk_consecutiveErrors :: int
  rk_ordersLastHour :: nat
  rk_ordersToday :: nat
  rk_day :: int

definition risk_status_of :: "'w risk_env \<Rightarrow> risk_state \<Rightarrow> 'w \<Rightarrow> risk_status" where
  "risk_status_of env st w =
     \<lparr>rk_paused = rs_paused st, rk_pauseReason = rs_pauseReason st,
      rk_consecutiveErrors = rs_consecutiveErrors st,
      rk_ordersLastHour = length (recent_orders (re_clock env w) (rs_orderTimestamps st)),
      rk_ordersToday = length (rs_orderTimestamps st), rk_day = rs_day st\<rparr>"

definition resetPause :: "'w risk_env \<Rightarrow> risk_state \<Rightarrow> 'w \<Rightarrow> (js_error + unit) \<times> risk_state \<times> 'w" where
  "resetPause env st w =
     persist_risk env (st\<lparr>rs_paused := False, rs_pauseReason := None, rs_consecutiveErrors := 0\<rparr>) w"

definition risk_pause :: "'w risk_env \<Rightarrow> string \<Rightarrow> risk_state \<Rightarrow> 'w \<Rightarrow> (js_error + unit) \<times> risk_state \<times> 'w" where
  "risk_pause env reason st w = persist_risk env (st\<lparr>rs_paused := True, rs_pauseReason := Some reason\<rparr>) w"

definition recordSuccess :: "'w risk_env \<Rightarrow> operation \<Rightarrow> risk_state \<Rightarrow> 'w \<Rightarrow> (js_error + unit) \<times> risk_state \<times> 'w" where
  "recordSuccess env op st w =
     (if op_action op \<noteq> ActPlaceOrder \<and> op_action op \<noteq> ActClosePosition then (Inr (), st, w)
      else persist_risk env (st\<lparr>rs_consecutiveErrors := 0\<rparr>) w)"

definition recordFailure ::
  "'w risk_env \<Rightarrow> risk_policy \<Rightarrow> string \<Rightarrow> risk_state \<Rightarrow> 'w \<Rightarrow> (js_error + unit) \<times> risk_state \<times> 'w"
where
  "recordFailure env policy message st w =
     (let n = rs_consecutiveErrors st + 1; st1 = st\<lparr>rs_consecutiveErrors := n\<rparr> in
      persist_risk env
        (if rp_pauseAfterConsecutiveErrors policy \<le> n
         then st1\<lparr>rs_paused := True, rs_pauseReason := Some (''Circuit breaker: '' @ int_str n @
                '' consecutive broker errors ('' @ message @ '')'')\<rparr>
         else st1) w)"

section \<open>The envelope\<close>

definition denied :: "string \<Rightarrow> js_error" where
  "denied msg = PlainError (''Automatic trading denied: '' @ msg)"

definition isFinitePositive :: "dec \<Rightarrow> bool" where
  "isFinitePositive d \<longleftrightarrow> d_isFinite d \<and> d_gt d (Fin 0)"

definition referencePrice :: "decimal_js \<Rightarrow> string \<Rightarrow> quote \<Rightarrow> js_error + dec" where
  "referencePrice D act q =
     bindE (new_dec D (or_str (if act = ''BUY'' then q_ask q else q_bid q) (q_last q))) (\<lambda>v.
       if isFinitePositive v then Inr v else Inl (denied ''a valid bid/ask quote is required.''))"

definition risk_multiplier :: "decimal_js \<Rightarrow> contract \<Rightarrow> js_error + dec" where
  "risk_multiplier D c =
     bindE (new_dec D (or_str (c_multiplier c) ''1'')) (\<lambda>v.
       if isFinitePositive v then Inr v else Inl (denied ''contract multiplier is invalid.''))"

text \<open>\<open>!x || x.equals(UNSET_DECIMAL) || !isFinitePositive(x)\<close>.\<close>

definition positive_field :: "string \<Rightarrow> jdec option \<Rightarrow> js_error + dec" where
  "positive_field msg x =
     (if \<not> jd_truthy x then Inl (denied msg)
      else bindE (as_dec (the x)) (\<lambda>d.
        if d_equals d UNSET_DECIMAL \<or> \<not> isFinitePositive d then Inl (denied msg) else Inr d))"

text \<open>The checks before the first read: what may be automated at all.\<close>

definition admission :: "risk_policy \<Rightarrow> risk_state \<Rightarrow> operation \<Rightarrow> js_error + contract \<times> order" where
  "admission policy st op =
     (if rs_paused st then Inl (PlainError (''Automatic trading is paused: '' @
        (case rs_pauseReason st of Some r \<Rightarrow> r | None \<Rightarrow> ''manual intervention required'')))
      else case op of
        PlaceOrder c od t \<Rightarrow>
          (case o_orderType od of
             None \<Rightarrow> Inl TypeError
           | Some ty \<Rightarrow>
               (if to_upper ty \<noteq> ''LMT'' then Inl (PlainError
                  ''Automatic trading only permits LMT orders; market and conditional orders require manual approval.'')
                else if \<not> truthy (c_aliceId c) \<or> the (c_aliceId c) \<notin> set (rp_allowedAliceIds policy)
                  then Inl (denied ((case c_aliceId c of Some a \<Rightarrow> a | None \<Rightarrow> ''missing aliceId'') @
                         '' is not in this account's allowed aliceId list.''))
                else Inr (c, od)))
      | _ \<Rightarrow> Inl (PlainError (''Automatic trading only permits new limit orders; '' @ action_str (op_action op) @
               '' requires manual approval.'')))"

definition quote_fresh :: "risk_policy \<Rightarrow> int \<Rightarrow> quote \<Rightarrow> js_error + unit" where
  "quote_fresh policy now q =
     (case q_timestamp q of
        None \<Rightarrow> Inl (denied (''quote is NaNms old (limit '' @ int_str (rp_maxQuoteAgeMs policy) @ ''ms).''))
      | Some ts \<Rightarrow>
          (let age = now - ts in
           if age < 0 \<or> rp_maxQuoteAgeMs policy < age
           then Inl (denied (''quote is '' @ int_str (max 0 age) @ ''ms old (limit '' @
                  int_str (rp_maxQuoteAgeMs policy) @ ''ms).''))
           else Inr ()))"

definition adverse_bps :: "decimal_js \<Rightarrow> string \<Rightarrow> dec \<Rightarrow> dec \<Rightarrow> dec" where
  "adverse_bps D act limit reference =
     (if act = ''BUY'' then dj_times D (dj_div D (dj_minus D limit reference) reference) (Fin 10000)
      else dj_times D (dj_div D (dj_minus D reference limit) reference) (Fin 10000))"

definition position_exposure :: "decimal_js \<Rightarrow> (contract \<Rightarrow> string) \<Rightarrow> string \<Rightarrow> dec position list \<Rightarrow> js_error + dec" where
  "position_exposure D nativeKey key ps =
     foldE (\<lambda>p t. bindE (new_dec D (p_marketValue p)) (\<lambda>v. Inr (dj_plus D t (d_abs v))))
       (filter (\<lambda>p. nativeKey (p_contract p) = key) ps) (Fin 0)"

text \<open>Price and size of the order; the value is its notional.\<close>

definition order_notional ::
  "decimal_js \<Rightarrow> risk_policy \<Rightarrow> int \<Rightarrow> contract \<Rightarrow> order \<Rightarrow> quote \<Rightarrow> js_error + dec"
where
  "order_notional D policy now c od q =
     bindE (quote_fresh policy now q) (\<lambda>_.
     let act = (case o_action od of Some a \<Rightarrow> a | None \<Rightarrow> []) in
     bindE (referencePrice D act q) (\<lambda>reference.
     bindE (positive_field ''LMT order is missing a valid limit price.'' (o_lmtPrice od)) (\<lambda>limit.
     let bps = adverse_bps D act limit reference in
     if d_gt bps (Fin (rp_maxSlippageBps policy))
     then Inl (denied (''limit price exceeds the '' @ dj_num_str D (rp_maxSlippageBps policy) @
            ''bps slippage cap ('' @ dj_to_fixed_dp D 1 bps @ ''bps).''))
     else
     bindE (positive_field ''a positive totalQuantity is required to calculate the risk envelope.'' (o_totalQuantity od)) (\<lambda>quantity.
     bindE (risk_multiplier D c) (\<lambda>m.
     let notional = dj_times D (dj_times D quantity reference) m in
     if d_gt notional (Fin (rp_maxOrderNotional policy))
     then Inl (denied (''order notional '' @ dj_to_fixed_dp D 2 notional @ '' exceeds '' @
            dj_num_str D (rp_maxOrderNotional policy) @ ''.''))
     else Inr notional)))))"

definition exposure_check ::
  "decimal_js \<Rightarrow> (contract \<Rightarrow> string) \<Rightarrow> risk_policy \<Rightarrow> contract \<Rightarrow> dec \<Rightarrow> account_info \<Rightarrow> dec position list \<Rightarrow> js_error + unit"
where
  "exposure_check D nativeKey policy c notional acc ps =
     bindE (position_exposure D nativeKey (nativeKey c) ps) (\<lambda>positionValue.
     bindE (new_dec D (ai_netLiquidation acc)) (\<lambda>equity.
     if \<not> isFinitePositive equity then Inl (denied ''account equity is unavailable or invalid.'')
     else let pct = dj_times D (dj_div D (dj_plus D positionValue notional) equity) (Fin 100) in
       if d_gt pct (Fin (rp_maxSymbolExposurePercent policy))
       then Inl (denied (''projected '' @ c_symbol c @ '' exposure is '' @ dj_to_fixed_dp D 2 pct @ ''% (limit '' @
              dj_num_str D (rp_maxSymbolExposurePercent policy) @ ''%).''))
       else Inr ()))"

definition daily_loss :: "decimal_js \<Rightarrow> dec \<Rightarrow> dec \<Rightarrow> dec \<Rightarrow> dec \<Rightarrow> dec" where
  "daily_loss D openingEquity openingRealized nl pnl =
     d_max (d_max (dj_minus D openingEquity nl) (Fin 0)) (d_max (dj_minus D openingRealized pnl) (Fin 0))"

definition ensureDailyLoss ::
  "decimal_js \<Rightarrow> risk_policy \<Rightarrow> string \<Rightarrow> string \<Rightarrow> risk_state \<Rightarrow> (js_error + unit) \<times> risk_state"
where
  "ensureDailyLoss D policy netLiquidation realizedPnL st =
     (case new_dec D (case rs_openingNetLiquidation st of Some s \<Rightarrow> s | None \<Rightarrow> netLiquidation) of
        Inl e \<Rightarrow> (Inl e, st)
      | Inr oe \<Rightarrow>
     (case new_dec D (case rs_openingRealizedPnL st of Some s \<Rightarrow> s | None \<Rightarrow> realizedPnL) of
        Inl e \<Rightarrow> (Inl e, st)
      | Inr orl \<Rightarrow>
          (bindE (new_dec D netLiquidation) (\<lambda>nl. bindE (new_dec D realizedPnL) (\<lambda>pnl.
             let loss = daily_loss D oe orl nl pnl in
             if d_gt loss (Fin (rp_maxDailyLoss policy))
             then Inl (denied (''daily loss '' @ dj_to_fixed_dp D 2 loss @ '' exceeds '' @
                    dj_num_str D (rp_maxDailyLoss policy) @ ''.''))
             else Inr ())),
           st\<lparr>rs_openingNetLiquidation := Some (case rs_openingNetLiquidation st of Some s \<Rightarrow> s | None \<Rightarrow> dj_to_string D oe),
              rs_openingRealizedPnL := Some (case rs_openingRealizedPnL st of Some s \<Rightarrow> s | None \<Rightarrow> dj_to_string D orl)\<rparr>)))"

text \<open>The rate limits, and the slot that an accepted order takes before it is dispatched.\<close>

definition rate_check :: "risk_policy \<Rightarrow> int \<Rightarrow> int list \<Rightarrow> js_error + unit" where
  "rate_check policy now ts =
     (if rp_maxOrdersPerHour policy \<le> length (recent_orders now ts)
      then Inl (denied (''hourly order limit ('' @ nat_str (rp_maxOrdersPerHour policy) @ '') reached.''))
      else if rp_maxOrdersPerDay policy \<le> length ts
      then Inl (denied (''daily order limit ('' @ nat_str (rp_maxOrdersPerDay policy) @ '') reached.''))
      else Inr ())"

definition reserve_slot ::
  "'w risk_env \<Rightarrow> risk_policy \<Rightarrow> risk_state \<Rightarrow> 'w \<Rightarrow> (js_error + unit) \<times> risk_state \<times> 'w"
where
  "reserve_slot env policy st w =
     (let now = re_clock env w in
      case rate_check policy now (rs_orderTimestamps st) of
        Inl e \<Rightarrow> (Inl e, st, w)
      | Inr _ \<Rightarrow> persist_risk env (st\<lparr>rs_orderTimestamps := rs_orderTimestamps st @ [now]\<rparr>) w)"

definition fetch_risk ::
  "'w risk_env \<Rightarrow> contract \<Rightarrow> 'w \<Rightarrow> (js_error + account_info \<times> dec position list \<times> quote) \<times> 'w"
where
  "fetch_risk env c w =
     (let (a, w1) = re_getAccount env w; (p, w2) = re_getPositions env w1; (q, w3) = re_getQuote env c w2 in
      (bindE a (\<lambda>acc. bindE p (\<lambda>ps. bindE q (\<lambda>qt. Inr (acc, ps, qt)))), w3))"

definition risk_envelope ::
  "decimal_js \<Rightarrow> 'w risk_env \<Rightarrow> risk_policy \<Rightarrow> int \<Rightarrow> contract \<Rightarrow> order \<Rightarrow> account_info \<Rightarrow> dec position list \<Rightarrow> quote
    \<Rightarrow> risk_state \<Rightarrow> (js_error + unit) \<times> risk_state"
where
  "risk_envelope D env policy now c od acc ps q st =
     (case bindE (order_notional D policy now c od q) (\<lambda>n. exposure_check D (re_getNativeKey env) policy c n acc ps) of
        Inl e \<Rightarrow> (Inl e, st)
      | Inr _ \<Rightarrow> ensureDailyLoss D policy (ai_netLiquidation acc)
                   (case ai_realizedPnL acc of Some s \<Rightarrow> s | None \<Rightarrow> ''0'') st)"

definition risk_check ::
  "decimal_js \<Rightarrow> 'w risk_env \<Rightarrow> risk_policy \<Rightarrow> operation \<Rightarrow> risk_state \<Rightarrow> 'w \<Rightarrow> (js_error + unit) \<times> risk_state \<times> 'w"
where
  "risk_check D env policy op st w =
     (case rollDay env st w of
        (Inl e, st1, w1) \<Rightarrow> (Inl e, st1, w1)
      | (Inr _, st1, w1) \<Rightarrow>
          (if op_action op = ActCancelOrder \<or> op_action op = ActClosePosition then (Inr (), st1, w1)
           else case admission policy st1 op of
             Inl e \<Rightarrow> (Inl e, st1, w1)
           | Inr (c, od) \<Rightarrow>
               (case fetch_risk env c w1 of
                  (Inl e, w2) \<Rightarrow> (Inl e, st1, w2)
                | (Inr (acc, ps, q), w2) \<Rightarrow>
                    (case risk_envelope D env policy (re_clock env w2) c od acc ps q st1 of
                       (Inl e, st2) \<Rightarrow> (Inl e, st2, w2)
                     | (Inr _, st2) \<Rightarrow> reserve_slot env policy st2 w2))))"

section \<open>Runs of a controller\<close>

text \<open>
  The calls of a push, as \<open>UnifiedTradingAccount\<close> makes them; before each call the world moves by
  an arbitrary step.  The ghost log holds, for every new order that was let through, the day of the
  controller and the time of its slot.
\<close>

datatype risk_call = RCheck operation | RSuccess operation | RFailure string | RPause string | RReset

fun risk_step ::
  "decimal_js \<Rightarrow> 'w risk_env \<Rightarrow> risk_policy \<Rightarrow> risk_call \<Rightarrow> risk_state \<Rightarrow> 'w \<Rightarrow> (js_error + unit) \<times> risk_state \<times> 'w"
where
  "risk_step D env policy (RCheck op) st w = risk_check D env policy op st w"
| "risk_step D env policy (RSuccess op) st w = recordSuccess env op st w"
| "risk_step D env policy (RFailure m) st w = recordFailure env policy m st w"
| "risk_step D env policy (RPause m) st w = risk_pause env m st w"
| "risk_step D env policy RReset st w = resetPause env st w"

fun let_through :: "risk_call \<Rightarrow> (js_error + unit) \<Rightarrow> risk_state \<Rightarrow> (int \<times> int) list" where
  "let_through (RCheck op) (Inr _) st =
     (if op_action op = ActPlaceOrder then [(rs_day st, last (rs_orderTimestamps st))] else [])"
| "let_through _ _ st = []"

fun risk_run ::
  "decimal_js \<Rightarrow> 'w risk_env \<Rightarrow> risk_policy \<Rightarrow> (('w \<Rightarrow> 'w) \<times> risk_call) list \<Rightarrow> risk_state \<Rightarrow> 'w \<Rightarrow> (int \<times> int) list
    \<Rightarrow> risk_state \<times> 'w \<times> (int \<times> int) list"
where
  "risk_run D env policy [] st w tr = (st, w, tr)"
| "risk_run D env policy ((move, c) # calls) st w tr =
     (case risk_step D env policy c st (move w) of
        (r, st1, w1) \<Rightarrow> risk_run D env policy calls st1 w1 (tr @ let_through c r st1))"

definition risk_clock_forward :: "'w risk_env \<Rightarrow> (('w \<Rightarrow> 'w) \<times> risk_call) list \<Rightarrow> bool" where
  "risk_clock_forward env calls \<longleftrightarrow>
     (\<forall>w. re_clock env w \<le> re_clock env (snd (re_getAccount env w)) \<and>
          re_clock env w \<le> re_clock env (snd (re_getPositions env w)) \<and>
          (\<forall>c. re_clock env w \<le> re_clock env (snd (re_getQuote env c w))) \<and>
          (\<forall>st. re_clock env w \<le> re_clock env (snd (re_writeState env st w)))) \<and>
     (\<forall>(move, c) \<in> set calls. \<forall>w. re_clock env w \<le> re_clock env (move w))"

text \<open>What the rate limits promise about the log.\<close>

definition day_capped :: "nat \<Rightarrow> (int \<times> int) list \<Rightarrow> bool" where
  "day_capped cap tr \<longleftrightarrow> (\<forall>d. length (filter (\<lambda>(d', t'). d' = d) tr) \<le> cap)"

definition hour_capped :: "nat \<Rightarrow> (int \<times> int) list \<Rightarrow> bool" where
  "hour_capped cap tr \<longleftrightarrow> (\<forall>k < length tr.
     length (filter (\<lambda>(d', t'). d' = fst (tr ! k) \<and> snd (tr ! k) - hour_ms \<le> t') (take (Suc k) tr)) \<le> cap)"

lemma day_capped_append:
  "day_capped cap tr \<Longrightarrow> length (filter (\<lambda>(d', t'). d' = d) tr) < cap \<Longrightarrow> day_capped cap (tr @ [(d, t)])"
  by (auto simp: day_capped_def)

lemma hour_capped_append:
  "hour_capped cap tr \<Longrightarrow> length (filter (\<lambda>(d', t'). d' = d \<and> t - hour_ms \<le> t') tr) < cap
    \<Longrightarrow> hour_capped cap (tr @ [(d, t)])"
  by (auto simp: hour_capped_def nth_append less_Suc_eq hour_ms_def)

definition rate_inv :: "risk_policy \<Rightarrow> int \<Rightarrow> risk_state \<Rightarrow> (int \<times> int) list \<Rightarrow> bool" where
  "rate_inv policy now st tr \<longleftrightarrow> rs_day st \<le> day_of now \<and> (\<forall>(d, t) \<in> set tr. d \<le> rs_day st) \<and>
     subseq (map snd (filter (\<lambda>(d, t). d = rs_day st) tr)) (rs_orderTimestamps st) \<and>
     day_capped (rp_maxOrdersPerDay policy) tr \<and> hour_capped (rp_maxOrdersPerHour policy) tr"

lemma day_of_mono: "t \<le> t' \<Longrightarrow> day_of t \<le> day_of t'"
  by (simp add: day_of_def zdiv_mono1)

lemma rate_inv_later: "rate_inv policy now st tr \<Longrightarrow> now \<le> now' \<Longrightarrow> rate_inv policy now' st tr"
  using day_of_mono [of now now'] by (auto simp: rate_inv_def)

lemma rate_inv_cong:
  "rate_inv policy now st tr \<Longrightarrow> rs_day st' = rs_day st \<Longrightarrow> rs_orderTimestamps st' = rs_orderTimestamps st
    \<Longrightarrow> rate_inv policy now st' tr"
  by (simp add: rate_inv_def)

lemma subseq_day_count:
  "subseq (map snd (filter (\<lambda>(d', t). d' = d) tr)) ts \<Longrightarrow> length (filter (\<lambda>(d', t). d' = d) tr) \<le> length ts"
  by (drule list_emb_length) simp

lemma subseq_hour_count:
  assumes "subseq (map snd (filter (\<lambda>(d', t). d' = d) tr)) ts"
  shows "length (filter (\<lambda>(d', t'). d' = d \<and> now - hour_ms \<le> t') tr) \<le> length (recent_orders now ts)"
proof -
  have "map snd (filter (\<lambda>(d', t'). d' = d \<and> now - hour_ms \<le> t') tr)
      = filter (\<lambda>t. now - hour_ms \<le> t) (map snd (filter (\<lambda>(d', t). d' = d) tr))"
    by (simp add: filter_map comp_def case_prod_unfold conj_commute)
  then have "subseq (map snd (filter (\<lambda>(d', t'). d' = d \<and> now - hour_ms \<le> t') tr)) (recent_orders now ts)"
    using subseq_filter [OF assms] by (simp add: recent_orders_def)
  then show ?thesis by (auto dest: list_emb_length)
qed

text \<open>The steps of a check.\<close>

lemma persist_risk_state: "persist_risk env st w = (r, st1, w1) \<Longrightarrow> st1 = st \<and> w1 = snd (re_writeState env st w)"
  by (auto simp: persist_risk_def split: prod.splits)

lemma rollDay_inv:
  assumes "rollDay env st w = (r, st1, w1)" "rate_inv policy (re_clock env w) st tr" "risk_clock_forward env calls"
  shows "rate_inv policy (re_clock env w1) st1 tr \<and> re_clock env w \<le> re_clock env w1"
proof (cases "rs_day st = risk_today env w")
  case True
  then show ?thesis using assms by (auto simp: rollDay_def Let_def)
next
  case False
  let ?st = "(new_risk_state (risk_today env w))\<lparr>rs_paused := rs_paused st, rs_pauseReason := rs_pauseReason st\<rparr>"
  have p: "persist_risk env ?st w = (r, st1, w1)" using assms(1) False by (simp add: rollDay_def Let_def)
  note ps = persist_risk_state [OF p]
  have le: "re_clock env w \<le> re_clock env w1" using assms(3) ps by (simp add: risk_clock_forward_def)
  have lt: "rs_day st < risk_today env w"
    using assms(2) False by (auto simp: rate_inv_def risk_today_def)
  have "filter (\<lambda>(d, t). d = risk_today env w) tr = []"
    using assms(2) lt by (auto simp: rate_inv_def filter_empty_conv)
  then have "rate_inv policy (re_clock env w) ?st tr"
    using assms(2) lt by (auto simp: rate_inv_def new_risk_state_def risk_today_def)
  then show ?thesis using le ps rate_inv_later by blast
qed

lemma fetch_risk_clock:
  "fetch_risk env c w = (r, w1) \<Longrightarrow> risk_clock_forward env calls \<Longrightarrow> re_clock env w \<le> re_clock env w1"
  unfolding fetch_risk_def risk_clock_forward_def
  by (auto split: prod.splits) (metis order.trans snd_conv)

lemma ensureDailyLoss_keeps:
  "ensureDailyLoss D policy nl pnl st = (r, st1) \<Longrightarrow>
    rs_day st1 = rs_day st \<and> rs_orderTimestamps st1 = rs_orderTimestamps st \<and> rs_paused st1 = rs_paused st"
  by (auto simp: ensureDailyLoss_def split: sum.splits)

lemma risk_envelope_keeps:
  "risk_envelope D env policy now c od acc ps q st = (r, st1) \<Longrightarrow>
    rs_day st1 = rs_day st \<and> rs_orderTimestamps st1 = rs_orderTimestamps st \<and> rs_paused st1 = rs_paused st"
  by (auto simp: risk_envelope_def dest: ensureDailyLoss_keeps split: sum.splits)

lemma reserve_slot_inv:
  assumes "reserve_slot env policy st w = (r, st1, w1)" "rate_inv policy (re_clock env w) st tr"
    and "risk_clock_forward env calls"
  shows "rate_inv policy (re_clock env w1) st1 tr"
    "r = Inr () \<Longrightarrow> rate_inv policy (re_clock env w1) st1 (tr @ [(rs_day st1, last (rs_orderTimestamps st1))])"
proof -
  let ?now = "re_clock env w" and ?ts = "rs_orderTimestamps st"
  let ?st = "st\<lparr>rs_orderTimestamps := ?ts @ [?now]\<rparr>"
  have later: "re_clock env w \<le> re_clock env (snd (re_writeState env ?st w))"
    using assms(3) by (simp add: risk_clock_forward_def)
  have inv: "rate_inv policy ?now ?st tr"
    using assms(2) by (auto simp: rate_inv_def intro: list_emb_append_mono [of _ _ _ "[]", simplified] subseq_rev_drop_many)
  have res: "(st1 = st \<and> w1 = w \<and> is_Inl r) \<or>
      (rate_check policy ?now ?ts = Inr () \<and> st1 = ?st \<and> w1 = snd (re_writeState env ?st w))"
  proof (cases "rate_check policy ?now ?ts")
    case (Inl e)
    with assms(1) have "r = Inl e" "st1 = st" "w1 = w" by (simp_all add: reserve_slot_def)
    then show ?thesis by simp
  next
    case (Inr u)
    with assms(1) have p: "persist_risk env ?st w = (r, st1, w1)" by (simp add: reserve_slot_def)
    show ?thesis using persist_risk_state [OF p] Inr by simp
  qed
  then show "rate_inv policy (re_clock env w1) st1 tr"
    using assms(2) rate_inv_later [OF inv later] by auto
  assume "r = Inr ()"
  with res have ok: "rate_check policy ?now ?ts = Inr ()" and eq: "st1 = ?st" "w1 = snd (re_writeState env ?st w)"
    by auto
  have sub: "subseq (map snd (filter (\<lambda>(d', t). d' = rs_day st) tr)) ?ts"
    using assms(2) by (simp add: rate_inv_def)
  from ok have "length (recent_orders ?now ?ts) < rp_maxOrdersPerHour policy" "length ?ts < rp_maxOrdersPerDay policy"
    by (auto simp: rate_check_def split: if_splits)
  with subseq_day_count [OF sub] subseq_hour_count [OF sub, of ?now] assms(2)
  have "day_capped (rp_maxOrdersPerDay policy) (tr @ [(rs_day st, ?now)])"
    "hour_capped (rp_maxOrdersPerHour policy) (tr @ [(rs_day st, ?now)])"
    by (auto simp: rate_inv_def intro!: day_capped_append hour_capped_append)
  with assms(2) have "rate_inv policy ?now ?st (tr @ [(rs_day st, ?now)])"
    by (auto simp: rate_inv_def)
  then show "rate_inv policy (re_clock env w1) st1 (tr @ [(rs_day st1, last (rs_orderTimestamps st1))])"
    using rate_inv_later [OF _ later] eq by simp
qed

lemma admission_place: "admission policy st op = Inr (c, od) \<Longrightarrow> \<exists>t. op = PlaceOrder c od t"
  by (cases op) (auto simp: admission_def split: if_splits option.splits)

text \<open>A check either leaves the slots alone or ends in the reservation.\<close>

lemma risk_check_cases:
  assumes "risk_check D env policy op st w = (r, st1, w1)"
  obtains (roll) r0 st0 w0 where "rollDay env st w = (r0, st0, w0)" "rs_day st1 = rs_day st0"
      "rs_orderTimestamps st1 = rs_orderTimestamps st0" "rs_paused st1 = rs_paused st0"
      "w1 = w0 \<or> (\<exists>c x. fetch_risk env c w0 = (x, w1))" "r = Inr () \<Longrightarrow> op_action op \<noteq> ActPlaceOrder"
  | (slot) st0 w0 c od t acc ps q w2 st2 where "rollDay env st w = (Inr (), st0, w0)" "op = PlaceOrder c od t"
      "admission policy st0 op = Inr (c, od)" "fetch_risk env c w0 = (Inr (acc, ps, q), w2)"
      "risk_envelope D env policy (re_clock env w2) c od acc ps q st0 = (Inr (), st2)"
      "reserve_slot env policy st2 w2 = (r, st1, w1)"
proof -
  obtain r0 st0 w0 where roll: "rollDay env st w = (r0, st0, w0)" by (metis prod.exhaust)
  consider e where "r0 = Inl e" | "r0 = Inr ()" "op_action op = ActCancelOrder \<or> op_action op = ActClosePosition"
    | e where "r0 = Inr ()" "\<not> (op_action op = ActCancelOrder \<or> op_action op = ActClosePosition)" "admission policy st0 op = Inl e"
    | c od where "r0 = Inr ()" "\<not> (op_action op = ActCancelOrder \<or> op_action op = ActClosePosition)" "admission policy st0 op = Inr (c, od)"
    by (metis (full_types) old.unit.exhaust prod.exhaust sum.exhaust)
  then show thesis
  proof cases
    case (1 e)
    with roll assms have "r = Inl e" "st1 = st0" "w1 = w0" by (simp_all add: risk_check_def)
    with roll show thesis by (intro that(1)) auto
  next
    case 2
    with roll assms have "r = Inr ()" "st1 = st0" "w1 = w0" by (auto simp: risk_check_def)
    with roll 2 show thesis by (intro that(1)) auto
  next
    case (3 e)
    with roll assms have "r = Inl e" "st1 = st0" "w1 = w0" by (simp_all add: risk_check_def)
    with roll show thesis by (intro that(1)) auto
  next
    case (4 c od)
    note adm = this
    obtain x w2 where f: "fetch_risk env c w0 = (x, w2)" by (metis prod.exhaust)
    obtain t where t: "op = PlaceOrder c od t" using admission_place [OF adm(3)] by blast
    show thesis
    proof (cases x)
      case (Inl e)
      with adm f roll assms have "r = Inl e" "st1 = st0" "w1 = w2" by (simp_all add: risk_check_def)
      with roll f show thesis by (intro that(1)) auto
    next
      case (Inr y)
      obtain acc ps q where y: "y = (acc, ps, q)" by (metis prod.exhaust)
      obtain r2 st2 where e: "risk_envelope D env policy (re_clock env w2) c od acc ps q st0 = (r2, st2)"
        by (metis prod.exhaust)
      show thesis
      proof (cases r2)
        case (Inl e')
        with adm f roll assms Inr y e have "r = Inl e'" "st1 = st2" "w1 = w2" by (simp_all add: risk_check_def)
        with roll f risk_envelope_keeps [OF e] show thesis by (intro that(1)) auto
      next
        case i: (Inr u)
        with adm f roll assms Inr y e have "reserve_slot env policy st2 w2 = (r, st1, w1)" by (simp add: risk_check_def)
        with adm f roll t Inr y e i show thesis by (intro that(2)) auto
      qed
    qed
  qed
qed

lemma risk_check_inv:
  assumes "risk_check D env policy op st w = (r, st1, w1)" "rate_inv policy (re_clock env w) st tr"
    and "risk_clock_forward env calls"
  shows "rate_inv policy (re_clock env w1) st1 (tr @ let_through (RCheck op) r st1)"
  using assms(1)
proof (cases rule: risk_check_cases)
  case (roll r0 st0 w0)
  have "rate_inv policy (re_clock env w0) st0 tr" using rollDay_inv [OF roll(1) assms(2,3)] by simp
  moreover have "re_clock env w0 \<le> re_clock env w1"
    using roll(5) fetch_risk_clock [OF _ assms(3)] by auto
  ultimately have "rate_inv policy (re_clock env w1) st1 tr"
    using roll(2,3) by (blast intro: rate_inv_later rate_inv_cong)
  moreover have "let_through (RCheck op) r st1 = []" using roll(6) by (cases r) auto
  ultimately show ?thesis by simp
next
  case (slot st0 w0 c od t acc ps q w2 st2)
  have "rate_inv policy (re_clock env w0) st0 tr" using rollDay_inv [OF slot(1) assms(2,3)] by simp
  then have "rate_inv policy (re_clock env w2) st0 tr"
    by (rule rate_inv_later [OF _ fetch_risk_clock [OF slot(4) assms(3)]])
  then have "rate_inv policy (re_clock env w2) st2 tr"
    using risk_envelope_keeps [OF slot(5)] by (blast intro: rate_inv_cong)
  note res = reserve_slot_inv [OF slot(6) this assms(3)]
  show ?thesis using res slot(2) by (cases r) auto
qed

lemma risk_step_inv:
  assumes "risk_step D env policy c st w = (r, st1, w1)" "rate_inv policy (re_clock env w) st tr"
    and "risk_clock_forward env calls"
  shows "rate_inv policy (re_clock env w1) st1 (tr @ let_through c r st1)"
proof (cases c)
  case (RCheck op)
  then show ?thesis using assms risk_check_inv by simp
qed (use assms in \<open>(auto simp: recordSuccess_def recordFailure_def risk_pause_def resetPause_def Let_def
      risk_clock_forward_def split: if_splits dest!: persist_risk_state
      intro: rate_inv_cong [OF rate_inv_later])\<close>)+

lemma risk_run_inv:
  assumes "risk_run D env policy calls st w tr = (st', w', tr')" "rate_inv policy (re_clock env w) st tr"
    and "risk_clock_forward env calls"
  shows "rate_inv policy (re_clock env w') st' tr'"
  using assms
proof (induction calls arbitrary: st w tr)
  case Nil
  then show ?case by simp
next
  case (Cons x calls)
  obtain move c where x: "x = (move, c)" by (metis prod.exhaust)
  obtain r st1 w1 where s: "risk_step D env policy c st (move w) = (r, st1, w1)" by (metis prod.exhaust)
  have fw: "risk_clock_forward env calls" and le: "re_clock env w \<le> re_clock env (move w)"
    using Cons.prems(3) by (simp_all add: risk_clock_forward_def x)
  have "rate_inv policy (re_clock env w1) st1 (tr @ let_through c r st1)"
    by (rule risk_step_inv [OF s rate_inv_later [OF Cons.prems(2) le] fw])
  with Cons.IH Cons.prems(1) x s fw show ?case by simp
qed

section \<open>The envelope of an accepted order\<close>

lemma isFinitePositive_iff: "isFinitePositive d \<longleftrightarrow> (\<exists>r. d = Fin r \<and> 0 < r)"
  by (cases d) (auto simp: isFinitePositive_def)

text \<open>The price that an order is measured against: the ask for a buy, else the bid, the last price when
  that is empty; and the multiplier of its contract, one when it has none.\<close>

definition quoted_price :: "string option \<Rightarrow> quote \<Rightarrow> string" where
  "quoted_price act q =
     (let x = (if act = Some ''BUY'' then q_ask q else q_bid q) in if x = [] then q_last q else x)"

definition stated_multiplier :: "contract \<Rightarrow> string" where
  "stated_multiplier c = (if c_multiplier c = [] then ''1'' else c_multiplier c)"

lemma referencePrice_Inr:
  "referencePrice D (case act of Some a \<Rightarrow> a | None \<Rightarrow> []) q = Inr v \<Longrightarrow>
    dj_parse D (quoted_price act q) = Some v \<and> (\<exists>r. v = Fin r \<and> 0 < r)"
  by (auto simp: referencePrice_def bindE_eq_Inr isFinitePositive_iff new_dec_Inr quoted_price_def or_str_def Let_def
      split: if_splits option.splits)

lemma risk_multiplier_Inr: "risk_multiplier D c = Inr v \<Longrightarrow>
    dj_parse D (stated_multiplier c) = Some v \<and> (\<exists>r. v = Fin r \<and> 0 < r)"
  by (auto simp: risk_multiplier_def bindE_eq_Inr isFinitePositive_iff new_dec_Inr stated_multiplier_def or_str_def
      split: if_splits)

lemma positive_field_Inr: "positive_field msg x = Inr v \<Longrightarrow> x = Some (DVal v) \<and> (\<exists>r. v = Fin r \<and> 0 < r)"
  by (cases x) (auto simp: positive_field_def bindE_eq_Inr isFinitePositive_iff elim!: as_dec.elims split: if_splits)

lemma quote_fresh_Inr: "quote_fresh policy now q = Inr u \<Longrightarrow>
    \<exists>ts. q_timestamp q = Some ts \<and> ts \<le> now \<and> now - ts \<le> rp_maxQuoteAgeMs policy"
  by (auto simp: quote_fresh_def Let_def split: option.splits if_splits)

text \<open>The numbers of an order that passed: reference, limit, quantity and multiplier.\<close>

definition within_caps :: "risk_policy \<Rightarrow> string option \<Rightarrow> rat \<Rightarrow> rat \<Rightarrow> rat \<Rightarrow> rat \<Rightarrow> bool" where
  "within_caps policy act ref lmt qty k \<longleftrightarrow> 0 < ref \<and> 0 < lmt \<and> 0 < qty \<and> 0 < k \<and>
     (if act = Some ''BUY'' then lmt - ref else ref - lmt) / ref * 10000 \<le> rp_maxSlippageBps policy \<and>
     qty * ref * k \<le> rp_maxOrderNotional policy"

lemma order_notional_exact:
  assumes "decimal_exact D rnd" and n: "order_notional D policy now c od q = Inr n"
  shows "\<exists>ref lmt qty k. within_caps policy (o_action od) ref lmt qty k \<and> n = Fin (qty * ref * k) \<and>
    o_lmtPrice od = Some (DVal (Fin lmt)) \<and> o_totalQuantity od = Some (DVal (Fin qty)) \<and>
    dj_parse D (quoted_price (o_action od) q) = Some (Fin ref) \<and>
    dj_parse D (stated_multiplier c) = Some (Fin k)"
proof -
  note ex = decimal_exact.exact_arith [OF assms(1)]
  let ?act = "case o_action od of Some a \<Rightarrow> a | None \<Rightarrow> []"
  from n obtain vr vl vq vk where
    v: "referencePrice D ?act q = Inr vr"
      "positive_field ''LMT order is missing a valid limit price.'' (o_lmtPrice od) = Inr vl"
      "positive_field ''a positive totalQuantity is required to calculate the risk envelope.'' (o_totalQuantity od) = Inr vq"
      "risk_multiplier D c = Inr vk"
    and caps: "\<not> d_gt (adverse_bps D ?act vl vr) (Fin (rp_maxSlippageBps policy))"
      "\<not> d_gt (dj_times D (dj_times D vq vr) vk) (Fin (rp_maxOrderNotional policy))"
      "n = dj_times D (dj_times D vq vr) vk"
    by (auto simp: order_notional_def Let_def bindE_eq_Inr split: if_splits)
  from referencePrice_Inr [OF v(1)] positive_field_Inr [OF v(2)] positive_field_Inr [OF v(3)] risk_multiplier_Inr [OF v(4)]
  obtain ref lmt qty k where
    r: "vr = Fin ref" "0 < ref" "vl = Fin lmt" "0 < lmt" "vq = Fin qty" "0 < qty" "vk = Fin k" "0 < k"
      "o_lmtPrice od = Some (DVal (Fin lmt))" "o_totalQuantity od = Some (DVal (Fin qty))"
      "dj_parse D (quoted_price (o_action od) q) = Some (Fin ref)"
      "dj_parse D (stated_multiplier c) = Some (Fin k)" by auto
  from caps r have "within_caps policy (o_action od) ref lmt qty k"
    by (auto simp: within_caps_def adverse_bps_def ex not_less split: if_splits option.splits)
  then show ?thesis using caps(3) r ex by (intro exI conjI) auto
qed

lemma position_exposure_Fin:
  assumes "decimal_exact D rnd"
    and "\<forall>p \<in> set ps. dj_parse D (p_marketValue p) = Some (Fin (mv p))"
  shows "position_exposure D nk key ps = Inr (Fin (\<Sum>p\<leftarrow>filter (\<lambda>p. nk (p_contract p) = key) ps. \<bar>mv p\<bar>))"
proof -
  have "foldE (\<lambda>p t. bindE (new_dec D (p_marketValue p)) (\<lambda>v. Inr (dj_plus D t (d_abs v)))) qs (Fin a)
      = Inr (Fin (a + (\<Sum>p\<leftarrow>qs. \<bar>mv p\<bar>)))" if "set qs \<subseteq> set ps" for qs a
    using that assms(2) decimal_exact.exact_arith(1) [OF assms(1)]
    by (induction qs arbitrary: a) (auto simp: new_dec_def add.assoc)
  then show ?thesis by (simp add: position_exposure_def)
qed

lemma exposure_check_exact:
  assumes "decimal_exact D rnd" "position_exposure D nk (nk c) ps = Inr (Fin e)"
    and "exposure_check D nk policy c (Fin n) acc ps = Inr u"
  shows "\<exists>eq. dj_parse D (ai_netLiquidation acc) = Some (Fin eq) \<and> 0 < eq \<and>
    (e + n) / eq * 100 \<le> rp_maxSymbolExposurePercent policy"
  using assms(2,3) decimal_exact.exact_arith [OF assms(1)]
  by (auto simp: exposure_check_def Let_def bindE_eq_Inr isFinitePositive_iff not_less split: if_splits)

lemma rollDay_paused: "rollDay env st w = (r, st1, w1) \<Longrightarrow> rs_paused st1 = rs_paused st"
  by (auto simp: rollDay_def Let_def split: if_splits dest!: persist_risk_state)

lemma ensureDailyLoss_exact:
  assumes "decimal_exact D rnd" and e: "ensureDailyLoss D policy nl pnl st = (Inr (), st1)"
    and "rs_openingNetLiquidation st = Some s" "dj_parse D s = Some (Fin opening)"
    and "dj_parse D nl = Some (Fin current)"
    and fin: "\<exists>a b. dj_parse D (case rs_openingRealizedPnL st of Some x \<Rightarrow> x | None \<Rightarrow> pnl) = Some (Fin a) \<and> dj_parse D pnl = Some (Fin b)"
  shows "opening - current \<le> rp_maxDailyLoss policy"
  using assms decimal_exact.exact_arith [OF assms(1)]
  by (auto simp: ensureDailyLoss_def daily_loss_def new_dec_def Let_def not_less split: option.splits if_splits)

text \<open>A realized PnL that is not a number.\<close>

lemma daily_loss_NaN: "daily_loss D oe orl nl NotANumber = NotANumber"
  if "\<And>u. dj_minus D u NotANumber = NotANumber"
  by (simp add: daily_loss_def that)

section \<open>The circuit breaker\<close>

lemma risk_step_paused:
  assumes "risk_step D env policy c st w = (r, st1, w1)" "rs_paused st" "c \<noteq> RReset"
  shows "rs_paused st1" "let_through c r st1 = []"
proof -
  have "rs_paused st1 \<and> let_through c r st1 = []"
  proof (cases c)
    case (RCheck op)
    have "risk_check D env policy op st w = (r, st1, w1)" using assms(1) RCheck by simp
    then show ?thesis
    proof (cases rule: risk_check_cases)
      case (roll r0 st0 w0)
      have "let_through c r st1 = []" using roll(6) RCheck by (cases r) auto
      then show ?thesis using rollDay_paused [OF roll(1)] roll(4) assms(2) by simp
    next
      case (slot st0 w0 ct od t acc ps q w2 st2)
      then have False using rollDay_paused [OF slot(1)] assms(2) by (simp add: admission_def)
      then show ?thesis ..
    qed
  qed (use assms in \<open>auto simp: recordSuccess_def recordFailure_def risk_pause_def Let_def
        split: if_splits dest!: persist_risk_state\<close>)
  then show "rs_paused st1" "let_through c r st1 = []" by simp_all
qed

lemma risk_run_paused:
  assumes "risk_run D env policy calls st w tr = (st', w', tr')" "rs_paused st" "RReset \<notin> snd ` set calls"
  shows "tr' = tr \<and> rs_paused st'"
  using assms
proof (induction calls arbitrary: st w tr)
  case Nil
  then show ?case by simp
next
  case (Cons x calls)
  obtain move c where x: "x = (move, c)" by (metis prod.exhaust)
  obtain r st1 w1 where s: "risk_step D env policy c st (move w) = (r, st1, w1)" by (metis prod.exhaust)
  have "c \<noteq> RReset" using Cons.prems(3) x by auto
  note p = risk_step_paused [OF s Cons.prems(2) this]
  have "risk_run D env policy calls st1 w1 tr = (st', w', tr')" using Cons.prems(1) x s p(2) by simp
  then show ?case using Cons.IH p(1) Cons.prems(3) by simp
qed

lemma recordFailure_state:
  "recordFailure env policy m st w = (r, st1, w1) \<Longrightarrow>
    rs_consecutiveErrors st1 = rs_consecutiveErrors st + 1 \<and>
    (rs_paused st \<or> rp_pauseAfterConsecutiveErrors policy \<le> rs_consecutiveErrors st1 \<longrightarrow> rs_paused st1)"
  by (auto simp: recordFailure_def Let_def split: if_splits dest!: persist_risk_state)

lemma risk_run_append:
  "risk_run D env policy (xs @ ys) st w tr =
    (case risk_run D env policy xs st w tr of (st1, w1, tr1) \<Rightarrow> risk_run D env policy ys st1 w1 tr1)"
  by (induction xs arbitrary: st w tr) (auto split: prod.splits)

lemma risk_run_failures:
  assumes "risk_run D env policy fails st w tr = (st', w', tr')" "\<forall>c \<in> snd ` set fails. \<exists>m. c = RFailure m"
  shows "tr' = tr \<and> rs_consecutiveErrors st' = rs_consecutiveErrors st + int (length fails) \<and>
    (fails \<noteq> [] \<longrightarrow> rp_pauseAfterConsecutiveErrors policy \<le> rs_consecutiveErrors st' \<longrightarrow> rs_paused st')"
  using assms
proof (induction fails arbitrary: st' w' tr' rule: rev_induct)
  case Nil
  then show ?case by simp
next
  case (snoc x fails)
  obtain move m where x: "x = (move, RFailure m)" using snoc.prems(2) by (cases x) auto
  obtain st1 w1 tr1 where r1: "risk_run D env policy fails st w tr = (st1, w1, tr1)" by (metis prod.exhaust)
  obtain r st2 w2 where f: "recordFailure env policy m st1 (move w1) = (r, st2, w2)" by (metis prod.exhaust)
  have eq: "st' = st2" "tr' = tr1" using snoc.prems(1) r1 x f by (auto simp: risk_run_append)
  show ?case
    using snoc.IH [OF r1] snoc.prems(2) recordFailure_state [OF f] eq by auto
qed

section \<open>Properties\<close>

text \<open>C17: when the decimal arithmetic rounds nothing, an automatic order that passes the check is a
  limit order on an allowed instrument while trading is not paused.  It was checked against the
  account, positions and quote read after the day was rolled, with a quote within the age limit.
  Its reference price is the one the quote states for its side (the ask for a buy, else the bid;
  the last price when that field is empty) and its size counts with the multiplier its contract
  states: against these the limit price is within the slippage cap and the notional within its cap.
  The exposure of its instrument after the order stays within its cap when every position reports a
  finite value, and the loss of equity since the opening of the day within its cap when the PnL
  figures are finite.\<close>

theorem auto_trade_envelope:
  assumes "decimal_exact D rnd" and chk: "risk_check D env policy (PlaceOrder c od t) st w = (Inr (), st', w')"
  shows "\<not> rs_paused st \<and> map_option to_upper (o_orderType od) = Some ''LMT'' \<and>
    (\<exists>a. c_aliceId c = Some a \<and> a \<in> set (rp_allowedAliceIds policy)) \<and>
    (\<exists>w2 acc ps q ts ref lmt qty k.
       fetch_risk env c (snd (snd (rollDay env st w))) = (Inr (acc, ps, q), w2) \<and>
       q_timestamp q = Some ts \<and> ts \<le> re_clock env w2 \<and> re_clock env w2 - ts \<le> rp_maxQuoteAgeMs policy \<and>
       o_lmtPrice od = Some (DVal (Fin lmt)) \<and> o_totalQuantity od = Some (DVal (Fin qty)) \<and>
       dj_parse D (quoted_price (o_action od) q) = Some (Fin ref) \<and>
       dj_parse D (stated_multiplier c) = Some (Fin k) \<and>
       within_caps policy (o_action od) ref lmt qty k \<and>
       (\<forall>mv. (\<forall>p \<in> set ps. dj_parse D (p_marketValue p) = Some (Fin (mv p))) \<longrightarrow>
          (\<exists>eq > 0. dj_parse D (ai_netLiquidation acc) = Some (Fin eq) \<and>
             ((\<Sum>p\<leftarrow>filter (\<lambda>p. re_getNativeKey env (p_contract p) = re_getNativeKey env c) ps. \<bar>mv p\<bar>)
                + qty * ref * k) / eq * 100 \<le> rp_maxSymbolExposurePercent policy)) \<and>
       (\<forall>s x y opening current. rs_day st = risk_today env w \<longrightarrow> rs_openingNetLiquidation st = Some s \<longrightarrow>
          dj_parse D s = Some (Fin opening) \<longrightarrow> dj_parse D (ai_netLiquidation acc) = Some (Fin current) \<longrightarrow>
          dj_parse D (case rs_openingRealizedPnL st of Some o' \<Rightarrow> o' | None \<Rightarrow>
             (case ai_realizedPnL acc of Some p \<Rightarrow> p | None \<Rightarrow> ''0'')) = Some (Fin x) \<longrightarrow>
          dj_parse D (case ai_realizedPnL acc of Some p \<Rightarrow> p | None \<Rightarrow> ''0'') = Some (Fin y) \<longrightarrow>
          opening - current \<le> rp_maxDailyLoss policy))"
  using chk
proof (cases rule: risk_check_cases)
  case (roll r0 st0 w0)
  then show ?thesis by simp
next
  case (slot st0 w0 c' od' t' acc ps q w2 st2)
  have adm: "admission policy st0 (PlaceOrder c od t) = Inr (c, od)" using slot(2,3) by simp
  have pre: "\<not> rs_paused st" "map_option to_upper (o_orderType od) = Some ''LMT''"
    "\<exists>a. c_aliceId c = Some a \<and> a \<in> set (rp_allowedAliceIds policy)"
    using adm rollDay_paused [OF slot(1)] by (auto simp: admission_def split: if_splits option.splits elim!: truthyE)
  obtain n where n: "order_notional D policy (re_clock env w2) c od q = Inr n"
    and ec: "exposure_check D (re_getNativeKey env) policy c n acc ps = Inr ()"
    and dl: "ensureDailyLoss D policy (ai_netLiquidation acc)
       (case ai_realizedPnL acc of Some s \<Rightarrow> s | None \<Rightarrow> ''0'') st0 = (Inr (), st2)"
    using slot(2,5) by (auto simp: risk_envelope_def bindE_eq_Inr split: sum.splits)
  obtain ts where ts: "q_timestamp q = Some ts" "ts \<le> re_clock env w2" "re_clock env w2 - ts \<le> rp_maxQuoteAgeMs policy"
  proof -
    from n obtain u where "quote_fresh policy (re_clock env w2) q = Inr u"
      by (auto simp only: order_notional_def bindE_eq_Inr)
    then show thesis using quote_fresh_Inr that by blast
  qed
  from order_notional_exact [OF assms(1) n] obtain ref lmt qty k where
    caps: "within_caps policy (o_action od) ref lmt qty k" "n = Fin (qty * ref * k)"
      "o_lmtPrice od = Some (DVal (Fin lmt))" "o_totalQuantity od = Some (DVal (Fin qty))"
      "dj_parse D (quoted_price (o_action od) q) = Some (Fin ref)"
      "dj_parse D (stated_multiplier c) = Some (Fin k)" by blast
  have st0: "rs_day st = risk_today env w \<Longrightarrow> st0 = st" using slot(1) by (simp add: rollDay_def)
  have f: "fetch_risk env c (snd (snd (rollDay env st w))) = (Inr (acc, ps, q), w2)" using slot(1,2,4) by simp
  have "\<forall>mv. (\<forall>p \<in> set ps. dj_parse D (p_marketValue p) = Some (Fin (mv p))) \<longrightarrow>
          (\<exists>eq > 0. dj_parse D (ai_netLiquidation acc) = Some (Fin eq) \<and>
             ((\<Sum>p\<leftarrow>filter (\<lambda>p. re_getNativeKey env (p_contract p) = re_getNativeKey env c) ps. \<bar>mv p\<bar>)
                + qty * ref * k) / eq * 100 \<le> rp_maxSymbolExposurePercent policy)"
    using exposure_check_exact [OF assms(1) position_exposure_Fin [OF assms(1)] ec [unfolded caps(2)]] by blast
  moreover have "\<forall>s x y opening current. rs_day st = risk_today env w \<longrightarrow> rs_openingNetLiquidation st = Some s \<longrightarrow>
          dj_parse D s = Some (Fin opening) \<longrightarrow> dj_parse D (ai_netLiquidation acc) = Some (Fin current) \<longrightarrow>
          dj_parse D (case rs_openingRealizedPnL st of Some o' \<Rightarrow> o' | None \<Rightarrow>
             (case ai_realizedPnL acc of Some p \<Rightarrow> p | None \<Rightarrow> ''0'')) = Some (Fin x) \<longrightarrow>
          dj_parse D (case ai_realizedPnL acc of Some p \<Rightarrow> p | None \<Rightarrow> ''0'') = Some (Fin y) \<longrightarrow>
          opening - current \<le> rp_maxDailyLoss policy"
    using ensureDailyLoss_exact [OF assms(1) dl] st0 by blast
  ultimately show ?thesis using pre f ts caps by blast
qed

text \<open>C18: over any run of a controller that starts with no slots taken, under a clock that does not run
  backwards, no day of the controller lets more than the daily number of new orders through, and at
  every order that is let through, the orders of that day within the last hour, it included, stay
  within the hourly number.\<close>

theorem auto_rate_caps:
  assumes "risk_clock_forward env calls" "rs_day st \<le> day_of (re_clock env w)"
    and "risk_run D env policy calls st w [] = (st', w', tr)"
  shows "day_capped (rp_maxOrdersPerDay policy) tr \<and> hour_capped (rp_maxOrdersPerHour policy) tr"
  using risk_run_inv [OF assms(3) _ assms(1)] assms(2)
  by (simp add: rate_inv_def day_capped_def hour_capped_def)

text \<open>A realized PnL that parses to \<open>NaN\<close> switches the daily-loss limit off: however far equity
  has fallen since the opening, the check passes.\<close>

theorem nan_pnl_disables_daily_loss:
  assumes "decimal_laws D rnd" and "dj_parse D pnl = Some NotANumber"
    and "dj_parse D netLiq = Some (Fin current)"
    and "rs_openingNetLiquidation st = Some s" "dj_parse D s = Some (Fin opening)"
    and "rs_openingRealizedPnL st = None"
  shows "fst (ensureDailyLoss D policy netLiq pnl st) = Inr ()"
  using assms decimal_laws.NaN_right(2) [OF assms(1)]
  by (simp add: ensureDailyLoss_def new_dec_def daily_loss_NaN)

text \<open>After as many consecutive failures as the policy names the breaker stays open: whatever
  calls follow, across day changes and restarts of the error count, no new order is let through
  until the pause is reset by hand.\<close>

theorem circuit_breaker:
  assumes "0 \<le> rs_consecutiveErrors st" "fails \<noteq> []" "\<forall>x \<in> set fails. \<exists>m. snd x = RFailure m"
    and "rp_pauseAfterConsecutiveErrors policy \<le> int (length fails)"
    and "RReset \<notin> snd ` set later"
    and "risk_run D env policy (fails @ later) st w tr = (st', w', tr')"
  shows "tr' = tr \<and> rs_paused st'"
proof -
  obtain st1 w1 tr1 where r1: "risk_run D env policy fails st w tr = (st1, w1, tr1)" by (metis prod.exhaust)
  have f: "tr1 = tr" "rs_paused st1"
    using risk_run_failures [OF r1] assms(1-4) by auto
  have "risk_run D env policy later st1 w1 tr1 = (st', w', tr')" using assms(6) r1 by (simp add: risk_run_append)
  from risk_run_paused [OF this f(2) assms(5)] f(1) show ?thesis by simp
qed

section \<open>Witnesses\<close>

text \<open>A broker whose world is its clock, one instrument quoted at 9 to 10, equity 1000; one order per
  hour and two per day.\<close>

definition risk_contract :: contract where
  "risk_contract = new_contract\<lparr>c_symbol := ''AAPL'', c_aliceId := Some ''acc|AAPL''\<rparr>"

definition risk_order :: order where
  "risk_order = new_order\<lparr>o_action := Some ''BUY'', o_orderType := Some ''LMT'',
     o_lmtPrice := Some (DVal (Fin 10)), o_totalQuantity := Some (DVal (Fin 5))\<rparr>"

definition demo_quote :: "int \<Rightarrow> quote" where
  "demo_quote w = \<lparr>q_contract = risk_contract, q_last = ''10'', q_bid = ''9'', q_ask = ''10'', q_volume = ''1'',
     q_high = None, q_low = None, q_timestamp = Some w\<rparr>"

definition demo_risk_env :: "int risk_env" where
  "demo_risk_env = \<lparr>re_clock = (\<lambda>w. w),
     re_getAccount = (\<lambda>w. (Inr (empty_account\<lparr>ai_netLiquidation := ''1000''\<rparr>), w)),
     re_getPositions = (\<lambda>w. (Inr [], w)), re_getQuote = (\<lambda>c w. (Inr (demo_quote w), w)),
     re_getNativeKey = c_symbol, re_readState = (\<lambda>w. (Inl TypeError, w)),
     re_writeState = (\<lambda>st w. (Inr (), w))\<rparr>"

definition demo_policy :: risk_policy where
  "demo_policy = \<lparr>rp_maxOrderNotional = 100, rp_maxSymbolExposurePercent = 50, rp_maxDailyLoss = 100,
     rp_maxOrdersPerHour = 1, rp_maxOrdersPerDay = 2, rp_maxSlippageBps = 100, rp_maxQuoteAgeMs = 5000,
     rp_allowedAliceIds = [''acc|AAPL''], rp_pauseAfterConsecutiveErrors = 2\<rparr>"

definition risk_op :: operation where
  "risk_op = PlaceOrder risk_contract risk_order None"

lemma demo_clock: "risk_clock_forward demo_risk_env [(\<lambda>w. w, a), (\<lambda>w. w + 1000, b), (\<lambda>w. w + 1000, c)]"
  by (simp add: risk_clock_forward_def demo_risk_env_def)

lemma auto_trade_envelope_witness:
  "map_option to_upper (o_orderType risk_order) = Some ''LMT'' \<and>
   fst (risk_check exact_decimal demo_risk_env demo_policy risk_op (new_risk_state 0) 7) = Inr ()"
proof -
  let ?r = "risk_check exact_decimal demo_risk_env demo_policy (PlaceOrder risk_contract risk_order None) (new_risk_state 0) 7"
  have r: "fst ?r = Inr ()" by code_simp
  then have "?r = (Inr (), fst (snd ?r), snd (snd ?r))" by (metis prod.collapse)
  from auto_trade_envelope [OF ex.decimal_exact_axioms this] r show ?thesis by (simp add: risk_op_def)
qed

text \<open>One order an hour: the window does not reach over the change of day, and the limit holds within
  each of the two days.\<close>

lemma auto_rate_caps_witness:
  "\<exists>st' w'. risk_run exact_decimal demo_risk_env demo_policy
      [(\<lambda>w. w, RCheck risk_op), (\<lambda>w. w + 1000, RCheck risk_op), (\<lambda>w. w + 1000, RCheck risk_op)] (new_risk_state 0) 86399000 []
      = (st', w', [(0, 86399000), (1, 86400000)]) \<and> hour_capped 1 [(0, 86399000), (1, 86400000)]"
proof -
  let ?r = "risk_run exact_decimal demo_risk_env demo_policy
      [(\<lambda>w. w, RCheck risk_op), (\<lambda>w. w + 1000, RCheck risk_op), (\<lambda>w. w + 1000, RCheck risk_op)] (new_risk_state 0) 86399000 []"
  have "snd (snd ?r) = [(0, 86399000), (1, 86400000)]" by code_simp
  then obtain st' w' where r: "?r = (st', w', [(0, 86399000), (1, 86400000)])" by (metis prod.collapse)
  have "rs_day (new_risk_state 0) \<le> day_of (re_clock demo_risk_env 86399000)" by code_simp
  from auto_rate_caps [OF demo_clock this r] r show ?thesis by (simp add: demo_policy_def)
qed

lemma nan_pnl_disables_daily_loss_witness:
  "fst (ensureDailyLoss decimal20 demo_policy ''1'' ''NaN''
     ((new_risk_state 0)\<lparr>rs_openingNetLiquidation := Some ''1000''\<rparr>)) = Inr ()"
proof -
  have p: "dj_parse decimal20 ''NaN'' = Some NotANumber" "dj_parse decimal20 ''1'' = Some (Fin 1)"
    "dj_parse decimal20 ''1000'' = Some (Fin 1000)" by code_simp+
  show ?thesis
    by (rule nan_pnl_disables_daily_loss [OF d20.decimal_laws_axioms p(1,2) _ p(3)])
      (simp_all add: new_risk_state_def)
qed

lemma circuit_breaker_witness:
  "\<exists>st' w'. risk_run exact_decimal demo_risk_env demo_policy
      ([(\<lambda>w. w, RFailure ''timeout''), (\<lambda>w. w, RFailure ''timeout'')] @ [(\<lambda>w. w + 86400000, RCheck risk_op)]) (new_risk_state 0) 7 []
      = (st', w', []) \<and> rs_paused st'"
proof -
  let ?r = "risk_run exact_decimal demo_risk_env demo_policy
      ([(\<lambda>w. w, RFailure ''timeout''), (\<lambda>w. w, RFailure ''timeout'')] @ [(\<lambda>w. w + 86400000, RCheck risk_op)]) (new_risk_state 0) 7 []"
  obtain st' w' tr where r: "?r = (st', w', tr)" by (metis prod.exhaust)
  from circuit_breaker [OF _ _ _ _ _ r] r show ?thesis
    by (simp add: new_risk_state_def demo_policy_def)
qed

end
