(* ===== verification/Account_Health.thy ===== *)
theory Account_Health
  imports Git_Types
begin

text \<open>
  The health tracking of \<open>UnifiedTradingAccount.ts\<close> and the error classification of
  \<open>types/broker.ts\<close>.  The object's fields are the record \<open>health_state\<close>, which also holds the
  JavaScript timers that are running; a method returns the notifications it sends and the new
  state.  The asynchronous parts (the initial connect, a call of the broker, an attempt of the
  recovery loop, a heartbeat of the transport) interleave as the step relation \<open>health_step\<close>.
\<close>

section \<open>Error classification\<close>

definition classifyMessage :: "string \<Rightarrow> broker_error_code option" where
  "classifyMessage msg =
     (let m = to_lower msg; any = (\<lambda>ps. list_ex (\<lambda>p. found_in p m) ps) in
      if any [''market~closed'', ''not~open'', ''trading~halt'', ''outside~trading~hours''] then Some MARKET_CLOSED
      else if any [''timeout'', ''etimedout'', ''econnrefused'', ''econnreset'', ''socket hang up'', ''enotfound'', ''fetch failed'']
        then Some NETWORK
      else if any [''429'', ''rate~limit'', ''too many requests''] then Some NETWORK
      else if any [''502'', ''503'', ''504'', ''service~unavailable'', ''bad~gateway''] then Some NETWORK
      else if any [''401'', ''unauthorized'', ''invalid~key'', ''invalid~signature'', ''authentication''] then Some AUTH
      else if any [''403'', ''forbidden''] then Some EXCHANGE
      else if any [''insufficient'', ''not~enough'', ''margin''] then Some EXCHANGE
      else None)"

text \<open>\<open>BrokerError.from\<close> with the default fallback.\<close>

definition broker_error_from :: "js_error \<Rightarrow> js_error" where
  "broker_error_from e = (case e of
     BrokerError c m \<Rightarrow> e
   | _ \<Rightarrow> BrokerError (case classifyMessage (err_message e) of Some c \<Rightarrow> c | None \<Rightarrow> UNKNOWN) (err_message e))"

fun err_permanent :: "js_error \<Rightarrow> bool" where
  "err_permanent (BrokerError c m) = (c = CONFIG \<or> c = AUTH)"
| "err_permanent _ = False"

section \<open>State\<close>

datatype reach = Down | Connected | Readable

fun reach_rank :: "reach \<Rightarrow> nat" where
  "reach_rank Down = 0"
| "reach_rank Connected = 1"
| "reach_rank Readable = 2"

datatype tier = TierData | TierAccount | TierTrading

datatype health = Healthy | Degraded | Offline

text \<open>A running timer of the recovery loop: its handle, the attempt it will make and its delay.\<close>

record recovery_timer =
  rt_handle :: nat
  rt_attempt :: nat
  rt_delay :: nat

record health_state =
  hs_consecutiveFailures :: nat
  hs_lastError :: "string option"
  hs_lastSuccessAt :: "int option"
  hs_lastFailureAt :: "int option"
  hs_recoveryTimer :: "nat option"
  hs_recovering :: bool
  hs_disabled :: bool
  hs_connecting :: bool
  hs_currentReach :: reach
  hs_timers :: "recovery_timer list"
  hs_nextHandle :: nat

record health_config =
  hc_label :: string
  hc_keyless :: bool
  hc_readOnly :: bool

definition DEGRADED_THRESHOLD :: nat where "DEGRADED_THRESHOLD = 3"

definition OFFLINE_THRESHOLD :: nat where "OFFLINE_THRESHOLD = 6"

definition RECOVERY_BASE_MS :: nat where "RECOVERY_BASE_MS = 5000"

definition RECOVERY_MAX_MS :: nat where "RECOVERY_MAX_MS = 60000"

definition tier_of :: "health_config \<Rightarrow> tier" where
  "tier_of cfg = (if hc_keyless cfg then TierData else if hc_readOnly cfg then TierAccount else TierTrading)"

definition targetReach :: "health_config \<Rightarrow> reach" where
  "targetReach cfg = (if tier_of cfg = TierData then Connected else Readable)"

definition reachedTarget :: "health_config \<Rightarrow> health_state \<Rightarrow> bool" where
  "reachedTarget cfg st \<longleftrightarrow> reach_rank (targetReach cfg) \<le> reach_rank (hs_currentReach st)"

definition health_of :: "health_config \<Rightarrow> health_state \<Rightarrow> health" where
  "health_of cfg st =
     (if hs_disabled st then Offline
      else if hs_currentReach st = Down then Offline
      else if OFFLINE_THRESHOLD \<le> hs_consecutiveFailures st then Offline
      else if \<not> reachedTarget cfg st then Degraded
      else if DEGRADED_THRESHOLD \<le> hs_consecutiveFailures st then Degraded
      else Healthy)"

record health_info =
  hi_status :: health
  hi_reach :: reach
  hi_tier :: tier
  hi_consecutiveFailures :: nat
  hi_lastError :: "string option"
  hi_lastSuccessAt :: "int option"
  hi_lastFailureAt :: "int option"
  hi_recovering :: bool
  hi_connecting :: bool
  hi_disabled :: bool

definition getHealthInfo :: "health_config \<Rightarrow> health_state \<Rightarrow> health_info" where
  "getHealthInfo cfg st =
     \<lparr>hi_status = health_of cfg st, hi_reach = hs_currentReach st, hi_tier = tier_of cfg,
      hi_consecutiveFailures = hs_consecutiveFailures st, hi_lastError = hs_lastError st,
      hi_lastSuccessAt = hs_lastSuccessAt st, hi_lastFailureAt = hs_lastFailureAt st,
      hi_recovering = hs_recovering st, hi_connecting = hs_connecting st, hi_disabled = hs_disabled st\<rparr>"

definition new_health :: "health_config \<Rightarrow> health_state" where
  "new_health cfg =
     \<lparr>hs_consecutiveFailures = 0, hs_lastError = None, hs_lastSuccessAt = None, hs_lastFailureAt = None,
      hs_recoveryTimer = None, hs_recovering = False, hs_disabled = False, hs_connecting = True,
      hs_currentReach = targetReach cfg, hs_timers = [], hs_nextHandle = 0\<rparr>"

section \<open>Operations\<close>

datatype health_effect = HealthChanged health_info | PauseAutomation string

definition emitHealthChange :: "health_config \<Rightarrow> health_state \<Rightarrow> health_effect list" where
  "emitHealthChange cfg st = [HealthChanged (getHealthInfo cfg st)]"

definition emit_if_changed :: "health_config \<Rightarrow> health \<Rightarrow> health_state \<Rightarrow> health_effect list" where
  "emit_if_changed cfg prev st = (if prev \<noteq> health_of cfg st then emitHealthChange cfg st else [])"

definition clearTimeout :: "nat \<Rightarrow> health_state \<Rightarrow> health_state" where
  "clearTimeout h st = st\<lparr>hs_timers := filter (\<lambda>t. rt_handle t \<noteq> h) (hs_timers st)\<rparr>"

definition recovery_delay :: "nat \<Rightarrow> nat option \<Rightarrow> nat" where
  "recovery_delay attempt delayOverride =
     (case delayOverride of Some d \<Rightarrow> d | None \<Rightarrow> min (RECOVERY_BASE_MS * 2 ^ attempt) RECOVERY_MAX_MS)"

definition scheduleRecoveryAttempt :: "nat \<Rightarrow> nat option \<Rightarrow> health_state \<Rightarrow> health_state" where
  "scheduleRecoveryAttempt attempt delayOverride st =
     (let h = hs_nextHandle st in
      st\<lparr>hs_timers := hs_timers st @
           [\<lparr>rt_handle = h, rt_attempt = attempt, rt_delay = recovery_delay attempt delayOverride\<rparr>],
         hs_recoveryTimer := Some h, hs_nextHandle := h + 1\<rparr>)"

definition startRecovery :: "health_config \<Rightarrow> health_state \<Rightarrow> health_effect list \<times> health_state" where
  "startRecovery cfg st =
     (if hs_recovering st then ([], st)
      else let st1 = st\<lparr>hs_recovering := True\<rparr> in
        (emitHealthChange cfg st1, scheduleRecoveryAttempt 0 None st1))"

definition stop_timer :: "health_state \<Rightarrow> health_state" where
  "stop_timer st = (case hs_recoveryTimer st of None \<Rightarrow> st
     | Some h \<Rightarrow> (clearTimeout h st)\<lparr>hs_recoveryTimer := None\<rparr>)"

definition onSuccess :: "health_config \<Rightarrow> int \<Rightarrow> health_state \<Rightarrow> health_effect list \<times> health_state" where
  "onSuccess cfg now st =
     (let st1 = (stop_timer (st\<lparr>hs_consecutiveFailures := 0, hs_lastSuccessAt := Some now\<rparr>))\<lparr>hs_recovering := False\<rparr>
      in (emit_if_changed cfg (health_of cfg st) st1, st1))"

definition onFailure :: "health_config \<Rightarrow> int \<Rightarrow> js_error \<Rightarrow> health_state \<Rightarrow> health_effect list \<times> health_state" where
  "onFailure cfg now e st =
     (let st1 = st\<lparr>hs_consecutiveFailures := hs_consecutiveFailures st + 1, hs_lastError := Some (err_message e),
                   hs_lastFailureAt := Some now\<rparr>;
          (out, st2) = (if health_of cfg st1 = Offline \<and> \<not> hs_recovering st1 then startRecovery cfg st1 else ([], st1))
      in (out @ emit_if_changed cfg (health_of cfg st) st2, st2))"

text \<open>\<open>nudgeRecovery\<close> stops the known timer and schedules an attempt at once.\<close>

definition nudgeRecovery :: "health_state \<Rightarrow> health_state" where
  "nudgeRecovery st =
     (if \<not> hs_recovering st \<or> hs_disabled st then st
      else scheduleRecoveryAttempt 0 (Some 0)
        (case hs_recoveryTimer st of None \<Rightarrow> st | Some h \<Rightarrow> clearTimeout h st))"

definition notePermanent :: "js_error \<Rightarrow> health_state \<Rightarrow> health_state" where
  "notePermanent e st = (if err_permanent e then st\<lparr>hs_disabled := True\<rparr> else st)"

definition noteFailure :: "int \<Rightarrow> js_error \<Rightarrow> health_state \<Rightarrow> health_state" where
  "noteFailure now e st = st\<lparr>hs_lastError := Some (err_message e), hs_lastFailureAt := Some now\<rparr>"

text \<open>What the broker answers to a probe: \<open>init\<close> throws, \<open>getAccount\<close> throws, or all is well.\<close>

datatype probe = InitThrew js_error | AccountThrew js_error | ProbeOk

definition attemptReach :: "health_config \<Rightarrow> int \<Rightarrow> probe \<Rightarrow> health_state \<Rightarrow> reach \<times> health_state" where
  "attemptReach cfg now pr st =
     (case pr of
        InitThrew e \<Rightarrow> (Down, noteFailure now e (notePermanent e st))
      | _ \<Rightarrow>
          (if targetReach cfg = Connected then (Connected, st\<lparr>hs_lastSuccessAt := Some now\<rparr>)
           else case pr of
             AccountThrew e \<Rightarrow> (Connected, noteFailure now e (notePermanent e st))
           | _ \<Rightarrow> (Readable, st\<lparr>hs_lastSuccessAt := Some now\<rparr>)))"

datatype transport_event = Alive | Restored | Dead "string option"

definition onBrokerConnectionState ::
  "health_config \<Rightarrow> int \<Rightarrow> transport_event \<Rightarrow> health_state \<Rightarrow> health_effect list \<times> health_state"
where
  "onBrokerConnectionState cfg now ev st =
     (case ev of
        Alive \<Rightarrow> ([], st)
      | Restored \<Rightarrow> ([], nudgeRecovery st)
      | Dead err \<Rightarrow>
          (if hs_disabled st then ([], st)
           else
             let pause = [PauseAutomation (case err of Some m \<Rightarrow> m
                   | None \<Rightarrow> ''Broker connection lost; automatic trading paused.'')];
                 st1 = st\<lparr>hs_currentReach := Down, hs_consecutiveFailures := OFFLINE_THRESHOLD,
                   hs_lastError := Some (case err of Some m \<Rightarrow> m
                     | None \<Rightarrow> ''Broker transport reported a dead connection''),
                   hs_lastFailureAt := Some now\<rparr>
             in if hs_connecting st1 then (pause, st1)
                else if \<not> hs_recovering st1 then (let (out, st2) = startRecovery cfg st1 in (pause @ out, st2))
                else (pause @ emitHealthChange cfg st1, st1)))"

text \<open>
  The initial connect: up to the end of the probe, and after the sub-accounts were read (an await
  in between, whose failure is swallowed).
\<close>

definition connect_probe :: "health_config \<Rightarrow> int \<Rightarrow> probe \<Rightarrow> health_state \<Rightarrow> health_state" where
  "connect_probe cfg now pr st =
     (case attemptReach cfg now pr st of (rc, st1) \<Rightarrow> st1\<lparr>hs_currentReach := rc, hs_connecting := False\<rparr>)"

definition account_label :: "health_config \<Rightarrow> string" where
  "account_label cfg = ''Account '' @ [CHR 0x22] @ hc_label cfg @ [CHR 0x22]"

definition connect_settle ::
  "health_config \<Rightarrow> int \<Rightarrow> health_state \<Rightarrow> (js_error + unit) \<times> health_effect list \<times> health_state"
where
  "connect_settle cfg now st =
     (if hs_disabled st then
        (Inl (BrokerError CONFIG (case hs_lastError st of Some m \<Rightarrow> m | None \<Rightarrow> account_label cfg @ '' disabled'')),
         emitHealthChange cfg st, st)
      else if reachedTarget cfg st then
        (let (out, st1) = onSuccess cfg now st in (Inr (), out @ emitHealthChange cfg st1, st1))
      else
        (let st1 = (if hs_currentReach st = Down then st\<lparr>hs_consecutiveFailures := OFFLINE_THRESHOLD\<rparr> else st);
             (out, st2) = startRecovery cfg st1
         in (if hs_currentReach st2 = Down
             then Inl (BrokerError NETWORK (case hs_lastError st2 of Some m \<Rightarrow> m | None \<Rightarrow> account_label cfg @ '' unreachable''))
             else Inr (),
             out @ emitHealthChange cfg st2, st2)))"

text \<open>
  \<open>_callBroker\<close>: the check on entry, the checks before the call itself (when the initial connect is
  in flight, only after a grace), and its outcome.
\<close>

definition call_enter :: "health_config \<Rightarrow> health_state \<Rightarrow> js_error + unit" where
  "call_enter cfg st =
     (if hs_disabled st then Inl (BrokerError CONFIG (account_label cfg @ '' is disabled due to configuration error: '' @
          (case hs_lastError st of Some m \<Rightarrow> m | None \<Rightarrow> ''undefined'')))
      else Inr ())"

definition call_admit :: "health_config \<Rightarrow> health_state \<Rightarrow> js_error + unit" where
  "call_admit cfg st =
     (if hs_connecting st then Inl (BrokerError CONNECTING (account_label cfg @
          '' is still connecting to the broker. Data will be available shortly.''))
      else if health_of cfg st = Offline \<and> hs_recovering st then Inl (BrokerError CONNECTING (account_label cfg @
          '' is offline and reconnecting. Try again shortly.''))
      else Inr ())"

definition call_begin :: "health_config \<Rightarrow> health_state \<Rightarrow> js_error + unit" where
  "call_begin cfg st = bindE (call_enter cfg st) (\<lambda>_. call_admit cfg st)"

definition call_end ::
  "health_config \<Rightarrow> int \<Rightarrow> js_error + 'a \<Rightarrow> health_state \<Rightarrow> (js_error + 'a) \<times> health_effect list \<times> health_state"
where
  "call_end cfg now r st =
     (case r of
        Inr a \<Rightarrow> (let (out, st1) = onSuccess cfg now st in (Inr a, out, st1))
      | Inl e \<Rightarrow> (let be = broker_error_from e; (out, st1) = onFailure cfg now be st in (Inl be, out, st1)))"

text \<open>The recovery loop: its timer fires, and its attempt comes back.\<close>

definition timer_fires :: "nat \<Rightarrow> health_state \<Rightarrow> health_state" where
  "timer_fires h st = (clearTimeout h st)\<lparr>hs_recoveryTimer := None\<rparr>"

definition attempt_done ::
  "health_config \<Rightarrow> int \<Rightarrow> nat \<Rightarrow> probe \<Rightarrow> health_state \<Rightarrow> health_effect list \<times> health_state"
where
  "attempt_done cfg now attempt pr st =
     (case attemptReach cfg now pr st of (rc, st0) \<Rightarrow>
        (let st1 = st0\<lparr>hs_currentReach := rc\<rparr> in
         if hs_disabled st1 then (let st2 = st1\<lparr>hs_recovering := False\<rparr> in (emitHealthChange cfg st2, st2))
         else if reachedTarget cfg st1 then onSuccess cfg now st1
         else (emitHealthChange cfg st1, scheduleRecoveryAttempt (attempt + 1) None st1)))"

section \<open>Interleavings\<close>

text \<open>
  The asynchronous activities of an account: where the initial connect is, how many calls wait for
  its grace or are inside the broker, and the attempts of the recovery loop that are under way.
\<close>

datatype connect_pc = Probing | Warming | Settled

record health_machine =
  hm_state :: health_state
  hm_connect :: connect_pc
  hm_waiting :: nat
  hm_calls :: nat
  hm_attempts :: "nat list"

datatype health_event =
    EvProbe int probe | EvSettle int
  | EvCall | EvWait | EvResume | EvReturn int "js_error + unit"
  | EvTransport int transport_event | EvNudge
  | EvTimer nat | EvAttempt int nat probe

definition new_machine :: "health_config \<Rightarrow> health_machine" where
  "new_machine cfg = \<lparr>hm_state = new_health cfg, hm_connect = Probing, hm_waiting = 0, hm_calls = 0, hm_attempts = []\<rparr>"

inductive health_step :: "health_config \<Rightarrow> health_machine \<Rightarrow> health_event \<Rightarrow> health_machine \<Rightarrow> bool" for cfg where
  probe: "hm_connect m = Probing \<Longrightarrow>
    health_step cfg m (EvProbe now pr) (m\<lparr>hm_state := connect_probe cfg now pr (hm_state m), hm_connect := Warming\<rparr>)"
| settle: "hm_connect m = Warming \<Longrightarrow>
    health_step cfg m (EvSettle now) (m\<lparr>hm_state := snd (snd (connect_settle cfg now (hm_state m))), hm_connect := Settled\<rparr>)"
| call: "\<not> hs_connecting (hm_state m) \<Longrightarrow> call_begin cfg (hm_state m) = Inr () \<Longrightarrow>
    health_step cfg m EvCall (m\<lparr>hm_calls := Suc (hm_calls m)\<rparr>)"
| refused: "call_enter cfg (hm_state m) = Inl e \<or> \<not> hs_connecting (hm_state m) \<and> call_begin cfg (hm_state m) = Inl e \<Longrightarrow>
    health_step cfg m EvCall m"
| wait: "hs_connecting (hm_state m) \<Longrightarrow> call_enter cfg (hm_state m) = Inr () \<Longrightarrow>
    health_step cfg m EvWait (m\<lparr>hm_waiting := Suc (hm_waiting m)\<rparr>)"
| resume: "0 < hm_waiting m \<Longrightarrow> call_admit cfg (hm_state m) = Inr () \<Longrightarrow>
    health_step cfg m EvResume (m\<lparr>hm_waiting := hm_waiting m - Suc 0, hm_calls := Suc (hm_calls m)\<rparr>)"
| resume_refused: "0 < hm_waiting m \<Longrightarrow> call_admit cfg (hm_state m) = Inl e \<Longrightarrow>
    health_step cfg m EvResume (m\<lparr>hm_waiting := hm_waiting m - Suc 0\<rparr>)"
| return: "0 < hm_calls m \<Longrightarrow>
    health_step cfg m (EvReturn now r) (m\<lparr>hm_state := snd (snd (call_end cfg now r (hm_state m))), hm_calls := hm_calls m - Suc 0\<rparr>)"
| transport: "health_step cfg m (EvTransport now ev) (m\<lparr>hm_state := snd (onBrokerConnectionState cfg now ev (hm_state m))\<rparr>)"
| nudge: "health_step cfg m EvNudge (m\<lparr>hm_state := nudgeRecovery (hm_state m)\<rparr>)"
| timer: "t \<in> set (hs_timers (hm_state m)) \<Longrightarrow>
    health_step cfg m (EvTimer (rt_handle t)) (m\<lparr>hm_state := timer_fires (rt_handle t) (hm_state m),
      hm_attempts := hm_attempts m @ [rt_attempt t]\<rparr>)"
| attempt: "a \<in> set (hm_attempts m) \<Longrightarrow>
    health_step cfg m (EvAttempt now a pr) (m\<lparr>hm_state := snd (attempt_done cfg now a pr (hm_state m)), hm_attempts := remove1 a (hm_attempts m)\<rparr>)"

inductive_cases health_stepE: "health_step cfg m ev m'"

inductive health_reach :: "health_config \<Rightarrow> health_machine \<Rightarrow> bool" for cfg where
  start: "health_reach cfg (new_machine cfg)"
| step: "health_reach cfg m \<Longrightarrow> health_step cfg m ev m' \<Longrightarrow> health_reach cfg m'"

text \<open>The same moves as a function, for runs on concrete events; \<open>None\<close> where no step is possible.\<close>

definition health_exec1 :: "health_config \<Rightarrow> health_event \<Rightarrow> health_machine \<Rightarrow> health_machine option" where
  "health_exec1 cfg ev m = (let st = hm_state m in
     case ev of
       EvProbe now pr \<Rightarrow> if hm_connect m = Probing
         then Some (m\<lparr>hm_state := connect_probe cfg now pr st, hm_connect := Warming\<rparr>) else None
     | EvSettle now \<Rightarrow> if hm_connect m = Warming
         then Some (m\<lparr>hm_state := snd (snd (connect_settle cfg now st)), hm_connect := Settled\<rparr>) else None
     | EvCall \<Rightarrow> if hs_connecting st then None
         else if call_begin cfg st = Inr () then Some (m\<lparr>hm_calls := Suc (hm_calls m)\<rparr>) else Some m
     | EvReturn now r \<Rightarrow> if 0 < hm_calls m
         then Some (m\<lparr>hm_state := snd (snd (call_end cfg now r st)), hm_calls := hm_calls m - Suc 0\<rparr>) else None
     | EvTransport now tev \<Rightarrow> Some (m\<lparr>hm_state := snd (onBrokerConnectionState cfg now tev st)\<rparr>)
     | EvNudge \<Rightarrow> Some (m\<lparr>hm_state := nudgeRecovery st\<rparr>)
     | EvTimer h \<Rightarrow> (case find (\<lambda>t. rt_handle t = h) (hs_timers st) of None \<Rightarrow> None
         | Some t \<Rightarrow> Some (m\<lparr>hm_state := timer_fires h st, hm_attempts := hm_attempts m @ [rt_attempt t]\<rparr>))
     | EvAttempt now a pr \<Rightarrow> if a \<in> set (hm_attempts m)
         then Some (m\<lparr>hm_state := snd (attempt_done cfg now a pr st), hm_attempts := remove1 a (hm_attempts m)\<rparr>) else None
     | _ \<Rightarrow> None)"

fun health_exec :: "health_config \<Rightarrow> health_event list \<Rightarrow> health_machine \<Rightarrow> health_machine option" where
  "health_exec cfg [] m = Some m"
| "health_exec cfg (ev # evs) m = (case health_exec1 cfg ev m of None \<Rightarrow> None | Some m' \<Rightarrow> health_exec cfg evs m')"

lemma health_exec1_step: "health_exec1 cfg ev m = Some m' \<Longrightarrow> health_step cfg m ev m'"
proof (cases ev)
  case (EvTimer h)
  assume "health_exec1 cfg ev m = Some m'"
  with EvTimer obtain t where "find (\<lambda>t. rt_handle t = h) (hs_timers (hm_state m)) = Some t"
    "m' = m\<lparr>hm_state := timer_fires h (hm_state m), hm_attempts := hm_attempts m @ [rt_attempt t]\<rparr>"
    by (auto simp: health_exec1_def Let_def split: option.splits)
  with EvTimer show ?thesis
    using health_step.timer [of t m cfg] by (auto simp: find_Some_iff)
next
  case EvCall
  assume "health_exec1 cfg ev m = Some m'"
  with EvCall show ?thesis
    by (cases "call_begin cfg (hm_state m)")
      (auto simp: health_exec1_def Let_def intro: health_step.call health_step.refused split: if_splits)
qed (auto simp: health_exec1_def Let_def intro: health_step.intros split: if_splits)

lemma health_exec_reach: "health_exec cfg evs m = Some m' \<Longrightarrow> health_reach cfg m \<Longrightarrow> health_reach cfg m'"
proof (induction evs arbitrary: m)
  case Nil
  then show ?case by simp
next
  case (Cons ev evs)
  then obtain m1 where "health_exec1 cfg ev m = Some m1" "health_exec cfg evs m1 = Some m'"
    by (auto split: option.splits)
  with Cons show ?case by (blast intro: health_reach.step health_exec1_step)
qed

section \<open>The recovery loop never dies on its own\<close>

text \<open>A recovering account has an attempt ahead, and the delays stay within the cap.\<close>

definition health_inv :: "health_machine \<Rightarrow> bool" where
  "health_inv m \<longleftrightarrow>
     (hs_recovering (hm_state m) \<longrightarrow> hs_timers (hm_state m) \<noteq> [] \<or> hm_attempts m \<noteq> []) \<and>
     (\<forall>t \<in> set (hs_timers (hm_state m)). rt_delay t \<le> RECOVERY_MAX_MS) \<and>
     (hs_connecting (hm_state m) \<longleftrightarrow> hm_connect m = Probing)"

lemma delay_bound: "d = None \<or> d = Some 0 \<Longrightarrow> recovery_delay a d \<le> RECOVERY_MAX_MS"
  by (auto simp: recovery_delay_def)

lemmas health_ops = clearTimeout_def stop_timer_def onSuccess_def onFailure_def startRecovery_def
  scheduleRecoveryAttempt_def nudgeRecovery_def Let_def

lemma attemptReach_sel:
  "hs_recovering (snd (attemptReach cfg now pr st)) = hs_recovering st"
  "hs_timers (snd (attemptReach cfg now pr st)) = hs_timers st"
  "hs_connecting (snd (attemptReach cfg now pr st)) = hs_connecting st"
  "hs_recoveryTimer (snd (attemptReach cfg now pr st)) = hs_recoveryTimer st"
  by (auto simp: attemptReach_def noteFailure_def notePermanent_def split: probe.splits)

lemma onSuccess_sel:
  "\<not> hs_recovering (snd (onSuccess cfg now st))"
  "set (hs_timers (snd (onSuccess cfg now st))) \<subseteq> set (hs_timers st)"
  "hs_connecting (snd (onSuccess cfg now st)) = hs_connecting st"
  "hs_currentReach (snd (onSuccess cfg now st)) = hs_currentReach st"
  "hs_disabled (snd (onSuccess cfg now st)) = hs_disabled st"
  by (auto simp: health_ops split: option.splits)

lemma health_inv_step:
  assumes "health_step cfg m ev m'" "health_inv m"
  shows "health_inv m'"
  using assms
proof (cases rule: health_step.cases)
  case (probe now pr)
  then show ?thesis using assms(2)
    by (auto simp: health_inv_def connect_probe_def attemptReach_sel case_prod_unfold)
next
  case (settle now)
  then show ?thesis using assms(2) onSuccess_sel [of cfg now "hm_state m"]
    by (auto simp: health_inv_def connect_settle_def case_prod_unfold startRecovery_def scheduleRecoveryAttempt_def
        Let_def delay_bound)
next
  case (return now r)
  then show ?thesis using assms(2) onSuccess_sel [of cfg now "hm_state m"]
    by (auto simp: health_inv_def call_end_def case_prod_unfold onFailure_def startRecovery_def scheduleRecoveryAttempt_def
        Let_def delay_bound split: sum.splits)
next
  case (transport now ev)
  then show ?thesis using assms(2)
    by (auto simp: health_inv_def onBrokerConnectionState_def case_prod_unfold health_ops delay_bound
        split: transport_event.splits option.splits)
next
  case nudge
  then show ?thesis using assms(2)
    by (auto simp: health_inv_def health_ops delay_bound split: option.splits)
next
  case (timer t)
  then show ?thesis using assms(2) by (auto simp: health_inv_def timer_fires_def clearTimeout_def)
next
  case (attempt a now pr)
  let ?st = "snd (attemptReach cfg now pr (hm_state m))\<lparr>hs_currentReach := fst (attemptReach cfg now pr (hm_state m))\<rparr>"
  show ?thesis using attempt assms(2) onSuccess_sel [of cfg now ?st]
    by (auto simp: health_inv_def attempt_done_def case_prod_unfold attemptReach_sel scheduleRecoveryAttempt_def
        Let_def delay_bound)
qed (auto simp: health_inv_def)

lemma health_inv_reach: "health_reach cfg m \<Longrightarrow> health_inv m"
proof (induction rule: health_reach.induct)
  case start
  show ?case by (simp add: health_inv_def new_machine_def new_health_def)
next
  case (step m ev m')
  then show ?case by (blast intro: health_inv_step)
qed

section \<open>Success without recovery\<close>

lemmas health_exec_simps = health_exec1_def new_machine_def new_health_def connect_probe_def attemptReach_def
  noteFailure_def notePermanent_def connect_settle_def reachedTarget_def startRecovery_def
  scheduleRecoveryAttempt_def call_begin_def call_enter_def call_admit_def health_of_def
  OFFLINE_THRESHOLD_def DEGRADED_THRESHOLD_def call_end_def onSuccess_def stop_timer_def clearTimeout_def
  timer_fires_def nudgeRecovery_def attempt_done_def targetReach_def tier_of_def Let_def

text \<open>An account below its target that nothing is going to bring up again.\<close>

definition stuck :: "health_config \<Rightarrow> health_machine \<Rightarrow> bool" where
  "stuck cfg m \<longleftrightarrow> (let st = hm_state m in
     hm_connect m = Settled \<and> \<not> hs_connecting st \<and> \<not> hs_disabled st \<and> hs_currentReach st = Connected \<and>
     \<not> reachedTarget cfg st \<and> hs_consecutiveFailures st = 0 \<and> \<not> hs_recovering st \<and>
     hs_timers st = [] \<and> hs_recoveryTimer st = None \<and> hm_attempts m = [])"

text \<open>Everything that happens on a broker that works: calls, their success, nudges, heartbeats.\<close>

fun quiet :: "health_event \<Rightarrow> bool" where
  "quiet (EvReturn now (Inl e)) = False"
| "quiet (EvTransport now (Dead e)) = False"
| "quiet ev = True"

lemma stuck_exec1:
  assumes "stuck cfg m" "quiet ev" "health_exec1 cfg ev m = Some m'"
  shows "stuck cfg m'"
proof (cases ev)
  case (EvReturn now r)
  with assms show ?thesis
    by (cases r) (auto simp: stuck_def health_exec1_def call_end_def health_ops reachedTarget_def split: if_splits)
next
  case (EvTransport now tev)
  with assms show ?thesis
    by (cases tev) (auto simp: stuck_def health_exec1_def onBrokerConnectionState_def nudgeRecovery_def Let_def)
qed (use assms in \<open>auto simp: stuck_def health_exec1_def nudgeRecovery_def Let_def split: if_splits\<close>)

lemma stuck_exec: "stuck cfg m \<Longrightarrow> list_all quiet evs \<Longrightarrow> health_exec cfg evs m = Some m' \<Longrightarrow> stuck cfg m'"
  by (induction evs arbitrary: m) (auto split: option.splits dest: stuck_exec1)

lemma stuck_degraded: "stuck cfg m \<Longrightarrow> health_of cfg (hm_state m) = Degraded"
  by (simp add: stuck_def health_of_def OFFLINE_THRESHOLD_def Let_def)

definition stuck_run :: "string \<Rightarrow> health_event list" where
  "stuck_run msg = [EvProbe 0 (AccountThrew (BrokerError NETWORK msg)), EvSettle 1, EvCall, EvReturn 2 (Inr ())]"

lemma stuck_run_stuck:
  assumes "\<not> hc_keyless cfg"
  shows "\<exists>m. health_exec cfg (stuck_run msg) (new_machine cfg) = Some m \<and> stuck cfg m"
proof -
  show ?thesis using assms by (simp add: stuck_run_def stuck_def health_exec_simps)
qed

text \<open>A nudge while an attempt is under way leaves two loops running.\<close>

lemma nudge_doubles_loop:
  "\<exists>m. health_exec \<lparr>hc_label = ''A'', hc_keyless = False, hc_readOnly = False\<rparr>
      [EvProbe 0 (InitThrew TypeError), EvSettle 1, EvTimer 0, EvNudge, EvAttempt 2 0 (InitThrew TypeError)]
      (new_machine \<lparr>hc_label = ''A'', hc_keyless = False, hc_readOnly = False\<rparr>) = Some m \<and>
    length (hs_timers (hm_state m)) = 2"
proof -
  let ?c = "\<lparr>hc_label = ''A'', hc_keyless = False, hc_readOnly = False\<rparr>"
  have "case health_exec ?c [EvProbe 0 (InitThrew TypeError), EvSettle 1, EvTimer 0, EvNudge, EvAttempt 2 0 (InitThrew TypeError)]
      (new_machine ?c) of Some m \<Rightarrow> length (hs_timers (hm_state m)) = 2 | None \<Rightarrow> False"
    by (simp add: health_exec_simps)
  then show ?thesis by (auto split: option.splits)
qed

section \<open>Properties\<close>

text \<open>C20: in every interleaving of the initial connect, broker calls, heartbeats, nudges and recovery
  attempts, an account that says it is recovering has an attempt running or a timer that starts one
  within a minute.  While it is offline and recovering, a read is refused as transient (connecting),
  unless the account is disabled, when it is refused as a configuration error.\<close>

theorem recovery_always_pending:
  assumes "health_reach cfg m" "hs_recovering (hm_state m)"
  shows "(hm_attempts m \<noteq> [] \<or> (\<exists>t \<in> set (hs_timers (hm_state m)). rt_delay t \<le> RECOVERY_MAX_MS)) \<and>
    (health_of cfg (hm_state m) = Offline \<longrightarrow>
       (\<exists>msg. call_begin cfg (hm_state m) =
          Inl (BrokerError (if hs_disabled (hm_state m) then CONFIG else CONNECTING) msg)))"
proof -
  have "health_inv m" by (rule health_inv_reach [OF assms(1)])
  with assms(2) show ?thesis
    by (cases "hs_timers (hm_state m)") (auto simp: health_inv_def call_begin_def call_enter_def call_admit_def)
qed

text \<open>A funded account whose first account read fails, and on which any other broker call then
  succeeds before the retry, is left degraded with its retry cancelled: from there no number of
  successful calls, nudges or heartbeats brings it back to healthy.\<close>

theorem success_cancels_recovery:
  assumes "\<not> hc_keyless cfg"
  shows "\<exists>m. health_exec cfg (stuck_run msg) (new_machine cfg) = Some m \<and>
    (\<forall>evs m'. list_all quiet evs \<longrightarrow> health_exec cfg evs m = Some m' \<longrightarrow>
       health_of cfg (hm_state m') = Degraded \<and> hs_timers (hm_state m') = [] \<and> hm_attempts m' = [])"
proof -
  obtain m where m: "health_exec cfg (stuck_run msg) (new_machine cfg) = Some m" "stuck cfg m"
    using stuck_run_stuck [OF assms] by blast
  have "health_of cfg (hm_state m') = Degraded \<and> hs_timers (hm_state m') = [] \<and> hm_attempts m' = []"
    if "list_all quiet evs" "health_exec cfg evs m = Some m'" for evs m'
    using stuck_exec [OF m(2) that] stuck_degraded by (auto simp: stuck_def Let_def)
  with m(1) show ?thesis by blast
qed

section \<open>Witnesses\<close>

definition funded :: health_config where
  "funded = \<lparr>hc_label = ''A'', hc_keyless = False, hc_readOnly = False\<rparr>"

lemma recovery_always_pending_witness:
  "\<exists>m. health_exec funded [EvProbe 0 (InitThrew TypeError), EvSettle 1] (new_machine funded) = Some m \<and>
    (hm_attempts m \<noteq> [] \<or> (\<exists>t \<in> set (hs_timers (hm_state m)). rt_delay t \<le> RECOVERY_MAX_MS))"
proof -
  have "case health_exec funded [EvProbe 0 (InitThrew TypeError), EvSettle 1] (new_machine funded) of
      Some m \<Rightarrow> hs_recovering (hm_state m) | None \<Rightarrow> False" by (simp add: funded_def health_exec_simps)
  then obtain m where m: "health_exec funded [EvProbe 0 (InitThrew TypeError), EvSettle 1] (new_machine funded) = Some m"
    "hs_recovering (hm_state m)" by (auto split: option.splits)
  have "health_reach funded m" by (rule health_exec_reach [OF m(1) health_reach.start])
  from recovery_always_pending [OF this m(2)] m(1) show ?thesis by blast
qed

lemma success_cancels_recovery_witness:
  "\<exists>m. health_exec funded (stuck_run ''timeout'') (new_machine funded) = Some m \<and>
    health_of funded (hm_state m) = Degraded"
proof -
  have "\<not> hc_keyless funded" by (simp add: funded_def)
  from success_cancels_recovery [OF this, of "''timeout''"] obtain m where
    m: "health_exec funded (stuck_run ''timeout'') (new_machine funded) = Some m"
    and st: "\<forall>evs m'. list_all quiet evs \<longrightarrow> health_exec funded evs m = Some m' \<longrightarrow>
       health_of funded (hm_state m') = Degraded \<and> hs_timers (hm_state m') = [] \<and> hm_attempts m' = []" by blast
  from st [rule_format, of "[]" m] m show ?thesis by auto
qed

end
