(* ===== verification/UTA_Account.thy ===== *)
theory UTA_Account
  imports Auto_Risk Account_Health
begin

text \<open>
  \<open>UnifiedTradingAccount.ts\<close>, first part: the account around a ledger.  It stages operations, runs
  them through guards and the automation envelope to the broker, commits, pushes and rejects; with
  \<open>order-entry.ts\<close>, the one-shot path of the manual form.

  The broker is a record of its methods over a world \<open>'w\<close>.  What the account keeps beside the ledger
  (health, envelope, guards, the push flag, sub-accounts, poll state) is the record \<open>uta_side\<close>; the
  callbacks that the account gives its ledger read and change it, so the ledger's world is the pair
  of \<open>uta_side\<close> and \<open>'w\<close>.  Notifications of health changes and of finished pushes go to the manager
  and are not modelled here.
\<close>

section \<open>The broker interface and the account\<close>

record 'w uta_broker =
  ib_placeOrder :: "contract \<Rightarrow> order \<Rightarrow> tpsl option \<Rightarrow> 'w \<Rightarrow> (js_error + raw) \<times> 'w"
  ib_modifyOrder :: "string \<Rightarrow> order \<Rightarrow> 'w \<Rightarrow> (js_error + raw) \<times> 'w"
  ib_cancelOrder :: "string \<Rightarrow> order_cancel option \<Rightarrow> 'w \<Rightarrow> (js_error + raw) \<times> 'w"
  ib_closePosition :: "contract \<Rightarrow> jdec option \<Rightarrow> 'w \<Rightarrow> (js_error + raw) \<times> 'w"
  ib_getAccount :: "string option \<Rightarrow> 'w \<Rightarrow> (js_error + account_info) \<times> 'w"
  ib_getPositions :: "string option \<Rightarrow> 'w \<Rightarrow> (js_error + dec position list) \<times> 'w"
  ib_getOrders :: "string list \<Rightarrow> 'w \<Rightarrow> (js_error + open_order list) \<times> 'w"
  ib_getOrder :: "string \<Rightarrow> string option \<Rightarrow> 'w \<Rightarrow> (js_error + open_order option) \<times> 'w"
  ib_getOpenOrders :: "('w \<Rightarrow> (js_error + open_order list) \<times> 'w) option"
  ib_getQuote :: "contract \<Rightarrow> 'w \<Rightarrow> (js_error + quote) \<times> 'w"
  ib_getNativeKey :: "contract \<Rightarrow> string"
  ib_resolveNativeKey :: "string \<Rightarrow> js_error + contract"
  ib_listSubAccounts :: "('w \<Rightarrow> (js_error + sub_account_ref list) \<times> 'w) option"
  ib_subAccountForContract :: "(contract \<Rightarrow> string option) option"

record 'w uta_config =
  uc_id :: string
  uc_label :: string
  uc_keyless :: bool
  uc_readOnly :: bool
  uc_broker :: "'w uta_broker"
  uc_policy :: "risk_policy option"
  uc_paper :: bool
  uc_emergencyStopped :: "('w \<Rightarrow> (js_error + bool) \<times> 'w) option"
  uc_readRisk :: "'w \<Rightarrow> (js_error + risk_file) \<times> 'w"
  uc_writeRisk :: "risk_state \<Rightarrow> 'w \<Rightarrow> (js_error + unit) \<times> 'w"
  uc_onCommit :: "(dec git_export \<Rightarrow> 'w \<Rightarrow> (js_error + unit) \<times> 'w) option"
  uc_now :: "'w \<Rightarrow> int"
  uc_iso :: "'w \<Rightarrow> string"
  uc_hash :: "hash_input \<Rightarrow> string"
  uc_decimal :: decimal_js

record uta_side =
  us_health :: health_state
  us_risk :: "risk_state option"
  us_guards :: "guard list"
  us_automatedPushActive :: bool
  us_subAccounts :: "sub_account_ref list option"
  us_stagedSubAccountIds :: "string list"
  us_pollState :: "(string, int \<times> int) jsmap"

record uta =
  u_git :: trading_git
  u_side :: uta_side

definition health_cfg :: "'w uta_config \<Rightarrow> health_config" where
  "health_cfg cfg = \<lparr>hc_label = uc_label cfg, hc_keyless = uc_keyless cfg, hc_readOnly = uc_readOnly cfg\<rparr>"

definition acct :: "'w uta_config \<Rightarrow> string" where
  "acct cfg = ''Account '' @ [CHR 0x22] @ uc_label cfg @ [CHR 0x22]"

definition q_str :: "string \<Rightarrow> string" where
  "q_str s = [CHR 0x22] @ s @ [CHR 0x22]"

section \<open>aliceId\<close>

definition stamp_id :: "'w uta_config \<Rightarrow> contract \<Rightarrow> string" where
  "stamp_id cfg c = uc_id cfg @ ''|'' @ ib_getNativeKey (uc_broker cfg) c"

definition stampAliceId :: "'w uta_config \<Rightarrow> contract \<Rightarrow> contract" where
  "stampAliceId cfg c = c\<lparr>c_aliceId := Some (stamp_id cfg c)\<rparr>"

text \<open>Split at the first bar.\<close>

definition parseAliceId :: "string \<Rightarrow> (string \<times> string) option" where
  "parseAliceId a = (if CHR ''|'' \<in> set a
     then Some (takeWhile (\<lambda>c. c \<noteq> CHR ''|'') a, tl (dropWhile (\<lambda>c. c \<noteq> CHR ''|'') a)) else None)"

definition contractFromAliceId :: "'w uta_config \<Rightarrow> string \<Rightarrow> js_error + contract" where
  "contractFromAliceId cfg a =
     (case parseAliceId a of
        None \<Rightarrow> Inl (PlainError (''Invalid aliceId '' @ q_str a @
          ''. Use searchContracts to get a valid contract identifier (expected format: '' @ q_str ''accountId|nativeKey'' @ '').''))
      | Some (u, nk) \<Rightarrow>
          (if u \<noteq> uc_id cfg then Inl (PlainError (''aliceId '' @ q_str a @ '' belongs to UTA '' @ q_str u @
             '', not '' @ q_str (uc_id cfg) @ ''.''))
           else bindE (ib_resolveNativeKey (uc_broker cfg) nk) (\<lambda>c. Inr (c\<lparr>c_aliceId := Some a\<rparr>))))"

section \<open>Gates\<close>

definition assertCanCreateProposal :: "'w uta_config \<Rightarrow> js_error + unit" where
  "assertCanCreateProposal cfg = ensure (\<not> uc_keyless cfg) (BrokerError CONFIG (acct cfg @
     '' is a keyless public-data account '' @ em_dash @ '' trading proposals require a funded account.''))"

definition assertCanMutateAccount :: "'w uta_config \<Rightarrow> string \<Rightarrow> js_error + unit" where
  "assertCanMutateAccount cfg act = ensure (\<not> uc_readOnly cfg) (BrokerError CONFIG (acct cfg @ '' is read-only'' @
     (if uc_keyless cfg then '' (keyless public-data account)'' else []) @ '' '' @ em_dash @ '' '' @ act @
     '' would mutate the external account, which is not allowed.''))"

text \<open>\<open>_callBroker\<close>: the health checks, the call, the health bookkeeping.\<close>

definition callBroker ::
  "'w uta_config \<Rightarrow> ('w \<Rightarrow> (js_error + 'a) \<times> 'w) \<Rightarrow> uta_side \<times> 'w \<Rightarrow> (js_error + 'a) \<times> uta_side \<times> 'w"
where
  "callBroker cfg f sw =
     (case call_begin (health_cfg cfg) (us_health (fst sw)) of
        Inl e \<Rightarrow> (Inl e, sw)
      | Inr _ \<Rightarrow>
          (case f (snd sw) of (r, w1) \<Rightarrow>
             (case call_end (health_cfg cfg) (uc_now cfg w1) r (us_health (fst sw)) of
                (r1, out, h1) \<Rightarrow> (r1, (fst sw)\<lparr>us_health := h1\<rparr>, w1))))"

definition close_qty_error :: js_error where
  "close_qty_error = PlainError ''closePosition: qty must be a positive finite number.''"

definition assertCloseQuantityWithinPosition ::
  "'w uta_config \<Rightarrow> contract \<Rightarrow> jdec \<Rightarrow> uta_side \<times> 'w \<Rightarrow> (js_error + unit) \<times> uta_side \<times> 'w"
where
  "assertCloseQuantityWithinPosition cfg c quantity sw =
     (case as_dec quantity of
        Inl e \<Rightarrow> (Inl e, sw)
      | Inr q \<Rightarrow>
          (if \<not> d_isFinite q \<or> d_lte q (Fin 0) then (Inl close_qty_error, sw)
           else
             (let key = ib_getNativeKey (uc_broker cfg) in
              case callBroker cfg (ib_getPositions (uc_broker cfg) None) sw of
                (Inl e, sw1) \<Rightarrow> (Inl e, sw1)
              | (Inr ps, sw1) \<Rightarrow>
                  (let label = or_str (c_symbol c) (or_str (c_localSymbol c) (key c)); D = uc_decimal cfg in
                   case find (\<lambda>p. key (p_contract p) = key c) ps of
                     None \<Rightarrow> (Inl (PlainError (''closePosition: no open position found for '' @ label @
                        ''. Refresh positions before retrying.'')), sw1)
                   | Some p \<Rightarrow>
                       (let available = d_abs (p_quantity p) in
                        if d_gt q available
                        then (Inl (PlainError (''closePosition: quantity '' @ dj_to_string D q @ '' exceeds the open '' @ label @
                               '' position size '' @ dj_to_string D available @ ''. Use a quantity no greater than '' @
                               dj_to_string D available @ '', or omit qty to close the full position.'')), sw1)
                        else (Inr (), sw1))))))"

section \<open>Dispatch\<close>

definition risk_env_of :: "'w uta_config \<Rightarrow> 'w risk_env" where
  "risk_env_of cfg = (let b = uc_broker cfg in
     \<lparr>re_clock = uc_now cfg, re_getAccount = ib_getAccount b None, re_getPositions = ib_getPositions b None,
      re_getQuote = ib_getQuote b, re_getNativeKey = ib_getNativeKey b,
      re_readState = uc_readRisk cfg, re_writeState = uc_writeRisk cfg\<rparr>)"

text \<open>\<open>if (this._automatedPushActive) await this._autoTrading?.check(op)\<close>.\<close>

definition automation_check ::
  "'w uta_config \<Rightarrow> operation \<Rightarrow> uta_side \<times> 'w \<Rightarrow> (js_error + unit) \<times> uta_side \<times> 'w"
where
  "automation_check cfg op sw =
     (case (us_automatedPushActive (fst sw), us_risk (fst sw), uc_policy cfg) of
        (True, Some st, Some policy) \<Rightarrow>
          (case risk_check (uc_decimal cfg) (risk_env_of cfg) policy op st (snd sw) of
             (r, st1, w1) \<Rightarrow> (r, (fst sw)\<lparr>us_risk := Some st1\<rparr>, w1))
      | _ \<Rightarrow> (Inr (), sw))"

definition on_world :: "('w \<Rightarrow> 'r \<times> 'w) \<Rightarrow> 's \<times> 'w \<Rightarrow> 'r \<times> 's \<times> 'w" where
  "on_world f sw = (case f (snd sw) of (r, w1) \<Rightarrow> (r, fst sw, w1))"

definition dispatch_op ::
  "'w uta_config \<Rightarrow> operation \<Rightarrow> uta_side \<times> 'w \<Rightarrow> (js_error + raw) \<times> uta_side \<times> 'w"
where
  "dispatch_op cfg op sw = (let b = uc_broker cfg in
     case op of
       PlaceOrder c od t \<Rightarrow> on_world (ib_placeOrder b c od t) sw
     | ModifyOrder i ch \<Rightarrow> on_world (ib_modifyOrder b i ch) sw
     | ClosePosition c None \<Rightarrow> on_world (ib_closePosition b c None) sw
     | ClosePosition c (Some q) \<Rightarrow>
         (case assertCloseQuantityWithinPosition cfg c q sw of
            (Inl e, sw1) \<Rightarrow> (Inl e, sw1)
          | (Inr _, sw1) \<Rightarrow> on_world (ib_closePosition b c (Some q)) sw1)
     | CancelOrder i oc \<Rightarrow> on_world (ib_cancelOrder b i oc) sw
     | _ \<Rightarrow> (Inl (PlainError (''Unknown operation action: '' @ action_str (op_action op))), sw))"

definition dispatcher :: "'w uta_config \<Rightarrow> operation \<Rightarrow> uta_side \<times> 'w \<Rightarrow> (js_error + raw) \<times> uta_side \<times> 'w" where
  "dispatcher cfg op sw =
     (case assertCanMutateAccount cfg (action_str (op_action op)) of
        Inl e \<Rightarrow> (Inl e, sw)
      | Inr _ \<Rightarrow>
          (case automation_check cfg op sw of
             (Inl e, sw1) \<Rightarrow> (Inl e, sw1)
           | (Inr _, sw1) \<Rightarrow> dispatch_op cfg op sw1))"

definition guarded_dispatcher ::
  "'w uta_config \<Rightarrow> operation \<Rightarrow> uta_side \<times> 'w \<Rightarrow> (js_error + raw) \<times> uta_side \<times> 'w"
where
  "guarded_dispatcher cfg op sw =
     (case createGuardPipeline guard_name (guard_check (uc_decimal cfg) (\<lambda>x. uc_now cfg (snd x))) (dispatcher cfg)
        \<lparr>av_getPositions = on_world (ib_getPositions (uc_broker cfg) None),
         av_getAccount = on_world (ib_getAccount (uc_broker cfg) None)\<rparr>
        op (us_guards (fst sw)) sw of
        (r, gs1, sw1) \<Rightarrow> (r, (fst sw1)\<lparr>us_guards := gs1\<rparr>, snd sw1))"

section \<open>The ledger's configuration\<close>

definition fetch_state ::
  "'w uta_broker \<Rightarrow> string list \<Rightarrow> 'w \<Rightarrow> (js_error + account_info \<times> dec position list \<times> open_order list) \<times> 'w"
where
  "fetch_state b ids w =
     (let (a, w1) = ib_getAccount b None w; (p, w2) = ib_getPositions b None w1; (od, w3) = ib_getOrders b ids w2 in
      (bindE a (\<lambda>acc. bindE p (\<lambda>ps. bindE od (\<lambda>ods. Inr (acc, ps, ods)))), w3))"

definition stamp_position :: "'w uta_config \<Rightarrow> dec position \<Rightarrow> dec position" where
  "stamp_position cfg p = p\<lparr>p_contract := stampAliceId cfg (p_contract p)\<rparr>"

definition stamp_order :: "'w uta_config \<Rightarrow> open_order \<Rightarrow> open_order" where
  "stamp_order cfg od = od\<lparr>oo_contract := stampAliceId cfg (oo_contract od)\<rparr>"

definition working_status :: "string \<Rightarrow> bool" where
  "working_status s \<longleftrightarrow> s = ''Submitted'' \<or> s = ''PreSubmitted''"

definition getState ::
  "'w uta_config \<Rightarrow> trading_git \<Rightarrow> uta_side \<times> 'w \<Rightarrow> (js_error + dec git_state) \<times> uta_side \<times> 'w"
where
  "getState cfg g sw =
     (let ids = map po_orderId (getPendingOrderIds g) in
      case callBroker cfg (fetch_state (uc_broker cfg) ids) sw of
        (Inl e, sw1) \<Rightarrow> (Inl e, sw1)
      | (Inr (acc, ps, ods), sw1) \<Rightarrow>
          (Inr \<lparr>gs_netLiquidation = ai_netLiquidation acc, gs_totalCashValue = ai_totalCashValue acc,
                gs_unrealizedPnL = ai_unrealizedPnL acc,
                gs_realizedPnL = (case ai_realizedPnL acc of Some s \<Rightarrow> s | None \<Rightarrow> ''0''),
                gs_positions = map (stamp_position cfg) ps,
                gs_pendingOrders = filter (\<lambda>od. working_status (os_status (oo_orderState od)))
                  (map (stamp_order cfg) ods)\<rparr>, sw1))"

definition git_cfg :: "'w uta_config \<Rightarrow> (uta_side \<times> 'w) git_config" where
  "git_cfg cfg =
     \<lparr>executeOperation = guarded_dispatcher cfg, getGitState = getState cfg,
      onCommit = (case uc_onCommit cfg of None \<Rightarrow> None | Some cb \<Rightarrow> Some (\<lambda>x. on_world (cb x))),
      clock = (\<lambda>sw. uc_iso cfg (snd sw)), commitHash = uc_hash cfg\<rparr>"

section \<open>Staging\<close>

record stage_place_params =
  sp_aliceId :: string
  sp_symbol :: "string option"
  sp_subAccountId :: "string option"
  sp_action :: string
  sp_orderType :: string
  sp_totalQuantity :: "string option"
  sp_cashQty :: "string option"
  sp_lmtPrice :: "string option"
  sp_auxPrice :: "string option"
  sp_trailStopPrice :: "string option"
  sp_trailingPercent :: "string option"
  sp_tif :: "string option"
  sp_goodTillDate :: "string option"
  sp_outsideRth :: bool
  sp_parentId :: "string option"
  sp_ocaGroup :: "string option"
  sp_takeProfit :: "string option"
  sp_stopLoss :: "(string \<times> string option) option"

record stage_modify_params =
  sm_orderId :: string
  sm_totalQuantity :: "string option"
  sm_lmtPrice :: "string option"
  sm_auxPrice :: "string option"
  sm_trailStopPrice :: "string option"
  sm_trailingPercent :: "string option"
  sm_orderType :: "string option"
  sm_tif :: "string option"
  sm_goodTillDate :: "string option"

record stage_close_params =
  sc_aliceId :: string
  sc_symbol :: "string option"
  sc_qty :: "string option"
  sc_subAccountId :: "string option"

definition place_fail :: "stage_place_params \<Rightarrow> string \<Rightarrow> js_error" where
  "place_fail p msg = PlainError (''placeOrder ('' @ sp_orderType p @ ''): '' @ msg)"

definition exactly_one_msg :: "string \<Rightarrow> string" where
  "exactly_one_msg what = what @ '' are mutually exclusive '' @ em_dash @ '' provide exactly one.''"

definition quantity_rules :: "stage_place_params \<Rightarrow> js_error + unit" where
  "quantity_rules p =
     (let qty = truthy (sp_totalQuantity p); cash = truthy (sp_cashQty p) in
      if qty \<and> cash then Inl (place_fail p (exactly_one_msg ''totalQuantity and cashQty''))
      else if sp_orderType p = ''MKT'' then
        ensure (qty \<or> cash) (place_fail p ''requires totalQuantity (shares) or cashQty (notional).'')
      else if cash then Inl (place_fail p (''cashQty (notional) is only supported for MKT orders '' @ em_dash @ '' use totalQuantity.''))
      else ensure qty (place_fail p ''requires totalQuantity.''))"

definition price_rules :: "stage_place_params \<Rightarrow> js_error + unit" where
  "price_rules p =
     (let lmt = truthy (sp_lmtPrice p); aux = truthy (sp_auxPrice p); pct = truthy (sp_trailingPercent p); ty = sp_orderType p in
      if ty = ''LMT'' then ensure lmt (place_fail p ''requires lmtPrice.'')
      else if ty = ''STP'' then ensure aux (place_fail p ''requires auxPrice (stop trigger price).'')
      else if ty = ''STP LMT'' then
        (if \<not> aux then Inl (place_fail p ''requires auxPrice (stop trigger price).'')
         else ensure lmt (place_fail p ''requires lmtPrice.''))
      else if ty = ''TRAIL'' \<or> ty = ''TRAIL LIMIT'' then
        (if aux \<and> pct then Inl (place_fail p (exactly_one_msg ''auxPrice and trailingPercent''))
         else if \<not> aux \<and> \<not> pct then Inl (place_fail p ''requires auxPrice (trailing offset) or trailingPercent.'')
         else ensure (ty = ''TRAIL LIMIT'' \<longrightarrow> lmt) (place_fail p ''requires lmtPrice.''))
      else Inr ())"

definition validatePlaceOrderParams :: "stage_place_params \<Rightarrow> js_error + unit" where
  "validatePlaceOrderParams p = bindE (quantity_rules p) (\<lambda>_. price_rules p)"

fun sub_kind_str :: "sub_kind \<Rightarrow> string" where
  "sub_kind_str SubSpot = ''spot''"
| "sub_kind_str SubDerivatives = ''derivatives''"
| "sub_kind_str SubUnified = ''unified''"

definition ensureSubAccounts ::
  "'w uta_config \<Rightarrow> uta_side \<times> 'w \<Rightarrow> (js_error + sub_account_ref list) \<times> uta_side \<times> 'w"
where
  "ensureSubAccounts cfg sw =
     (case us_subAccounts (fst sw) of
        Some subs \<Rightarrow> (Inr subs, sw)
      | None \<Rightarrow>
          (let single = [\<lparr>sa_id = ''default'', sa_label = uc_label cfg, sa_kind = SubUnified\<rparr>] in
           case ib_listSubAccounts (uc_broker cfg) of
             None \<Rightarrow> (Inr single, (fst sw)\<lparr>us_subAccounts := Some single\<rparr>, snd sw)
           | Some f \<Rightarrow>
               (case f (snd sw) of
                  (Inl e, w1) \<Rightarrow> (Inl e, fst sw, w1)
                | (Inr l, w1) \<Rightarrow> (let subs = (if l = [] then single else l) in
                    (Inr subs, (fst sw)\<lparr>us_subAccounts := Some subs\<rparr>, w1)))))"

definition resolveWriteSubAccount ::
  "'w uta_config \<Rightarrow> uta_side \<Rightarrow> contract \<Rightarrow> string option \<Rightarrow> js_error + string option"
where
  "resolveWriteSubAccount cfg sd c requested =
     (let subs = (case us_subAccounts sd of None \<Rightarrow> [] | Some l \<Rightarrow> l) in
      if length subs \<le> 1 then Inr None
      else
        let valid = join '', '' (map sa_id subs);
            expected = (case ib_subAccountForContract (uc_broker cfg) of None \<Rightarrow> None | Some f \<Rightarrow> f c);
            instr = or_str (c_secType c) ''this instrument'' in
        if \<not> truthy requested then Inl (BrokerError CONFIG (acct cfg @ '' has multiple sub-accounts ('' @
            join '', '' (map (\<lambda>x. sa_id x @ '' ['' @ sub_kind_str (sa_kind x) @ '']'') subs) @
            ''). Re-issue this write with subAccountId'' @
            (if truthy expected then ''='' @ q_str (the expected) @ '' (where '' @ instr @ '' trades).''
             else '' set to one of: '' @ valid @ ''.'')))
        else if the requested \<notin> set (map sa_id subs) then Inl (BrokerError CONFIG (acct cfg @
            '': unknown sub-account '' @ q_str (the requested) @ ''. Valid sub-accounts: '' @ valid @ ''.''))
        else if truthy expected \<and> expected \<noteq> requested then Inl (BrokerError CONFIG (acct cfg @ '': '' @ instr @
            '' trades in sub-account '' @ q_str (the expected) @ '', not '' @ q_str (the requested) @
            ''. Re-issue with subAccountId='' @ q_str (the expected) @ ''.''))
        else Inr requested)"

text \<open>\<open>if (x != null) field = new Decimal(String(x))\<close>.\<close>

definition opt_dec :: "decimal_js \<Rightarrow> string option \<Rightarrow> jdec option \<Rightarrow> js_error + jdec option" where
  "opt_dec D x old = (case x of None \<Rightarrow> Inr old | Some s \<Rightarrow> bindE (new_dec D s) (\<lambda>d. Inr (Some (DVal d))))"

text \<open>\<open>parseInt(s, 10) || 0\<close>: the leading digits.\<close>

definition skip_space :: "string \<Rightarrow> string" where
  "skip_space s = dropWhile (\<lambda>c. c = CHR '' '' \<or> c = CHR 0x09 \<or> c = CHR 0x0A \<or> c = CHR 0x0D) s"

definition digits_int :: "string \<Rightarrow> int" where
  "digits_int s = foldl (\<lambda>n c. 10 * n + (of_char c - 48)) 0
     (takeWhile (\<lambda>c. 48 \<le> (of_char c :: nat) \<and> (of_char c :: nat) \<le> 57) s)"

definition parseInt_or_0 :: "string \<Rightarrow> int" where
  "parseInt_or_0 s = (case skip_space s of
     [] \<Rightarrow> 0
   | c # t \<Rightarrow> if c = CHR ''-'' then - digits_int t else if c = CHR ''+'' then digits_int t else digits_int (c # t))"

definition order_from_params :: "decimal_js \<Rightarrow> stage_place_params \<Rightarrow> js_error + order" where
  "order_from_params D p =
     (let u = Some (DVal UNSET_DECIMAL) in
     bindE (opt_dec D (sp_totalQuantity p) u) (\<lambda>tq.
     bindE (opt_dec D (sp_cashQty p) u) (\<lambda>cq.
     bindE (opt_dec D (sp_lmtPrice p) u) (\<lambda>lp.
     bindE (opt_dec D (sp_auxPrice p) u) (\<lambda>ap.
     bindE (opt_dec D (sp_trailStopPrice p) u) (\<lambda>ts.
     bindE (opt_dec D (sp_trailingPercent p) u) (\<lambda>tp.
     Inr (new_order
       \<lparr>o_action := Some (sp_action p), o_orderType := Some (sp_orderType p),
        o_tif := Some (case sp_tif p of Some t \<Rightarrow> t | None \<Rightarrow> ''DAY''),
        o_totalQuantity := tq, o_cashQty := cq, o_lmtPrice := lp, o_auxPrice := ap,
        o_trailStopPrice := ts, o_trailingPercent := tp,
        o_goodTillDate := (case sp_goodTillDate p of None \<Rightarrow> Some [] | Some d \<Rightarrow> Some d),
        o_outsideRth := Some (sp_outsideRth p),
        o_parentId := (case sp_parentId p of None \<Rightarrow> Some 0 | Some s \<Rightarrow> Some (parseInt_or_0 s)),
        o_ocaGroup := (case sp_ocaGroup p of None \<Rightarrow> Some [] | Some x \<Rightarrow> Some x)\<rparr>))))))))"

definition tpsl_from_params :: "stage_place_params \<Rightarrow> tpsl option" where
  "tpsl_from_params p = (if sp_takeProfit p = None \<and> sp_stopLoss p = None then None
     else Some \<lparr>ts_takeProfit = sp_takeProfit p, ts_stopLoss = sp_stopLoss p\<rparr>)"

definition with_symbol :: "string option \<Rightarrow> contract \<Rightarrow> contract" where
  "with_symbol s c = (if truthy s then c\<lparr>c_symbol := the s\<rparr> else c)"

definition push_sub_id :: "string option \<Rightarrow> uta \<Rightarrow> uta" where
  "push_sub_id s u = (if truthy s
     then u\<lparr>u_side := (u_side u)\<lparr>us_stagedSubAccountIds := us_stagedSubAccountIds (u_side u) @ [the s]\<rparr>\<rparr> else u)"

definition git_add :: "operation \<Rightarrow> uta \<Rightarrow> (js_error + add_result) \<times> uta" where
  "git_add op u = (case tg_add op (u_git u) of (r, g) \<Rightarrow> (r, u\<lparr>u_git := g\<rparr>))"

text \<open>The contract and the wallet of a write, before the order is built.\<close>

definition staged_target ::
  "'w uta_config \<Rightarrow> string \<Rightarrow> string option \<Rightarrow> string option \<Rightarrow> uta \<Rightarrow> js_error + contract \<times> string option"
where
  "staged_target cfg aliceId symbol requested u =
     bindE (contractFromAliceId cfg aliceId) (\<lambda>c0. let c = with_symbol symbol c0 in
     bindE (resolveWriteSubAccount cfg (u_side u) c requested) (\<lambda>sub. Inr (c, sub)))"

definition stagePlaceOrder :: "'w uta_config \<Rightarrow> stage_place_params \<Rightarrow> uta \<Rightarrow> (js_error + add_result) \<times> uta" where
  "stagePlaceOrder cfg p u =
     (case bindE (assertCanCreateProposal cfg) (\<lambda>_. bindE (validatePlaceOrderParams p) (\<lambda>_.
             staged_target cfg (sp_aliceId p) (sp_symbol p) (sp_subAccountId p) u)) of
        Inl e \<Rightarrow> (Inl e, u)
      | Inr (c, sub) \<Rightarrow>
          (let u1 = push_sub_id sub u in
           case order_from_params (uc_decimal cfg) p of
             Inl e \<Rightarrow> (Inl e, u1)
           | Inr od \<Rightarrow> git_add (PlaceOrder c od (tpsl_from_params p)) u1))"

definition changes_from_params :: "decimal_js \<Rightarrow> stage_modify_params \<Rightarrow> js_error + order" where
  "changes_from_params D p =
     bindE (opt_dec D (sm_totalQuantity p) None) (\<lambda>tq.
     bindE (opt_dec D (sm_lmtPrice p) None) (\<lambda>lp.
     bindE (opt_dec D (sm_auxPrice p) None) (\<lambda>ap.
     bindE (opt_dec D (sm_trailStopPrice p) None) (\<lambda>ts.
     bindE (opt_dec D (sm_trailingPercent p) None) (\<lambda>tp.
     Inr (empty_changes
       \<lparr>o_totalQuantity := tq, o_lmtPrice := lp, o_auxPrice := ap, o_trailStopPrice := ts,
        o_trailingPercent := tp, o_orderType := sm_orderType p, o_tif := sm_tif p,
        o_goodTillDate := sm_goodTillDate p\<rparr>))))))"

definition stageModifyOrder :: "'w uta_config \<Rightarrow> stage_modify_params \<Rightarrow> uta \<Rightarrow> (js_error + add_result) \<times> uta" where
  "stageModifyOrder cfg p u =
     (case bindE (assertCanCreateProposal cfg) (\<lambda>_. changes_from_params (uc_decimal cfg) p) of
        Inl e \<Rightarrow> (Inl e, u)
      | Inr ch \<Rightarrow> git_add (ModifyOrder (sm_orderId p) ch) u)"

definition close_quantity :: "decimal_js \<Rightarrow> string option \<Rightarrow> js_error + jdec option" where
  "close_quantity D q =
     (case q of None \<Rightarrow> Inr None
      | Some s \<Rightarrow>
          (case dj_parse D s of
             None \<Rightarrow> Inl close_qty_error
           | Some d \<Rightarrow> if \<not> d_isFinite d \<or> d_lte d (Fin 0) then Inl close_qty_error else Inr (Some (DVal d))))"

definition stageClosePosition :: "'w uta_config \<Rightarrow> stage_close_params \<Rightarrow> uta \<Rightarrow> (js_error + add_result) \<times> uta" where
  "stageClosePosition cfg p u =
     (case bindE (assertCanCreateProposal cfg) (\<lambda>_.
           bindE (contractFromAliceId cfg (sc_aliceId p)) (\<lambda>c0. let c = with_symbol (sc_symbol p) c0 in
           bindE (close_quantity (uc_decimal cfg) (sc_qty p)) (\<lambda>q.
           bindE (resolveWriteSubAccount cfg (u_side u) c (sc_subAccountId p)) (\<lambda>sub. Inr (c, q, sub))))) of
        Inl e \<Rightarrow> (Inl e, u)
      | Inr (c, q, sub) \<Rightarrow> git_add (ClosePosition c q) (push_sub_id sub u))"

definition stageCancelOrder :: "'w uta_config \<Rightarrow> string \<Rightarrow> uta \<Rightarrow> (js_error + add_result) \<times> uta" where
  "stageCancelOrder cfg i u =
     (case assertCanCreateProposal cfg of Inl e \<Rightarrow> (Inl e, u) | Inr _ \<Rightarrow> git_add (CancelOrder i None) u)"

section \<open>Commit, push, reject\<close>

definition stampSubAccount :: "uta \<Rightarrow> string \<Rightarrow> string" where
  "stampSubAccount u message = (let ids = uniq (us_stagedSubAccountIds (u_side u)) in
     if ids \<noteq> [] then message @ '' [sub:'' @ join '','' ids @ '']'' else message)"

definition clear_sub_ids :: "uta \<Rightarrow> uta" where
  "clear_sub_ids u = u\<lparr>u_side := (u_side u)\<lparr>us_stagedSubAccountIds := []\<rparr>\<rparr>"

definition uta_commit :: "'w uta_config \<Rightarrow> string \<Rightarrow> uta \<Rightarrow> 'w \<Rightarrow> (js_error + commit_prepare_result) \<times> uta" where
  "uta_commit cfg message u w =
     (case tg_commit (uc_hash cfg) (uc_iso cfg w) (stampSubAccount u message) (u_git u) of
        (Inl e, g) \<Rightarrow> (Inl e, u\<lparr>u_git := g\<rparr>)
      | (Inr r, g) \<Rightarrow> (Inr r, clear_sub_ids (u\<lparr>u_git := g\<rparr>)))"

text \<open>The gate of an automated push; it raises the flag last.\<close>

definition automated_gate :: "'w uta_config \<Rightarrow> uta_side \<times> 'w \<Rightarrow> (js_error + unit) \<times> uta_side \<times> 'w" where
  "automated_gate cfg sw =
     (if us_risk (fst sw) = None then (Inl (PlainError ''Automatic trading is not enabled for this account.''), sw)
      else if \<not> uc_paper cfg then (Inl (PlainError ''Automatic trading is restricted to paper/demo accounts.''), sw)
      else
        (case (case uc_emergencyStopped cfg of None \<Rightarrow> (Inr False, snd sw) | Some f \<Rightarrow> f (snd sw)) of
           (Inl e, w1) \<Rightarrow> (Inl e, fst sw, w1)
         | (Inr stopped, w1) \<Rightarrow>
             (if stopped then (Inl (PlainError ''Automatic trading is stopped by the global emergency stop.''), fst sw, w1)
              else (Inr (), (fst sw)\<lparr>us_automatedPushActive := True\<rparr>, w1))))"

definition push_gate :: "'w uta_config \<Rightarrow> uta_side \<Rightarrow> js_error + unit" where
  "push_gate cfg sd =
     bindE (assertCanMutateAccount cfg ''push'') (\<lambda>_.
     if hs_disabled (us_health sd) then Inl (BrokerError CONFIG (acct cfg @ '' is disabled due to configuration error.''))
     else if health_of (health_cfg cfg) (us_health sd) = Offline
       then Inl (PlainError (acct cfg @ '' is offline. Cannot execute trades.''))
     else Inr ())"

definition rejection_summary :: "op_result list \<Rightarrow> string" where
  "rejection_summary rs = join ''; '' (map (\<lambda>r. case r_error r of Some e \<Rightarrow> e | None \<Rightarrow> action_str (r_action r)) rs)"

text \<open>What follows a push that returned: failures of an automated push go to the envelope.\<close>

definition note_rejections ::
  "'w uta_config \<Rightarrow> bool \<Rightarrow> push_result \<Rightarrow> uta_side \<times> 'w \<Rightarrow> (js_error + push_result) \<times> uta_side \<times> 'w"
where
  "note_rejections cfg automated res sw =
     (case (automated \<and> pu_rejected res \<noteq> [], us_risk (fst sw), uc_policy cfg) of
        (True, Some st, Some policy) \<Rightarrow>
          (case recordFailure (risk_env_of cfg) policy (rejection_summary (pu_rejected res)) st (snd sw) of
             (r, st1, w1) \<Rightarrow> (bindE r (\<lambda>_. Inr res), (fst sw)\<lparr>us_risk := Some st1\<rparr>, w1))
      | _ \<Rightarrow> (Inr res, sw))"

definition uta_push ::
  "'w uta_config \<Rightarrow> string \<Rightarrow> bool \<Rightarrow> uta \<Rightarrow> 'w \<Rightarrow> (js_error + push_result) \<times> uta \<times> 'w"
where
  "uta_push cfg expected automated u w =
     (case (if automated then automated_gate cfg (u_side u, w) else (Inr (), u_side u, w)) of
        (Inl e, sd1, w1) \<Rightarrow> (Inl e, u\<lparr>u_side := sd1\<rparr>, w1)
      | (Inr _, sd1, w1) \<Rightarrow>
          (case push_gate cfg sd1 of
             Inl e \<Rightarrow> (Inl e, u\<lparr>u_side := sd1\<rparr>, w1)
           | Inr _ \<Rightarrow>
               (case tg_push (git_cfg cfg) expected (u_git u) (sd1, w1) of
                  (r, g, sd2, w2) \<Rightarrow>
                    (let sd3 = sd2\<lparr>us_automatedPushActive := False\<rparr> in
                     case r of
                       Inl e \<Rightarrow> (Inl e, \<lparr>u_git = g, u_side = sd3\<rparr>, w2)
                     | Inr res \<Rightarrow>
                         (case note_rejections cfg automated res (sd3, w2) of
                            (r1, sd4, w3) \<Rightarrow> (r1, \<lparr>u_git = g, u_side = sd4\<rparr>, w3))))))"

definition uta_reject ::
  "'w uta_config \<Rightarrow> string option \<Rightarrow> string \<Rightarrow> uta \<Rightarrow> 'w \<Rightarrow> (js_error + reject_result) \<times> uta \<times> 'w"
where
  "uta_reject cfg reason expected u w =
     (case tg_reject (git_cfg cfg) reason expected (u_git u) (u_side u, w) of
        (Inl e, g, sd, w1) \<Rightarrow> (Inl e, \<lparr>u_git = g, u_side = sd\<rparr>, w1)
      | (Inr r, g, sd, w1) \<Rightarrow> (Inr r, clear_sub_ids \<lparr>u_git = g, u_side = sd\<rparr>, w1))"

definition resetAutomationRiskPause :: "'w uta_config \<Rightarrow> uta \<Rightarrow> 'w \<Rightarrow> (js_error + unit) \<times> uta \<times> 'w" where
  "resetAutomationRiskPause cfg u w =
     (case us_risk (u_side u) of
        None \<Rightarrow> (Inl (PlainError ''Automatic trading is not configured for this account.''), u, w)
      | Some st \<Rightarrow> (case resetPause (risk_env_of cfg) st w of
          (r, st1, w1) \<Rightarrow> (r, u\<lparr>u_side := (u_side u)\<lparr>us_risk := Some st1\<rparr>\<rparr>, w1)))"

section \<open>One-shot orders\<close>

datatype order_phase = PhaseStage | PhaseCommit | PhasePush

definition executeOneShotOrder ::
  "'w uta_config \<Rightarrow> string \<Rightarrow> (uta \<Rightarrow> (js_error + unit) \<times> uta) \<Rightarrow> uta \<Rightarrow> 'w
    \<Rightarrow> ((order_phase \<times> string) + push_result) \<times> uta \<times> 'w"
where
  "executeOneShotOrder cfg message stage u w =
     (case stage u of
        (Inl e, u1) \<Rightarrow> (Inl (PhaseStage, err_message e), u1, w)
      | (Inr _, u1) \<Rightarrow>
          (case uta_commit cfg message u1 w of
             (Inl e, u2) \<Rightarrow> (Inl (PhaseCommit, err_message e), u2, w)
           | (Inr prepared, u2) \<Rightarrow>
               (case uta_push cfg (cp_hash prepared) False u2 w of
                  (Inl e, u3, w1) \<Rightarrow> (Inl (PhasePush, err_message e), u3, w1)
                | (Inr res, u3, w1) \<Rightarrow> (Inr res, u3, w1))))"

section \<open>What the gates promise\<close>

lemma parse_stamp:
  assumes "CHR ''|'' \<notin> set i"
  shows "parseAliceId (i @ ''|'' @ nk) = Some (i, nk)"
proof -
  have "takeWhile (\<lambda>c. c \<noteq> CHR ''|'') (i @ CHR ''|'' # nk) = i \<and>
      dropWhile (\<lambda>c. c \<noteq> CHR ''|'') (i @ CHR ''|'' # nk) = CHR ''|'' # nk"
    using assms by (induction i) auto
  then show ?thesis by (simp add: parseAliceId_def)
qed

definition may_push :: "'w uta_config \<Rightarrow> bool \<Rightarrow> uta_side \<Rightarrow> bool" where
  "may_push cfg automated sd \<longleftrightarrow> \<not> uc_readOnly cfg \<and> \<not> hs_disabled (us_health sd) \<and>
     health_of (health_cfg cfg) (us_health sd) \<noteq> Offline \<and>
     (automated \<longrightarrow> us_risk sd \<noteq> None \<and> uc_paper cfg)"

lemma automated_gate_ok:
  assumes "automated_gate cfg (sd, w) = (r, sd1, w1)"
  shows "us_health sd1 = us_health sd \<and> us_risk sd1 = us_risk sd \<and>
    (r = Inr () \<longrightarrow> us_risk sd \<noteq> None \<and> uc_paper cfg \<and> us_automatedPushActive sd1 \<and>
       (case uc_emergencyStopped cfg of None \<Rightarrow> w1 = w | Some f \<Rightarrow> f w = (Inr False, w1)))"
  using assms by (auto simp: automated_gate_def split: if_splits sum.splits option.splits prod.splits)

lemma push_gate_ok: "push_gate cfg sd = Inr () \<longleftrightarrow> \<not> uc_readOnly cfg \<and> \<not> hs_disabled (us_health sd) \<and>
     health_of (health_cfg cfg) (us_health sd) \<noteq> Offline"
  by (auto simp: push_gate_def assertCanMutateAccount_def bindE_eq_Inr)

lemma uta_push_refused:
  assumes "uta_push cfg h automated u w = (r, u', w')"
    and "\<not> (may_push cfg automated (u_side u) \<and> push_ready h (u_git u))"
  shows "\<exists>e. r = Inl e \<and> u_git u' = u_git u \<and>
    (w' = w \<or> automated \<and> (\<exists>f x. uc_emergencyStopped cfg = Some f \<and> f w = (x, w')))"
proof -
  obtain g0 sd1 w1 where g0: "(if automated then automated_gate cfg (u_side u, w) else (Inr (), u_side u, w)) = (g0, sd1, w1)"
    by (metis prod.exhaust)
  have w1: "w1 = w \<or> automated \<and> (\<exists>f x. uc_emergencyStopped cfg = Some f \<and> f w = (x, w1))"
    using g0 by (auto simp: automated_gate_def split: if_splits sum.splits option.splits prod.splits)
  show ?thesis
  proof (cases g0)
    case (Inl e)
    then show ?thesis using assms(1) g0 w1 by (auto simp: uta_push_def)
  next
    case (Inr x)
    have gate: "us_health sd1 = us_health (u_side u)" "automated \<longrightarrow> us_risk (u_side u) \<noteq> None \<and> uc_paper cfg"
      using g0 Inr automated_gate_ok [of cfg "u_side u" w g0 sd1 w1] by (auto split: if_splits)
    show ?thesis
    proof (cases "push_gate cfg sd1")
      case i: (Inl e)
      then show ?thesis using assms(1) g0 w1 Inr by (auto simp: uta_push_def)
    next
      case i: (Inr y)
      have "may_push cfg automated (u_side u)" using i gate push_gate_ok [of cfg sd1] by (auto simp: may_push_def)
      then have "\<not> push_ready h (u_git u)" using assms(2) by simp
      from tg_push_refused [OF this] obtain e where
        "tg_push (git_cfg cfg) h (u_git u) (sd1, w1) = (Inl e, u_git u, sd1, w1)" by metis
      then show ?thesis using assms(1) g0 w1 Inr i by (auto simp: uta_push_def Let_def)
    qed
  qed
qed

section \<open>Complete orders\<close>

text \<open>A decimal parameter that was given, as the order field holds it.\<close>

definition given :: "decimal_js \<Rightarrow> string option \<Rightarrow> jdec option \<Rightarrow> bool" where
  "given D s x \<longleftrightarrow> (\<exists>t d. s = Some t \<and> t \<noteq> [] \<and> dj_parse D t = Some d \<and> x = Some (DVal d))"

definition absent :: "jdec option \<Rightarrow> bool" where
  "absent x \<longleftrightarrow> x = Some (DVal UNSET_DECIMAL)"

definition complete_order :: "decimal_js \<Rightarrow> stage_place_params \<Rightarrow> order \<Rightarrow> bool" where
  "complete_order D p od \<longleftrightarrow> o_orderType od = Some (sp_orderType p) \<and> o_action od = Some (sp_action p) \<and>
     (given D (sp_totalQuantity p) (o_totalQuantity od) \<and> absent (o_cashQty od) \<or>
      sp_orderType p = ''MKT'' \<and> given D (sp_cashQty p) (o_cashQty od) \<and> absent (o_totalQuantity od)) \<and>
     (sp_orderType p \<in> {''LMT'', ''STP LMT'', ''TRAIL LIMIT''} \<longrightarrow> given D (sp_lmtPrice p) (o_lmtPrice od)) \<and>
     (sp_orderType p \<in> {''STP'', ''STP LMT''} \<longrightarrow> given D (sp_auxPrice p) (o_auxPrice od)) \<and>
     (sp_orderType p \<in> {''TRAIL'', ''TRAIL LIMIT''} \<longrightarrow>
        given D (sp_auxPrice p) (o_auxPrice od) \<and> absent (o_trailingPercent od) \<or>
        given D (sp_trailingPercent p) (o_trailingPercent od) \<and> absent (o_auxPrice od))"

lemma opt_dec_cases:
  assumes "opt_dec D s (Some (DVal UNSET_DECIMAL)) = Inr x" "dj_parse D [] = None"
  shows "if truthy s then given D s x else absent x"
  using assms by (cases s) (auto simp: opt_dec_def given_def absent_def bindE_eq_Inr)

lemma order_from_params_complete:
  assumes "order_from_params D p = Inr od" "validatePlaceOrderParams p = Inr ()" "dj_parse D [] = None"
  shows "complete_order D p od"
proof -
  let ?u = "Some (DVal UNSET_DECIMAL)"
  obtain tq cq lp ap ts tp where f:
    "opt_dec D (sp_totalQuantity p) ?u = Inr tq" "opt_dec D (sp_cashQty p) ?u = Inr cq"
    "opt_dec D (sp_lmtPrice p) ?u = Inr lp" "opt_dec D (sp_auxPrice p) ?u = Inr ap"
    "opt_dec D (sp_trailingPercent p) ?u = Inr tp"
    and od: "o_totalQuantity od = tq" "o_cashQty od = cq" "o_lmtPrice od = lp" "o_auxPrice od = ap"
      "o_trailingPercent od = tp" "o_orderType od = Some (sp_orderType p)" "o_action od = Some (sp_action p)"
    using assms(1) by (auto simp: order_from_params_def Let_def bindE_eq_Inr)
  note c = f [THEN opt_dec_cases [OF _ assms(3)]]
  have v: "quantity_rules p = Inr ()" "price_rules p = Inr ()"
    using assms(2) by (auto simp: validatePlaceOrderParams_def bindE_eq_Inr)
  have q: "given D (sp_totalQuantity p) tq \<and> absent cq \<or>
      sp_orderType p = ''MKT'' \<and> given D (sp_cashQty p) cq \<and> absent tq"
    using v(1) c(1,2) by (auto simp: quantity_rules_def Let_def split: if_splits)
  have l: "sp_orderType p \<in> {''LMT'', ''STP LMT'', ''TRAIL LIMIT''} \<longrightarrow> given D (sp_lmtPrice p) lp"
    using v(2) c(3) by (auto simp: price_rules_def Let_def split: if_splits)
  have a: "sp_orderType p \<in> {''STP'', ''STP LMT''} \<longrightarrow> given D (sp_auxPrice p) ap"
    using v(2) c(4) by (auto simp: price_rules_def Let_def split: if_splits)
  have t: "sp_orderType p \<in> {''TRAIL'', ''TRAIL LIMIT''} \<longrightarrow>
        given D (sp_auxPrice p) ap \<and> absent tp \<or> given D (sp_trailingPercent p) tp \<and> absent ap"
    using v(2) c(4,5) by (auto simp: price_rules_def Let_def split: if_splits)
  from q l a t od show ?thesis by (simp add: complete_order_def)
qed

lemma tg_add_ok: "tg_add op g = (Inr r, g') \<Longrightarrow>
    ar_operation r = op \<and> g_stagingArea g' = g_stagingArea g @ [op] \<and> g_commits g' = g_commits g \<and>
    \<not> g_inflightWrite g \<and> g_pendingHash g = None \<and> g_head g' = g_head g"
  by (auto simp: tg_add_def Let_def split: if_splits)

lemma push_sub_id_git [simp]: "u_git (push_sub_id s u) = u_git u"
  by (simp add: push_sub_id_def)

lemma stagePlaceOrder_ok:
  assumes "stagePlaceOrder cfg p u = (Inr r, u')"
  obtains c od where "validatePlaceOrderParams p = Inr ()" "\<not> uc_keyless cfg"
    "order_from_params (uc_decimal cfg) p = Inr od"
    "tg_add (PlaceOrder c od (tpsl_from_params p)) (u_git u) = (Inr r, u_git u')"
  using assms
  by (auto simp: stagePlaceOrder_def git_add_def Let_def bindE_eq_Inr assertCanCreateProposal_def
      split: sum.splits prod.splits)

section \<open>Properties\<close>

text \<open>C21: a push hands work to the ledger only on an account that is writable, not disabled and not
  offline, with the right hash and, when automated, with a configured envelope on a paper account;
  in every other case it throws, the ledger stays as it is, and beyond the question to the emergency
  stop nothing outside is touched.\<close>

theorem push_needs_gates:
  assumes "uta_push cfg h automated u w = (r, u', w')"
  shows "may_push cfg automated (u_side u) \<and> push_ready h (u_git u) \<or>
    (\<exists>e. r = Inl e) \<and> u_git u' = u_git u \<and>
      (w' = w \<or> automated \<and> (\<exists>f x. uc_emergencyStopped cfg = Some f \<and> f w = (x, w')))"
proof (cases "may_push cfg automated (u_side u) \<and> push_ready h (u_git u)")
  case False
  from uta_push_refused [OF assms False] show ?thesis by (elim exE) simp
qed simp

text \<open>What \<open>stagePlaceOrder\<close> accepts is a complete order: exactly one of quantity and cash amount
  (cash only at market), and every price its type needs, each the decimal the caller wrote, on top
  of what was staged before; nothing is staged on a keyless account or while a commit is pending.\<close>

theorem staged_order_complete:
  assumes "dj_parse (uc_decimal cfg) [] = None" and "stagePlaceOrder cfg p u = (Inr r, u')"
  shows "\<exists>c od t. ar_operation r = PlaceOrder c od t \<and> complete_order (uc_decimal cfg) p od \<and>
    g_stagingArea (u_git u') = g_stagingArea (u_git u) @ [PlaceOrder c od t] \<and>
    g_commits (u_git u') = g_commits (u_git u) \<and> \<not> uc_keyless cfg \<and> g_pendingHash (u_git u) = None"
  using stagePlaceOrder_ok [OF assms(2)] order_from_params_complete [OF _ _ assms(1)] tg_add_ok by metis

text \<open>An automated push that is refused because the account is read-only, disabled or offline
  leaves the automation flag up: until some later push ends, the envelope is applied to operations
  pushed by hand, and a manual order that is not a limit order is refused by it.\<close>

theorem automated_flag_survives:
  assumes "us_risk (u_side u) = Some st" "uc_policy cfg = Some policy" "uc_paper cfg"
    and "uc_emergencyStopped cfg = None" and "\<not> may_push cfg True (u_side u)"
    and "uta_push cfg h True u w = (r, u', w')" and "map_option to_upper (o_orderType od) \<noteq> Some ''LMT''"
  shows "us_automatedPushActive (u_side u') \<and> (\<exists>e. fst (dispatcher cfg (PlaceOrder c od t) (u_side u', w2)) = Inl e)"
proof -
  let ?sd = "(u_side u)\<lparr>us_automatedPushActive := True\<rparr>"
  have g: "automated_gate cfg (u_side u, w) = (Inr (), ?sd, w)" using assms(1,3,4) by (simp add: automated_gate_def)
  have "push_gate cfg ?sd \<noteq> Inr ()" using assms(1,3,5) push_gate_ok [of cfg ?sd] by (auto simp: may_push_def)
  then obtain e where "push_gate cfg ?sd = Inl e" by (cases "push_gate cfg ?sd") auto
  then have u': "u_side u' = ?sd" using assms(6) g by (auto simp: uta_push_def)
  obtain r2 st2 w3 where c: "risk_check (uc_decimal cfg) (risk_env_of cfg) policy (PlaceOrder c od t) st w2 = (r2, st2, w3)"
    by (metis prod.exhaust)
  have "r2 \<noteq> Inr ()" using c
  proof (cases rule: risk_check_cases)
    case (slot st0 w0 c' od' t' acc ps q w2' st2')
    then show ?thesis using assms(7) by (auto simp: admission_def split: if_splits option.splits)
  qed auto
  then obtain e2 where "r2 = Inl e2" by (cases r2) auto
  then have "fst (automation_check cfg (PlaceOrder c od t) (?sd, w2)) = Inl e2"
    using assms(1,2) c by (simp add: automation_check_def)
  then have "\<exists>e. fst (dispatcher cfg (PlaceOrder c od t) (?sd, w2)) = Inl e"
    by (auto simp: dispatcher_def split: sum.splits prod.splits)
  with u' show ?thesis by simp
qed

text \<open>The \<open>stage\<close> callback of the manual order form.\<close>

definition one_shot_place :: "'w uta_config \<Rightarrow> stage_place_params \<Rightarrow> uta \<Rightarrow> (js_error + unit) \<times> uta" where
  "one_shot_place cfg p u = (case stagePlaceOrder cfg p u of (r, u1) \<Rightarrow> (bindE r (\<lambda>_. Inr ()), u1))"

text \<open>A one-shot order pushes everything that was staged before it as well: operations that were
  proposed but never committed or approved go to the broker with it, in the same commit.\<close>

theorem one_shot_pushes_all_staged:
  assumes "executeOneShotOrder cfg message (one_shot_place cfg p) u w = (Inr res, u', w')"
  shows "\<exists>c od t. map gc_operations (g_commits (u_git u')) =
      map gc_operations (g_commits (u_git u)) @ [g_stagingArea (u_git u) @ [PlaceOrder c od t]] \<and>
    pu_operationCount res = Suc (length (g_stagingArea (u_git u)))"
proof -
  obtain r1 u1 where st: "stagePlaceOrder cfg p u = (Inr r1, u1)"
    using assms by (auto simp: executeOneShotOrder_def one_shot_place_def bindE_def split: sum.splits prod.splits)
  from stagePlaceOrder_ok [OF st] obtain c od where
    a: "tg_add (PlaceOrder c od (tpsl_from_params p)) (u_git u) = (Inr r1, u_git u1)" by metis
  note add = tg_add_ok [OF a]
  obtain pr u2 where c: "uta_commit cfg message u1 w = (Inr pr, u2)"
    and pu: "\<exists>u3. uta_push cfg (cp_hash pr) False u2 w = (Inr res, u3, w') \<and> u' = u3"
    using assms st by (auto simp: executeOneShotOrder_def one_shot_place_def split: sum.splits prod.splits)
  have g2: "g_stagingArea (u_git u2) = g_stagingArea (u_git u1)" "g_commits (u_git u2) = g_commits (u_git u1)"
    using c by (auto simp: uta_commit_def tg_commit_def clear_sub_ids_def Let_def split: if_splits)
  from pu have p: "uta_push cfg (cp_hash pr) False u2 w = (Inr res, u', w')" by blast
  obtain res0 sd2 w2 where t: "tg_push (git_cfg cfg) (cp_hash pr) (u_git u2) (u_side u2, w) = (Inr res0, u_git u', sd2, w2)"
    and r: "res = res0"
    using p by (auto simp: uta_push_def note_rejections_def Let_def split: sum.splits prod.splits)
  have ready: "push_ready (cp_hash pr) (u_git u2)"
    using t tg_push_refused by (metis Inl_Inr_False prod.inject)
  obtain rs x where e: "exec_ops (git_cfg cfg) (g_stagingArea (u_git u2)) (u_side u2, w) = (rs, x)" by (metis prod.exhaust)
  have "map gc_operations (g_commits (u_git u')) = map gc_operations (g_commits (u_git u2)) @ [g_stagingArea (u_git u2)] \<and>
      pu_operationCount res0 = length (g_stagingArea (u_git u2))"
    using ready t e by (cases rule: tg_push_ready) (simp_all add: push_ready_hash [OF ready])
  with add g2 r show ?thesis by auto
qed

section \<open>Witnesses\<close>

text \<open>A broker on a counter: every call of it that changes the account counts one up.\<close>

definition demo_reply :: raw where
  "demo_reply = RawObj \<lparr>ro_success = True, ro_error = None, ro_orderId = Some ''1'',
     ro_orderState = Some ''Submitted'', ro_legs = None\<rparr>"

definition demo_broker :: "int uta_broker" where
  "demo_broker =
     \<lparr>ib_placeOrder = (\<lambda>c od t w. (Inr demo_reply, w + 1)), ib_modifyOrder = (\<lambda>i od w. (Inr demo_reply, w + 1)),
      ib_cancelOrder = (\<lambda>i oc w. (Inr demo_reply, w + 1)), ib_closePosition = (\<lambda>c q w. (Inr demo_reply, w + 1)),
      ib_getAccount = (\<lambda>s w. (Inr empty_account, w)), ib_getPositions = (\<lambda>s w. (Inr [], w)),
      ib_getOrders = (\<lambda>ids w. (Inr [], w)), ib_getOrder = (\<lambda>i s w. (Inr None, w)), ib_getOpenOrders = None,
      ib_getQuote = (\<lambda>c w. (Inr (demo_quote w), w)), ib_getNativeKey = c_symbol,
      ib_resolveNativeKey = (\<lambda>k. Inr (new_contract\<lparr>c_symbol := k\<rparr>)),
      ib_listSubAccounts = None, ib_subAccountForContract = None\<rparr>"

definition demo_account :: "bool \<Rightarrow> int uta_config" where
  "demo_account ro =
     \<lparr>uc_id = ''acc'', uc_label = ''A'', uc_keyless = False, uc_readOnly = ro, uc_broker = demo_broker,
      uc_policy = Some demo_policy, uc_paper = True, uc_emergencyStopped = None,
      uc_readRisk = (\<lambda>w. (Inl TypeError, w)), uc_writeRisk = (\<lambda>st w. (Inr (), w)), uc_onCommit = None,
      uc_now = (\<lambda>w. w), uc_iso = (\<lambda>w. ''t''), uc_hash = (\<lambda>x. ''h''), uc_decimal = exact_decimal\<rparr>"

definition demo_side :: uta_side where
  "demo_side = \<lparr>us_health = (new_health funded)\<lparr>hs_connecting := False\<rparr>, us_risk = Some (new_risk_state 0),
     us_guards = [], us_automatedPushActive = False, us_subAccounts = None, us_stagedSubAccountIds = [],
     us_pollState = []\<rparr>"

definition demo_params :: stage_place_params where
  "demo_params = \<lparr>sp_aliceId = ''acc|AAPL'', sp_symbol = None, sp_subAccountId = None, sp_action = ''BUY'',
     sp_orderType = ''MKT'', sp_totalQuantity = Some ''5'', sp_cashQty = None, sp_lmtPrice = None,
     sp_auxPrice = None, sp_trailStopPrice = None, sp_trailingPercent = None, sp_tif = None,
     sp_goodTillDate = None, sp_outsideRth = False, sp_parentId = None, sp_ocaGroup = None,
     sp_takeProfit = None, sp_stopLoss = None\<rparr>"

definition demo_uta :: uta where
  "demo_uta = \<lparr>u_git = new_git\<lparr>g_stagingArea := [CancelOrder ''9'' None]\<rparr>, u_side = demo_side\<rparr>"

lemma demo_read_only: "\<not> may_push (demo_account True) automated sd"
  by (simp add: may_push_def demo_account_def)

lemma push_needs_gates_witness:
  "u_git (fst (snd (uta_push (demo_account True) ''h'' False demo_uta 0))) = u_git demo_uta"
proof -
  obtain r u' w' where p: "uta_push (demo_account True) ''h'' False demo_uta 0 = (r, u', w')" by (metis prod.exhaust)
  from push_needs_gates [OF p] p demo_read_only show ?thesis by auto
qed

lemma staged_order_complete_witness:
  "\<exists>r u' c od t. stagePlaceOrder (demo_account False) demo_params demo_uta = (Inr r, u') \<and>
     ar_operation r = PlaceOrder c od t \<and> complete_order exact_decimal demo_params od"
proof -
  have "case fst (stagePlaceOrder (demo_account False) demo_params demo_uta) of Inr _ \<Rightarrow> True | Inl _ \<Rightarrow> False"
    by code_simp
  then obtain r u' where s: "stagePlaceOrder (demo_account False) demo_params demo_uta = (Inr r, u')"
    by (metis prod.collapse sum.case_eq_if isl_def sum.collapse(2))
  have d: "uc_decimal (demo_account False) = exact_decimal" by (simp add: demo_account_def)
  have "dj_parse (uc_decimal (demo_account False)) [] = None" unfolding d by code_simp
  from staged_order_complete [OF this s] s d show ?thesis by auto
qed

lemma automated_flag_survives_witness:
  "us_automatedPushActive (u_side (fst (snd (uta_push (demo_account True) ''h'' True demo_uta 0))))"
proof -
  obtain r u' w' where p: "uta_push (demo_account True) ''h'' True demo_uta 0 = (r, u', w')" by (metis prod.exhaust)
  have "us_automatedPushActive (u_side u') \<and>
      (\<exists>e. fst (dispatcher (demo_account True) (PlaceOrder new_contract new_order None) (u_side u', 0)) = Inl e)"
    by (rule automated_flag_survives [OF _ _ _ _ demo_read_only p])
      (simp_all add: demo_uta_def demo_side_def demo_account_def new_order_def to_upper_def)
  then show ?thesis using p by simp
qed

lemma one_shot_pushes_all_staged_witness:
  "\<exists>res u' w' c od t. executeOneShotOrder (demo_account False) ''buy'' (one_shot_place (demo_account False) demo_params) demo_uta 0
      = (Inr res, u', w') \<and> w' = 2 \<and>
    map gc_operations (g_commits (u_git u')) = [[CancelOrder ''9'' None, PlaceOrder c od t]]"
proof -
  let ?x = "executeOneShotOrder (demo_account False) ''buy'' (one_shot_place (demo_account False) demo_params) demo_uta 0"
  have "(case fst ?x of Inr _ \<Rightarrow> True | Inl _ \<Rightarrow> False) \<and> snd (snd ?x) = 2" by code_simp
  then obtain res u' where x: "?x = (Inr res, u', 2)"
    by (metis prod.collapse sum.case_eq_if isl_def sum.collapse(2))
  from one_shot_pushes_all_staged [OF x] x show ?thesis
    by (auto simp: demo_uta_def new_git_def)
qed

end
