(* ===== verification/UTA_Reads.thy ===== *)
theory UTA_Reads
  imports UTA_Account Cost_Basis Order_History
begin

text \<open>
  \<open>UnifiedTradingAccount.ts\<close>, second part: construction, the reads that change the ledger (order
  sync, external orders, reconciliation of wallet positions) and the ones that do not.
\<close>

section \<open>Construction\<close>

definition new_uta ::
  "'w uta_config \<Rightarrow> (string \<times> guard_options option) list \<Rightarrow> string git_export option \<Rightarrow> 'w \<Rightarrow> js_error + uta"
where
  "new_uta cfg guardCfgs savedState w =
     bindE (resolveGuards builtinGuards guardCfgs) (\<lambda>gs.
     bindE (case savedState of None \<Rightarrow> Inr new_git | Some x \<Rightarrow> restore (uc_decimal cfg) x) (\<lambda>g.
     Inr \<lparr>u_git = g,
          u_side = \<lparr>us_health = new_health (health_cfg cfg),
            us_risk = (case uc_policy cfg of None \<Rightarrow> None
              | Some _ \<Rightarrow> Some (new_risk_state (risk_today (risk_env_of cfg) w))),
            us_guards = gs, us_automatedPushActive = False, us_subAccounts = None,
            us_stagedSubAccountIds = [], us_pollState = []\<rparr>\<rparr>))"

section \<open>Order sync\<close>

definition no_sync :: sync_result where
  "no_sync = \<lparr>sy_hash = [], sy_updatedCount = 0, sy_updates = []\<rparr>"

definition poll_interval :: "int \<Rightarrow> int" where
  "poll_interval age = (if age < 2 * 60000 then 0 else if age < 60 * 60000 then 60000 else 5 * 60000)"

definition pollBackoffDue ::
  "int \<Rightarrow> string \<Rightarrow> (string, int \<times> int) jsmap \<Rightarrow> bool \<times> (string, int \<times> int) jsmap"
where
  "pollBackoffDue now i m =
     (case jm_get m i of
        None \<Rightarrow> (True, jm_set i (now, now) m)
      | Some (firstSeen, lastPolled) \<Rightarrow>
          (if now - lastPolled < poll_interval (now - firstSeen) then (False, m)
           else (True, jm_set i (firstSeen, now) m)))"

text \<open>\<open>pendingOrders.filter(p => this._pollBackoffDue(p.orderId))\<close>.\<close>

fun poll_filter ::
  "int \<Rightarrow> pending_order list \<Rightarrow> (string, int \<times> int) jsmap \<Rightarrow> pending_order list \<times> (string, int \<times> int) jsmap"
where
  "poll_filter now [] m = ([], m)"
| "poll_filter now (p # ps) m =
     (case pollBackoffDue now (po_orderId p) m of
        (due, m1) \<Rightarrow> (case poll_filter now ps m1 of (qs, m2) \<Rightarrow> (if due then p # qs else qs, m2)))"

definition listed_ids :: "open_order list \<Rightarrow> string list" where
  "listed_ids listing = map the (filter truthy (map oo_orderId listing))"

definition sync_candidates ::
  "'w uta_config \<Rightarrow> pending_order list \<Rightarrow> uta_side \<times> 'w \<Rightarrow> (js_error + pending_order list) \<times> uta_side \<times> 'w"
where
  "sync_candidates cfg pending sw =
     (case ib_getOpenOrders (uc_broker cfg) of
        Some f \<Rightarrow>
          (case callBroker cfg f sw of
             (Inl e, sw1) \<Rightarrow> (Inl e, sw1)
           | (Inr listing, sw1) \<Rightarrow>
               (Inr (filter (\<lambda>p. po_orderId p \<notin> set (listed_ids listing)) pending), sw1))
      | None \<Rightarrow>
          (case poll_filter (uc_now cfg (snd sw)) pending (us_pollState (fst sw)) of
             (ps, m) \<Rightarrow> (Inr ps, (fst sw)\<lparr>us_pollState := m\<rparr>, snd sw)))"

definition terminal_status :: "string \<Rightarrow> op_status" where
  "terminal_status s = (if s = ''Filled'' then Filled else if s = ''Cancelled'' then Cancelled else Rejected)"

definition filled_qty_text :: "decimal_js \<Rightarrow> jdec option \<Rightarrow> js_error + string option" where
  "filled_qty_text D x =
     (if \<not> jd_truthy x then Inr None
      else bindE (as_dec (the x)) (\<lambda>d. Inr (if d_equals d UNSET_DECIMAL then None else Some (dj_to_fixed D d))))"

text \<open>The update of one order that the broker answered for; a working order has none.\<close>

definition order_update :: "decimal_js \<Rightarrow> pending_order \<Rightarrow> open_order \<Rightarrow> js_error + order_status_update option" where
  "order_update D p bo =
     (let st = os_status (oo_orderState bo); fees = os_commissionAndFees (oo_orderState bo) in
      if working_status st then Inr None
      else bindE (filled_qty_text D (o_filledQuantity (oo_order bo))) (\<lambda>qty.
        Inr (Some
          \<lparr>u_orderId = po_orderId p, u_symbol = po_symbol p, u_previousStatus = Submitted,
           u_currentStatus = terminal_status st, u_filledPrice = oo_avgFillPrice bo, u_filledQty = qty,
           u_fee = (if fees \<noteq> UNSET_DOUBLE then Some (dj_num_str D fees) else None),
           u_feeCurrency = (if fees \<noteq> UNSET_DOUBLE
             then or_undef (os_commissionAndFeesCurrency (oo_orderState bo)) else None)\<rparr>)))"

fun collect_updates ::
  "'w uta_config \<Rightarrow> pending_order list \<Rightarrow> uta_side \<times> 'w \<Rightarrow> (js_error + order_status_update list) \<times> uta_side \<times> 'w"
where
  "collect_updates cfg [] sw = (Inr [], sw)"
| "collect_updates cfg (p # ps) sw =
     (case callBroker cfg (ib_getOrder (uc_broker cfg) (po_orderId p) (po_localSymbol p)) sw of
        (Inl e, sw1) \<Rightarrow> (Inl e, sw1)
      | (Inr None, sw1) \<Rightarrow> collect_updates cfg ps sw1
      | (Inr (Some bo), sw1) \<Rightarrow>
          (case order_update (uc_decimal cfg) p bo of
             Inl e \<Rightarrow> (Inl e, sw1)
           | Inr up \<Rightarrow>
               (case collect_updates cfg ps sw1 of
                  (Inl e, sw2) \<Rightarrow> (Inl e, sw2)
                | (Inr us, sw2) \<Rightarrow> (Inr ((case up of None \<Rightarrow> [] | Some x \<Rightarrow> [x]) @ us), sw2))))"

definition record_updates ::
  "'w uta_config \<Rightarrow> order_status_update list \<Rightarrow> trading_git \<Rightarrow> uta_side \<times> 'w \<Rightarrow> (js_error + sync_result) \<times> uta \<times> 'w"
where
  "record_updates cfg updates g sw =
     (if updates = [] then (Inr no_sync, \<lparr>u_git = g, u_side = fst sw\<rparr>, snd sw)
      else
        (case getState cfg g sw of
           (Inl e, sw1) \<Rightarrow> (Inl e, \<lparr>u_git = g, u_side = fst sw1\<rparr>, snd sw1)
         | (Inr st, sw1) \<Rightarrow>
             (case tg_sync (git_cfg cfg) updates st g sw1 of
                (r, g1, sw2) \<Rightarrow> (r, \<lparr>u_git = g1, u_side = fst sw2\<rparr>, snd sw2))))"

definition uta_sync :: "'w uta_config \<Rightarrow> uta \<Rightarrow> 'w \<Rightarrow> (js_error + sync_result) \<times> uta \<times> 'w" where
  "uta_sync cfg u w =
     (let g = u_git u; pending = getPendingOrderIds g in
      if pending = [] then (Inr no_sync, u, w)
      else
        (case sync_candidates cfg pending (u_side u, w) of
           (Inl e, sw1) \<Rightarrow> (Inl e, \<lparr>u_git = g, u_side = fst sw1\<rparr>, snd sw1)
         | (Inr candidates, sw1) \<Rightarrow>
             (if candidates = [] then (Inr no_sync, \<lparr>u_git = g, u_side = fst sw1\<rparr>, snd sw1)
              else
                (case collect_updates cfg candidates sw1 of
                   (Inl e, sw2) \<Rightarrow> (Inl e, \<lparr>u_git = g, u_side = fst sw2\<rparr>, snd sw2)
                 | (Inr updates, sw2) \<Rightarrow> record_updates cfg updates g sw2))))"

section \<open>External orders\<close>

definition unknown_orders :: "string list \<Rightarrow> open_order list \<Rightarrow> open_order list" where
  "unknown_orders known listing =
     filter (\<lambda>od. truthy (oo_orderId od) \<and> the (oo_orderId od) \<notin> set known) listing"

definition observeExternalOrders :: "'w uta_config \<Rightarrow> uta \<Rightarrow> 'w \<Rightarrow> (js_error + nat) \<times> uta \<times> 'w" where
  "observeExternalOrders cfg u w =
     (let g = u_git u in
      case ib_getOpenOrders (uc_broker cfg) of
        None \<Rightarrow> (Inr 0, u, w)
      | Some f \<Rightarrow>
          (case callBroker cfg f (u_side u, w) of
             (Inl e, sw1) \<Rightarrow> (Inl e, \<lparr>u_git = g, u_side = fst sw1\<rparr>, snd sw1)
           | (Inr listing, sw1) \<Rightarrow>
               (let unknown = map (stamp_order cfg) (unknown_orders (getKnownOrderIds g) listing) in
                if unknown = [] then (Inr 0, \<lparr>u_git = g, u_side = fst sw1\<rparr>, snd sw1)
                else
                  (case getState cfg g sw1 of
                     (Inl e, sw2) \<Rightarrow> (Inl e, \<lparr>u_git = g, u_side = fst sw2\<rparr>, snd sw2)
                   | (Inr st, sw2) \<Rightarrow>
                       (case recordObservedOrders (git_cfg cfg)
                               (map (\<lambda>od. (oo_contract od, oo_order od, the (oo_orderId od))) unknown) st g sw2 of
                          (r, g1, sw3) \<Rightarrow> (bindE r (\<lambda>_. Inr (length unknown)), \<lparr>u_git = g1, u_side = fst sw3\<rparr>, snd sw3))))))"

section \<open>Wallet positions\<close>

definition drift_tolerance :: dec where
  "drift_tolerance = Fin (1 / 100000000)"

definition needs_reconcile :: "string list \<Rightarrow> string \<Rightarrow> dec \<Rightarrow> bool" where
  "needs_reconcile inFlight a drift \<longleftrightarrow> a \<notin> set inFlight \<and> d_gt (d_abs drift) drift_tolerance"

definition bootstrap_price :: "decimal_js \<Rightarrow> dec position \<Rightarrow> js_error + dec" where
  "bootstrap_price D p =
     bindE (if p_avgCost p \<noteq> [] then new_dec D (p_avgCost p) else Inr (Fin 0)) (\<lambda>avg.
       if d_gt avg (Fin 0) then Inr avg else new_dec D (p_marketPrice p))"

definition reconcile_state :: "dec position list \<Rightarrow> dec git_state" where
  "reconcile_state ps = \<lparr>gs_netLiquidation = ''0'', gs_totalCashValue = ''0'', gs_unrealizedPnL = ''0'',
     gs_realizedPnL = ''0'', gs_positions = ps, gs_pendingOrders = []\<rparr>"

text \<open>
  A reconcile commit holds the array of positions itself, not a copy: what the loop writes into a
  position afterwards shows in the commits that it made, those after the first \<open>n0\<close>.
\<close>

definition share_positions :: "nat \<Rightarrow> dec position list \<Rightarrow> trading_git \<Rightarrow> trading_git" where
  "share_positions n0 ps g = g\<lparr>g_commits := take n0 (g_commits g) @
     map (\<lambda>c. c\<lparr>gc_stateAfter := (gc_stateAfter c)\<lparr>gs_positions := ps\<rparr>\<rparr>) (drop n0 (g_commits g))\<rparr>"

definition project_position ::
  "decimal_js \<Rightarrow> nat \<Rightarrow> nat \<Rightarrow> string \<Rightarrow> dec position list \<Rightarrow> trading_git \<Rightarrow> (js_error + dec position list) \<times> trading_git"
where
  "project_position D n0 i aliceId ps g =
     (case recomputeCostBasis D (ge_commits (exportState g)) aliceId of
        Inl e \<Rightarrow> (Inl e, g)
      | Inr None \<Rightarrow> (Inr ps, g)
      | Inr (Some r) \<Rightarrow>
          (let p1 = (ps ! i)\<lparr>p_avgCost := dj_to_string D (cr_avgCost r)\<rparr>; ps1 = ps[i := p1] in
           case pnlOf D \<lparr>pm_quantity = NDec (p_quantity p1), pm_marketPrice = NStr (p_marketPrice p1),
                  pm_avgCost = NDec (cr_avgCost r), pm_multiplier = Some (opt_or (p_multiplier p1) ''1''),
                  pm_side = p_side p1\<rparr> of
             Inl e \<Rightarrow> (Inl e, share_positions n0 ps1 g)
           | Inr pnl \<Rightarrow> (let ps2 = ps[i := p1\<lparr>p_unrealizedPnL := pnl\<rparr>] in (Inr ps2, share_positions n0 ps2 g))))"

definition reconcile_one ::
  "'w uta_config \<Rightarrow> string list \<Rightarrow> nat \<Rightarrow> nat \<Rightarrow> dec position list \<Rightarrow> trading_git \<Rightarrow> uta_side \<times> 'w
    \<Rightarrow> (js_error + dec position list) \<times> trading_git \<times> uta_side \<times> 'w"
where
  "reconcile_one cfg inFlight n0 i ps g sw =
     (let D = uc_decimal cfg; p = ps ! i in
      if \<not> truthy (c_aliceId (p_contract p)) then (Inr ps, g, sw)
      else let a = the (c_aliceId (p_contract p)) in
        case recomputeCostBasis D (ge_commits (exportState g)) a of
          Inl e \<Rightarrow> (Inl e, g, sw)
        | Inr projected \<Rightarrow>
            (let drift = dj_minus D (p_quantity p) (projected_qty projected) in
             if needs_reconcile inFlight a drift then
               (case bootstrap_price D p of
                  Inl e \<Rightarrow> (Inl e, g, sw)
                | Inr price \<Rightarrow>
                    (case recordReconcile D (git_cfg cfg) a drift price (reconcile_state ps) None g sw of
                       (Inl e, g1, sw1) \<Rightarrow> (Inl e, g1, sw1)
                     | (Inr _, g1, sw1) \<Rightarrow>
                         (case project_position D n0 i a ps g1 of (r, g2) \<Rightarrow> (r, g2, sw1))))
             else (case project_position D n0 i a ps g of (r, g2) \<Rightarrow> (r, g2, sw))))"

fun reconcile_loop ::
  "'w uta_config \<Rightarrow> string list \<Rightarrow> nat \<Rightarrow> nat list \<Rightarrow> dec position list \<Rightarrow> trading_git \<Rightarrow> uta_side \<times> 'w
    \<Rightarrow> (js_error + dec position list) \<times> trading_git \<times> uta_side \<times> 'w"
where
  "reconcile_loop cfg inFlight n0 [] ps g sw = (Inr ps, g, sw)"
| "reconcile_loop cfg inFlight n0 (i # is) ps g sw =
     (case reconcile_one cfg inFlight n0 i ps g sw of
        (Inl e, g1, sw1) \<Rightarrow> (Inl e, g1, sw1)
      | (Inr ps1, g1, sw1) \<Rightarrow> reconcile_loop cfg inFlight n0 is ps1 g1 sw1)"

definition wallet_indices :: "dec position list \<Rightarrow> nat list" where
  "wallet_indices ps = filter (\<lambda>i. p_avgCostSource (ps ! i) = Some FromWallet) [0..<length ps]"

definition reconcileWalletPositions ::
  "'w uta_config \<Rightarrow> dec position list \<Rightarrow> trading_git \<Rightarrow> uta_side \<times> 'w
    \<Rightarrow> (js_error + dec position list) \<times> trading_git \<times> uta_side \<times> 'w"
where
  "reconcileWalletPositions cfg ps g sw =
     (let inFlight = map the (filter truthy (map po_aliceId (getPendingOrderIds g))) in
      reconcile_loop cfg inFlight (length (g_commits g)) (wallet_indices ps) ps g sw)"

definition uta_getPositions ::
  "'w uta_config \<Rightarrow> string option \<Rightarrow> uta \<Rightarrow> 'w \<Rightarrow> (js_error + dec position list) \<times> uta \<times> 'w"
where
  "uta_getPositions cfg sub u w =
     (case callBroker cfg (ib_getPositions (uc_broker cfg) sub) (u_side u, w) of
        (Inl e, sw1) \<Rightarrow> (Inl e, u\<lparr>u_side := fst sw1\<rparr>, snd sw1)
      | (Inr ps, sw1) \<Rightarrow>
          (case reconcileWalletPositions cfg (map (stamp_position cfg) ps) (u_git u) sw1 of
             (r, g1, sw2) \<Rightarrow> (r, \<lparr>u_git = g1, u_side = fst sw2\<rparr>, snd sw2)))"

definition summable :: "account_info \<Rightarrow> dec position list \<Rightarrow> bool" where
  "summable acc ps \<longleftrightarrow> list_all (\<lambda>p. or_str (p_currency p) (ai_baseCurrency acc) = ai_baseCurrency acc) ps"

definition sum_unrealized :: "decimal_js \<Rightarrow> dec position list \<Rightarrow> js_error + dec" where
  "sum_unrealized D ps =
     foldE (\<lambda>p t. bindE (new_dec D (or_str (p_unrealizedPnL p) ''0'')) (\<lambda>v. Inr (dj_plus D t v))) ps (Fin 0)"

definition uta_getAccount ::
  "'w uta_config \<Rightarrow> string option \<Rightarrow> uta \<Rightarrow> 'w \<Rightarrow> (js_error + account_info) \<times> uta \<times> 'w"
where
  "uta_getAccount cfg sub u w =
     (case callBroker cfg (ib_getAccount (uc_broker cfg) sub) (u_side u, w) of
        (Inl e, sw1) \<Rightarrow> (Inl e, u\<lparr>u_side := fst sw1\<rparr>, snd sw1)
      | (Inr acc, sw1) \<Rightarrow>
          (case uta_getPositions cfg sub (u\<lparr>u_side := fst sw1\<rparr>) (snd sw1) of
             (Inl e, u2, w2) \<Rightarrow> (Inl e, u2, w2)
           | (Inr ps, u2, w2) \<Rightarrow>
               (if summable acc ps then
                  (bindE (sum_unrealized (uc_decimal cfg) ps) (\<lambda>t.
                     Inr (acc\<lparr>ai_unrealizedPnL := dj_to_string (uc_decimal cfg) t\<rparr>)), u2, w2)
                else (Inr acc, u2, w2))))"

section \<open>Orders and quotes\<close>

definition uta_getOrders ::
  "'w uta_config \<Rightarrow> string list \<Rightarrow> uta_side \<times> 'w \<Rightarrow> (js_error + open_order list) \<times> uta_side \<times> 'w"
where
  "uta_getOrders cfg ids sw =
     (case callBroker cfg (ib_getOrders (uc_broker cfg) ids) sw of
        (r, sw1) \<Rightarrow> (bindE r (\<lambda>ods. Inr (map (stamp_order cfg) ods)), sw1))"

text \<open>
  A contract given by its \<open>aliceId\<close> alone is expanded to the one behind that id; of the fields the
  caller holds, those that are neither empty nor a default replace the resolved ones.
\<close>

definition over_text :: "string \<Rightarrow> string \<Rightarrow> string" where
  "over_text caller resolved = (if caller = [] then resolved else caller)"

definition UNSET_INTEGER :: int where
  "UNSET_INTEGER = 2 ^ 31 - 1"

definition default_number :: "rat \<Rightarrow> bool" where
  "default_number x \<longleftrightarrow> x = 0 \<or> x = of_int UNSET_INTEGER \<or> x = UNSET_DOUBLE"

definition overlay_contract :: "contract \<Rightarrow> contract \<Rightarrow> contract" where
  "overlay_contract c x = x
     \<lparr>c_conId := (if default_number (of_int (c_conId c)) then c_conId x else c_conId c),
      c_symbol := over_text (c_symbol c) (c_symbol x),
      c_secType := over_text (c_secType c) (c_secType x),
      c_lastTradeDateOrContractMonth :=
        over_text (c_lastTradeDateOrContractMonth c) (c_lastTradeDateOrContractMonth x),
      c_strike := (if default_number (c_strike c) then c_strike x else c_strike c),
      c_right := over_text (c_right c) (c_right x),
      c_multiplier := over_text (c_multiplier c) (c_multiplier x),
      c_exchange := over_text (c_exchange c) (c_exchange x),
      c_primaryExchange := over_text (c_primaryExchange c) (c_primaryExchange x),
      c_currency := over_text (c_currency c) (c_currency x),
      c_localSymbol := over_text (c_localSymbol c) (c_localSymbol x),
      c_tradingClass := over_text (c_tradingClass c) (c_tradingClass x),
      c_secIdType := over_text (c_secIdType c) (c_secIdType x),
      c_secId := over_text (c_secId c) (c_secId x),
      c_description := over_text (c_description c) (c_description x),
      c_issuerId := over_text (c_issuerId c) (c_issuerId x)\<rparr>"

definition expandAliceIdIfNeeded :: "'w uta_config \<Rightarrow> contract \<Rightarrow> js_error + contract" where
  "expandAliceIdIfNeeded cfg c =
     (if \<not> truthy (c_aliceId c) \<or> c_symbol c \<noteq> [] \<or> c_localSymbol c \<noteq> [] then Inr c
      else bindE (contractFromAliceId cfg (the (c_aliceId c))) (\<lambda>x. Inr (overlay_contract c x)))"

definition uta_getQuote ::
  "'w uta_config \<Rightarrow> contract \<Rightarrow> uta_side \<times> 'w \<Rightarrow> (js_error + quote) \<times> uta_side \<times> 'w"
where
  "uta_getQuote cfg c sw =
     (case expandAliceIdIfNeeded cfg c of
        Inl e \<Rightarrow> (Inl e, sw)
      | Inr resolved \<Rightarrow>
          (case callBroker cfg (ib_getQuote (uc_broker cfg) resolved) sw of
             (r, sw1) \<Rightarrow> (bindE r (\<lambda>q. Inr (q\<lparr>q_contract := stampAliceId cfg (q_contract q)\<rparr>)), sw1)))"

definition uta_orderHistory :: "decimal_js \<Rightarrow> nat \<Rightarrow> uta \<Rightarrow> js_error + order_history_entry list" where
  "uta_orderHistory D n u = projectOrderHistory D (ge_commits (exportState (u_git u))) (Some n)"

definition uta_tradeHistory :: "decimal_js \<Rightarrow> nat \<Rightarrow> uta \<Rightarrow> js_error + trade_history_entry list" where
  "uta_tradeHistory D n u = projectTradeHistory D (ge_commits (exportState (u_git u))) (Some n)"

section \<open>Reconciliation closes the drift\<close>

lemma same_trades_refl [simp]: "same_trades cs cs"
  by (simp add: same_trades_def list.rel_refl)

lemma same_trades_map:
  "same_trades cs cs' \<longleftrightarrow>
     map (\<lambda>c. (gc_operations c, gc_results c)) cs = map (\<lambda>c. (gc_operations c, gc_results c)) cs'"
  by (auto simp: same_trades_def list_all2_conv_all_nth list_eq_iff_nth_eq)

lemma share_positions_trades:
  "same_trades (ge_commits (exportState (share_positions n ps g))) (ge_commits (exportState g))"
proof -
  let ?f = "(\<lambda>c. (gc_operations c, gc_results c)) \<circ> projectCommit"
  have "map (?f \<circ> (\<lambda>c. c\<lparr>gc_stateAfter := (gc_stateAfter c)\<lparr>gs_positions := ps\<rparr>\<rparr>)) cs = map ?f cs"
    for cs :: "dec git_commit list"
    by (simp add: projectCommit_def)
  then have "map ?f (g_commits (share_positions n ps g)) = map ?f (take n (g_commits g)) @ map ?f (drop n (g_commits g))"
    by (simp add: share_positions_def)
  then show ?thesis
    by (simp only: same_trades_map exportState_def git_export.simps map_map append_take_drop_id flip: map_append)
qed

lemma project_position_result:
  assumes "project_position D n0 i a ps g = (Inr ps', g')"
  shows "recomputeCostBasis D (ge_commits (exportState g')) b = recomputeCostBasis D (ge_commits (exportState g)) b"
    and "i < length ps \<Longrightarrow> recomputeCostBasis D (ge_commits (exportState g)) a = Inr (Some r) \<Longrightarrow>
      p_avgCost (ps' ! i) = dj_to_string D (cr_avgCost r)"
  using assms recompute_same_trades [OF share_positions_trades]
  by (auto simp: project_position_def Let_def split: sum.splits option.splits)

lemma export_reconcile:
  "ge_commits (exportState (append_commit (reconcile_commit D H t a d p st m g) g)) =
     ge_commits (exportState g) @ [reconcile_commit D H t a d p st m g]"
  by (simp add: exportState_def projectCommit_def reconcile_commit_def Let_def)

lemma record_reconcile_state:
  assumes "recordReconcile D cfg a d p st m g w = (r, g', w')"
  shows "g' = append_commit (reconcile_commit D (commitHash cfg) (clock cfg w) a d p st m g) g"
proof -
  have "snd (persist_commit cfg (reconcile_commit D (commitHash cfg) (clock cfg w) a d p st m g) g w) = (g', w')"
    using arg_cong [OF assms, of snd] by (simp add: recordReconcile_def Let_def then_hash_state)
  then show ?thesis by (rule persisted_effect)
qed

text \<open>The steps of one position, with the cases of the code that reach its end.\<close>

lemma reconcile_one_named:
  assumes "c_aliceId (p_contract (ps ! i)) = Some a" "a \<noteq> []"
    and "recomputeCostBasis (uc_decimal cfg) (ge_commits (exportState g)) a = Inr r0"
    and "d = dj_minus (uc_decimal cfg) (p_quantity (ps ! i)) (projected_qty r0)"
  shows "\<not> needs_reconcile inFlight a d \<Longrightarrow> reconcile_one cfg inFlight n0 i ps g sw =
      (case project_position (uc_decimal cfg) n0 i a ps g of (r, g2) \<Rightarrow> (r, g2, sw))"
    and "needs_reconcile inFlight a d \<Longrightarrow> reconcile_one cfg inFlight n0 i ps g sw =
      (case bootstrap_price (uc_decimal cfg) (ps ! i) of
         Inl e \<Rightarrow> (Inl e, g, sw)
       | Inr price \<Rightarrow>
           (case recordReconcile (uc_decimal cfg) (git_cfg cfg) a d price (reconcile_state ps) None g sw of
              (Inl e, g1, sw1) \<Rightarrow> (Inl e, g1, sw1)
            | (Inr _, g1, sw1) \<Rightarrow>
                (case project_position (uc_decimal cfg) n0 i a ps g1 of (r, g2) \<Rightarrow> (r, g2, sw1))))"
  unfolding reconcile_one_def Let_def assms(4) using assms(1-3)
  by (simp_all only: option.sel truthy_simps if_True if_False sum.case not_False_eq_True not_True_eq_False
      refl simp_thms)

lemma reconcile_one_cases:
  assumes "reconcile_one cfg inFlight n0 i ps g sw = (Inr ps', g', sw')"
  obtains (unnamed) "\<not> truthy (c_aliceId (p_contract (ps ! i)))" "ps' = ps" "g' = g"
  | (keep) a r0 d where "c_aliceId (p_contract (ps ! i)) = Some a"
      "recomputeCostBasis (uc_decimal cfg) (ge_commits (exportState g)) a = Inr r0"
      "d = dj_minus (uc_decimal cfg) (p_quantity (ps ! i)) (projected_qty r0)" "\<not> needs_reconcile inFlight a d"
      "project_position (uc_decimal cfg) n0 i a ps g = (Inr ps', g')"
  | (booked) a r0 d b c where "c_aliceId (p_contract (ps ! i)) = Some a"
      "recomputeCostBasis (uc_decimal cfg) (ge_commits (exportState g)) a = Inr r0"
      "d = dj_minus (uc_decimal cfg) (p_quantity (ps ! i)) (projected_qty r0)" "needs_reconcile inFlight a d"
      "bootstrap_price (uc_decimal cfg) (ps ! i) = Inr b"
      "c = reconcile_commit (uc_decimal cfg) (uc_hash cfg) (uc_iso cfg (snd sw)) a d b (reconcile_state ps) None g"
      "project_position (uc_decimal cfg) n0 i a ps (append_commit c g) = (Inr ps', g')"
proof (cases "truthy (c_aliceId (p_contract (ps ! i)))")
  case False
  then have "(Inr ps, g, sw) = (Inr ps', g', sw')" using assms by (simp add: reconcile_one_def Let_def)
  then have "ps' = ps" "g' = g" by simp_all
  with False show thesis by (rule unnamed)
next
  case True
  then obtain a where a: "c_aliceId (p_contract (ps ! i)) = Some a" "a \<noteq> []" by (elim truthyE)
  then obtain r0 where r0: "recomputeCostBasis (uc_decimal cfg) (ge_commits (exportState g)) a = Inr r0"
    using assms by (cases "recomputeCostBasis (uc_decimal cfg) (ge_commits (exportState g)) a")
      (simp_all add: reconcile_one_def Let_def)
  define d where "d = dj_minus (uc_decimal cfg) (p_quantity (ps ! i)) (projected_qty r0)"
  note eqs = reconcile_one_named [OF a r0 d_def, of inFlight n0 sw]
  show thesis
  proof (cases "needs_reconcile inFlight a d")
    case False
    obtain r g2 where pp: "project_position (uc_decimal cfg) n0 i a ps g = (r, g2)" by (metis prod.exhaust)
    with assms [unfolded eqs(1) [OF False]] have "project_position (uc_decimal cfg) n0 i a ps g = (Inr ps', g')"
      by simp
    then show thesis by (rule keep [OF a(1) r0 d_def False])
  next
    case True
    note step = assms [unfolded eqs(2) [OF True]]
    then obtain b where b: "bootstrap_price (uc_decimal cfg) (ps ! i) = Inr b"
      by (cases "bootstrap_price (uc_decimal cfg) (ps ! i)") simp_all
    obtain rr g1 sw1 where
      rec: "recordReconcile (uc_decimal cfg) (git_cfg cfg) a d b (reconcile_state ps) None g sw = (rr, g1, sw1)"
      by (metis prod.exhaust)
    then have "project_position (uc_decimal cfg) n0 i a ps g1 = (Inr ps', g')"
      using step b by (cases rr) (simp_all split: prod.splits)
    then show thesis unfolding record_reconcile_state [OF rec] git_cfg_def git_config.simps
      by (rule booked [OF a(1) r0 d_def True b refl])
  qed
qed

text \<open>C23: reconciling one wallet position makes the ledger agree with the wallet, under these
  conditions: the decimal arithmetic rounds nothing; every executed quantity and execution price
  in the log that is a number at all is a finite one, the quantities not below zero and the prices within
  some bounds (\<open>sound_log\<close>), and the log can be replayed for the position; the broker reports a finite quantity not below zero and a price
  that can be booked; the price and the difference of the quantities survive being printed and
  parsed; and no pending order can explain a difference.  Then, after a pass over the position that
  returns, the quantity that the log reconstructs is within 1e-8 of the broker's, and the cost shown
  for the position is the reconstructed one.\<close>

theorem wallet_position_matches_ledger:
  fixes cfg :: "'w uta_config" and q q0 b :: rat
  assumes "reconcile_one cfg inFlight n0 i ps g sw = (Inr ps', g', sw')"
    and "decimal_exact (uc_decimal cfg) rnd" and "sound_log (uc_decimal cfg) lo hi (ge_commits (exportState g))"
    and "i < length ps" and "c_aliceId (p_contract (ps ! i)) = Some a" and "a \<noteq> []" and "a \<notin> set inFlight"
    and "p_quantity (ps ! i) = Fin q" and "0 \<le> q"
    and "recomputeCostBasis (uc_decimal cfg) (ge_commits (exportState g)) a = Inr r0"
    and "projected_qty r0 = Fin q0" and "dec_repr (Fin (q - q0))"
    and "bootstrap_price (uc_decimal cfg) (ps ! i) = Inr (Fin b)" and "dec_repr (Fin b)"
  shows "\<exists>r q'. recomputeCostBasis (uc_decimal cfg) (ge_commits (exportState g')) a = Inr r \<and>
    projected_qty r = Fin q' \<and> \<bar>q - q'\<bar> \<le> 1 / 100000000 \<and>
    (case r of None \<Rightarrow> True | Some x \<Rightarrow> p_avgCost (ps' ! i) = dj_to_string (uc_decimal cfg) (cr_avgCost x))"
  using assms(1)
proof (cases rule: reconcile_one_cases)
  case unnamed
  then show ?thesis using assms(5,6) by simp
next
  note E = decimal_exact.exact_arith [OF assms(2)]
  case (keep a' r0' d)
  then have "\<bar>q - q0\<bar> \<le> 1 / 100000000"
    using assms(5,7,8,10,11) by (simp add: E drift_tolerance_def needs_reconcile_def)
  then show ?thesis
    using project_position_result [OF keep(5)] keep(1) assms(4,5,10,11)
    by (intro exI [of _ r0] exI [of _ q0]) (simp split: option.splits)
next
  note E = decimal_exact.exact_arith [OF assms(2)]
  case (booked a' r0' d b' c)
  have eq: "a' = a" "r0' = r0" "b' = Fin b" "d = Fin (q - q0)"
    using booked(1-3,5) assms(5,8,10,11,13) by (simp_all add: E)
  have d: "q - q0 \<noteq> 0" using booked(4) by (auto simp: eq needs_reconcile_def drift_tolerance_def)
  have "max 0 (q0 + (q - q0)) = q" using assms(9) by simp
  then obtain r where r: "recomputeCostBasis (uc_decimal cfg) (ge_commits (exportState (append_commit c g))) a = Inr (Some r)"
      "cr_qty r = Fin q"
    using reconcile_basis [OF assms(2,3,10,11) d assms(12,14), of "uc_hash cfg" "uc_iso cfg (snd sw)"
      "reconcile_state ps" None g] booked(6)
    by (auto simp: eq export_reconcile)
  then show ?thesis
    using project_position_result [OF booked(7)] assms(4)
    by (intro exI [of _ "Some r"] exI [of _ q]) (simp add: eq projected_qty_def)
qed

text \<open>What a step leaves of the ledger, whatever it returns.\<close>

lemma project_position_state:
  assumes "project_position D n0 i a ps g = (r, g')"
  shows "g' = g \<or> (\<exists>qs. g' = share_positions n0 qs g)"
  using assms by (auto simp: project_position_def Let_def split: sum.splits option.splits)

lemma reconcile_one_state:
  assumes "reconcile_one cfg inFlight n0 i ps g sw = (r, g', sw')"
  shows "\<exists>g1. (g1 = g \<or> (\<exists>a d b t. a \<noteq> [] \<and> needs_reconcile inFlight a d \<and>
      g1 = append_commit (reconcile_commit (uc_decimal cfg) (uc_hash cfg) t a d b (reconcile_state ps) None g) g)) \<and>
    (g' = g1 \<or> (\<exists>qs. g' = share_positions n0 qs g1))"
proof (cases "truthy (c_aliceId (p_contract (ps ! i)))")
  case False
  then have "g' = g" using assms by (simp add: reconcile_one_def Let_def)
  then show ?thesis by blast
next
  case True
  then obtain a where a: "c_aliceId (p_contract (ps ! i)) = Some a" "a \<noteq> []" by (elim truthyE)
  let ?D = "uc_decimal cfg"
  show ?thesis
  proof (cases "recomputeCostBasis ?D (ge_commits (exportState g)) a")
    case (Inl e)
    then have "g' = g" using assms a by (simp add: reconcile_one_def Let_def)
    then show ?thesis by blast
  next
    case (Inr r0)
    define d where "d = dj_minus ?D (p_quantity (ps ! i)) (projected_qty r0)"
    note eqs = reconcile_one_named [OF a Inr d_def, of inFlight n0 sw]
    show ?thesis
    proof (cases "needs_reconcile inFlight a d")
      case False
      obtain x g2 where pp: "project_position ?D n0 i a ps g = (x, g2)" by (metis prod.exhaust)
      then have "g' = g2" using assms [unfolded eqs(1) [OF False]] by simp
      then show ?thesis using project_position_state [OF pp] by blast
    next
      case True
      note step = assms [unfolded eqs(2) [OF True]]
      show ?thesis
      proof (cases "bootstrap_price ?D (ps ! i)")
        case (Inl e)
        then have "g' = g" using step by simp
        then show ?thesis by blast
      next
        case (Inr b)
        obtain rr g1 sw1 where
          rec: "recordReconcile ?D (git_cfg cfg) a d b (reconcile_state ps) None g sw = (rr, g1, sw1)"
          by (metis prod.exhaust)
        have g1: "g1 = append_commit (reconcile_commit ?D (uc_hash cfg) (clock (git_cfg cfg) sw) a d b
            (reconcile_state ps) None g) g"
          using record_reconcile_state [OF rec] by (simp add: git_cfg_def)
        obtain x g2 where pp: "project_position ?D n0 i a ps g1 = (x, g2)" by (metis prod.exhaust)
        have "g' = g1 \<or> g' = g2" using step Inr rec pp by (cases rr) simp_all
        then show ?thesis using g1 a(2) True project_position_state [OF pp] by blast
      qed
    qed
  qed
qed

text \<open>The ledger during a pass: the log as it was, then reconcile commits of drifts to be recorded.\<close>

definition drift_commit :: "decimal_js \<Rightarrow> string list \<Rightarrow> dec git_commit \<Rightarrow> bool" where
  "drift_commit D inFlight c \<longleftrightarrow> (\<exists>a d price. a \<noteq> [] \<and> needs_reconcile inFlight a d \<and>
     gc_operations c = [ReconcileBalance a (dj_to_fixed D d) price])"

definition during_reconcile :: "decimal_js \<Rightarrow> string list \<Rightarrow> trading_git \<Rightarrow> trading_git \<Rightarrow> bool" where
  "during_reconcile D inFlight g0 g \<longleftrightarrow> (let n0 = length (g_commits g0) in
     take n0 (g_commits g) = g_commits g0 \<and> list_all (drift_commit D inFlight) (drop n0 (g_commits g)) \<and>
     g_stagingArea g = g_stagingArea g0 \<and> g_pendingHash g = g_pendingHash g0 \<and>
     g_pendingMessage g = g_pendingMessage g0)"

lemma during_reconcile_start: "during_reconcile D inFlight g g"
  by (simp add: during_reconcile_def)

lemma during_reconcile_share:
  "during_reconcile D inFlight g0 g \<Longrightarrow> during_reconcile D inFlight g0 (share_positions (length (g_commits g0)) qs g)"
  by (auto simp: during_reconcile_def Let_def share_positions_def list_all_iff drift_commit_def min_def
      dest: arg_cong [of _ _ length])

lemma during_reconcile_append:
  assumes "during_reconcile D inFlight g0 g" "a \<noteq> []" "needs_reconcile inFlight a d"
  shows "during_reconcile D inFlight g0 (append_commit (reconcile_commit D H t a d b st m h) g)"
proof -
  have "length (g_commits g0) \<le> length (g_commits g)"
    using assms(1) by (auto simp: during_reconcile_def Let_def dest!: arg_cong [of _ _ length])
  moreover have "drift_commit D inFlight (reconcile_commit D H t a d b st m h)"
    using assms(2,3) by (auto simp: drift_commit_def reconcile_commit_def Let_def)
  ultimately show ?thesis using assms(1) by (simp add: during_reconcile_def Let_def)
qed

lemma during_reconcile_one:
  assumes "reconcile_one cfg inFlight (length (g_commits g0)) i ps g sw = (r, g', sw')"
    and "during_reconcile (uc_decimal cfg) inFlight g0 g"
  shows "during_reconcile (uc_decimal cfg) inFlight g0 g'"
proof -
  obtain g1 where g1: "g1 = g \<or> (\<exists>a d b t. a \<noteq> [] \<and> needs_reconcile inFlight a d \<and>
      g1 = append_commit (reconcile_commit (uc_decimal cfg) (uc_hash cfg) t a d b (reconcile_state ps) None g) g)"
    and g': "g' = g1 \<or> (\<exists>qs. g' = share_positions (length (g_commits g0)) qs g1)"
    using reconcile_one_state [OF assms(1)] by blast
  have "during_reconcile (uc_decimal cfg) inFlight g0 g1"
    using g1 assms(2) during_reconcile_append by blast
  then show ?thesis using g' during_reconcile_share by blast
qed

lemma during_reconcile_loop:
  assumes "reconcile_loop cfg inFlight (length (g_commits g0)) is ps g sw = (r, g', sw')"
    and "during_reconcile (uc_decimal cfg) inFlight g0 g"
  shows "during_reconcile (uc_decimal cfg) inFlight g0 g'"
  using assms
proof (induction "is" arbitrary: ps g sw)
  case (Cons i is')
  obtain x g1 sw1 where one: "reconcile_one cfg inFlight (length (g_commits g0)) i ps g sw = (x, g1, sw1)"
    by (metis prod.exhaust)
  note g1 = during_reconcile_one [OF one Cons.prems(2)]
  show ?case
  proof (cases x)
    case (Inl e)
    then show ?thesis using one Cons.prems(1) g1 by simp
  next
    case (Inr ps1)
    then have "reconcile_loop cfg inFlight (length (g_commits g0)) is' ps1 g1 sw1 = (r, g', sw')"
      using one Cons.prems(1) by simp
    then show ?thesis using g1 by (rule Cons.IH)
  qed
qed simp

text \<open>C24: reading positions writes only what no order can explain.  Whether it succeeds or throws,
  reconciliation keeps the log so far and the staging area, and every commit that it adds books one
  drift above the tolerance, of an instrument that no pending order was on.\<close>

theorem reconcile_only_unexplained_drift:
  assumes "reconcileWalletPositions cfg ps g sw = (r, g', sw')"
  shows "take (length (g_commits g)) (g_commits g') = g_commits g \<and>
    g_stagingArea g' = g_stagingArea g \<and> g_pendingHash g' = g_pendingHash g \<and>
    (\<forall>c \<in> set (drop (length (g_commits g)) (g_commits g')).
       \<exists>a d price. gc_operations c = [ReconcileBalance a (dj_to_fixed (uc_decimal cfg) d) price] \<and>
         d_gt (d_abs d) drift_tolerance \<and> (\<forall>p \<in> set (getPendingOrderIds g). po_aliceId p \<noteq> Some a))"
proof -
  let ?f = "map the (filter truthy (map po_aliceId (getPendingOrderIds g)))"
  have busy: "a \<in> set ?f" if "p \<in> set (getPendingOrderIds g)" "po_aliceId p = Some a" "a \<noteq> []" for a p
    using that by force
  have "during_reconcile (uc_decimal cfg) ?f g g'"
    using assms during_reconcile_loop [OF _ during_reconcile_start]
    unfolding reconcileWalletPositions_def Let_def by blast
  then show ?thesis using busy
    unfolding during_reconcile_def Let_def list_all_iff drift_commit_def needs_reconcile_def by blast
qed

section \<open>Sync settles what it reports\<close>

lemma poll_filter_subset: "set (fst (poll_filter now ps m)) \<subseteq> set ps"
proof (induction ps arbitrary: m)
  case (Cons p ps)
  obtain due m1 qs m2 where d: "pollBackoffDue now (po_orderId p) m = (due, m1)" "poll_filter now ps m1 = (qs, m2)"
    by (metis prod.exhaust)
  then have "set qs \<subseteq> set ps" using Cons.IH [of m1] by simp
  then show ?case using d by auto
qed simp

lemma sync_candidates_subset:
  assumes "sync_candidates cfg pending sw = (Inr cs, sw')"
  shows "set cs \<subseteq> set pending"
  using assms poll_filter_subset [of "uc_now cfg (snd sw)" pending "us_pollState (fst sw)"]
  by (auto simp: sync_candidates_def split: option.splits prod.splits sum.splits)

lemma order_update_terminal:
  "order_update D p bo = Inr (Some x) \<Longrightarrow>
     u_orderId x = po_orderId p \<and> u_currentStatus x \<in> {Filled, Cancelled, Rejected}"
  by (auto simp: order_update_def Let_def bindE_eq_Inr terminal_status_def split: if_splits)

lemma collect_updates_sound:
  assumes "collect_updates cfg ps sw = (Inr us, sw')" "x \<in> set us"
  shows "u_orderId x \<in> po_orderId ` set ps \<and> u_currentStatus x \<in> {Filled, Cancelled, Rejected}"
  using assms
proof (induction ps arbitrary: us sw sw')
  case (Cons p ps)
  obtain res sw1 where call: "callBroker cfg (ib_getOrder (uc_broker cfg) (po_orderId p) (po_localSymbol p)) sw = (res, sw1)"
    by (metis prod.exhaust)
  show ?case
  proof (cases "\<exists>bo. res = Inr (Some bo)")
    case False
    then have "collect_updates cfg ps sw1 = (Inr us, sw')"
      using Cons.prems(1) call by (cases res) (auto split: option.splits)
    then show ?thesis using Cons.IH Cons.prems(2) by fastforce
  next
    case True
    then obtain bo where bo0: "res = Inr (Some bo)" by blast
    then obtain up where up: "order_update (uc_decimal cfg) p bo = Inr up"
      using Cons.prems(1) call by (cases "order_update (uc_decimal cfg) p bo") simp_all
    obtain y sw2 where y: "collect_updates cfg ps sw1 = (y, sw2)" by (metis prod.exhaust)
    then obtain vs where "y = Inr vs" "us = (case up of None \<Rightarrow> [] | Some v \<Rightarrow> [v]) @ vs"
      using Cons.prems(1) call bo0 up by (cases y) simp_all
    note bo = up y [unfolded this(1)] this(2)
    show ?thesis
    proof (cases "x \<in> set vs")
      case True
      then show ?thesis using Cons.IH [OF bo(2)] by auto
    next
      case False
      then have "up = Some x" using bo(3) Cons.prems(2) by (cases up) auto
      then show ?thesis using order_update_terminal bo(1) by auto
    qed
  qed
qed simp

lemma record_updates_settles:
  assumes "record_updates cfg us g sw = (Inr res, u', w')"
    and "\<forall>x \<in> set us. u_orderId x \<noteq> [] \<and> u_currentStatus x \<noteq> Submitted"
  shows "sy_updates res = us \<and> pending_ids (u_git u') = pending_ids g - u_orderId ` set us"
proof (cases "us = []")
  case True
  then show ?thesis using assms(1) by (auto simp: record_updates_def no_sync_def)
next
  case False
  obtain st sw1 where st: "getState cfg g sw = (Inr st, sw1)"
    using assms(1) False by (cases "getState cfg g sw") (auto simp: record_updates_def split: sum.splits prod.splits)
  obtain g1 sw2 where s: "tg_sync (git_cfg cfg) us st g sw1 = (Inr res, g1, sw2)" "u_git u' = g1"
    using assms(1) False st by (auto simp: record_updates_def split: prod.splits)
  then have "sy_updates res = us"
    using False by (auto simp: tg_sync_def Let_def bindE_eq_Inr split: prod.splits)
  then show ?thesis using sync_settles [OF s(1) assms(2)] s(2) by simp
qed

text \<open>C22: a sync of the account settles exactly the orders that it reports.  Each was pending and is
  now reported in a terminal state; the pending set loses them and nothing else, and a sync that
  reports nothing leaves the ledger as it was.  (An order id is never empty.)\<close>

theorem uta_sync_settles_reported:
  assumes "uta_sync cfg u w = (Inr res, u', w')" and "[] \<notin> pending_ids (u_git u)"
  shows "pending_ids (u_git u') = pending_ids (u_git u) - u_orderId ` set (sy_updates res) \<and>
    u_orderId ` set (sy_updates res) \<subseteq> pending_ids (u_git u) \<and>
    (\<forall>x \<in> set (sy_updates res). u_currentStatus x \<in> {Filled, Cancelled, Rejected}) \<and>
    (sy_updates res = [] \<longrightarrow> u_git u' = u_git u)"
proof -
  let ?pend = "getPendingOrderIds (u_git u)"
  consider (nothing) "res = no_sync" "u_git u' = u_git u"
    | (some) cs sw1 us sw2 where "sync_candidates cfg ?pend (u_side u, w) = (Inr cs, sw1)"
        "collect_updates cfg cs sw1 = (Inr us, sw2)" "record_updates cfg us (u_git u) sw2 = (Inr res, u', w')"
  proof (cases "?pend = []")
    case True
    then have "res = no_sync" "u' = u" using assms(1) by (simp_all add: uta_sync_def)
    then show ?thesis using that(1) by blast
  next
    case False
    obtain x sw1 where c: "sync_candidates cfg ?pend (u_side u, w) = (x, sw1)" by (metis prod.exhaust)
    then obtain cs where cs: "x = Inr cs" using assms(1) False by (cases x) (simp_all add: uta_sync_def Let_def)
    show ?thesis
    proof (cases "cs = []")
      case True
      then have "(Inr no_sync, \<lparr>u_git = u_git u, u_side = fst sw1\<rparr>, snd sw1) = (Inr res, u', w')"
        using assms(1) \<open>?pend \<noteq> []\<close> c cs by (simp add: uta_sync_def Let_def)
      then have "res = no_sync" "u' = \<lparr>u_git = u_git u, u_side = fst sw1\<rparr>" by simp_all
      then show ?thesis using that(1) by simp
    next
      case ne: False
      obtain y sw2 where y: "collect_updates cfg cs sw1 = (y, sw2)" by (metis prod.exhaust)
      then obtain us where us: "y = Inr us"
        using assms(1) False ne c cs by (cases y) (simp_all add: uta_sync_def Let_def)
      then have "record_updates cfg us (u_git u) sw2 = (Inr res, u', w')"
        using assms(1) False ne c cs y by (simp add: uta_sync_def Let_def)
      then show ?thesis using that(2) c cs y us by blast
    qed
  qed
  then show ?thesis
  proof cases
    case nothing
    then show ?thesis by (simp add: no_sync_def)
  next
    case some
    have "po_orderId ` set cs \<subseteq> pending_ids (u_git u)"
      using sync_candidates_subset [OF some(1)] unfolding pending_ids_def set_map by (rule image_mono)
    then have ok: "u_orderId x \<in> pending_ids (u_git u) \<and> u_currentStatus x \<in> {Filled, Cancelled, Rejected}"
      if "x \<in> set us" for x
      using collect_updates_sound [OF some(2) that] by blast
    have "\<forall>x \<in> set us. u_orderId x \<noteq> [] \<and> u_currentStatus x \<noteq> Submitted"
    proof
      fix x assume "x \<in> set us"
      from ok [OF this] assms(2) show "u_orderId x \<noteq> [] \<and> u_currentStatus x \<noteq> Submitted" by auto
    qed
    note settled = record_updates_settles [OF some(3) this]
    have "us = [] \<Longrightarrow> u_git u' = u_git u" using some(3) by (auto simp: record_updates_def)
    then show ?thesis using settled ok by (intro conjI) (simp_all add: image_subset_iff)
  qed
qed

section \<open>Witnesses\<close>

text \<open>A wallet holds two units where the log knows of none, at an average cost of 30.\<close>

definition demo_wallet :: "dec position" where
  "demo_wallet = \<lparr>p_contract = demo_contract, p_currency = ''USD'', p_side = Long, p_quantity = Fin 2,
     p_avgCost = ''30'', p_marketPrice = ''40'', p_marketValue = ''80'', p_unrealizedPnL = ''0'',
     p_realizedPnL = ''0'', p_multiplier = None, p_avgCostSource = Some FromWallet, p_risk = None\<rparr>"

definition demo_reconciled :: "(js_error + dec position list) \<times> trading_git \<times> uta_side \<times> int" where
  "demo_reconciled = reconcile_one (demo_account False) [] 0 0 [demo_wallet] new_git (demo_side, 0)"

lemma demo_reconciled_ok: "case fst demo_reconciled of Inl _ \<Rightarrow> False | Inr _ \<Rightarrow> True"
  by code_simp

lemma run_succeeds:
  assumes "case fst x of Inl e \<Rightarrow> False | Inr y \<Rightarrow> P y"
  obtains y s w where "x = (Inr y, s, w)" "P y"
  using assms by (cases x; cases "fst x") auto

lemma wallet_position_matches_ledger_witness:
  "\<exists>r q'. recomputeCostBasis exact_decimal (ge_commits (exportState (fst (snd demo_reconciled)))) ''a|BTC'' = Inr r \<and>
     projected_qty r = Fin q' \<and> \<bar>2 - q'\<bar> \<le> 1 / 100000000"
proof -
  obtain ps' g' sw' where r: "demo_reconciled = (Inr ps', g', sw')"
    using demo_reconciled_ok by (rule run_succeeds)
  have D: "uc_decimal (demo_account False) = exact_decimal" by (simp add: demo_account_def)
  have one: "reconcile_one (demo_account False) [] 0 0 [demo_wallet] new_git (demo_side, 0) = (Inr ps', g', sw')"
    using r by (simp add: demo_reconciled_def)
  have rec: "recomputeCostBasis exact_decimal (ge_commits (exportState new_git)) ''a|BTC'' = Inr None"
    by code_simp
  have boot: "bootstrap_price exact_decimal ([demo_wallet] ! 0) = Inr (Fin 30)"
    by code_simp
  note wallet = wallet_position_matches_ledger [OF one, where rnd = "\<lambda>x. x" and lo = 0 and hi = 100
      and a = "''a|BTC''" and q = 2 and ?r0.0 = None and ?q0.0 = 0 and b = 30, unfolded D]
  have "sound_log exact_decimal 0 100 (ge_commits (exportState new_git))"
    by (simp add: sound_log_def exportState_def new_git_def)
  note matches = wallet [OF ex.decimal_exact_axioms this _ _ _ _ _ _ rec _ _ boot]
  have "\<exists>r q'. recomputeCostBasis exact_decimal (ge_commits (exportState g')) ''a|BTC'' = Inr r \<and>
      projected_qty r = Fin q' \<and> \<bar>2 - q'\<bar> \<le> 1 / 100000000 \<and>
      (case r of None \<Rightarrow> True | Some x \<Rightarrow> p_avgCost (ps' ! 0) = dj_to_string exact_decimal (cr_avgCost x))"
    by (rule matches) (simp_all add: demo_wallet_def projected_qty_def)
  then show ?thesis unfolding r fst_conv snd_conv by blast
qed

lemma reconcile_only_unexplained_drift_witness:
  "\<exists>g'. fst (snd (reconcileWalletPositions (demo_account False) [demo_wallet] new_git (demo_side, 0))) = g' \<and>
     length (g_commits g') = 1 \<and> (\<forall>c \<in> set (g_commits g'). \<exists>a d price.
       gc_operations c = [ReconcileBalance a (dj_to_fixed exact_decimal d) price] \<and> d_gt (d_abs d) drift_tolerance)"
proof -
  obtain r g' sw' where x: "reconcileWalletPositions (demo_account False) [demo_wallet] new_git (demo_side, 0) = (r, g', sw')"
    by (metis prod.exhaust)
  have "length (g_commits (fst (snd (reconcileWalletPositions (demo_account False) [demo_wallet] new_git (demo_side, 0))))) = 1"
    by code_simp
  moreover have "uc_decimal (demo_account False) = exact_decimal" by (simp add: demo_account_def)
  moreover have "take (length (g_commits new_git)) (g_commits g') = g_commits new_git \<and>
      drop (length (g_commits new_git)) (g_commits g') = g_commits g'"
    by (simp add: new_git_def)
  ultimately show ?thesis using reconcile_only_unexplained_drift [OF x] x
    by (metis fst_conv snd_conv)
qed

text \<open>The broker answers that the pending order has filled.\<close>

definition demo_filled :: open_order where
  "demo_filled = demo_open_order\<lparr>oo_orderState := \<lparr>os_status = ''Filled'', os_commissionAndFees = UNSET_DOUBLE,
     os_commissionAndFeesCurrency = []\<rparr>, oo_avgFillPrice := Some ''30''\<rparr>"

definition demo_sync_account :: "int uta_config" where
  "demo_sync_account = (demo_account False)
     \<lparr>uc_broker := demo_broker\<lparr>ib_getOrder := (\<lambda>i s w. (Inr (Some demo_filled), w))\<rparr>\<rparr>"

definition demo_sync_uta :: uta where
  "demo_sync_uta = \<lparr>u_git = demo_git, u_side = demo_side\<rparr>"

lemma uta_sync_settles_reported_witness:
  "pending_ids demo_git = {''7''} \<and>
   (case uta_sync demo_sync_account demo_sync_uta 0 of (r, u', w') \<Rightarrow> pending_ids (u_git u') = {})"
proof -
  have "case fst (uta_sync demo_sync_account demo_sync_uta 0) of
      Inl _ \<Rightarrow> False | Inr res \<Rightarrow> map u_orderId (sy_updates res) = [''7'']"
    by code_simp
  then obtain res u' w' where s: "uta_sync demo_sync_account demo_sync_uta 0 = (Inr res, u', w')"
      "map u_orderId (sy_updates res) = [''7'']"
    by (rule run_succeeds)
  have p: "pending_ids (u_git demo_sync_uta) = {''7''}" using demo_pending by (simp add: demo_sync_uta_def)
  have "u_orderId ` set (sy_updates res) = {''7''}" using arg_cong [OF s(2), of set] by simp
  then show ?thesis using uta_sync_settles_reported [OF s(1)] p s(1) demo_pending by simp
qed

end
