(* ===== verification/State_Error.thy ===== *)
theory State_Error
  imports UTA_Prelude
begin

text \<open>
  Methods of an object that may throw: a function from the object's fields to its result or
  exception and the fields it leaves, so that what was written before a \<open>throw\<close> stays written.
  Sequencing, loops, weakest preconditions (\<open>wpS\<close>) and the invariants a method keeps (\<open>keeps\<close>).
\<close>

named_theorems wp_simps "weakest preconditions of the building blocks"
named_theorems keeps_intros "building blocks keep an invariant"

type_synonym ('s, 'a) meth = "'s \<Rightarrow> (js_error + 'a) \<times> 's"

definition returnS :: "'a \<Rightarrow> ('s, 'a) meth" where
  "returnS a s = (Inr a, s)"

definition throwS :: "js_error \<Rightarrow> ('s, 'a) meth" where
  "throwS e s = (Inl e, s)"

definition liftS :: "js_error + 'a \<Rightarrow> ('s, 'a) meth" where
  "liftS r s = (r, s)"

definition getS :: "('s \<Rightarrow> 'a) \<Rightarrow> ('s, 'a) meth" where
  "getS f s = (Inr (f s), s)"

definition updateS :: "('s \<Rightarrow> 's) \<Rightarrow> ('s, unit) meth" where
  "updateS f s = (Inr (), f s)"

definition bindS :: "('s, 'a) meth \<Rightarrow> ('a \<Rightarrow> ('s, 'b) meth) \<Rightarrow> ('s, 'b) meth" where
  "bindS m f s = (case m s of (Inl e, s1) \<Rightarrow> (Inl e, s1) | (Inr a, s1) \<Rightarrow> f a s1)"

definition thenS :: "('s, unit) meth \<Rightarrow> ('s, 'b) meth \<Rightarrow> ('s, 'b) meth" where
  "thenS m k = bindS m (\<lambda>_. k)"

definition guardS :: "bool \<Rightarrow> js_error \<Rightarrow> ('s, unit) meth" where
  "guardS b e = (if b then returnS () else throwS e)"

text \<open>\<open>try { m } catch (e) { h(e) }\<close>, and a loop that collects what its body yields.\<close>

definition catchS :: "('s, 'a) meth \<Rightarrow> (js_error \<Rightarrow> ('s, 'a) meth) \<Rightarrow> ('s, 'a) meth" where
  "catchS m h s = (case m s of (Inl e, s1) \<Rightarrow> h e s1 | (Inr a, s1) \<Rightarrow> (Inr a, s1))"

fun mapS :: "('x \<Rightarrow> ('s, 'a) meth) \<Rightarrow> 'x list \<Rightarrow> ('s, 'a list) meth" where
  "mapS f [] = returnS []"
| "mapS f (x # xs) = bindS (f x) (\<lambda>y. bindS (mapS f xs) (\<lambda>ys. returnS (y # ys)))"

fun forS :: "('x \<Rightarrow> ('s, unit) meth) \<Rightarrow> 'x list \<Rightarrow> ('s, unit) meth" where
  "forS f [] = returnS ()"
| "forS f (x # xs) = thenS (f x) (forS f xs)"

lemma meth_simps [simp]:
  "returnS a s = (Inr a, s)" "throwS e s = (Inl e, s)" "liftS r s = (r, s)"
  "getS g s = (Inr (g s), s)" "updateS h s = (Inr (), h s)"
  by (simp_all add: returnS_def throwS_def liftS_def getS_def updateS_def)

lemma guardS_eq [simp]: "guardS b e s = (if b then (Inr (), s) else (Inl e, s))"
  by (simp add: guardS_def)

lemma bindS_cases:
  "bindS m f s = (r, s') \<longleftrightarrow>
     (\<exists>e. m s = (Inl e, s') \<and> r = Inl e) \<or> (\<exists>a s1. m s = (Inr a, s1) \<and> f a s1 = (r, s'))"
  by (auto simp: bindS_def split: prod.splits sum.splits)

lemma bindS_Inr:
  "bindS m f s = (Inr b, s') \<longleftrightarrow> (\<exists>a s1. m s = (Inr a, s1) \<and> f a s1 = (Inr b, s'))"
  by (auto simp: bindS_cases)

lemma bindS_eq [simp]:
  "m s = (Inr a, s1) \<Longrightarrow> bindS m f s = f a s1"
  "m s = (Inl e, s1) \<Longrightarrow> bindS m f s = (Inl e, s1)"
  by (simp_all add: bindS_def)

lemma bindS_assoc: "bindS (bindS m f) g = bindS m (\<lambda>a. bindS (f a) g)"
  by (rule ext) (simp add: bindS_def split: prod.splits sum.splits)

section \<open>Weakest preconditions\<close>

text \<open>\<open>Q\<close> of the result when the method returns, \<open>E\<close> of the exception when it throws.\<close>

definition wpS :: "('s, 'a) meth \<Rightarrow> ('a \<Rightarrow> 's \<Rightarrow> bool) \<Rightarrow> (js_error \<Rightarrow> 's \<Rightarrow> bool) \<Rightarrow> 's \<Rightarrow> bool" where
  "wpS m Q E s \<longleftrightarrow> (case m s of (Inl e, s1) \<Rightarrow> E e s1 | (Inr a, s1) \<Rightarrow> Q a s1)"

lemma wpS_block [wp_simps]:
  "wpS (returnS a) Q E s \<longleftrightarrow> Q a s"
  "wpS (throwS e) Q E s \<longleftrightarrow> E e s"
  "wpS (getS g) Q E s \<longleftrightarrow> Q (g s) s"
  "wpS (updateS h) Q E s \<longleftrightarrow> Q () (h s)"
  "wpS (guardS b e) Q E s \<longleftrightarrow> (if b then Q () s else E e s)"
  "wpS (liftS r) Q E s \<longleftrightarrow> (case r of Inl e \<Rightarrow> E e s | Inr a \<Rightarrow> Q a s)"
  by (simp_all add: wpS_def split: sum.splits)

lemma wpS_bind [wp_simps]: "wpS (bindS m f) Q E s \<longleftrightarrow> wpS m (\<lambda>a. wpS (f a) Q E) E s"
  by (simp add: wpS_def bindS_def split: prod.splits sum.splits)

lemma wpS_then [wp_simps]: "wpS (thenS m k) Q E s \<longleftrightarrow> wpS m (\<lambda>_. wpS k Q E) E s"
  by (simp add: thenS_def wpS_bind)

lemma wpS_catch [wp_simps]: "wpS (catchS m h) Q E s \<longleftrightarrow> wpS m Q (\<lambda>e. wpS (h e) Q E) s"
  by (simp add: wpS_def catchS_def split: prod.splits sum.splits)

lemma wpS_mono:
  "wpS m Q E s \<Longrightarrow> (\<And>a s. Q a s \<Longrightarrow> Q' a s) \<Longrightarrow> (\<And>e s. E e s \<Longrightarrow> E' e s) \<Longrightarrow> wpS m Q' E' s"
  by (auto simp: wpS_def split: prod.splits sum.splits)

lemma wpS_result: "wpS m Q E s \<Longrightarrow> m s = (Inr a, s') \<Longrightarrow> Q a s'"
  by (simp add: wpS_def)

lemma wpS_state: "wpS m (\<lambda>_. P) (\<lambda>_. P) s \<longleftrightarrow> P (snd (m s))"
  by (simp add: wpS_def split: prod.splits sum.splits)

section \<open>Invariants\<close>

definition keeps :: "('s \<Rightarrow> bool) \<Rightarrow> ('s, 'a) meth \<Rightarrow> bool" where
  "keeps P m \<longleftrightarrow> (\<forall>s. P s \<longrightarrow> P (snd (m s)))"

lemma keepsD: "keeps P m \<Longrightarrow> P s \<Longrightarrow> m s = (r, s') \<Longrightarrow> P s'"
  by (auto simp: keeps_def dest!: spec [of _ s])

lemma keeps_block [keeps_intros]:
  "keeps P (returnS a)" "keeps P (throwS e)" "keeps P (getS g)" "keeps P (liftS r)" "keeps P (guardS b e)"
  by (simp_all add: keeps_def)

lemma keeps_update [keeps_intros]: "(\<And>s. P s \<Longrightarrow> P (h s)) \<Longrightarrow> keeps P (updateS h)"
  by (simp add: keeps_def)

lemma keeps_bind [keeps_intros]: "keeps P m \<Longrightarrow> (\<And>a. keeps P (f a)) \<Longrightarrow> keeps P (bindS m f)"
  by (auto simp: keeps_def bindS_def split: prod.splits sum.splits)

lemma keeps_then [keeps_intros]: "keeps P m \<Longrightarrow> keeps P k \<Longrightarrow> keeps P (thenS m k)"
  by (simp add: thenS_def keeps_bind)

lemma keeps_catch [keeps_intros]: "keeps P m \<Longrightarrow> (\<And>e. keeps P (h e)) \<Longrightarrow> keeps P (catchS m h)"
  by (auto simp: keeps_def catchS_def split: prod.splits sum.splits)

lemma keeps_if [keeps_intros]: "(b \<Longrightarrow> keeps P m) \<Longrightarrow> (\<not> b \<Longrightarrow> keeps P k) \<Longrightarrow> keeps P (if b then m else k)"
  by simp

lemma keeps_option [keeps_intros]:
  "(x = None \<Longrightarrow> keeps P m) \<Longrightarrow> (\<And>a. x = Some a \<Longrightarrow> keeps P (f a)) \<Longrightarrow> keeps P (case x of None \<Rightarrow> m | Some a \<Rightarrow> f a)"
  by (simp split: option.splits)

lemma keeps_map [keeps_intros]: "(\<And>x. keeps P (f x)) \<Longrightarrow> keeps P (mapS f xs)"
  by (induction xs) (auto intro!: keeps_intros)

lemma keeps_for [keeps_intros]: "(\<And>x. keeps P (f x)) \<Longrightarrow> keeps P (forS f xs)"
  by (induction xs) (auto intro!: keeps_intros)

section \<open>Runs\<close>

text \<open>What every event that may occur keeps holds after any sequence of them.\<close>

locale event_invariant =
  fixes step :: "'ev \<Rightarrow> 's \<Rightarrow> 's" and ok :: "'ev \<Rightarrow> bool" and inv :: "'s \<Rightarrow> bool"
  assumes step_inv: "inv s \<Longrightarrow> ok ev \<Longrightarrow> inv (step ev s)"
begin

lemma run_inv: "inv s \<Longrightarrow> list_all ok evs \<Longrightarrow> inv (fold step evs s)"
  by (induction evs arbitrary: s) (simp_all add: step_inv)

end

end
