(* ===== verification/Mock_Broker.thy ===== *)
theory Mock_Broker
  imports UTA_Reads Contract_Discipline State_Error
begin

text \<open>
  \<open>brokers/mock/MockBroker.ts\<close>: the in-memory exchange that stands behind demo accounts and the
  simulator.  Its record holds the object's fields; a method may throw after it has changed them.
  The price of the last fill of an order (written, never read) and the arguments and times in the log
  of calls are left out.
\<close>

section \<open>State\<close>

record mock_position =
  mp_contract :: contract
  mp_side :: side
  mp_quantity :: dec
  mp_avgCost :: dec
  mp_avgCostSource :: "cost_source option"
  mp_priceOverride :: "dec option"

record mock_order =
  mo_id :: string
  mo_contract :: contract
  mo_order :: order
  mo_status :: string
  mo_filledQuantity :: "dec option"
  mo_avgFillPrice :: "dec option"

record mock =
  mk_id :: string
  mk_positions :: "(string, mock_position) jsmap"
  mk_orders :: "(string, mock_order) jsmap"
  mk_markPrices :: "(string, dec) jsmap"
  mk_registry :: "(string, contract) jsmap"
  mk_cash :: dec
  mk_realizedPnL :: dec
  mk_nextOrderId :: nat
  mk_accountOverride :: "account_info option"
  mk_callLog :: "string list"
  mk_failRemaining :: int
  mk_failMethods :: "string list"

record account_changes =
  ac_baseCurrency :: "string option"
  ac_netLiquidation :: "string option"
  ac_totalCashValue :: "string option"
  ac_unrealizedPnL :: "string option"
  ac_realizedPnL :: "string option"
  ac_buyingPower :: "string option"
  ac_initMarginReq :: "string option"
  ac_maintMarginReq :: "string option"
  ac_dayTradesRemaining :: "int option"

definition zero_account :: account_info where
  "zero_account =
     \<lparr>ai_baseCurrency = ''USD'', ai_netLiquidation = ''0'', ai_totalCashValue = ''0'', ai_unrealizedPnL = ''0'',
      ai_realizedPnL = Some ''0'', ai_buyingPower = None, ai_initMarginReq = None, ai_maintMarginReq = None,
      ai_dayTradesRemaining = None\<rparr>"

definition set_str :: "string option \<Rightarrow> string \<Rightarrow> string" where
  "set_str v old = (case v of None \<Rightarrow> old | Some x \<Rightarrow> x)"

definition assign_account :: "account_info \<Rightarrow> account_changes \<Rightarrow> account_info" where
  "assign_account a ch =
     \<lparr>ai_baseCurrency = set_str (ac_baseCurrency ch) (ai_baseCurrency a),
      ai_netLiquidation = set_str (ac_netLiquidation ch) (ai_netLiquidation a),
      ai_totalCashValue = set_str (ac_totalCashValue ch) (ai_totalCashValue a),
      ai_unrealizedPnL = set_str (ac_unrealizedPnL ch) (ai_unrealizedPnL a),
      ai_realizedPnL = over (ai_realizedPnL a) (ac_realizedPnL ch),
      ai_buyingPower = over (ai_buyingPower a) (ac_buyingPower ch),
      ai_initMarginReq = over (ai_initMarginReq a) (ac_initMarginReq ch),
      ai_maintMarginReq = over (ai_maintMarginReq a) (ac_maintMarginReq ch),
      ai_dayTradesRemaining = over (ai_dayTradesRemaining a) (ac_dayTradesRemaining ch)\<rparr>"

definition new_mock :: "string \<Rightarrow> dec \<Rightarrow> account_changes option \<Rightarrow> mock" where
  "new_mock i cash info =
     \<lparr>mk_id = i, mk_positions = [], mk_orders = [], mk_markPrices = [], mk_registry = [], mk_cash = cash,
      mk_realizedPnL = Fin 0, mk_nextOrderId = 1, mk_accountOverride = map_option (assign_account zero_account) info,
      mk_callLog = [], mk_failRemaining = 0, mk_failMethods = []\<rparr>"

section \<open>Helpers\<close>

definition mock_error :: "mock \<Rightarrow> string \<Rightarrow> js_error" where
  "mock_error m s = PlainError (''MockBroker['' @ mk_id m @ '']: '' @ s)"

definition mock_record :: "string \<Rightarrow> (mock, unit) meth" where
  "mock_record f = updateS (\<lambda>m. m\<lparr>mk_callLog := mk_callLog m @ [f]\<rparr>)"

definition mock_checkFail :: "string \<Rightarrow> (mock, unit) meth" where
  "mock_checkFail f m =
     (let e = mock_error m (''simulated '' @ f @ '' failure'') in
      if f \<in> set (mk_failMethods m) then (Inl e, m)
      else if 0 < mk_failRemaining m then (Inl e, m\<lparr>mk_failRemaining := mk_failRemaining m - 1\<rparr>)
      else (Inr (), m))"

definition mock_native_key :: "contract \<Rightarrow> string" where
  "mock_native_key c = or_str (c_localSymbol c) (c_symbol c)"

definition mock_resolve :: "mock \<Rightarrow> string \<Rightarrow> contract" where
  "mock_resolve m key = (case jm_get (mk_registry m) key of Some c \<Rightarrow> c
     | None \<Rightarrow> new_contract\<lparr>c_symbol := key, c_localSymbol := key, c_secType := ''STK''\<rparr>)"

definition mock_remember :: "contract \<Rightarrow> mock \<Rightarrow> mock" where
  "mock_remember c m =
     (let key = mock_native_key c in
      if key = [] \<or> jm_get (mk_registry m) key \<noteq> None then m
      else m\<lparr>mk_registry := jm_set key c (mk_registry m)\<rparr>)"

definition mark_price_for :: "contract \<Rightarrow> mock \<Rightarrow> dec option" where
  "mark_price_for c m = jm_get (mk_markPrices m) (mock_native_key c)"

definition multiplierOf :: "decimal_js \<Rightarrow> contract \<Rightarrow> js_error + dec" where
  "multiplierOf D c =
     (if c_multiplier c = [] then Inr (Fin 1)
      else bindE (new_dec D (c_multiplier c)) (\<lambda>d. Inr (if d_isZero d then Fin 1 else d)))"

text \<open>A decimal field of an order, with the sentinel as absence.\<close>

definition dec_field :: "jdec option \<Rightarrow> js_error + dec" where
  "dec_field x = (case x of None \<Rightarrow> Inl TypeError | Some v \<Rightarrow> as_dec v)"

definition action_upper :: "order \<Rightarrow> js_error + string" where
  "action_upper od = (case o_action od of None \<Rightarrow> Inl TypeError | Some s \<Rightarrow> Inr (to_upper s))"

text \<open>\<open>x instanceof Decimal ? x : new Decimal(x)\<close>.\<close>

fun as_decimal :: "decimal_js \<Rightarrow> num_in \<Rightarrow> js_error + dec" where
  "as_decimal D (NDec d) = Inr d"
| "as_decimal D (NStr s) = new_dec D s"
| "as_decimal D (NNum r) = Inr (Fin r)"
| "as_decimal D NUndefined = Inl (DecimalError ''undefined'')"

section \<open>Fills\<close>

definition is_increasing :: "side \<Rightarrow> string \<Rightarrow> bool" where
  "is_increasing held sd \<longleftrightarrow> held = Long \<and> sd = ''BUY'' \<or> held = Short \<and> sd = ''SELL''"

definition reduce_position ::
  "decimal_js \<Rightarrow> string \<Rightarrow> string \<Rightarrow> dec \<Rightarrow> mock_position \<Rightarrow> (mock, unit) meth"
where
  "reduce_position D key sd qty p m =
     (let remaining = dj_minus D (mp_quantity p) qty in
      if d_lt remaining (Fin 0)
      then (Inl (mock_error m (''cannot '' @ sd @ '' '' @ dj_to_fixed D qty @ '' '' @ key @ '' '' @ em_dash @
             '' only '' @ dj_to_fixed D (mp_quantity p) @ '' held'')), m)
      else if d_isZero remaining then (Inr (), m\<lparr>mk_positions := jm_delete key (mk_positions m)\<rparr>)
      else (Inr (), m\<lparr>mk_positions := jm_set key (p\<lparr>mp_quantity := remaining\<rparr>) (mk_positions m)\<rparr>))"

definition increase_position :: "decimal_js \<Rightarrow> dec \<Rightarrow> dec \<Rightarrow> mock_position \<Rightarrow> mock_position" where
  "increase_position D qty price p =
     (let totalCost = dj_plus D (dj_times D (mp_avgCost p) (mp_quantity p)) (dj_times D price qty);
          newQty = dj_plus D (mp_quantity p) qty
      in p\<lparr>mp_quantity := newQty, mp_avgCost := dj_div D totalCost newQty\<rparr>)"

definition open_long :: "contract \<Rightarrow> dec \<Rightarrow> dec \<Rightarrow> mock_position" where
  "open_long c qty price =
     \<lparr>mp_contract = c, mp_side = Long, mp_quantity = qty, mp_avgCost = price, mp_avgCostSource = None,
      mp_priceOverride = None\<rparr>"

definition mock_applyFill :: "decimal_js \<Rightarrow> contract \<Rightarrow> string \<Rightarrow> dec \<Rightarrow> dec \<Rightarrow> (mock, unit) meth" where
  "mock_applyFill D c sd qty price m0 =
     (let key = mock_native_key c; m = mock_remember c m0 in
      case jm_get (mk_positions m) key of
        None \<Rightarrow>
          (if sd = ''SELL''
           then (Inl (mock_error m (''cannot SELL '' @ dj_to_fixed D qty @ '' '' @ key @ '' '' @ em_dash @
                  '' no existing position'')), m)
           else (Inr (), m\<lparr>mk_positions := jm_set key (open_long c qty price) (mk_positions m)\<rparr>))
      | Some p \<Rightarrow>
          (if is_increasing (mp_side p) sd
           then (Inr (), m\<lparr>mk_positions := jm_set key (increase_position D qty price p) (mk_positions m)\<rparr>)
           else reduce_position D key sd qty p m))"

text \<open>The cash of a fill.\<close>

definition pay_cash :: "decimal_js \<Rightarrow> string \<Rightarrow> dec \<Rightarrow> mock \<Rightarrow> mock" where
  "pay_cash D sd amount m =
     m\<lparr>mk_cash := if sd = ''BUY'' then dj_minus D (mk_cash m) amount else dj_plus D (mk_cash m) amount\<rparr>"

section \<open>Placing, changing and cancelling orders\<close>

definition order_reply :: "string \<Rightarrow> string \<Rightarrow> raw" where
  "order_reply i status = RawObj
     \<lparr>ro_success = True, ro_error = None, ro_orderId = Some i, ro_orderState = Some status, ro_legs = None\<rparr>"

definition order_refusal :: "string \<Rightarrow> raw" where
  "order_refusal e = RawObj
     \<lparr>ro_success = False, ro_error = Some e, ro_orderId = None, ro_orderState = None, ro_legs = None\<rparr>"

definition clone_field :: "jdec option \<Rightarrow> js_error + jdec option" where
  "clone_field x = bindE (dec_field x) (\<lambda>d. Inr (if d_equals d UNSET_DECIMAL then Some (DVal UNSET_DECIMAL) else x))"

definition cloneOrder :: "order \<Rightarrow> nat \<Rightarrow> js_error + order" where
  "cloneOrder od n =
     bindE (clone_field (o_lmtPrice od)) (\<lambda>lmt. bindE (clone_field (o_auxPrice od)) (\<lambda>aux.
       Inr (new_order\<lparr>o_action := o_action od, o_orderType := o_orderType od, o_totalQuantity := o_totalQuantity od,
         o_tif := o_tif od, o_lmtPrice := lmt, o_auxPrice := aux, o_orderId := Some (int n)\<rparr>)))"

definition order_id :: "nat \<Rightarrow> string" where
  "order_id n = ''mock-ord-'' @ nat_str n"

definition put_order :: "mock_order \<Rightarrow> mock \<Rightarrow> mock" where
  "put_order x m = m\<lparr>mk_orders := jm_set (mo_id x) x (mk_orders m)\<rparr>"

text \<open>A market order fills at once; a fill that is refused is an answer, not an exception.\<close>

definition place_market ::
  "decimal_js \<Rightarrow> contract \<Rightarrow> order \<Rightarrow> nat \<Rightarrow> string \<Rightarrow> dec \<Rightarrow> (mock, raw) meth"
where
  "place_market D c od n sd qty =
     bindS (getS (\<lambda>m. case mark_price_for c m of None \<Rightarrow> Fin 100 | Some p \<Rightarrow> p)) (\<lambda>price.
     bindS (liftS (multiplierOf D c)) (\<lambda>mlt.
     bindS (catchS (bindS (mock_applyFill D c sd qty price) (\<lambda>_. returnS None)) (\<lambda>e. returnS (Some (err_message e)))) (\<lambda>refused.
     case refused of
       Some e \<Rightarrow> returnS (order_refusal e)
     | None \<Rightarrow>
         thenS (updateS (pay_cash D sd (dj_times D (dj_times D qty price) mlt)))
         (bindS (liftS (cloneOrder od n)) (\<lambda>filled.
          thenS (updateS (put_order \<lparr>mo_id = order_id n, mo_contract = c, mo_order = filled, mo_status = ''Filled'',
              mo_filledQuantity = Some qty, mo_avgFillPrice = Some price\<rparr>))
          (returnS (order_reply (order_id n) ''Filled'')))))))"

definition place_resting :: "contract \<Rightarrow> order \<Rightarrow> nat \<Rightarrow> (mock, raw) meth" where
  "place_resting c od n =
     bindS (liftS (cloneOrder od n)) (\<lambda>pending.
     thenS (updateS (put_order \<lparr>mo_id = order_id n, mo_contract = c, mo_order = pending, mo_status = ''Submitted'',
         mo_filledQuantity = None, mo_avgFillPrice = None\<rparr>))
     (returnS (order_reply (order_id n) ''Submitted'')))"

definition order_quantity :: "order \<Rightarrow> js_error + dec" where
  "order_quantity od = bindE (dec_field (o_totalQuantity od)) (\<lambda>d. Inr (if d_equals d UNSET_DECIMAL then Fin 0 else d))"

definition next_order_number :: "(mock, nat) meth" where
  "next_order_number m = (Inr (mk_nextOrderId m), m\<lparr>mk_nextOrderId := mk_nextOrderId m + 1\<rparr>)"

definition mock_placeOrder :: "decimal_js \<Rightarrow> contract \<Rightarrow> order \<Rightarrow> (mock, raw) meth" where
  "mock_placeOrder D c od =
     thenS (mock_record ''placeOrder'')
     (bindS next_order_number (\<lambda>n.
      bindS (liftS (action_upper od)) (\<lambda>sd.
      bindS (liftS (order_quantity od)) (\<lambda>qty.
      if o_orderType od = Some ''MKT'' then place_market D c od n sd qty else place_resting c od n))))"

text \<open>\<open>if (changes.f != null && !changes.f.equals(UNSET_DECIMAL)) order.f = changes.f\<close>.\<close>

definition modify_field :: "(jdec \<Rightarrow> order \<Rightarrow> order) \<Rightarrow> jdec option \<Rightarrow> (order, unit) meth" where
  "modify_field upd x = (case x of None \<Rightarrow> returnS () | Some v \<Rightarrow>
     bindS (liftS (as_dec v)) (\<lambda>d. if d_equals d UNSET_DECIMAL then returnS () else updateS (upd v)))"

definition modify_text :: "(string \<Rightarrow> order \<Rightarrow> order) \<Rightarrow> string option \<Rightarrow> (order, unit) meth" where
  "modify_text upd x = (if truthy x then updateS (upd (the x)) else returnS ())"

definition modify_fields :: "order \<Rightarrow> (order, unit) meth" where
  "modify_fields ch =
     thenS (modify_field (\<lambda>v od. od\<lparr>o_totalQuantity := Some v\<rparr>) (o_totalQuantity ch))
     (thenS (modify_field (\<lambda>v od. od\<lparr>o_lmtPrice := Some v\<rparr>) (o_lmtPrice ch))
     (thenS (modify_field (\<lambda>v od. od\<lparr>o_auxPrice := Some v\<rparr>) (o_auxPrice ch))
     (thenS (modify_field (\<lambda>v od. od\<lparr>o_trailStopPrice := Some v\<rparr>) (o_trailStopPrice ch))
     (thenS (modify_field (\<lambda>v od. od\<lparr>o_trailingPercent := Some v\<rparr>) (o_trailingPercent ch))
     (thenS (modify_text (\<lambda>s od. od\<lparr>o_orderType := Some s\<rparr>) (o_orderType ch))
     (modify_text (\<lambda>s od. od\<lparr>o_tif := Some s\<rparr>) (o_tif ch)))))))"

definition pending_order :: "mock \<Rightarrow> string \<Rightarrow> mock_order option" where
  "pending_order m i = (case jm_get (mk_orders m) i of None \<Rightarrow> None
     | Some x \<Rightarrow> if mo_status x = ''Submitted'' then Some x else None)"

text \<open>A method on the order object that an entry of the map holds; what it changed before it threw stays.\<close>

definition on_order :: "mock_order \<Rightarrow> (order, 'a) meth \<Rightarrow> (mock, 'a) meth" where
  "on_order x f m = (case f (mo_order x) of (r, od) \<Rightarrow> (r, put_order (x\<lparr>mo_order := od\<rparr>) m))"

definition not_pending :: "string \<Rightarrow> raw" where
  "not_pending i = order_refusal (''Order '' @ i @ '' not found or not pending'')"

definition mock_modifyOrder :: "string \<Rightarrow> order \<Rightarrow> (mock, raw) meth" where
  "mock_modifyOrder i ch =
     thenS (mock_record ''modifyOrder'')
     (bindS (getS (\<lambda>m. pending_order m i)) (\<lambda>x.
      case x of
        None \<Rightarrow> returnS (not_pending i)
      | Some x \<Rightarrow> thenS (on_order x (modify_fields ch)) (returnS (order_reply i ''Submitted''))))"

definition mock_cancelOrder :: "string \<Rightarrow> (mock, raw) meth" where
  "mock_cancelOrder i =
     thenS (mock_record ''cancelOrder'')
     (bindS (getS (\<lambda>m. pending_order m i)) (\<lambda>x.
      case x of
        None \<Rightarrow> returnS (not_pending i)
      | Some x \<Rightarrow> thenS (updateS (put_order (x\<lparr>mo_status := ''Cancelled''\<rparr>))) (returnS (order_reply i ''Cancelled''))))"

definition closing_order :: "mock_position \<Rightarrow> jdec option \<Rightarrow> order" where
  "closing_order p qty = new_order
     \<lparr>o_action := Some (case mp_side p of Long \<Rightarrow> ''SELL'' | Short \<Rightarrow> ''BUY''), o_orderType := Some ''MKT'',
      o_totalQuantity := Some (case qty of Some q \<Rightarrow> q | None \<Rightarrow> DVal (mp_quantity p))\<rparr>"

definition mock_closePosition :: "decimal_js \<Rightarrow> contract \<Rightarrow> jdec option \<Rightarrow> (mock, raw) meth" where
  "mock_closePosition D c qty =
     thenS (mock_record ''closePosition'')
     (bindS (getS (\<lambda>m. jm_get (mk_positions m) (mock_native_key c))) (\<lambda>x.
      case x of
        None \<Rightarrow> returnS (order_refusal (''No open position for '' @ mock_native_key c))
      | Some p \<Rightarrow> mock_placeOrder D (mp_contract p) (closing_order p qty)))"

section \<open>Queries\<close>

definition position_price :: "mock \<Rightarrow> mock_position \<Rightarrow> dec" where
  "position_price m p = (case mp_priceOverride p of Some x \<Rightarrow> x | None \<Rightarrow>
     (case mark_price_for (mp_contract p) m of Some x \<Rightarrow> x | None \<Rightarrow> mp_avgCost p))"

definition position_values_of :: "decimal_js \<Rightarrow> mock \<Rightarrow> mock_position \<Rightarrow> js_error + string \<times> string" where
  "position_values_of D m p =
     derivePositionMath D \<lparr>pm_quantity = NDec (mp_quantity p), pm_marketPrice = NDec (position_price m p),
       pm_avgCost = NDec (mp_avgCost p), pm_multiplier = Some (or_str (c_multiplier (mp_contract p)) ''1''),
       pm_side = mp_side p\<rparr>"

text \<open>The loop over the positions: the inputs of the aggregation and the sum of the unrealized PnL.\<close>

fun account_loop ::
  "decimal_js \<Rightarrow> mock \<Rightarrow> mock_position list \<Rightarrow> aggregate_input list \<Rightarrow> dec
    \<Rightarrow> js_error + aggregate_input list \<times> dec"
where
  "account_loop D m [] xs pnl = Inr (xs, pnl)"
| "account_loop D m (p # ps) xs pnl =
     bindE (position_values_of D m p) (\<lambda>(mv, u).
     bindE (new_dec D u) (\<lambda>du.
     account_loop D m ps (xs @ [(mp_side p, NStr mv)]) (dj_plus D pnl du)))"

definition computed_account :: "decimal_js \<Rightarrow> mock \<Rightarrow> js_error + account_info" where
  "computed_account D m =
     bindE (account_loop D m (jm_values (mk_positions m)) [] (Fin 0)) (\<lambda>(xs, pnl).
     bindE (aggregateAccountFromPositions D (NDec (mk_cash m)) xs) (\<lambda>(net, _).
     Inr (zero_account\<lparr>ai_netLiquidation := dj_to_string D net, ai_totalCashValue := dj_to_string D (mk_cash m),
       ai_unrealizedPnL := dj_to_string D pnl, ai_realizedPnL := Some (dj_to_string D (mk_realizedPnL m))\<rparr>)))"

definition mock_getAccount :: "decimal_js \<Rightarrow> (mock, account_info) meth" where
  "mock_getAccount D =
     thenS (mock_record ''getAccount'')
     (thenS (mock_checkFail ''getAccount'')
     (bindS (getS (\<lambda>m. case mk_accountOverride m of Some a \<Rightarrow> Inr a | None \<Rightarrow> computed_account D m)) liftS))"

definition reported_position :: "decimal_js \<Rightarrow> mock \<Rightarrow> mock_position \<Rightarrow> js_error + dec position" where
  "reported_position D m p =
     buildPosition D
       \<lparr>bp_contract = mp_contract p, bp_currency = or_str (c_currency (mp_contract p)) ''USD'', bp_side = mp_side p,
        bp_quantity = mp_quantity p, bp_avgCost = dj_to_string D (mp_avgCost p),
        bp_marketPrice = dj_to_string D (position_price m p), bp_realizedPnL = ''0'', bp_multiplier = None,
        bp_marketValue = None, bp_unrealizedPnL = None, bp_avgCostSource = mp_avgCostSource p, bp_risk = None\<rparr>"

definition mock_getPositions :: "decimal_js \<Rightarrow> (mock, dec position list) meth" where
  "mock_getPositions D =
     thenS (mock_record ''getPositions'')
     (thenS (mock_checkFail ''getPositions'')
     (bindS (getS (\<lambda>m. mapE (reported_position D m) (jm_values (mk_positions m)))) liftS))"

text \<open>\<open>_toOpenOrder\<close> writes the executed quantity into the order object that it returns.\<close>

definition with_filled :: "mock_order \<Rightarrow> mock_order" where
  "with_filled x = (case mo_filledQuantity x of None \<Rightarrow> x
     | Some q \<Rightarrow> x\<lparr>mo_order := (mo_order x)\<lparr>o_filledQuantity := Some (DVal q)\<rparr>\<rparr>)"

definition open_order_of :: "decimal_js \<Rightarrow> mock_order \<Rightarrow> open_order" where
  "open_order_of D x =
     \<lparr>oo_contract = mo_contract x, oo_order = mo_order (with_filled x),
      oo_orderState = \<lparr>os_status = mo_status x, os_commissionAndFees = UNSET_DOUBLE, os_commissionAndFeesCurrency = []\<rparr>,
      oo_orderId = Some (mo_id x), oo_avgFillPrice = map_option (dj_to_fixed D) (mo_avgFillPrice x), oo_tpsl = None\<rparr>"

definition toOpenOrder :: "decimal_js \<Rightarrow> mock_order \<Rightarrow> (mock, open_order) meth" where
  "toOpenOrder D x = thenS (updateS (put_order (with_filled x))) (returnS (open_order_of D x))"

definition mock_getOrder :: "decimal_js \<Rightarrow> string \<Rightarrow> (mock, open_order option) meth" where
  "mock_getOrder D i =
     thenS (mock_record ''getOrder'')
     (bindS (getS (\<lambda>m. jm_get (mk_orders m) i)) (\<lambda>x.
      case x of None \<Rightarrow> returnS None | Some x \<Rightarrow> bindS (toOpenOrder D x) (\<lambda>oo. returnS (Some oo))))"

definition mock_getOrders :: "decimal_js \<Rightarrow> string list \<Rightarrow> (mock, open_order list) meth" where
  "mock_getOrders D ids =
     thenS (mock_record ''getOrders'')
     (bindS (mapS (mock_getOrder D) ids) (\<lambda>xs. returnS (List.map_filter (\<lambda>x. x) xs)))"

definition mock_getOpenOrders :: "decimal_js \<Rightarrow> (mock, open_order list) meth" where
  "mock_getOpenOrders D =
     thenS (mock_record ''getOpenOrders'')
     (bindS (getS (\<lambda>m. filter (\<lambda>x. mo_status x = ''Submitted'') (jm_values (mk_orders m)))) (mapS (toOpenOrder D)))"

definition mock_getQuote :: "decimal_js \<Rightarrow> int \<Rightarrow> contract \<Rightarrow> (mock, quote) meth" where
  "mock_getQuote D now c =
     thenS (mock_record ''getQuote'')
     (bindS (getS (\<lambda>m. case mark_price_for c m of None \<Rightarrow> Fin 100 | Some p \<Rightarrow> p)) (\<lambda>price.
      returnS \<lparr>q_contract = c, q_last = dj_to_string D price, q_bid = dj_to_string D (dj_minus D price (Fin (1 / 100))),
        q_ask = dj_to_string D (dj_plus D price (Fin (1 / 100))), q_volume = ''1000000'', q_high = None, q_low = None,
        q_timestamp = Some now\<rparr>))"

text \<open>
  The synthetic bars of \<open>getHistorical\<close>, oldest first: a gentle drift upwards from the price.  A price that
  is no finite number stays what it is in the arithmetic of JavaScript numbers.
\<close>

record mock_bar =
  mbar_timestamp :: int
  mbar_open :: string
  mbar_high :: string
  mbar_low :: string
  mbar_close :: string
  mbar_volume :: string

fun num_add :: "dec \<Rightarrow> rat \<Rightarrow> dec" where
  "num_add (Fin r) x = Fin (r + x)"
| "num_add d x = d"

fun num_string :: "decimal_js \<Rightarrow> dec \<Rightarrow> string" where
  "num_string D (Fin r) = dj_num_str D r"
| "num_string D PosInf = ''Infinity''"
| "num_string D NegInf = ''-Infinity''"
| "num_string D NotANumber = ''NaN''"

definition synthetic_bar :: "decimal_js \<Rightarrow> dec \<Rightarrow> int \<Rightarrow> nat \<Rightarrow> nat \<Rightarrow> mock_bar" where
  "synthetic_bar D base last_time n i =
     (let close = num_add base (of_nat (n - 1 - i) / 10) in
      \<lparr>mbar_timestamp = last_time - int i * 86400000, mbar_open = num_string D (num_add close (- 1 / 2)),
       mbar_high = num_string D (num_add close 1), mbar_low = num_string D (num_add close (- 1)),
       mbar_close = num_string D close, mbar_volume = ''1000''\<rparr>)"

definition mock_getHistorical ::
  "decimal_js \<Rightarrow> int \<Rightarrow> contract \<Rightarrow> nat option \<Rightarrow> int option \<Rightarrow> (mock, mock_bar list) meth"
where
  "mock_getHistorical D now c bars last_time =
     thenS (mock_record ''getHistorical'')
     (bindS (getS (\<lambda>m. case mark_price_for c m of None \<Rightarrow> Fin 100 | Some p \<Rightarrow> p)) (\<lambda>base.
      let n = (case bars of None \<Rightarrow> 30 | Some k \<Rightarrow> k); t = (case last_time of None \<Rightarrow> now | Some x \<Rightarrow> x) in
      returnS (map (synthetic_bar D base t n) (rev [0..<n]))))"

text \<open>The stubs of the contract search, the market clock and the ends of a session.\<close>

definition mock_stub_contract :: contract where
  "mock_stub_contract = new_contract\<lparr>c_aliceId := Some ''mock-paper|AAPL'', c_symbol := ''AAPL'', c_secType := ''STK'',
     c_exchange := ''MOCK'', c_currency := ''USD''\<rparr>"

definition mock_searchContracts :: "(mock, contract list) meth" where
  "mock_searchContracts = thenS (mock_record ''searchContracts'') (returnS [mock_stub_contract])"

definition mock_getContractDetails :: "(mock, contract \<times> string) meth" where
  "mock_getContractDetails = thenS (mock_record ''getContractDetails'') (returnS (mock_stub_contract, ''Mock Contract''))"

definition mock_getMarketClock :: "(mock, bool) meth" where
  "mock_getMarketClock = thenS (mock_record ''getMarketClock'') (returnS True)"

definition mock_init :: "(mock, unit) meth" where
  "mock_init = thenS (mock_record ''init'') (mock_checkFail ''init'')"

definition mock_close :: "(mock, unit) meth" where
  "mock_close = mock_record ''close''"

definition mock_resetCalls :: "mock \<Rightarrow> mock" where
  "mock_resetCalls m = m\<lparr>mk_callLog := []\<rparr>"

section \<open>The simulator's control panel: orders and prices\<close>

definition fill_error :: "string \<Rightarrow> js_error" where
  "fill_error s = PlainError (''fillOrder: qty '' @ s)"

definition fill_quantity :: "decimal_js \<Rightarrow> order \<Rightarrow> num_in option \<Rightarrow> js_error + dec" where
  "fill_quantity D od q = (case q of Some v \<Rightarrow> as_decimal D v | None \<Rightarrow> dec_field (o_totalQuantity od))"

definition fill_price :: "decimal_js \<Rightarrow> mock_order \<Rightarrow> num_in option \<Rightarrow> mock \<Rightarrow> js_error + dec" where
  "fill_price D x p m = (case p of Some v \<Rightarrow> as_decimal D v | None \<Rightarrow>
     (case mark_price_for (mo_contract x) m of Some mark \<Rightarrow> Inr mark | None \<Rightarrow>
        bindE (dec_field (o_lmtPrice (mo_order x))) (\<lambda>l. Inr (if d_equals l UNSET_DECIMAL then Fin 100 else l))))"

text \<open>The bookkeeping of a fill: total executed, its average price, what is left of the order.\<close>

definition after_fill :: "decimal_js \<Rightarrow> dec \<Rightarrow> dec \<Rightarrow> dec \<Rightarrow> mock_order \<Rightarrow> mock_order" where
  "after_fill D qty price left x =
     (let prevQty = (case mo_filledQuantity x of None \<Rightarrow> Fin 0 | Some q \<Rightarrow> q);
          prevAvg = (case mo_avgFillPrice x of None \<Rightarrow> price | Some a \<Rightarrow> a);
          newQty = dj_plus D prevQty qty;
          x1 = x\<lparr>mo_filledQuantity := Some newQty,
                 mo_avgFillPrice := Some (dj_div D (dj_plus D (dj_times D prevAvg prevQty) (dj_times D price qty)) newQty)\<rparr>
      in if d_lt qty left
         then x1\<lparr>mo_order := (mo_order x1)\<lparr>o_totalQuantity := Some (DVal (dj_minus D left qty))\<rparr>\<rparr>
         else x1\<lparr>mo_status := ''Filled''\<rparr>)"

text \<open>The checks, which come before any effect: the order, the quantity, the rest, the price, the side.\<close>

definition fill_plan ::
  "decimal_js \<Rightarrow> string \<Rightarrow> num_in option \<Rightarrow> num_in option \<Rightarrow> mock
    \<Rightarrow> js_error + mock_order \<times> dec \<times> dec \<times> dec \<times> string"
where
  "fill_plan D i priceOpt qtyOpt m =
     bindE (case pending_order m i of Some x \<Rightarrow> Inr x
       | None \<Rightarrow> Inl (mock_error m (''fillOrder '' @ em_dash @ '' '' @ i @ '' not pending''))) (\<lambda>x.
     bindE (fill_quantity D (mo_order x) qtyOpt) (\<lambda>qty.
     bindE (ensure (\<not> d_lte qty (Fin 0)) (fill_error ''must be positive'')) (\<lambda>_.
     bindE (dec_field (o_totalQuantity (mo_order x))) (\<lambda>left.
     bindE (ensure (\<not> d_gt qty left) (fill_error ''exceeds order totalQuantity'')) (\<lambda>_.
     bindE (fill_price D x priceOpt m) (\<lambda>price.
     bindE (action_upper (mo_order x)) (\<lambda>sd. Inr (x, qty, left, price, sd))))))))"

definition fill_effects :: "decimal_js \<Rightarrow> mock_order \<Rightarrow> dec \<Rightarrow> dec \<Rightarrow> dec \<Rightarrow> string \<Rightarrow> (mock, unit) meth" where
  "fill_effects D x qty left price sd =
     thenS (mock_applyFill D (mo_contract x) sd qty price)
     (bindS (liftS (multiplierOf D (mo_contract x))) (\<lambda>mlt.
      thenS (updateS (pay_cash D sd (dj_times D (dj_times D qty price) mlt)))
      (updateS (put_order (after_fill D qty price left x)))))"

definition mock_fillOrder :: "decimal_js \<Rightarrow> string \<Rightarrow> num_in option \<Rightarrow> num_in option \<Rightarrow> (mock, unit) meth" where
  "mock_fillOrder D i priceOpt qtyOpt =
     bindS (bindS (getS (fill_plan D i priceOpt qtyOpt)) liftS) (\<lambda>(x, qty, left, price, sd).
     fill_effects D x qty left price sd)"

text \<open>Whether a price sets off a pending order; the price fields are read first.\<close>

definition optional_price :: "jdec option \<Rightarrow> js_error + dec option" where
  "optional_price x = bindE (dec_field x) (\<lambda>d. Inr (if d_equals d UNSET_DECIMAL then None else Some d))"

definition crosses :: "string \<Rightarrow> string \<Rightarrow> dec option \<Rightarrow> dec option \<Rightarrow> dec \<Rightarrow> bool" where
  "crosses typ sd lmt aux price =
     (case (typ = ''LMT'', lmt, typ = ''STP'' \<or> typ = ''STP LMT'', aux) of
        (True, Some l, _, _) \<Rightarrow> if sd = ''BUY'' then d_lte price l else d_gte price l
      | (_, _, True, Some a) \<Rightarrow> if sd = ''BUY'' then d_gte price a else d_lte price a
      | _ \<Rightarrow> False)"

definition order_triggered :: "order \<Rightarrow> dec \<Rightarrow> js_error + bool" where
  "order_triggered od price =
     bindE (action_upper od) (\<lambda>sd.
     bindE (optional_price (o_lmtPrice od)) (\<lambda>lmt.
     bindE (optional_price (o_auxPrice od)) (\<lambda>aux.
     Inr (crosses (case o_orderType od of None \<Rightarrow> [] | Some t \<Rightarrow> t) sd lmt aux price))))"

definition match_one :: "decimal_js \<Rightarrow> string \<Rightarrow> dec \<Rightarrow> string \<Rightarrow> (mock, bool) meth" where
  "match_one D key price i =
     bindS (getS (\<lambda>m. pending_order m i)) (\<lambda>x.
     case x of
       None \<Rightarrow> returnS False
     | Some x \<Rightarrow>
         (if mock_native_key (mo_contract x) \<noteq> key then returnS False
          else bindS (liftS (order_triggered (mo_order x) price)) (\<lambda>hit.
            if \<not> hit then returnS False
            else thenS (mock_fillOrder D i (Some (NDec price)) None) (returnS True))))"

fun match_orders :: "decimal_js \<Rightarrow> string \<Rightarrow> dec \<Rightarrow> string list \<Rightarrow> (mock, string list) meth" where
  "match_orders D key price [] = returnS []"
| "match_orders D key price (i # is) =
     bindS (match_one D key price i) (\<lambda>hit.
     bindS (match_orders D key price is) (\<lambda>filled. returnS (if hit then i # filled else filled)))"

definition matchPendingOrders :: "decimal_js \<Rightarrow> string \<Rightarrow> dec \<Rightarrow> (mock, string list) meth" where
  "matchPendingOrders D key price = bindS (getS (\<lambda>m. map fst (mk_orders m))) (match_orders D key price)"

definition mock_setMarkPrice :: "decimal_js \<Rightarrow> string \<Rightarrow> num_in \<Rightarrow> (mock, string list) meth" where
  "mock_setMarkPrice D key price =
     bindS (liftS (as_decimal D price)) (\<lambda>p.
     thenS (updateS (\<lambda>m. m\<lparr>mk_markPrices := jm_set key p (mk_markPrices m)\<rparr>))
     (matchPendingOrders D key p))"

definition mock_tickPrice :: "decimal_js \<Rightarrow> string \<Rightarrow> rat \<Rightarrow> (mock, string list) meth" where
  "mock_tickPrice D key delta =
     bindS (getS (\<lambda>m. case jm_get (mk_markPrices m) key of Some p \<Rightarrow> Inr p
       | None \<Rightarrow> Inl (mock_error m (''tickPrice '' @ em_dash @ '' no markPrice for '' @ key @ ''; call setMarkPrice first'')))) (\<lambda>found.
     bindS (liftS found) (\<lambda>current.
     mock_setMarkPrice D key
       (NDec (dj_div D (dj_times D current (dj_plus D (Fin 100) (Fin delta))) (Fin 100)))))"

definition mock_cancelPendingOrder :: "string \<Rightarrow> (mock, unit) meth" where
  "mock_cancelPendingOrder i =
     bindS (getS (\<lambda>m. case jm_get (mk_orders m) i of Some x \<Rightarrow> Inr x
       | None \<Rightarrow> Inl (mock_error m (''order '' @ i @ '' not found'')))) (\<lambda>found.
     bindS (liftS found) (\<lambda>x. updateS (put_order (x\<lparr>mo_status := ''Cancelled''\<rparr>))))"

section \<open>The simulator's control panel: what happens outside\<close>

text \<open>\<open>Partial<Contract>\<close>, the fields that \<open>_buildContract\<close> reads.\<close>

record contract_partial =
  cp_symbol :: "string option"
  cp_secType :: "string option"
  cp_exchange :: "string option"
  cp_currency :: "string option"
  cp_localSymbol :: "string option"
  cp_lastTradeDate :: "string option"
  cp_strike :: "rat option"
  cp_right :: "string option"
  cp_multiplier :: "string option"

definition build_input :: "string \<Rightarrow> contract_partial option \<Rightarrow> build_contract_input" where
  "build_input key partial =
     (let f = (\<lambda>sel. case partial of None \<Rightarrow> None | Some x \<Rightarrow> sel x);
          strike = (case partial of None \<Rightarrow> None | Some x \<Rightarrow> cp_strike x) in
      \<lparr>bc_symbol = opt_or (f cp_symbol) key, bc_secType = opt_or (f cp_secType) ''CRYPTO'',
       bc_exchange = opt_or (f cp_exchange) ''MOCK'', bc_currency = opt_or (f cp_currency) ''USD'',
       bc_localSymbol = Some (opt_or (f cp_localSymbol) key),
       bc_lastTradeDateOrContractMonth = nonempty (f cp_lastTradeDate),
       bc_strike = (if strike = Some UNSET_DOUBLE then None else strike),
       bc_right = (case f cp_right of None \<Rightarrow> None
         | Some r \<Rightarrow> if r \<in> set [''C'', ''P'', ''CALL'', ''PUT''] then Some r else None),
       bc_multiplier = nonempty (f cp_multiplier), bc_primaryExchange = None, bc_conId = None,
       bc_tradingClass = None, bc_description = None\<rparr>)"

definition mock_buildContract :: "string \<Rightarrow> contract_partial option \<Rightarrow> (mock, contract) meth" where
  "mock_buildContract key partial =
     bindS (liftS (buildContract (build_input key partial))) (\<lambda>c. thenS (updateS (mock_remember c)) (returnS c))"

definition put_position :: "string \<Rightarrow> mock_position \<Rightarrow> mock \<Rightarrow> mock" where
  "put_position key p m = m\<lparr>mk_positions := jm_set key p (mk_positions m)\<rparr>"

definition wallet_position :: "contract \<Rightarrow> side \<Rightarrow> dec \<Rightarrow> dec \<Rightarrow> mock_position" where
  "wallet_position c sd qty price =
     \<lparr>mp_contract = c, mp_side = sd, mp_quantity = qty, mp_avgCost = price, mp_avgCostSource = Some FromWallet,
      mp_priceOverride = None\<rparr>"

definition mock_externalDeposit :: "decimal_js \<Rightarrow> string \<Rightarrow> num_in \<Rightarrow> contract_partial option \<Rightarrow> (mock, unit) meth" where
  "mock_externalDeposit D key quantity partial =
     bindS (liftS (as_decimal D quantity)) (\<lambda>qty.
     thenS (guardS (\<not> d_lte qty (Fin 0)) (PlainError ''externalDeposit: quantity must be positive''))
     (bindS (getS (\<lambda>m. jm_get (mk_positions m) key)) (\<lambda>existing.
      case existing of
        Some p \<Rightarrow> updateS (put_position key
          (p\<lparr>mp_quantity := dj_plus D (mp_quantity p) qty, mp_avgCostSource := Some FromWallet\<rparr>))
      | None \<Rightarrow>
          bindS (getS (\<lambda>m. case jm_get (mk_markPrices m) key of None \<Rightarrow> Fin 0 | Some x \<Rightarrow> x)) (\<lambda>mark.
          bindS (mock_buildContract key partial) (\<lambda>c.
          updateS (put_position key (wallet_position c Long qty mark)))))))"

definition mock_externalWithdraw :: "decimal_js \<Rightarrow> string \<Rightarrow> num_in \<Rightarrow> (mock, unit) meth" where
  "mock_externalWithdraw D key quantity =
     bindS (liftS (as_decimal D quantity)) (\<lambda>qty.
     bindS (getS (\<lambda>m. case jm_get (mk_positions m) key of Some p \<Rightarrow> Inr p
       | None \<Rightarrow> Inl (mock_error m (''no position at '' @ key)))) (\<lambda>found.
     bindS (liftS found) (\<lambda>p.
     let left = dj_minus D (mp_quantity p) qty in
     if d_lte left (Fin 0) then updateS (\<lambda>m. m\<lparr>mk_positions := jm_delete key (mk_positions m)\<rparr>)
     else updateS (put_position key (p\<lparr>mp_quantity := left, mp_avgCostSource := Some FromWallet\<rparr>)))))"

datatype trade_side = TBuy | TSell

fun trade_side_str :: "trade_side \<Rightarrow> string" where
  "trade_side_str TBuy = ''BUY''"
| "trade_side_str TSell = ''SELL''"

definition mark_wallet :: "string \<Rightarrow> mock \<Rightarrow> mock" where
  "mark_wallet key m = (case jm_get (mk_positions m) key of None \<Rightarrow> m
     | Some p \<Rightarrow> put_position key (p\<lparr>mp_avgCostSource := Some FromWallet\<rparr>) m)"

definition trade_position ::
  "decimal_js \<Rightarrow> string \<Rightarrow> trade_side \<Rightarrow> dec \<Rightarrow> dec \<Rightarrow> contract_partial option \<Rightarrow> mock_position option \<Rightarrow> (mock, unit) meth"
where
  "trade_position D key sd qty price partial existing =
     (case existing of
        None \<Rightarrow> bindS (mock_buildContract key partial) (\<lambda>c.
          updateS (put_position key (wallet_position c (case sd of TBuy \<Rightarrow> Long | TSell \<Rightarrow> Short) qty price)))
      | Some p \<Rightarrow> thenS (mock_applyFill D (mp_contract p) (trade_side_str sd) qty price) (updateS (mark_wallet key)))"

text \<open>The multiplier of the cash flow is read from the position after the trade.\<close>

definition trade_multiplier :: "decimal_js \<Rightarrow> string \<Rightarrow> mock \<Rightarrow> js_error + dec" where
  "trade_multiplier D key m = (case jm_get (mk_positions m) key of None \<Rightarrow> Inr (Fin 1)
     | Some p \<Rightarrow> multiplierOf D (mp_contract p))"

definition trade_cash :: "decimal_js \<Rightarrow> string \<Rightarrow> trade_side \<Rightarrow> dec \<Rightarrow> dec \<Rightarrow> (mock, unit) meth" where
  "trade_cash D key sd qty price =
     bindS (bindS (getS (trade_multiplier D key)) liftS) (\<lambda>mlt.
     updateS (pay_cash D (trade_side_str sd) (dj_times D (dj_times D qty price) mlt)))"

definition mock_externalTrade ::
  "decimal_js \<Rightarrow> string \<Rightarrow> trade_side \<Rightarrow> num_in \<Rightarrow> num_in \<Rightarrow> contract_partial option \<Rightarrow> (mock, unit) meth"
where
  "mock_externalTrade D key sd quantity price0 partial =
     bindS (liftS (as_decimal D quantity)) (\<lambda>qty.
     bindS (liftS (as_decimal D price0)) (\<lambda>price.
     thenS (guardS (\<not> d_lte qty (Fin 0)) (PlainError ''externalTrade: quantity must be positive''))
     (bindS (getS (\<lambda>m. jm_get (mk_positions m) key)) (\<lambda>existing.
      thenS (trade_position D key sd qty price partial existing) (trade_cash D key sd qty price)))))"

section \<open>The simulator's view and the test helpers\<close>

record sim_position =
  sv_nativeKey :: string
  sv_symbol :: string
  sv_localSymbol :: "string option"
  sv_secType :: "string option"
  sv_side :: side
  sv_quantity :: string
  sv_avgCost :: string
  sv_avgCostSource :: "cost_source option"
  sv_expiry :: "string option"
  sv_strike :: "rat option"
  sv_right :: "string option"
  sv_multiplier :: "string option"

record sim_order =
  sw_orderId :: string
  sw_nativeKey :: string
  sw_symbol :: string
  sw_action :: "string option"
  sw_orderType :: "string option"
  sw_totalQuantity :: string
  sw_lmtPrice :: "string option"
  sw_auxPrice :: "string option"

record sim_state =
  ss_cash :: string
  ss_markPrices :: "(string \<times> string) list"
  ss_positions :: "sim_position list"
  ss_pendingOrders :: "sim_order list"

definition sim_position_of :: "decimal_js \<Rightarrow> string \<times> mock_position \<Rightarrow> sim_position" where
  "sim_position_of D kp = (let p = snd kp; c = mp_contract p in
     \<lparr>sv_nativeKey = fst kp, sv_symbol = c_symbol c, sv_localSymbol = or_undef (c_localSymbol c),
      sv_secType = or_undef (c_secType c), sv_side = mp_side p, sv_quantity = dj_to_string D (mp_quantity p),
      sv_avgCost = dj_to_string D (mp_avgCost p), sv_avgCostSource = mp_avgCostSource p,
      sv_expiry = or_undef (c_lastTradeDateOrContractMonth c),
      sv_strike = (if c_strike c = UNSET_DOUBLE then None else Some (c_strike c)),
      sv_right = or_undef (c_right c), sv_multiplier = or_undef (c_multiplier c)\<rparr>)"

definition sim_order_of :: "decimal_js \<Rightarrow> mock_order \<Rightarrow> js_error + sim_order" where
  "sim_order_of D x = (let od = mo_order x in
     bindE (case o_totalQuantity od of None \<Rightarrow> Inl TypeError | Some q \<Rightarrow> Inr (jd_string D q)) (\<lambda>total.
     bindE (optional_price (o_lmtPrice od)) (\<lambda>lmt.
     bindE (optional_price (o_auxPrice od)) (\<lambda>aux.
     Inr \<lparr>sw_orderId = mo_id x, sw_nativeKey = mock_native_key (mo_contract x), sw_symbol = c_symbol (mo_contract x),
          sw_action = o_action od, sw_orderType = o_orderType od, sw_totalQuantity = total,
          sw_lmtPrice = map_option (dj_to_string D) lmt, sw_auxPrice = map_option (dj_to_string D) aux\<rparr>))))"

definition getSimulatorState :: "decimal_js \<Rightarrow> mock \<Rightarrow> js_error + sim_state" where
  "getSimulatorState D m =
     bindE (mapE (sim_order_of D) (filter (\<lambda>x. mo_status x = ''Submitted'') (jm_values (mk_orders m)))) (\<lambda>orders.
     Inr \<lparr>ss_cash = dj_to_string D (mk_cash m), ss_markPrices = map (\<lambda>(k, v). (k, dj_to_string D v)) (mk_markPrices m),
          ss_positions = map (sim_position_of D) (mk_positions m), ss_pendingOrders = orders\<rparr>)"

definition injected_key :: "contract \<Rightarrow> string" where
  "injected_key c = or_str (mock_native_key c) (opt_or (c_aliceId c) ''unknown'')"

definition inject_position :: "decimal_js \<Rightarrow> dec position \<Rightarrow> (mock, unit) meth" where
  "inject_position D p =
     bindS (liftS (new_dec D (p_avgCost p))) (\<lambda>avg.
     bindS (liftS (new_dec D (p_marketPrice p))) (\<lambda>price.
     updateS (put_position (injected_key (p_contract p))
       \<lparr>mp_contract = p_contract p, mp_side = p_side p, mp_quantity = p_quantity p, mp_avgCost = avg,
        mp_avgCostSource = p_avgCostSource p, mp_priceOverride = Some price\<rparr>)))"

definition mock_setPositions :: "decimal_js \<Rightarrow> dec position list \<Rightarrow> (mock, unit) meth" where
  "mock_setPositions D ps = thenS (updateS (\<lambda>m. m\<lparr>mk_positions := []\<rparr>)) (forS (inject_position D) ps)"

definition inject_order :: "open_order \<Rightarrow> mock \<Rightarrow> mock" where
  "inject_order x m =
     (let named = (case o_orderId (oo_order x) of None \<Rightarrow> False | Some n \<Rightarrow> n \<noteq> 0);
          i = (if named then int_str (the (o_orderId (oo_order x))) else ''injected-'' @ nat_str (mk_nextOrderId m)) in
      put_order \<lparr>mo_id = i, mo_contract = oo_contract x, mo_order = oo_order x, mo_status = os_status (oo_orderState x),
          mo_filledQuantity = None, mo_avgFillPrice = None\<rparr>
        (if named then m else m\<lparr>mk_nextOrderId := mk_nextOrderId m + 1\<rparr>))"

definition mock_setOrders :: "open_order list \<Rightarrow> mock \<Rightarrow> mock" where
  "mock_setOrders xs m = fold inject_order xs (m\<lparr>mk_orders := []\<rparr>)"

definition mock_setFailMode :: "int \<Rightarrow> mock \<Rightarrow> mock" where
  "mock_setFailMode n m = m\<lparr>mk_failRemaining := n\<rparr>"

definition mock_setFailMethod :: "string \<Rightarrow> mock \<Rightarrow> mock" where
  "mock_setFailMethod f m = m\<lparr>mk_failMethods := uniq (mk_failMethods m @ [f])\<rparr>"

definition mock_clearFailMethod :: "string \<Rightarrow> mock \<Rightarrow> mock" where
  "mock_clearFailMethod f m = m\<lparr>mk_failMethods := filter (\<lambda>g. g \<noteq> f) (mk_failMethods m)\<rparr>"

definition mock_setAccountInfo :: "account_changes \<Rightarrow> mock \<Rightarrow> mock" where
  "mock_setAccountInfo ch m =
     (let base = assign_account (case mk_accountOverride m of None \<Rightarrow> zero_account | Some a \<Rightarrow> a) ch in
      m\<lparr>mk_accountOverride := Some (base\<lparr>ai_baseCurrency := or_str (ai_baseCurrency base) ''USD''\<rparr>)\<rparr>)"

section \<open>The broker that the account sees\<close>

text \<open>
  Every method takes its effect on the exchange; \<open>resolveNativeKey\<close> is a lookup, here in the registry
  of a given moment.  The clock of the quotes is a parameter.
\<close>

definition mock_broker :: "decimal_js \<Rightarrow> (mock \<Rightarrow> int) \<Rightarrow> (string \<Rightarrow> js_error + contract) \<Rightarrow> mock uta_broker" where
  "mock_broker D now resolve =
     \<lparr>ib_placeOrder = (\<lambda>c od t. mock_placeOrder D c od), ib_modifyOrder = mock_modifyOrder,
      ib_cancelOrder = (\<lambda>i oc. mock_cancelOrder i), ib_closePosition = mock_closePosition D,
      ib_getAccount = (\<lambda>sub. mock_getAccount D), ib_getPositions = (\<lambda>sub. mock_getPositions D),
      ib_getOrders = mock_getOrders D, ib_getOrder = (\<lambda>i hint. mock_getOrder D i),
      ib_getOpenOrders = Some (mock_getOpenOrders D), ib_getQuote = (\<lambda>c m. mock_getQuote D (now m) c m),
      ib_getNativeKey = mock_native_key, ib_resolveNativeKey = resolve,
      ib_listSubAccounts = None, ib_subAccountForContract = None\<rparr>"

end
