(* ===== verification/Mock_Market.thy ===== *)
theory Mock_Market
  imports Mock_Broker
begin

text \<open>
  What the in-memory exchange guarantees: the invariant of its book over every sequence of calls,
  conservation of money by fills, completeness of the matching of resting orders.
\<close>

section \<open>Sequences of calls\<close>

datatype mock_event =
    MPlace contract order
  | MModify string order
  | MCancel string
  | MClose contract "jdec option"
  | MGetAccount
  | MGetPositions
  | MGetOrders "string list"
  | MGetOpenOrders
  | MGetQuote int contract
  | MPrice string num_in
  | MTick string rat
  | MFill string "num_in option" "num_in option"
  | MCancelPending string
  | MDeposit string num_in "contract_partial option"
  | MWithdraw string num_in
  | MTrade string trade_side num_in num_in "contract_partial option"
  | MFailMode int
  | MAccountInfo account_changes

fun mock_step :: "decimal_js \<Rightarrow> mock_event \<Rightarrow> mock \<Rightarrow> mock" where
  "mock_step D (MPlace c od) m = snd (mock_placeOrder D c od m)"
| "mock_step D (MModify i ch) m = snd (mock_modifyOrder i ch m)"
| "mock_step D (MCancel i) m = snd (mock_cancelOrder i m)"
| "mock_step D (MClose c q) m = snd (mock_closePosition D c q m)"
| "mock_step D MGetAccount m = snd (mock_getAccount D m)"
| "mock_step D MGetPositions m = snd (mock_getPositions D m)"
| "mock_step D (MGetOrders ids) m = snd (mock_getOrders D ids m)"
| "mock_step D MGetOpenOrders m = snd (mock_getOpenOrders D m)"
| "mock_step D (MGetQuote t c) m = snd (mock_getQuote D t c m)"
| "mock_step D (MPrice k v) m = snd (mock_setMarkPrice D k v m)"
| "mock_step D (MTick k r) m = snd (mock_tickPrice D k r m)"
| "mock_step D (MFill i p q) m = snd (mock_fillOrder D i p q m)"
| "mock_step D (MCancelPending i) m = snd (mock_cancelPendingOrder i m)"
| "mock_step D (MDeposit k q c) m = snd (mock_externalDeposit D k q c m)"
| "mock_step D (MWithdraw k q) m = snd (mock_externalWithdraw D k q m)"
| "mock_step D (MTrade k sd q p c) m = snd (mock_externalTrade D k sd q p c m)"
| "mock_step D (MFailMode n) m = mock_setFailMode n m"
| "mock_step D (MAccountInfo ch) m = mock_setAccountInfo ch m"

definition mock_run :: "decimal_js \<Rightarrow> mock_event list \<Rightarrow> mock \<Rightarrow> mock" where
  "mock_run D = fold (mock_step D)"

section \<open>The invariant of the book\<close>

text \<open>
  Every position is held under the native key of its contract, with a positive quantity and a finite
  cost; a pending order has a positive rest; \<open>km\<close> is the contract multiplier of each native key.
\<close>

definition has_multiplier :: "decimal_js \<Rightarrow> (string \<Rightarrow> rat) \<Rightarrow> contract \<Rightarrow> bool" where
  "has_multiplier D km c \<longleftrightarrow> multiplierOf D c = Inr (Fin (km (mock_native_key c)))"

definition pos_fin :: "dec \<Rightarrow> bool" where
  "pos_fin d \<longleftrightarrow> d_isFinite d \<and> d_gt d (Fin 0)"

lemma pos_fin_Fin [simp]: "pos_fin (Fin q) \<longleftrightarrow> 0 < q"
  by (simp add: pos_fin_def)

lemma pos_finE:
  assumes "pos_fin d"
  obtains q where "d = Fin q" "0 < q"
  using assms by (cases d) (auto simp: pos_fin_def)

definition nonneg_fin :: "dec \<Rightarrow> bool" where
  "nonneg_fin d \<longleftrightarrow> d_isFinite d \<and> \<not> d_lt d (Fin 0)"

lemma nonneg_fin_Fin [simp]: "nonneg_fin (Fin q) \<longleftrightarrow> 0 \<le> q"
  by (simp add: nonneg_fin_def not_less)

definition position_ok :: "decimal_js \<Rightarrow> (string \<Rightarrow> rat) \<Rightarrow> string \<Rightarrow> mock_position \<Rightarrow> bool" where
  "position_ok D km k p \<longleftrightarrow> mock_native_key (mp_contract p) = k \<and> has_multiplier D km (mp_contract p) \<and>
     pos_fin (mp_quantity p) \<and> d_isFinite (mp_avgCost p) \<and> mp_priceOverride p = None"

definition sided :: "order \<Rightarrow> bool" where
  "sided od \<longleftrightarrow> action_upper od = Inr ''BUY'' \<or> action_upper od = Inr ''SELL''"

definition quantity_ok :: "jdec option \<Rightarrow> bool" where
  "quantity_ok x \<longleftrightarrow> (case x of Some (DVal d) \<Rightarrow> pos_fin d | _ \<Rightarrow> False)"

definition price_ok :: "jdec option \<Rightarrow> bool" where
  "price_ok x \<longleftrightarrow> (case x of Some (DVal d) \<Rightarrow> d_isFinite d | _ \<Rightarrow> True)"

definition order_ok :: "decimal_js \<Rightarrow> (string \<Rightarrow> rat) \<Rightarrow> string \<Rightarrow> mock_order \<Rightarrow> bool" where
  "order_ok D km i x \<longleftrightarrow> mo_id x = i \<and> has_multiplier D km (mo_contract x) \<and> sided (mo_order x) \<and>
     quantity_ok (o_totalQuantity (mo_order x)) \<and> price_ok (o_lmtPrice (mo_order x)) \<and>
     (case mo_filledQuantity x of None \<Rightarrow> True | Some q \<Rightarrow> nonneg_fin q) \<and>
     (case mo_avgFillPrice x of None \<Rightarrow> True | Some a \<Rightarrow> d_isFinite a)"

definition book_ok :: "decimal_js \<Rightarrow> (string \<Rightarrow> rat) \<Rightarrow> mock \<Rightarrow> bool" where
  "book_ok D km m \<longleftrightarrow> jm_ok (mk_positions m) \<and> jm_ok (mk_orders m) \<and>
     (\<forall>k p. jm_get (mk_positions m) k = Some p \<longrightarrow> position_ok D km k p) \<and>
     (\<forall>i x. jm_get (mk_orders m) i = Some x \<longrightarrow> order_ok D km i x) \<and>
     (\<forall>k v. jm_get (mk_markPrices m) k = Some v \<longrightarrow> d_isFinite v) \<and> d_isFinite (mk_cash m)"

lemma book_ok_new: "book_ok D km (new_mock i (Fin c) info)"
  by (simp add: book_ok_def new_mock_def)

text \<open>The fields of the book; everything else does not matter to it.\<close>

lemma book_ok_cong:
  "mk_positions m' = mk_positions m \<Longrightarrow> mk_orders m' = mk_orders m \<Longrightarrow> mk_markPrices m' = mk_markPrices m \<Longrightarrow>
     mk_cash m' = mk_cash m \<Longrightarrow> book_ok D km m' \<longleftrightarrow> book_ok D km m"
  by (simp add: book_ok_def)

lemma book_ok_update [simp]:
  "book_ok D km (m\<lparr>mk_callLog := l\<rparr>) = book_ok D km m"
  "book_ok D km (m\<lparr>mk_nextOrderId := n\<rparr>) = book_ok D km m"
  "book_ok D km (m\<lparr>mk_failRemaining := r\<rparr>) = book_ok D km m"
  "book_ok D km (m\<lparr>mk_registry := g\<rparr>) = book_ok D km m"
  "book_ok D km (m\<lparr>mk_accountOverride := a\<rparr>) = book_ok D km m"
  by (simp_all add: book_ok_def)

lemma book_ok_remember [simp]: "book_ok D km (mock_remember c m) = book_ok D km m"
  by (simp add: mock_remember_def Let_def)

lemma remember_sel [simp]:
  "mk_positions (mock_remember c m) = mk_positions m" "mk_orders (mock_remember c m) = mk_orders m"
  "mk_markPrices (mock_remember c m) = mk_markPrices m" "mk_cash (mock_remember c m) = mk_cash m"
  "mk_id (mock_remember c m) = mk_id m"
  by (simp_all add: mock_remember_def Let_def)

lemma book_ok_position:
  "book_ok D km m \<Longrightarrow> position_ok D km k p \<Longrightarrow> book_ok D km (m\<lparr>mk_positions := jm_set k p (mk_positions m)\<rparr>)"
  by (auto simp: book_ok_def jm.lookup_set jm.invar_set)

lemma book_ok_delete:
  "book_ok D km m \<Longrightarrow> book_ok D km (m\<lparr>mk_positions := jm_delete k (mk_positions m)\<rparr>)"
  by (auto simp: book_ok_def jm.lookup_delete jm.invar_delete)

lemma book_ok_put_order:
  "book_ok D km m \<Longrightarrow> order_ok D km (mo_id x) x \<Longrightarrow> book_ok D km (put_order x m)"
  by (auto simp: book_ok_def put_order_def jm.lookup_set jm.invar_set)

lemma book_ok_mark:
  "book_ok D km m \<Longrightarrow> d_isFinite v \<Longrightarrow> book_ok D km (m\<lparr>mk_markPrices := jm_set k v (mk_markPrices m)\<rparr>)"
  by (auto simp: book_ok_def jm.lookup_set)

lemma book_ok_cash: "book_ok D km m \<Longrightarrow> d_isFinite v \<Longrightarrow> book_ok D km (m\<lparr>mk_cash := v\<rparr>)"
  by (auto simp: book_ok_def)

section \<open>Fills keep the book\<close>

lemma applyFill_none:
  "jm_get (mk_positions m) (mock_native_key c) = None \<Longrightarrow> sd \<noteq> ''SELL'' \<Longrightarrow>
     mock_applyFill D c sd qty price m =
       (Inr (), (mock_remember c m)\<lparr>mk_positions := jm_set (mock_native_key c) (open_long c qty price) (mk_positions m)\<rparr>)"
  by (simp add: mock_applyFill_def Let_def)

lemma applyFill_some:
  "jm_get (mk_positions m) (mock_native_key c) = Some p \<Longrightarrow>
     mock_applyFill D c sd qty price m =
       (if is_increasing (mp_side p) sd
        then (Inr (), (mock_remember c m)\<lparr>mk_positions := jm_set (mock_native_key c) (increase_position D qty price p) (mk_positions m)\<rparr>)
        else reduce_position D (mock_native_key c) sd qty p (mock_remember c m))"
  by (simp add: mock_applyFill_def Let_def)

lemma applyFill_no_position:
  "jm_get (mk_positions m) (mock_native_key c) = None \<Longrightarrow>
     snd (mock_applyFill D c ''SELL'' qty price m) = mock_remember c m"
  by (simp add: mock_applyFill_def Let_def)

lemma applyFill_sel:
  "mk_orders (snd (mock_applyFill D c sd qty price m)) = mk_orders m"
  "mk_markPrices (snd (mock_applyFill D c sd qty price m)) = mk_markPrices m"
  "mk_cash (snd (mock_applyFill D c sd qty price m)) = mk_cash m"
  by (simp_all add: mock_applyFill_def reduce_position_def Let_def split: option.splits)

text \<open>A fill of a positive quantity; of zero, when there is a position.\<close>

definition fillable :: "mock \<Rightarrow> contract \<Rightarrow> rat \<Rightarrow> bool" where
  "fillable m c q \<longleftrightarrow> 0 < q \<or> q = 0 \<and> jm_get (mk_positions m) (mock_native_key c) \<noteq> None"

lemma applyFill_book:
  assumes D: "decimal_laws D rnd" and ok: "book_ok D km m" and c: "has_multiplier D km c" and q: "fillable m c q"
  shows "book_ok D km (snd (mock_applyFill D c sd (Fin q) (Fin price) m))"
proof (cases "jm_get (mk_positions m) (mock_native_key c)")
  case None
  then have "0 < q" using q by (simp add: fillable_def)
  then have "position_ok D km (mock_native_key c) (open_long c (Fin q) (Fin price))"
    using c by (simp add: position_ok_def open_long_def)
  then have "book_ok D km ((mock_remember c m)\<lparr>mk_positions :=
      jm_set (mock_native_key c) (open_long c (Fin q) (Fin price)) (mk_positions (mock_remember c m))\<rparr>)"
    using ok by (intro book_ok_position) simp_all
  then show ?thesis using None ok by (cases "sd = ''SELL''") (simp_all add: applyFill_none applyFill_no_position)
next
  case (Some p)
  then have p: "position_ok D km (mock_native_key c) p" using ok by (simp add: book_ok_def)
  then obtain h where h: "mp_quantity p = Fin h" "0 < h" by (auto simp: position_ok_def elim: pos_finE)
  obtain a where a: "mp_avgCost p = Fin a" using p by (auto simp: position_ok_def elim: d_isFiniteE)
  have q0: "0 \<le> q" using q by (auto simp: fillable_def)
  let ?m = "mock_remember c m"
  have m: "book_ok D km ?m" using ok by simp
  note laws = decimal_laws.plus_Fin [OF D] decimal_laws.minus_Fin [OF D] decimal_laws.times_Fin [OF D]
    decimal_laws.div_Fin [OF D]
  show ?thesis
  proof (cases "is_increasing (mp_side p) sd")
    case True
    have "0 < rnd (h + q)" using h q0 by (simp add: decimal_laws.rnd_pos_iff [OF D])
    then have "position_ok D km (mock_native_key c) (increase_position D (Fin q) (Fin price) p)"
      using p by (simp add: position_ok_def increase_position_def Let_def h a laws)
    from book_ok_position [OF m this] True Some show ?thesis by (simp add: applyFill_some)
  next
    case False
    have "position_ok D km (mock_native_key c) (p\<lparr>mp_quantity := Fin (rnd (h - q))\<rparr>)" if "0 < rnd (h - q)"
      using p that by (simp add: position_ok_def)
    then show ?thesis using False Some m book_ok_delete [OF m]
      by (auto simp: applyFill_some reduce_position_def Let_def h laws
          intro!: book_ok_position [OF m, unfolded remember_sel])
  qed
qed

lemma pay_cash_book:
  assumes "decimal_laws D rnd" "book_ok D km m"
  shows "book_ok D km (pay_cash D sd (Fin x) m)"
  using assms book_ok_cash [OF assms(2)]
  by (auto simp: pay_cash_def book_ok_def decimal_laws.plus_Fin decimal_laws.minus_Fin elim!: d_isFiniteE)

section \<open>Placing and closing keep the book\<close>

lemma order_quantity_ok:
  "order_quantity od = Inr (Fin q) \<Longrightarrow> 0 < q \<Longrightarrow> quantity_ok (o_totalQuantity od)"
  by (cases "o_totalQuantity od"; cases "the (o_totalQuantity od)")
     (auto simp: order_quantity_def dec_field_def quantity_ok_def split: if_splits)

lemma cloneOrder_sel:
  "cloneOrder od n = Inr od' \<Longrightarrow> o_action od' = o_action od \<and> o_totalQuantity od' = o_totalQuantity od \<and>
     o_orderType od' = o_orderType od"
  by (auto simp: cloneOrder_def bindE_eq_Inr)

lemma cloneOrder_price:
  "cloneOrder od n = Inr od' \<Longrightarrow> price_ok (o_lmtPrice od) \<Longrightarrow> price_ok (o_lmtPrice od')"
  by (auto simp: cloneOrder_def bindE_eq_Inr clone_field_def price_ok_def UNSET_DECIMAL_def split: if_splits)

lemma sided_cong: "o_action od' = o_action od \<Longrightarrow> sided od' = sided od"
  by (simp add: sided_def action_upper_def)

lemma mark_price_finite: "book_ok D km m \<Longrightarrow> mark_price_for c m = Some v \<Longrightarrow> d_isFinite v"
  by (simp add: book_ok_def mark_price_for_def)

lemma record_book [keeps_intros]: "keeps (book_ok D km) (mock_record f)"
  unfolding mock_record_def by (rule keeps_update) simp

lemma checkFail_book [keeps_intros]: "keeps (book_ok D km) (mock_checkFail f)"
  by (simp add: keeps_def mock_checkFail_def Let_def)

lemma number_book [keeps_intros]: "keeps (book_ok D km) next_order_number"
  by (simp add: keeps_def next_order_number_def)

text \<open>A market order; with any price at which it fills.\<close>

lemma place_market_book:
  assumes D: "decimal_laws D rnd" and ok: "book_ok D km m" and c: "has_multiplier D km c"
    and q: "fillable m c q" and sd: "sided od" and tq: "quantity_ok (o_totalQuantity od)" and lp: "price_ok (o_lmtPrice od)"
  shows "book_ok D km (snd (place_market D c od n sd' (Fin q) m))"
proof -
  define price where "price = (case mark_price_for c m of None \<Rightarrow> Fin 100 | Some p \<Rightarrow> p)"
  have "d_isFinite price" using ok by (auto simp: price_def mark_price_finite split: option.splits)
  then obtain r where r: "price = Fin r" by (auto elim: d_isFiniteE)
  obtain x m1 where f: "mock_applyFill D c sd' (Fin q) (Fin r) m = (x, m1)" by (metis prod.exhaust)
  have m1: "book_ok D km m1" using applyFill_book [OF D ok c q, of sd' r] f by simp
  have m2: "book_ok D km (pay_cash D sd' (Fin y) m1)" for y by (rule pay_cash_book [OF D m1])
  have m3: "book_ok D km (put_order \<lparr>mo_id = order_id n, mo_contract = c, mo_order = od', mo_status = ''Filled'',
      mo_filledQuantity = Some (Fin q), mo_avgFillPrice = Some (Fin r)\<rparr> (pay_cash D sd' (Fin y) m1))"
    if "cloneOrder od n = Inr od'" for od' y
    using cloneOrder_sel [OF that] cloneOrder_price [OF that lp] c sd tq q sided_cong [of od' od]
    by (intro book_ok_put_order m2) (auto simp: order_ok_def fillable_def)
  show ?thesis
    using f m1 m2 m3 c
    by (auto simp: place_market_def price_def [symmetric] r has_multiplier_def bindS_def thenS_def catchS_def
        decimal_laws.times_Fin [OF D] split: sum.splits option.splits prod.splits)
qed

lemma place_resting_book:
  assumes ok: "book_ok D km m" and c: "has_multiplier D km c" and sd: "sided od"
    and tq: "quantity_ok (o_totalQuantity od)" and lp: "price_ok (o_lmtPrice od)"
  shows "book_ok D km (snd (place_resting c od n m))"
proof (cases "cloneOrder od n")
  case (Inl e)
  then show ?thesis using ok by (simp add: place_resting_def)
next
  case (Inr od')
  then have "order_ok D km (order_id n) \<lparr>mo_id = order_id n, mo_contract = c, mo_order = od', mo_status = ''Submitted'',
      mo_filledQuantity = None, mo_avgFillPrice = None\<rparr>"
    using cloneOrder_sel [OF Inr] cloneOrder_price [OF Inr lp] c sd tq sided_cong [of od' od] by (simp add: order_ok_def)
  then show ?thesis using Inr book_ok_put_order [OF ok] by (simp add: place_resting_def thenS_def)
qed

text \<open>An order that may be placed: a side, a positive quantity; the contract has its multiplier.\<close>

definition placeable :: "decimal_js \<Rightarrow> (string \<Rightarrow> rat) \<Rightarrow> contract \<Rightarrow> order \<Rightarrow> bool" where
  "placeable D km c od \<longleftrightarrow> has_multiplier D km c \<and> sided od \<and> quantity_ok (o_totalQuantity od) \<and>
     price_ok (o_lmtPrice od)"

lemma quantity_okE:
  assumes "quantity_ok x"
  obtains q where "x = Some (DVal (Fin q))" "0 < q"
  using assms by (auto simp: quantity_ok_def elim!: pos_finE split: option.splits jdec.splits)

lemma order_quantity_val:
  "quantity_ok (o_totalQuantity od) \<Longrightarrow> \<exists>q. order_quantity od = Inr (Fin q) \<and> 0 \<le> q \<and>
     (q = 0 \<longrightarrow> o_totalQuantity od = Some (DVal UNSET_DECIMAL))"
  by (erule quantity_okE) (auto simp: order_quantity_def dec_field_def UNSET_DECIMAL_def)

lemma sided_action: "sided od \<Longrightarrow> \<exists>sd. action_upper od = Inr sd \<and> (sd = ''BUY'' \<or> sd = ''SELL'')"
  by (auto simp: sided_def)

text \<open>The state in which an order is placed, after the call was recorded and numbered.\<close>

definition numbered :: "mock \<Rightarrow> mock" where
  "numbered m = m\<lparr>mk_callLog := mk_callLog m @ [''placeOrder''], mk_nextOrderId := mk_nextOrderId m + 1\<rparr>"

lemma numbered_sel [simp]:
  "mk_positions (numbered m) = mk_positions m" "mk_orders (numbered m) = mk_orders m"
  "mk_markPrices (numbered m) = mk_markPrices m" "mk_cash (numbered m) = mk_cash m"
  "mk_registry (numbered m) = mk_registry m"
  by (simp_all add: numbered_def)

lemma mock_placeOrder_eq:
  "action_upper od = Inr sd \<Longrightarrow> order_quantity od = Inr qty \<Longrightarrow>
     mock_placeOrder D c od m =
       (if o_orderType od = Some ''MKT'' then place_market D c od (mk_nextOrderId m) sd qty (numbered m)
        else place_resting c od (mk_nextOrderId m) (numbered m))"
  by (simp add: mock_placeOrder_def thenS_def mock_record_def next_order_number_def bindS_def numbered_def)

lemma placeOrder_book:
  assumes D: "decimal_laws D rnd" and ok: "book_ok D km m" and p: "placeable D km c od"
    and u: "o_totalQuantity od \<noteq> Some (DVal UNSET_DECIMAL) \<or> jm_get (mk_positions m) (mock_native_key c) \<noteq> None"
  shows "book_ok D km (snd (mock_placeOrder D c od m))"
proof -
  have p': "has_multiplier D km c" "sided od" "quantity_ok (o_totalQuantity od)" "price_ok (o_lmtPrice od)"
    using p by (simp_all add: placeable_def)
  obtain sd where sd: "action_upper od = Inr sd" using sided_action [OF p'(2)] by blast
  obtain q where q: "order_quantity od = Inr (Fin q)" "0 \<le> q"
    "q = 0 \<longrightarrow> o_totalQuantity od = Some (DVal UNSET_DECIMAL)" using order_quantity_val [OF p'(3)] by blast
  have "book_ok D km (numbered m)" using ok by (simp add: book_ok_cong [of "numbered m" m])
  moreover have "fillable (numbered m) c q" using q u by (auto simp: fillable_def)
  ultimately show ?thesis
    using place_market_book [OF D _ p'(1) _ p'(2,3,4)] place_resting_book [OF _ p'] by (simp add: mock_placeOrder_eq [OF sd q(1)])
qed

lemma closing_order_placeable:
  assumes "position_ok D km k p" "case qty of None \<Rightarrow> True | Some x \<Rightarrow> quantity_ok (Some x)"
  shows "placeable D km (mp_contract p) (closing_order p qty)"
  using assms
  by (auto simp: placeable_def position_ok_def closing_order_def sided_def action_upper_def to_upper_def upper_char_def
      quantity_ok_def price_ok_def new_order_def UNSET_DECIMAL_def split: option.splits side.splits)

lemma closePosition_book:
  assumes D: "decimal_laws D rnd" and ok: "book_ok D km m"
    and qty: "case qty of None \<Rightarrow> True | Some x \<Rightarrow> quantity_ok (Some x)"
  shows "book_ok D km (snd (mock_closePosition D c qty m))"
proof (cases "jm_get (mk_positions m) (mock_native_key c)")
  case None
  then show ?thesis using ok by (simp add: mock_closePosition_def thenS_def mock_record_def)
next
  case (Some p)
  let ?m = "m\<lparr>mk_callLog := mk_callLog m @ [''closePosition'']\<rparr>"
  have p: "position_ok D km (mock_native_key c) p" using ok Some by (simp add: book_ok_def)
  then have "jm_get (mk_positions ?m) (mock_native_key (mp_contract p)) \<noteq> None" using Some by (simp add: position_ok_def)
  then have "book_ok D km (snd (mock_placeOrder D (mp_contract p) (closing_order p qty) ?m))"
    using ok by (intro placeOrder_book [OF D _ closing_order_placeable [OF p qty]]) simp_all
  then show ?thesis using Some by (simp add: mock_closePosition_def thenS_def mock_record_def)
qed

section \<open>Changing, cancelling and filling keep the book\<close>

definition changes_ok :: "order \<Rightarrow> bool" where
  "changes_ok ch \<longleftrightarrow> (case o_totalQuantity ch of Some (DVal d) \<Rightarrow> pos_fin d | _ \<Rightarrow> True) \<and> price_ok (o_lmtPrice ch)"

lemma modify_field_keeps:
  "(\<And>d od. x = Some (DVal d) \<Longrightarrow> P od \<Longrightarrow> P (upd (DVal d) od)) \<Longrightarrow> keeps P (modify_field upd x)"
  by (cases x; cases "the x") (auto simp: modify_field_def keeps_def bindS_def)

lemma modify_text_keeps: "(\<And>s od. P od \<Longrightarrow> P (upd s od)) \<Longrightarrow> keeps P (modify_text upd x)"
  by (simp add: modify_text_def keeps_def)

lemma modify_fields_keeps:
  assumes "changes_ok ch"
  shows "keeps (\<lambda>od. o_action od = a \<and> quantity_ok (o_totalQuantity od) \<and> price_ok (o_lmtPrice od)) (modify_fields ch)"
  unfolding modify_fields_def
  by (intro keeps_then modify_field_keeps modify_text_keeps)
     (use assms in \<open>simp_all add: changes_ok_def quantity_ok_def price_ok_def\<close>)

lemma pending_callLog [simp]: "pending_order (m\<lparr>mk_callLog := l\<rparr>) i = pending_order m i"
  by (simp add: pending_order_def)

lemma pending_order_Some:
  "pending_order m i = Some x \<longleftrightarrow> jm_get (mk_orders m) i = Some x \<and> mo_status x = ''Submitted''"
  by (auto simp: pending_order_def split: option.splits if_splits)

lemma book_ok_order: "book_ok D km m \<Longrightarrow> jm_get (mk_orders m) i = Some x \<Longrightarrow> order_ok D km i x"
  by (simp add: book_ok_def)

lemma book_ok_lookup: "book_ok D km m \<Longrightarrow> jm_get (mk_positions m) k = Some p \<Longrightarrow> position_ok D km k p"
  by (simp add: book_ok_def)

lemma order_ok_status [simp]: "order_ok D km i (x\<lparr>mo_status := s\<rparr>) = order_ok D km i x"
  by (simp add: order_ok_def)

lemma modifyOrder_book:
  assumes ok: "book_ok D km m" and ch: "changes_ok ch"
  shows "book_ok D km (snd (mock_modifyOrder i ch m))"
proof (cases "pending_order m i")
  case None
  then show ?thesis using ok by (simp add: mock_modifyOrder_def thenS_def mock_record_def)
next
  case (Some x)
  let ?m = "m\<lparr>mk_callLog := mk_callLog m @ [''modifyOrder'']\<rparr>"
  have x: "order_ok D km i x" using Some book_ok_order [OF ok] by (simp add: pending_order_Some)
  obtain r od where f: "modify_fields ch (mo_order x) = (r, od)" by (metis prod.exhaust)
  have "o_action od = o_action (mo_order x) \<and> quantity_ok (o_totalQuantity od) \<and> price_ok (o_lmtPrice od)"
    using keepsD [OF modify_fields_keeps [OF ch] _ f, of "o_action (mo_order x)"] x by (simp add: order_ok_def)
  then have "order_ok D km i (x\<lparr>mo_order := od\<rparr>)" using x sided_cong [of od "mo_order x"] by (simp add: order_ok_def)
  then have "book_ok D km (put_order (x\<lparr>mo_order := od\<rparr>) ?m)"
    using ok x by (intro book_ok_put_order) (simp_all add: order_ok_def)
  then show ?thesis
    using f Some by (cases r) (simp_all add: mock_modifyOrder_def thenS_def mock_record_def on_order_def bindS_def)
qed

lemma set_status_book:
  "book_ok D km m \<Longrightarrow> jm_get (mk_orders m) i = Some x \<Longrightarrow> book_ok D km (put_order (x\<lparr>mo_status := s\<rparr>) m)"
  using book_ok_order [of D km m i x] by (intro book_ok_put_order) (auto simp: order_ok_def)

lemma cancelOrder_book: "book_ok D km m \<Longrightarrow> book_ok D km (snd (mock_cancelOrder i m))"
  by (auto simp: mock_cancelOrder_def thenS_def mock_record_def bindS_def pending_order_Some intro!: set_status_book split: option.splits)

lemma cancelPending_book: "book_ok D km m \<Longrightarrow> book_ok D km (snd (mock_cancelPendingOrder i m))"
  by (auto simp: mock_cancelPendingOrder_def bindS_def pending_order_Some intro!: set_status_book split: option.splits)

text \<open>An optional number of the caller, when it denotes something finite or throws.\<close>

definition number_ok :: "decimal_js \<Rightarrow> num_in \<Rightarrow> bool" where
  "number_ok D v \<longleftrightarrow> (case as_decimal D v of Inl e \<Rightarrow> True | Inr d \<Rightarrow> d_isFinite d)"

definition opt_number_ok :: "decimal_js \<Rightarrow> num_in option \<Rightarrow> bool" where
  "opt_number_ok D v \<longleftrightarrow> (case v of None \<Rightarrow> True | Some x \<Rightarrow> number_ok D x)"

lemma number_okE:
  assumes "number_ok D v" "as_decimal D v = Inr d"
  obtains r where "d = Fin r"
  using assms by (auto simp: number_ok_def elim: d_isFiniteE)

lemma fillOrder_plan:
  "fill_plan D i po qo m = Inr (x, qty, left, price, sd) \<Longrightarrow>
     mock_fillOrder D i po qo m = fill_effects D x qty left price sd m"
  "fill_plan D i po qo m = Inl e \<Longrightarrow> mock_fillOrder D i po qo m = (Inl e, m)"
  by (simp_all add: mock_fillOrder_def bindS_def)

lemma fill_planE:
  assumes "fill_plan D i po qo m = Inr (x, qty, left, price, sd)"
  obtains "pending_order m i = Some x" "fill_quantity D (mo_order x) qo = Inr qty" "\<not> d_lte qty (Fin 0)"
    "dec_field (o_totalQuantity (mo_order x)) = Inr left" "\<not> d_gt qty left" "fill_price D x po m = Inr price"
    "action_upper (mo_order x) = Inr sd"
  using assms by (auto simp: fill_plan_def bindE_eq_Inr split: option.splits)

text \<open>The plan of a fill of a good book is made of finite numbers.\<close>

lemma fill_plan_finite:
  assumes ok: "book_ok D km m" and n: "opt_number_ok D po" "opt_number_ok D qo"
    and p: "fill_plan D i po qo m = Inr (x, qty, left, price, sd)"
  shows "\<exists>q l r. qty = Fin q \<and> left = Fin l \<and> price = Fin r \<and> 0 < q \<and> q \<le> l \<and> order_ok D km i x"
proof -
  from p obtain f: "pending_order m i = Some x" "fill_quantity D (mo_order x) qo = Inr qty" "\<not> d_lte qty (Fin 0)"
    "dec_field (o_totalQuantity (mo_order x)) = Inr left" "\<not> d_gt qty left" "fill_price D x po m = Inr price"
    by (rule fill_planE)
  have x: "order_ok D km i x" using f(1) book_ok_order [OF ok] by (simp add: pending_order_Some)
  then obtain l where l: "left = Fin l" "o_totalQuantity (mo_order x) = Some (DVal (Fin l))"
    using f(4) by (auto simp: order_ok_def dec_field_def elim!: quantity_okE)
  have "d_isFinite qty" using n(2) f(2) l
    by (auto simp: fill_quantity_def opt_number_ok_def dec_field_def split: option.splits elim: number_okE)
  then obtain q where q: "qty = Fin q" by (auto elim: d_isFiniteE)
  have "d_isFinite price"
  proof (cases po)
    case (Some v)
    then show ?thesis using n(1) f(6) by (auto simp: fill_price_def opt_number_ok_def elim: number_okE)
  next
    case None
    show ?thesis
    proof (cases "mark_price_for (mo_contract x) m")
      case (Some w)
      then show ?thesis using None f(6) mark_price_finite [OF ok Some] by (simp add: fill_price_def)
    next
      case no_mark: None
      show ?thesis using None no_mark f(6) x
        by (cases "o_lmtPrice (mo_order x)"; cases "the (o_lmtPrice (mo_order x))")
           (auto simp: fill_price_def order_ok_def price_ok_def dec_field_def split: if_splits)
    qed
  qed
  then show ?thesis using q l f(3,5) x by (auto elim!: d_isFiniteE)
qed

lemma after_fill_sel [simp]:
  "mo_id (after_fill D qty price left x) = mo_id x" "mo_contract (after_fill D qty price left x) = mo_contract x"
  "o_action (mo_order (after_fill D qty price left x)) = o_action (mo_order x)"
  "o_lmtPrice (mo_order (after_fill D qty price left x)) = o_lmtPrice (mo_order x)"
  "o_auxPrice (mo_order (after_fill D qty price left x)) = o_auxPrice (mo_order x)"
  "o_orderType (mo_order (after_fill D qty price left x)) = o_orderType (mo_order x)"
  by (simp_all add: after_fill_def Let_def)

lemma after_fill_ok:
  assumes D: "decimal_laws D rnd" and x: "order_ok D km i x" and q: "0 < q" "q \<le> l"
  shows "order_ok D km i (after_fill D (Fin q) (Fin r) (Fin l) x)"
proof -
  note laws = decimal_laws.plus_Fin [OF D] decimal_laws.minus_Fin [OF D] decimal_laws.times_Fin [OF D]
    decimal_laws.div_Fin [OF D]
  obtain pq where pq: "0 \<le> pq" "(case mo_filledQuantity x of None \<Rightarrow> Fin 0 | Some q \<Rightarrow> q) = Fin pq"
    using x by (cases "mo_filledQuantity x"; cases "the (mo_filledQuantity x)") (auto simp: order_ok_def nonneg_fin_def)
  obtain pa where pa: "(case mo_avgFillPrice x of None \<Rightarrow> Fin r | Some a \<Rightarrow> a) = Fin pa"
    using x by (cases "mo_avgFillPrice x") (auto simp: order_ok_def elim!: d_isFiniteE)
  have new: "0 < rnd (pq + q)" using pq(1) q(1) by (simp add: decimal_laws.rnd_pos_iff [OF D])
  have left: "0 < rnd (l - q)" if "q < l" using that by (simp add: decimal_laws.rnd_pos_iff [OF D])
  have "o_totalQuantity (mo_order (after_fill D (Fin q) (Fin r) (Fin l) x)) =
      (if q < l then Some (DVal (Fin (rnd (l - q)))) else o_totalQuantity (mo_order x))"
    by (simp add: after_fill_def Let_def laws)
  moreover have "mo_filledQuantity (after_fill D (Fin q) (Fin r) (Fin l) x) = Some (Fin (rnd (pq + q)))"
    "\<exists>a. mo_avgFillPrice (after_fill D (Fin q) (Fin r) (Fin l) x) = Some (Fin a)"
    using new by (simp_all add: after_fill_def Let_def laws pq(2) pa)
  ultimately show ?thesis using x new left sided_cong [of "mo_order (after_fill D (Fin q) (Fin r) (Fin l) x)" "mo_order x"]
    by (auto simp: order_ok_def quantity_ok_def)
qed

lemma fill_effects_eq:
  "mock_applyFill D (mo_contract x) sd qty price m = (Inr (), m1) \<Longrightarrow> multiplierOf D (mo_contract x) = Inr mlt \<Longrightarrow>
     fill_effects D x qty left price sd m =
       (Inr (), put_order (after_fill D qty price left x) (pay_cash D sd (dj_times D (dj_times D qty price) mlt) m1))"
  "mock_applyFill D (mo_contract x) sd qty price m = (Inl e, m1) \<Longrightarrow> fill_effects D x qty left price sd m = (Inl e, m1)"
  by (simp_all add: fill_effects_def thenS_def)

lemma fill_effects_book:
  assumes D: "decimal_laws D rnd" and ok: "book_ok D km m" and x: "order_ok D km i x" and q: "0 < q" "q \<le> l"
  shows "book_ok D km (snd (fill_effects D x (Fin q) (Fin l) (Fin r) sd m))"
proof -
  have c: "has_multiplier D km (mo_contract x)" "mo_id x = i" using x by (simp_all add: order_ok_def)
  obtain a m1 where f: "mock_applyFill D (mo_contract x) sd (Fin q) (Fin r) m = (a, m1)" by (metis prod.exhaust)
  have m1: "book_ok D km m1" using applyFill_book [OF D ok c(1), of q sd r] f q(1) by (simp add: fillable_def)
  have "book_ok D km (put_order (after_fill D (Fin q) (Fin r) (Fin l) x) (pay_cash D sd (Fin y) m1))" for y
    using after_fill_ok [OF D x q] c(2) by (intro book_ok_put_order pay_cash_book [OF D m1]) simp
  then show ?thesis using f m1 c(1) fill_effects_eq [of D x sd "Fin q" "Fin r" m]
    by (cases a) (simp_all add: has_multiplier_def decimal_laws.times_Fin [OF D])
qed

lemma fillOrder_book:
  assumes D: "decimal_laws D rnd" and ok: "book_ok D km m" and n: "opt_number_ok D po" "opt_number_ok D qo"
  shows "book_ok D km (snd (mock_fillOrder D i po qo m))"
proof (cases "fill_plan D i po qo m")
  case (Inl e)
  then show ?thesis using ok by (simp add: fillOrder_plan)
next
  case (Inr w)
  obtain x qty left price sd where w: "w = (x, qty, left, price, sd)" by (metis prod.exhaust)
  from fill_plan_finite [OF ok n Inr [unfolded w]] show ?thesis
    using fill_effects_book [OF D ok, of i x _ _ _ sd] by (auto simp: fillOrder_plan(1) [OF Inr [unfolded w]])
qed

section \<open>Prices and outside events keep the book\<close>

lemma opt_number_Fin [simp]: "opt_number_ok D None" "opt_number_ok D (Some (NDec (Fin r)))"
  by (simp_all add: opt_number_ok_def number_ok_def)

lemma match_one_book [keeps_intros]:
  assumes "decimal_laws D rnd"
  shows "keeps (book_ok D km) (match_one D key (Fin r) i)"
  unfolding match_one_def
  by (intro keeps_intros) (simp_all add: keeps_def fillOrder_book [OF assms])

lemma match_orders_book:
  assumes "decimal_laws D rnd"
  shows "keeps (book_ok D km) (match_orders D key (Fin r) ids)"
proof (induction ids)
  case Nil
  show ?case unfolding match_orders.simps by (rule keeps_intros)
next
  case (Cons i ids)
  show ?case unfolding match_orders.simps by (intro keeps_intros match_one_book [OF assms] Cons.IH)
qed

lemma setMarkPrice_book:
  assumes D: "decimal_laws D rnd" and ok: "book_ok D km m" and n: "number_ok D v"
  shows "book_ok D km (snd (mock_setMarkPrice D key v m))"
proof (cases "as_decimal D v")
  case (Inl e)
  then show ?thesis using ok by (simp add: mock_setMarkPrice_def)
next
  case (Inr d)
  then obtain r where d: "d = Fin r" using n by (rule_tac number_okE)
  have "book_ok D km (m\<lparr>mk_markPrices := jm_set key (Fin r) (mk_markPrices m)\<rparr>)" using book_ok_mark [OF ok] by simp
  from match_orders_book [OF D, unfolded keeps_def, rule_format, OF this] show ?thesis
    using Inr by (simp add: mock_setMarkPrice_def d thenS_def matchPendingOrders_def)
qed

lemma tickPrice_book:
  assumes D: "decimal_laws D rnd" and ok: "book_ok D km m"
  shows "book_ok D km (snd (mock_tickPrice D key delta m))"
proof (cases "jm_get (mk_markPrices m) key")
  case None
  then show ?thesis using ok by (simp add: mock_tickPrice_def)
next
  case (Some p)
  then have "d_isFinite p" using ok by (simp add: book_ok_def)
  then obtain r where "p = Fin r" by (rule d_isFiniteE)
  then show ?thesis using Some setMarkPrice_book [OF D ok]
    by (simp add: mock_tickPrice_def number_ok_def decimal_laws.plus_Fin [OF D] decimal_laws.times_Fin [OF D]
        decimal_laws.div_Fin [OF D])
qed

text \<open>A contract that the panel builds, when it belongs under the key it is used with.\<close>

definition partial_ok :: "decimal_js \<Rightarrow> (string \<Rightarrow> rat) \<Rightarrow> string \<Rightarrow> contract_partial option \<Rightarrow> bool" where
  "partial_ok D km key c \<longleftrightarrow> (case buildContract (build_input key c) of Inl e \<Rightarrow> True
     | Inr b \<Rightarrow> mock_native_key b = key \<and> has_multiplier D km b)"

lemma put_position_book:
  "book_ok D km m \<Longrightarrow> position_ok D km key p \<Longrightarrow> book_ok D km (put_position key p m)"
  by (simp add: put_position_def book_ok_position)

lemma wallet_position_ok:
  "mock_native_key c = key \<Longrightarrow> has_multiplier D km c \<Longrightarrow> 0 < q \<Longrightarrow> d_isFinite price \<Longrightarrow>
     position_ok D km key (wallet_position c sd (Fin q) price)"
  by (simp add: position_ok_def wallet_position_def)

lemma position_ok_source [simp]:
  "position_ok D km key (p\<lparr>mp_avgCostSource := s\<rparr>) = position_ok D km key p"
  by (simp add: position_ok_def)

lemma deposit_book:
  assumes D: "decimal_laws D rnd" and ok: "book_ok D km m" and n: "number_ok D v" and c: "partial_ok D km key pc"
  shows "book_ok D km (snd (mock_externalDeposit D key v pc m))"
proof (cases "as_decimal D v")
  case (Inl e)
  then show ?thesis using ok by (simp add: mock_externalDeposit_def)
next
  case (Inr d)
  then obtain q where d: "d = Fin q" using n by (rule_tac number_okE)
  show ?thesis
  proof (cases "jm_get (mk_positions m) key")
    case (Some p)
    then have p: "position_ok D km key p" using ok by (simp add: book_ok_def)
    then obtain h where h: "mp_quantity p = Fin h" "0 < h" by (auto simp: position_ok_def elim: pos_finE)
    have "position_ok D km key (p\<lparr>mp_quantity := Fin (rnd (h + q)), mp_avgCostSource := Some FromWallet\<rparr>)" if "0 < q"
      using p that h by (simp add: position_ok_def decimal_laws.rnd_pos_iff [OF D])
    then show ?thesis using Inr d Some h ok put_position_book [OF ok]
      by (simp add: mock_externalDeposit_def thenS_def bindS_def decimal_laws.plus_Fin [OF D])
  next
    case None
    have "d_isFinite (case jm_get (mk_markPrices m) key of None \<Rightarrow> Fin 0 | Some x \<Rightarrow> x)"
      using ok by (auto simp: book_ok_def split: option.splits)
    then show ?thesis using Inr d None ok c
      by (auto simp: mock_externalDeposit_def mock_buildContract_def thenS_def bindS_def partial_ok_def
          split: sum.splits intro!: put_position_book wallet_position_ok)
  qed
qed

lemma withdraw_book:
  assumes D: "decimal_laws D rnd" and ok: "book_ok D km m" and n: "number_ok D v"
  shows "book_ok D km (snd (mock_externalWithdraw D key v m))"
proof (cases "as_decimal D v")
  case (Inl e)
  then show ?thesis using ok by (simp add: mock_externalWithdraw_def)
next
  case (Inr d)
  then obtain q where d: "d = Fin q" using n by (rule_tac number_okE)
  show ?thesis
  proof (cases "jm_get (mk_positions m) key")
    case None
    then show ?thesis using Inr ok by (simp add: mock_externalWithdraw_def bindS_def)
  next
    case (Some p)
    then have p: "position_ok D km key p" using ok by (simp add: book_ok_def)
    then obtain h where h: "mp_quantity p = Fin h" "0 < h" by (auto simp: position_ok_def elim: pos_finE)
    have "position_ok D km key (p\<lparr>mp_quantity := Fin (rnd (h - q)), mp_avgCostSource := Some FromWallet\<rparr>)"
      if "0 < rnd (h - q)" using p that by (simp add: position_ok_def)
    then show ?thesis using Inr d Some h ok
      by (auto simp: mock_externalWithdraw_def bindS_def Let_def decimal_laws.minus_Fin [OF D] not_le
          intro!: put_position_book book_ok_delete)
  qed
qed

lemma mark_wallet_book: "book_ok D km m \<Longrightarrow> book_ok D km (mark_wallet key m)"
  using book_ok_lookup [of D km m key]
  by (auto simp: mark_wallet_def intro!: put_position_book split: option.splits)

lemma applyFill_result_book:
  "decimal_laws D rnd \<Longrightarrow> book_ok D km m \<Longrightarrow> has_multiplier D km c \<Longrightarrow> 0 < q \<Longrightarrow>
     mock_applyFill D c sd (Fin q) (Fin r) m = (a, m') \<Longrightarrow> book_ok D km m'"
  using applyFill_book [of D rnd km m c q sd r] by (simp add: fillable_def)

lemma trade_position_book:
  assumes D: "decimal_laws D rnd" and ok: "book_ok D km m" and q: "0 < q" and c: "partial_ok D km key pc"
  shows "book_ok D km (snd (trade_position D key sd (Fin q) (Fin r) pc (jm_get (mk_positions m) key) m))"
proof (cases "jm_get (mk_positions m) key")
  case None
  then show ?thesis using q ok c
    by (auto simp: trade_position_def mock_buildContract_def thenS_def bindS_def partial_ok_def
        split: sum.splits intro!: put_position_book wallet_position_ok)
next
  case (Some p)
  then have p: "has_multiplier D km (mp_contract p)" using book_ok_lookup [OF ok] by (simp add: position_ok_def)
  obtain a m1 where f: "mock_applyFill D (mp_contract p) (trade_side_str sd) (Fin q) (Fin r) m = (a, m1)"
    by (metis prod.exhaust)
  have m1: "book_ok D km m1" by (rule applyFill_result_book [OF D ok p q f])
  from mark_wallet_book [OF m1] m1 show ?thesis
    using Some f by (cases a) (simp_all add: trade_position_def thenS_def)
qed

lemma trade_cash_book:
  assumes D: "decimal_laws D rnd" and ok: "book_ok D km m"
  shows "book_ok D km (snd (trade_cash D key sd (Fin q) (Fin r) m))"
  using book_ok_lookup [OF ok, of key] pay_cash_book [OF D ok]
  by (cases "jm_get (mk_positions m) key")
     (simp_all add: trade_cash_def trade_multiplier_def position_ok_def has_multiplier_def decimal_laws.times_Fin [OF D])

lemma externalTrade_eq:
  "as_decimal D v = Inr qty \<Longrightarrow> as_decimal D w = Inr price \<Longrightarrow>
     mock_externalTrade D key sd v w pc m =
       (if d_lte qty (Fin 0) then (Inl (PlainError ''externalTrade: quantity must be positive''), m)
        else thenS (trade_position D key sd qty price pc (jm_get (mk_positions m) key)) (trade_cash D key sd qty price) m)"
  by (simp add: mock_externalTrade_def thenS_def bindS_def)

lemma trade_book:
  assumes D: "decimal_laws D rnd" and ok: "book_ok D km m" and n: "number_ok D v" "number_ok D w"
    and c: "partial_ok D km key pc"
  shows "book_ok D km (snd (mock_externalTrade D key sd v w pc m))"
proof -
  consider e where "as_decimal D v = Inl e" | e qty where "as_decimal D v = Inr qty" "as_decimal D w = Inl e"
    | q r where "as_decimal D v = Inr (Fin q)" "as_decimal D w = Inr (Fin r)"
    using n by (cases "as_decimal D v"; cases "as_decimal D w") (auto elim!: number_okE)
  then show ?thesis
  proof cases
    case (3 q r)
    obtain a m1 where f: "trade_position D key sd (Fin q) (Fin r) pc (jm_get (mk_positions m) key) m = (a, m1)"
      by (metis prod.exhaust)
    show ?thesis
    proof (cases "0 < q")
      case True
      then have "book_ok D km m1" using trade_position_book [OF D ok True c, of sd r] f by simp
      from trade_cash_book [OF D this] this show ?thesis
        using True f by (cases a) (simp_all add: externalTrade_eq [OF 3] thenS_def)
    qed (use ok in \<open>simp add: externalTrade_eq [OF 3]\<close>)
  qed (use ok in \<open>simp_all add: mock_externalTrade_def\<close>)
qed

section \<open>Reads keep the book\<close>

lemma order_ok_filled [simp]: "order_ok D km i (with_filled x) = order_ok D km i x"
  by (auto simp: order_ok_def with_filled_def sided_def action_upper_def split: option.splits)

lemma with_filled_sel [simp]:
  "mo_id (with_filled x) = mo_id x" "mo_status (with_filled x) = mo_status x" "mo_contract (with_filled x) = mo_contract x"
  "mo_filledQuantity (with_filled x) = mo_filledQuantity x" "mo_avgFillPrice (with_filled x) = mo_avgFillPrice x"
  "o_totalQuantity (mo_order (with_filled x)) = o_totalQuantity (mo_order x)"
  "with_filled (with_filled x) = with_filled x"
  by (simp_all add: with_filled_def split: option.splits)

lemma getOrder_book: "keeps (book_ok D km) (mock_getOrder D i)"
proof -
  have "book_ok D km (snd (mock_getOrder D i m))" if ok: "book_ok D km m" for m
  proof (cases "jm_get (mk_orders m) i")
    case None
    then show ?thesis using ok by (simp add: mock_getOrder_def thenS_def mock_record_def bindS_def)
  next
    case (Some x)
    then have "order_ok D km i x" using book_ok_order [OF ok] by simp
    then have "book_ok D km (put_order (with_filled x) (m\<lparr>mk_callLog := mk_callLog m @ [''getOrder'']\<rparr>))"
      using ok by (intro book_ok_put_order) (auto simp: order_ok_def [of D km i])
    then show ?thesis using Some by (simp add: mock_getOrder_def thenS_def mock_record_def bindS_def toOpenOrder_def)
  qed
  then show ?thesis by (simp add: keeps_def)
qed

lemma getOrders_book: "book_ok D km m \<Longrightarrow> book_ok D km (snd (mock_getOrders D ids m))"
proof -
  have "keeps (book_ok D km) (mock_getOrders D ids)"
    unfolding mock_getOrders_def by (intro keeps_intros getOrder_book)
  then show "book_ok D km m \<Longrightarrow> book_ok D km (snd (mock_getOrders D ids m))" by (simp add: keeps_def)
qed

text \<open>The open orders are converted one after the other; a conversion does not touch the others.\<close>

lemma mapS_keeps_on:
  "(\<And>x. x \<in> set xs \<Longrightarrow> keeps P (f x)) \<Longrightarrow> keeps P (mapS f xs)"
proof (induction xs)
  case Nil
  show ?case unfolding mapS.simps by (rule keeps_intros)
next
  case (Cons x xs)
  show ?case unfolding mapS.simps by (intro keeps_bind Cons.IH keeps_block) (simp_all add: Cons.prems)
qed

lemma getOpenOrders_book: "book_ok D km m \<Longrightarrow> book_ok D km (snd (mock_getOpenOrders D m))"
proof -
  assume ok: "book_ok D km m"
  let ?xs = "filter (\<lambda>x. mo_status x = ''Submitted'') (jm_values (mk_orders m))"
  have x: "order_ok D km (mo_id x) x" if "x \<in> set (jm_values (mk_orders m))" for x
    using that ok by (auto simp: book_ok_def jm_values_def jm_ok_def jm_get_def order_ok_def dest: map_of_is_SomeI)
  have "keeps (book_ok D km) (mapS (toOpenOrder D) ?xs)"
    by (rule mapS_keeps_on) (simp add: toOpenOrder_def thenS_def keeps_def book_ok_put_order x)
  then show ?thesis using ok
    by (simp add: keeps_def mock_getOpenOrders_def thenS_def mock_record_def)
qed

lemma reads_book:
  "keeps (book_ok D km) (mock_getAccount D)" "keeps (book_ok D km) (mock_getPositions D)"
  "keeps (book_ok D km) (mock_getQuote D t c)"
  unfolding mock_getAccount_def mock_getPositions_def mock_getQuote_def
  by (intro keeps_intros; simp add: keeps_def)+

section \<open>Every sequence of calls keeps the book\<close>

fun event_ok :: "decimal_js \<Rightarrow> (string \<Rightarrow> rat) \<Rightarrow> mock_event \<Rightarrow> bool" where
  "event_ok D km (MPlace c od) = (placeable D km c od \<and> o_totalQuantity od \<noteq> Some (DVal UNSET_DECIMAL))"
| "event_ok D km (MModify i ch) = changes_ok ch"
| "event_ok D km (MClose c q) = (case q of None \<Rightarrow> True | Some x \<Rightarrow> quantity_ok (Some x))"
| "event_ok D km (MPrice k v) = number_ok D v"
| "event_ok D km (MFill i p q) = (opt_number_ok D p \<and> opt_number_ok D q)"
| "event_ok D km (MDeposit k q c) = (number_ok D q \<and> partial_ok D km k c)"
| "event_ok D km (MWithdraw k q) = number_ok D q"
| "event_ok D km (MTrade k sd q p c) = (number_ok D q \<and> number_ok D p \<and> partial_ok D km k c)"
| "event_ok D km _ = True"

lemma mock_step_book:
  assumes D: "decimal_laws D rnd" and ok: "book_ok D km m" and ev: "event_ok D km ev"
  shows "book_ok D km (mock_step D ev m)"
proof (cases ev)
  case (MPlace c od)
  then show ?thesis using placeOrder_book [OF D ok] ev by simp
next
  case (MFailMode n)
  then show ?thesis using ok by (simp add: mock_setFailMode_def)
next
  case (MAccountInfo ch)
  then show ?thesis using ok by (simp add: mock_setAccountInfo_def Let_def)
qed (use ok ev modifyOrder_book [OF ok] cancelOrder_book [OF ok] closePosition_book [OF D ok] getOrders_book [OF ok]
    getOpenOrders_book [OF ok] reads_book [unfolded keeps_def] setMarkPrice_book [OF D ok] tickPrice_book [OF D ok]
    fillOrder_book [OF D ok] cancelPending_book [OF ok] deposit_book [OF D ok] withdraw_book [OF D ok] trade_book [OF D ok]
    in simp_all)

interpretation mock_book: event_invariant "mock_step D" "event_ok D km" "\<lambda>m. decimal_laws D rnd \<longrightarrow> book_ok D km m"
  by unfold_locales (simp add: mock_step_book)

text \<open>C25: the exchange's book stays sound under sensible calls.  Sensible (\<open>event_ok\<close>) means: the
  quantities and prices that a caller gives are finite numbers or no numbers at all; a new order says
  \<open>BUY\<close> or \<open>SELL\<close> and has a positive quantity, and a change or a close that names a quantity names a
  positive one; a limit price, if there is one, is finite; contracts of one native key have one finite
  multiplier; and a deposit or outside trade builds a contract whose native key is the key it is given
  (the code does not check this).  After any such calls in any order (orders, changes, cancellations,
  closes, reads, price moves, manual fills of any size, transfers and outside trades of any size),
  whether they return or throw, every position is held under its instrument's key with a positive
  quantity and a finite cost, every order under its own id with a positive rest, and the cash is a
  finite number: no sale, withdrawal or fill overdraws what it is taken from.\<close>

theorem exchange_book_sound:
  assumes "decimal_laws D rnd" and "list_all (event_ok D km) evs"
  shows "(\<forall>k p. jm_get (mk_positions (mock_run D evs (new_mock i (Fin c) info))) k = Some p \<longrightarrow>
      mock_native_key (mp_contract p) = k \<and> pos_fin (mp_quantity p) \<and> d_isFinite (mp_avgCost p)) \<and>
    (\<forall>j x. jm_get (mk_orders (mock_run D evs (new_mock i (Fin c) info))) j = Some x \<longrightarrow>
      mo_id x = j \<and> quantity_ok (o_totalQuantity (mo_order x))) \<and>
    d_isFinite (mk_cash (mock_run D evs (new_mock i (Fin c) info)))"
  using mock_book.run_inv [OF impI [OF book_ok_new] assms(2), rule_format, OF assms(1)]
  by (auto simp: mock_run_def book_ok_def position_ok_def order_ok_def)

section \<open>Fills conserve money\<close>

fun fin_val :: "dec \<Rightarrow> rat" where
  "fin_val (Fin r) = r"
| "fin_val _ = 0"

definition contract_size :: "decimal_js \<Rightarrow> contract \<Rightarrow> rat" where
  "contract_size D c = (case multiplierOf D c of Inr d \<Rightarrow> fin_val d | Inl e \<Rightarrow> 1)"

definition position_value :: "decimal_js \<Rightarrow> mock \<Rightarrow> mock_position \<Rightarrow> rat" where
  "position_value D m p = sign_of (mp_side p) * fin_val (mp_quantity p) * fin_val (position_price m p) *
     contract_size D (mp_contract p)"

text \<open>Cash and the positions at their prices: the net liquidation that \<open>getAccount\<close> reports.\<close>

definition equity :: "decimal_js \<Rightarrow> mock \<Rightarrow> rat" where
  "equity D m = fin_val (mk_cash m) + sum_list (map (position_value D m) (jm_values (mk_positions m)))"

lemma sum_values_set:
  fixes f :: "'v \<Rightarrow> rat"
  assumes "jm_ok m"
  shows "sum_list (map f (jm_values (jm_set k v m))) =
    sum_list (map f (jm_values m)) - (case jm_get m k of None \<Rightarrow> 0 | Some u \<Rightarrow> f u) + f v"
  using assms
proof (induction m)
  case Nil
  then show ?case by (simp add: jm_set_def jm_values_def jm_get_def)
next
  case (Cons a m)
  then show ?case
    by (cases a) (auto simp: jm_set_def jm_values_def jm_get_def jm_ok_def split: option.splits)
qed

lemma delete_absent: "k \<notin> fst ` set m \<Longrightarrow> AList.delete k m = m"
  by (induction m) (auto simp: AList.delete_eq)

lemma sum_values_delete:
  fixes f :: "'v \<Rightarrow> rat"
  assumes "jm_ok m"
  shows "sum_list (map f (jm_values (jm_delete k m))) =
    sum_list (map f (jm_values m)) - (case jm_get m k of None \<Rightarrow> 0 | Some u \<Rightarrow> f u)"
  using assms
proof (induction m)
  case Nil
  then show ?case by (simp add: jm_delete_def jm_values_def jm_get_def)
next
  case (Cons a m)
  then show ?case
    by (cases a) (auto simp: jm_delete_def jm_values_def jm_get_def jm_ok_def delete_absent split: option.splits)
qed

lemma position_price_cong:
  "mk_markPrices m' = mk_markPrices m \<Longrightarrow> position_price m' = position_price m"
  by (rule ext) (simp add: position_price_def mark_price_for_def split: option.splits)

lemma position_value_cong:
  "mk_markPrices m' = mk_markPrices m \<Longrightarrow> position_value D m' = position_value D m"
  using position_price_cong [of m' m] by (intro ext) (simp add: position_value_def)

lemma equity_cong:
  "mk_markPrices m' = mk_markPrices m \<Longrightarrow> mk_positions m' = mk_positions m \<Longrightarrow> mk_cash m' = mk_cash m \<Longrightarrow>
     equity D m' = equity D m"
  using position_value_cong [of m' m D] by (simp add: equity_def)

lemma contract_size_eq: "has_multiplier D km c \<Longrightarrow> contract_size D c = km (mock_native_key c)"
  by (simp add: contract_size_def has_multiplier_def)

lemma marked_price:
  "mp_priceOverride p = None \<Longrightarrow> mark_price_for (mp_contract p) m = Some v \<Longrightarrow> position_price m p = v"
  by (simp add: position_price_def)

definition signed_qty :: "string \<Rightarrow> rat \<Rightarrow> rat" where
  "signed_qty sd q = (if sd = ''BUY'' then q else - q)"

text \<open>The value that a fill at the mark adds to the positions is the money that it takes.\<close>

lemma applyFill_equity:
  assumes D: "decimal_exact D rnd" and ok: "book_ok D km m" and c: "has_multiplier D km c"
    and mark: "mark_price_for c m = Some (Fin r)" and sd: "sd = ''BUY'' \<or> sd = ''SELL''"
    and f: "mock_applyFill D c sd (Fin q) (Fin r) m = (a, m1)"
  shows "equity D m1 = equity D m + (if a = Inr () then signed_qty sd q * r * km (mock_native_key c) else 0)"
proof -
  let ?k = "mock_native_key c" and ?v = "position_value D m"
  note exact = decimal_exact.exact_arith [OF D]
  have jm: "jm_ok (mk_positions m)" using ok by (simp add: book_ok_def)
  have same: "mk_markPrices m1 = mk_markPrices m" "mk_cash m1 = mk_cash m"
    using applyFill_sel [of D c sd "Fin q" "Fin r" m] f by simp_all
  have eq: "equity D m1 = fin_val (mk_cash m) + sum_list (map ?v (jm_values (mk_positions m1)))"
    using position_value_cong [OF same(1), of D] by (simp add: equity_def same(2))
  have price: "position_price m p = Fin r" if "mp_priceOverride p = None" "mock_native_key (mp_contract p) = ?k" for p
    using marked_price that mark by (simp add: mark_price_for_def)
  note set = sum_values_set [OF jm, of ?v ?k] and del = sum_values_delete [OF jm, of ?v ?k]
  show ?thesis
  proof (cases "jm_get (mk_positions m) ?k")
    case None
    have "?v (open_long c (Fin q) (Fin r)) = q * r * km ?k"
      using price [of "open_long c (Fin q) (Fin r)"] contract_size_eq [OF c]
      by (simp add: position_value_def open_long_def sign_of_def)
    then show ?thesis using f None sd set [of "open_long c (Fin q) (Fin r)"] eq
      by (auto simp: mock_applyFill_def Let_def equity_def signed_qty_def)
  next
    case (Some p)
    then have p: "position_ok D km ?k p" by (rule book_ok_lookup [OF ok])
    then obtain h where h: "mp_quantity p = Fin h" "0 < h" by (auto simp: position_ok_def elim: pos_finE)
    have v: "?v (p\<lparr>mp_quantity := Fin x, mp_avgCost := y\<rparr>) = sign_of (mp_side p) * x * r * km ?k" for x y
      using p price contract_size_eq [of D km "mp_contract p"] by (simp add: position_value_def position_ok_def)
    have v': "?v (p\<lparr>mp_quantity := Fin x\<rparr>) = sign_of (mp_side p) * x * r * km ?k" for x
      using v [of "mp_avgCost p" x] by simp
    have v0: "?v p = sign_of (mp_side p) * h * r * km ?k" using h p price contract_size_eq [of D km "mp_contract p"]
      by (simp add: position_value_def position_ok_def)
    show ?thesis
    proof (cases "is_increasing (mp_side p) sd")
      case True
      then have a: "a = Inr ()" "mk_positions m1 = jm_set ?k (increase_position D (Fin q) (Fin r) p) (mk_positions m)"
        using f Some by (auto simp: applyFill_some)
      have "?v (increase_position D (Fin q) (Fin r) p) = sign_of (mp_side p) * (h + q) * r * km ?k"
        by (simp add: increase_position_def Let_def h exact v)
      then show ?thesis using a Some True eq v0 set [of "increase_position D (Fin q) (Fin r) p"]
        by (auto simp: equity_def is_increasing_def sign_of_def signed_qty_def algebra_simps)
    next
      case False
      show ?thesis using f Some False eq v0 v' [of "h - q"] set [of "p\<lparr>mp_quantity := Fin (h - q)\<rparr>"] del sd
        by (cases "mp_side p")
           (auto simp: applyFill_some reduce_position_def Let_def h exact equity_def is_increasing_def sign_of_def
             signed_qty_def algebra_simps split: if_splits)
    qed
  qed
qed

lemma pay_cash_sel [simp]:
  "mk_positions (pay_cash D sd x m) = mk_positions m" "mk_markPrices (pay_cash D sd x m) = mk_markPrices m"
  "mk_orders (pay_cash D sd x m) = mk_orders m"
  by (simp_all add: pay_cash_def)

lemma put_order_sel [simp]:
  "mk_positions (put_order x m) = mk_positions m" "mk_markPrices (put_order x m) = mk_markPrices m"
  "mk_cash (put_order x m) = mk_cash m" "mk_orders (put_order x m) = jm_set (mo_id x) x (mk_orders m)"
  by (simp_all add: put_order_def)

lemma pay_cash_equity:
  assumes D: "decimal_exact D rnd" and ok: "book_ok D km m"
  shows "equity D (pay_cash D sd (Fin x) m) = equity D m - signed_qty sd x"
proof -
  obtain c where c: "mk_cash m = Fin c" using ok by (auto simp: book_ok_def elim: d_isFiniteE)
  have "position_value D (pay_cash D sd (Fin x) m) = position_value D m" by (rule position_value_cong) simp
  then show ?thesis by (simp add: equity_def pay_cash_def c decimal_exact.exact_arith [OF D] signed_qty_def)
qed

lemma exact_laws: "decimal_exact D rnd \<Longrightarrow> decimal_laws D rnd"
  by (simp add: decimal_exact_def)

lemma signed_qty_mult: "signed_qty sd q * r * k = signed_qty sd (q * r * k)"
  by (simp add: signed_qty_def)

text \<open>The fill and its payment together.\<close>

lemma paid_fill_equity:
  assumes D: "decimal_exact D rnd" and ok: "book_ok D km m" and c: "has_multiplier D km c"
    and mark: "mark_price_for c m = Some (Fin r)" and sd: "sd = ''BUY'' \<or> sd = ''SELL''" and q: "fillable m c q"
    and f: "mock_applyFill D c sd (Fin q) (Fin r) m = (Inr (), m1)"
  shows "equity D (pay_cash D sd (Fin (q * r * km (mock_native_key c))) m1) = equity D m"
proof -
  have "book_ok D km m1" using applyFill_book [OF exact_laws [OF D] ok c q, of sd r] f by simp
  from pay_cash_equity [OF D this] applyFill_equity [OF D ok c mark sd f] show ?thesis
    by (simp add: signed_qty_mult)
qed

lemma place_market_equity:
  assumes D: "decimal_exact D rnd" and ok: "book_ok D km m" and c: "has_multiplier D km c"
    and mark: "mark_price_for c m = Some (Fin r)" and sd: "sd = ''BUY'' \<or> sd = ''SELL''" and q: "fillable m c q"
  shows "equity D (snd (place_market D c od n sd (Fin q) m)) = equity D m"
proof -
  obtain a m1 where f: "mock_applyFill D c sd (Fin q) (Fin r) m = (a, m1)" by (metis prod.exhaust)
  note exact = decimal_exact.exact_arith [OF D]
  have put: "equity D (put_order x (pay_cash D sd (Fin y) m1)) = equity D (pay_cash D sd (Fin y) m1)" for x y
    by (rule equity_cong) simp_all
  show ?thesis
  proof (cases a)
    case (Inl e)
    then show ?thesis using f mark c applyFill_equity [OF D ok c mark sd f]
      by (simp add: place_market_def bindS_def catchS_def has_multiplier_def)
  next
    case (Inr u)
    then show ?thesis using f mark c paid_fill_equity [OF D ok c mark sd q] put
      by (cases "cloneOrder od n")
         (simp_all add: place_market_def bindS_def thenS_def catchS_def has_multiplier_def exact)
  qed
qed

lemma fill_effects_equity:
  assumes D: "decimal_exact D rnd" and ok: "book_ok D km m" and x: "order_ok D km i x" and q: "0 < q"
    and mark: "mark_price_for (mo_contract x) m = Some (Fin r)" and sd: "sd = ''BUY'' \<or> sd = ''SELL''"
  shows "equity D (snd (fill_effects D x (Fin q) left (Fin r) sd m)) = equity D m"
proof -
  have c: "has_multiplier D km (mo_contract x)" using x by (simp add: order_ok_def)
  obtain a m1 where f: "mock_applyFill D (mo_contract x) sd (Fin q) (Fin r) m = (a, m1)" by (metis prod.exhaust)
  have put: "equity D (put_order y (pay_cash D sd (Fin z) m1)) = equity D (pay_cash D sd (Fin z) m1)" for y z
    by (rule equity_cong) simp_all
  have "fillable m (mo_contract x) q" using q by (simp add: fillable_def)
  from paid_fill_equity [OF D ok c mark sd this] show ?thesis
    using f c put applyFill_equity [OF D ok c mark sd f] fill_effects_eq [of D x sd "Fin q" "Fin r" m]
    by (cases a) (simp_all add: has_multiplier_def decimal_exact.exact_arith [OF D])
qed

lemma numbered_equity [simp]: "equity D (numbered m) = equity D m"
  by (rule equity_cong) simp_all

lemma mark_price_for_cong: "mk_markPrices m' = mk_markPrices m \<Longrightarrow> mark_price_for c m' = mark_price_for c m"
  by (simp add: mark_price_for_def)

lemma place_resting_equity: "equity D (snd (place_resting c od n m)) = equity D m"
  by (cases "cloneOrder od n") (simp_all add: place_resting_def thenS_def, rule equity_cong, simp_all)

lemma placeOrder_equity:
  assumes D: "decimal_exact D rnd" and ok: "book_ok D km m" and p: "placeable D km c od"
    and u: "o_totalQuantity od \<noteq> Some (DVal UNSET_DECIMAL) \<or> jm_get (mk_positions m) (mock_native_key c) \<noteq> None"
    and mark: "mark_price_for c m \<noteq> None"
  shows "equity D (snd (mock_placeOrder D c od m)) = equity D m"
proof -
  have p': "has_multiplier D km c" "sided od" "quantity_ok (o_totalQuantity od)" using p by (simp_all add: placeable_def)
  obtain sd where sd: "action_upper od = Inr sd" "sd = ''BUY'' \<or> sd = ''SELL''" using sided_action [OF p'(2)] by blast
  obtain q where q: "order_quantity od = Inr (Fin q)" "0 \<le> q"
    "q = 0 \<longrightarrow> o_totalQuantity od = Some (DVal UNSET_DECIMAL)" using order_quantity_val [OF p'(3)] by blast
  obtain r where r: "mark_price_for c m = Some (Fin r)"
    using mark mark_price_finite [OF ok] by (auto elim!: d_isFiniteE)
  then have "mark_price_for c (numbered m) = Some (Fin r)" using mark_price_for_cong [of "numbered m" m] by simp
  moreover have "book_ok D km (numbered m)" using ok by (simp add: book_ok_cong [of "numbered m" m])
  moreover have "fillable (numbered m) c q" using q u by (auto simp: fillable_def)
  ultimately show ?thesis
    using place_market_equity [OF D _ p'(1) _ sd(2)] place_resting_equity
    by (simp add: mock_placeOrder_eq [OF sd(1) q(1)])
qed

lemma closePosition_equity:
  assumes D: "decimal_exact D rnd" and ok: "book_ok D km m"
    and qty: "case qty of None \<Rightarrow> True | Some x \<Rightarrow> quantity_ok (Some x)" and mark: "mark_price_for c m \<noteq> None"
  shows "equity D (snd (mock_closePosition D c qty m)) = equity D m"
proof (cases "jm_get (mk_positions m) (mock_native_key c)")
  case None
  then show ?thesis
    by (simp add: mock_closePosition_def thenS_def mock_record_def, intro equity_cong) simp_all
next
  case (Some p)
  let ?m = "m\<lparr>mk_callLog := mk_callLog m @ [''closePosition'']\<rparr>"
  have p: "position_ok D km (mock_native_key c) p" by (rule book_ok_lookup [OF ok Some])
  then have key: "mock_native_key (mp_contract p) = mock_native_key c" by (simp add: position_ok_def)
  then have "mark_price_for (mp_contract p) ?m \<noteq> None" using mark by (simp add: mark_price_for_def)
  then have "equity D (snd (mock_placeOrder D (mp_contract p) (closing_order p qty) ?m)) = equity D ?m"
    using ok Some key by (intro placeOrder_equity [OF D _ closing_order_placeable [OF p qty]]) simp_all
  moreover have "equity D ?m = equity D m" by (rule equity_cong) simp_all
  ultimately show ?thesis using Some by (simp add: mock_closePosition_def thenS_def mock_record_def)
qed

text \<open>A fill whose price is the mark of its instrument.\<close>

lemma fillOrder_equity:
  assumes D: "decimal_exact D rnd" and ok: "book_ok D km m" and n: "opt_number_ok D po" "opt_number_ok D qo"
    and mark: "\<forall>x price. pending_order m i = Some x \<longrightarrow> fill_price D x po m = Inr price \<longrightarrow>
        mark_price_for (mo_contract x) m = Some price"
  shows "equity D (snd (mock_fillOrder D i po qo m)) = equity D m"
proof (cases "fill_plan D i po qo m")
  case (Inl e)
  then show ?thesis by (simp add: fillOrder_plan)
next
  case (Inr w)
  obtain x qty left price sd where w: "w = (x, qty, left, price, sd)" by (metis prod.exhaust)
  note plan = Inr [unfolded w]
  from plan obtain p: "pending_order m i = Some x" "fill_price D x po m = Inr price" "action_upper (mo_order x) = Inr sd"
    by (rule fill_planE)
  obtain q l r where fin: "qty = Fin q" "left = Fin l" "price = Fin r" "0 < q" "order_ok D km i x"
    using fill_plan_finite [OF ok n plan] by blast
  have "sd = ''BUY'' \<or> sd = ''SELL''" using fin(5) p(3) by (auto simp: order_ok_def sided_def)
  from fill_effects_equity [OF D ok fin(5,4) _ this] mark [rule_format, OF p(1,2)] show ?thesis
    by (simp add: fillOrder_plan(1) [OF plan] fin)
qed

lemma fillOrder_marks: "mk_markPrices (snd (mock_fillOrder D i po qo m)) = mk_markPrices m"
proof (cases "fill_plan D i po qo m")
  case (Inr w)
  obtain x qty left price sd where w: "w = (x, qty, left, price, sd)" by (metis prod.exhaust)
  obtain a m1 where f: "mock_applyFill D (mo_contract x) sd qty price m = (a, m1)" by (metis prod.exhaust)
  then have "mk_markPrices m1 = mk_markPrices m" using applyFill_sel(2) [of D "mo_contract x" sd qty price m] by simp
  then show ?thesis using f
    by (cases a; cases "multiplierOf D (mo_contract x)")
       (simp_all add: fillOrder_plan(1) [OF Inr [unfolded w]] fill_effects_def thenS_def)
qed (simp add: fillOrder_plan)

lemma match_one_equity:
  assumes D: "decimal_exact D rnd" and r: "jm_get M key = Some (Fin r)"
  shows "keeps (\<lambda>s. book_ok D km s \<and> mk_markPrices s = M \<and> equity D s = E) (match_one D key (Fin r) i)"
proof -
  have "book_ok D km s' \<and> mk_markPrices s' = M \<and> equity D s' = E"
    if s: "book_ok D km s" "mk_markPrices s = M" "equity D s = E"
      and x: "pending_order s i = Some x" "mock_native_key (mo_contract x) = key"
      and f: "s' = snd (mock_fillOrder D i (Some (NDec (Fin r))) None s)" for s s' x
    using fillOrder_book [OF exact_laws [OF D] s(1), of "Some (NDec (Fin r))" None i] fillOrder_marks [of D i _ None s]
      fillOrder_equity [OF D s(1), of "Some (NDec (Fin r))" None i] s x r
    by (simp add: f fill_price_def mark_price_for_def)
  then show ?thesis
    by (auto simp: keeps_def match_one_def bindS_def thenS_def split: option.splits sum.splits prod.splits) (metis snd_conv)+
qed

lemma match_orders_equity:
  assumes D: "decimal_exact D rnd" and r: "jm_get M key = Some (Fin r)"
  shows "keeps (\<lambda>s. book_ok D km s \<and> mk_markPrices s = M \<and> equity D s = E) (match_orders D key (Fin r) ids)"
proof (induction ids)
  case Nil
  show ?case unfolding match_orders.simps by (rule keeps_intros)
next
  case (Cons i ids)
  show ?case unfolding match_orders.simps by (intro keeps_intros match_one_equity [OF D r] Cons.IH)
qed

definition set_mark :: "string \<Rightarrow> dec \<Rightarrow> mock \<Rightarrow> mock" where
  "set_mark key price m = m\<lparr>mk_markPrices := jm_set key price (mk_markPrices m)\<rparr>"

lemma setMarkPrice_equity:
  assumes D: "decimal_exact D rnd" and ok: "book_ok D km m" and v: "as_decimal D v = Inr (Fin r)"
  shows "equity D (snd (mock_setMarkPrice D key v m)) = equity D (set_mark key (Fin r) m)"
proof -
  let ?m = "set_mark key (Fin r) m"
  have "book_ok D km ?m" unfolding set_mark_def using book_ok_mark [OF ok] by simp
  moreover have "jm_get (mk_markPrices ?m) key = Some (Fin r)" by (simp add: set_mark_def)
  ultimately have "equity D (snd (match_orders D key (Fin r) (map fst (mk_orders ?m)) ?m)) = equity D ?m"
    using match_orders_equity [OF D, of "mk_markPrices ?m" key r km "equity D ?m" "map fst (mk_orders ?m)"]
    by (simp add: keeps_def)
  then show ?thesis using v by (simp add: mock_setMarkPrice_def thenS_def matchPendingOrders_def set_mark_def)
qed

text \<open>The calls that trade at the mark or do not trade: what the account's owner can do.\<close>

fun at_mark :: "mock \<Rightarrow> mock_event \<Rightarrow> bool" where
  "at_mark m (MPlace c od) = (mark_price_for c m \<noteq> None)"
| "at_mark m (MClose c q) = (mark_price_for c m \<noteq> None)"
| "at_mark m (MFill i p q) = (p = None \<and>
     (case pending_order m i of None \<Rightarrow> True | Some x \<Rightarrow> mark_price_for (mo_contract x) m \<noteq> None))"
| "at_mark m (MModify i ch) = True"
| "at_mark m (MCancel i) = True"
| "at_mark m (MCancelPending i) = True"
| "at_mark m _ = False"

lemma modifyOrder_equity: "equity D (snd (mock_modifyOrder i ch m)) = equity D m"
proof (cases "pending_order m i")
  case None
  then show ?thesis by (simp add: mock_modifyOrder_def thenS_def mock_record_def, intro equity_cong) simp_all
next
  case (Some x)
  obtain r od where "modify_fields ch (mo_order x) = (r, od)" by (metis prod.exhaust)
  then show ?thesis using Some
    by (cases r) (simp_all add: mock_modifyOrder_def thenS_def mock_record_def on_order_def bindS_def, (rule equity_cong, simp_all)+)
qed

lemma cancel_equity:
  "equity D (snd (mock_cancelOrder i m)) = equity D m" "equity D (snd (mock_cancelPendingOrder i m)) = equity D m"
proof -
  show "equity D (snd (mock_cancelOrder i m)) = equity D m"
    by (cases "pending_order m i")
       (simp_all add: mock_cancelOrder_def thenS_def mock_record_def bindS_def, (rule equity_cong, simp_all)+)
  show "equity D (snd (mock_cancelPendingOrder i m)) = equity D m"
    by (cases "jm_get (mk_orders m) i")
       (simp_all add: mock_cancelPendingOrder_def bindS_def, rule equity_cong, simp_all)
qed

lemma at_mark_equity:
  assumes D: "decimal_exact D rnd" and ok: "book_ok D km m" and ev: "event_ok D km ev" "at_mark m ev"
  shows "equity D (mock_step D ev m) = equity D m"
proof (cases ev)
  case (MPlace c od)
  then show ?thesis using placeOrder_equity [OF D ok, of c od] ev by simp
next
  case (MClose c q)
  then show ?thesis using closePosition_equity [OF D ok, of q c] ev by simp
next
  case (MFill i p q)
  have "\<forall>x price. pending_order m i = Some x \<longrightarrow> fill_price D x p m = Inr price \<longrightarrow>
      mark_price_for (mo_contract x) m = Some price"
    using ev MFill by (auto simp: fill_price_def split: option.splits)
  then show ?thesis using fillOrder_equity [OF D ok, of p q i] ev MFill by simp
qed (use ev modifyOrder_equity cancel_equity in simp_all)

section \<open>The reported account\<close>

text \<open>What \<open>getAccount\<close> prints for a position: its market value and its unrealized profit.\<close>

definition worth :: "decimal_js \<Rightarrow> mock \<Rightarrow> mock_position \<Rightarrow> rat" where
  "worth D m p = fin_val (mp_quantity p) * fin_val (position_price m p) * contract_size D (mp_contract p)"

definition gain :: "decimal_js \<Rightarrow> mock \<Rightarrow> mock_position \<Rightarrow> rat" where
  "gain D m p = fin_val (mp_quantity p) * (fin_val (position_price m p) - fin_val (mp_avgCost p)) *
     contract_size D (mp_contract p) * sign_of (mp_side p)"

text \<open>The amounts are decimal fractions, which survive being printed and parsed.\<close>

definition printable :: "decimal_js \<Rightarrow> mock \<Rightarrow> bool" where
  "printable D m \<longleftrightarrow> dj_parse D ''1'' = Some (Fin 1) \<and>
     (\<forall>p \<in> set (jm_values (mk_positions m)). dec_repr (Fin (worth D m p)) \<and> dec_repr (Fin (gain D m p)))"

lemma reported_values:
  assumes D: "decimal_exact D rnd" and ok: "position_ok D km k p" and price: "d_isFinite (position_price m p)"
    and one: "dj_parse D ''1'' = Some (Fin 1)"
  shows "position_values_of D m p = Inr (dj_to_string D (Fin (worth D m p)), dj_to_string D (Fin (gain D m p)))"
proof -
  obtain q where q: "mp_quantity p = Fin q" using ok by (auto simp: position_ok_def elim: pos_finE)
  obtain a where a: "mp_avgCost p = Fin a" using ok by (auto simp: position_ok_def elim: d_isFiniteE)
  obtain r where r: "position_price m p = Fin r" using price by (rule d_isFiniteE)
  have c: "multiplierOf D (mp_contract p) = Inr (Fin (contract_size D (mp_contract p)))"
    using ok by (auto simp: position_ok_def has_multiplier_def contract_size_def)
  then have "mult_val D (Some (or_str (c_multiplier (mp_contract p)) ''1'')) = Some (contract_size D (mp_contract p))"
    using one by (auto simp: mult_val_Some multiplierToDecimal_def multiplierOf_def or_str_def new_dec_def split: if_splits)
  then show ?thesis
    using position_math_formulas [OF D, of "\<lparr>pm_quantity = NDec (mp_quantity p), pm_marketPrice = NDec (position_price m p),
       pm_avgCost = NDec (mp_avgCost p), pm_multiplier = Some (or_str (c_multiplier (mp_contract p)) ''1''),
       pm_side = mp_side p\<rparr>" q r a "contract_size D (mp_contract p)"]
    by (simp add: position_values_of_def q a r num_val_def worth_def gain_def)
qed

lemma account_loop_values:
  assumes D: "decimal_exact D rnd" and one: "dj_parse D ''1'' = Some (Fin 1)"
    and ps: "\<forall>p \<in> set ps. (\<exists>k. position_ok D km k p) \<and> d_isFinite (position_price m p) \<and>
      dec_repr (Fin (gain D m p))"
  shows "\<exists>u'. account_loop D m ps xs (Fin u) =
    Inr (xs @ map (\<lambda>p. (mp_side p, NStr (dj_to_string D (Fin (worth D m p))))) ps, Fin u')"
  using ps
proof (induction ps arbitrary: xs u)
  case Nil
  then show ?case by simp
next
  case (Cons p ps)
  then obtain k where "position_ok D km k p" by auto
  then have "position_values_of D m p = Inr (dj_to_string D (Fin (worth D m p)), dj_to_string D (Fin (gain D m p)))"
    using reported_values [OF D _ _ one] Cons.prems by simp
  moreover have "dj_parse D (dj_to_string D (Fin (gain D m p))) = Some (Fin (gain D m p))"
    using Cons.prems decimal_laws.parse_to_string [OF exact_laws [OF D]] by simp
  ultimately show ?case
    using Cons.IH [of "xs @ [(mp_side p, NStr (dj_to_string D (Fin (worth D m p))))]" "u + gain D m p"] Cons.prems
    by (simp add: new_dec_def decimal_exact.exact_arith [OF D])
qed

lemma reported_equity:
  assumes D: "decimal_exact D rnd" and ok: "book_ok D km m" and pr: "printable D m"
  shows "\<exists>acc. computed_account D m = Inr acc \<and> ai_netLiquidation acc = dj_to_string D (Fin (equity D m))"
proof -
  let ?ps = "jm_values (mk_positions m)"
  have held: "(\<exists>k. position_ok D km k p) \<and> d_isFinite (position_price m p)" if "p \<in> set ?ps" for p
  proof -
    obtain k where "(k, p) \<in> set (mk_positions m)" using \<open>p \<in> set ?ps\<close> by (auto simp: jm_values_def)
    then have "jm_get (mk_positions m) k = Some p" using ok by (simp add: book_ok_def jm_ok_def jm_get_def)
    then have k: "position_ok D km k p" by (rule book_ok_lookup [OF ok])
    then have "d_isFinite (position_price m p)"
      using mark_price_finite [OF ok, of "mp_contract p"] by (auto simp: position_price_def position_ok_def split: option.splits)
    with k show ?thesis by blast
  qed
  have one: "dj_parse D ''1'' = Some (Fin 1)" using pr by (simp add: printable_def)
  from account_loop_values [OF D one, of ?ps km m "[]" 0] held pr
  obtain u where loop: "account_loop D m ?ps [] (Fin 0) =
      Inr (map (\<lambda>p. (mp_side p, NStr (dj_to_string D (Fin (worth D m p))))) ?ps, Fin u)"
    by (auto simp: printable_def)
  let ?xs = "map (\<lambda>p. (mp_side p, NStr (dj_to_string D (Fin (worth D m p))))) ?ps"
  obtain cash where cash: "mk_cash m = Fin cash" using ok by (auto simp: book_ok_def elim: d_isFiniteE)
  have val: "signed_value D (mp_side p, NStr (dj_to_string D (Fin (worth D m p)))) = Inr (Fin (position_value D m p))"
    if "p \<in> set ?ps" for p
    using that pr decimal_laws.parse_to_string [OF exact_laws [OF D], of "Fin (worth D m p)"]
      decimal_laws.print_nonempty [OF exact_laws [OF D]]
    by (auto simp: signed_value_def printable_def new_dec_def position_value_def worth_def sign_of_def split: side.splits)
  have "total_market_value D (map (\<lambda>p. (mp_side p, NStr (dj_to_string D (Fin (worth D m p))))) ps) (Fin t)
      = Inr (Fin (t + sum_list (map (position_value D m) ps)))" if "set ps \<subseteq> set ?ps" for ps t
    using that val by (induction ps arbitrary: t) (simp_all add: decimal_exact.exact_arith [OF D] add.assoc)
  from this [of ?ps 0] show ?thesis
    by (simp add: computed_account_def loop aggregateAccountFromPositions_def cash equity_def decimal_exact.exact_arith [OF D])
qed


section \<open>Matching is complete\<close>

definition ids_ok :: "mock \<Rightarrow> bool" where
  "ids_ok m \<longleftrightarrow> (\<forall>i x. jm_get (mk_orders m) i = Some x \<longrightarrow> mo_id x = i)"

lemma fillOrder_orders:
  assumes ids: "ids_ok m" and f: "mock_fillOrder D i po qo m = (r, m')"
  shows "(r = Inr () \<longrightarrow> (\<exists>x y. pending_order m i = Some x \<and> jm_get (mk_orders m') i = Some y \<and> mo_id y = i \<and>
        mo_contract y = mo_contract x \<and> (qo = None \<longrightarrow> mo_status y = ''Filled''))) \<and>
    (r \<noteq> Inr () \<longrightarrow> jm_get (mk_orders m') i = jm_get (mk_orders m) i) \<and>
    (\<forall>j. j \<noteq> i \<longrightarrow> jm_get (mk_orders m') j = jm_get (mk_orders m) j)"
proof (cases "fill_plan D i po qo m")
  case (Inl e)
  then show ?thesis using f by (auto simp: fillOrder_plan)
next
  case (Inr w)
  obtain x qty left price sd where w: "w = (x, qty, left, price, sd)" by (metis prod.exhaust)
  note plan = Inr [unfolded w]
  from plan obtain p: "pending_order m i = Some x" "fill_quantity D (mo_order x) qo = Inr qty"
    "dec_field (o_totalQuantity (mo_order x)) = Inr left" by (rule fill_planE)
  have i: "mo_id x = i" using ids p(1) by (auto simp: ids_ok_def pending_order_Some)
  have full: "qo = None \<Longrightarrow> mo_status (after_fill D qty price left x) = ''Filled''"
    using p(2,3) by (simp add: fill_quantity_def after_fill_def Let_def)
  obtain a m1 where g: "mock_applyFill D (mo_contract x) sd qty price m = (a, m1)" by (metis prod.exhaust)
  then have m1: "mk_orders m1 = mk_orders m" using applyFill_sel(1) [of D "mo_contract x" sd qty price m] by simp
  show ?thesis
    using f g m1 p(1) i full
    by (cases a; cases "multiplierOf D (mo_contract x)")
       (auto simp: fillOrder_plan(1) [OF plan] fill_effects_def thenS_def)
qed

lemma fillOrder_ids: "ids_ok m \<Longrightarrow> mock_fillOrder D i po qo m = (r, m') \<Longrightarrow> ids_ok m'"
  using fillOrder_orders [of m D i po qo r m'] unfolding ids_ok_def
  by (cases "r = Inr ()") (metis option.inject)+

text \<open>Whether the price sets the order off that is pending under an id.\<close>

definition hits :: "string \<Rightarrow> dec \<Rightarrow> mock \<Rightarrow> string \<Rightarrow> js_error + bool" where
  "hits key price m i = (case pending_order m i of None \<Rightarrow> Inr False
     | Some x \<Rightarrow> if mock_native_key (mo_contract x) = key then order_triggered (mo_order x) price else Inr False)"

lemma match_one_eq:
  "match_one D key price i m = (case hits key price m i of
     Inl e \<Rightarrow> (Inl e, m)
   | Inr hit \<Rightarrow> if hit then thenS (mock_fillOrder D i (Some (NDec price)) None) (returnS True) m else (Inr False, m))"
  by (auto simp: match_one_def hits_def bindS_def split: option.splits sum.splits)

lemma match_orders_result:
  assumes "ids_ok m" and "distinct ids" and "match_orders D key price ids m = (Inr filled, m')"
  shows "ids_ok m' \<and> set filled \<subseteq> set ids \<and>
    (\<forall>j. j \<notin> set filled \<longrightarrow> jm_get (mk_orders m') j = jm_get (mk_orders m) j) \<and>
    (\<forall>j \<in> set ids. hits key price m j = Inr (j \<in> set filled)) \<and>
    (\<forall>j \<in> set filled. \<exists>y. jm_get (mk_orders m') j = Some y \<and> mo_status y = ''Filled'')"
  using assms
proof (induction ids arbitrary: m filled)
  case Nil
  then show ?case by simp
next
  case (Cons i ids)
  from Cons.prems(3) obtain hit m1 fs where one: "match_one D key price i m = (Inr hit, m1)"
    and rest: "match_orders D key price ids m1 = (Inr fs, m')" and fs: "filled = (if hit then i # fs else fs)"
    by (auto simp: bindS_Inr)
  have hit: "hits key price m i = Inr hit"
    using one by (auto simp: match_one_eq thenS_def bindS_Inr split: sum.splits if_splits)
  have m1: "ids_ok m1 \<and> (\<forall>j. j \<noteq> i \<longrightarrow> jm_get (mk_orders m1) j = jm_get (mk_orders m) j) \<and>
      (if hit then \<exists>y. jm_get (mk_orders m1) i = Some y \<and> mo_status y = ''Filled''
       else jm_get (mk_orders m1) i = jm_get (mk_orders m) i)"
  proof (cases hit)
    case True
    then have f: "mock_fillOrder D i (Some (NDec price)) None m = (Inr (), m1)"
      using one hit by (auto simp: match_one_eq thenS_def bindS_Inr)
    from fillOrder_orders [OF Cons.prems(1) f] fillOrder_ids [OF Cons.prems(1) f] True show ?thesis by auto
  next
    case False
    then show ?thesis using one hit Cons.prems(1) by (simp add: match_one_eq)
  qed
  have same: "hits key price m1 j = hits key price m j" if "j \<noteq> i" for j
    using m1 that by (simp add: hits_def pending_order_def)
  have i: "i \<notin> set ids" "distinct ids" using Cons.prems(2) by simp_all
  have IH: "ids_ok m'" "set fs \<subseteq> set ids" "\<And>j. j \<notin> set fs \<Longrightarrow> jm_get (mk_orders m') j = jm_get (mk_orders m1) j"
    "\<And>j. j \<in> set ids \<Longrightarrow> hits key price m1 j = Inr (j \<in> set fs)"
    "\<And>j. j \<in> set fs \<Longrightarrow> \<exists>y. jm_get (mk_orders m') j = Some y \<and> mo_status y = ''Filled''"
    using Cons.IH [OF conjunct1 [OF m1] i(2) rest] by blast+
  have ifs: "i \<notin> set fs" using IH(2) i(1) by blast
  have "hits key price m j = Inr (j \<in> set filled)" if "j \<in> set (i # ids)" for j
    using that IH(4) [of j] same [of j] hit fs ifs i(1) by (cases "j = i") auto
  moreover have "\<exists>y. jm_get (mk_orders m') j = Some y \<and> mo_status y = ''Filled''" if "j \<in> set filled" for j
    using that IH(3) [OF ifs] IH(5) m1 fs ifs by (cases "j = i") (auto split: if_splits)
  moreover have "jm_get (mk_orders m') j = jm_get (mk_orders m) j" if "j \<notin> set filled" for j
    using that IH(3) m1 fs by (cases "j = i") (auto split: if_splits)
  ultimately show ?case using IH(1,2) fs by auto
qed

lemma book_ok_reach:
  "decimal_laws D rnd \<Longrightarrow> list_all (event_ok D km) evs \<Longrightarrow> book_ok D km (mock_run D evs (new_mock i (Fin c) info))"
  using mock_book.run_inv [OF impI [OF book_ok_new]] by (simp add: mock_run_def)

lemma book_ok_ids: "book_ok D km m \<Longrightarrow> ids_ok m \<and> distinct (map fst (mk_orders m))"
  by (auto simp: book_ok_def ids_ok_def order_ok_def jm_ok_def)

text \<open>A price move settles exactly the orders that it crosses.  When \<open>setMarkPrice\<close> returns, in any state
  that sequences of calls reach, the ids it returns are those of the pending orders of that
  instrument that the price triggers, they are filled, every other order is untouched, and no order
  that the price crosses is left pending.\<close>

theorem price_move_settles_crossed_orders:
  assumes "decimal_laws D rnd" and "list_all (event_ok D km) evs"
    and "m = mock_run D evs (new_mock i (Fin c) info)"
    and "mock_setMarkPrice D key v m = (Inr filled, m')" and "as_decimal D v = Inr price"
  shows "(\<forall>j. hits key price m j = Inr (j \<in> set filled)) \<and> (\<forall>j. hits key price m' j = Inr False) \<and>
    (\<forall>j \<in> set filled. \<exists>y. jm_get (mk_orders m') j = Some y \<and> mo_status y = ''Filled'') \<and>
    (\<forall>j. j \<notin> set filled \<longrightarrow> jm_get (mk_orders m') j = jm_get (mk_orders m) j)"
proof -
  let ?m = "set_mark key price m" and ?ids = "map fst (mk_orders m)"
  have ids: "ids_ok m" "distinct ?ids"
    using book_ok_ids [OF book_ok_reach [OF assms(1,2), of i c info]] unfolding assms(3) by blast+
  have "match_orders D key price ?ids ?m = (Inr filled, m')"
    using assms(4,5) by (simp add: mock_setMarkPrice_def thenS_def matchPendingOrders_def set_mark_def)
  moreover have "ids_ok ?m" using ids(1) by (simp add: ids_ok_def set_mark_def)
  ultimately have r: "set filled \<subseteq> set ?ids" "\<And>j. j \<notin> set filled \<Longrightarrow> jm_get (mk_orders m') j = jm_get (mk_orders ?m) j"
    "\<And>j. j \<in> set ?ids \<Longrightarrow> hits key price ?m j = Inr (j \<in> set filled)"
    "\<And>j. j \<in> set filled \<Longrightarrow> \<exists>y. jm_get (mk_orders m') j = Some y \<and> mo_status y = ''Filled''"
    using match_orders_result [OF _ ids(2)] by blast+
  have m: "mk_orders ?m = mk_orders m" "hits key price ?m = hits key price m"
    by (auto simp: set_mark_def hits_def pending_order_def)
  have "jm_get (mk_orders m) j = None" if "j \<notin> set ?ids" for j using that by (simp add: jm_get_def map_of_eq_None_iff)
  then have all: "hits key price m j = Inr (j \<in> set filled)" for j
    using r(1,3) [unfolded m] by (cases "j \<in> set ?ids") (auto simp: hits_def pending_order_def)
  have "hits key price m' j = Inr False" for j
    using r(2,4) [of j] all [of j] m(1) by (cases "j \<in> set filled") (auto simp: hits_def pending_order_def)
  then show ?thesis using all r(2,4) m(1) by simp
qed

section \<open>Witnesses\<close>

definition demo_stock :: contract where
  "demo_stock = new_contract\<lparr>c_symbol := ''AAPL'', c_secType := ''STK''\<rparr>"

definition demo_limit :: "string \<Rightarrow> rat \<Rightarrow> rat \<Rightarrow> order" where
  "demo_limit sd q p = new_order\<lparr>o_action := Some sd, o_orderType := Some ''LMT'',
     o_totalQuantity := Some (DVal (Fin q)), o_lmtPrice := Some (DVal (Fin p))\<rparr>"

definition demo_market :: "string \<Rightarrow> rat \<Rightarrow> order" where
  "demo_market sd q = new_order\<lparr>o_action := Some sd, o_orderType := Some ''MKT'', o_totalQuantity := Some (DVal (Fin q))\<rparr>"

text \<open>A price, a purchase at it, a resting sale above it.\<close>

definition demo_calls :: "mock_event list" where
  "demo_calls = [MPrice ''AAPL'' (NNum 100), MPlace demo_stock (demo_market ''BUY'' 3),
     MPlace demo_stock (demo_limit ''SELL'' 2 110)]"

lemma demo_calls_ok: "list_all (event_ok exact_decimal (\<lambda>k. 1)) demo_calls"
  by (simp add: demo_calls_def number_ok_def placeable_def has_multiplier_def multiplierOf_def demo_stock_def sided_def
      action_upper_def to_upper_def upper_char_def quantity_ok_def price_ok_def demo_market_def demo_limit_def new_order_def
      new_contract_def UNSET_DECIMAL_def)

definition demo_exchange :: mock where
  "demo_exchange = mock_run exact_decimal demo_calls (new_mock ''demo'' (Fin 1000) None)"

text \<open>The price of 120 fills the resting sale; the equity is what it was, revalued.\<close>

lemma demo_fill:
  "case mock_setMarkPrice exact_decimal ''AAPL'' (NNum 120) demo_exchange of
     (Inr ids, m') \<Rightarrow> ids = [''mock-ord-2''] \<and> mk_cash m' = Fin 940 | _ \<Rightarrow> False"
  by code_simp

lemma exchange_book_sound_witness:
  "\<exists>p. jm_get (mk_positions demo_exchange) ''AAPL'' = Some p \<and> pos_fin (mp_quantity p)"
proof -
  have "jm_get (mk_positions demo_exchange) ''AAPL'' \<noteq> None" by code_simp
  with exchange_book_sound [OF ex.decimal_laws_axioms demo_calls_ok, of "''demo''" 1000 None] show ?thesis
    by (auto simp: demo_exchange_def)
qed


lemma price_move_settles_crossed_orders_witness:
  "\<exists>filled m'. mock_setMarkPrice exact_decimal ''AAPL'' (NNum 120) demo_exchange = (Inr filled, m') \<and>
     ''mock-ord-2'' \<in> set filled \<and> hits ''AAPL'' (Fin 120) m' ''mock-ord-2'' = Inr False"
proof -
  obtain m' where f: "mock_setMarkPrice exact_decimal ''AAPL'' (NNum 120) demo_exchange = (Inr [''mock-ord-2''], m')"
    using demo_fill by (auto split: prod.splits sum.splits)
  from price_move_settles_crossed_orders [OF ex.decimal_laws_axioms demo_calls_ok demo_exchange_def this, of "Fin 120"] f
  show ?thesis by (intro exI [of _ "[''mock-ord-2'']"] exI [of _ m']) simp
qed

end
