(* ===== verification/Mock_Orders.thy ===== *)
theory Mock_Orders
  imports Mock_Market
begin

text \<open>
  The life of an order on the in-memory exchange: what fills and other calls make of it, and that a
  finished order is final.
\<close>

section \<open>Orders are final and accounted for\<close>

definition executed :: "mock_order \<Rightarrow> rat" where
  "executed x = (case mo_filledQuantity x of None \<Rightarrow> 0 | Some q \<Rightarrow> fin_val q)"

definition rest_of :: "mock_order \<Rightarrow> rat" where
  "rest_of x = (if mo_status x = ''Submitted''
     then case o_totalQuantity (mo_order x) of Some (DVal d) \<Rightarrow> fin_val d | _ \<Rightarrow> 0 else 0)"

definition finished :: "mock_order \<Rightarrow> bool" where
  "finished x \<longleftrightarrow> mo_status x \<noteq> ''Submitted''"

text \<open>How an order may develop as long as nobody changes its quantity.\<close>

definition evolves :: "mock_order \<Rightarrow> mock_order \<Rightarrow> bool" where
  "evolves x y \<longleftrightarrow> mo_contract y = mo_contract x \<and> executed x \<le> executed y \<and>
     (finished x \<longrightarrow> mo_status y = mo_status x \<and> mo_filledQuantity y = mo_filledQuantity x \<and>
        mo_avgFillPrice y = mo_avgFillPrice x) \<and>
     (\<not> finished x \<longrightarrow> mo_status y \<in> {''Submitted'', ''Filled'', ''Cancelled''} \<and>
        (mo_status y \<noteq> ''Cancelled'' \<longrightarrow> executed y + rest_of y = executed x + rest_of x))"

lemma evolves_refl [simp]: "evolves x x"
  by (simp add: evolves_def finished_def)

lemma evolves_trans: "evolves x y \<Longrightarrow> evolves y z \<Longrightarrow> evolves x z"
  by (auto simp: evolves_def finished_def executed_def rest_of_def)

lemma with_filled_evolves [simp]: "evolves x (with_filled x)"
  by (simp add: evolves_def finished_def executed_def rest_of_def)

lemma cancelled_evolves: "mo_status x = ''Submitted'' \<Longrightarrow> evolves x (x\<lparr>mo_status := ''Cancelled''\<rparr>)"
  by (simp add: evolves_def finished_def executed_def)

lemma after_fill_evolves:
  assumes D: "decimal_exact D rnd" and x: "order_ok D km i x" and s: "mo_status x = ''Submitted''"
    and q: "0 < q" "q \<le> l" and l: "dec_field (o_totalQuantity (mo_order x)) = Inr (Fin l)"
  shows "evolves x (after_fill D (Fin q) price (Fin l) x)"
proof -
  note exact = decimal_exact.exact_arith [OF D]
  have l': "o_totalQuantity (mo_order x) = Some (DVal (Fin l))"
    using l x by (auto simp: order_ok_def dec_field_def elim!: quantity_okE)
  have "executed (after_fill D (Fin q) price (Fin l) x) = executed x + q"
    using x by (cases "mo_filledQuantity x"; cases "the (mo_filledQuantity x)")
      (auto simp: executed_def after_fill_def Let_def exact order_ok_def nonneg_fin_def)
  moreover have "rest_of (after_fill D (Fin q) price (Fin l) x) = l - q" "rest_of x = l"
    using q s l' by (auto simp: rest_of_def after_fill_def Let_def exact)
  moreover have "mo_status (after_fill D (Fin q) price (Fin l) x) \<in> {''Submitted'', ''Filled''}"
    using s by (simp add: after_fill_def Let_def)
  ultimately show ?thesis using q s by (auto simp: evolves_def finished_def)
qed

text \<open>
  The orders in \<open>T\<close>, with their ids, are followed; the ids of all orders are numbers that were given out.
\<close>

definition tracks :: "decimal_js \<Rightarrow> (string \<Rightarrow> rat) \<Rightarrow> (string \<times> mock_order) set \<Rightarrow> mock \<Rightarrow> bool" where
  "tracks D km T m \<longleftrightarrow> book_ok D km m \<and>
     (\<forall>(j, x) \<in> T. \<exists>y. jm_get (mk_orders m) j = Some y \<and> evolves x y) \<and>
     (\<forall>i z. jm_get (mk_orders m) i = Some z \<longrightarrow> (\<exists>n < mk_nextOrderId m. i = order_id n))"

lemma tracks_cong:
  "tracks D km T m \<Longrightarrow> book_ok D km m' \<Longrightarrow> mk_orders m' = mk_orders m \<Longrightarrow> mk_nextOrderId m' = mk_nextOrderId m \<Longrightarrow>
     tracks D km T m'"
  by (simp add: tracks_def)

lemma put_order_next [simp]: "mk_nextOrderId (put_order x m) = mk_nextOrderId m"
  by (simp add: put_order_def)

lemma pay_cash_next [simp]: "mk_nextOrderId (pay_cash D sd x m) = mk_nextOrderId m"
  by (simp add: pay_cash_def)

lemma remember_next [simp]: "mk_nextOrderId (mock_remember c m) = mk_nextOrderId m"
  by (simp add: mock_remember_def Let_def)

lemma applyFill_next: "mk_nextOrderId (snd (mock_applyFill D c sd qty price m)) = mk_nextOrderId m"
  by (simp add: mock_applyFill_def reduce_position_def Let_def split: option.splits)

lemma tracks_put:
  assumes "tracks D km T m" "jm_get (mk_orders m) i = Some z" "mo_id z' = i" "book_ok D km m'"
    "mk_orders m' = jm_set i z' (mk_orders m)" "mk_nextOrderId m' = mk_nextOrderId m" "i \<in> fst ` T \<longrightarrow> evolves z z'"
  shows "tracks D km T m'"
proof -
  have "\<exists>y. jm_get (mk_orders m') j = Some y \<and> evolves x y" if j: "(j, x) \<in> T" for j x
  proof -
    obtain y where y: "jm_get (mk_orders m) j = Some y" "evolves x y" using assms(1) j by (auto simp: tracks_def)
    have "i = j \<longrightarrow> evolves z z'" using assms(7) j by (force intro: rev_image_eqI)
    then show ?thesis using y assms(2,5) evolves_trans [of x z z'] by (cases "i = j") (auto simp: jm.lookup_set)
  qed
  moreover have "\<exists>n < mk_nextOrderId m'. k = order_id n" if "jm_get (mk_orders m') k = Some u" for k u
    using that assms(1,2,5,6) by (auto simp: tracks_def jm.lookup_set split: if_splits)
  ultimately show ?thesis using assms(4) by (auto simp: tracks_def)
qed

lemma order_id_inj [simp]: "order_id m = order_id n \<longleftrightarrow> m = n"
proof
  assume "order_id m = order_id n"
  then have "map (char_digit \<circ> digit_char) (nat_digits m) = map (char_digit \<circ> digit_char) (nat_digits n)"
    by (simp add: order_id_def nat_str_def) (metis list.map_comp)
  then have "nat_digits m = nat_digits n"
    by (simp add: nat_digits_lt char_digit_digit_char cong: map_cong)
  then show "m = n" by (metis digits_value_nat_digits)
qed simp

lemma fillOrder_tracks:
  assumes D: "decimal_exact D rnd" and t: "tracks D km T m" and n: "opt_number_ok D po" "opt_number_ok D qo"
  shows "tracks D km T (snd (mock_fillOrder D i po qo m))"
proof (cases "fill_plan D i po qo m")
  case (Inl e)
  then show ?thesis using t by (simp add: fillOrder_plan)
next
  case (Inr w)
  have ok: "book_ok D km m" using t by (simp add: tracks_def)
  have book: "book_ok D km (snd (mock_fillOrder D i po qo m))" by (rule fillOrder_book [OF exact_laws [OF D] ok n])
  obtain z qty left price sd where w: "w = (z, qty, left, price, sd)" by (metis prod.exhaust)
  note plan = Inr [unfolded w]
  from plan obtain p: "pending_order m i = Some z" "dec_field (o_totalQuantity (mo_order z)) = Inr left" by (rule fill_planE)
  obtain q l r where fin: "qty = Fin q" "left = Fin l" "price = Fin r" "0 < q" "q \<le> l" "order_ok D km i z"
    using fill_plan_finite [OF ok n plan] by blast
  have ev: "evolves z (after_fill D (Fin q) price (Fin l) z)"
    using after_fill_evolves [OF D fin(6) _ fin(4,5)] p fin(2) by (simp add: pending_order_Some)
  obtain a m1 where g: "mock_applyFill D (mo_contract z) sd qty price m = (a, m1)" by (metis prod.exhaust)
  then have m1: "mk_orders m1 = mk_orders m" "mk_nextOrderId m1 = mk_nextOrderId m"
    using applyFill_sel(1) [of D "mo_contract z" sd qty price m] applyFill_next [of D "mo_contract z" sd qty price m] by simp_all
  have mlt: "multiplierOf D (mo_contract z) = Inr (Fin (km (mock_native_key (mo_contract z))))"
    using fin(6) by (simp add: order_ok_def has_multiplier_def)
  show ?thesis
  proof (cases a)
    case (Inl e)
    then have "snd (mock_fillOrder D i po qo m) = m1" using g by (simp add: fillOrder_plan(1) [OF plan] fill_effects_eq(2))
    then show ?thesis using tracks_cong [OF t book] m1 by simp
  next
    case (Inr u)
    then have "mk_orders (snd (mock_fillOrder D i po qo m)) = jm_set i (after_fill D qty price left z) (mk_orders m)"
      "mk_nextOrderId (snd (mock_fillOrder D i po qo m)) = mk_nextOrderId m"
      using g m1 fin(6) by (simp_all add: fillOrder_plan(1) [OF plan] fill_effects_eq(1) [OF _ mlt] order_ok_def)
    then show ?thesis using ev p(1) fin(1,2,6) by (intro tracks_put [OF t _ _ book]) (auto simp: pending_order_Some order_ok_def)
  qed
qed

lemma match_orders_tracks:
  assumes D: "decimal_exact D rnd"
  shows "keeps (tracks D km T) (match_orders D key (Fin r) ids)"
proof (induction ids)
  case Nil
  show ?case unfolding match_orders.simps by (rule keeps_intros)
next
  case (Cons i ids)
  have "keeps (tracks D km T) (match_one D key (Fin r) i)"
    unfolding match_one_def by (intro keeps_intros) (simp_all add: keeps_def fillOrder_tracks [OF D])
  then show ?case unfolding match_orders.simps by (intro keeps_intros Cons.IH)
qed

lemma setMarkPrice_tracks:
  assumes D: "decimal_exact D rnd" and t: "tracks D km T m" and n: "number_ok D v"
  shows "tracks D km T (snd (mock_setMarkPrice D key v m))"
proof (cases "as_decimal D v")
  case (Inl e)
  then show ?thesis using t by (simp add: mock_setMarkPrice_def)
next
  case (Inr d)
  then obtain r where d: "d = Fin r" using n by (rule_tac number_okE)
  have ok: "book_ok D km m" using t by (simp add: tracks_def)
  have "book_ok D km (set_mark key (Fin r) m)" unfolding set_mark_def using book_ok_mark [OF ok] by simp
  then have "tracks D km T (set_mark key (Fin r) m)" by (rule tracks_cong [OF t]) (simp_all add: set_mark_def)
  from match_orders_tracks [OF D, unfolded keeps_def, rule_format, OF this] show ?thesis
    using Inr by (simp add: mock_setMarkPrice_def d thenS_def matchPendingOrders_def set_mark_def)
qed

text \<open>The calls that do not touch an order.\<close>

definition same_orders :: "mock \<Rightarrow> mock \<Rightarrow> bool" where
  "same_orders m0 m \<longleftrightarrow> mk_orders m = mk_orders m0 \<and> mk_nextOrderId m = mk_nextOrderId m0"

lemma applyFill_same [keeps_intros]: "keeps (same_orders m0) (mock_applyFill D c sd qty price)"
  by (simp add: keeps_def same_orders_def applyFill_sel applyFill_next)

lemma build_same [keeps_intros]: "keeps (same_orders m0) (mock_buildContract key pc)"
  unfolding mock_buildContract_def by (intro keeps_intros) (simp add: same_orders_def)

lemma put_position_sel [simp]:
  "mk_orders (put_position k p m) = mk_orders m" "mk_nextOrderId (put_position k p m) = mk_nextOrderId m"
  by (simp_all add: put_position_def)

lemma mark_wallet_sel [simp]:
  "mk_orders (mark_wallet k m) = mk_orders m" "mk_nextOrderId (mark_wallet k m) = mk_nextOrderId m"
  by (simp_all add: mark_wallet_def split: option.splits)

lemma record_same [keeps_intros]: "keeps (same_orders m0) (mock_record f)"
  unfolding mock_record_def by (intro keeps_intros) (simp add: same_orders_def)

lemma checkFail_same [keeps_intros]: "keeps (same_orders m0) (mock_checkFail f)"
  by (simp add: keeps_def mock_checkFail_def Let_def same_orders_def)

lemma no_order_calls:
  "keeps (same_orders m0) (mock_externalDeposit D k q pc)" "keeps (same_orders m0) (mock_externalWithdraw D k q)"
  "keeps (same_orders m0) (mock_externalTrade D k sd q p pc)" "keeps (same_orders m0) (mock_getAccount D)"
  "keeps (same_orders m0) (mock_getPositions D)" "keeps (same_orders m0) (mock_getQuote D t c)"
  unfolding mock_externalDeposit_def mock_externalWithdraw_def mock_externalTrade_def trade_position_def trade_cash_def
    mock_getAccount_def mock_getPositions_def mock_getQuote_def Let_def
  by (intro keeps_intros; simp add: same_orders_def)+

lemma same_orders_tracks:
  assumes "keeps (same_orders m) f" "tracks D km T m" "book_ok D km (snd (f m))"
  shows "tracks D km T (snd (f m))"
proof -
  have "same_orders m (snd (f m))" using assms(1) by (simp add: keeps_def same_orders_def)
  then show ?thesis by (intro tracks_cong [OF assms(2,3)]) (simp_all add: same_orders_def)
qed

text \<open>A new order does not take the place of one that is there.\<close>

lemma tracks_new:
  assumes t: "tracks D km T m" and ok: "book_ok D km m'"
    and m': "mk_orders m' = mk_orders m \<or> (\<exists>z.
       mk_orders m' = jm_set (order_id (mk_nextOrderId m)) z (mk_orders m))"
    and n: "mk_nextOrderId m' = Suc (mk_nextOrderId m)"
  shows "tracks D km T m'"
proof -
  have "\<exists>y. jm_get (mk_orders m') j = Some y \<and> evolves x y" if j: "(j, x) \<in> T" for j x
  proof -
    obtain y where y: "jm_get (mk_orders m) j = Some y" "evolves x y" using t j by (auto simp: tracks_def)
    then have "j \<noteq> order_id (mk_nextOrderId m)" using t by (auto simp: tracks_def)
    then show ?thesis using m' y by (auto simp: jm.lookup_set)
  qed
  moreover have "\<exists>k < mk_nextOrderId m'. i = order_id k" if "jm_get (mk_orders m') i = Some u" for i u
  proof (cases "i = order_id (mk_nextOrderId m)")
    case False
    then have "jm_get (mk_orders m) i = Some u" using that m' by (auto simp: jm.lookup_set)
    then show ?thesis using t n by (auto simp: tracks_def intro: less_SucI)
  qed (use n in auto)
  ultimately show ?thesis using ok by (auto simp: tracks_def)
qed

lemma place_market_orders:
  "(mk_orders (snd (place_market D c od n sd qty m)) = mk_orders m \<or>
     (\<exists>z. mk_orders (snd (place_market D c od n sd qty m)) = jm_set (order_id n) z (mk_orders m))) \<and>
   mk_nextOrderId (snd (place_market D c od n sd qty m)) = mk_nextOrderId m"
proof -
  define price where "price = (case mark_price_for c m of None \<Rightarrow> Fin 100 | Some p \<Rightarrow> p)"
  obtain a m1 where f: "mock_applyFill D c sd qty price m = (a, m1)" by (metis prod.exhaust)
  then have m1: "mk_orders m1 = mk_orders m" "mk_nextOrderId m1 = mk_nextOrderId m"
    using applyFill_sel(1) [of D c sd qty price m] applyFill_next [of D c sd qty price m] by simp_all
  show ?thesis using f m1
    by (cases "multiplierOf D c"; cases a; cases "cloneOrder od n")
       (auto simp: place_market_def price_def [symmetric] bindS_def thenS_def catchS_def)
qed

lemma place_resting_orders:
  "(mk_orders (snd (place_resting c od n m)) = mk_orders m \<or>
     (\<exists>z. mk_orders (snd (place_resting c od n m)) = jm_set (order_id n) z (mk_orders m))) \<and>
   mk_nextOrderId (snd (place_resting c od n m)) = mk_nextOrderId m"
  by (cases "cloneOrder od n") (auto simp: place_resting_def thenS_def)

lemma placeOrder_tracks:
  assumes t: "tracks D km T m" and ok: "book_ok D km (snd (mock_placeOrder D c od m))" and p: "placeable D km c od"
  shows "tracks D km T (snd (mock_placeOrder D c od m))"
proof -
  obtain sd where sd: "action_upper od = Inr sd" using p sided_action by (auto simp: placeable_def)
  obtain q where q: "order_quantity od = Inr (Fin q)" using p order_quantity_val by (auto simp: placeable_def)
  have n: "mk_nextOrderId (numbered m) = Suc (mk_nextOrderId m)" by (simp add: numbered_def)
  show ?thesis
    using place_market_orders [of D c od "mk_nextOrderId m" sd "Fin q" "numbered m"]
      place_resting_orders [of c od "mk_nextOrderId m" "numbered m"] n
    by (intro tracks_new [OF t ok]) (simp_all add: mock_placeOrder_eq [OF sd q])
qed

lemma tracks_callLog: "tracks D km T m \<Longrightarrow> tracks D km T (m\<lparr>mk_callLog := l\<rparr>)"
  by (rule tracks_cong) (simp_all add: tracks_def)

lemma closePosition_tracks:
  assumes D: "decimal_laws D rnd" and t: "tracks D km T m" and q: "case qty of None \<Rightarrow> True | Some v \<Rightarrow> quantity_ok (Some v)"
  shows "tracks D km T (snd (mock_closePosition D c qty m))"
proof (cases "jm_get (mk_positions m) (mock_native_key c)")
  case None
  then show ?thesis using tracks_callLog [OF t] by (simp add: mock_closePosition_def thenS_def mock_record_def)
next
  case (Some p)
  let ?m = "m\<lparr>mk_callLog := mk_callLog m @ [''closePosition'']\<rparr>"
  have ok: "book_ok D km m" using t by (simp add: tracks_def)
  have p: "position_ok D km (mock_native_key c) p" by (rule book_ok_lookup [OF ok Some])
  have "snd (mock_closePosition D c qty m) = snd (mock_placeOrder D (mp_contract p) (closing_order p qty) ?m)"
    using Some by (simp add: mock_closePosition_def thenS_def mock_record_def)
  then show ?thesis
    using placeOrder_tracks [OF tracks_callLog [OF t] _ closing_order_placeable [OF p q]] closePosition_book [OF D ok q, of c]
    by simp
qed

text \<open>
  The calls that an order runs its course under, from the state \<open>x\<close> on: a change of the order may ask
  for anything once it is finished and for all but a new quantity before; it is not forced into
  cancellation by the control panel.
\<close>

fun leaves_order :: "string \<Rightarrow> mock_order \<Rightarrow> mock_event \<Rightarrow> bool" where
  "leaves_order j x (MModify i ch) = (i \<noteq> j \<or> finished x \<or> o_totalQuantity ch \<in> {None, Some (DVal UNSET_DECIMAL)})"
| "leaves_order j x (MCancelPending i) = (i \<noteq> j)"
| "leaves_order j x _ = True"

lemma modify_keeps_quantity:
  assumes "o_totalQuantity ch \<in> {None, Some (DVal UNSET_DECIMAL)}"
  shows "keeps (\<lambda>od. o_totalQuantity od = q) (modify_fields ch)"
proof -
  have unset: "modify_field upd (o_totalQuantity ch) = returnS ()" for upd
    using assms by (auto simp: modify_field_def bindS_def d_equals_def UNSET_DECIMAL_def fun_eq_iff)
  show ?thesis
    unfolding modify_fields_def unset
    by (intro keeps_intros modify_field_keeps modify_text_keeps; simp)
qed

lemma modified_evolves:
  "mo_status z = ''Submitted'' \<Longrightarrow> o_totalQuantity od = o_totalQuantity (mo_order z) \<Longrightarrow> evolves z (z\<lparr>mo_order := od\<rparr>)"
  by (simp add: evolves_def finished_def executed_def rest_of_def)

lemma modifyOrder_tracks:
  assumes t: "tracks D km T m" and ch: "changes_ok ch" and i: "\<forall>(j, x) \<in> T. leaves_order j x (MModify i ch)"
  shows "tracks D km T (snd (mock_modifyOrder i ch m))"
proof (cases "pending_order m i")
  case None
  then show ?thesis using tracks_callLog [OF t] by (simp add: mock_modifyOrder_def thenS_def mock_record_def)
next
  case (Some z)
  have ok: "book_ok D km m" using t by (simp add: tracks_def)
  obtain r od where f: "modify_fields ch (mo_order z) = (r, od)" by (metis prod.exhaust)
  have z: "jm_get (mk_orders m) i = Some z" "mo_id z = i" "mo_status z = ''Submitted''"
    using Some book_ok_order [OF ok, of i] by (auto simp: pending_order_Some order_ok_def)
  have "evolves z (z\<lparr>mo_order := od\<rparr>)" if "(i, x) \<in> T" for x
  proof -
    obtain y where "jm_get (mk_orders m) i = Some y" "evolves x y" using t \<open>(i, x) \<in> T\<close> by (auto simp: tracks_def)
    then have "\<not> finished x" using z by (auto simp: evolves_def finished_def)
    then have "o_totalQuantity ch \<in> {None, Some (DVal UNSET_DECIMAL)}" using i \<open>(i, x) \<in> T\<close> by fastforce
    from modify_keeps_quantity [OF this, of "o_totalQuantity (mo_order z)"] f
    have "o_totalQuantity od = o_totalQuantity (mo_order z)" by (auto simp: keeps_def dest: spec [of _ "mo_order z"])
    then show ?thesis using z by (intro modified_evolves)
  qed
  moreover have "mk_orders (snd (mock_modifyOrder i ch m)) = jm_set i (z\<lparr>mo_order := od\<rparr>) (mk_orders m) \<and>
      mk_nextOrderId (snd (mock_modifyOrder i ch m)) = mk_nextOrderId m"
    using f Some z by (cases r) (simp_all add: mock_modifyOrder_def thenS_def mock_record_def on_order_def bindS_def)
  ultimately show ?thesis using z by (intro tracks_put [OF t z(1) _ modifyOrder_book [OF ok ch]]) auto
qed

lemma cancelOrder_tracks:
  assumes t: "tracks D km T m"
  shows "tracks D km T (snd (mock_cancelOrder i m))"
proof (cases "pending_order m i")
  case None
  then show ?thesis using tracks_callLog [OF t] by (simp add: mock_cancelOrder_def thenS_def mock_record_def)
next
  case (Some z)
  have ok: "book_ok D km m" using t by (simp add: tracks_def)
  have z: "jm_get (mk_orders m) i = Some z" "mo_id z = i" "mo_status z = ''Submitted''"
    using Some book_ok_order [OF ok, of i] by (auto simp: pending_order_Some order_ok_def)
  have "mk_orders (snd (mock_cancelOrder i m)) = jm_set i (z\<lparr>mo_status := ''Cancelled''\<rparr>) (mk_orders m) \<and>
      mk_nextOrderId (snd (mock_cancelOrder i m)) = mk_nextOrderId m"
    using Some z by (simp add: mock_cancelOrder_def thenS_def mock_record_def bindS_def)
  then show ?thesis using z cancelled_evolves by (intro tracks_put [OF t z(1) _ cancelOrder_book [OF ok]]) auto
qed

lemma cancelPending_tracks:
  assumes t: "tracks D km T m" and i: "\<forall>(j, x) \<in> T. leaves_order j x (MCancelPending i)"
  shows "tracks D km T (snd (mock_cancelPendingOrder i m))"
proof (cases "jm_get (mk_orders m) i")
  case None
  then show ?thesis using t by (simp add: mock_cancelPendingOrder_def)
next
  case (Some z)
  have ok: "book_ok D km m" using t by (simp add: tracks_def)
  have z: "mo_id z = i" using Some book_ok_order [OF ok, of i] by (auto simp: order_ok_def)
  have "mk_orders (snd (mock_cancelPendingOrder i m)) = jm_set i (z\<lparr>mo_status := ''Cancelled''\<rparr>) (mk_orders m) \<and>
      mk_nextOrderId (snd (mock_cancelPendingOrder i m)) = mk_nextOrderId m"
    using Some z by (simp add: mock_cancelPendingOrder_def bindS_def)
  then show ?thesis using z i by (intro tracks_put [OF t Some _ cancelPending_book [OF ok]]) auto
qed

lemma tickPrice_tracks:
  assumes D: "decimal_exact D rnd" and t: "tracks D km T m"
  shows "tracks D km T (snd (mock_tickPrice D key delta m))"
proof (cases "jm_get (mk_markPrices m) key")
  case None
  then show ?thesis using t by (simp add: mock_tickPrice_def)
next
  case (Some p)
  then have "d_isFinite p" using t by (simp add: tracks_def book_ok_def)
  then obtain r where "p = Fin r" by (rule d_isFiniteE)
  then show ?thesis using Some setMarkPrice_tracks [OF D t]
    by (simp add: mock_tickPrice_def number_ok_def decimal_exact.exact_arith [OF D])
qed

lemma converted_tracks:
  assumes t: "tracks D km T m" and z: "jm_get (mk_orders m) i = Some z"
  shows "tracks D km T (put_order (with_filled z) m)"
proof -
  have ok: "book_ok D km m" using t by (simp add: tracks_def)
  have i: "order_ok D km i z" "mo_id z = i" using book_ok_order [OF ok z] by (simp_all add: order_ok_def)
  then have "book_ok D km (put_order (with_filled z) m)" by (intro book_ok_put_order ok) simp
  then show ?thesis using i by (intro tracks_put [OF t z]) auto
qed

lemma getOrder_tracks: "keeps (tracks D km T) (mock_getOrder D i)"
proof -
  have "tracks D km T (snd (mock_getOrder D i m))" if t: "tracks D km T m" for m
  proof (cases "jm_get (mk_orders m) i")
    case None
    then show ?thesis using tracks_callLog [OF t] by (simp add: mock_getOrder_def thenS_def mock_record_def bindS_def)
  next
    case (Some z)
    let ?m = "m\<lparr>mk_callLog := mk_callLog m @ [''getOrder'']\<rparr>"
    have "tracks D km T ?m" by (rule tracks_callLog [OF t])
    from converted_tracks [OF this, of i z] show ?thesis using Some
      by (simp add: mock_getOrder_def thenS_def mock_record_def bindS_def toOpenOrder_def)
  qed
  then show ?thesis by (simp add: keeps_def)
qed

lemma record_tracks: "keeps (tracks D km T) (mock_record f)"
  unfolding mock_record_def by (intro keeps_intros) (rule tracks_callLog)

lemma getOrders_tracks: "tracks D km T m \<Longrightarrow> tracks D km T (snd (mock_getOrders D ids m))"
proof -
  have "keeps (tracks D km T) (mock_getOrders D ids)"
    unfolding mock_getOrders_def by (intro keeps_intros getOrder_tracks record_tracks)
  then show "tracks D km T m \<Longrightarrow> tracks D km T (snd (mock_getOrders D ids m))" by (simp add: keeps_def)
qed

lemma convert_all_tracks:
  "tracks D km T m \<Longrightarrow> \<forall>z \<in> set zs. jm_get (mk_orders m) (mo_id z) = Some z \<Longrightarrow> distinct (map mo_id zs) \<Longrightarrow>
     tracks D km T (snd (mapS (toOpenOrder D) zs m))"
proof (induction zs arbitrary: m)
  case Nil
  then show ?case by simp
next
  case (Cons z zs)
  let ?m = "put_order (with_filled z) m"
  have "tracks D km T ?m" using Cons.prems converted_tracks [OF Cons.prems(1), of "mo_id z" z] by simp
  moreover have "\<forall>u \<in> set zs. jm_get (mk_orders ?m) (mo_id u) = Some u"
  proof
    fix u assume u: "u \<in> set zs"
    have "mo_id z \<notin> mo_id ` set zs" using Cons.prems(3) by simp
    then have "mo_id u \<noteq> mo_id z" using u by (metis imageI)
    moreover have "jm_get (mk_orders m) (mo_id u) = Some u" using Cons.prems(2) u by simp
    ultimately show "jm_get (mk_orders ?m) (mo_id u) = Some u" by (simp add: jm.lookup_set)
  qed
  ultimately have IH: "tracks D km T (snd (mapS (toOpenOrder D) zs ?m))"
    by (rule Cons.IH) (use Cons.prems(3) in simp)
  obtain r m2 where e: "mapS (toOpenOrder D) zs ?m = (r, m2)" by (metis prod.exhaust)
  have one: "toOpenOrder D z m = (Inr (open_order_of D z), ?m)" by (simp add: toOpenOrder_def thenS_def)
  show ?case using IH by (cases r) (simp_all add: bindS_def one e del: bindS_eq)
qed

lemma getOpenOrders_tracks:
  assumes t: "tracks D km T m"
  shows "tracks D km T (snd (mock_getOpenOrders D m))"
proof -
  let ?m = "m\<lparr>mk_callLog := mk_callLog m @ [''getOpenOrders'']\<rparr>"
  let ?zs = "filter (\<lambda>x. mo_status x = ''Submitted'') (jm_values (mk_orders m))"
  have ok: "book_ok D km m" using t by (simp add: tracks_def)
  have entry: "jm_get (mk_orders m) i = Some z" if "(i, z) \<in> set (mk_orders m)" for i z
    using that ok by (simp add: book_ok_def jm_ok_def jm_get_def)
  then have id: "mo_id z = i" if "(i, z) \<in> set (mk_orders m)" for i z
    using book_ok_order [OF ok entry [OF that]] by (simp add: order_ok_def)
  have "map mo_id (jm_values (mk_orders m)) = map fst (mk_orders m)"
    using id by (auto simp: jm_values_def)
  then have "distinct (map mo_id (jm_values (mk_orders m)))" using ok by (simp add: book_ok_def jm_ok_def)
  then have "distinct (map mo_id ?zs)" by (rule distinct_map_filter)
  moreover have "\<forall>z \<in> set ?zs. jm_get (mk_orders ?m) (mo_id z) = Some z"
    using entry id by (auto simp: jm_values_def)
  ultimately have "tracks D km T (snd (mapS (toOpenOrder D) ?zs ?m))" by (intro convert_all_tracks tracks_callLog t)
  then show ?thesis by (simp add: mock_getOpenOrders_def thenS_def mock_record_def)
qed

lemma mock_step_tracks:
  assumes D: "decimal_exact D rnd" and t: "tracks D km T m" and ev: "event_ok D km ev" "\<forall>(j, x) \<in> T. leaves_order j x ev"
  shows "tracks D km T (mock_step D ev m)"
proof -
  have ok: "book_ok D km m" using t by (simp add: tracks_def)
  note book = mock_step_book [OF exact_laws [OF D] ok ev(1)]
  show ?thesis
  proof (cases ev)
    case (MPlace c od)
    then show ?thesis using placeOrder_tracks [OF t] book ev(1) by simp
  next
    case (MFailMode n)
    then show ?thesis using t book by (intro tracks_cong [OF t]) (simp_all add: mock_setFailMode_def)
  next
    case (MAccountInfo ch)
    then show ?thesis using t book by (intro tracks_cong [OF t]) (simp_all add: mock_setAccountInfo_def Let_def)
  qed (use t ev book modifyOrder_tracks [OF t] cancelOrder_tracks [OF t] closePosition_tracks [OF exact_laws [OF D] t]
      getOrders_tracks [OF t] getOpenOrders_tracks [OF t] setMarkPrice_tracks [OF D t] tickPrice_tracks [OF D t]
      fillOrder_tracks [OF D t] cancelPending_tracks [OF t] no_order_calls [THEN same_orders_tracks, OF t] in simp_all)
qed

interpretation mock_order_life: event_invariant "mock_step D" "\<lambda>ev. event_ok D km ev \<and> (\<forall>(j, x) \<in> T. leaves_order j x ev)"
    "\<lambda>m. decimal_exact D rnd \<longrightarrow> tracks D km T m"
  by unfold_locales (simp add: mock_step_tracks)

lemma tracks_new_mock: "tracks D km {} (new_mock i (Fin c) info)"
  using book_ok_new by (simp add: tracks_def new_mock_def)

text \<open>C28: an order runs its course once.  When the decimal arithmetic rounds nothing and the calls are
  sensible ones (\<open>event_ok\<close>: finite numbers, orders with a side, a positive quantity and a finite limit
  price if any, one multiplier per instrument, and outside transfers of a contract under its own key),
  then once an order is filled or cancelled no further call changes its status, its executed quantity or
  its average price, whatever modification of it is asked for.  Until then it stays pending, fills or
  is cancelled; what was executed and what is left add up to what was ordered, also when its prices or
  other terms are modified, and when it is filled exactly that has been executed.  Left out are a
  modification that gives a pending order a new quantity and the control panel's forced cancellation
  of the order, which overwrites any status.\<close>

theorem orders_final_and_accounted:
  assumes "decimal_exact D rnd" and "list_all (event_ok D km) evs"
    and "m = mock_run D evs (new_mock i (Fin c) info)" and "jm_get (mk_orders m) j = Some x"
    and "list_all (\<lambda>ev. event_ok D km ev \<and> leaves_order j x ev) evs'"
  shows "\<exists>y. jm_get (mk_orders (mock_run D evs' m)) j = Some y \<and> mo_contract y = mo_contract x \<and>
    executed x \<le> executed y \<and>
    (finished x \<longrightarrow> mo_status y = mo_status x \<and> mo_filledQuantity y = mo_filledQuantity x \<and>
       mo_avgFillPrice y = mo_avgFillPrice x) \<and>
    (\<not> finished x \<longrightarrow> mo_status y = ''Cancelled'' \<or>
       mo_status y = ''Submitted'' \<and> executed y + rest_of y = executed x + rest_of x \<or>
       mo_status y = ''Filled'' \<and> executed y = executed x + rest_of x)"
proof -
  have "list_all (\<lambda>ev. event_ok D km ev \<and> (\<forall>(j, x) \<in> {}. leaves_order j x ev)) evs" using assms(2) by simp
  from mock_order_life.run_inv [OF impI [OF tracks_new_mock] this, rule_format, OF assms(1)]
  have "tracks D km {} m" by (simp add: mock_run_def assms(3))
  then have "tracks D km {(j, x)} m" using assms(4) by (auto simp: tracks_def)
  from mock_order_life.run_inv [OF impI [OF this], of evs', rule_format, OF _ assms(1)] assms(5)
  have "tracks D km {(j, x)} (mock_run D evs' m)" by (simp add: mock_run_def)
  then show ?thesis by (auto simp: tracks_def evolves_def rest_of_def)
qed

section \<open>Where the control panel loses money and history\<close>

text \<open>An outside trade that closes a position loses the contract multiplier.  Selling all of a long
  position of a contract with multiplier \<open>k\<close> at its price through \<open>externalTrade\<close> credits the quantity
  times the price alone, because the multiplier is looked up in the position that the fill has just
  removed: the account loses \<open>k - 1\<close> times that amount, while the same sale as an order conserves it.\<close>

theorem outside_close_loses_multiplier:
  assumes "decimal_exact D rnd" and "list_all (event_ok D km) evs"
    and "m = mock_run D evs (new_mock i (Fin c) info)"
    and "jm_get (mk_positions m) key = Some p" and "mp_side p = Long" and "mp_quantity p = Fin q"
    and "jm_get (mk_markPrices m) key = Some (Fin r)"
  shows "\<exists>m'. mock_externalTrade D key TSell (NDec (Fin q)) (NDec (Fin r)) None m = (Inr (), m') \<and>
    fin_val (mk_cash m') = fin_val (mk_cash m) + q * r \<and> equity D m' = equity D m - q * r * (km key - 1)"
proof -
  have ok: "book_ok D km m" using book_ok_reach [OF exact_laws [OF assms(1)] assms(2)] by (simp add: assms(3))
  note exact = decimal_exact.exact_arith [OF assms(1)]
  have p: "position_ok D km key p" by (rule book_ok_lookup [OF ok assms(4)])
  then have k: "mock_native_key (mp_contract p) = key" "has_multiplier D km (mp_contract p)" "0 < q"
    using assms(6) by (simp_all add: position_ok_def)
  obtain cash where cash: "mk_cash m = Fin cash" using ok by (auto simp: book_ok_def elim: d_isFiniteE)
  let ?m1 = "(mock_remember (mp_contract p) m)\<lparr>mk_positions := jm_delete key (mk_positions m)\<rparr>"
  have f: "mock_applyFill D (mp_contract p) ''SELL'' (Fin q) (Fin r) m = (Inr (), ?m1)"
    using assms(4-6) by (simp add: applyFill_some k(1) is_increasing_def reduce_position_def Let_def exact)
  have gone: "jm_get (mk_positions ?m1) key = None"
    using ok by (simp add: jm.lookup_delete book_ok_def)
  have t: "mock_externalTrade D key TSell (NDec (Fin q)) (NDec (Fin r)) None m = (Inr (), pay_cash D ''SELL'' (Fin (q * r)) ?m1)"
    using assms(4) k(3) f gone
    by (simp add: externalTrade_eq trade_position_def trade_cash_def trade_multiplier_def thenS_def mark_wallet_def exact)
  have m1: "book_ok D km ?m1" using applyFill_result_book [OF exact_laws [OF assms(1)] ok k(2,3) f] .
  have "equity D ?m1 = equity D m - q * r * km key"
    using applyFill_equity [OF assms(1) ok k(2) _ _ f] assms(7) k(1) by (simp add: mark_price_for_def signed_qty_def)
  then show ?thesis using t pay_cash_equity [OF assms(1) m1, of "''SELL''" "q * r"] cash
    by (simp add: pay_cash_def exact signed_qty_def algebra_simps)
qed

section \<open>Witnesses\<close>

lemma orders_final_and_accounted_witness:
  "\<exists>y. jm_get (mk_orders (mock_run exact_decimal [MPrice ''AAPL'' (NNum 120)] demo_exchange)) ''mock-ord-2'' = Some y \<and>
     mo_status y = ''Filled'' \<and> executed y = 2"
proof -
  have "case jm_get (mk_orders demo_exchange) ''mock-ord-2'' of None \<Rightarrow> False
    | Some x \<Rightarrow> \<not> finished x \<and> executed x + rest_of x = 2" by code_simp
  then obtain x where x: "jm_get (mk_orders demo_exchange) ''mock-ord-2'' = Some x" "\<not> finished x" "executed x + rest_of x = 2"
    by (auto split: option.splits)
  have e: "list_all (\<lambda>ev. event_ok exact_decimal (\<lambda>k. 1) ev \<and> leaves_order ''mock-ord-2'' x ev) [MPrice ''AAPL'' (NNum 120)]"
    by (simp add: number_ok_def)
  have "case jm_get (mk_orders (mock_run exact_decimal [MPrice ''AAPL'' (NNum 120)] demo_exchange)) ''mock-ord-2'' of
    None \<Rightarrow> False | Some y \<Rightarrow> mo_status y = ''Filled''" by code_simp
  with orders_final_and_accounted [OF ex.decimal_exact_axioms demo_calls_ok demo_exchange_def x(1) e] x show ?thesis
    by auto
qed

text \<open>Three options with a multiplier of 100, deposited when their price was 5.\<close>

definition demo_option_deposit :: "mock_event list" where
  "demo_option_deposit =
     [MPrice ''OPT'' (NNum 5), MDeposit ''OPT'' (NNum 3)
        (Some \<lparr>cp_symbol = None, cp_secType = None, cp_exchange = None, cp_currency = None, cp_localSymbol = None,
           cp_lastTradeDate = None, cp_strike = None, cp_right = None, cp_multiplier = Some ''100''\<rparr>)]"

lemma outside_close_loses_multiplier_witness:
  "\<exists>m m'. m = mock_run exact_decimal demo_option_deposit (new_mock ''demo'' (Fin 0) None) \<and>
     mock_externalTrade exact_decimal ''OPT'' TSell (NDec (Fin 3)) (NDec (Fin 5)) None m = (Inr (), m') \<and>
     fin_val (mk_cash m') = 15"
proof -
  let ?m = "mock_run exact_decimal demo_option_deposit (new_mock ''demo'' (Fin 0) None)"
  have ok: "list_all (event_ok exact_decimal (\<lambda>k. 100)) demo_option_deposit" by code_simp
  have "case jm_get (mk_positions ?m) ''OPT'' of None \<Rightarrow> False | Some p \<Rightarrow> mp_side p = Long \<and> mp_quantity p = Fin 3"
    by code_simp
  then obtain p where p: "jm_get (mk_positions ?m) ''OPT'' = Some p" "mp_side p = Long" "mp_quantity p = Fin 3"
    by (auto split: option.splits)
  have r: "jm_get (mk_markPrices ?m) ''OPT'' = Some (Fin 5)" "fin_val (mk_cash ?m) = 0" by code_simp+
  from outside_close_loses_multiplier [OF ex.decimal_exact_axioms ok refl p r(1)] r(2) show ?thesis by auto
qed

end
