(* ===== verification/Snapshots.thy ===== *)
theory Snapshots
  imports UTA_Reads "HOL-Library.List_Lexorder"
begin

text \<open>
  The snapshots of an account (\<open>snapshot/builder.ts\<close>, \<open>store.ts\<close>, \<open>service.ts\<close>): what is captured, the
  chunked files with their index, and the service that retries.  A file of lines is the list of the
  snapshots that its lines parse to; the write chain of the store runs appends and deletes one after
  the other, which is how they are composed here.
\<close>

section \<open>The snapshot\<close>

datatype snapshot_trigger = Scheduled | PostPush | PostReject | Manual

record snapshot_account =
  sc_baseCurrency :: string
  sc_netLiquidation :: string
  sc_totalCashValue :: string
  sc_unrealizedPnL :: string
  sc_realizedPnL :: string
  sc_buyingPower :: "string option"
  sc_initMarginReq :: "string option"
  sc_maintMarginReq :: "string option"

record snapshot_position =
  sq_alice :: string
  sq_currency :: string
  sq_side :: side
  sq_quantity :: string
  sq_avgCost :: string
  sq_marketPrice :: string
  sq_marketValue :: string
  sq_unrealizedPnL :: string
  sq_realizedPnL :: string
  sq_secType :: "string option"
  sq_multiplier :: "string option"
  sq_strike :: "rat option"
  sq_right :: "string option"
  sq_expiry :: "string option"

record snapshot_order =
  so_orderId :: string
  so_aliceId :: string
  so_action :: "string option"
  so_orderType :: "string option"
  so_totalQuantity :: string
  so_limitPrice :: "string option"
  so_status :: string
  so_avgFillPrice :: "string option"

datatype snapshot_health = SnapHealth health | SnapDisabled

record uta_snapshot =
  sn_accountId :: string
  sn_timestamp :: string
  sn_trigger :: snapshot_trigger
  sn_account :: snapshot_account
  sn_positions :: "snapshot_position list"
  sn_openOrders :: "snapshot_order list"
  sn_health :: snapshot_health
  sn_headCommit :: "string option"
  sn_pendingCommits :: "string list"

section \<open>The builder\<close>

definition snapshot_account_of :: "account_info \<Rightarrow> snapshot_account" where
  "snapshot_account_of a =
     \<lparr>sc_baseCurrency = ai_baseCurrency a, sc_netLiquidation = ai_netLiquidation a,
      sc_totalCashValue = ai_totalCashValue a, sc_unrealizedPnL = ai_unrealizedPnL a,
      sc_realizedPnL = (case ai_realizedPnL a of Some s \<Rightarrow> s | None \<Rightarrow> ''0''),
      sc_buyingPower = ai_buyingPower a, sc_initMarginReq = ai_initMarginReq a,
      sc_maintMarginReq = ai_maintMarginReq a\<rparr>"

definition alice_or_native :: "'w uta_config \<Rightarrow> contract \<Rightarrow> string" where
  "alice_or_native cfg c = (case c_aliceId c of Some a \<Rightarrow> a | None \<Rightarrow> ib_getNativeKey (uc_broker cfg) c)"

definition text_field :: "string \<Rightarrow> string option" where
  "text_field s = (if s = [] then None else Some s)"

definition snapshot_position_of :: "'w uta_config \<Rightarrow> dec position \<Rightarrow> snapshot_position" where
  "snapshot_position_of cfg p =
     \<lparr>sq_alice = alice_or_native cfg (p_contract p), sq_currency = p_currency p, sq_side = p_side p,
      sq_quantity = dj_to_string (uc_decimal cfg) (p_quantity p), sq_avgCost = p_avgCost p,
      sq_marketPrice = p_marketPrice p, sq_marketValue = p_marketValue p,
      sq_unrealizedPnL = p_unrealizedPnL p, sq_realizedPnL = p_realizedPnL p,
      sq_secType = text_field (c_secType (p_contract p)),
      sq_multiplier = (if truthy (p_multiplier p) \<and> the (p_multiplier p) \<noteq> ''1'' then p_multiplier p else None),
      sq_strike = (if c_strike (p_contract p) = UNSET_DOUBLE then None else Some (c_strike (p_contract p))),
      sq_right = text_field (c_right (p_contract p)),
      sq_expiry = text_field (c_lastTradeDateOrContractMonth (p_contract p))\<rparr>"

definition snapshot_order_of :: "'w uta_config \<Rightarrow> open_order \<Rightarrow> js_error + snapshot_order" where
  "snapshot_order_of cfg x =
     (case o_totalQuantity (oo_order x) of
        None \<Rightarrow> Inl TypeError
      | Some q \<Rightarrow> Inr
          \<lparr>so_orderId = (case o_orderId (oo_order x) of None \<Rightarrow> ''undefined'' | Some n \<Rightarrow> int_str n),
           so_aliceId = alice_or_native cfg (oo_contract x), so_action = o_action (oo_order x),
           so_orderType = o_orderType (oo_order x), so_totalQuantity = jd_string (uc_decimal cfg) q,
           so_limitPrice = map_option (jd_string (uc_decimal cfg)) (o_lmtPrice (oo_order x)),
           so_status = os_status (oo_orderState x), so_avgFillPrice = oo_avgFillPrice x\<rparr>)"

text \<open>
  The three reads that the code starts together run here in their order; the snapshot is \<open>null\<close> as
  soon as one of them fails, and the ledger keeps what they wrote.
\<close>

definition snapshot_reads ::
  "'w uta_config \<Rightarrow> uta \<Rightarrow> 'w \<Rightarrow> (js_error + account_info \<times> dec position list \<times> open_order list) \<times> uta \<times> 'w"
where
  "snapshot_reads cfg u w =
     (let ids = map po_orderId (getPendingOrderIds (u_git u)) in
      case uta_getAccount cfg None u w of
        (a, u1, w1) \<Rightarrow>
          (case uta_getPositions cfg None u1 w1 of
             (ps, u2, w2) \<Rightarrow>
               (case uta_getOrders cfg ids (u_side u2, w2) of
                  (od, sw3) \<Rightarrow>
                    (bindE a (\<lambda>acc. bindE ps (\<lambda>xs. bindE od (\<lambda>ys. Inr (acc, xs, ys)))),
                     u2\<lparr>u_side := fst sw3\<rparr>, snd sw3))))"

definition assemble_snapshot ::
  "'w uta_config \<Rightarrow> snapshot_trigger \<Rightarrow> string \<Rightarrow> uta \<Rightarrow> account_info \<times> dec position list \<times> open_order list
    \<Rightarrow> js_error + uta_snapshot"
where
  "assemble_snapshot cfg trigger now u reads =
     (case reads of (acc, ps, ods) \<Rightarrow>
        bindE (mapE (snapshot_order_of cfg) (filter (\<lambda>x. working_status (os_status (oo_orderState x))) ods)) (\<lambda>os.
        let st = tg_status (u_git u); h = us_health (u_side u) in
        Inr \<lparr>sn_accountId = uc_id cfg, sn_timestamp = now, sn_trigger = trigger,
             sn_account = snapshot_account_of acc, sn_positions = map (snapshot_position_of cfg) ps,
             sn_openOrders = os,
             sn_health = (if hs_disabled h then SnapDisabled else SnapHealth (health_of (health_cfg cfg) h)),
             sn_headCommit = st_head st,
             sn_pendingCommits = (case st_pendingHash st of Some x \<Rightarrow> if x = [] then [] else [x] | None \<Rightarrow> [])\<rparr>))"

definition buildSnapshot ::
  "'w uta_config \<Rightarrow> snapshot_trigger \<Rightarrow> uta \<Rightarrow> 'w \<Rightarrow> uta_snapshot option \<times> uta \<times> 'w"
where
  "buildSnapshot cfg trigger u w =
     (if hs_disabled (us_health (u_side u)) \<or> health_of (health_cfg cfg) (us_health (u_side u)) = Offline
      then (None, u, w)
      else
        (case uta_sync cfg u w of
           (_, u1, w1) \<Rightarrow>
             (case snapshot_reads cfg u1 w1 of
                (Inl e, u2, w2) \<Rightarrow> (None, u2, w2)
              | (Inr reads, u2, w2) \<Rightarrow>
                  (case assemble_snapshot cfg trigger (uc_iso cfg w2) u2 reads of
                     Inl e \<Rightarrow> (None, u2, w2)
                   | Inr s \<Rightarrow> (Some s, u2, w2)))))"

section \<open>The store\<close>

definition CHUNK_SIZE :: nat where "CHUNK_SIZE = 50"

record chunk_entry =
  ce_file :: string
  ce_count :: nat
  ce_startTime :: string
  ce_endTime :: string

record snapshot_files =
  sf_index :: "chunk_entry list"
  sf_chunks :: "string \<Rightarrow> uta_snapshot list option"

definition no_files :: snapshot_files where
  "no_files = \<lparr>sf_index = [], sf_chunks = (\<lambda>f. None)\<rparr>"

definition chunkName :: "nat \<Rightarrow> string" where
  "chunkName n = ''chunk-'' @ map digit_char (pad_digits 4 n) @ ''.jsonl''"

text \<open>Where the next line goes, and the index with it.\<close>

definition next_chunk :: "uta_snapshot \<Rightarrow> chunk_entry list \<Rightarrow> string \<times> chunk_entry list" where
  "next_chunk s ix =
     (if ix = [] \<or> CHUNK_SIZE \<le> ce_count (last ix) then
        (let f = chunkName (length ix + 1) in
         (f, ix @ [\<lparr>ce_file = f, ce_count = 1, ce_startTime = sn_timestamp s, ce_endTime = sn_timestamp s\<rparr>]))
      else (ce_file (last ix),
        butlast ix @ [(last ix)\<lparr>ce_count := ce_count (last ix) + 1, ce_endTime := sn_timestamp s\<rparr>]))"

text \<open>\<open>appendFile\<close> creates the file when it is not there.\<close>

definition append_line :: "string \<Rightarrow> uta_snapshot \<Rightarrow> snapshot_files \<Rightarrow> snapshot_files" where
  "append_line f s fs = fs\<lparr>sf_chunks := (sf_chunks fs)(f := Some ((case sf_chunks fs f of None \<Rightarrow> [] | Some xs \<Rightarrow> xs) @ [s]))\<rparr>"

text \<open>The two writes of an append can fail, each with an error of the file system.\<close>

definition doAppend ::
  "js_error option \<Rightarrow> js_error option \<Rightarrow> uta_snapshot \<Rightarrow> snapshot_files \<Rightarrow> (js_error + unit) \<times> snapshot_files"
where
  "doAppend lineFails indexFails s fs =
     (case next_chunk s (sf_index fs) of
        (f, ix) \<Rightarrow>
          (case lineFails of
             Some e \<Rightarrow> (Inl e, fs)
           | None \<Rightarrow>
               (let fs1 = append_line f s fs in
                case indexFails of
                  Some e \<Rightarrow> (Inl e, fs1)
                | None \<Rightarrow> (Inr (), fs1\<lparr>sf_index := ix\<rparr>))))"

definition enoent :: "string \<Rightarrow> js_error" where
  "enoent f = PlainError (''ENOENT: no such file or directory, open '' @ f)"

text \<open>The deletion: the chunks that the index says may hold the time, until one does.\<close>

definition rewrite_chunk :: "nat \<Rightarrow> uta_snapshot list \<Rightarrow> snapshot_files \<Rightarrow> snapshot_files" where
  "rewrite_chunk i kept fs =
     (let c = sf_index fs ! i in
      if kept = [] then
        \<lparr>sf_index = take i (sf_index fs) @ drop (Suc i) (sf_index fs), sf_chunks = (sf_chunks fs)(ce_file c := None)\<rparr>
      else
        \<lparr>sf_index = (sf_index fs)[i := c\<lparr>ce_count := length kept, ce_startTime := sn_timestamp (hd kept),
            ce_endTime := sn_timestamp (last kept)\<rparr>],
         sf_chunks = (sf_chunks fs)(ce_file c \<mapsto> kept)\<rparr>)"

fun delete_from :: "string \<Rightarrow> nat list \<Rightarrow> snapshot_files \<Rightarrow> (js_error + bool) \<times> snapshot_files" where
  "delete_from t [] fs = (Inr False, fs)"
| "delete_from t (i # is) fs =
     (let c = sf_index fs ! i in
      if t < ce_startTime c \<or> ce_endTime c < t then delete_from t is fs
      else
        (case sf_chunks fs (ce_file c) of
           None \<Rightarrow> (Inl (enoent (ce_file c)), fs)
         | Some lines \<Rightarrow>
             (let kept = filter (\<lambda>s. sn_timestamp s \<noteq> t) lines in
              if length kept = length lines then delete_from t is fs
              else (Inr True, rewrite_chunk i kept fs))))"

definition doDelete :: "string \<Rightarrow> snapshot_files \<Rightarrow> (js_error + bool) \<times> snapshot_files" where
  "doDelete t fs = delete_from t [0..<length (sf_index fs)] fs"

text \<open>The reading: chunks and lines from the newest, cut off at the limit.\<close>

record range_opts =
  rg_startTime :: "string option"
  rg_endTime :: "string option"
  rg_limit :: "nat option"

definition in_range :: "range_opts \<Rightarrow> uta_snapshot \<Rightarrow> bool" where
  "in_range r s \<longleftrightarrow> \<not> (truthy (rg_startTime r) \<and> sn_timestamp s < the (rg_startTime r)) \<and>
     \<not> (truthy (rg_endTime r) \<and> the (rg_endTime r) < sn_timestamp s)"

definition limit_reached :: "range_opts \<Rightarrow> uta_snapshot list \<Rightarrow> bool" where
  "limit_reached r xs \<longleftrightarrow> (case rg_limit r of None \<Rightarrow> False | Some n \<Rightarrow> 0 < n \<and> n \<le> length xs)"

fun scan_lines :: "range_opts \<Rightarrow> uta_snapshot list \<Rightarrow> uta_snapshot list \<Rightarrow> bool \<times> uta_snapshot list" where
  "scan_lines r [] acc = (False, acc)"
| "scan_lines r (s # ss) acc =
     (if \<not> in_range r s then scan_lines r ss acc
      else let acc1 = acc @ [s] in if limit_reached r acc1 then (True, acc1) else scan_lines r ss acc1)"

definition skip_chunk :: "range_opts \<Rightarrow> chunk_entry \<Rightarrow> bool" where
  "skip_chunk r c \<longleftrightarrow> truthy (rg_startTime r) \<and> ce_endTime c < the (rg_startTime r) \<or>
     truthy (rg_endTime r) \<and> the (rg_endTime r) < ce_startTime c"

fun scan_chunks ::
  "range_opts \<Rightarrow> (string \<Rightarrow> uta_snapshot list option) \<Rightarrow> chunk_entry list \<Rightarrow> uta_snapshot list
    \<Rightarrow> js_error + uta_snapshot list"
where
  "scan_chunks r files [] acc = Inr acc"
| "scan_chunks r files (c # cs) acc =
     (if skip_chunk r c then scan_chunks r files cs acc
      else
        (case files (ce_file c) of
           None \<Rightarrow> Inl (enoent (ce_file c))
         | Some lines \<Rightarrow>
             (case scan_lines r (rev lines) acc of
                (True, acc1) \<Rightarrow> Inr acc1
              | (False, acc1) \<Rightarrow> scan_chunks r files cs acc1)))"

definition readRange :: "range_opts \<Rightarrow> snapshot_files \<Rightarrow> js_error + uta_snapshot list" where
  "readRange r fs = scan_chunks r (sf_chunks fs) (rev (sf_index fs)) []"

section \<open>What was appended is read back\<close>

lemma chunkName_inj [simp]: "chunkName m = chunkName n \<longleftrightarrow> m = n"
proof
  assume "chunkName m = chunkName n"
  then have "map digit_char (pad_digits 4 m) = map digit_char (pad_digits 4 n)" by (simp add: chunkName_def)
  then have "map (char_digit \<circ> digit_char) (pad_digits 4 m) = map (char_digit \<circ> digit_char) (pad_digits 4 n)"
    by (metis list.map_comp)
  then have "pad_digits 4 m = pad_digits 4 n"
    by (simp add: pad_digits_lt char_digit_digit_char cong: map_cong)
  then show "m = n" by (metis digits_value_pad)
qed simp

text \<open>The store as blocks of consecutive snapshots, one for each chunk.\<close>

definition entry_of :: "nat \<Rightarrow> uta_snapshot list \<Rightarrow> chunk_entry" where
  "entry_of i b = \<lparr>ce_file = chunkName (Suc i), ce_count = length b, ce_startTime = sn_timestamp (hd b),
     ce_endTime = sn_timestamp (last b)\<rparr>"

definition entries :: "uta_snapshot list list \<Rightarrow> chunk_entry list" where
  "entries bs = map2 entry_of [0..<length bs] bs"

definition chunked :: "uta_snapshot list list \<Rightarrow> snapshot_files \<Rightarrow> bool" where
  "chunked bs fs \<longleftrightarrow> sf_index fs = entries bs \<and>
     (\<forall>i. sf_chunks fs (chunkName (Suc i)) = (if i < length bs then Some (bs ! i) else None)) \<and>
     (\<forall>b \<in> set bs. b \<noteq> [] \<and> length b \<le> CHUNK_SIZE) \<and> (\<forall>b \<in> set (butlast bs). length b = CHUNK_SIZE)"

definition add_block :: "uta_snapshot \<Rightarrow> uta_snapshot list list \<Rightarrow> uta_snapshot list list" where
  "add_block s bs = (if bs = [] \<or> CHUNK_SIZE \<le> length (last bs) then bs @ [[s]]
     else butlast bs @ [last bs @ [s]])"

lemma entries_snoc: "entries (bs @ [b]) = entries bs @ [entry_of (length bs) b]"
  by (simp add: entries_def)

lemma entries_snoc2:
  "entries (bs @ [b, c]) = entries bs @ [entry_of (length bs) b, entry_of (Suc (length bs)) c]"
  using entries_snoc [of "bs @ [b]" c] by (simp add: entries_snoc)

lemma entries_Nil [simp]: "entries [] = []" "entries bs = [] \<longleftrightarrow> bs = []" "length (entries bs) = length bs"
  by (auto simp: entries_def)

lemma concat_add_block: "concat (add_block s bs) = concat bs @ [s]"
  by (cases bs rule: rev_cases) (auto simp: add_block_def)

lemma chunked_no_files: "chunked [] no_files"
  by (simp add: chunked_def no_files_def)

lemma doAppend_chunked:
  assumes "chunked bs fs"
  shows "chunked (add_block s bs) (snd (doAppend None None s fs))"
proof (cases bs rule: rev_cases)
  case Nil
  then show ?thesis using assms
    by (simp add: chunked_def doAppend_def next_chunk_def append_line_def add_block_def entries_snoc [of "[]", simplified]
        entry_of_def Let_def CHUNK_SIZE_def)
next
  case (snoc cs b)
  note c = assms [unfolded chunked_def snoc entries_snoc]
  show ?thesis
  proof (cases "CHUNK_SIZE \<le> length b")
    case True
    then have "length b = CHUNK_SIZE" using c by fastforce
    then show ?thesis using c True
      by (auto simp: chunked_def snoc doAppend_def next_chunk_def append_line_def add_block_def Let_def
          entries_snoc entries_snoc2 entry_of_def nth_append butlast_append CHUNK_SIZE_def less_Suc_eq)
  next
    case False
    then show ?thesis using c
      by (auto simp: chunked_def snoc doAppend_def next_chunk_def append_line_def add_block_def Let_def
          entries_snoc entry_of_def nth_append butlast_append)
  qed
qed

definition append_all :: "uta_snapshot list \<Rightarrow> snapshot_files" where
  "append_all ss = fold (\<lambda>s fs. snd (doAppend None None s fs)) ss no_files"

lemma append_all_chunked: "\<exists>bs. chunked bs (append_all ss) \<and> concat bs = ss"
proof (induction ss rule: rev_induct)
  case Nil
  then show ?case using chunked_no_files by (auto simp: append_all_def)
next
  case (snoc s ss)
  then obtain bs where "chunked bs (append_all ss)" "concat bs = ss" by blast
  then show ?case using doAppend_chunked [of bs "append_all ss" s] concat_add_block [of s bs]
    by (auto simp: append_all_def)
qed

definition cut :: "range_opts \<Rightarrow> 'a list \<Rightarrow> 'a list" where
  "cut r xs = (case rg_limit r of None \<Rightarrow> xs | Some n \<Rightarrow> if n = 0 then xs else take n xs)"

lemma scan_lines_eq:
  "\<not> limit_reached r acc \<Longrightarrow> scan_lines r xs acc =
     (limit_reached r (acc @ filter (in_range r) xs), cut r (acc @ filter (in_range r) xs))"
proof (induction xs arbitrary: acc)
  case Nil
  then show ?case by (auto simp: limit_reached_def cut_def split: option.splits)
next
  case (Cons x xs)
  show ?case
  proof (cases "in_range r x \<and> limit_reached r (acc @ [x])")
    case True
    then obtain "rg_limit r = Some (Suc (length acc))"
      using Cons.prems by (auto simp: limit_reached_def le_Suc_eq split: option.splits)
    then show ?thesis using True by (simp add: limit_reached_def cut_def)
  next
    case False
    then show ?thesis using Cons.IH [of acc] Cons.IH [of "acc @ [x]"] Cons.prems by auto
  qed
qed

text \<open>A chunk that the index excludes holds nothing in the range, when the times are in order.\<close>

lemma skip_chunk_empty:
  assumes "skip_chunk r (entry_of i b)" "sorted (map sn_timestamp b)" "b \<noteq> []"
  shows "filter (in_range r) b = []"
proof -
  have "sn_timestamp x \<le> sn_timestamp (last b) \<and> sn_timestamp (hd b) \<le> sn_timestamp x" if x: "x \<in> set b" for x
  proof -
    have "sorted (map sn_timestamp (butlast b) @ [sn_timestamp (last b)])"
      using assms(2,3) by (metis append_butlast_last_id list.simps(8,9) map_append)
    then have 1: "\<forall>y \<in> set (butlast b). sn_timestamp y \<le> sn_timestamp (last b)" by (simp add: sorted_append)
    have "sorted (sn_timestamp (hd b) # map sn_timestamp (tl b))" using assms(2,3) by (metis list.collapse list.map(2))
    then have 2: "\<forall>y \<in> set (tl b). sn_timestamp (hd b) \<le> sn_timestamp y" by simp
    have "x \<in> set (butlast b) \<or> x = last b" using x assms(3)
      by (metis append_butlast_last_id rotate1.simps(2) set_ConsD set_rotate1)
    moreover have "x \<in> set (tl b) \<or> x = hd b" using x by (metis list.collapse list.discI set_ConsD list.set_cases)
    ultimately show ?thesis using 1 2 by auto
  qed
  then have "\<not> in_range r x" if "x \<in> set b" for x
    using that assms(1) le_less_trans [of "sn_timestamp x" "sn_timestamp (last b)"]
      less_le_trans [of _ "sn_timestamp (hd b)" "sn_timestamp x"]
    unfolding skip_chunk_def entry_of_def in_range_def chunk_entry.simps by blast
  then show ?thesis by (simp add: filter_empty_conv)
qed

lemma scan_chunks_eq:
  assumes "\<not> limit_reached r acc" "sorted (map sn_timestamp (concat bs))" "\<forall>b \<in> set bs. b \<noteq> []"
    and "\<forall>i < length bs. files (chunkName (Suc i)) = Some (bs ! i)"
  shows "scan_chunks r files (rev (entries bs)) acc = Inr (cut r (acc @ filter (in_range r) (rev (concat bs))))"
  using assms
proof (induction bs arbitrary: acc rule: rev_induct)
  case Nil
  then show ?case by (auto simp: limit_reached_def cut_def split: option.splits)
next
  case (snoc b bs)
  have f: "files (chunkName (Suc (length bs))) = Some b"
    and rest: "\<forall>i < length bs. files (chunkName (Suc i)) = Some (bs ! i)"
    using snoc.prems(4) by (auto simp: nth_append split: if_splits)
  have s: "sorted (map sn_timestamp (concat bs))" "sorted (map sn_timestamp b)"
    using snoc.prems(2) by (auto simp: sorted_append)
  note IH = snoc.IH [OF _ s(1) _ rest]
  show ?case
  proof (cases "skip_chunk r (entry_of (length bs) b)")
    case True
    then have "filter (in_range r) (rev b) = []"
      using skip_chunk_empty [OF True s(2)] snoc.prems(3) by (simp add: filter_empty_conv)
    then show ?thesis using True IH [OF snoc.prems(1)] snoc.prems(3) by (simp add: entries_snoc)
  next
    case False
    note scan = scan_lines_eq [OF snoc.prems(1), of "rev b"]
    show ?thesis
    proof (cases "limit_reached r (acc @ filter (in_range r) (rev b))")
      case True
      then show ?thesis using False f scan
        by (auto simp: entries_snoc entry_of_def cut_def limit_reached_def split: option.splits)
    next
      case nl: False
      then have "cut r (acc @ filter (in_range r) (rev b)) = acc @ filter (in_range r) (rev b)"
        by (auto simp: cut_def limit_reached_def split: option.splits)
      then show ?thesis using False f scan nl IH [OF nl] snoc.prems(3)
        by (simp add: entries_snoc entry_of_def)
    qed
  qed
qed

text \<open>C29: the chunked store forgets nothing and returns nothing else.  After any number of appends in the
  order of time, a read of a range yields the snapshots of that range, newest first, up to the limit,
  wherever the chunk boundaries fall and whichever chunks the index lets it skip.\<close>

theorem snapshots_read_back:
  assumes "sorted (map sn_timestamp ss)"
  shows "readRange r (append_all ss) = Inr (cut r (filter (in_range r) (rev ss)))"
proof -
  obtain bs where bs: "chunked bs (append_all ss)" "concat bs = ss" using append_all_chunked by blast
  have "\<not> limit_reached r []" by (auto simp: limit_reached_def split: option.splits)
  from scan_chunks_eq [OF this, of bs "sf_chunks (append_all ss)"] bs assms show ?thesis
    by (simp add: readRange_def chunked_def)
qed

section \<open>A deletion that empties a chunk\<close>

lemma fold_append_chunked:
  "chunked bs fs \<Longrightarrow> chunked (fold add_block ss bs) (fold (\<lambda>s fs. snd (doAppend None None s fs)) ss fs)"
  by (induction ss arbitrary: bs fs) (simp_all add: doAppend_chunked)

lemma fill_block:
  assumes "b \<noteq> []" "length b \<le> CHUNK_SIZE" "bs = [] \<or> CHUNK_SIZE \<le> length (last bs)"
  shows "fold add_block b bs = bs @ [b]"
  using assms(1,2)
proof (induction b rule: rev_induct)
  case (snoc s b)
  show ?case
  proof (cases "b = []")
    case True
    then show ?thesis using assms(3) by (auto simp: add_block_def)
  next
    case False
    then have "fold add_block b bs = bs @ [b]" using snoc by simp
    moreover have "add_block s (bs @ [b]) = bs @ [b @ [s]]" using snoc.prems(2) by (simp add: add_block_def)
    ultimately show ?thesis by simp
  qed
qed simp

text \<open>Emptying a chunk breaks the store.  When all 50 snapshots of the first of two full chunks are
  deleted, the next append takes the number of chunks left as the name of a new chunk, which is the
  name of the one that is left: the index names that file twice, and every later read returns each
  of its snapshots twice.\<close>

theorem delete_makes_chunks_collide:
  assumes "length old = CHUNK_SIZE" and "length new = CHUNK_SIZE"
    and "\<forall>x \<in> set old. sn_timestamp x = t"
  shows "\<exists>fs1 fs2. doDelete t (append_all (old @ new)) = (Inr True, fs1) \<and>
    doAppend None None s fs1 = (Inr (), fs2) \<and>
    readRange \<lparr>rg_startTime = None, rg_endTime = None, rg_limit = None\<rparr> fs2 = Inr (rev (new @ [s]) @ rev (new @ [s]))"
proof -
  let ?all = "\<lparr>rg_startTime = None, rg_endTime = None, rg_limit = None\<rparr>"
  have ne: "old \<noteq> []" "new \<noteq> []" using assms(1,2) by (auto simp: CHUNK_SIZE_def)
  have blocks: "fold add_block (old @ new) [] = [old, new]"
    using fill_block [of old "[]"] fill_block [of new "[old]"] ne assms(1,2) by simp
  have c: "chunked [old, new] (append_all (old @ new))"
    using fold_append_chunked [OF chunked_no_files, of "old @ new"] unfolding blocks append_all_def .
  then have ix: "sf_index (append_all (old @ new)) = [entry_of 0 old, entry_of 1 new]"
    and f1: "sf_chunks (append_all (old @ new)) (chunkName (Suc 0)) = Some old"
    and f2: "sf_chunks (append_all (old @ new)) (chunkName (Suc (Suc 0))) = Some new"
    using entries_snoc2 [of "[]" old new]
    by (auto simp: chunked_def numeral_2_eq_2 split: if_splits dest: spec [of _ 0] spec [of _ "Suc 0"])
  have ends: "sn_timestamp (hd old) = t" "sn_timestamp (last old) = t" using assms(3) ne by simp_all
  have kept: "filter (\<lambda>x. sn_timestamp x \<noteq> t) old = []" using assms(3) by (simp add: filter_empty_conv)
  let ?fs1 = "rewrite_chunk 0 [] (append_all (old @ new))"
  have del: "doDelete t (append_all (old @ new)) = (Inr True, ?fs1)"
    using ne kept by (simp add: doDelete_def ix upt_rec [of 0] entry_of_def ends f1)
  let ?e = "\<lparr>ce_file = chunkName (Suc (Suc 0)), ce_count = 1, ce_startTime = sn_timestamp s, ce_endTime = sn_timestamp s\<rparr>"
  let ?fs2 = "snd (doAppend None None s ?fs1)"
  have fs1: "sf_index ?fs1 = [entry_of 1 new]" "sf_chunks ?fs1 (chunkName (Suc (Suc 0))) = Some new"
    by (simp_all add: rewrite_chunk_def ix f2 entry_of_def Let_def)
  have fs2: "doAppend None None s ?fs1 = (Inr (), ?fs2)" "sf_index ?fs2 = [entry_of 1 new, ?e]"
    "sf_chunks ?fs2 (chunkName (Suc (Suc 0))) = Some (new @ [s])"
    using assms(2) fs1 by (simp_all add: doAppend_def next_chunk_def entry_of_def append_line_def Let_def)
  have any: "in_range ?all x" "\<not> limit_reached ?all xs" "\<not> skip_chunk ?all e" for x xs e
    by (simp_all add: in_range_def limit_reached_def skip_chunk_def)
  have "filter (in_range ?all) xs = xs" for xs using any(1) by (simp add: filter_id_conv)
  then have scan: "scan_lines ?all xs acc = (False, acc @ xs)" for xs acc
    using scan_lines_eq [OF any(2)] any(2) by (simp add: cut_def)
  have "readRange ?all ?fs2 = Inr (rev (new @ [s]) @ rev (new @ [s]))"
    using fs2(3) by (simp add: readRange_def fs2(2) any(3) scan entry_of_def del: scan_lines.simps)
  then show ?thesis using del fs2(1) by blast
qed

section \<open>The service\<close>

text \<open>
  The service keeps a store for each account and asks the manager for the running accounts, here the
  list of configurations with the ledgers; it appends to the event log, which can fail.
\<close>

record 'w snapshot_env =
  se_accounts :: "(string \<times> 'w uta_config) list"
  se_eventLog :: "(string \<Rightarrow> string \<Rightarrow> 'w \<Rightarrow> (js_error + unit) \<times> 'w) option"
  se_lineFails :: "'w \<Rightarrow> js_error option"
  se_indexFails :: "'w \<Rightarrow> js_error option"

record snapshot_service =
  ss_utas :: "string \<Rightarrow> uta"
  ss_stores :: "string \<Rightarrow> snapshot_files"

definition log_event ::
  "'w snapshot_env \<Rightarrow> string \<Rightarrow> string \<Rightarrow> 'w \<Rightarrow> (js_error + unit) \<times> 'w"
where
  "log_event env kind i w = (case se_eventLog env of None \<Rightarrow> (Inr (), w) | Some f \<Rightarrow> f kind i w)"

text \<open>Inside the \<open>try\<close>: an error of the append or of the event that reports it is caught below.\<close>

definition store_snapshot ::
  "'w snapshot_env \<Rightarrow> string \<Rightarrow> uta_snapshot \<Rightarrow> snapshot_service \<times> 'w \<Rightarrow> (js_error + unit) \<times> snapshot_service \<times> 'w"
where
  "store_snapshot env i s sw =
     (case doAppend (se_lineFails env (snd sw)) (se_indexFails env (snd sw)) s (ss_stores (fst sw) i) of
        (r, fs) \<Rightarrow>
          (let sv = (fst sw)\<lparr>ss_stores := (ss_stores (fst sw))(i := fs)\<rparr> in
           case r of
             Inl e \<Rightarrow> (Inl e, sv, snd sw)
           | Inr _ \<Rightarrow> (case log_event env ''snapshot.taken'' i (snd sw) of (r1, w1) \<Rightarrow> (r1, sv, w1))))"

definition takeSnapshot ::
  "'w snapshot_env \<Rightarrow> string \<Rightarrow> snapshot_trigger \<Rightarrow> snapshot_service \<times> 'w \<Rightarrow> uta_snapshot option \<times> snapshot_service \<times> 'w"
where
  "takeSnapshot env i trigger sw =
     (case map_of (se_accounts env) i of
        None \<Rightarrow> (None, sw)
      | Some cfg \<Rightarrow>
          (case buildSnapshot cfg trigger (ss_utas (fst sw) i) (snd sw) of
             (snap, u1, w1) \<Rightarrow>
               (let sv = (fst sw)\<lparr>ss_utas := (ss_utas (fst sw))(i := u1)\<rparr> in
                case snap of
                  None \<Rightarrow> (None, sv, snd (log_event env ''snapshot.skipped'' i w1))
                | Some s \<Rightarrow>
                    (case store_snapshot env i s (sv, w1) of
                       (Inr _, sw2) \<Rightarrow> (Some s, sw2)
                     | (Inl e, sv2, w2) \<Rightarrow> (None, sv2, snd (log_event env ''snapshot.error'' i w2))))))"

text \<open>
  A round over some accounts, with the ids that gave \<open>null\<close>; the second round runs over those.  The
  code starts the accounts of a round together; here they run in the order of the list.
\<close>

fun snapshot_round ::
  "'w snapshot_env \<Rightarrow> snapshot_trigger \<Rightarrow> string list \<Rightarrow> snapshot_service \<times> 'w \<Rightarrow> string list \<times> snapshot_service \<times> 'w"
where
  "snapshot_round env trigger [] sw = ([], sw)"
| "snapshot_round env trigger (i # is) sw =
     (case takeSnapshot env i trigger sw of
        (r, sw1) \<Rightarrow> (case snapshot_round env trigger is sw1 of
           (failed, sw2) \<Rightarrow> ((if r = None then i # failed else failed), sw2)))"

definition takeAllSnapshots ::
  "'w snapshot_env \<Rightarrow> snapshot_trigger \<Rightarrow> snapshot_service \<times> 'w \<Rightarrow> snapshot_service \<times> 'w"
where
  "takeAllSnapshots env trigger sw =
     (case snapshot_round env trigger (map fst (se_accounts env)) sw of
        (failed, sw1) \<Rightarrow> if failed = [] then sw1 else snd (snapshot_round env trigger failed sw1))"

definition getRecent :: "string \<Rightarrow> nat \<Rightarrow> snapshot_service \<Rightarrow> js_error + uta_snapshot list" where
  "getRecent i n sv = readRange \<lparr>rg_startTime = None, rg_endTime = None, rg_limit = Some n\<rparr> (ss_stores sv i)"

definition deleteSnapshot :: "string \<Rightarrow> string \<Rightarrow> snapshot_service \<Rightarrow> (js_error + bool) \<times> snapshot_service" where
  "deleteSnapshot i t sv =
     (case doDelete t (ss_stores sv i) of (r, fs) \<Rightarrow> (r, sv\<lparr>ss_stores := (ss_stores sv)(i := fs)\<rparr>))"

section \<open>Witnesses\<close>

definition demo_snapshot :: "string \<Rightarrow> uta_snapshot" where
  "demo_snapshot t =
     \<lparr>sn_accountId = ''acc'', sn_timestamp = t, sn_trigger = Manual, sn_account = snapshot_account_of empty_account,
      sn_positions = [], sn_openOrders = [], sn_health = SnapHealth Healthy, sn_headCommit = None, sn_pendingCommits = []\<rparr>"

lemma demo_snapshot_time [simp]: "sn_timestamp (demo_snapshot t) = t"
  by (simp add: demo_snapshot_def)

lemma snapshots_read_back_witness:
  "readRange \<lparr>rg_startTime = Some ''2'', rg_endTime = None, rg_limit = Some 1\<rparr>
     (append_all [demo_snapshot ''1'', demo_snapshot ''2'', demo_snapshot ''3'']) = Inr [demo_snapshot ''3'']"
proof -
  have "sorted (map sn_timestamp [demo_snapshot ''1'', demo_snapshot ''2'', demo_snapshot ''3''])"
    by simp
  from snapshots_read_back [OF this] show ?thesis
    by (simp add: cut_def in_range_def truthy_def)
qed

lemma delete_makes_chunks_collide_witness:
  "\<exists>fs1 fs2. doDelete ''1'' (append_all (replicate 50 (demo_snapshot ''1'') @ replicate 50 (demo_snapshot ''2''))) = (Inr True, fs1) \<and>
     doAppend None None (demo_snapshot ''3'') fs1 = (Inr (), fs2) \<and>
     (\<exists>xs. readRange \<lparr>rg_startTime = None, rg_endTime = None, rg_limit = None\<rparr> fs2 = Inr xs \<and> length xs = 102)"
proof -
  have "length (replicate 50 (demo_snapshot t)) = CHUNK_SIZE" for t by (simp add: CHUNK_SIZE_def)
  note full = this
  have "\<forall>x \<in> set (replicate 50 (demo_snapshot ''1'')). sn_timestamp x = ''1''" by simp
  from delete_makes_chunks_collide [OF full full this, of "''2''" "demo_snapshot ''3''"] obtain fs1 fs2 where
    d: "doDelete ''1'' (append_all (replicate 50 (demo_snapshot ''1'') @ replicate 50 (demo_snapshot ''2''))) = (Inr True, fs1)"
      "doAppend None None (demo_snapshot ''3'') fs1 = (Inr (), fs2)" and
    r: "readRange \<lparr>rg_startTime = None, rg_endTime = None, rg_limit = None\<rparr> fs2 =
      Inr (rev (replicate 50 (demo_snapshot ''2'') @ [demo_snapshot ''3'']) @
        rev (replicate 50 (demo_snapshot ''2'') @ [demo_snapshot ''3'']))"
    by (elim exE conjE) rule
  have "length (rev (replicate 50 (demo_snapshot ''2'') @ [demo_snapshot ''3'']) @
      rev (replicate 50 (demo_snapshot ''2'') @ [demo_snapshot ''3''])) = 102"
    by (simp only: length_append length_rev length_replicate list.size)
  with d r show ?thesis by (intro exI conjI)
qed

end
