(* ===== verification/Fx_Service.thy ===== *)
theory Fx_Service
  imports Decimal_Instance Git_Types
begin

text \<open>
  \<open>fx-service.ts\<close>: the US dollar rate of a currency, from a cache, the hub's table, a vendor, the
  stale cache, the built-in table or one to one.  The hub's answer and the vendor's client are
  parameters; rates are JavaScript numbers, so a rate of theirs may be an infinity or no number.
\<close>

section \<open>Types and the built-in table\<close>

datatype fx_source = FxLive | FxCached | FxDefault

record fx_rate =
  fx_value :: dec
  fx_source :: fx_source
  fx_updatedAt :: string
  fx_stale :: bool

record live_entry =
  le_rate :: dec
  le_updatedAt :: string
  le_fetchedAt :: int

type_synonym hub_rates = "(string \<times> (dec \<times> string)) list"

record fx_state =
  fs_liveRates :: "(string, live_entry) jsmap"
  fs_defaultWarned :: "string list"
  fs_hubTable :: "(hub_rates \<times> int) option"
  fs_hubDownUntil :: int

definition new_fx :: fx_state where
  "new_fx = \<lparr>fs_liveRates = [], fs_defaultWarned = [], fs_hubTable = None, fs_hubDownUntil = 0\<rparr>"

text \<open>The JSON of the hub: the counter currency and rows whose fields may be of any type.\<close>

record hub_row =
  hr_rate :: "dec option"
  hr_updatedAt :: "string option"

record hub_reply =
  hy_counter :: "string option"
  hy_rates :: "(string \<times> hub_row) list option"

record currency_snapshot =
  cs_counter_currency :: "string option"
  cs_last_rate :: dec

record 'w fx_config =
  fc_ttlMs :: int
  fc_hubEnabled :: bool
  fc_hubBaseUrl :: string
  fc_fetchHub :: "'w \<Rightarrow> (js_error + hub_reply) \<times> 'w"
  fc_client :: "(string \<Rightarrow> 'w \<Rightarrow> (js_error + currency_snapshot list) \<times> 'w) option"
  fc_now :: "'w \<Rightarrow> int"
  fc_iso :: "'w \<Rightarrow> string"

definition DEFAULT_RATES :: "(string \<times> rat) list" where
  "DEFAULT_RATES =
     [(''HKD'', 128 / 1000), (''EUR'', 108 / 100), (''GBP'', 127 / 100), (''JPY'', 67 / 10000),
      (''CNY'', 138 / 1000), (''CNH'', 138 / 1000), (''CAD'', 74 / 100), (''AUD'', 65 / 100),
      (''NZD'', 60 / 100), (''SGD'', 74 / 100), (''CHF'', 113 / 100), (''KRW'', 74 / 100000),
      (''SEK'', 95 / 1000), (''NOK'', 92 / 1000), (''DKK'', 145 / 1000), (''INR'', 12 / 1000),
      (''TWD'', 31 / 1000), (''MXN'', 58 / 1000), (''ZAR'', 54 / 1000), (''BRL'', 19 / 100)]"

definition default_date :: string where
  "default_date = ''2026-04-08''"

section \<open>The hub's table\<close>

text \<open>Rows with a finite positive rate; a later row of the same currency replaces an earlier one.\<close>

definition hub_rows :: "string \<Rightarrow> (string \<times> hub_row) list \<Rightarrow> hub_rates" where
  "hub_rows stamp rows = rev (concat (map (\<lambda>(ccy, row).
     (case hr_rate row of
        Some x \<Rightarrow> if d_isFinite x \<and> d_gt x (Fin 0) then [(to_upper ccy, x, case hr_updatedAt row of Some t \<Rightarrow> t | None \<Rightarrow> stamp)] else []
      | None \<Rightarrow> [])) rows))"

definition hub_accept :: "string \<Rightarrow> hub_reply \<Rightarrow> hub_rates option" where
  "hub_accept stamp y =
     (case (hy_counter y, hy_rates y) of
        (Some c, Some rows) \<Rightarrow>
          (if c \<noteq> ''USD'' then None else (let rs = hub_rows stamp rows in if rs = [] then None else Some rs))
      | _ \<Rightarrow> None)"

definition table_rate :: "fx_state \<Rightarrow> string \<Rightarrow> (dec \<times> string) option" where
  "table_rate st key = (case fs_hubTable st of None \<Rightarrow> None | Some (rs, t) \<Rightarrow> map_of rs key)"

definition hubRate :: "'w fx_config \<Rightarrow> string \<Rightarrow> fx_state \<Rightarrow> 'w \<Rightarrow> (dec \<times> string) option \<times> fx_state \<times> 'w" where
  "hubRate cfg key st w =
     (if \<not> fc_hubEnabled cfg \<or> fc_hubBaseUrl cfg = [] then (None, st, w)
      else let now = fc_now cfg w in
        if (case fs_hubTable st of None \<Rightarrow> False | Some (rs, t) \<Rightarrow> now - t < 30 * 60000) then (table_rate st key, st, w)
        else if now < fs_hubDownUntil st then (table_rate st key, st, w)
        else
          (case fc_fetchHub cfg w of
             (r, w1) \<Rightarrow>
               (case (case r of Inl e \<Rightarrow> None | Inr y \<Rightarrow> hub_accept (fc_iso cfg w1) y) of
                  Some rs \<Rightarrow> (map_of rs key, st\<lparr>fs_hubTable := Some (rs, now)\<rparr>, w1)
                | None \<Rightarrow> (table_rate st key, st\<lparr>fs_hubDownUntil := now + 60000\<rparr>, w1))))"

section \<open>The lookup\<close>

definition remember :: "string \<Rightarrow> dec \<Rightarrow> string \<Rightarrow> int \<Rightarrow> fx_state \<Rightarrow> fx_state" where
  "remember key x t now st = st\<lparr>fs_liveRates := jm_set key \<lparr>le_rate = x, le_updatedAt = t, le_fetchedAt = now\<rparr> (fs_liveRates st)\<rparr>"

definition live_rate :: "dec \<Rightarrow> string \<Rightarrow> fx_rate" where
  "live_rate x t = \<lparr>fx_value = x, fx_source = FxLive, fx_updatedAt = t, fx_stale = False\<rparr>"

text \<open>The vendor's first row against the dollar, when its rate compares above zero, as infinity does.\<close>

definition vendor_rate :: "js_error + currency_snapshot list \<Rightarrow> dec option" where
  "vendor_rate r =
     (case r of
        Inl e \<Rightarrow> None
      | Inr snaps \<Rightarrow>
          (case find (\<lambda>x. map_option to_upper (cs_counter_currency x) = Some ''USD'') snaps of
             None \<Rightarrow> None
           | Some x \<Rightarrow> if d_gt (cs_last_rate x) (Fin 0) then Some (cs_last_rate x) else None))"

definition warn_once :: "string \<Rightarrow> fx_state \<Rightarrow> fx_state" where
  "warn_once key st =
     (if key \<in> set (fs_defaultWarned st) then st else st\<lparr>fs_defaultWarned := fs_defaultWarned st @ [key]\<rparr>)"

text \<open>The stale cache, the built-in table, one to one.\<close>

definition fallback_rate :: "string \<Rightarrow> live_entry option \<Rightarrow> fx_state \<Rightarrow> fx_rate \<times> fx_state" where
  "fallback_rate key cached st =
     (case cached of
        Some c \<Rightarrow> (\<lparr>fx_value = le_rate c, fx_source = FxCached, fx_updatedAt = le_updatedAt c, fx_stale = True\<rparr>, st)
      | None \<Rightarrow>
          (case map_of DEFAULT_RATES key of
             Some x \<Rightarrow> (\<lparr>fx_value = Fin x, fx_source = FxDefault, fx_updatedAt = default_date, fx_stale = False\<rparr>, warn_once key st)
           | None \<Rightarrow> (\<lparr>fx_value = Fin 1, fx_source = FxDefault, fx_updatedAt = ''1970-01-01'', fx_stale = False\<rparr>, warn_once key st)))"

definition vendor_or_fallback ::
  "'w fx_config \<Rightarrow> string \<Rightarrow> int \<Rightarrow> live_entry option \<Rightarrow> fx_state \<Rightarrow> 'w \<Rightarrow> fx_rate \<times> fx_state \<times> 'w"
where
  "vendor_or_fallback cfg key now cached st w =
     (case fc_client cfg of
        None \<Rightarrow> (case fallback_rate key cached st of (r, st1) \<Rightarrow> (r, st1, w))
      | Some getSnapshots \<Rightarrow>
          (case getSnapshots key w of
             (x, w1) \<Rightarrow>
               (case vendor_rate x of
                  Some v \<Rightarrow> (live_rate v (fc_iso cfg w1), remember key v (fc_iso cfg w1) now st, w1)
                | None \<Rightarrow> (case fallback_rate key cached st of (r, st1) \<Rightarrow> (r, st1, w1)))))"

definition getRate :: "'w fx_config \<Rightarrow> string \<Rightarrow> fx_state \<Rightarrow> 'w \<Rightarrow> fx_rate \<times> fx_state \<times> 'w" where
  "getRate cfg from_ccy st w =
     (let key = to_upper from_ccy in
      if key = ''USD'' then (live_rate (Fin 1) (fc_iso cfg w), st, w)
      else
        (let now = fc_now cfg w; cached = jm_get (fs_liveRates st) key in
         case (case cached of None \<Rightarrow> None | Some c \<Rightarrow> if now - le_fetchedAt c < fc_ttlMs cfg then Some c else None) of
           Some c \<Rightarrow> (live_rate (le_rate c) (le_updatedAt c), st, w)
         | None \<Rightarrow>
             (case hubRate cfg key st w of
                (Some (x, t), st1, w1) \<Rightarrow> (live_rate x t, remember key x t now st1, w1)
              | (None, st1, w1) \<Rightarrow> vendor_or_fallback cfg key now cached st1 w1)))"

definition num_text :: "decimal_js \<Rightarrow> dec \<Rightarrow> string" where
  "num_text D x = (case x of Fin r \<Rightarrow> dj_num_str D r | PosInf \<Rightarrow> ''Infinity'' | NegInf \<Rightarrow> ''-Infinity''
     | NotANumber \<Rightarrow> ''NaN'')"

definition convertToUsd ::
  "decimal_js \<Rightarrow> 'w fx_config \<Rightarrow> string \<Rightarrow> string \<Rightarrow> fx_state \<Rightarrow> 'w
    \<Rightarrow> (js_error + string \<times> string option) \<times> fx_state \<times> 'w"
where
  "convertToUsd D cfg amount currency st w =
     (case new_dec D amount of
        Inl e \<Rightarrow> (Inl e, st, w)
      | Inr d \<Rightarrow>
          (if d_isZero d then (Inr (''0'', None), st, w)
           else
             (case getRate cfg currency st w of
                (fx, st1, w1) \<Rightarrow>
                  (let usd = dj_to_string D (dj_times D d (fx_value fx)) in
                   (Inr (usd, if fx_source fx = FxDefault
                      then Some (currency @ '': using default rate '' @ num_text D (fx_value fx) @
                        '' (last updated '' @ fx_updatedAt fx @ '')'')
                      else None), st1, w1)))))"

section \<open>Where a rate comes from\<close>

text \<open>
  A rate of a currency that the hub has quoted: it stands, finite and above zero, in a reply whose
  counter currency is the dollar.  One that the vendor has quoted: it stands in a row against the
  dollar and compares above zero.
\<close>

definition hub_quoted :: "'w fx_config \<Rightarrow> string \<Rightarrow> dec \<Rightarrow> bool" where
  "hub_quoted cfg key v \<longleftrightarrow> (\<exists>x. v = Fin x \<and> 0 < x) \<and>
     (\<exists>w y rows ccy row. fst (fc_fetchHub cfg w) = Inr y \<and> hy_counter y = Some ''USD'' \<and>
        hy_rates y = Some rows \<and> (ccy, row) \<in> set rows \<and> to_upper ccy = key \<and> hr_rate row = Some v)"

definition vendor_quoted :: "'w fx_config \<Rightarrow> string \<Rightarrow> dec \<Rightarrow> bool" where
  "vendor_quoted cfg key v \<longleftrightarrow> (v = PosInf \<or> (\<exists>x. v = Fin x \<and> 0 < x)) \<and>
     (\<exists>getSnapshots w snaps c s. fc_client cfg = Some getSnapshots \<and> fst (getSnapshots key w) = Inr snaps \<and>
        s \<in> set snaps \<and> cs_counter_currency s = Some c \<and> to_upper c = ''USD'' \<and> cs_last_rate s = v)"

definition quoted :: "'w fx_config \<Rightarrow> string \<Rightarrow> dec \<Rightarrow> bool" where
  "quoted cfg key v \<longleftrightarrow> hub_quoted cfg key v \<or> vendor_quoted cfg key v"

definition hub_table_ok :: "'w fx_config \<Rightarrow> hub_rates \<Rightarrow> bool" where
  "hub_table_ok cfg rs \<longleftrightarrow> (\<forall>(key, v, t) \<in> set rs. hub_quoted cfg key v)"

definition rates_ok :: "'w fx_config \<Rightarrow> fx_state \<Rightarrow> bool" where
  "rates_ok cfg st \<longleftrightarrow>
     (\<forall>key e. jm_get (fs_liveRates st) key = Some e \<longrightarrow> quoted cfg key (le_rate e)) \<and>
     (\<forall>rs t. fs_hubTable st = Some (rs, t) \<longrightarrow> hub_table_ok cfg rs)"

lemma above_zero_finite: "d_isFinite v \<and> d_gt v (Fin 0) \<longleftrightarrow> (\<exists>x. v = Fin x \<and> 0 < x)"
  by (cases v) (auto simp: d_gt_def d_isFinite_def)

lemma above_zero: "d_gt v (Fin 0) \<longleftrightarrow> v = PosInf \<or> (\<exists>x. v = Fin x \<and> 0 < x)"
  by (cases v) (auto simp: d_gt_def)

lemma rates_ok_new [simp]: "rates_ok cfg new_fx"
  by (simp add: rates_ok_def new_fx_def)

lemma hub_table_get: "hub_table_ok cfg rs \<Longrightarrow> map_of rs key = Some (x, t) \<Longrightarrow> hub_quoted cfg key x"
  by (drule map_of_SomeD) (force simp: hub_table_ok_def)

lemma hub_accept_ok:
  assumes "fst (fc_fetchHub cfg w) = Inr y" and "hub_accept stamp y = Some rs"
  shows "hub_table_ok cfg rs"
proof -
  from assms(2) obtain rows where y: "hy_counter y = Some ''USD''" "hy_rates y = Some rows"
    and rs: "rs = hub_rows stamp rows"
    by (auto simp: hub_accept_def Let_def split: option.splits if_splits)
  have "hub_quoted cfg key v" if "(key, v, t) \<in> set rs" for key v t
  proof -
    from that obtain ccy row where "(ccy, row) \<in> set rows" "hr_rate row = Some v" "key = to_upper ccy"
      "d_isFinite v \<and> d_gt v (Fin 0)"
      by (auto simp: rs hub_rows_def split: option.splits if_splits)
    then show ?thesis using assms(1) y unfolding hub_quoted_def above_zero_finite by blast
  qed
  then show ?thesis by (auto simp: hub_table_ok_def)
qed

lemma table_rate_ok: "rates_ok cfg st \<Longrightarrow> table_rate st key = Some (x, t) \<Longrightarrow> hub_quoted cfg key x"
  by (auto simp: rates_ok_def table_rate_def split: option.splits intro: hub_table_get)

lemma rates_ok_update [simp]:
  "rates_ok cfg (st\<lparr>fs_hubDownUntil := n\<rparr>) = rates_ok cfg st"
  "rates_ok cfg (st\<lparr>fs_defaultWarned := ks\<rparr>) = rates_ok cfg st"
  by (simp_all add: rates_ok_def)

lemma rates_ok_table: "rates_ok cfg st \<Longrightarrow> hub_table_ok cfg rs \<Longrightarrow> rates_ok cfg (st\<lparr>fs_hubTable := Some (rs, n)\<rparr>)"
  by (simp add: rates_ok_def)

text \<open>The three ways a lookup of the hub ends.\<close>

lemma hubRate_cases:
  assumes "hubRate cfg key st w = (r, st', w')"
  obtains (off) "r = None" "st' = st"
  | (table) "r = table_rate st key" "st' = st \<or> st' = st\<lparr>fs_hubDownUntil := fc_now cfg w + 60000\<rparr>"
  | (fetched) rs y stamp where "fst (fc_fetchHub cfg w) = Inr y" "hub_accept stamp y = Some rs"
      "r = map_of rs key" "st' = st\<lparr>fs_hubTable := Some (rs, fc_now cfg w)\<rparr>"
proof -
  obtain x w1 where f: "fc_fetchHub cfg w = (x, w1)" by (metis prod.exhaust)
  define got where "got = (case x of Inl e \<Rightarrow> None | Inr y \<Rightarrow> hub_accept (fc_iso cfg w1) y)"
  define fresh where "fresh = (case fs_hubTable st of None \<Rightarrow> False | Some (rs, t) \<Rightarrow> fc_now cfg w - t < 30 * 60000)"
  have eq: "(if \<not> fc_hubEnabled cfg \<or> fc_hubBaseUrl cfg = [] then (None, st, w)
      else if fresh then (table_rate st key, st, w)
      else if fc_now cfg w < fs_hubDownUntil st then (table_rate st key, st, w)
      else (case got of Some rs \<Rightarrow> (map_of rs key, st\<lparr>fs_hubTable := Some (rs, fc_now cfg w)\<rparr>, w1)
        | None \<Rightarrow> (table_rate st key, st\<lparr>fs_hubDownUntil := fc_now cfg w + 60000\<rparr>, w1))) = (r, st', w')"
    using assms unfolding hubRate_def Let_def f prod.case got_def fresh_def .
  show thesis
  proof (cases got)
    case None
    then have "r = None \<and> st' = st \<or> r = table_rate st key \<and>
        (st' = st \<or> st' = st\<lparr>fs_hubDownUntil := fc_now cfg w + 60000\<rparr>)"
      using eq by (auto split: if_splits)
    then show thesis using off table by blast
  next
    case (Some rs)
    then obtain y where y: "x = Inr y" "hub_accept (fc_iso cfg w1) y = Some rs"
      by (cases x) (simp_all add: got_def)
    have "r = None \<and> st' = st \<or> r = table_rate st key \<and> st' = st \<or>
        r = map_of rs key \<and> st' = st\<lparr>fs_hubTable := Some (rs, fc_now cfg w)\<rparr>"
      using eq Some by (auto split: if_splits)
    then show thesis using off table fetched [OF _ y(2)] f y(1) by auto
  qed
qed

lemma hubRate_ok:
  assumes "rates_ok cfg st" "hubRate cfg key st w = (r, st', w')"
  shows "rates_ok cfg st' \<and> (\<forall>x t. r = Some (x, t) \<longrightarrow> hub_quoted cfg key x) \<and> fs_liveRates st' = fs_liveRates st"
  using assms(2)
proof (cases rule: hubRate_cases)
  case off
  then show ?thesis using assms(1) by simp
next
  case table
  then show ?thesis using assms(1) table_rate_ok [OF assms(1)] by auto
next
  case (fetched rs y stamp)
  have rs: "hub_table_ok cfg rs" using fetched(1,2) by (rule hub_accept_ok)
  then show ?thesis using assms(1) fetched(3,4) hub_table_get [OF rs] by (simp add: rates_ok_table)
qed

lemma jm_get_remember:
  "jm_get (fs_liveRates (remember key x t now st)) k =
     (if k = key then Some \<lparr>le_rate = x, le_updatedAt = t, le_fetchedAt = now\<rparr> else jm_get (fs_liveRates st) k)"
  by (simp add: remember_def jm.lookup_set)

lemma remember_ok: "rates_ok cfg st \<Longrightarrow> quoted cfg key x \<Longrightarrow> rates_ok cfg (remember key x t now st)"
  unfolding rates_ok_def jm_get_remember by (auto simp: remember_def)

text \<open>What a lookup may answer.\<close>

definition rate_ok :: "'w fx_config \<Rightarrow> string \<Rightarrow> fx_rate \<Rightarrow> bool" where
  "rate_ok cfg key r \<longleftrightarrow>
     (if fx_source r = FxDefault
      then fx_value r = Fin (case map_of DEFAULT_RATES key of Some x \<Rightarrow> x | None \<Rightarrow> 1)
      else quoted cfg key (fx_value r))"

lemma fallback_rate_ok:
  assumes "rates_ok cfg st" "\<forall>c. cached = Some c \<longrightarrow> quoted cfg key (le_rate c)"
    and "fallback_rate key cached st = (r, st')"
  shows "rates_ok cfg st' \<and> rate_ok cfg key r"
  using assms by (auto simp: fallback_rate_def warn_once_def rate_ok_def split: option.splits if_splits)

lemma vendor_rate_quoted:
  assumes "fc_client cfg = Some getSnapshots" "vendor_rate (fst (getSnapshots key w)) = Some v"
  shows "quoted cfg key v"
proof -
  from assms(2) obtain snaps s where s: "fst (getSnapshots key w) = Inr snaps"
    "find (\<lambda>x. map_option to_upper (cs_counter_currency x) = Some ''USD'') snaps = Some s"
    "cs_last_rate s = v" "d_gt v (Fin 0)"
    by (auto simp: vendor_rate_def split: sum.splits option.splits if_splits)
  from s(2) have "s \<in> set snaps" "map_option to_upper (cs_counter_currency s) = Some ''USD''"
    by (auto simp: find_Some_iff)
  with s assms(1) show ?thesis unfolding quoted_def vendor_quoted_def above_zero by blast
qed

lemma vendor_or_fallback_ok:
  assumes "rates_ok cfg st" "\<forall>c. cached = Some c \<longrightarrow> quoted cfg key (le_rate c)"
    and "vendor_or_fallback cfg key now cached st w = (r, st', w')"
  shows "rates_ok cfg st' \<and> rate_ok cfg key r"
proof (cases "fc_client cfg")
  case None
  then show ?thesis using assms(3) fallback_rate_ok [OF assms(1,2)]
    by (auto simp: vendor_or_fallback_def split: prod.splits)
next
  case (Some getSnapshots)
  obtain x w1 where x: "getSnapshots key w = (x, w1)" by (cases "getSnapshots key w")
  show ?thesis
  proof (cases "vendor_rate x")
    case None
    then show ?thesis using assms(3) Some x fallback_rate_ok [OF assms(1,2)]
      by (auto simp: vendor_or_fallback_def split: prod.splits)
  next
    case (Some v)
    with \<open>fc_client cfg = Some getSnapshots\<close> x have "quoted cfg key v"
      using vendor_rate_quoted [of cfg getSnapshots key w v] by simp
    then show ?thesis using assms(3) \<open>fc_client cfg = Some getSnapshots\<close> x Some remember_ok [OF assms(1)]
      by (auto simp: vendor_or_fallback_def live_rate_def rate_ok_def)
  qed
qed

lemma getRate_ok:
  assumes "rates_ok cfg st" "getRate cfg ccy st w = (r, st', w')"
  shows "rates_ok cfg st' \<and>
    (if to_upper ccy = ''USD'' then fx_value r = Fin 1 else rate_ok cfg (to_upper ccy) r)"
proof (cases "to_upper ccy = ''USD''")
  case True
  then show ?thesis using assms by (auto simp: getRate_def live_rate_def)
next
  case False
  define key where "key = to_upper ccy"
  have c: "\<forall>c. jm_get (fs_liveRates st) key = Some c \<longrightarrow> quoted cfg key (le_rate c)"
    using assms(1) by (simp add: rates_ok_def)
  obtain h st1 w1 where h: "hubRate cfg key st w = (h, st1, w1)" by (metis prod.exhaust)
  have hub: "rates_ok cfg st1" "\<forall>x t. h = Some (x, t) \<longrightarrow> quoted cfg key x"
    using hubRate_ok [OF assms(1) h] by (simp_all add: quoted_def)
  show ?thesis
    using assms(2) False h c hub assms(1) vendor_or_fallback_ok [OF hub(1) c, of "fc_now cfg w" w1 r st' w']
      remember_ok [OF hub(1)]
    unfolding getRate_def Let_def key_def [symmetric]
    by (auto simp: live_rate_def rate_ok_def split: if_splits option.splits)
qed

text \<open>A run of lookups, each at a world of its own.\<close>

definition fx_run :: "'w fx_config \<Rightarrow> (string \<times> 'w) list \<Rightarrow> fx_state \<Rightarrow> fx_state" where
  "fx_run cfg = fold (\<lambda>(ccy, w) st. fst (snd (getRate cfg ccy st w)))"

lemma fx_run_ok: "rates_ok cfg st \<Longrightarrow> rates_ok cfg (fx_run cfg qs st)"
proof (induction qs arbitrary: st)
  case (Cons q qs)
  obtain ccy w where q: "q = (ccy, w)" by (cases q)
  obtain r st' w' where g: "getRate cfg ccy st w = (r, st', w')" by (metis prod.exhaust)
  from Cons.IH [OF conjunct1 [OF getRate_ok [OF Cons.prems g]]] show ?case by (simp add: fx_run_def q g)
qed (simp add: fx_run_def)

text \<open>C30: every rate has a source that quoted it.  After any lookups, whatever the hub and the vendor
  answered or threw, \<open>getRate\<close> gives one for the dollar, the built-in rate (one when there is none)
  when it says \<open>default\<close>, and otherwise, be it called live or cached, a rate that the hub gave for
  this very currency in a table against the dollar and that is finite and above zero, or one that
  the vendor gave in a row against the dollar and that is above zero but may be infinite.  An amount
  then converts unless its text is no number: no failure of a source reaches the caller.\<close>

theorem rates_are_quoted:
  assumes "getRate cfg ccy (fx_run cfg qs new_fx) w = (r, st', w')"
  shows "(if to_upper ccy = ''USD'' then fx_value r = Fin 1
      else if fx_source r = FxDefault
        then fx_value r = Fin (case map_of DEFAULT_RATES (to_upper ccy) of Some x \<Rightarrow> x | None \<Rightarrow> 1)
      else hub_quoted cfg (to_upper ccy) (fx_value r) \<or> vendor_quoted cfg (to_upper ccy) (fx_value r)) \<and>
    (dj_parse D amount \<noteq> None \<longrightarrow>
       (\<exists>usd warn. fst (convertToUsd D cfg amount ccy (fx_run cfg qs new_fx) w) = Inr (usd, warn)))"
  using getRate_ok [OF fx_run_ok [OF rates_ok_new] assms] assms
  by (auto simp: rate_ok_def quoted_def convertToUsd_def new_dec_def split: option.splits)

text \<open>The vendor's rate is compared with zero and not tested to be finite: an infinite one is served as
  a live rate and kept in the cache.\<close>

lemma infinite_rate_is_served:
  assumes "fc_client cfg = Some getSnapshots" and "fst (getSnapshots ccy w) = Inr [\<lparr>cs_counter_currency = Some ''USD'', cs_last_rate = PosInf\<rparr>]"
    and "to_upper ccy = ccy" and "ccy \<noteq> ''USD''" and "\<not> fc_hubEnabled cfg"
  shows "fx_value (fst (getRate cfg ccy new_fx w)) = PosInf \<and> fx_source (fst (getRate cfg ccy new_fx w)) = FxLive"
proof -
  have "to_upper ''USD'' = ''USD''" by code_simp
  then show ?thesis
    using assms by (cases "getSnapshots ccy w")
      (simp add: getRate_def hubRate_def vendor_or_fallback_def vendor_rate_def live_rate_def new_fx_def
        jm_get_def d_gt_def)
qed

section \<open>What the source of a rate means\<close>

text \<open>The order of the sources.  A cached rate is given, and marked stale, only when its time has run
  out and neither hub nor vendor gave one; a built-in or made-up rate only when the cache has none
  at all; and a rate from the hub or the vendor is in the cache afterwards.\<close>

theorem rate_source_order:
  assumes "getRate cfg ccy st w = (r, st', w')" and "to_upper ccy \<noteq> ''USD''"
  shows "(fx_stale r \<longleftrightarrow> fx_source r = FxCached) \<and>
    (fx_source r = FxCached \<longrightarrow> (\<exists>c. jm_get (fs_liveRates st) (to_upper ccy) = Some c \<and>
       fc_ttlMs cfg \<le> fc_now cfg w - le_fetchedAt c \<and> fx_value r = le_rate c)) \<and>
    (fx_source r = FxDefault \<longrightarrow> jm_get (fs_liveRates st) (to_upper ccy) = None \<and>
       fx_value r = Fin (case map_of DEFAULT_RATES (to_upper ccy) of Some x \<Rightarrow> x | None \<Rightarrow> 1)) \<and>
    (fx_source r = FxLive \<longrightarrow> (\<exists>c. jm_get (fs_liveRates st') (to_upper ccy) = Some c \<and> le_rate c = fx_value r))"
proof -
  define key where "key = to_upper ccy"
  obtain h st1 w1 where h: "hubRate cfg key st w = (h, st1, w1)" by (metis prod.exhaust)
  have "to_upper ccy \<noteq> ''USD''" by (rule assms(2))
  then show ?thesis
    using assms(1) h unfolding getRate_def Let_def key_def [symmetric]
    by (auto simp: live_rate_def vendor_or_fallback_def fallback_rate_def jm_get_remember
        split: if_splits option.splits prod.splits)
qed

section \<open>An outage of the hub\<close>

text \<open>A hub that has gone away keeps giving live rates.  Once its table was fetched, every later
  lookup that it fails returns the table's rate as live and not stale, however long ago the table was
  fetched, and renews the cache with it.\<close>

theorem hub_outage_reported_live:
  assumes "fs_hubTable st = Some (rs, t0)" and "map_of rs (to_upper ccy) = Some (x, d)"
    and "to_upper ccy \<noteq> ''USD''" and "fc_hubEnabled cfg" and "fc_hubBaseUrl cfg \<noteq> []"
    and "fst (fc_fetchHub cfg w) = Inl e"
    and "\<forall>c. jm_get (fs_liveRates st) (to_upper ccy) = Some c \<longrightarrow> fc_ttlMs cfg \<le> fc_now cfg w - le_fetchedAt c"
  shows "fst (getRate cfg ccy st w) = live_rate x d \<and>
    jm_get (fs_liveRates (fst (snd (getRate cfg ccy st w)))) (to_upper ccy) =
      Some \<lparr>le_rate = x, le_updatedAt = d, le_fetchedAt = fc_now cfg w\<rparr>"
proof -
  define key where "key = to_upper ccy"
  have t: "table_rate st key = Some (x, d)" using assms(1,2) by (simp add: table_rate_def key_def)
  obtain y w0 where f: "fc_fetchHub cfg w = (Inl y, w0)" using assms(6) by (cases "fc_fetchHub cfg w") auto
  have "\<exists>st1 w1. hubRate cfg key st w = (Some (x, d), st1, w1)"
    using assms(4,5) unfolding hubRate_def Let_def t f by simp
  then obtain st1 w1 where h: "hubRate cfg key st w = (Some (x, d), st1, w1)" by blast
  show ?thesis using assms(3,7) h
    unfolding getRate_def Let_def key_def [symmetric]
    by (auto simp: jm_get_remember split: option.splits)
qed

section \<open>Witnesses\<close>

text \<open>A hub that does not answer; its table of time zero knows the euro.\<close>

definition demo_fx :: "int fx_config" where
  "demo_fx = \<lparr>fc_ttlMs = 300000, fc_hubEnabled = True, fc_hubBaseUrl = ''https://hub'',
     fc_fetchHub = (\<lambda>w. (Inl TypeError, w)), fc_client = None, fc_now = (\<lambda>w. w), fc_iso = (\<lambda>w. ''t'')\<rparr>"

definition demo_fx_state :: fx_state where
  "demo_fx_state = new_fx\<lparr>fs_hubTable := Some ([(''EUR'', Fin (11 / 10), ''2026-01-01'')], 0)\<rparr>"

lemma rates_are_quoted_witness:
  "fst (convertToUsd exact_decimal demo_fx ''2'' ''XXX'' (fx_run demo_fx [(''EUR'', 5)] new_fx) 6) \<noteq> Inl TypeError"
proof -
  have "dj_parse exact_decimal ''2'' = Some (Fin 2)" by code_simp
  moreover obtain r st' w' where "getRate demo_fx ''XXX'' (fx_run demo_fx [(''EUR'', 5)] new_fx) 6 = (r, st', w')"
    by (metis prod.exhaust)
  ultimately show ?thesis
    using rates_are_quoted [of demo_fx "''XXX''" "[(''EUR'', 5)]" 6 r st' w' exact_decimal "''2''"] by auto
qed

lemma to_upper_EUR [simp]: "to_upper ''EUR'' = ''EUR''"
  by code_simp

lemma rate_source_order_witness:
  "\<exists>r st' w'. getRate demo_fx ''EUR'' new_fx 7 = (r, st', w') \<and> fx_source r = FxDefault \<and> fx_value r = Fin (108 / 100)"
proof -
  obtain r st' w' where g: "getRate demo_fx ''EUR'' new_fx 7 = (r, st', w')" by (metis prod.exhaust)
  have "fx_source (fst (getRate demo_fx ''EUR'' new_fx 7)) = FxDefault" by code_simp
  with rate_source_order [OF g] g show ?thesis by (auto simp: DEFAULT_RATES_def)
qed

lemma hub_outage_reported_live_witness:
  "fst (getRate demo_fx ''EUR'' demo_fx_state 1000000000000) = live_rate (Fin (11 / 10)) ''2026-01-01''"
  using hub_outage_reported_live [of demo_fx_state "[(''EUR'', Fin (11 / 10), ''2026-01-01'')]" 0 "''EUR''" "Fin (11 / 10)" "''2026-01-01''" demo_fx 1000000000000 TypeError]
  by (simp add: demo_fx_state_def demo_fx_def new_fx_def)

end
