(* ===== verification/Order_Poller.thy ===== *)
theory Order_Poller
  imports UTA_Reads
begin

text \<open>
  \<open>order-sync-poller.ts\<close>: the timer that keeps accounts' ledgers up to date.  A tick starts a pass over
  the running accounts unless one is under way; a pass awaits the broker at every account, so other
  ticks fall in between.  The list of accounts is taken when the pass starts.  The machine interleaves ticks and the steps of passes over accounts that
  share the world.
\<close>

section \<open>Cadence\<close>

text \<open>\<open>Math.round\<close> of a quotient of milliseconds, and the ticks between two observations; 0 for never.\<close>

definition round_half_up :: "rat \<Rightarrow> int" where
  "round_half_up x = \<lfloor>x + 1 / 2\<rfloor>"

definition observe_every :: "int \<Rightarrow> int \<Rightarrow> int" where
  "observe_every intervalMs observeIntervalMs =
     (if 0 < observeIntervalMs then max 1 (round_half_up (of_int observeIntervalMs / of_int intervalMs)) else 0)"

definition observe_pass :: "int \<Rightarrow> int \<Rightarrow> bool" where
  "observe_pass every tickCount \<longleftrightarrow> 0 < every \<and> tickCount mod every = 1 mod every"

section \<open>One account of a pass\<close>

definition is_healthy :: "'w uta_config \<Rightarrow> uta \<Rightarrow> bool" where
  "is_healthy cfg u \<longleftrightarrow> \<not> uc_keyless cfg \<and> health_of (health_cfg cfg) (us_health (u_side u)) = Healthy"

definition observe_quietly :: "'w uta_config \<Rightarrow> bool \<Rightarrow> uta \<times> 'w \<Rightarrow> uta \<times> 'w" where
  "observe_quietly cfg obs uw = (if obs then snd (observeExternalOrders cfg (fst uw) (snd uw)) else uw)"

definition sync_quietly :: "'w uta_config \<Rightarrow> uta \<times> 'w \<Rightarrow> uta \<times> 'w" where
  "sync_quietly cfg uw =
     (if getPendingOrderIds (u_git (fst uw)) = [] then uw else snd (uta_sync cfg (fst uw) (snd uw)))"

definition poll_account :: "'w uta_config \<Rightarrow> bool \<Rightarrow> uta \<times> 'w \<Rightarrow> uta \<times> 'w" where
  "poll_account cfg obs uw =
     (if \<not> is_healthy cfg (fst uw) then uw else sync_quietly cfg (observe_quietly cfg obs uw))"

section \<open>Ticks and passes\<close>

record poll_pass =
  pp_observe :: bool
  pp_rest :: "string list"

record 'w poller =
  pl_running :: bool
  pl_tickCount :: int
  pl_passes :: "poll_pass list"
  pl_utas :: "string \<Rightarrow> uta"
  pl_world :: 'w

definition start_poller :: "(string \<Rightarrow> uta) \<Rightarrow> 'w \<Rightarrow> 'w poller" where
  "start_poller us w = \<lparr>pl_running = False, pl_tickCount = 0, pl_passes = [], pl_utas = us, pl_world = w\<rparr>"

text \<open>
  A tick with the accounts that the manager lists at its start; the next account of pass \<open>k\<close>; the end
  of pass \<open>k\<close>; something else changes the accounts and the world between two steps.
\<close>

datatype 'w poll_event =
    PollTick "string list"
  | PollNext nat
  | PollEnd nat
  | PollOther "string \<Rightarrow> uta" 'w

definition tick :: "int \<Rightarrow> string list \<Rightarrow> 'w poller \<Rightarrow> 'w poller" where
  "tick every ids p =
     (if pl_running p then p
      else let n = pl_tickCount p + 1 in
        p\<lparr>pl_running := True, pl_tickCount := n,
          pl_passes := pl_passes p @ [\<lparr>pp_observe = observe_pass every n, pp_rest = ids\<rparr>]\<rparr>)"

definition poll_next :: "(string \<Rightarrow> 'w uta_config) \<Rightarrow> nat \<Rightarrow> 'w poller \<Rightarrow> 'w poller option" where
  "poll_next cfgs k p =
     (if length (pl_passes p) \<le> k then None
      else
        (case pp_rest (pl_passes p ! k) of
           [] \<Rightarrow> None
         | i # rest \<Rightarrow>
             (case poll_account (cfgs i) (pp_observe (pl_passes p ! k)) (pl_utas p i, pl_world p) of
                (u, w) \<Rightarrow> Some (p\<lparr>pl_passes := (pl_passes p)[k := (pl_passes p ! k)\<lparr>pp_rest := rest\<rparr>],
                  pl_utas := (pl_utas p)(i := u), pl_world := w\<rparr>))))"

definition poll_end :: "nat \<Rightarrow> 'w poller \<Rightarrow> 'w poller option" where
  "poll_end k p =
     (if length (pl_passes p) \<le> k \<or> pp_rest (pl_passes p ! k) \<noteq> [] then None
      else Some (p\<lparr>pl_running := False, pl_passes := take k (pl_passes p) @ drop (Suc k) (pl_passes p)\<rparr>))"

fun poll_step :: "(string \<Rightarrow> 'w uta_config) \<Rightarrow> int \<Rightarrow> 'w poll_event \<Rightarrow> 'w poller \<Rightarrow> 'w poller option" where
  "poll_step cfgs every (PollTick ids) p = Some (tick every ids p)"
| "poll_step cfgs every (PollNext k) p = poll_next cfgs k p"
| "poll_step cfgs every (PollEnd k) p = poll_end k p"
| "poll_step cfgs every (PollOther us w) p = Some (p\<lparr>pl_utas := us, pl_world := w\<rparr>)"

fun poll_run :: "(string \<Rightarrow> 'w uta_config) \<Rightarrow> int \<Rightarrow> 'w poll_event list \<Rightarrow> 'w poller \<Rightarrow> 'w poller option" where
  "poll_run cfgs every [] p = Some p"
| "poll_run cfgs every (ev # evs) p =
     (case poll_step cfgs every ev p of None \<Rightarrow> None | Some p1 \<Rightarrow> poll_run cfgs every evs p1)"

section \<open>Passes do not overlap\<close>

definition poller_ok :: "'w poller \<Rightarrow> bool" where
  "poller_ok p \<longleftrightarrow> length (pl_passes p) = (if pl_running p then 1 else 0) \<and> 0 \<le> pl_tickCount p"

lemma poll_step_ok:
  assumes "poller_ok p" "poll_step cfgs every ev p = Some p'"
  shows "poller_ok p'"
  using assms
  by (cases ev) (auto simp: poller_ok_def tick_def poll_next_def poll_end_def Let_def
      split: if_splits list.splits prod.splits)

lemma poll_run_ok:
  "poller_ok p \<Longrightarrow> poll_run cfgs every evs p = Some p' \<Longrightarrow> poller_ok p'"
  by (induction evs arbitrary: p) (auto split: option.splits intro: poll_step_ok)

lemma poller_ok_start [simp]: "poller_ok (start_poller us w)"
  by (simp add: poller_ok_def start_poller_def)

section \<open>A pass reaches every account\<close>

text \<open>
  The accounts that pass 0 has left, polled in order, with whatever happens between the steps; the
  accounts that a pass polled, with the ledger that each poll found and left.
\<close>

fun polled :: "(string \<Rightarrow> 'w uta_config) \<Rightarrow> int \<Rightarrow> 'w poll_event list \<Rightarrow> 'w poller \<Rightarrow> (string \<times> uta \<times> 'w \<times> uta) list" where
  "polled cfgs every [] p = []"
| "polled cfgs every (ev # evs) p =
     (case poll_step cfgs every ev p of
        None \<Rightarrow> []
      | Some p1 \<Rightarrow>
          (case ev of
             PollNext k \<Rightarrow> (let i = hd (pp_rest (pl_passes p ! k)) in [(i, pl_utas p i, pl_world p, pl_utas p1 i)])
           | _ \<Rightarrow> []) @ polled cfgs every evs p1)"

definition left_in_pass :: "'w poller \<Rightarrow> string list" where
  "left_in_pass p = concat (map pp_rest (pl_passes p))"

definition ends_pass :: "'w poll_event list \<Rightarrow> bool" where
  "ends_pass evs \<longleftrightarrow> list_ex (\<lambda>ev. case ev of PollEnd k \<Rightarrow> True | _ \<Rightarrow> False) evs"

lemma busy_step:
  assumes "pl_running p" "pl_passes p = [ps]" "poll_step cfgs every ev p = Some p1" "\<not> ends_pass [ev]"
  shows "pl_running p1 \<and> (\<exists>ps1. pl_passes p1 = [ps1] \<and> pp_observe ps1 = pp_observe ps \<and>
    pp_rest ps = map fst (polled cfgs every [ev] p) @ pp_rest ps1)"
proof (cases ev)
  case (PollNext k)
  then have "k = 0" using assms(2,3) by (auto simp: poll_next_def split: if_splits)
  then obtain i rest u w where "pp_rest ps = i # rest"
    "poll_account (cfgs i) (pp_observe ps) (pl_utas p i, pl_world p) = (u, w)"
    "p1 = p\<lparr>pl_passes := [ps\<lparr>pp_rest := rest\<rparr>], pl_utas := (pl_utas p)(i := u), pl_world := w\<rparr>"
    using assms(2,3) PollNext by (auto simp: poll_next_def split: list.splits prod.splits)
  then show ?thesis using assms(1,2,3) PollNext \<open>k = 0\<close> by (simp add: Let_def)
qed (use assms in \<open>auto simp: tick_def ends_pass_def\<close>)

lemma polled_sound:
  assumes "(i, u, w, u') \<in> set (polled cfgs every evs p)"
  shows "\<exists>obs w'. poll_account (cfgs i) obs (u, w) = (u', w')"
  using assms
proof (induction evs arbitrary: p)
  case (Cons ev evs)
  obtain p1 where p1: "poll_step cfgs every ev p = Some p1"
    using Cons.prems by (cases "poll_step cfgs every ev p") auto
  show ?case
  proof (cases "(i, u, w, u') \<in> set (polled cfgs every evs p1)")
    case True
    then show ?thesis by (rule Cons.IH)
  next
    case False
    then obtain k where k: "ev = PollNext k" using Cons.prems p1 by (cases ev) auto
    obtain j rest v x where s: "pp_rest (pl_passes p ! k) = j # rest"
      "poll_account (cfgs j) (pp_observe (pl_passes p ! k)) (pl_utas p j, pl_world p) = (v, x)"
      "pl_utas p1 = (pl_utas p)(j := v)"
      using p1 k by (auto simp: poll_next_def split: if_splits list.splits prod.splits)
    have "(i, u, w, u') = (j, pl_utas p j, pl_world p, v)"
      using Cons.prems False p1 k s by (simp add: Let_def)
    then show ?thesis using s(2) by blast
  qed
qed simp

lemma busy_run:
  assumes "pl_running p" "pl_passes p = [ps]" "poll_run cfgs every evs p = Some p'" "\<not> ends_pass evs"
  shows "\<exists>ps'. pl_passes p' = [ps'] \<and> pp_rest ps = map fst (polled cfgs every evs p) @ pp_rest ps'"
  using assms
proof (induction evs arbitrary: p ps)
  case (Cons ev evs)
  then obtain p1 where p1: "poll_step cfgs every ev p = Some p1" "poll_run cfgs every evs p1 = Some p'"
    by (auto split: option.splits)
  have ne: "\<not> ends_pass [ev]" "\<not> ends_pass evs" using Cons.prems(4) by (auto simp: ends_pass_def)
  from busy_step [OF Cons.prems(1,2) p1(1) ne(1)] obtain ps1 where
    "pl_running p1" "pl_passes p1 = [ps1]" and ps: "pp_rest ps = map fst (polled cfgs every [ev] p) @ pp_rest ps1"
    by blast
  with Cons.IH [OF this(1,2) p1(2) ne(2)] obtain ps' where
    "pl_passes p' = [ps']" "pp_rest ps1 = map fst (polled cfgs every evs p1) @ pp_rest ps'" by blast
  then show ?case using ps p1(1) by simp
qed simp

text \<open>C31: whatever ticks fall into it and whatever the brokers answer or throw, a pass that has started
  over some accounts, once it can end, has polled each of them, in order and once, and no second pass
  has run beside it: no account's failure keeps another from its sync.\<close>

theorem poll_pass_reaches_every_account:
  assumes "poll_run cfgs every evs (start_poller us w) = Some p" and "\<not> pl_running p"
    and "poll_run cfgs every evs' (tick every ids p) = Some p1" and "\<not> ends_pass evs'"
    and "poll_end 0 p1 = Some p2"
  shows "length (pl_passes p1) = 1 \<and> map fst (polled cfgs every evs' (tick every ids p)) = ids \<and>
    (\<forall>(i, u, v, u') \<in> set (polled cfgs every evs' (tick every ids p)).
       \<exists>obs v'. poll_account (cfgs i) obs (u, v) = (u', v'))"
proof -
  have "pl_passes p = []"
    using poll_run_ok [OF poller_ok_start assms(1)] assms(2) by (simp add: poller_ok_def)
  then obtain ps where t: "pl_running (tick every ids p)" "pl_passes (tick every ids p) = [ps]" "pp_rest ps = ids"
    using assms(2) by (simp add: tick_def Let_def)
  from busy_run [OF t(1,2) assms(3,4)] obtain ps' where
    "pl_passes p1 = [ps']" "ids = map fst (polled cfgs every evs' (tick every ids p)) @ pp_rest ps'"
    using t(3) by auto
  then show ?thesis using assms(5) polled_sound by (fastforce simp: poll_end_def split: if_splits)
qed

section \<open>Witnesses\<close>

definition demo_poller :: "int poller" where
  "demo_poller = start_poller (\<lambda>i. demo_sync_uta) 0"

lemma poll_pass_reaches_every_account_witness:
  "\<exists>p1 p2. poll_run (\<lambda>i. demo_sync_account) 90 [PollTick [''b''], PollNext 0] (tick 90 [''a''] demo_poller) = Some p1 \<and>
     poll_end 0 p1 = Some p2 \<and> length (pl_passes p1) = 1 \<and> pl_tickCount p1 = 1"
proof -
  let ?r = "poll_run (\<lambda>i. demo_sync_account) 90 [PollTick [''b''], PollNext 0] (tick 90 [''a''] demo_poller)"
  have r: "poll_run (\<lambda>i. demo_sync_account) 90 [] (start_poller (\<lambda>i. demo_sync_uta) 0) = Some demo_poller"
    and rest: "\<not> pl_running demo_poller"
    by (simp_all add: demo_poller_def start_poller_def)
  have "case ?r of None \<Rightarrow> False | Some p1 \<Rightarrow> map pp_rest (pl_passes p1) = [[]] \<and> pl_tickCount p1 = 1"
    by code_simp
  then obtain p1 where p1: "?r = Some p1" "map pp_rest (pl_passes p1) = [[]]" "pl_tickCount p1 = 1"
    by (auto split: option.splits)
  then obtain p2 where p2: "poll_end 0 p1 = Some p2" by (auto simp: poll_end_def)
  have "\<not> ends_pass [PollTick [''b''], PollNext 0]" by (simp add: ends_pass_def)
  from poll_pass_reaches_every_account [OF r rest p1(1) this p2] p1 p2 show ?thesis by auto
qed

end
