(* ===== verification/JS_Number.thy ===== *)
theory JS_Number
  imports Decimal_Instance
begin

text \<open>
  JavaScript numbers: a finite double is the rational it denotes, and an operation is the exact result
  rounded half to even to 53 binary digits, with gradual underflow and overflow to the infinities.
  The two zeros are one value here; a quotient by zero takes the sign of a positive zero.  Arrays of
  numbers with the index arithmetic of \<open>slice\<close> and of element reads, whose arguments may be any number,
  and the printing and reading of numbers.
\<close>

named_theorems num_simps "evaluation of operations on numbers"

section \<open>Rounding\<close>

definition dbl_unit :: "int \<Rightarrow> int" where
  "dbl_unit e = max (e - 52) (- 1074)"

definition dbl_round :: "rat \<Rightarrow> rat" where
  "dbl_round = round_format half_even 2 dbl_unit"

definition fl :: "rat \<Rightarrow> dec" where
  "fl x = (let r = dbl_round x in if UNSET_DOUBLE < r then PosInf else if r < - UNSET_DOUBLE then NegInf else Fin r)"

interpretation db: int_rounding half_even 2 dbl_unit
  by unfold_locales (auto simp: half_even_mono half_even_int dbl_unit_def)

lemma dbl_round_mono: "x \<le> y \<Longrightarrow> dbl_round x \<le> dbl_round y"
  unfolding dbl_round_def by (rule db.format_mono)

lemma dbl_round_zero [simp]: "dbl_round 0 = 0"
  by (simp add: dbl_round_def)

lemma dbl_round_neg: "dbl_round (- x) = - dbl_round x"
  unfolding dbl_round_def by (rule db.format_neg)

text \<open>Integers up to \<open>2 ^ 53\<close> are doubles.\<close>

lemma dbl_round_int:
  assumes "\<bar>n\<bar> \<le> 2 ^ 53"
  shows "dbl_round (of_int n) = of_int n"
proof -
  have pos: "dbl_round (of_int k) = of_int k" if "0 < k" "k \<le> 2 ^ 53" for k
  proof (cases "k = 2 ^ 53")
    case True
    have "rat_exp 2 (2 ^ 53) = 53" by (simp add: rat_exp_def compute_floorlog)
    then have "dbl_unit (rat_exp 2 (2 ^ 53)) \<le> 53" by (simp add: dbl_unit_def)
    from db.format_multiple_pos [of "2 ^ 53" 1 53, OF _ _ this] show ?thesis unfolding True dbl_round_def by simp
  next
    case False
    then have "k < 2 ^ 53" using that by simp
    then have "(of_int k :: rat) < of_int (2 ^ 53)" by (simp only: of_int_less_iff)
    then have b: "(of_int k :: rat) < 2 powi 53" by simp
    have "rat_exp 2 (of_int k) < 53"
    proof (rule ccontr)
      assume "\<not> rat_exp 2 (of_int k) < 53"
      then have "(of_nat 2 :: rat) powi 53 \<le> of_nat 2 powi rat_exp 2 (of_int k)" by (intro powi_mono) auto
      with rat_exp_bounds [of 2 "of_int k"] b that show False by simp
    qed
    then have "dbl_unit (rat_exp 2 (of_int k)) \<le> 0" by (simp add: dbl_unit_def)
    from db.format_multiple_pos [of "of_int k" k 0, OF _ _ this] that show ?thesis by (simp add: dbl_round_def)
  qed
  consider "n = 0" | "0 < n" | "0 < - n" by linarith
  then show ?thesis
  proof cases
    case 3
    have "dbl_round (of_int (- n)) = of_int (- n)" using assms 3 by (intro pos) auto
    then show ?thesis using dbl_round_neg [of "of_int n"] by simp
  qed (use assms pos in auto)
qed

section \<open>Order\<close>

text \<open>The order of the values that are numbers.\<close>

fun n_le :: "dec \<Rightarrow> dec \<Rightarrow> bool" where
  "n_le NegInf x = (x \<noteq> NotANumber)"
| "n_le (Fin a) (Fin b) = (a \<le> b)"
| "n_le x PosInf = (x \<noteq> NotANumber)"
| "n_le _ _ = False"

lemma d_lte_n_le: "d_lte a b = n_le a b"
  by (cases a; cases b) (auto simp: d_lte_def d_equals_def)

lemma n_le_trans: "n_le a b \<Longrightarrow> n_le b c \<Longrightarrow> n_le a c"
  by (cases a; cases b; cases c) auto

lemma n_le_refl [simp]: "n_le a a \<longleftrightarrow> a \<noteq> NotANumber"
  by (cases a) auto

lemma double_max: "2 ^ 53 < UNSET_DOUBLE" "0 < UNSET_DOUBLE"
  by (simp_all add: UNSET_DOUBLE_def)

lemma fl_mono: "x \<le> y \<Longrightarrow> n_le (fl x) (fl y)"
  using dbl_round_mono [of x y] double_max by (auto simp: fl_def Let_def)

lemma fl_nan [simp]: "fl x \<noteq> NotANumber"
  by (simp add: fl_def Let_def)

lemma fl_int:
  assumes "\<bar>n\<bar> \<le> 2 ^ 53"
  shows "fl (of_int n) = Fin (of_int n)"
proof -
  have "(of_int \<bar>n\<bar> :: rat) \<le> of_int (2 ^ 53)" using assms by (simp only: of_int_le_iff)
  then have "\<bar>of_int n :: rat\<bar> \<le> 2 ^ 53" by simp
  then have "\<bar>of_int n :: rat\<bar> < UNSET_DOUBLE" using double_max(1) by (rule le_less_trans)
  then show ?thesis using dbl_round_int [OF assms] unfolding fl_def Let_def
    by (simp add: abs_less_iff)
qed

lemma fl_0 [simp]: "fl 0 = Fin 0"
  using fl_int [of 0] by simp

lemma fl_nonneg: "0 \<le> x \<Longrightarrow> n_le (Fin 0) (fl x)"
  using fl_mono [of 0 x] by simp

section \<open>Arithmetic\<close>

fun n_plus :: "dec \<Rightarrow> dec \<Rightarrow> dec" where
  "n_plus (Fin a) (Fin b) = fl (a + b)"
| "n_plus NotANumber _ = NotANumber"
| "n_plus _ NotANumber = NotANumber"
| "n_plus PosInf NegInf = NotANumber"
| "n_plus NegInf PosInf = NotANumber"
| "n_plus PosInf _ = PosInf"
| "n_plus NegInf _ = NegInf"
| "n_plus _ PosInf = PosInf"
| "n_plus _ NegInf = NegInf"

definition n_minus :: "dec \<Rightarrow> dec \<Rightarrow> dec" where
  "n_minus a b = n_plus a (d_neg b)"

definition n_sign :: "dec \<Rightarrow> rat" where
  "n_sign a = (case a of Fin r \<Rightarrow> sgn r | PosInf \<Rightarrow> 1 | NegInf \<Rightarrow> -1 | NotANumber \<Rightarrow> 0)"

definition signed_inf :: "rat \<Rightarrow> dec" where
  "signed_inf s = (if 0 < s then PosInf else if s < 0 then NegInf else NotANumber)"

fun n_times :: "dec \<Rightarrow> dec \<Rightarrow> dec" where
  "n_times (Fin a) (Fin b) = fl (a * b)"
| "n_times NotANumber _ = NotANumber"
| "n_times _ NotANumber = NotANumber"
| "n_times a b = signed_inf (n_sign a * n_sign b)"

fun n_div :: "dec \<Rightarrow> dec \<Rightarrow> dec" where
  "n_div (Fin a) (Fin b) = (if b = 0 then signed_inf (sgn a) else fl (a / b))"
| "n_div NotANumber _ = NotANumber"
| "n_div _ NotANumber = NotANumber"
| "n_div (Fin a) _ = Fin 0"
| "n_div a (Fin b) = signed_inf (n_sign a * (if b < 0 then -1 else 1))"
| "n_div _ _ = NotANumber"

text \<open>\<open>Math.max\<close>, \<open>Math.min\<close> of a list of arguments; \<open>reduce\<close> to a sum; squares.\<close>

definition d_min :: "dec \<Rightarrow> dec \<Rightarrow> dec" where
  "d_min a b = (if a = NotANumber \<or> b = NotANumber then NotANumber else if d_lt b a then b else a)"

definition max_of :: "dec list \<Rightarrow> dec" where
  "max_of xs = foldl d_max NegInf xs"

definition min_of :: "dec list \<Rightarrow> dec" where
  "min_of xs = foldl d_min PosInf xs"

definition sum_of :: "dec list \<Rightarrow> dec" where
  "sum_of xs = foldl n_plus (Fin 0) xs"

definition n_square :: "dec \<Rightarrow> dec" where
  "n_square a = n_times a a"

text \<open>
  \<open>Math.sqrt\<close>, correctly rounded: the integer root of the mantissa, with half a unit for what is lost,
  before the rounding to 53 digits.
\<close>

function isqrt :: "int \<Rightarrow> int" where
  "isqrt n = (if n \<le> 0 then 0 else let r = 2 * isqrt (n div 4) in if (r + 1) * (r + 1) \<le> n then r + 1 else r)"
  by pat_completeness auto
termination
  by (relation "measure nat") auto

declare isqrt.simps [simp del]

definition sqrt_pos :: "rat \<Rightarrow> dec" where
  "sqrt_pos x = (let k = rat_exp 2 x div 2 - 54; q = x / 4 powi k; s = isqrt \<lfloor>q\<rfloor> in
     fl ((if of_int (s * s) = q then of_int s else of_int s + 1 / 2) * 2 powi k))"

definition n_sqrt :: "dec \<Rightarrow> dec" where
  "n_sqrt a = (case a of NotANumber \<Rightarrow> NotANumber | NegInf \<Rightarrow> NotANumber | PosInf \<Rightarrow> PosInf
     | Fin x \<Rightarrow> if x < 0 then NotANumber else if x = 0 then Fin 0 else sqrt_pos x)"

section \<open>Arrays\<close>

definition n_of :: "nat \<Rightarrow> dec" where
  "n_of k = Fin (of_nat k)"

definition n_len :: "dec list \<Rightarrow> dec" where
  "n_len xs = n_of (length xs)"

definition rat_trunc :: "rat \<Rightarrow> int" where
  "rat_trunc r = (if 0 \<le> r then \<lfloor>r\<rfloor> else \<lceil>r\<rceil>)"

text \<open>The argument of \<open>slice\<close> as a position in an array of length \<open>n\<close>; a read outside an array is \<open>undefined\<close>, which
  is \<open>NaN\<close> in arithmetic.\<close>

definition slice_pos :: "nat \<Rightarrow> dec \<Rightarrow> nat" where
  "slice_pos n d = (case d of NotANumber \<Rightarrow> 0 | NegInf \<Rightarrow> 0 | PosInf \<Rightarrow> n
     | Fin r \<Rightarrow> let k = rat_trunc r in if k < 0 then nat (int n + k) else min n (nat k))"

definition slice_from :: "dec \<Rightarrow> 'a list \<Rightarrow> 'a list" where
  "slice_from s xs = drop (slice_pos (length xs) s) xs"

definition js_slice :: "dec \<Rightarrow> dec \<Rightarrow> 'a list \<Rightarrow> 'a list" where
  "js_slice s e xs = (let i = slice_pos (length xs) s in take (slice_pos (length xs) e - i) (drop i xs))"

definition elem_at :: "dec list \<Rightarrow> dec \<Rightarrow> dec" where
  "elem_at xs d = (case d of Fin r \<Rightarrow> if r \<in> \<int> \<and> 0 \<le> r \<and> r < of_nat (length xs) then xs ! nat \<lfloor>r\<rfloor> else NotANumber
     | _ \<Rightarrow> NotANumber)"

text \<open>\<open>xs.sort((a, b) => a - b)\<close>, on numbers.\<close>

fun num_insert :: "dec \<Rightarrow> dec list \<Rightarrow> dec list" where
  "num_insert x [] = [x]"
| "num_insert x (y # ys) = (if d_gt x y then y # num_insert x ys else x # y # ys)"

definition num_sort :: "dec list \<Rightarrow> dec list" where
  "num_sort xs = foldr num_insert xs []"

section \<open>Text\<close>

text \<open>\<open>Number(s)\<close> of digits with at most one point, and \<open>String(x)\<close>: the fewest digits that read back.\<close>

definition js_number :: "string \<Rightarrow> dec" where
  "js_number s = (case parse_unsigned s of None \<Rightarrow> NotANumber | Some r \<Rightarrow> fl r)"

definition digits_at :: "rat \<Rightarrow> nat \<Rightarrow> (int \<times> int) option" where
  "digits_at r k = (let n = rat_exp 10 r + 1; scale = 10 powi (n - int k); q = r / scale in
     map_option (\<lambda>c. if c = 10 ^ k then (10 ^ (k - 1), n + 1) else (c, n))
       (find (\<lambda>c. fl (of_int c * scale) = Fin r) [half_even q, \<lfloor>q\<rfloor>, \<lceil>q\<rceil>]))"

definition shortest_digits :: "rat \<Rightarrow> string \<times> int" where
  "shortest_digits r = (case List.map_filter (digits_at r) [1..<18] of
       [] \<Rightarrow> ([], 0) | (c, n) # _ \<Rightarrow> (map digit_char (int_digits c), n))"

definition sign_str :: "int \<Rightarrow> string" where
  "sign_str e = (if e < 0 then ''-'' else ''+'')"

definition pos_str :: "rat \<Rightarrow> string" where
  "pos_str r = (case shortest_digits r of (ds, n) \<Rightarrow>
     let k = int (length ds) in
     if k \<le> n \<and> n \<le> 21 then ds @ replicate (nat (n - k)) (CHR ''0'')
     else if 0 < n \<and> n \<le> 21 then take (nat n) ds @ ''.'' @ drop (nat n) ds
     else if - 6 < n \<and> n \<le> 0 then ''0.'' @ replicate (nat (- n)) (CHR ''0'') @ ds
     else take 1 ds @ (if k = 1 then [] else ''.'' @ drop 1 ds) @ ''e'' @ sign_str (n - 1) @ int_str \<bar>n - 1\<bar>)"

definition num_str :: "dec \<Rightarrow> string" where
  "num_str d = (case d of NotANumber \<Rightarrow> ''NaN'' | PosInf \<Rightarrow> ''Infinity'' | NegInf \<Rightarrow> ''-Infinity''
     | Fin r \<Rightarrow> if r = 0 then ''0'' else if r < 0 then ''-'' @ pos_str (- r) else pos_str r)"

section \<open>Evaluation\<close>

text \<open>Exponents over binary integers.\<close>

function int_log :: "int \<Rightarrow> int \<Rightarrow> nat" where
  "int_log b n = (if n \<le> 0 \<or> b \<le> 1 then 0 else Suc (int_log b (n div b)))"
  by pat_completeness auto
termination
  by (relation "measure (\<lambda>(b, n). nat n)") (auto simp: nat_less_eq_zless int_div_less_self)

declare int_log.simps [simp del]

lemma int_log_floorlog: "1 < b \<Longrightarrow> int_log (int b) n = floorlog b (nat n)"
proof (induction "int b" n rule: int_log.induct)
  case (1 n)
  show ?case
  proof (cases "n \<le> 0")
    case True
    then show ?thesis by (simp add: int_log.simps [of "int b" n] floorlog_def)
  next
    case False
    then have "int_log (int b) (n div int b) = floorlog b (nat n div b)" using 1 by (simp add: nat_div_distrib)
    moreover have "floorlog b (nat n) = Suc (floorlog b (nat n div b))"
      using False \<open>1 < b\<close> by (subst compute_floorlog) simp
    ultimately show ?thesis using False 1(2) by (simp add: int_log.simps [of "int b" n])
  qed
qed

lemma rat_exp_code [code]:
  "rat_exp b x = (if 1 < b then if 1 \<le> x then int (int_log (int b) \<lfloor>x\<rfloor>) - 1 else - int (int_log (int b) (\<lceil>1 / x\<rceil> - 1))
     else Code.abort (STR ''base'') (\<lambda>_. rat_exp b x))"
  by (simp add: rat_exp_def int_log_floorlog)

text \<open>Rounding over binary integers, with a short cut for small integers.\<close>

definition pow2 :: "int \<Rightarrow> int" where
  "pow2 k = 2 ^ nat k"

lemma pow2_code [code]:
  "pow2 k = (if k \<le> 0 then 1 else let h = pow2 (k div 2) in if even k then h * h else 2 * (h * h))"
proof (cases "k \<le> 0")
  case False
  then have "nat k = nat (k div 2) + nat (k div 2) + nat (k mod 2)" by (simp add: nat_add_distrib [symmetric])
  then have "pow2 k = pow2 (k div 2) * pow2 (k div 2) * 2 ^ nat (k mod 2)" by (simp add: pow2_def power_add)
  then show ?thesis using False by (cases "even k") (simp_all add: Let_def even_iff_mod_2_eq_zero odd_iff_mod_2_eq_one)
qed (simp add: pow2_def)

definition half_even_frac :: "int \<Rightarrow> int \<Rightarrow> int" where
  "half_even_frac n d = (let q = n div d; r = 2 * (n mod d) in if r < d \<or> r = d \<and> even q then q else q + 1)"

lemma half_even_frac:
  assumes "0 < d"
  shows "half_even (of_int n / of_int d) = half_even_frac n d"
proof -
  have d: "(0 :: rat) < of_int d" using assms by simp
  have "(of_int n :: rat) = of_int (n div d) * of_int d + of_int (n mod d)"
    by (simp only: of_int_mult [symmetric] of_int_add [symmetric] div_mult_mod_eq)
  then have "(of_int n :: rat) / of_int d - of_int (n div d) = of_int (n mod d) / of_int d"
    using d by (simp add: divide_simps)
  moreover have "(of_int (n mod d) / of_int d < (1 / 2 :: rat)) \<longleftrightarrow> of_int (2 * (n mod d)) < (of_int d :: rat)"
    using d by (simp add: divide_simps mult.commute)
  then have "(of_int (n mod d) / of_int d < (1 / 2 :: rat)) \<longleftrightarrow> 2 * (n mod d) < d" by (simp only: of_int_less_iff)
  moreover have "(of_int (n mod d) / of_int d = (1 / 2 :: rat)) \<longleftrightarrow> of_int (2 * (n mod d)) = (of_int d :: rat)"
    using d by (simp add: divide_simps mult.commute)
  then have "(of_int (n mod d) / of_int d = (1 / 2 :: rat)) \<longleftrightarrow> 2 * (n mod d) = d" by (simp only: of_int_eq_iff)
  ultimately show ?thesis by (simp only: half_even_def half_even_frac_def Let_def floor_divide_of_int_eq)
qed

definition frac_round :: "int \<Rightarrow> int \<Rightarrow> int \<Rightarrow> rat" where
  "frac_round u n d = (if 0 \<le> u then of_int (half_even_frac n (d * pow2 u) * pow2 u)
     else of_int (half_even_frac (n * pow2 (- u)) d) / of_int (pow2 (- u)))"

lemma frac_round:
  assumes "0 < d"
  shows "round_unit half_even 2 u (of_int n / of_int d) = frac_round u n d"
proof (cases "0 \<le> u")
  case True
  then have p: "(2 :: rat) powi u = of_int (pow2 u)" by (simp add: pow2_def power_int_def)
  have "0 < d * pow2 u" using assms by (simp add: pow2_def)
  from half_even_frac [OF this] show ?thesis using True
    by (simp add: round_unit_def p frac_round_def mult.commute)
next
  case False
  then have p: "(2 :: rat) powi u = 1 / of_int (pow2 (- u))" by (simp add: pow2_def power_int_def field_simps)
  show ?thesis using False half_even_frac [OF assms, of "n * pow2 (- u)"]
    by (simp add: round_unit_def p frac_round_def)
qed

definition fl_pos :: "rat \<Rightarrow> rat" where
  "fl_pos x = (case quotient_of x of (n, d) \<Rightarrow> frac_round (dbl_unit (rat_exp 2 x)) n d)"

lemma fl_pos: "0 < x \<Longrightarrow> dbl_round x = fl_pos x"
  using quotient_of_div [of x] quotient_of_denom_pos [of x] frac_round
  by (auto simp: dbl_round_def round_format_def fl_pos_def split: prod.splits)

lemma fl_small:
  assumes "\<bar>x\<bar> \<le> 2 ^ 53"
  shows "fl x = Fin (dbl_round x)"
proof -
  have "dbl_round (- (2 ^ 53)) = - (2 ^ 53)" "dbl_round (2 ^ 53) = 2 ^ 53"
    using dbl_round_int [of "2 ^ 53"] dbl_round_int [of "- (2 ^ 53)"] by simp_all
  moreover have "- (2 ^ 53) \<le> x" "x \<le> 2 ^ 53" using assms by (simp_all only: abs_le_iff minus_le_iff)
  ultimately have "- (2 ^ 53) \<le> dbl_round x" "dbl_round x \<le> 2 ^ 53"
    using dbl_round_mono [of "- (2 ^ 53)" x] dbl_round_mono [of x "2 ^ 53"] by (simp_all only:)
  then show ?thesis using double_max(1) by (simp add: fl_def Let_def)
qed

lemma fl_code [code]:
  "fl x = (if snd (quotient_of x) = 1 \<and> \<bar>x\<bar> \<le> 9007199254740992 then Fin x else
     let r = (if 0 < x then fl_pos x else - fl_pos (- x)) in
     if \<bar>x\<bar> < 9007199254740992 then Fin r
     else if UNSET_DOUBLE < r then PosInf else if r < - UNSET_DOUBLE then NegInf else Fin r)"
proof (cases "snd (quotient_of x) = 1 \<and> \<bar>x\<bar> \<le> 9007199254740992")
  case True
  then obtain n where n: "x = of_int n" using quotient_of_div [of x] by (cases "quotient_of x") auto
  then have "of_int \<bar>n\<bar> \<le> (of_int (2 ^ 53) :: rat)" using True by simp
  then have "\<bar>n\<bar> \<le> 2 ^ 53" by (simp only: of_int_le_iff)
  from fl_int [OF this] True n show ?thesis by simp
next
  case False
  then have x: "x \<noteq> 0" by auto
  have r: "(if 0 < x then fl_pos x else - fl_pos (- x)) = dbl_round x"
    using x fl_pos [of x] fl_pos [of "- x"] dbl_round_neg [of x] by auto
  have "\<bar>x\<bar> \<le> 2 ^ 53" if "\<bar>x\<bar> < 9007199254740992" using that by simp
  from fl_small [OF this] show ?thesis using False
    by (simp only: r Let_def if_False) (simp add: fl_def Let_def)
qed

end
