(* ===== verification/Calc_Base.thy ===== *)
theory Calc_Base
  imports JS_Number
begin

text \<open>
  What the calculator's parts share (\<open>src/src/domain/analysis/calc-v2/errors.ts\<close>): diagnostics, the search
  for a near miss of a name, and computations that may throw or never return.
\<close>

section \<open>Diagnostics\<close>

datatype calc_kind = SyntaxErr | UnknownFunction | UndeclaredName | ArityErr | TypeErr | InsufficientBars | ReflexErr
  | DataSource

record diagnostic =
  dg_kind :: calc_kind
  dg_message :: string
  dg_line :: "nat option"
  dg_col :: "nat option"
  dg_suggestion :: "string option"

text \<open>A \<open>CalcError\<close> with its diagnostic, or another \<open>Error\<close> with its message.\<close>

datatype calc_error = CalcError diagnostic | PlainErr string

definition calc_err :: "calc_kind \<Rightarrow> string \<Rightarrow> nat option \<Rightarrow> nat option \<Rightarrow> string option \<Rightarrow> calc_error" where
  "calc_err k msg l c s = CalcError \<lparr>dg_kind = k, dg_message = msg, dg_line = l, dg_col = c, dg_suggestion = s\<rparr>"

text \<open>The message of the error object.\<close>

definition error_text :: "calc_error \<Rightarrow> string" where
  "error_text e = (case e of PlainErr s \<Rightarrow> s | CalcError d \<Rightarrow>
     (case dg_line d of None \<Rightarrow> dg_message d
      | Some l \<Rightarrow> dg_message d @ '' (line '' @ nat_str l @
          (case dg_col d of None \<Rightarrow> [] | Some c \<Rightarrow> '', col '' @ nat_str c) @ '')''))"

section \<open>Computations\<close>

text \<open>\<open>None\<close>: the code does not return.\<close>

type_synonym 'a run = "(calc_error + 'a) option"

definition ret :: "'a \<Rightarrow> 'a run" where
  "ret a = Some (Inr a)"

definition fail :: "calc_error \<Rightarrow> 'a run" where
  "fail e = Some (Inl e)"

definition bindR :: "'a run \<Rightarrow> ('a \<Rightarrow> 'b run) \<Rightarrow> 'b run" where
  "bindR m f = (case m of None \<Rightarrow> None | Some (Inl e) \<Rightarrow> Some (Inl e) | Some (Inr a) \<Rightarrow> f a)"

definition check :: "bool \<Rightarrow> calc_error \<Rightarrow> unit run" where
  "check b e = (if b then ret () else fail e)"

lemma bindR_simps [simp]:
  "bindR (ret a) f = f a" "bindR (fail e) f = fail e" "bindR None f = None"
  "bindR (Some (Inr a)) f = f a" "bindR (Some (Inl e)) f = Some (Inl e)"
  by (simp_all add: bindR_def ret_def fail_def)

lemma ret_eq [simp]: "ret a = Some (Inr b) \<longleftrightarrow> a = b" "Some (Inr b) = ret a \<longleftrightarrow> a = b" "ret a = ret b \<longleftrightarrow> a = b"
  "fail e \<noteq> ret a" "ret a \<noteq> fail e" "fail e \<noteq> None" "ret a \<noteq> None" "fail e \<noteq> Some (Inr b)" "ret a \<noteq> Some (Inl e)"
  "fail e = fail d \<longleftrightarrow> e = d" "fail e = Some (Inl d) \<longleftrightarrow> e = d"
  by (auto simp: ret_def fail_def)

lemma bindR_eq_Inr: "bindR m f = Some (Inr b) \<longleftrightarrow> (\<exists>a. m = Some (Inr a) \<and> f a = Some (Inr b))"
  by (auto simp: bindR_def split: option.splits sum.splits)

lemma bindR_eq_ret: "bindR m f = ret b \<longleftrightarrow> (\<exists>a. m = ret a \<and> f a = ret b)"
  by (auto simp: bindR_def ret_def split: option.splits sum.splits)

lemma check_bind: "bindR (check b e) f = (if b then f () else fail e)"
  by (simp add: check_def)

definition returns :: "'a run \<Rightarrow> bool" where
  "returns m \<longleftrightarrow> m \<noteq> None"

lemma returns_simps [simp]: "returns (ret a)" "returns (fail e)" "returns (Some r)" "\<not> returns None"
  "returns (bindR m f) \<longleftrightarrow> returns m \<and> (\<forall>a. m = ret a \<longrightarrow> returns (f a))"
  by (auto simp: returns_def ret_def fail_def bindR_def split: option.splits sum.splits)

lemma returnsD: "returns m \<Longrightarrow> (\<exists>a. m = ret a) \<or> (\<exists>e. m = fail e)"
  by (cases m; cases "the m") (auto simp: returns_def ret_def fail_def)

text \<open>\<open>for (let i = i0; c(i); i++) s = f(i, s)\<close> over numbers: where adding one does not change \<open>i\<close> it does not end.\<close>

partial_function (option) num_loop :: "(dec \<Rightarrow> bool) \<Rightarrow> (dec \<Rightarrow> 's \<Rightarrow> 's run) \<Rightarrow> dec \<Rightarrow> 's \<Rightarrow> 's run" where
  [code]: "num_loop c f i s = (if c i then
       (case f i s of None \<Rightarrow> None | Some r \<Rightarrow> (case r of Inl e \<Rightarrow> Some (Inl e) | Inr t \<Rightarrow> num_loop c f (n_plus i (Fin 1)) t))
     else Some (Inr s))"

text \<open>Where the loop counts through the integers it is the fold over them.\<close>

fun foldR :: "('x \<Rightarrow> 's \<Rightarrow> 's run) \<Rightarrow> 'x list \<Rightarrow> 's \<Rightarrow> 's run" where
  "foldR f [] s = ret s"
| "foldR f (x # xs) s = bindR (f x s) (foldR f xs)"

lemma n_plus_one: "k < 2 ^ 53 \<Longrightarrow> n_plus (n_of k) (Fin 1) = n_of (Suc k)"
proof -
  assume "k < 2 ^ 53"
  then have "int (Suc k) \<le> int (2 ^ 53)" by (simp only: of_nat_le_iff Suc_le_eq)
  then have "\<bar>int (Suc k)\<bar> \<le> 2 ^ 53" by simp
  from fl_int [OF this] show ?thesis by (simp add: n_of_def add.commute)
qed

lemma n_of_less [simp]: "d_lt (n_of i) (n_of j) \<longleftrightarrow> i < j"
  by (simp add: n_of_def)

lemma num_loop_fold:
  assumes "n \<le> 2 ^ 53" and "\<And>k. c (n_of k) \<longleftrightarrow> k < n"
  shows "num_loop c f (n_of i) s = foldR f (map n_of [i..<n]) s"
  using assms(1)
proof (induction "n - i" arbitrary: i s)
  case 0
  then have "[i..<n] = []" "\<not> i < n" by simp_all
  then show ?case using assms(2) [of i] by (subst num_loop.simps) (simp add: ret_def)
next
  case (Suc d)
  then have i: "i < n" "[i..<n] = i # [Suc i..<n]" by (simp_all add: upt_conv_Cons)
  then have one: "n_plus (n_of i) (Fin 1) = n_of (Suc i)" using Suc.prems by (intro n_plus_one) simp
  have IH: "num_loop c f (n_of (Suc i)) t = foldR f (map n_of [Suc i..<n]) t" for t
    using Suc.hyps(1) [of "Suc i" t] Suc.hyps(2) Suc.prems by simp
  show ?case using assms(2) [of i] i
    by (subst num_loop.simps) (simp add: one IH bindR_def split: option.splits sum.splits)
qed

text \<open>Where adding one has no effect and the body does not throw there is no answer.\<close>

lemma num_loop_never:
  assumes "c i" "n_plus i (Fin 1) = i" "\<And>s. \<exists>t. f i s = ret t"
  shows "num_loop c f i s = None"
proof -
  have "\<not> (c i \<and> n_plus i (Fin 1) = i \<and> (\<forall>s. \<exists>t. f i s = ret t))" if "num_loop c f i s = Some r" for r
    using that
  proof (rule num_loop.raw_induct [where P = "\<lambda>c f i s r. \<not> (c i \<and> n_plus i (Fin 1) = i \<and> (\<forall>s. \<exists>t. f i s = ret t))", rotated])
    fix loop c f i and s :: 's and r
    assume IH: "\<And>c f i s r. loop c f i s = Some r \<Longrightarrow> \<not> (c i \<and> n_plus i (Fin 1) = i \<and> (\<forall>s. \<exists>t. f i s = ret t))"
      and step: "(if c i then (case f i s of None \<Rightarrow> None | Some r \<Rightarrow> (case r of Inl e \<Rightarrow> Some (Inl e)
         | Inr t \<Rightarrow> loop c f (n_plus i (Fin 1)) t)) else Some (Inr s)) = Some r"
    show "\<not> (c i \<and> n_plus i (Fin 1) = i \<and> (\<forall>s. \<exists>t. f i s = ret t))"
    proof
      assume a: "c i \<and> n_plus i (Fin 1) = i \<and> (\<forall>s. \<exists>t. f i s = ret t)"
      then obtain t where "f i s = ret t" by blast
      then have "loop c f i t = Some r" using step a by (simp add: ret_def)
      with IH a show False by blast
    qed
  qed
  then show ?thesis using assms by (cases "num_loop c f i s") auto
qed

text \<open>What every round keeps holds at the end; a loop over a range that starts no lower than \<open>- 2 ^ 53\<close> ends.\<close>

definition run_ok :: "(calc_error \<Rightarrow> bool) \<Rightarrow> ('a \<Rightarrow> bool) \<Rightarrow> 'a run \<Rightarrow> bool" where
  "run_ok Q P m = (case m of None \<Rightarrow> True | Some (Inl e) \<Rightarrow> Q e | Some (Inr a) \<Rightarrow> P a)"

lemma run_ok_simps [simp]:
  "run_ok Q P None" "run_ok Q P (ret a) = P a" "run_ok Q P (fail e) = Q e" "run_ok Q P (Some (Inl e)) = Q e" "run_ok Q P (Some (Inr a)) = P a"
  by (simp_all add: run_ok_def ret_def fail_def)

lemma run_ok_bind: "run_ok Q R m \<Longrightarrow> (\<And>a. R a \<Longrightarrow> run_ok Q P (f a)) \<Longrightarrow> run_ok Q P (bindR m f)"
  by (cases m; cases "the m"; auto simp: bindR_def)

lemma run_ok_mono: "run_ok Q R m \<Longrightarrow> (\<And>a. R a \<Longrightarrow> P a) \<Longrightarrow> run_ok Q P m"
  by (auto simp: run_ok_def split: option.splits sum.splits)

lemma num_loop_ok:
  assumes "P s" "\<And>i s. P s \<Longrightarrow> run_ok Q P (f i s)"
  shows "run_ok Q P (num_loop c f i s)"
proof -
  have "P s \<longrightarrow> (\<forall>i s. P s \<longrightarrow> run_ok Q P (f i s)) \<longrightarrow> run_ok Q P (Some x)" if "num_loop c f i s = Some x" for x
    using that
  proof (rule num_loop.raw_induct [where P = "\<lambda>c f i s x. P s \<longrightarrow> (\<forall>i s. P s \<longrightarrow> run_ok Q P (f i s)) \<longrightarrow> run_ok Q P (Some x)", rotated])
    fix loop c f i s x
    assume IH: "\<And>c f i s x. loop c f i s = Some x \<Longrightarrow> P s \<longrightarrow> (\<forall>i s. P s \<longrightarrow> run_ok Q P (f i s)) \<longrightarrow> run_ok Q P (Some x)"
      and step: "(if c i then (case f i s of None \<Rightarrow> None | Some r \<Rightarrow> (case r of Inl e \<Rightarrow> Some (Inl e)
         | Inr t \<Rightarrow> loop c f (n_plus i (Fin 1)) t)) else Some (Inr s)) = Some x"
    show "P s \<longrightarrow> (\<forall>i s. P s \<longrightarrow> run_ok Q P (f i s)) \<longrightarrow> run_ok Q P (Some x)"
    proof (intro impI)
      assume P: "P s" and keep: "\<forall>i s. P s \<longrightarrow> run_ok Q P (f i s)"
      then have fis: "run_ok Q P (f i s)" by blast
      consider "\<not> c i" | e where "c i" "f i s = Some (Inl e)" | t where "c i" "f i s = Some (Inr t)"
        using step by (cases "c i") (auto split: option.splits sum.splits)
      then show "run_ok Q P (Some x)"
      proof cases
        case (3 t)
        then have "P t" "loop c f (n_plus i (Fin 1)) t = Some x" using fis step by simp_all
        with IH keep show ?thesis by blast
      qed (use step P fis in auto)
    qed
  qed
  with assms show ?thesis by (cases "num_loop c f i s") auto
qed

lemma num_loop_inv:
  assumes "num_loop c f i s = Some (Inr r)" "P s" "\<And>i s t. P s \<Longrightarrow> f i s = Some (Inr t) \<Longrightarrow> P t"
  shows "P r"
proof -
  have "run_ok (\<lambda>_. True) P (f i s)" if "P s" for i s
    using assms(3) [OF that, of i] by (auto simp: run_ok_def split: option.splits sum.splits)
  from num_loop_ok [of P s "\<lambda>_. True" f c i, OF assms(2) this] assms(1) show ?thesis by simp
qed

lemma n_plus_one_progress:
  assumes "- (2 ^ 53) \<le> r" "r < of_nat n" "n < 2 ^ 53"
  obtains r' where "n_plus (Fin r) (Fin 1) = Fin r'" "\<lfloor>r\<rfloor> + 1 \<le> \<lfloor>r'\<rfloor>" "r' \<le> 2 ^ 53"
proof -
  have "(of_nat n :: rat) < of_nat (2 ^ 53)" using assms(3) by (simp only: of_nat_less_iff)
  then have r: "r + 1 \<le> of_nat n + 1" "(of_nat n :: rat) + 1 \<le> 2 ^ 53"
    using assms(2,3) of_nat_mono [of "Suc n" "2 ^ 53", where 'a = rat] by simp_all
  have lo: "- (2 ^ 53) \<le> \<lfloor>r\<rfloor>" using assms(1) by (simp add: le_floor_iff)
  have hi: "\<lfloor>r\<rfloor> + 1 \<le> 2 ^ 53"
    using r assms(2) by (simp add: floor_less_iff flip: zless_iff_Suc_zadd)
  have "fl (of_int (\<lfloor>r\<rfloor> + 1)) = Fin (of_int (\<lfloor>r\<rfloor> + 1))"
    using lo hi by (intro fl_int abs_leI) linarith+
  moreover have "n_le (fl (of_int (\<lfloor>r\<rfloor> + 1))) (fl (r + 1))" by (intro fl_mono) simp
  moreover have "fl (2 ^ 53) = Fin (2 ^ 53)" using fl_int [of "2 ^ 53"] by simp
  moreover have "n_le (fl (r + 1)) (fl (2 ^ 53))" using r by (intro fl_mono) linarith
  ultimately obtain r' where "fl (r + 1) = Fin r'" "of_int (\<lfloor>r\<rfloor> + 1) \<le> r'" "r' \<le> 2 ^ 53"
    by (cases "fl (r + 1)") auto
  with that show ?thesis by (simp add: le_floor_iff)
qed

lemma num_loop_returns:
  assumes "n < 2 ^ 53" and c: "\<And>r. c (Fin r) \<Longrightarrow> r < of_nat n"
    and f: "\<And>i s. returns (f i s)" and i: "c i \<Longrightarrow> \<exists>r \<ge> - (2 ^ 53). i = Fin r"
  shows "returns (num_loop c f i s)"
  using i
proof (induction "nat (int n - (case i of Fin r \<Rightarrow> \<lfloor>r\<rfloor> | _ \<Rightarrow> int n))" arbitrary: i s rule: less_induct)
  case less
  show ?case
  proof (cases "c i")
    case True
    then obtain r where r: "i = Fin r" "- (2 ^ 53) \<le> r" "r < of_nat n" using less.prems c True by auto
    obtain r' where r': "n_plus (Fin r) (Fin 1) = Fin r'" "\<lfloor>r\<rfloor> + 1 \<le> \<lfloor>r'\<rfloor>" "r' \<le> 2 ^ 53"
      using n_plus_one_progress [OF r(2,3) assms(1)] .
    have "\<lfloor>r\<rfloor> < int n" using r(3) by (simp add: floor_less_iff)
    moreover have "- (2 ^ 53) \<le> r'" using r(2) r'(2) by linarith
    ultimately have "returns (num_loop c f (n_plus i (Fin 1)) t)" for t
      using less.hyps [of "Fin r'" t] r(1) r' by auto
    then show ?thesis using True f [of i s] by (subst num_loop.simps) (auto simp: returns_def split: option.splits sum.splits)
  qed (subst num_loop.simps, simp)
qed

section \<open>Near misses\<close>

text \<open>The cells of a row from the row above (\<open>prev[j-1], prev[j], ...\<close>) and the cell to the left.\<close>

fun edit_cells :: "char \<Rightarrow> string \<Rightarrow> nat list \<Rightarrow> nat \<Rightarrow> nat list" where
  "edit_cells x (y # ys) (d # u # ps) left =
     (let c = min (min (u + 1) (left + 1)) (d + (if x = y then 0 else 1)) in c # edit_cells x ys (u # ps) c)"
| "edit_cells x _ _ left = []"

fun edit_rows :: "nat \<Rightarrow> string \<Rightarrow> string \<Rightarrow> nat list \<Rightarrow> nat list" where
  "edit_rows i [] b prev = prev"
| "edit_rows i (x # a) b prev = edit_rows (Suc i) a b (Suc i # edit_cells x b prev (Suc i))"

definition editDistance :: "string \<Rightarrow> string \<Rightarrow> nat" where
  "editDistance a b = (if a = [] then length b else if b = [] then length a
     else last (edit_rows 0 a b [0..<length b + 1]))"

text \<open>The closest candidate, the first among equals, when it is near.\<close>

definition closer :: "string \<Rightarrow> string \<Rightarrow> (string \<times> nat) option \<Rightarrow> (string \<times> nat) option" where
  "closer lname c best = (let d = editDistance lname (to_lower c) in
     case best of Some (b, bd) \<Rightarrow> if d < bd then Some (c, d) else best | None \<Rightarrow> Some (c, d))"

definition didYouMean :: "string \<Rightarrow> string list \<Rightarrow> string option" where
  "didYouMean name cands = (case fold (closer (to_lower name)) cands None of
     None \<Rightarrow> None | Some (c, d) \<Rightarrow> if d \<le> max 2 (length name div 3) then Some c else None)"

section \<open>The edit distance is minimal\<close>

text \<open>What the rows compute: edit scripts that turn one word into the other, from left to right, by insertions,
  deletions and substitutions.\<close>

inductive edits :: "string \<Rightarrow> string \<Rightarrow> nat \<Rightarrow> bool" where
  Done: "edits [] [] 0"
| Keep: "edits a b k \<Longrightarrow> edits (a @ [x]) (b @ [x]) k"
| Substitute: "edits a b k \<Longrightarrow> edits (a @ [x]) (b @ [y]) (Suc k)"
| Delete: "edits a b k \<Longrightarrow> edits (a @ [x]) b (Suc k)"
| Insert: "edits a b k \<Longrightarrow> edits a (b @ [y]) (Suc k)"

text \<open>The distance of reversed words, by recursion.\<close>

fun lev :: "string \<Rightarrow> string \<Rightarrow> nat" where
  "lev [] b = length b"
| "lev a [] = length a"
| "lev (x # a) (y # b) = min (min (lev a (y # b) + 1) (lev (x # a) b + 1)) (lev a b + (if x = y then 0 else 1))"

lemma lev_Nil [simp]: "lev a [] = length a"
  by (cases a) simp_all

lemma lev_step: "lev (x # a) b \<le> Suc (lev a b)" "lev a (y # b) \<le> Suc (lev a b)" "lev (x # a) (y # b) \<le> Suc (lev a b)"
  "lev (x # a) (x # b) \<le> lev a b"
proof -
  show "lev (x # a) b \<le> Suc (lev a b)" by (cases b) (simp_all add: min_le_iff_disj)
  show "lev a (y # b) \<le> Suc (lev a b)" by (cases a) (simp_all add: min_le_iff_disj)
qed (simp_all add: min_le_iff_disj)

lemma lev_le_edits: "edits a b k \<Longrightarrow> lev (rev a) (rev b) \<le> k"
proof (induction rule: edits.induct)
  case (Keep a b k x)
  then show ?case using lev_step(4) [of x "rev a" "rev b"] by simp
next
  case (Substitute a b k x y)
  then show ?case using lev_step(3) [of x "rev a" y "rev b"] by simp
next
  case (Delete a b k x)
  then show ?case using lev_step(1) [of x "rev a" "rev b"] by simp
next
  case (Insert a b k y)
  then show ?case using lev_step(2) [of "rev a" y "rev b"] by simp
qed simp

lemma edits_insert_all: "edits [] b (length b)"
  by (induction b rule: rev_induct) (auto intro: edits.intros)

lemma edits_delete_all: "edits a [] (length a)"
  by (induction a rule: rev_induct) (auto intro: edits.intros)

lemma edits_lev: "edits (rev a) (rev b) (lev a b)"
proof (induction a b rule: lev.induct)
  case (1 b)
  show ?case using edits_insert_all [of "rev b"] by simp
next
  case (2 x a)
  show ?case using edits_delete_all [of "rev (x # a)"] by simp
next
  case (3 x a y b)
  have "edits (rev a @ [x]) (rev (y # b)) (Suc (lev a (y # b)))" "edits (rev (x # a)) (rev b @ [y]) (Suc (lev (x # a) b))"
    using edits.Delete [OF 3(1), of x] edits.Insert [OF 3(2), of y] by simp_all
  moreover have "edits (rev a @ [x]) (rev b @ [y]) (lev a b + (if x = y then 0 else 1))"
    using 3(3) by (auto intro: edits.Keep edits.Substitute)
  ultimately show ?case by (auto simp: min_def)
qed

text \<open>The row of the table that belongs to a prefix: the cells from a column on.\<close>

fun lev_row :: "string \<Rightarrow> string \<Rightarrow> string \<Rightarrow> nat list" where
  "lev_row a b [] = [lev a b]"
| "lev_row a b (y # ys) = lev a b # lev_row a (y # b) ys"

lemma edit_cells_row: "lev (x # a) b # edit_cells x ys (lev_row a b ys) (lev (x # a) b) = lev_row (x # a) b ys"
proof (induction ys arbitrary: b)
  case (Cons y ys)
  obtain ps where ps: "lev_row a (y # b) ys = lev a (y # b) # ps" by (cases ys) simp_all
  show ?case using Cons.IH [of "y # b", unfolded ps] by (simp add: ps Let_def)
qed simp

lemma edit_rows_row:
  "edit_rows (length a') a b (lev_row a' [] b) = lev_row (rev a @ a') [] b"
proof (induction a arbitrary: a')
  case (Cons x a)
  have "Suc (length a') # edit_cells x b (lev_row a' [] b) (Suc (length a')) = lev_row (x # a') [] b"
    using edit_cells_row [of x a' "[]" b] by simp
  then show ?case using Cons.IH [of "x # a'"] by simp
qed simp

lemma lev_row_first: "lev_row [] b ys = [length b..<length b + length ys + 1]"
proof (induction ys arbitrary: b)
  case (Cons y ys)
  then show ?case by (simp add: upt_conv_Cons del: upt_Suc)
qed simp

lemma lev_row_nonempty [simp]: "lev_row a b ys \<noteq> []"
  by (cases ys) simp_all

lemma last_lev_row: "last (lev_row a b ys) = lev a (rev ys @ b)"
  by (induction ys arbitrary: b) simp_all

lemma editDistance_lev: "editDistance a b = lev (rev a) (rev b)"
  using edit_rows_row [of "[]" a b] lev_row_first [of "[]" b] last_lev_row [of "rev a" "[]" b]
  by (simp add: editDistance_def)

text \<open>C38: the distance behind \<open>did you mean\<close> is the edit distance.  The two-row dynamic program returns the least number
  of insertions, deletions and substitutions that turn one name into the other.\<close>

theorem editDistance_least: "edits a b (editDistance a b) \<and> (\<forall>k. edits a b k \<longrightarrow> editDistance a b \<le> k)"
  using edits_lev [of "rev a" "rev b"] lev_le_edits [of a b] by (auto simp: editDistance_lev)

lemma editDistance_least_witness: "editDistance ''rsi'' ''rsl'' \<le> 1"
  using editDistance_least [of "''rsi''" "''rsl''"] edits.Substitute [of "''rs''" "''rs''" 0 "CHR ''i''" "CHR ''l''"]
    edits.Keep [OF edits.Keep [OF edits.Done, of "CHR ''r''"], of "CHR ''s''"] by simp

end
