(* ===== verification/Calc_Syntax.thy ===== *)
theory Calc_Syntax
  imports Calc_Base
begin

text \<open>
  The syntax of the calculator's scripts (\<open>calc-v2/ast.ts\<close>) and its lexer (\<open>calc-v2/lexer.ts\<close>), which reads a text
  in one pass with line and column.
\<close>

section \<open>Syntax trees\<close>

type_synonym pos = "nat \<times> nat"

datatype binop = Add | Sub | Mul | Div

text \<open>\<open>'p\<close> is the type of the positions.\<close>

datatype 'p expr_at =
    NumLit dec 'p
  | StrLit string 'p
  | NameRef string 'p
  | CallExpr string "(string option \<times> 'p expr_at) list" 'p
  | AttrExpr "'p expr_at" string 'p
  | IndexExpr "'p expr_at" "'p expr_at" 'p
  | BinaryExpr binop "'p expr_at" "'p expr_at" 'p
  | UnaryExpr "'p expr_at" 'p
  | ListLit "'p expr_at list" 'p
  | DictLit "(string \<times> 'p expr_at) list" 'p

type_synonym expr = "pos expr_at"

record assign =
  as_name :: string
  as_value :: expr
  as_pos :: pos

record program =
  pg_bindings :: "assign list"
  pg_result :: expr

fun expr_pos :: "expr \<Rightarrow> pos" where
  "expr_pos (NumLit _ p) = p"
| "expr_pos (StrLit _ p) = p"
| "expr_pos (NameRef _ p) = p"
| "expr_pos (CallExpr _ _ p) = p"
| "expr_pos (AttrExpr _ _ p) = p"
| "expr_pos (IndexExpr _ _ p) = p"
| "expr_pos (BinaryExpr _ _ _ p) = p"
| "expr_pos (UnaryExpr _ p) = p"
| "expr_pos (ListLit _ p) = p"
| "expr_pos (DictLit _ p) = p"

text \<open>\<open>s = bars("a|B", "1d")\<close> and \<open>(s.close[-1] - 2) * sma(s.close, 50)\<close>.\<close>

definition sample_program :: program where
  "sample_program = (let o1 = (1, 1) in
     \<lparr>pg_bindings = [\<lparr>as_name = ''s'', as_value = CallExpr ''bars'' [(None, StrLit ''a|B'' o1), (None, StrLit ''1d'' o1)] o1, as_pos = o1\<rparr>],
      pg_result = BinaryExpr Mul
        (BinaryExpr Sub (IndexExpr (AttrExpr (NameRef ''s'' o1) ''close'' o1) (UnaryExpr (NumLit (Fin 1) o1) o1) o1) (NumLit (Fin 2) o1) o1)
        (CallExpr ''sma'' [(None, AttrExpr (NameRef ''s'' o1) ''close'' o1), (None, NumLit (Fin 50) o1)] o1) o1\<rparr>)"

text \<open>The same source at two intervals, and one close.\<close>

definition two_intervals :: program where
  "two_intervals = (let o1 = (1, 1);
       fetch = (\<lambda>x i. \<lparr>as_name = x, as_value = CallExpr ''bars'' [(None, StrLit ''a|B'' o1), (None, StrLit i o1)] o1, as_pos = o1\<rparr>) in
     \<lparr>pg_bindings = [fetch ''s'' ''1d'', fetch ''t'' ''1h''],
      pg_result = IndexExpr (AttrExpr (NameRef ''s'' o1) ''close'' o1) (NumLit (Fin 0) o1) o1\<rparr>)"

section \<open>Tokens\<close>

datatype token_type = TNum | TStr | TName | TPlus | TMinus | TStar | TSlash | TEq | TLPar | TRPar | TLBrack | TRBrack
  | TLBrace | TRBrace | TComma | TDot | TColon | TNewline | TEof

record token =
  tk_type :: token_type
  tk_value :: string
  tk_pos :: pos

definition single :: "char \<Rightarrow> token_type option" where
  "single c = map_of (zip ''+-*/=()[]{},.:'' [TPlus, TMinus, TStar, TSlash, TEq, TLPar, TRPar, TLBrack, TRBrack,
     TLBrace, TRBrace, TComma, TDot, TColon]) c"

definition newline :: char where
  "newline = CHR 10"

definition is_digit :: "char \<Rightarrow> bool" where
  "is_digit c \<longleftrightarrow> c \<in> set ''0123456789''"

definition is_letter :: "char \<Rightarrow> bool" where
  "is_letter c \<longleftrightarrow> c \<in> set ''ABCDEFGHIJKLMNOPQRSTUVWXYZabcdefghijklmnopqrstuvwxyz''"

definition isIdentStart :: "char \<Rightarrow> bool" where
  "isIdentStart c \<longleftrightarrow> is_letter c \<or> c = CHR ''_''"

definition isIdentPart :: "char \<Rightarrow> bool" where
  "isIdentPart c \<longleftrightarrow> is_letter c \<or> is_digit c \<or> c = CHR ''_''"

definition is_space :: "char \<Rightarrow> bool" where
  "is_space c \<longleftrightarrow> c = CHR '' '' \<or> c = CHR 9 \<or> c = CHR 13"

definition is_quote :: "char \<Rightarrow> bool" where
  "is_quote c \<longleftrightarrow> c = CHR 34 \<or> c = CHR 39"

definition is_numeral :: "char \<Rightarrow> bool" where
  "is_numeral c \<longleftrightarrow> is_digit c \<or> c = CHR ''.''"

definition starts_number :: "char \<Rightarrow> string \<Rightarrow> bool" where
  "starts_number c cs \<longleftrightarrow> is_digit c \<or> c = CHR ''.'' \<and> (case cs of [] \<Rightarrow> False | d # _ \<Rightarrow> is_digit d)"

definition quoted :: "string \<Rightarrow> string" where
  "quoted s = [CHR 34] @ s @ [CHR 34]"

definition syntax_error :: "string \<Rightarrow> pos \<Rightarrow> calc_error" where
  "syntax_error msg p = calc_err SyntaxErr msg (Some (fst p)) (Some (snd p)) None"

definition mk_token :: "token_type \<Rightarrow> string \<Rightarrow> pos \<Rightarrow> token" where
  "mk_token t v p = \<lparr>tk_type = t, tk_value = v, tk_pos = p\<rparr>"

text \<open>Runs of blank lines give one separator, none at the start.\<close>

definition push_newline :: "pos \<Rightarrow> token list \<Rightarrow> token list" where
  "push_newline p toks = (if toks \<noteq> [] \<and> tk_type (last toks) \<noteq> TNewline then toks @ [mk_token TNewline [newline] p] else toks)"

definition finish :: "pos \<Rightarrow> token list \<Rightarrow> token list" where
  "finish p toks = (if toks \<noteq> [] \<and> tk_type (last toks) = TNewline then butlast toks else toks) @ [mk_token TEof [] p]"

lemma dropWhile_shorter: "dropWhile P cs = d # rest \<Longrightarrow> length rest < Suc (length cs)"
  using length_dropWhile_le [of P cs] by simp

lemma dropWhile_less_Suc: "length (dropWhile P cs) < Suc (length cs)"
  using length_dropWhile_le [of P cs] by simp

text \<open>The rest of the text, the position, the tokens so far.\<close>

function lex :: "string \<Rightarrow> nat \<Rightarrow> nat \<Rightarrow> token list \<Rightarrow> calc_error + token list" where
  "lex [] line col toks = Inr (finish (line, col) toks)"
| "lex (c # cs) line col toks =
     (if c = newline then lex cs (line + 1) 1 (push_newline (line, col) toks)
      else if is_space c then lex cs line (col + 1) toks
      else if c = CHR ''#'' then
        lex (dropWhile (\<lambda>x. x \<noteq> newline) cs) line (col + 1 + length (takeWhile (\<lambda>x. x \<noteq> newline) cs)) toks
      else if is_quote c then
        (let inside = (\<lambda>x. x \<noteq> c \<and> x \<noteq> newline); s = takeWhile inside cs in
         case dropWhile inside cs of
           [] \<Rightarrow> Inl (syntax_error ''Unterminated string'' (line, col))
         | d # rest \<Rightarrow> if d = newline then Inl (syntax_error ''Unterminated string'' (line, col))
             else lex rest line (col + length s + 2) (toks @ [mk_token TStr s (line, col)]))
      else if starts_number c cs then
        (let n = c # takeWhile is_numeral cs in
         if 1 < length (filter (\<lambda>x. x = CHR ''.'') n) then Inl (syntax_error (''Invalid number '' @ quoted n) (line, col))
         else lex (dropWhile is_numeral cs) line (col + length n) (toks @ [mk_token TNum n (line, col)]))
      else if isIdentStart c then
        (let v = c # takeWhile isIdentPart cs in
         lex (dropWhile isIdentPart cs) line (col + length v) (toks @ [mk_token TName v (line, col)]))
      else case single c of
        Some t \<Rightarrow> lex cs line (col + 1) (toks @ [mk_token t [c] (line, col)])
      | None \<Rightarrow> Inl (syntax_error (''Unexpected character '' @ quoted [c]) (line, col)))"
  by pat_completeness auto

termination
proof (relation "measure (\<lambda>(s, _). length s)", goal_cases)
  case (5 c cs line col toks inside s d rest)
  from dropWhile_shorter [OF 5(7)] show ?case by simp
qed (simp_all add: dropWhile_less_Suc)

declare lex.simps(2) [simp del]

definition tokenize :: "string \<Rightarrow> calc_error + token list" where
  "tokenize src = lex src 1 1 []"

end
