(* ===== verification/Calc_Parser.thy ===== *)
theory Calc_Parser
  imports Calc_Syntax
begin

text \<open>
  The recursive-descent parser (\<open>calc-v2/parser.ts\<close>).  Its state is the rest of the tokens.  A recursive call and
  a further round of a loop is made on fewer tokens; where a definition tests that, the test never fails
  (\<open>parse_total\<close>).
\<close>

type_synonym 'a parser = "token list \<Rightarrow> ('a \<times> token list) run"

section \<open>The token stream\<close>

definition peek :: "nat \<Rightarrow> token list \<Rightarrow> token" where
  "peek k ts = (if k < length ts then ts ! k else if ts = [] then mk_token TEof [] (1, 1) else last ts)"

definition at_type :: "token_type \<Rightarrow> token list \<Rightarrow> bool" where
  "at_type t ts \<longleftrightarrow> tk_type (peek 0 ts) = t"

fun type_text :: "token_type \<Rightarrow> string" where
  "type_text TNum = ''num''" | "type_text TStr = ''str''" | "type_text TName = ''name''"
| "type_text TPlus = ''+''" | "type_text TMinus = ''-''" | "type_text TStar = ''*''" | "type_text TSlash = ''/''"
| "type_text TEq = ''=''" | "type_text TLPar = ''(''" | "type_text TRPar = '')''" | "type_text TLBrack = ''[''"
| "type_text TRBrack = '']''" | "type_text TLBrace = ''{''" | "type_text TRBrace = ''}''" | "type_text TComma = '',''"
| "type_text TDot = ''.''" | "type_text TColon = '':''" | "type_text TNewline = ''newline''" | "type_text TEof = ''eof''"

definition describe :: "token_type \<Rightarrow> string option \<Rightarrow> string" where
  "describe t v = (if t = TEof then ''end of input'' else if t = TNewline then ''a new line''
     else if t = TName then (case v of Some s \<Rightarrow> if s = [] then ''a name'' else quoted s | None \<Rightarrow> ''a name'')
     else if t = TNum \<or> t = TStr then (case v of Some s \<Rightarrow> quoted s | None \<Rightarrow> type_text t)
     else quoted (type_text t))"

definition eat :: "token_type \<Rightarrow> token parser" where
  "eat t ts = (if at_type t ts then ret (peek 0 ts, tl ts)
     else fail (syntax_error (''Expected '' @ describe t None @ '' but got '' @
       describe (tk_type (peek 0 ts)) (Some (tk_value (peek 0 ts)))) (tk_pos (peek 0 ts))))"

definition skip_newlines :: "token list \<Rightarrow> token list" where
  "skip_newlines ts = dropWhile (\<lambda>t. tk_type t = TNewline) ts"

definition reflex :: "string \<Rightarrow> string \<Rightarrow> token \<Rightarrow> calc_error" where
  "reflex msg sugg t = calc_err ReflexErr msg (Some (fst (tk_pos t))) (Some (snd (tk_pos t))) (Some sugg)"

text \<open>A round on fewer tokens than there were before.\<close>

abbreviation fewer :: "token list \<Rightarrow> token list \<Rightarrow> bool" where
  "fewer ts' ts \<equiv> length ts' < length ts"

section \<open>Operators\<close>

definition add_op :: "token_type \<Rightarrow> binop option" where
  "add_op t = (if t = TPlus then Some Add else if t = TMinus then Some Sub else None)"

definition mul_op :: "token_type \<Rightarrow> binop option" where
  "mul_op t = (if t = TStar then Some Mul else if t = TSlash then Some Div else None)"

text \<open>\<open>while (at(op)) left = binary(op, left, operand())\<close>.\<close>

fun binary_loop :: "(token_type \<Rightarrow> binop option) \<Rightarrow> expr parser \<Rightarrow> expr \<Rightarrow> expr parser" where
  "binary_loop ops operand left ts =
     (case ops (tk_type (peek 0 ts)) of
        None \<Rightarrow> ret (left, ts)
      | Some op \<Rightarrow> bindR (operand (tl ts)) (\<lambda>(right, ts').
          if fewer ts' ts then binary_loop ops operand (BinaryExpr op left right (expr_pos left)) ts' else None))"

declare binary_loop.simps [simp del]

lemma at_type_nonempty: "at_type t ts \<Longrightarrow> t \<noteq> TEof \<Longrightarrow> ts \<noteq> []"
  by (auto simp: at_type_def peek_def mk_token_def)

function parse_unary :: "expr parser \<Rightarrow> expr parser" where
  "parse_unary postfix ts =
     (if at_type TMinus ts then bindR (parse_unary postfix (tl ts)) (\<lambda>(e, ts'). ret (UnaryExpr e (tk_pos (peek 0 ts)), ts'))
      else postfix ts)"
  by pat_completeness auto
termination
  by (relation "measure (\<lambda>(_, ts). length ts)") (auto simp: neq_Nil_conv dest!: at_type_nonempty)

declare parse_unary.simps [simp del]

section \<open>Postfix operators\<close>

definition slice_reflex :: "token \<Rightarrow> calc_error" where
  "slice_reflex = reflex ''Slices are not supported''
     ''Use count= on bars(...) to limit the window; index a single value with [-1] / [-n].''"

definition chain_reflex :: "token \<Rightarrow> calc_error" where
  "chain_reflex = reflex ''Method chaining is not supported here''
     ''Use the function form, e.g. `sma(s.close, 50)` instead of `s.close.rolling(50).mean()`''"

fun postfix_loop :: "expr parser \<Rightarrow> expr \<Rightarrow> expr parser" where
  "postfix_loop E e ts =
     (if at_type TDot ts then
        bindR (eat TName (tl ts)) (\<lambda>(name, ts').
          if fewer ts' ts then postfix_loop E (AttrExpr e (tk_value name) (tk_pos name)) ts' else None)
      else if at_type TLBrack ts then
        bindR (E (tl ts)) (\<lambda>(index, ts1).
          if at_type TColon ts1 then fail (slice_reflex (peek 0 ts1))
          else bindR (eat TRBrack ts1) (\<lambda>(_, ts').
            if fewer ts' ts then postfix_loop E (IndexExpr e index (tk_pos (peek 0 ts))) ts' else None))
      else if at_type TLPar ts then fail (chain_reflex (peek 0 ts))
      else ret (e, ts))"

declare postfix_loop.simps [simp del]

section \<open>Panels and calls\<close>

text \<open>The elements up to where the loop stops; newlines and a trailing comma are allowed.\<close>

fun list_loop :: "expr parser \<Rightarrow> expr list \<Rightarrow> expr list parser" where
  "list_loop E els ts =
     (if at_type TRBrack ts then ret (els, ts)
      else bindR (E ts) (\<lambda>(e, ts1). let ts2 = skip_newlines ts1 in
        if at_type TComma ts2
        then (let ts' = skip_newlines (tl ts2) in if fewer ts' ts then list_loop E (els @ [e]) ts' else None)
        else ret (els @ [e], ts2)))"

declare list_loop.simps [simp del]

definition parse_list :: "expr parser \<Rightarrow> expr parser" where
  "parse_list E ts =
     bindR (eat TLBrack ts) (\<lambda>(t, ts1).
     bindR (list_loop E [] (skip_newlines ts1)) (\<lambda>(els, ts2).
     bindR (eat TRBrack (skip_newlines ts2)) (\<lambda>(_, ts3). ret (ListLit els (tk_pos t), ts3))))"

definition parse_dict_key :: "string parser" where
  "parse_dict_key ts = (let t = peek 0 ts in
     if tk_type t \<in> {TStr, TName, TNum} then ret (tk_value t, tl ts)
     else fail (syntax_error (''Dict key must be a string or name, got '' @ describe (tk_type t) (Some (tk_value t))) (tk_pos t)))"

fun dict_loop :: "expr parser \<Rightarrow> (string \<times> expr) list \<Rightarrow> (string \<times> expr) list parser" where
  "dict_loop E ents ts =
     (if at_type TRBrace ts then ret (ents, ts)
      else bindR (parse_dict_key ts) (\<lambda>(key, ts1).
        bindR (eat TColon ts1) (\<lambda>(_, ts2).
        bindR (E ts2) (\<lambda>(e, ts3). let ts4 = skip_newlines ts3 in
          if at_type TComma ts4
          then (let ts' = skip_newlines (tl ts4) in if fewer ts' ts then dict_loop E (ents @ [(key, e)]) ts' else None)
          else ret (ents @ [(key, e)], ts4)))))"

declare dict_loop.simps [simp del]

definition parse_dict :: "expr parser \<Rightarrow> expr parser" where
  "parse_dict E ts =
     bindR (eat TLBrace ts) (\<lambda>(t, ts1).
     bindR (dict_loop E [] (skip_newlines ts1)) (\<lambda>(ents, ts2).
     bindR (eat TRBrace (skip_newlines ts2)) (\<lambda>(_, ts3). ret (DictLit ents (tk_pos t), ts3))))"

definition parse_arg :: "expr parser \<Rightarrow> (string option \<times> expr) parser" where
  "parse_arg E ts =
     (if at_type TName ts \<and> tk_type (peek 1 ts) = TEq
      then bindR (eat TEq (tl ts)) (\<lambda>(_, ts1). bindR (E ts1) (\<lambda>(e, ts2). ret ((Some (tk_value (peek 0 ts)), e), ts2)))
      else bindR (E ts) (\<lambda>(e, ts1). ret ((None, e), ts1)))"

fun args_loop :: "expr parser \<Rightarrow> (string option \<times> expr) list \<Rightarrow> (string option \<times> expr) list parser" where
  "args_loop E args ts =
     bindR (parse_arg E ts) (\<lambda>(a, ts1).
       if at_type TComma ts1 then (if fewer (tl ts1) ts then args_loop E (args @ [a]) (tl ts1) else None)
       else ret (args @ [a], ts1))"

declare args_loop.simps [simp del]

definition parse_call :: "expr parser \<Rightarrow> expr parser" where
  "parse_call E ts =
     bindR (eat TName ts) (\<lambda>(callee, ts1).
     bindR (eat TLPar ts1) (\<lambda>(_, ts2).
     bindR (if at_type TRPar ts2 then ret ([], ts2) else args_loop E [] ts2) (\<lambda>(args, ts3).
     bindR (eat TRPar ts3) (\<lambda>(_, ts4). ret (CallExpr (tk_value callee) args (tk_pos callee), ts4)))))"

section \<open>Expressions\<close>

definition parse_primary :: "expr parser \<Rightarrow> expr parser" where
  "parse_primary E ts = (let t = peek 0 ts in
     case tk_type t of
       TNum \<Rightarrow> ret (NumLit (js_number (tk_value t)) (tk_pos t), tl ts)
     | TStr \<Rightarrow> ret (StrLit (tk_value t) (tk_pos t), tl ts)
     | TLPar \<Rightarrow> bindR (E (tl ts)) (\<lambda>(e, ts1). bindR (eat TRPar ts1) (\<lambda>(_, ts2). ret (e, ts2)))
     | TLBrack \<Rightarrow> parse_list E ts
     | TLBrace \<Rightarrow> parse_dict E ts
     | TName \<Rightarrow> (if tk_type (peek 1 ts) = TLPar then parse_call E ts else ret (NameRef (tk_value t) (tk_pos t), tl ts))
     | _ \<Rightarrow> fail (syntax_error (''Unexpected '' @ describe (tk_type t) (Some (tk_value t))) (tk_pos t)))"

definition parse_postfix :: "expr parser \<Rightarrow> expr parser" where
  "parse_postfix E ts = bindR (parse_primary E ts) (\<lambda>(e, ts'). postfix_loop E e ts')"

definition parse_mult :: "expr parser \<Rightarrow> expr parser" where
  "parse_mult E ts = (let U = parse_unary (parse_postfix E) in bindR (U ts) (\<lambda>(left, ts'). binary_loop mul_op U left ts'))"

definition parse_additive :: "expr parser \<Rightarrow> expr parser" where
  "parse_additive E ts = bindR (parse_mult E ts) (\<lambda>(left, ts'). binary_loop add_op (parse_mult E) left ts')"

function parse_expr :: "expr parser" where
  "parse_expr ts = parse_additive (\<lambda>ts'. if fewer ts' ts then parse_expr ts' else None) ts"
  by pat_completeness auto
termination
  by (relation "measure length") auto

declare parse_expr.simps [simp del]

section \<open>Programs\<close>

definition keyword_names :: "string list" where
  "keyword_names = [''if'', ''else'', ''elif'', ''and'', ''or'', ''not'', ''for'', ''while'', ''in'', ''lambda'']"

definition keyword_reflex :: "token \<Rightarrow> calc_error" where
  "keyword_reflex t = reflex (''`'' @ tk_value t @ ''` is not supported '' @ em_dash @
       '' v2 is a pure expression language (no if/else/and/or/loops)'')
     ''Compute the values you need and compare them in your own reasoning, not inside the script.'' t"

text \<open>One statement: a binding or the result.\<close>

definition parse_statement :: "(assign + expr) parser" where
  "parse_statement ts =
     (if at_type TName ts \<and> tk_type (peek 1 ts) = TEq
      then bindR (eat TEq (tl ts)) (\<lambda>(eq, ts1). bindR (parse_expr ts1) (\<lambda>(e, ts2).
        ret (Inl \<lparr>as_name = tk_value (peek 0 ts), as_value = e, as_pos = tk_pos eq\<rparr>, ts2)))
      else bindR (parse_expr ts) (\<lambda>(e, ts1). ret (Inr e, ts1)))"

definition end_statement :: "unit parser" where
  "end_statement ts =
     (if at_type TName ts \<and> tk_value (peek 0 ts) \<in> set keyword_names then fail (keyword_reflex (peek 0 ts))
      else bindR (if at_type TEof ts then ret ((), ts) else bindR (eat TNewline ts) (\<lambda>(_, ts1). ret ((), ts1)))
        (\<lambda>(_, ts1). ret ((), skip_newlines ts1)))"

definition late_statement :: "token \<Rightarrow> calc_error" where
  "late_statement t = syntax_error
     ''Only the final line may be a bare result expression; earlier lines must be `name = ...` bindings'' (tk_pos t)"

definition no_result :: "token \<Rightarrow> calc_error" where
  "no_result t = calc_err SyntaxErr ''Script must end with a result expression (e.g. `sma(s.close, 50)`)''
     (Some (fst (tk_pos t))) None None"

fun program_loop :: "assign list \<Rightarrow> expr option \<Rightarrow> token list \<Rightarrow> program run" where
  "program_loop bs res ts =
     (if at_type TEof ts then
        (case res of None \<Rightarrow> fail (no_result (last ts)) | Some e \<Rightarrow> ret \<lparr>pg_bindings = bs, pg_result = e\<rparr>)
      else if res \<noteq> None then fail (late_statement (peek 0 ts))
      else bindR (parse_statement ts) (\<lambda>(st, ts1). bindR (end_statement ts1) (\<lambda>(_, ts').
        if fewer ts' ts then
          (case st of Inl b \<Rightarrow> program_loop (bs @ [b]) None ts' | Inr e \<Rightarrow> program_loop bs (Some e) ts')
        else None)))"

declare program_loop.simps [simp del]

definition parse :: "string \<Rightarrow> program run" where
  "parse src = (case tokenize src of Inl e \<Rightarrow> fail e | Inr toks \<Rightarrow> program_loop [] None (skip_newlines toks))"

end
