(* ===== verification/Indicators.thy ===== *)
theory Indicators
  imports Calc_Base
begin

text \<open>
  The indicator functions (\<open>src/src/domain/analysis/indicator/functions\<close>) on arrays of numbers, with any number
  as period, as the calculator passes it on.
\<close>

section \<open>Statistics\<close>

definition needs :: "string \<Rightarrow> dec \<Rightarrow> dec list \<Rightarrow> calc_error" where
  "needs f p v = PlainErr (f @ '' requires at least '' @ num_str p @ '' data points, got '' @ nat_str (length v))"

definition needs_one :: "string \<Rightarrow> calc_error" where
  "needs_one f = PlainErr (f @ '' requires at least 1 data point'')"

abbreviation n_one :: dec where
  "n_one \<equiv> Fin 1"

definition SMA :: "dec list \<Rightarrow> dec \<Rightarrow> dec run" where
  "SMA v p = (if d_lt (n_len v) p then fail (needs ''SMA'' p v) else ret (n_div (sum_of (slice_from (d_neg p) v)) p))"

definition ema_step :: "dec list \<Rightarrow> dec \<Rightarrow> dec \<Rightarrow> dec \<Rightarrow> dec run" where
  "ema_step v k i ema = ret (n_plus (n_times (n_minus (elem_at v i) ema) k) ema)"

definition EMA :: "dec list \<Rightarrow> dec \<Rightarrow> dec run" where
  "EMA v p = (if d_lt (n_len v) p then fail (needs ''EMA'' p v)
     else num_loop (\<lambda>i. d_lt i (n_len v)) (ema_step v (n_div (Fin 2) (n_plus p n_one))) p
            (n_div (sum_of (js_slice (Fin 0) p v)) p))"

definition mean_of :: "dec list \<Rightarrow> dec" where
  "mean_of v = n_div (sum_of v) (n_len v)"

text \<open>The mean of squared distances from a centre, over \<open>n\<close>.\<close>

definition spread :: "dec \<Rightarrow> dec list \<Rightarrow> dec \<Rightarrow> dec" where
  "spread centre v n = n_div (sum_of (map (\<lambda>x. n_square (n_minus x centre)) v)) n"

definition STDEV :: "dec list \<Rightarrow> dec run" where
  "STDEV v = (if v = [] then fail (needs_one ''STDEV'') else ret (n_sqrt (spread (mean_of v) v (n_len v))))"

definition js_MAX :: "dec list \<Rightarrow> dec run" where
  "js_MAX v = (if v = [] then fail (needs_one ''MAX'') else ret (max_of v))"

definition js_MIN :: "dec list \<Rightarrow> dec run" where
  "js_MIN v = (if v = [] then fail (needs_one ''MIN'') else ret (min_of v))"

definition js_SUM :: "dec list \<Rightarrow> dec run" where
  "js_SUM v = ret (sum_of v)"

definition AVERAGE :: "dec list \<Rightarrow> dec run" where
  "AVERAGE v = (if v = [] then fail (needs_one ''AVERAGE'') else ret (mean_of v))"

definition MEDIAN :: "dec list \<Rightarrow> dec run" where
  "MEDIAN v0 = (let v = num_sort v0; mid = length v div 2 in
     if v = [] then fail (needs_one ''MEDIAN'')
     else ret (if odd (length v) then v ! mid else n_div (n_plus (v ! (mid - 1)) (v ! mid)) (Fin 2)))"

definition last_elem :: "dec list \<Rightarrow> dec" where
  "last_elem v = elem_at v (n_minus (n_len v) n_one)"

definition ROC :: "dec list \<Rightarrow> dec \<Rightarrow> dec run" where
  "ROC v p = (if d_lt (n_len v) (n_plus p n_one) then fail (needs ''ROC'' (n_plus p n_one) v)
     else let prior = elem_at v (n_minus (n_minus (n_len v) n_one) p) in
       ret (if d_isZero prior then Fin 0
            else n_times (n_div (n_minus (last_elem v) prior) prior) (Fin 100)))"

definition truthy_num :: "dec \<Rightarrow> bool" where
  "truthy_num d \<longleftrightarrow> d \<noteq> NotANumber \<and> \<not> d_isZero d"

definition ZSCORE :: "dec list \<Rightarrow> dec option \<Rightarrow> dec run" where
  "ZSCORE xs p = (if xs = [] then fail (needs_one ''ZSCORE'') else
     let v = (case p of Some d \<Rightarrow> if truthy_num d then slice_from (d_neg d) xs else xs | None \<Rightarrow> xs);
         mean = mean_of v; sd = n_sqrt (spread mean v (n_len v)) in
     ret (if d_isZero sd then Fin 0 else n_div (n_minus (last_elem xs) mean) sd))"

definition SLOPE :: "dec list \<Rightarrow> dec \<Rightarrow> dec run" where
  "SLOPE xs p = (let v = slice_from (d_neg p) xs; n = n_len v in
     if length v < 2 then fail (PlainErr (''SLOPE requires at least 2 data points, got '' @ nat_str (length v)))
     else let sumX = n_div (n_times n (n_minus n n_one)) (Fin 2);
              sumXX = n_div (n_times (n_times (n_minus n n_one) n) (n_minus (n_times (Fin 2) n) n_one)) (Fin 6);
              sumY = sum_of v;
              sumXY = sum_of (map (\<lambda>i. n_times (n_of i) (v ! i)) [0..<length v]);
              denom = n_minus (n_times n sumXX) (n_times sumX sumX)
          in ret (if d_isZero denom then Fin 0 else n_div (n_minus (n_times n sumXY) (n_times sumX sumY)) denom))"

text \<open>The loop of \<open>CORRELATION\<close>: covariance and both variances.\<close>

definition corr_step :: "dec \<Rightarrow> dec \<Rightarrow> dec \<times> dec \<times> dec \<Rightarrow> dec \<times> dec \<Rightarrow> dec \<times> dec \<times> dec" where
  "corr_step ma mb s xy = (case s of (cov, va, vb) \<Rightarrow>
     let da = n_minus (fst xy) ma; db = n_minus (snd xy) mb in
     (n_plus cov (n_times da db), n_plus va (n_times da da), n_plus vb (n_times db db)))"

definition CORRELATION :: "dec list \<Rightarrow> dec list \<Rightarrow> dec run" where
  "CORRELATION av bv = (let n = min (length av) (length bv) in
     if n < 2 then fail (PlainErr (''CORRELATION requires at least 2 aligned points, got '' @ nat_str n))
     else let A = slice_from (d_neg (n_of n)) av; B = slice_from (d_neg (n_of n)) bv;
              meanA = n_div (sum_of A) (n_of n); meanB = n_div (sum_of B) (n_of n);
              s = foldl (corr_step meanA meanB) (Fin 0, Fin 0, Fin 0) (zip A B);
              denom = n_sqrt (n_times (fst (snd s)) (snd (snd s)))
          in ret (if d_isZero denom then Fin 0 else n_div (fst s) denom))"

definition HIGHEST :: "dec list \<Rightarrow> dec \<Rightarrow> dec run" where
  "HIGHEST xs p = (let v = slice_from (d_neg p) xs in if v = [] then fail (needs_one ''HIGHEST'') else ret (max_of v))"

definition LOWEST :: "dec list \<Rightarrow> dec \<Rightarrow> dec run" where
  "LOWEST xs p = (let v = slice_from (d_neg p) xs in if v = [] then fail (needs_one ''LOWEST'') else ret (min_of v))"

section \<open>Technical indicators\<close>

text \<open>The smoothing of an average: \<open>(avg * (period - 1) + x) / period\<close>.\<close>

definition smooth :: "dec \<Rightarrow> dec \<Rightarrow> dec \<Rightarrow> dec" where
  "smooth p avg x = n_div (n_plus (n_times avg (n_minus p n_one)) x) p"

definition changes_of :: "dec list \<Rightarrow> dec list" where
  "changes_of v = map (\<lambda>i. n_minus (v ! i) (v ! (i - 1))) [1..<length v]"

definition gain :: "dec \<Rightarrow> dec" where
  "gain c = (if d_gt c (Fin 0) then c else Fin 0)"

definition loss :: "dec \<Rightarrow> dec" where
  "loss c = (if d_lt c (Fin 0) then d_neg c else Fin 0)"

definition rsi_step :: "dec \<Rightarrow> dec list \<Rightarrow> dec list \<Rightarrow> dec \<Rightarrow> dec \<times> dec \<Rightarrow> (dec \<times> dec) run" where
  "rsi_step p gains losses i s = ret (smooth p (fst s) (elem_at gains i), smooth p (snd s) (elem_at losses i))"

text \<open>The index that two non-negative flows give.\<close>

definition oscillator :: "dec \<Rightarrow> dec \<Rightarrow> dec" where
  "oscillator up down = (if d_isZero down then Fin 100
     else n_minus (Fin 100) (n_div (Fin 100) (n_plus n_one (n_div up down))))"

definition RSI :: "dec list \<Rightarrow> dec \<Rightarrow> dec run" where
  "RSI v p = (if d_lt (n_len v) (n_plus p n_one) then fail (needs ''RSI'' (n_plus p n_one) v)
     else let changes = changes_of v; gains = map gain changes; losses = map loss changes in
       bindR (num_loop (\<lambda>i. d_lt i (n_len gains)) (rsi_step p gains losses) p
            (n_div (sum_of (js_slice (Fin 0) p gains)) p, n_div (sum_of (js_slice (Fin 0) p losses)) p))
         (\<lambda>s. ret (oscillator (fst s) (snd s))))"

record bands =
  bb_upper :: dec
  bb_middle :: dec
  bb_lower :: dec

definition BBANDS :: "dec list \<Rightarrow> dec \<Rightarrow> dec \<Rightarrow> bands run" where
  "BBANDS v p mlt = (if d_lt (n_len v) p then fail (needs ''BBANDS'' p v)
     else let s = slice_from (d_neg p) v; middle = n_div (sum_of s) p; sd = n_sqrt (spread middle s p) in
       ret \<lparr>bb_upper = n_plus middle (n_times sd mlt), bb_middle = middle, bb_lower = n_minus middle (n_times sd mlt)\<rparr>)"

record macd =
  mc_macd :: dec
  mc_signal :: dec
  mc_histogram :: dec

text \<open>Each point of the history is computed from the start of the series.\<close>

definition macd_step :: "dec list \<Rightarrow> dec \<Rightarrow> dec \<Rightarrow> dec \<Rightarrow> dec list \<Rightarrow> dec list run" where
  "macd_step v fast slow i hist = (let s = js_slice (Fin 0) i v in
     bindR (EMA s fast) (\<lambda>f. bindR (EMA s slow) (\<lambda>sl. ret (hist @ [n_minus f sl]))))"

definition MACD :: "dec list \<Rightarrow> dec \<Rightarrow> dec \<Rightarrow> dec \<Rightarrow> macd run" where
  "MACD v fast slow signal = (if d_lt (n_len v) (n_plus slow signal) then fail (needs ''MACD'' (n_plus slow signal) v)
     else bindR (EMA v fast) (\<lambda>fastEMA. bindR (EMA v slow) (\<lambda>slowEMA.
       let macdValue = n_minus fastEMA slowEMA in
       bindR (num_loop (\<lambda>i. d_lte i (n_len v)) (macd_step v fast slow) slow []) (\<lambda>hist.
       bindR (EMA hist signal) (\<lambda>sig.
         ret \<lparr>mc_macd = macdValue, mc_signal = sig, mc_histogram = n_minus macdValue sig\<rparr>)))))"

definition true_range :: "dec list \<Rightarrow> dec list \<Rightarrow> dec list \<Rightarrow> nat \<Rightarrow> dec" where
  "true_range h l c i = max_of [n_minus (h ! i) (l ! i), d_abs (n_minus (h ! i) (c ! (i - 1))),
     d_abs (n_minus (l ! i) (c ! (i - 1)))]"

definition ATR :: "dec list \<Rightarrow> dec list \<Rightarrow> dec list \<Rightarrow> dec \<Rightarrow> dec run" where
  "ATR h l c p = (if length h \<noteq> length l \<or> length l \<noteq> length c \<or> d_lt (n_len h) (n_plus p n_one)
     then fail (PlainErr (''ATR requires at least '' @ num_str (n_plus p n_one) @ '' data points for all arrays''))
     else let tr = map (true_range h l c) [1..<length h] in
       num_loop (\<lambda>i. d_lt i (n_len tr)) (\<lambda>i atr. ret (smooth p atr (elem_at tr i))) p
         (n_div (sum_of (js_slice (Fin 0) p tr)) p))"

definition RVOL :: "dec list \<Rightarrow> dec \<Rightarrow> dec run" where
  "RVOL v p = (if d_lt (n_len v) (n_plus p n_one) then fail (needs ''RVOL'' (n_plus p n_one) v)
     else let avg = n_div (sum_of (js_slice (n_minus (d_neg p) n_one) (Fin (- 1)) v)) p in
       if d_isZero avg then fail (PlainErr ''RVOL requires a non-zero average baseline volume'')
       else ret (n_div (last_elem v) avg))"

definition obv_step :: "dec list \<Rightarrow> dec list \<Rightarrow> dec \<Rightarrow> nat \<Rightarrow> dec" where
  "obv_step c vol obv i = (if d_gt (c ! i) (c ! (i - 1)) then n_plus obv (vol ! i)
     else if d_lt (c ! i) (c ! (i - 1)) then n_minus obv (vol ! i) else obv)"

definition OBV :: "dec list \<Rightarrow> dec list \<Rightarrow> dec run" where
  "OBV c vol = (if length c \<noteq> length vol \<or> length c < 2
     then fail (PlainErr (''OBV requires closes and volumes of equal length (>= 2), got '' @ nat_str (length c) @ '' and ''
       @ nat_str (length vol)))
     else ret (foldl (obv_step c vol) (Fin 0) [1..<length c]))"

definition typical_price :: "dec list \<Rightarrow> dec list \<Rightarrow> dec list \<Rightarrow> nat \<Rightarrow> dec" where
  "typical_price h l c i = n_div (n_plus (n_plus (h ! i) (l ! i)) (c ! i)) (Fin 3)"

definition mfi_step :: "dec list \<Rightarrow> dec list \<Rightarrow> dec \<Rightarrow> dec \<times> dec \<Rightarrow> (dec \<times> dec) run" where
  "mfi_step typical vol i s = (let rawFlow = n_times (elem_at typical i) (elem_at vol i);
       cur = elem_at typical i; prev = elem_at typical (n_minus i n_one) in
     ret (if d_gt cur prev then (n_plus (fst s) rawFlow, snd s)
          else if d_lt cur prev then (fst s, n_plus (snd s) rawFlow) else s))"

definition MFI :: "dec list \<Rightarrow> dec list \<Rightarrow> dec list \<Rightarrow> dec list \<Rightarrow> dec \<Rightarrow> dec run" where
  "MFI h l c vol p = (if length h \<noteq> length l \<or> length l \<noteq> length c \<or> length c \<noteq> length vol \<or>
       d_lt (n_len h) (n_plus p n_one)
     then fail (PlainErr (''MFI requires at least '' @ num_str (n_plus p n_one) @ '' data points for all arrays''))
     else let typical = map (typical_price h l c) [0..<length h] in
       bindR (num_loop (\<lambda>i. d_lt i (n_len h)) (mfi_step typical vol) (n_minus (n_len h) p) (Fin 0, Fin 0))
         (\<lambda>s. ret (oscillator (fst s) (snd s))))"

definition vwap_step :: "dec list \<Rightarrow> dec list \<Rightarrow> dec list \<Rightarrow> dec list \<Rightarrow> dec \<times> dec \<Rightarrow> nat \<Rightarrow> dec \<times> dec" where
  "vwap_step h l c vol s i = (n_plus (fst s) (n_times (typical_price h l c i) (vol ! i)), n_plus (snd s) (vol ! i))"

definition VWAP :: "dec list \<Rightarrow> dec list \<Rightarrow> dec list \<Rightarrow> dec list \<Rightarrow> dec run" where
  "VWAP h l c vol = (if length h \<noteq> length l \<or> length l \<noteq> length c \<or> length c \<noteq> length vol \<or> length h < 1
     then fail (PlainErr ''VWAP requires high/low/close/volume arrays of equal length (>= 1)'')
     else let s = foldl (vwap_step h l c vol) (Fin 0, Fin 0) [0..<length h] in
       if d_isZero (snd s) then fail (PlainErr ''VWAP requires non-zero total volume'') else ret (n_div (fst s) (snd s)))"

section \<open>Oscillators stay in their range\<close>

text \<open>Not a negative number.\<close>

definition nn :: "dec \<Rightarrow> bool" where
  "nn x \<longleftrightarrow> x = NotANumber \<or> n_le (Fin 0) x"

definition in_range :: "dec \<Rightarrow> bool" where
  "in_range x \<longleftrightarrow> x = NotANumber \<or> n_le (Fin 0) x \<and> n_le x (Fin 100)"

lemma nn_simps [simp]: "nn NotANumber" "nn PosInf" "\<not> nn NegInf" "nn (Fin r) \<longleftrightarrow> 0 \<le> r"
  by (simp_all add: nn_def)

lemma nn_fl [simp]: "0 \<le> r \<Longrightarrow> nn (fl r)"
  by (simp add: nn_def fl_nonneg)

lemma nn_plus: "nn a \<Longrightarrow> nn b \<Longrightarrow> nn (n_plus a b)"
  by (cases a; cases b) simp_all

lemma nn_times: "nn a \<Longrightarrow> nn b \<Longrightarrow> nn (n_times a b)"
  by (cases a; cases b) (auto simp: signed_inf_def n_sign_def sgn_if mult_less_0_iff)

lemma nn_div: "nn a \<Longrightarrow> nn b \<Longrightarrow> nn (n_div a b)"
  by (cases a; cases b) (auto simp: signed_inf_def n_sign_def sgn_if)

lemma nn_foldl: "nn a \<Longrightarrow> (\<And>x. x \<in> set xs \<Longrightarrow> nn x) \<Longrightarrow> nn (foldl n_plus a xs)"
  by (induction xs arbitrary: a) (auto intro: nn_plus)

lemma nn_sum: "(\<And>x. x \<in> set xs \<Longrightarrow> nn x) \<Longrightarrow> nn (sum_of xs)"
  unfolding sum_of_def by (rule nn_foldl) auto

lemma set_slice: "set (js_slice a b xs) \<subseteq> set xs"
  unfolding js_slice_def Let_def by (meson order_trans set_drop_subset set_take_subset)

lemma nn_elem: "(\<And>x. x \<in> set xs \<Longrightarrow> nn x) \<Longrightarrow> nn (elem_at xs d)"
  by (auto simp: elem_at_def le_floor_iff floor_less_iff nat_less_iff split: dec.splits)

lemma nn_smooth: "1 \<le> q \<Longrightarrow> nn a \<Longrightarrow> nn x \<Longrightarrow> nn (smooth (Fin q) a x)"
  unfolding smooth_def by (intro nn_div nn_plus nn_times) (simp_all add: n_minus_def)

lemma nn_seed: "1 \<le> q \<Longrightarrow> (\<And>x. x \<in> set xs \<Longrightarrow> nn x) \<Longrightarrow> nn (n_div (sum_of (js_slice a b xs)) (Fin q))"
  using set_slice [of a b xs] by (intro nn_div nn_sum) auto

lemma nn_gain [simp]: "nn (gain c)" and nn_loss [simp]: "nn (loss c)"
  by (cases c; simp add: gain_def loss_def d_gt_def)+

lemma fl_100 [simp]: "fl 100 = Fin 100" and fl_1 [simp]: "fl 1 = Fin 1"
  using fl_int [of 100] fl_int [of 1] by simp_all

lemma fl_between: "0 \<le> r \<Longrightarrow> r \<le> 100 \<Longrightarrow> \<exists>z. fl r = Fin z \<and> 0 \<le> z \<and> z \<le> 100"
  using fl_mono [of 0 r] fl_mono [of r 100] by (cases "fl r") auto

lemma oscillator_range:
  assumes "nn up" "nn down"
  shows "in_range (oscillator up down)"
proof (cases "d_isZero down")
  case False
  define rs where "rs = n_div up down"
  have "nn rs" unfolding rs_def using assms by (rule nn_div)
  then consider "n_plus n_one rs = NotANumber" | "n_plus n_one rs = PosInf" | y where "n_plus n_one rs = Fin y" "1 \<le> y"
    using fl_mono [of 1 "1 + r" for r] by (cases rs; cases "n_plus n_one rs") force+
  then have "in_range (n_minus (Fin 100) (n_div (Fin 100) (n_plus n_one rs)))"
  proof cases
    case 3
    then have "0 \<le> 100 / y" "100 / y \<le> 100" by (simp_all add: divide_le_eq)
    then obtain z where z: "fl (100 / y) = Fin z" "0 \<le> z" "z \<le> 100" using fl_between by blast
    then obtain w where "fl (100 - z) = Fin w" "0 \<le> w" "w \<le> 100" using fl_between [of "100 - z"] by auto
    then show ?thesis using 3 z by (simp add: in_range_def n_minus_def)
  qed (simp_all add: in_range_def n_minus_def)
  then show ?thesis using False by (simp add: oscillator_def rs_def)
qed (simp add: oscillator_def in_range_def)

lemma loop_range:
  assumes "num_loop c f i s = ret r" "nn (fst s)" "nn (snd s)"
    and "\<And>i s t. nn (fst s) \<Longrightarrow> nn (snd s) \<Longrightarrow> f i s = ret t \<Longrightarrow> nn (fst t) \<and> nn (snd t)"
  shows "in_range (oscillator (fst r) (snd r))"
proof -
  have "nn (fst r) \<and> nn (snd r)"
  proof (rule num_loop_inv [where P = "\<lambda>s. nn (fst s) \<and> nn (snd s)"])
    show "num_loop c f i s = Some (Inr r)" using assms(1) by (simp add: ret_def)
    show "nn (fst s) \<and> nn (snd s)" using assms(2,3) by simp
    show "nn (fst t) \<and> nn (snd t)" if "nn (fst s) \<and> nn (snd s)" "f i s = Some (Inr t)" for i s t
      using assms(4) [of s i t] that by (simp add: ret_def)
  qed
  then show ?thesis by (intro oscillator_range) auto
qed

lemma RSI_range:
  assumes "1 \<le> q" "RSI v (Fin q) = ret x"
  shows "in_range x"
proof -
  have "in_range (oscillator (fst s) (snd s))" if "num_loop c (rsi_step (Fin q) (map gain ch) (map loss ch)) i
      (n_div (sum_of (js_slice (Fin 0) (Fin q) (map gain ch))) (Fin q), n_div (sum_of (js_slice (Fin 0) (Fin q) (map loss ch))) (Fin q)) = ret s"
    for c i s ch
    using that
    by (rule loop_range) (use assms(1) in \<open>auto simp: rsi_step_def intro!: nn_seed nn_smooth nn_elem\<close>)
  then show ?thesis using assms(2) by (auto simp: RSI_def Let_def bindR_eq_ret split: if_splits)
qed

lemma nn_typical: "(\<And>x. x \<in> set h \<union> set l \<union> set c \<Longrightarrow> nn x) \<Longrightarrow> i < length h \<Longrightarrow> length l = length h \<Longrightarrow>
    length c = length h \<Longrightarrow> nn (typical_price h l c i)"
  unfolding typical_price_def by (intro nn_div nn_plus) auto

lemma MFI_range:
  assumes "\<And>x. x \<in> set h \<union> set l \<union> set c \<union> set vol \<Longrightarrow> nn x" "MFI h l c vol p = ret x"
  shows "in_range x"
proof -
  let ?t = "map (typical_price h l c) [0..<length h]"
  have len: "length l = length h" "length c = length h" using assms(2) by (auto simp: MFI_def split: if_splits)
  have "nn y" if "y \<in> set ?t" for y using that assms(1) len by (auto intro!: nn_typical)
  then have "nn (n_times (elem_at ?t i) (elem_at vol i))" for i using assms(1) by (intro nn_times nn_elem) auto
  then have "in_range (oscillator (fst s) (snd s))" if "num_loop cond (mfi_step ?t vol) i (Fin 0, Fin 0) = ret s" for cond i s
    using that by (rule_tac loop_range) (auto simp: mfi_step_def Let_def intro!: nn_plus split: if_splits)
  then show ?thesis using assms(2) by (auto simp: MFI_def Let_def bindR_eq_ret split: if_splits)
qed

section \<open>Indicators return\<close>

text \<open>JavaScript arrays are shorter than \<open>2 ^ 32\<close>.\<close>

definition js_array :: "'a list \<Rightarrow> bool" where
  "js_array v \<longleftrightarrow> length v < 2 ^ 32"

text \<open>A period from which a loop can count up: \<open>NaN\<close>, or no less than \<open>- 2 ^ 53\<close>.\<close>

definition countable_from :: "dec \<Rightarrow> bool" where
  "countable_from p \<longleftrightarrow> p = NotANumber \<or> n_le (Fin (- (2 ^ 53))) p"

lemma loop_returns:
  assumes "js_array v" "countable_from p" "\<And>i s. returns (f i s)"
  shows "returns (num_loop (\<lambda>i. d_lt i (n_len v)) f p s)"
proof (rule num_loop_returns [of "length v"])
  show "length v < 2 ^ 53" using assms(1) by (simp add: js_array_def)
  show "r < of_nat (length v)" if "d_lt (Fin r) (n_len v)" for r
    using that by (simp add: n_len_def n_of_def)
  show "\<exists>r \<ge> - (2 ^ 53). p = Fin r" if "d_lt p (n_len v)"
    using that assms(2) by (cases p) (auto simp: countable_from_def n_len_def n_of_def)
qed (rule assms(3))

lemma js_array_shorter: "js_array v \<Longrightarrow> length w \<le> length v \<Longrightarrow> js_array w"
  by (simp add: js_array_def)

lemma EMA_returns: "js_array v \<Longrightarrow> countable_from p \<Longrightarrow> returns (EMA v p)"
  by (simp add: EMA_def loop_returns ema_step_def)

lemma RSI_returns: "js_array v \<Longrightarrow> countable_from p \<Longrightarrow> returns (RSI v p)"
proof -
  assume v: "js_array v" and p: "countable_from p"
  have "js_array (map gain (changes_of v))" using v by (simp add: js_array_def changes_of_def)
  then have "returns (num_loop (\<lambda>i. d_lt i (n_len (map gain (changes_of v)))) (rsi_step p g l) p s)" for g l s
    using p by (rule loop_returns) (simp add: rsi_step_def)
  then show ?thesis by (simp add: RSI_def Let_def)
qed

lemma MFI_returns: "js_array h \<Longrightarrow> countable_from (n_minus (n_len h) p) \<Longrightarrow> returns (MFI h l c vol p)"
  by (simp add: MFI_def Let_def loop_returns mfi_step_def)

text \<open>C39: oscillators return and stay in their range.  For every period of at least one that the calculator can pass, whole or
  not, over any prices (for \<open>MFI\<close>: prices and volumes that are not negative), \<open>RSI\<close> and \<open>MFI\<close> come to an end, and the number
  they return, computed with the rounding, overflow and underflow of doubles, is not outside \<open>0\<close> to \<open>100\<close>.\<close>

theorem oscillators_bounded:
  assumes "1 \<le> q" and "js_array v" and "js_array h" and "\<forall>x \<in> set h \<union> set l \<union> set c \<union> set vol. nn x"
  shows "returns (RSI v (Fin q)) \<and> (\<forall>x. RSI v (Fin q) = ret x \<longrightarrow> in_range x) \<and>
    returns (MFI h l c vol (Fin q)) \<and> (\<forall>x. MFI h l c vol (Fin q) = ret x \<longrightarrow> in_range x)"
proof -
  have "returns (MFI h l c vol (Fin q))"
  proof (cases "d_lt (n_len h) (n_plus (Fin q) n_one)")
    case False
    let ?n = "length h"
    have n: "fl (of_nat ?n + 1) = Fin (of_nat ?n + 1)"
      using fl_int [of "int ?n + 1"] assms(3) by (simp add: js_array_def)
    have "q \<le> of_nat ?n"
    proof (rule ccontr)
      assume "\<not> q \<le> of_nat ?n"
      then have "n_le (fl (of_nat ?n + 1)) (fl (q + 1))" by (intro fl_mono) simp
      then show False using False by (cases "fl (q + 1)") (simp_all add: n n_len_def n_of_def)
    qed
    then have "n_le (Fin 0) (n_minus (n_len h) (Fin q))" by (simp add: n_minus_def n_len_def n_of_def fl_nonneg)
    then have "countable_from (n_minus (n_len h) (Fin q))"
      using n_le_trans [of "Fin (- (2 ^ 53))" "Fin 0"] by (simp add: countable_from_def)
    then show ?thesis using assms(3) by (intro MFI_returns)
  qed (simp add: MFI_def)
  moreover have "returns (RSI v (Fin q))" using assms(1,2) by (intro RSI_returns) (simp_all add: countable_from_def)
  moreover have "in_range x" if "MFI h l c vol (Fin q) = ret x" for x
    using assms(4) that by (intro MFI_range [OF _ that]) simp
  ultimately show ?thesis using RSI_range [OF assms(1)] by simp
qed

section \<open>The history of MACD in one pass\<close>

definition ema_next :: "dec \<Rightarrow> dec \<Rightarrow> dec \<Rightarrow> dec" where
  "ema_next k e x = n_plus (n_times (n_minus x e) k) e"

definition ema_factor :: "nat \<Rightarrow> dec" where
  "ema_factor p = n_div (Fin 2) (n_plus (n_of p) n_one)"

definition ema_seed :: "dec list \<Rightarrow> nat \<Rightarrow> dec" where
  "ema_seed v p = n_div (sum_of (take p v)) (n_of p)"

lemma slice_pos_of [simp]: "slice_pos n (n_of i) = min n i" "slice_pos n (Fin 0) = 0"
  by (simp_all add: slice_pos_def n_of_def rat_trunc_def Let_def)

lemma js_slice_take [simp]: "js_slice (Fin 0) (n_of i) v = take i v"
  by (simp add: js_slice_def min_def)

lemma elem_at_of [simp]: "i < length v \<Longrightarrow> elem_at v (n_of i) = v ! i"
  by (simp add: elem_at_def n_of_def)

lemma foldR_pure: "(\<And>i s. i \<in> set is \<Longrightarrow> f (n_of i) s = ret (g s (xs i))) \<Longrightarrow> foldR f (map n_of is) s = ret (foldl g s (map xs is))"
  by (induction "is" arbitrary: s) auto

lemma EMA_closed:
  assumes "js_array v" "p \<le> length v"
  shows "EMA v (n_of p) = ret (foldl (ema_next (ema_factor p)) (ema_seed v p) (drop p v))"
proof -
  have "length v \<le> 2 ^ 53" using assms(1) by (simp add: js_array_def)
  then have "num_loop (\<lambda>i. d_lt i (n_len v)) (ema_step v (ema_factor p)) (n_of p) (ema_seed v p)
      = foldR (ema_step v (ema_factor p)) (map n_of [p..<length v]) (ema_seed v p)"
    by (intro num_loop_fold) (auto simp: n_len_def)
  also have "\<dots> = ret (foldl (ema_next (ema_factor p)) (ema_seed v p) (map ((!) v) [p..<length v]))"
    by (intro foldR_pure) (simp add: ema_step_def ema_next_def)
  also have "map ((!) v) [p..<length v] = drop p v" by (intro nth_equalityI) simp_all
  finally show ?thesis using assms(2)
    by (simp add: EMA_def n_len_def ema_factor_def ema_seed_def)
qed

text \<open>All values of an average while it runs over the bars.\<close>

fun ema_track :: "dec \<Rightarrow> dec \<Rightarrow> dec list \<Rightarrow> dec list" where
  "ema_track k e [] = [e]"
| "ema_track k e (x # xs) = e # ema_track k (ema_next k e x) xs"

lemma ema_track_length [simp]: "length (ema_track k e xs) = Suc (length xs)"
  by (induction xs arbitrary: e) simp_all

lemma ema_track_nonempty [simp]: "ema_track k e xs \<noteq> []"
  by (cases xs) simp_all

lemma ema_track_nth: "j \<le> length xs \<Longrightarrow> ema_track k e xs ! j = foldl (ema_next k) e (take j xs)"
  by (induction xs arbitrary: e j) (auto simp: nth_Cons split: nat.splits)

definition ema_line :: "dec list \<Rightarrow> nat \<Rightarrow> dec list" where
  "ema_line v p = ema_track (ema_factor p) (ema_seed v p) (drop p v)"

text \<open>The reference: both averages and their difference once per bar, then the average of the differences.\<close>

definition macd_linear :: "dec list \<Rightarrow> nat \<Rightarrow> nat \<Rightarrow> nat \<Rightarrow> macd" where
  "macd_linear v fast slow signal =
     (let hist = map2 n_minus (drop (slow - fast) (ema_line v fast)) (ema_line v slow);
          sig = last (ema_line hist signal)
      in \<lparr>mc_macd = last hist, mc_signal = sig, mc_histogram = n_minus (last hist) sig\<rparr>)"

lemma EMA_prefix:
  assumes "js_array v" "p \<le> i" "i \<le> length v"
  shows "EMA (take i v) (n_of p) = ret (ema_line v p ! (i - p))"
proof -
  have "js_array (take i v)" using assms(1) by (rule js_array_shorter) simp
  then have "EMA (take i v) (n_of p) = ret (foldl (ema_next (ema_factor p)) (ema_seed (take i v) p) (drop p (take i v)))"
    using assms by (intro EMA_closed) simp_all
  moreover have "ema_seed (take i v) p = ema_seed v p" using assms(2) by (simp add: ema_seed_def min_absorb1)
  moreover have "ema_line v p ! (i - p) = foldl (ema_next (ema_factor p)) (ema_seed v p) (take (i - p) (drop p v))"
    using assms unfolding ema_line_def by (intro ema_track_nth) simp
  ultimately show ?thesis by (simp add: drop_take)
qed

lemma EMA_last: "js_array v \<Longrightarrow> p \<le> length v \<Longrightarrow> EMA v (n_of p) = ret (last (ema_line v p))"
  using EMA_prefix [of v p "length v"] by (simp add: ema_line_def last_conv_nth)

lemma foldl_snoc: "foldl (\<lambda>hs x. hs @ [x]) ys xs = ys @ xs"
  by (induction xs arbitrary: ys) simp_all

text \<open>C40: the history of MACD.  The code recomputes both averages of every prefix of the series; the result is, bit for bit,
  that of running each average once over the bars.\<close>

theorem macd_is_linear:
  assumes "js_array v" and "1 \<le> fast" and "fast \<le> slow" and "1 \<le> signal" and "slow + signal \<le> length v"
  shows "MACD v (n_of fast) (n_of slow) (n_of signal) = ret (macd_linear v fast slow signal)"
proof -
  let ?f = "ema_line v fast" and ?s = "ema_line v slow" and ?n = "length v"
  let ?h = "\<lambda>i. n_minus (?f ! (i - fast)) (?s ! (i - slow))"
  let ?hist = "map2 n_minus (drop (slow - fast) ?f) ?s"
  have len: "length ?f = Suc (?n - fast)" "length ?s = Suc (?n - slow)" by (simp_all add: ema_line_def)
  have hist: "map ?h [slow..<Suc ?n] = ?hist"
    using assms len by (intro nth_equalityI) (auto simp del: upt_Suc)
  have "macd_step v (n_of fast) (n_of slow) (n_of i) hs = ret (hs @ [?h i])" if "i \<in> set [slow..<Suc ?n]" for i hs
    using that assms by (auto simp: macd_step_def EMA_prefix Let_def simp del: upt_Suc)
  then have "foldR (macd_step v (n_of fast) (n_of slow)) (map n_of [slow..<Suc ?n]) []
      = ret (foldl (\<lambda>hs x. hs @ [x]) [] (map ?h [slow..<Suc ?n]))"
    by (rule foldR_pure)
  moreover have "num_loop (\<lambda>i. d_lte i (n_len v)) (macd_step v (n_of fast) (n_of slow)) (n_of slow) []
      = foldR (macd_step v (n_of fast) (n_of slow)) (map n_of [slow..<Suc ?n]) []"
    using assms(1) by (intro num_loop_fold) (auto simp: js_array_def n_len_def n_of_def)
  ultimately have loop: "num_loop (\<lambda>i. d_lte i (n_len v)) (macd_step v (n_of fast) (n_of slow)) (n_of slow) [] = ret ?hist"
    by (simp only: hist foldl_snoc append_Nil)
  have hl: "length ?hist = Suc (?n - slow)" using len assms by simp
  have "length ?hist \<le> ?n" using hl assms(2,3,5) by linarith
  then have "js_array ?hist" by (rule js_array_shorter [OF assms(1)])
  then have sig: "EMA ?hist (n_of signal) = ret (last (ema_line ?hist signal))" using assms hl by (intro EMA_last) simp_all
  have "n_minus (last ?f) (last ?s) = last ?hist"
  proof -
    have last: "last xs = xs ! n" if "length xs = Suc n" for xs :: "dec list" and n
      using that by (cases xs) (auto simp: last_conv_nth)
    have "last ?hist = ?hist ! (?n - slow)" "last ?f = ?f ! (?n - fast)" "last ?s = ?s ! (?n - slow)"
      by (rule last [OF hl], rule last [OF len(1)], rule last [OF len(2)])
    then show ?thesis using len assms by simp
  qed
  moreover have "n_plus (n_of slow) (n_of signal) = n_of (slow + signal)"
    using fl_int [of "int (slow + signal)"] assms(1,5) by (simp add: n_of_def js_array_def)
  then have "\<not> d_lt (n_len v) (n_plus (n_of slow) (n_of signal))" using assms(5) by (simp add: n_len_def)
  ultimately show ?thesis using assms loop sig
    by (simp add: MACD_def EMA_last macd_linear_def Let_def)
qed

section \<open>Where the functions go wrong\<close>

lemma stuck_period:
  assumes one: "n_plus p n_one = p" and p: "p = Fin r" "r < 0"
  shows "EMA v p = None \<and> RSI v p = None"
proof -
  have lt: "d_lt p (n_len w)" "\<not> d_lt (n_len w) p" for w
    using p(2) by (simp_all add: p(1) n_len_def n_of_def not_less)
  have "num_loop (\<lambda>i. d_lt i (n_len v)) (ema_step v k) p s = None" for k s
    using lt one by (intro num_loop_never) (auto simp: ema_step_def)
  moreover have "num_loop (\<lambda>i. d_lt i (n_len g)) (rsi_step p g l) p s = None" for g l s
    using lt one by (intro num_loop_never) (auto simp: rsi_step_def)
  ultimately show ?thesis by (simp add: EMA_def RSI_def one lt Let_def)
qed

text \<open>A large negative period never returns.  The functions check only that there are enough bars; with the period \<open>- 2 ^ 54\<close>
  the loops of \<open>EMA\<close> and \<open>RSI\<close> start at a number that adding one does not change.\<close>

lemma negative_period_hangs: "EMA v (Fin (- (2 ^ 54))) = None \<and> RSI v (Fin (- (2 ^ 54))) = None"
proof (rule stuck_period [where r = "- (2 ^ 54)"])
  show "n_plus (Fin (- (2 ^ 54))) n_one = Fin (- (2 ^ 54))" by code_simp
qed simp_all

text \<open>The correlation of two proportional series is above one: the documented range does not survive rounding.\<close>

lemma correlation_exceeds_one:
  "CORRELATION [Fin 0, Fin 0, Fin 5] [Fin 0, Fin 0, Fin 15] = ret (Fin (1 + 1 / 2 ^ 52))"
  by code_simp

section \<open>Witnesses\<close>

lemma oscillators_bounded_witness:
  "\<exists>x. RSI [Fin 1, Fin 2, Fin 3] (Fin 2) = ret x \<and> in_range x"
proof -
  have "RSI [Fin 1, Fin 2, Fin 3] (Fin 2) = ret (Fin 100)" by code_simp
  then show ?thesis
    using oscillators_bounded [of 2 "[Fin 1, Fin 2, Fin 3]" "[Fin 1]" "[Fin 1]" "[Fin 1]" "[Fin 5]"] by (simp add: js_array_def)
qed

lemma macd_is_linear_witness:
  "MACD [Fin 1, Fin 2, Fin 3] (n_of 1) (n_of 2) (n_of 1) = ret (macd_linear [Fin 1, Fin 2, Fin 3] 1 2 1)"
  by (rule macd_is_linear) (simp_all add: js_array_def)

end
