(* ===== verification/Calc_Eval.thy ===== *)
theory Calc_Eval
  imports Calc_Parser Indicators
begin

text \<open>
  The evaluator of the calculator's scripts (\<open>calc-v2/evaluator.ts\<close>) and its entry (\<open>calc-v2/index.ts\<close>).  The bar
  service is an argument: its answer to the \<open>n\<close>-th fetch.  The state is what the evaluator records about the sources.
  The arguments of a call are evaluated in order; the code starts them together, which shows only in which of two errors
  is reported and in the order of the recorded keys.
\<close>

section \<open>Bars\<close>

record ohlcv_bar =
  ob_date :: string
  ob_open :: dec
  ob_high :: dec
  ob_low :: dec
  ob_close :: dec
  ob_volume :: "dec option"

record bar_meta =
  bm_symbol :: string
  bm_from :: string
  bm_to :: string
  bm_bars :: nat
  bm_source :: "string option"
  bm_sourceId :: "string option"
  bm_barId :: "string option"
  bm_interval :: "string option"
  bm_provider :: "string option"
  bm_barCapability :: "string option"

record bars_result =
  br_bars :: "ohlcv_bar list"
  br_meta :: bar_meta

record bars_opts =
  bo_interval :: string
  bo_count :: "dec option"
  bo_start :: "string option"
  bo_end :: "string option"
  bo_asOf :: "string option"

record bar_ref =
  rf_barId :: string
  rf_assetClass :: "string option"

text \<open>The answer to the \<open>n\<close>-th call of \<open>getBars\<close>: the message of what it throws, or bars.\<close>

type_synonym bar_service = "nat \<Rightarrow> bar_ref \<Rightarrow> bars_opts \<Rightarrow> string + bars_result"

section \<open>Values\<close>

datatype calc_value = CvNum dec | CvStr string | CvList "calc_value list" | CvObj "(string \<times> calc_value) list"

datatype V =
    VNum dec
  | VStr string
  | VCol "dec list" bar_meta
  | VSeries string bars_result
  | VRec "(string \<times> dec) list"
  | VList "calc_value list"
  | VDict "(string \<times> calc_value) list"

definition series_columns :: "string list" where
  "series_columns = [''open'', ''high'', ''low'', ''close'', ''volume'']"

definition MAX_PANEL :: nat where
  "MAX_PANEL = 200"

definition type_err :: "string \<Rightarrow> nat \<Rightarrow> calc_error" where
  "type_err msg line = calc_err TypeErr msg (Some line) None None"

definition calc_err_at :: "calc_kind \<Rightarrow> string \<Rightarrow> pos \<Rightarrow> string option \<Rightarrow> calc_error" where
  "calc_err_at k msg p sugg = calc_err k msg (Some (fst p)) (Some (snd p)) sugg"

fun asLeaf :: "V \<Rightarrow> nat \<Rightarrow> calc_value run" where
  "asLeaf (VNum v) _ = ret (CvNum v)"
| "asLeaf (VStr s) _ = ret (CvStr s)"
| "asLeaf (VRec r) _ = ret (CvObj (map (map_prod id CvNum) r))"
| "asLeaf (VList vs) _ = ret (CvList vs)"
| "asLeaf (VDict m) _ = ret (CvObj m)"
| "asLeaf _ line = fail (type_err (''A panel entry must be a single value '' @ em_dash @
     '' reduce a series with [-1] or an indicator (e.g. sma(s.close, 50))'') line)"

fun got_text :: "V \<Rightarrow> string" where
  "got_text (VCol _ _) = ''series column''"
| "got_text (VSeries _ _) = ''series''"
| "got_text (VStr _) = ''string''"
| "got_text _ = ''record''"

definition asNum :: "V \<Rightarrow> string \<Rightarrow> nat \<Rightarrow> dec run" where
  "asNum v ctx line = (case v of VNum d \<Rightarrow> ret d
     | _ \<Rightarrow> fail (type_err (''Expected a number for '' @ ctx @ '', got a '' @ got_text v) line))"

definition asStr :: "V \<Rightarrow> string \<Rightarrow> nat \<Rightarrow> nat \<Rightarrow> string run" where
  "asStr v f i line = (case v of VStr s \<Rightarrow> ret s
     | _ \<Rightarrow> fail (type_err (f @ '' arg '' @ nat_str i @ '' must be a string'') line))"

section \<open>Provenance\<close>

record prov =
  pv_range :: "(string, bar_meta) jsmap"
  pv_dates :: "(string, string list) jsmap"
  pv_intervals :: "(string, string list) jsmap"
  pv_calls :: nat

definition empty_prov :: prov where
  "empty_prov = \<lparr>pv_range = [], pv_dates = [], pv_intervals = [], pv_calls = 0\<rparr>"

definition intervalKey :: "string \<Rightarrow> string \<Rightarrow> string" where
  "intervalKey barId i = barId @ ''@'' @ i"

definition put_series :: "string \<Rightarrow> bar_meta \<Rightarrow> string list option \<Rightarrow> prov \<Rightarrow> prov" where
  "put_series key meta axis pv = pv\<lparr>pv_range := jm_set key meta (pv_range pv),
     pv_dates := (case axis of None \<Rightarrow> pv_dates pv | Some ds \<Rightarrow> jm_set key ds (pv_dates pv))\<rparr>"

text \<open>The second interval of a source: its first series gets the explicit key.\<close>

definition rekey :: "string \<Rightarrow> string \<Rightarrow> (string, 'v) jsmap \<Rightarrow> (string, 'v) jsmap" where
  "rekey old new m = (case jm_get m old of None \<Rightarrow> m | Some v \<Rightarrow> jm_delete old (jm_set new v m))"

definition split_key :: "bool \<Rightarrow> string \<Rightarrow> string \<Rightarrow> prov \<Rightarrow> prov" where
  "split_key withDates barId first pv = pv\<lparr>pv_range := rekey barId (intervalKey barId first) (pv_range pv),
     pv_dates := (if withDates then rekey barId (intervalKey barId first) (pv_dates pv) else pv_dates pv)\<rparr>"

definition recordProvenance :: "bool \<Rightarrow> bars_result \<Rightarrow> string \<Rightarrow> prov \<Rightarrow> prov" where
  "recordProvenance withDates r interval pv =
     (let barId = (case bm_barId (br_meta r) of None \<Rightarrow> [] | Some b \<Rightarrow> b);
          meta = (br_meta r)\<lparr>bm_interval := Some interval\<rparr>;
          axis = (if withDates then Some (map ob_date (br_bars r)) else None) in
      if barId = [] then pv
      else case jm_get (pv_intervals pv) barId of
        None \<Rightarrow> put_series barId meta axis (pv\<lparr>pv_intervals := jm_set barId [interval] (pv_intervals pv)\<rparr>)
      | Some intervals \<Rightarrow>
          (let fresh = interval \<notin> set intervals;
               pv1 = (if fresh \<and> length intervals = 1 then split_key withDates barId (hd intervals) pv else pv);
               intervals1 = (if fresh then intervals @ [interval] else intervals) in
           put_series (if length intervals1 = 1 then barId else intervalKey barId interval) meta axis
             (pv1\<lparr>pv_intervals := jm_set barId intervals1 (pv_intervals pv1)\<rparr>)))"

section \<open>Evaluation with that state\<close>

type_synonym 'a ev = "prov \<Rightarrow> ('a \<times> prov) run"

definition ev_lift :: "'a run \<Rightarrow> 'a ev" where
  "ev_lift m pv = bindR m (\<lambda>a. ret (a, pv))"

definition ev_ret :: "'a \<Rightarrow> 'a ev" where
  "ev_ret a = ev_lift (ret a)"

definition ev_fail :: "calc_error \<Rightarrow> 'a ev" where
  "ev_fail e = ev_lift (fail e)"

definition ev_bind :: "'a ev \<Rightarrow> ('a \<Rightarrow> 'b ev) \<Rightarrow> 'b ev" where
  "ev_bind m f pv = bindR (m pv) (\<lambda>(a, pv'). f a pv')"

fun ev_seq :: "'a ev list \<Rightarrow> 'a list ev" where
  "ev_seq [] = ev_ret []"
| "ev_seq (m # ms) = ev_bind m (\<lambda>a. ev_bind (ev_seq ms) (\<lambda>as. ev_ret (a # as)))"

definition ev_num :: "string \<Rightarrow> nat \<Rightarrow> V ev \<Rightarrow> dec ev" where
  "ev_num ctx line m = ev_bind m (\<lambda>v. ev_lift (asNum v ctx line))"

definition ev_str :: "string \<Rightarrow> nat \<Rightarrow> nat \<Rightarrow> V ev \<Rightarrow> string ev" where
  "ev_str f i line m = ev_bind m (\<lambda>v. ev_lift (asStr v f i line))"

section \<open>Indicator functions\<close>

text \<open>A function of its name (for messages), its arguments and the line.\<close>

type_synonym builtin = "string \<Rightarrow> V list \<Rightarrow> nat \<Rightarrow> V run"

definition col_arg :: "V list \<Rightarrow> nat \<Rightarrow> string \<Rightarrow> nat \<Rightarrow> dec list run" where
  "col_arg a i f line = (case UTA_Prelude.elem_at a (i - 1) of Some (VCol v _) \<Rightarrow> ret v
     | _ \<Rightarrow> fail (type_err (f @ '' arg '' @ nat_str i @ '' must be a series column (e.g. s.close)'') line))"

definition num_arg :: "V list \<Rightarrow> nat \<Rightarrow> string \<Rightarrow> nat \<Rightarrow> dec run" where
  "num_arg a i f line = (case UTA_Prelude.elem_at a (i - 1) of Some (VNum d) \<Rightarrow> ret d
     | _ \<Rightarrow> fail (type_err (f @ '' arg '' @ nat_str i @ '' must be a number'') line))"

definition num_arg_or :: "dec \<Rightarrow> V list \<Rightarrow> nat \<Rightarrow> string \<Rightarrow> nat \<Rightarrow> dec run" where
  "num_arg_or d a i f line = (if i \<le> length a then num_arg a i f line else ret d)"

definition arity_text :: "nat \<Rightarrow> nat \<Rightarrow> string" where
  "arity_text lo hi = (if lo = hi then nat_str lo else nat_str lo @ ''-'' @ nat_str hi) @ '' argument'' @ (if hi = 1 then [] else ''s'')"

definition arity :: "V list \<Rightarrow> nat \<Rightarrow> nat \<Rightarrow> string \<Rightarrow> nat \<Rightarrow> unit run" where
  "arity a lo hi f line = (if length a < lo \<or> hi < length a
     then fail (calc_err ArityErr (f @ '' expects '' @ arity_text lo hi @ '', got '' @ nat_str (length a)) (Some line) None None)
     else ret ())"

definition at_least :: string where
  "at_least = [CHR 0xE2, CHR 0x89, CHR 0xA5]"

definition needBars :: "dec list \<Rightarrow> dec \<Rightarrow> string \<Rightarrow> nat \<Rightarrow> unit run" where
  "needBars v p f line = (if d_lt (n_len v) p
     then fail (calc_err InsufficientBars (f @ ''(period='' @ num_str p @ '') needs '' @ at_least @ num_str p @
       '' bars, but the series has '' @ nat_str (length v) @ ''. Raise count= on bars(...) or shorten the period.'') (Some line) None None)
     else ret ())"

definition num_result :: "dec run \<Rightarrow> V run" where
  "num_result m = bindR m (\<lambda>x. ret (VNum x))"

text \<open>The shapes the table repeats: a column; a column and a period; a column and a period with a default.\<close>

definition column_fn :: "(dec list \<Rightarrow> dec run) \<Rightarrow> builtin" where
  "column_fn g f a l = bindR (arity a 1 1 f l) (\<lambda>_. bindR (col_arg a 1 f l) (\<lambda>c. num_result (g c)))"

definition period_fn :: "(dec \<Rightarrow> dec) \<Rightarrow> (dec list \<Rightarrow> dec \<Rightarrow> dec run) \<Rightarrow> builtin" where
  "period_fn need g f a l = bindR (arity a 2 2 f l) (\<lambda>_. bindR (col_arg a 1 f l) (\<lambda>c. bindR (num_arg a 2 f l) (\<lambda>p.
     bindR (needBars c (need p) f l) (\<lambda>_. num_result (g c p)))))"

definition default_fn :: "dec \<Rightarrow> (dec list \<Rightarrow> dec \<Rightarrow> dec run) \<Rightarrow> builtin" where
  "default_fn d g f a l = bindR (arity a 1 2 f l) (\<lambda>_. bindR (col_arg a 1 f l) (\<lambda>c. bindR (num_arg_or d a 2 f l) (\<lambda>p.
     bindR (needBars c (n_plus p n_one) f l) (\<lambda>_. num_result (g c p)))))"

definition columns_fn :: "(dec list \<Rightarrow> dec list \<Rightarrow> dec run) \<Rightarrow> builtin" where
  "columns_fn g f a l = bindR (arity a 2 2 f l) (\<lambda>_. bindR (col_arg a 1 f l) (\<lambda>c. bindR (col_arg a 2 f l) (\<lambda>d. num_result (g c d))))"

definition bbands_fn :: builtin where
  "bbands_fn f a l = bindR (arity a 2 3 f l) (\<lambda>_. bindR (col_arg a 1 f l) (\<lambda>c. bindR (num_arg a 2 f l) (\<lambda>p.
     bindR (num_arg_or (Fin 2) a 3 f l) (\<lambda>s. bindR (needBars c p f l) (\<lambda>_. bindR (BBANDS c p s) (\<lambda>b.
       ret (VRec [(''upper'', bb_upper b), (''middle'', bb_middle b), (''lower'', bb_lower b)])))))))"

definition macd_fn :: builtin where
  "macd_fn f a l = bindR (arity a 4 4 f l) (\<lambda>_. bindR (col_arg a 1 f l) (\<lambda>c. bindR (num_arg a 2 f l) (\<lambda>fa.
     bindR (num_arg a 3 f l) (\<lambda>sl. bindR (num_arg a 4 f l) (\<lambda>si. bindR (needBars c (n_plus sl si) f l) (\<lambda>_.
     bindR (MACD c fa sl si) (\<lambda>m.
       ret (VRec [(''macd'', mc_macd m), (''signal'', mc_signal m), (''histogram'', mc_histogram m)]))))))))"

definition atr_fn :: builtin where
  "atr_fn f a l = bindR (arity a 4 4 f l) (\<lambda>_. bindR (col_arg a 1 f l) (\<lambda>h. bindR (col_arg a 2 f l) (\<lambda>lo.
     bindR (col_arg a 3 f l) (\<lambda>c. bindR (num_arg a 4 f l) (\<lambda>p. bindR (needBars c p f l) (\<lambda>_. num_result (ATR h lo c p)))))))"

definition mfi_fn :: builtin where
  "mfi_fn f a l = bindR (arity a 4 5 f l) (\<lambda>_. bindR (col_arg a 1 f l) (\<lambda>h. bindR (col_arg a 2 f l) (\<lambda>lo.
     bindR (col_arg a 3 f l) (\<lambda>c. bindR (col_arg a 4 f l) (\<lambda>v. bindR (num_arg_or (Fin 14) a 5 f l) (\<lambda>p.
     bindR (needBars c (n_plus p n_one) f l) (\<lambda>_. num_result (MFI h lo c v p))))))))"

definition vwap_fn :: builtin where
  "vwap_fn f a l = bindR (arity a 4 4 f l) (\<lambda>_. bindR (col_arg a 1 f l) (\<lambda>h. bindR (col_arg a 2 f l) (\<lambda>lo.
     bindR (col_arg a 3 f l) (\<lambda>c. bindR (col_arg a 4 f l) (\<lambda>v. num_result (VWAP h lo c v))))))"

definition zscore_fn :: builtin where
  "zscore_fn f a l = bindR (arity a 1 2 f l) (\<lambda>_. bindR (col_arg a 1 f l) (\<lambda>c.
     bindR (if 2 \<le> length a then bindR (num_arg a 2 f l) (\<lambda>p. ret (Some p)) else ret None) (\<lambda>p.
     bindR (case p of Some d \<Rightarrow> if truthy_num d then needBars c d f l else ret () | None \<Rightarrow> ret ()) (\<lambda>_.
       num_result (ZSCORE c p)))))"

definition plus_one :: "dec \<Rightarrow> dec" where
  "plus_one p = n_plus p n_one"

definition FUNCTIONS :: "(string \<times> builtin) list" where
  "FUNCTIONS = [
     (''sma'', period_fn id SMA), (''ema'', period_fn id EMA), (''stdev'', column_fn STDEV), (''max'', column_fn js_MAX),
     (''min'', column_fn js_MIN), (''sum'', column_fn js_SUM), (''average'', column_fn AVERAGE),
     (''rsi'', default_fn (Fin 14) RSI), (''bbands'', bbands_fn), (''macd'', macd_fn), (''atr'', atr_fn),
     (''rvol'', default_fn (Fin 20) RVOL), (''obv'', columns_fn OBV), (''mfi'', mfi_fn), (''vwap'', vwap_fn),
     (''median'', column_fn MEDIAN), (''roc'', period_fn plus_one ROC), (''zscore'', zscore_fn),
     (''slope'', period_fn id SLOPE), (''correlation'', columns_fn CORRELATION), (''highest'', period_fn id HIGHEST),
     (''lowest'', period_fn id LOWEST)]"

section \<open>Calls\<close>

definition suggest :: "string option \<Rightarrow> string option" where
  "suggest s = map_option (\<lambda>x. ''did you mean '' @ quoted x @ ''?'') s"

text \<open>A positional argument has no name (or an empty one).\<close>

definition unnamed :: "string option \<Rightarrow> bool" where
  "unnamed n \<longleftrightarrow> n = None \<or> n = Some []"

definition evalFunction :: "string \<Rightarrow> (string option \<times> V ev) list \<Rightarrow> pos \<Rightarrow> V ev" where
  "evalFunction callee args p =
     (case map_of FUNCTIONS callee of
        None \<Rightarrow> ev_fail (calc_err_at UnknownFunction (''Unknown function '' @ quoted callee) p
          (suggest (didYouMean callee (map fst FUNCTIONS @ [''bars'']))))
      | Some spec \<Rightarrow>
          if list_ex (\<lambda>a. \<not> unnamed (fst a)) args
          then ev_fail (calc_err_at TypeErr (callee @ ''(...) takes positional arguments only'') p None)
          else ev_bind (ev_seq (map snd args)) (\<lambda>vs. ev_lift (spec callee vs (fst p))))"

text \<open>\<open>/\bword\b/\<close>.\<close>

definition word_char :: "char option \<Rightarrow> bool" where
  "word_char c = (case c of None \<Rightarrow> False | Some x \<Rightarrow> isIdentPart x)"

fun has_word :: "string \<Rightarrow> char option \<Rightarrow> string \<Rightarrow> bool" where
  "has_word w before [] = False"
| "has_word w before (x # xs) \<longleftrightarrow>
     take (length w) (x # xs) = w \<and> \<not> word_char before \<and> \<not> word_char (UTA_Prelude.elem_at (x # xs) (length w)) \<or> has_word w (Some x) xs"

definition throttled :: "string \<Rightarrow> bool" where
  "throttled m \<longleftrightarrow> match_at ''rate_limited:'' m \<or> found_in ''rate~limit'' m \<or> found_in ''too many requests'' m \<or> has_word ''429'' None m"

definition unreachable :: "string \<Rightarrow> bool" where
  "unreachable m \<longleftrightarrow> match_at ''network_unreachable:'' m \<or> found_in ''cannot reach'' m \<or> found_in ''unreachable'' m \<or>
     has_word ''dns'' None m \<or> found_in ''proxy'' m"

definition barFetchSuggestion :: "string \<Rightarrow> string" where
  "barFetchSuggestion detail = (let m = to_lower detail; q = [CHR 34] in
     if throttled m then
       ''Not a script error '' @ em_dash @ '' the data source throttled/blocked this client. Wait a few minutes and retry, or switch source (an '' @
       q @ ''fmp|<symbol>'' @ q @ '' barId if an FMP key is set, or a connected broker barId).''
     else if unreachable m then
       ''Not a script error '' @ em_dash @ '' the data source was unreachable from this network. Do not retry blindly; try a different source, or surface the network/VPN issue to the user.''
     else
       ''Not a script error in the math '' @ em_dash @ '' check the barId is one returned by searchBars/searchContracts (vendor barIds also need asset=). If the source genuinely has no data for this symbol/interval, try another source.'')"

definition fetchBars :: "bar_service \<Rightarrow> bool \<Rightarrow> string \<Rightarrow> bars_opts \<Rightarrow> string option \<Rightarrow> (string + bars_result) ev" where
  "fetchBars svc withDates barId opts assetClass pv =
     (let ref = \<lparr>rf_barId = barId, rf_assetClass = (if assetClass = Some [] then None else assetClass)\<rparr>;
          r = svc (pv_calls pv) ref opts; pv1 = pv\<lparr>pv_calls := Suc (pv_calls pv)\<rparr> in
      case r of Inl msg \<Rightarrow> ret (Inl msg, pv1) | Inr res \<Rightarrow> ret (Inr res, recordProvenance withDates res (bo_interval opts) pv1))"

definition keyword :: "(string option \<times> V ev) list \<Rightarrow> string \<Rightarrow> (V ev \<Rightarrow> 'a ev) \<Rightarrow> 'a option ev" where
  "keyword args k conv = (case map_of (rev args) (Some k) of None \<Rightarrow> ev_ret None
     | Some m \<Rightarrow> ev_bind (conv m) (\<lambda>x. ev_ret (Some x)))"

definition bars_example :: string where
  "bars_example = ''e.g. bars('' @ quoted ''alpaca-paper|AAPL'' @ '', '' @ quoted ''1d'' @ '', count=250)''"

definition evalBars :: "bar_service \<Rightarrow> bool \<Rightarrow> (string option \<times> V ev) list \<Rightarrow> pos \<Rightarrow> V ev" where
  "evalBars svc withDates args p =
     (let ps = map snd (filter (\<lambda>a. unnamed (fst a)) args); line = fst p in
      if length ps < 2
      then ev_fail (calc_err_at ArityErr ''bars(barId, interval, ...) needs a barId and an interval'' p (Some bars_example))
      else ev_bind (ev_str ''bars'' 1 line (ps ! 0)) (\<lambda>barId.
        ev_bind (ev_str ''bars'' 2 line (ps ! 1)) (\<lambda>interval.
        ev_bind (keyword args ''count'' (ev_num ''count'' line)) (\<lambda>count.
        ev_bind (keyword args ''asOf'' (ev_str ''asOf'' 1 line)) (\<lambda>asOf.
        ev_bind (keyword args ''start'' (ev_str ''start'' 1 line)) (\<lambda>start.
        ev_bind (keyword args ''end'' (ev_str ''end'' 1 line)) (\<lambda>endd.
        ev_bind (keyword args ''asset'' (ev_str ''asset'' 1 line)) (\<lambda>asset.
        ev_bind (fetchBars svc withDates barId
          \<lparr>bo_interval = interval, bo_count = count, bo_start = start, bo_end = endd, bo_asOf = asOf\<rparr> asset) (\<lambda>res.
        case res of
          Inl detail \<Rightarrow> ev_fail (calc_err_at DataSource (''bars('' @ quoted barId @ '') failed: '' @ detail) p (Some (barFetchSuggestion detail)))
        | Inr r \<Rightarrow> if br_bars r = []
            then ev_fail (calc_err_at InsufficientBars (''bars('' @ quoted barId @ '', '' @ quoted interval @ '') returned no data'') p None)
            else ev_ret (VSeries barId r))))))))))"

section \<open>Expressions\<close>

definition column_of :: "string \<Rightarrow> ohlcv_bar \<Rightarrow> dec" where
  "column_of name b = (if name = ''open'' then ob_open b else if name = ''high'' then ob_high b else if name = ''low'' then ob_low b
     else if name = ''close'' then ob_close b else case ob_volume b of None \<Rightarrow> Fin 0 | Some v \<Rightarrow> v)"

definition eval_name :: "(string, V) jsmap \<Rightarrow> string \<Rightarrow> pos \<Rightarrow> V run" where
  "eval_name env x p = (case jm_get env x of Some v \<Rightarrow> ret v
     | None \<Rightarrow> fail (calc_err_at UndeclaredName (quoted x @ '' is not defined. Declared: ['' @
         (if join '', '' (map fst env) = [] then ''none'' else join '', '' (map fst env)) @ '']'') p (suggest (didYouMean x (map fst env)))))"

fun op_text :: "binop \<Rightarrow> string" where
  "op_text Add = ''+''" | "op_text Sub = ''-''" | "op_text Mul = ''*''" | "op_text Div = ''/''"

fun apply_op :: "binop \<Rightarrow> dec \<Rightarrow> dec \<Rightarrow> nat \<Rightarrow> dec run" where
  "apply_op Add l r _ = ret (n_plus l r)"
| "apply_op Sub l r _ = ret (n_minus l r)"
| "apply_op Mul l r _ = ret (n_times l r)"
| "apply_op Div l r line = (if d_isZero r then fail (type_err ''Division by zero'' line) else ret (n_div l r))"

definition eval_attr :: "V \<Rightarrow> string \<Rightarrow> pos \<Rightarrow> V run" where
  "eval_attr obj name p = (case obj of
       VSeries _ r \<Rightarrow> if name \<in> set series_columns then ret (VCol (map (column_of name) (br_bars r)) (br_meta r))
         else fail (calc_err_at ReflexErr (''Unknown series column '' @ quoted (''.'' @ name)) p
           (Some (''columns are: '' @ join '', '' series_columns)))
     | _ \<Rightarrow> fail (calc_err_at TypeErr (quoted (''.'' @ name) @ '' is only valid on a bars(...) series'') p
         (if name = ''iloc'' then Some ''use [-1] for the latest value'' else None)))"

definition is_integer :: "dec \<Rightarrow> bool" where
  "is_integer d = (case d of Fin r \<Rightarrow> snd (quotient_of r) = 1 | _ \<Rightarrow> False)"

definition scalar_hint :: string where
  "scalar_hint = ''Indicators (sma/ema/rsi/'' @ [CHR 0xE2, CHR 0x80, CHR 0xA6] @ '') already return the latest value '' @ em_dash @
     '' drop the [-1]. Only raw columns like s.close are series.''"

definition eval_index :: "V \<Rightarrow> dec \<Rightarrow> pos \<Rightarrow> V run" where
  "eval_index obj idx p =
     (if \<not> is_integer idx then fail (type_err ''Index must be an integer'' (fst p))
      else case obj of
        VCol arr _ \<Rightarrow>
          (let i = (if d_lt idx (Fin 0) then n_plus (n_len arr) idx else idx) in
           if d_lt i (Fin 0) \<or> d_gte i (n_len arr)
           then fail (calc_err InsufficientBars (''Index '' @ num_str idx @ '' out of range '' @ em_dash @ '' the series has '' @
             nat_str (length arr) @ '' bars'') (Some (fst p)) None None)
           else ret (VNum (elem_at arr i)))
      | VNum _ \<Rightarrow> fail (calc_err_at ReflexErr ''Cannot index a scalar'' p (Some scalar_hint))
      | _ \<Rightarrow> fail (calc_err_at TypeErr ''Indexing is only valid on a series column (e.g. s.close[-1])'' p None))"

definition panel_size :: "nat \<Rightarrow> nat \<Rightarrow> unit run" where
  "panel_size n line = (if MAX_PANEL < n
     then fail (type_err (''A panel takes at most '' @ nat_str MAX_PANEL @ '' entries, got '' @ nat_str n) line) else ret ())"

text \<open>\<open>map[key] = v\<close>, entry by entry.\<close>

definition dict_of :: "(string \<times> calc_value) list \<Rightarrow> (string \<times> calc_value) list" where
  "dict_of ents = fold (\<lambda>(k, v). jm_set k v) ents []"

lemma size_arg [termination_simp]: "(n, e) \<in> set args \<Longrightarrow> size (e :: 'p expr_at) < Suc (size_list (size_prod (\<lambda>_. 0) size) args)"
  by (induction args) auto

fun evalExpr :: "bar_service \<Rightarrow> bool \<Rightarrow> (string, V) jsmap \<Rightarrow> expr \<Rightarrow> V ev" where
  "evalExpr svc wd env (NumLit v p) = ev_ret (VNum v)"
| "evalExpr svc wd env (StrLit s p) = ev_ret (VStr s)"
| "evalExpr svc wd env (NameRef x p) = ev_lift (eval_name env x p)"
| "evalExpr svc wd env (UnaryExpr e p) = ev_bind (ev_num ''-'' (fst p) (evalExpr svc wd env e)) (\<lambda>d. ev_ret (VNum (d_neg d)))"
| "evalExpr svc wd env (BinaryExpr op a b p) =
     ev_bind (ev_num (op_text op) (fst p) (evalExpr svc wd env a)) (\<lambda>l.
     ev_bind (ev_num (op_text op) (fst p) (evalExpr svc wd env b)) (\<lambda>r. ev_lift (num_result (apply_op op l r (fst p)))))"
| "evalExpr svc wd env (AttrExpr e n p) = ev_bind (evalExpr svc wd env e) (\<lambda>obj. ev_lift (eval_attr obj n p))"
| "evalExpr svc wd env (IndexExpr e i p) =
     ev_bind (evalExpr svc wd env e) (\<lambda>obj.
     ev_bind (ev_num ''[]'' (fst p) (evalExpr svc wd env i)) (\<lambda>idx. ev_lift (eval_index obj idx p)))"
| "evalExpr svc wd env (CallExpr f args p) =
     (let evs = map (\<lambda>(n, e). (n, evalExpr svc wd env e)) args in
      if f = ''bars'' then evalBars svc wd evs p else evalFunction f evs p)"
| "evalExpr svc wd env (ListLit es p) =
     ev_bind (ev_lift (panel_size (length es) (fst p))) (\<lambda>_.
     ev_bind (ev_seq (map (\<lambda>e. ev_bind (evalExpr svc wd env e) (\<lambda>v. ev_lift (asLeaf v (fst (expr_pos e))))) es)) (\<lambda>vs.
       ev_ret (VList vs)))"
| "evalExpr svc wd env (DictLit ents p) =
     ev_bind (ev_lift (panel_size (length ents) (fst p))) (\<lambda>_.
     ev_bind (ev_seq (map (\<lambda>(k, e). ev_bind (evalExpr svc wd env e) (\<lambda>v.
         ev_bind (ev_lift (asLeaf v (fst (expr_pos e)))) (\<lambda>leaf. ev_ret (k, leaf)))) ents)) (\<lambda>kvs.
       ev_ret (VDict (dict_of kvs))))"

section \<open>Programs\<close>

fun run_bindings :: "bar_service \<Rightarrow> bool \<Rightarrow> (string, V) jsmap \<Rightarrow> assign list \<Rightarrow> (string, V) jsmap ev" where
  "run_bindings svc wd env [] = ev_ret env"
| "run_bindings svc wd env (b # bs) =
     ev_bind (evalExpr svc wd env (as_value b)) (\<lambda>v. run_bindings svc wd (jm_set (as_name b) v env) bs)"

record calc_output =
  co_value :: calc_value
  co_range :: "(string, bar_meta) jsmap"
  co_dates :: "(string, string list) jsmap option"

definition result_value :: "V \<Rightarrow> nat \<Rightarrow> calc_value run" where
  "result_value out line = (let bad = (\<lambda>what. fail (type_err (''The result is '' @ what @ '', not a value '' @ em_dash @
       '' reduce it with [-1] or an indicator (e.g. sma(s.close, 50)), or return a panel like { '' @ quoted ''1h'' @
       '': rsi(s.close, 14) }'') line)) in
     case out of VSeries _ _ \<Rightarrow> bad ''a series'' | VCol _ _ \<Rightarrow> bad ''a series column'' | _ \<Rightarrow> asLeaf out line)"

definition evaluate :: "program \<Rightarrow> bar_service \<Rightarrow> bool \<Rightarrow> calc_output run" where
  "evaluate p svc wd =
     bindR (ev_bind (run_bindings svc wd [] (pg_bindings p)) (\<lambda>env. evalExpr svc wd env (pg_result p)) empty_prov) (\<lambda>(out, pv).
     bindR (result_value out (fst (expr_pos (pg_result p)))) (\<lambda>v.
       ret \<lparr>co_value = v, co_range = pv_range pv, co_dates = (if wd then Some (pv_dates pv) else None)\<rparr>))"

section \<open>The entry\<close>

text \<open>\<open>Number(v.toFixed(precision))\<close>: of the two closest the one away from zero; from \<open>10^21\<close> on, the number itself.\<close>

definition to_fixed_num :: "nat \<Rightarrow> rat \<Rightarrow> dec" where
  "to_fixed_num k r = (if 10 ^ 21 \<le> \<bar>r\<bar> then Fin r else fl (sgn r * of_int (half_up (\<bar>r\<bar> * 10 ^ k)) / 10 ^ k))"

fun round_value :: "nat \<Rightarrow> calc_value \<Rightarrow> calc_value" where
  "round_value k (CvNum d) = CvNum (case d of Fin r \<Rightarrow> to_fixed_num k r | _ \<Rightarrow> d)"
| "round_value k (CvStr s) = CvStr s"
| "round_value k (CvList vs) = CvList (map (round_value k) vs)"
| "round_value k (CvObj m) = CvObj (map (\<lambda>(x, v). (x, round_value k v)) m)"

record run_result =
  rr_value :: "calc_value option"
  rr_range :: "(string, bar_meta) jsmap option"
  rr_dates :: "(string, string list) jsmap option"
  rr_error :: "diagnostic option"

text \<open>Only the calculator's own errors become a diagnostic.  The precision is at most 10 (\<open>tool/quant.ts\<close>).\<close>

definition runScript :: "string \<Rightarrow> bar_service \<Rightarrow> nat \<Rightarrow> bool \<Rightarrow> run_result run" where
  "runScript script svc precision wd =
     (case bindR (parse script) (\<lambda>p. evaluate p svc wd) of
        None \<Rightarrow> None
      | Some (Inl (CalcError d)) \<Rightarrow> ret \<lparr>rr_value = None, rr_range = None, rr_dates = None, rr_error = Some d\<rparr>
      | Some (Inl e) \<Rightarrow> fail e
      | Some (Inr out) \<Rightarrow> ret \<lparr>rr_value = Some (round_value precision (co_value out)), rr_range = Some (co_range out),
          rr_dates = co_dates out, rr_error = None\<rparr>)"


text \<open>A service with one bar.\<close>

definition sample_service :: bar_service where
  "sample_service n ref opts = Inr \<lparr>br_bars = [\<lparr>ob_date = ''2026-01-02'', ob_open = Fin 1, ob_high = Fin 3, ob_low = Fin 1,
       ob_close = Fin 2, ob_volume = None\<rparr>],
     br_meta = \<lparr>bm_symbol = ''B'', bm_from = ''2026-01-02'', bm_to = ''2026-01-02'', bm_bars = 1, bm_source = None, bm_sourceId = Some ''a'',
       bm_barId = Some ''a|B'', bm_interval = None, bm_provider = None, bm_barCapability = None\<rparr>\<rparr>"

end
