(* ===== verification/Calc_Types.thy ===== *)
theory Calc_Types
  imports Calc_Eval
begin

text \<open>
  A static typing of scripts and its promise: a script that has a type is never reported as wrong.
\<close>

section \<open>Types\<close>

datatype ty = TyNum | TyStr | TyCol | TySeries | TyRec | TyList | TyDict

text \<open>A series and its columns are not empty.\<close>

fun has_type :: "V \<Rightarrow> ty \<Rightarrow> bool" where
  "has_type (VNum _) t = (t = TyNum)"
| "has_type (VStr _) t = (t = TyStr)"
| "has_type (VCol v _) t = (t = TyCol \<and> v \<noteq> [])"
| "has_type (VSeries _ r) t = (t = TySeries \<and> br_bars r \<noteq> [])"
| "has_type (VRec _) t = (t = TyRec)"
| "has_type (VList _) t = (t = TyList)"
| "has_type (VDict _) t = (t = TyDict)"

definition leaf :: "ty option \<Rightarrow> bool" where
  "leaf t \<longleftrightarrow> t \<notin> {None, Some TyCol, Some TySeries}"

text \<open>Required arguments, optional ones, the result.\<close>

definition signatures :: "(string \<times> ty list \<times> ty list \<times> ty) list" where
  "signatures =
     map (\<lambda>f. (f, [TyCol], [], TyNum)) [''stdev'', ''max'', ''min'', ''sum'', ''average'', ''median''] @
     map (\<lambda>f. (f, [TyCol, TyNum], [], TyNum)) [''sma'', ''ema'', ''roc'', ''slope'', ''highest'', ''lowest''] @
     map (\<lambda>f. (f, [TyCol], [TyNum], TyNum)) [''rsi'', ''rvol'', ''zscore''] @
     map (\<lambda>f. (f, [TyCol, TyCol], [], TyNum)) [''obv'', ''correlation''] @
     [(''bbands'', [TyCol, TyNum], [TyNum], TyRec), (''macd'', [TyCol, TyNum, TyNum, TyNum], [], TyRec),
      (''atr'', [TyCol, TyCol, TyCol, TyNum], [], TyNum), (''mfi'', [TyCol, TyCol, TyCol, TyCol], [TyNum], TyNum),
      (''vwap'', [TyCol, TyCol, TyCol, TyCol], [], TyNum)]"

definition fits :: "ty list \<Rightarrow> ty list \<Rightarrow> ty list \<Rightarrow> bool" where
  "fits req opt ts \<longleftrightarrow> length req \<le> length ts \<and> length ts \<le> length (req @ opt) \<and> ts = take (length ts) (req @ opt)"

definition infer_function :: "string \<Rightarrow> (string option \<times> ty option) list \<Rightarrow> ty option" where
  "infer_function f ts = (case map_of signatures f of None \<Rightarrow> None
     | Some (req, opt, res) \<Rightarrow>
         if list_all (\<lambda>a. unnamed (fst a) \<and> snd a \<noteq> None) ts \<and> fits req opt (map (the \<circ> snd) ts) then Some res else None)"

definition infer_bars :: "(string option \<times> ty option) list \<Rightarrow> ty option" where
  "infer_bars ts = (let ps = map snd (filter (\<lambda>a. unnamed (fst a)) ts);
       fine = (\<lambda>k t. case map_of (rev ts) (Some k) of None \<Rightarrow> True | Some t' \<Rightarrow> t' = Some t) in
     if 2 \<le> length ps \<and> ps ! 0 = Some TyStr \<and> ps ! 1 = Some TyStr \<and> fine ''count'' TyNum \<and> fine ''asOf'' TyStr \<and>
       fine ''start'' TyStr \<and> fine ''end'' TyStr \<and> fine ''asset'' TyStr
     then Some TySeries else None)"

fun infer :: "(string, ty) jsmap \<Rightarrow> expr \<Rightarrow> ty option" where
  "infer \<Gamma> (NumLit v p) = Some TyNum"
| "infer \<Gamma> (StrLit s p) = Some TyStr"
| "infer \<Gamma> (NameRef x p) = jm_get \<Gamma> x"
| "infer \<Gamma> (UnaryExpr e p) = (if infer \<Gamma> e = Some TyNum then Some TyNum else None)"
| "infer \<Gamma> (BinaryExpr op a b p) = (if infer \<Gamma> a = Some TyNum \<and> infer \<Gamma> b = Some TyNum then Some TyNum else None)"
| "infer \<Gamma> (AttrExpr e n p) = (if infer \<Gamma> e = Some TySeries \<and> n \<in> set series_columns then Some TyCol else None)"
| "infer \<Gamma> (IndexExpr e i p) = (if infer \<Gamma> e = Some TyCol \<and> infer \<Gamma> i = Some TyNum then Some TyNum else None)"
| "infer \<Gamma> (CallExpr f args p) = (let ts = map (\<lambda>(n, e). (n, infer \<Gamma> e)) args in
     if f = ''bars'' then infer_bars ts else infer_function f ts)"
| "infer \<Gamma> (ListLit es p) = (if length es \<le> MAX_PANEL \<and> list_all leaf (map (infer \<Gamma>) es) then Some TyList else None)"
| "infer \<Gamma> (DictLit ents p) = (if length ents \<le> MAX_PANEL \<and> list_all leaf (map (\<lambda>(k, e). infer \<Gamma> e) ents) then Some TyDict else None)"

fun infer_bindings :: "(string, ty) jsmap \<Rightarrow> assign list \<Rightarrow> (string, ty) jsmap option" where
  "infer_bindings \<Gamma> [] = Some \<Gamma>"
| "infer_bindings \<Gamma> (b # bs) = (case infer \<Gamma> (as_value b) of None \<Rightarrow> None | Some t \<Rightarrow> infer_bindings (jm_set (as_name b) t \<Gamma>) bs)"

definition program_type :: "program \<Rightarrow> ty option" where
  "program_type p = (case infer_bindings [] (pg_bindings p) of None \<Rightarrow> None
     | Some \<Gamma> \<Rightarrow> if leaf (infer \<Gamma> (pg_result p)) then infer \<Gamma> (pg_result p) else None)"

fun value_type :: "calc_value \<Rightarrow> ty \<Rightarrow> bool" where
  "value_type (CvNum _) t = (t = TyNum)"
| "value_type (CvStr _) t = (t = TyStr)"
| "value_type (CvList _) t = (t = TyList)"
| "value_type (CvObj _) t = (t = TyRec \<or> t = TyDict)"

section \<open>What may still go wrong\<close>

text \<open>The data: a failed fetch, too few bars, a zero divisor, a fractional index; an indicator's own complaint.\<close>

fun runtime_error :: "calc_error \<Rightarrow> bool" where
  "runtime_error (PlainErr _) = True"
| "runtime_error (CalcError d) = (dg_kind d \<in> {DataSource, InsufficientBars} \<or>
     dg_kind d = TypeErr \<and> dg_message d \<in> {''Division by zero'', ''Index must be an integer''})"

abbreviation good :: "('a \<Rightarrow> bool) \<Rightarrow> 'a run \<Rightarrow> bool" where
  "good \<equiv> run_ok runtime_error"

definition ev_good :: "('a \<Rightarrow> bool) \<Rightarrow> 'a ev \<Rightarrow> bool" where
  "ev_good P m \<longleftrightarrow> (\<forall>pv. good (\<lambda>x. P (fst x)) (m pv))"

lemma ev_good_lift: "good P m \<Longrightarrow> ev_good P (ev_lift m)"
  unfolding ev_good_def ev_lift_def by (auto intro: run_ok_bind)

lemma ev_good_ret: "P a \<Longrightarrow> ev_good P (ev_ret a)"
  unfolding ev_ret_def by (rule ev_good_lift) simp

lemma ev_good_bind: "ev_good R m \<Longrightarrow> (\<And>a. R a \<Longrightarrow> ev_good P (f a)) \<Longrightarrow> ev_good P (ev_bind m f)"
  unfolding ev_good_def ev_bind_def by (auto intro!: run_ok_bind)

lemma ev_good_seq: "(\<And>m. m \<in> set ms \<Longrightarrow> ev_good P m) \<Longrightarrow> ev_good (list_all P) (ev_seq ms)"
  by (induction ms) (auto intro!: ev_good_bind ev_good_ret)

lemma ev_good_seq2: "list_all2 ev_good Ps ms \<Longrightarrow> ev_good (\<lambda>vs. list_all2 (\<lambda>P v. P v) Ps vs) (ev_seq ms)"
  by (induction Ps ms rule: list_all2_induct) (auto intro!: ev_good_bind ev_good_ret)

section \<open>The indicators raise only plain errors\<close>

abbreviation plain :: "'a run \<Rightarrow> bool" where
  "plain \<equiv> good (\<lambda>_. True)"

lemma plain_loop: "(\<And>i s. plain (f i s)) \<Longrightarrow> plain (num_loop c f i s)"
  by (rule num_loop_ok) simp_all

lemma plain_bind: "plain m \<Longrightarrow> (\<And>a. plain (f a)) \<Longrightarrow> plain (bindR m f)"
  by (rule run_ok_bind)

lemma indicators_plain:
  "plain (SMA c p)" "plain (EMA c p)" "plain (STDEV c)" "plain (js_MAX c)" "plain (js_MIN c)" "plain (js_SUM c)" "plain (AVERAGE c)"
  "plain (MEDIAN c)" "plain (ROC c p)" "plain (ZSCORE c q)" "plain (SLOPE c p)" "plain (CORRELATION c d)" "plain (HIGHEST c p)"
  "plain (LOWEST c p)" "plain (RSI c p)" "plain (BBANDS c p s)" "plain (ATR c d e p)" "plain (RVOL c p)" "plain (OBV c d)"
  "plain (MFI c d e h p)" "plain (VWAP c d e h)"
  by (simp_all add: SMA_def EMA_def STDEV_def js_MAX_def js_MIN_def js_SUM_def AVERAGE_def MEDIAN_def ROC_def ZSCORE_def SLOPE_def
      CORRELATION_def HIGHEST_def LOWEST_def RSI_def BBANDS_def ATR_def RVOL_def OBV_def MFI_def VWAP_def needs_def needs_one_def Let_def
      ema_step_def rsi_step_def mfi_step_def plain_loop plain_bind split: prod.splits)

lemma macd_plain: "plain (MACD c p q r)"
  by (auto simp: MACD_def needs_def macd_step_def Let_def intro!: plain_bind plain_loop indicators_plain)


section \<open>Functions of their signature\<close>

lemma has_type_inv:
  "has_type v TyNum \<longleftrightarrow> (\<exists>d. v = VNum d)" "has_type v TyStr \<longleftrightarrow> (\<exists>s. v = VStr s)"
  "has_type v TyCol \<longleftrightarrow> (\<exists>c m. v = VCol c m \<and> c \<noteq> [])" "has_type v TySeries \<longleftrightarrow> (\<exists>b r. v = VSeries b r \<and> br_bars r \<noteq> [])"
  by (cases v; auto)+

lemma fits_simps [simp]: "fits req [] ts \<longleftrightarrow> ts = req" "fits req [t] ts \<longleftrightarrow> ts = req \<or> ts = req @ [t]"
proof -
  show "fits req [] ts \<longleftrightarrow> ts = req" by (auto simp: fits_def)
  have "length ts = length req \<or> length ts = Suc (length req)" if "length req \<le> length ts" "length ts \<le> Suc (length req)"
    using that by linarith
  then show "fits req [t] ts \<longleftrightarrow> ts = req \<or> ts = req @ [t]" by (auto simp: fits_def)
qed

lemma needBars_good: "plain (needBars c p f l)"
  by (simp add: needBars_def calc_err_def)

lemma num_result_good: "plain m \<Longrightarrow> good (\<lambda>v. \<exists>d. v = VNum d) (num_result m)"
  unfolding num_result_def by (rule run_ok_bind) simp_all

lemmas argument_simps = col_arg_def num_arg_def num_arg_or_def arity_def has_type_inv list_all2_Cons2 UTA_Prelude.elem_at_def

definition sound :: "string \<times> builtin \<Rightarrow> bool" where
  "sound fs \<longleftrightarrow> (case map_of signatures (fst fs) of None \<Rightarrow> False | Some (req, opt, res) \<Rightarrow>
     \<forall>ts vs f l. fits req opt ts \<longrightarrow> list_all2 has_type vs ts \<longrightarrow> good (\<lambda>v. has_type v res) (snd fs f vs l))"

lemma soundI:
  assumes "map_of signatures n = Some (req, opt, res)"
    and "\<And>ts vs f l. fits req opt ts \<Longrightarrow> list_all2 has_type vs ts \<Longrightarrow> good (\<lambda>v. has_type v res) (spec f vs l)"
  shows "sound (n, spec)"
  using assms by (simp add: sound_def)

lemma column_sound: "map_of signatures n = Some ([TyCol], [], TyNum) \<Longrightarrow> (\<And>c. plain (g c)) \<Longrightarrow> sound (n, column_fn g)"
  by (rule soundI) (auto simp: column_fn_def argument_simps intro!: num_result_good)

lemma period_sound:
  "map_of signatures n = Some ([TyCol, TyNum], [], TyNum) \<Longrightarrow> (\<And>c p. plain (g c p)) \<Longrightarrow> sound (n, period_fn need g)"
  by (rule soundI) (auto simp: period_fn_def argument_simps intro!: num_result_good run_ok_bind [OF needBars_good])

lemma default_sound:
  "map_of signatures n = Some ([TyCol], [TyNum], TyNum) \<Longrightarrow> (\<And>c p. plain (g c p)) \<Longrightarrow> sound (n, default_fn d g)"
  by (rule soundI) (auto simp: default_fn_def argument_simps intro!: num_result_good run_ok_bind [OF needBars_good])

lemma columns_sound:
  "map_of signatures n = Some ([TyCol, TyCol], [], TyNum) \<Longrightarrow> (\<And>c d. plain (g c d)) \<Longrightarrow> sound (n, columns_fn g)"
  by (rule soundI) (auto simp: columns_fn_def argument_simps intro!: num_result_good)

lemma zscore_sound: "sound (''zscore'', zscore_fn)"
  by (rule soundI [where req = "[TyCol]" and opt = "[TyNum]" and res = TyNum])
     (auto simp: signatures_def zscore_fn_def argument_simps intro!: num_result_good indicators_plain run_ok_bind [OF needBars_good])

lemma bbands_sound: "sound (''bbands'', bbands_fn)"
  by (rule soundI [where req = "[TyCol, TyNum]" and opt = "[TyNum]" and res = TyRec])
     (auto simp: signatures_def bbands_fn_def argument_simps intro!: run_ok_bind [OF indicators_plain(16)] run_ok_bind [OF needBars_good])

lemma macd_sound: "sound (''macd'', macd_fn)"
  by (rule soundI [where req = "[TyCol, TyNum, TyNum, TyNum]" and opt = "[]" and res = TyRec])
     (auto simp: signatures_def macd_fn_def argument_simps intro!: run_ok_bind [OF macd_plain] run_ok_bind [OF needBars_good])

lemma atr_sound: "sound (''atr'', atr_fn)"
  by (rule soundI [where req = "[TyCol, TyCol, TyCol, TyNum]" and opt = "[]" and res = TyNum])
     (auto simp: signatures_def atr_fn_def argument_simps intro!: num_result_good indicators_plain run_ok_bind [OF needBars_good])

lemma mfi_sound: "sound (''mfi'', mfi_fn)"
  by (rule soundI [where req = "[TyCol, TyCol, TyCol, TyCol]" and opt = "[TyNum]" and res = TyNum])
     (auto simp: signatures_def mfi_fn_def argument_simps intro!: num_result_good indicators_plain run_ok_bind [OF needBars_good])

lemma vwap_sound: "sound (''vwap'', vwap_fn)"
  by (rule soundI [where req = "[TyCol, TyCol, TyCol, TyCol]" and opt = "[]" and res = TyNum])
     (auto simp: signatures_def vwap_fn_def argument_simps intro!: num_result_good indicators_plain)

lemma functions_sound: "\<forall>fs \<in> set FUNCTIONS. sound fs"
  unfolding FUNCTIONS_def list.set ball_simps
  by (intro conjI TrueI column_sound period_sound default_sound columns_sound zscore_sound bbands_sound macd_sound atr_sound mfi_sound
      vwap_sound indicators_plain) (simp_all add: signatures_def)

lemma signature_known: "map_of signatures f = Some sg \<Longrightarrow> \<exists>spec. map_of FUNCTIONS f = Some spec"
  by (auto simp: signatures_def FUNCTIONS_def split: if_splits)


section \<open>Expressions of their type\<close>

lemma ev_num_good: "ev_good (\<lambda>v. has_type v TyNum) m \<Longrightarrow> ev_good (\<lambda>_. True) (ev_num ctx l m)"
  unfolding ev_num_def by (erule ev_good_bind) (auto simp: has_type_inv asNum_def intro!: ev_good_lift)

lemma ev_str_good: "ev_good (\<lambda>v. has_type v TyStr) m \<Longrightarrow> ev_good (\<lambda>_. True) (ev_str f i l m)"
  unfolding ev_str_def by (erule ev_good_bind) (auto simp: has_type_inv asStr_def intro!: ev_good_lift)

lemma fetchBars_good: "ev_good (\<lambda>_. True) (fetchBars svc wd b opts a)"
  by (simp add: ev_good_def fetchBars_def Let_def split: sum.split)

lemma keyword_good:
  assumes "\<And>m. map_of (rev args) (Some k) = Some m \<Longrightarrow> ev_good (\<lambda>_. True) (conv m)"
  shows "ev_good (\<lambda>_. True) (keyword args k conv)"
  using assms by (auto simp: keyword_def split: option.splits intro!: ev_good_ret ev_good_bind)

text \<open>The arguments of a call, as evaluations and as types.\<close>

definition typed_args :: "(string option \<times> expr) list \<Rightarrow> (expr \<Rightarrow> V ev) \<Rightarrow> (expr \<Rightarrow> ty option) \<Rightarrow> bool" where
  "typed_args args m g \<longleftrightarrow> (\<forall>(n, e) \<in> set args. \<forall>t. g e = Some t \<longrightarrow> ev_good (\<lambda>v. has_type v t) (m e))"

lemma typed_argsD: "typed_args args m g \<Longrightarrow> (n, e) \<in> set args \<Longrightarrow> g e = Some t \<Longrightarrow> ev_good (\<lambda>v. has_type v t) (m e)"
  by (auto simp: typed_args_def)

lemma positional_map: "map snd (filter (\<lambda>a. unnamed (fst a)) (map (\<lambda>(n, e). (n, h e)) args)) =
    map (\<lambda>a. h (snd a)) (filter (\<lambda>a. unnamed (fst a)) args)"
  by (induction args) auto

lemma positional_good:
  assumes "typed_args args m g" "i < length (filter (\<lambda>a. unnamed (fst a)) args)"
    and "map (\<lambda>a. g (snd a)) (filter (\<lambda>a. unnamed (fst a)) args) ! i = Some t"
  shows "ev_good (\<lambda>v. has_type v t) (map (\<lambda>a. m (snd a)) (filter (\<lambda>a. unnamed (fst a)) args) ! i)"
proof -
  have "filter (\<lambda>a. unnamed (fst a)) args ! i \<in> set args" using nth_mem [OF assms(2)] by simp
  then show ?thesis using assms typed_argsD [OF assms(1)] by (metis nth_map prod.collapse)
qed

lemma keyword_map: "map_of (rev (map (\<lambda>(n, e). (n, h e)) args)) k = map_option h (map_of (rev args) k)"
  by (simp add: rev_map map_of_map)

lemma named_good:
  assumes "typed_args args m g" "case map_of (rev (map (\<lambda>(n, e). (n, g e)) args)) (Some k) of None \<Rightarrow> True | Some t' \<Rightarrow> t' = Some t"
    and "map_of (rev (map (\<lambda>(n, e). (n, m e)) args)) (Some k) = Some mk"
  shows "ev_good (\<lambda>v. has_type v t) mk"
proof -
  obtain e where e: "map_of (rev args) (Some k) = Some e" "mk = m e" using assms(3) by (auto simp: keyword_map)
  then have "(Some k, e) \<in> set args" by (auto dest: map_of_SomeD)
  then show ?thesis using typed_argsD [OF assms(1)] assms(2) e by (auto simp: keyword_map)
qed

lemma bars_good:
  assumes typed: "typed_args args m g" and t: "infer_bars (map (\<lambda>(n, e). (n, g e)) args) = Some t"
  shows "ev_good (\<lambda>v. has_type v t) (evalBars svc wd (map (\<lambda>(n, e). (n, m e)) args) p)"
proof -
  let ?ps = "filter (\<lambda>a. unnamed (fst a)) args"
  have ps: "2 \<le> length ?ps" "map (\<lambda>a. g (snd a)) ?ps ! 0 = Some TyStr" "map (\<lambda>a. g (snd a)) ?ps ! 1 = Some TyStr" and t': "t = TySeries"
    and kw: "case map_of (rev (map (\<lambda>(n, e). (n, g e)) args)) (Some ''count'') of None \<Rightarrow> True | Some t' \<Rightarrow> t' = Some TyNum"
      "case map_of (rev (map (\<lambda>(n, e). (n, g e)) args)) (Some ''asOf'') of None \<Rightarrow> True | Some t' \<Rightarrow> t' = Some TyStr"
      "case map_of (rev (map (\<lambda>(n, e). (n, g e)) args)) (Some ''start'') of None \<Rightarrow> True | Some t' \<Rightarrow> t' = Some TyStr"
      "case map_of (rev (map (\<lambda>(n, e). (n, g e)) args)) (Some ''end'') of None \<Rightarrow> True | Some t' \<Rightarrow> t' = Some TyStr"
      "case map_of (rev (map (\<lambda>(n, e). (n, g e)) args)) (Some ''asset'') of None \<Rightarrow> True | Some t' \<Rightarrow> t' = Some TyStr"
    using t unfolding infer_bars_def Let_def positional_map by (simp_all split: if_splits)
  have two: "0 < length ?ps" "1 < length ?ps" using ps(1) by linarith+
  note pos = ev_str_good [OF positional_good [OF typed two(1) ps(2)]] ev_str_good [OF positional_good [OF typed two(2) ps(3)]]
  have num: "ev_good (\<lambda>_. True) (keyword (map (\<lambda>(n, e). (n, m e)) args) ''count'' (ev_num c l))" for c l
    by (rule keyword_good, rule ev_num_good, rule named_good [OF typed kw(1)])
  have str: "ev_good (\<lambda>_. True) (keyword (map (\<lambda>(n, e). (n, m e)) args) k (ev_str f i l))"
    if "case map_of (rev (map (\<lambda>(n, e). (n, g e)) args)) (Some k) of None \<Rightarrow> True | Some t' \<Rightarrow> t' = Some TyStr" for k f i l
    by (rule keyword_good, rule ev_str_good, rule named_good [OF typed that])
  show ?thesis
    unfolding evalBars_def Let_def positional_map t' using ps(1)
    by (auto simp: ev_fail_def calc_err_at_def calc_err_def One_nat_def [symmetric] simp del: nth_map One_nat_def split: sum.split
        intro!: ev_good_bind [OF pos(1)] ev_good_bind [OF pos(2)] ev_good_bind [OF num] ev_good_bind [OF str [OF kw(2)]]
          ev_good_bind [OF str [OF kw(3)]] ev_good_bind [OF str [OF kw(4)]] ev_good_bind [OF str [OF kw(5)]] ev_good_bind [OF fetchBars_good]
          ev_good_lift ev_good_ret)
qed

lemma function_good:
  assumes typed: "typed_args args m g" and t: "infer_function f (map (\<lambda>(n, e). (n, g e)) args) = Some t"
  shows "ev_good (\<lambda>v. has_type v t) (evalFunction f (map (\<lambda>(n, e). (n, m e)) args) p)"
proof -
  obtain req opt where sg: "map_of signatures f = Some (req, opt, t)"
      "list_all (\<lambda>a. unnamed (fst a) \<and> g (snd a) \<noteq> None) args" "fits req opt (map (\<lambda>a. the (g (snd a))) args)"
    using t by (auto simp: infer_function_def list_all_iff comp_def case_prod_unfold split: option.splits if_splits)
  obtain spec where spec: "map_of FUNCTIONS f = Some spec" using signature_known [OF sg(1)] by blast
  then have "sound (f, spec)" using functions_sound map_of_SomeD by fastforce
  then have "good (\<lambda>v. has_type v t) (spec f vs (fst p))" if "list_all2 (\<lambda>P v. P v) (map (\<lambda>a v. has_type v (the (g (snd a)))) args) vs" for vs
    using that sg(1,3) by (auto simp: sound_def list_all2_conv_all_nth)
  moreover have "list_all2 ev_good (map (\<lambda>a v. has_type v (the (g (snd a)))) args) (map (\<lambda>a. m (snd a)) args)"
    using sg(2) typed by (fastforce simp: list.rel_map list_all2_same list_all_iff typed_args_def)
  moreover have "\<not> list_ex (\<lambda>a. \<not> unnamed (fst a)) (map (\<lambda>(n, e). (n, m e)) args)"
    using sg(2) by (auto simp: list_all_iff list_ex_iff)
  ultimately show ?thesis
    unfolding evalFunction_def spec option.case by (auto simp: comp_def case_prod_unfold intro!: ev_good_bind [OF ev_good_seq2] ev_good_lift)
qed


section \<open>Scripts of their type\<close>

definition env_typed :: "(string, ty) jsmap \<Rightarrow> (string, V) jsmap \<Rightarrow> bool" where
  "env_typed \<Gamma> env \<longleftrightarrow> (\<forall>x t. jm_get \<Gamma> x = Some t \<longrightarrow> (\<exists>v. jm_get env x = Some v \<and> has_type v t))"

lemma env_typed_set: "env_typed \<Gamma> env \<Longrightarrow> has_type v t \<Longrightarrow> env_typed (jm_set x t \<Gamma>) (jm_set x v env)"
  by (auto simp: env_typed_def jm.lookup_set)

lemma leaf_good: "leaf (Some t) \<Longrightarrow> has_type v t \<Longrightarrow> good (\<lambda>c. value_type c t) (asLeaf v l)"
  by (cases v) (auto simp: leaf_def)

lemma apply_op_good: "plain (apply_op op l r line)"
  by (cases op) (simp_all add: type_err_def calc_err_def)

lemma attr_good: "has_type v TySeries \<Longrightarrow> n \<in> set series_columns \<Longrightarrow> good (\<lambda>v. has_type v TyCol) (eval_attr v n p)"
  by (auto simp: has_type_inv eval_attr_def)

lemma index_good: "has_type v TyCol \<Longrightarrow> good (\<lambda>v. has_type v TyNum) (eval_index v d p)"
  by (auto simp: has_type_inv eval_index_def Let_def type_err_def calc_err_def)

lemma panel_good:
  assumes "n \<le> MAX_PANEL" "\<And>m. m \<in> set ms \<Longrightarrow> ev_good (\<lambda>_. True) m" "\<And>vs. P (h vs)"
  shows "ev_good P (ev_bind (ev_lift (panel_size n l)) (\<lambda>_. ev_bind (ev_seq ms) (\<lambda>vs. ev_ret (h vs))))"
proof -
  have "ev_good (\<lambda>_. True) (ev_lift (panel_size n l))" using assms(1) by (intro ev_good_lift) (simp add: panel_size_def)
  then show ?thesis
    by (rule ev_good_bind) (rule ev_good_bind [OF ev_good_seq [OF assms(2)]], assumption, rule ev_good_ret, rule assms(3))
qed

lemma evalExpr_good:
  assumes "env_typed \<Gamma> env" "infer \<Gamma> e = Some t"
  shows "ev_good (\<lambda>v. has_type v t) (evalExpr svc wd env e)"
  using assms(2)
proof (induction e arbitrary: t)
  case (NumLit v p)
  then show ?case by (auto intro: ev_good_ret)
next
  case (StrLit s p)
  then show ?case by (auto intro: ev_good_ret)
next
  case (NameRef x p)
  then obtain v where "jm_get env x = Some v" "has_type v t" using assms(1) by (auto simp: env_typed_def)
  then show ?case by (auto simp: eval_name_def intro: ev_good_lift)
next
  case (UnaryExpr e p)
  then have "infer \<Gamma> e = Some TyNum" "t = TyNum" by (simp_all split: if_splits)
  then show ?case using UnaryExpr.IH by (auto intro!: ev_good_bind [OF ev_num_good] ev_good_ret)
next
  case (BinaryExpr op a b p)
  then have "infer \<Gamma> a = Some TyNum" "infer \<Gamma> b = Some TyNum" "t = TyNum" by (simp_all split: if_splits)
  then show ?case using BinaryExpr.IH num_result_good [OF apply_op_good]
    by (auto simp: has_type_inv(1) intro!: ev_good_bind [OF ev_num_good] ev_good_lift)
next
  case (AttrExpr e n p)
  then have "infer \<Gamma> e = Some TySeries" "n \<in> set series_columns" "t = TyCol" by (simp_all split: if_splits)
  then show ?case using AttrExpr.IH by (auto intro!: ev_good_bind ev_good_lift attr_good)
next
  case (IndexExpr e i p)
  then have i: "infer \<Gamma> e = Some TyCol" "infer \<Gamma> i = Some TyNum" "t = TyNum" by (simp_all split: if_splits)
  from IndexExpr.IH(1) [OF i(1)] show ?case unfolding evalExpr.simps i(3)
    by (rule ev_good_bind) (rule ev_good_bind [OF ev_num_good [OF IndexExpr.IH(2) [OF i(2)]]], auto intro: ev_good_lift index_good)
next
  case (CallExpr f args p)
  have "typed_args args (evalExpr svc wd env) (infer \<Gamma>)"
    using CallExpr.IH by (fastforce simp: typed_args_def)
  then show ?case using CallExpr.prems bars_good function_good by (auto simp: Let_def split: if_splits)
next
  case (ListLit es p)
  then have es: "length es \<le> MAX_PANEL" "\<And>e. e \<in> set es \<Longrightarrow> leaf (infer \<Gamma> e)" "t = TyList"
    by (auto simp: list_all_iff split: if_splits)
  have "ev_good (\<lambda>_. True) (ev_bind (evalExpr svc wd env e) (\<lambda>v. ev_lift (asLeaf v (fst (expr_pos e)))))" if e: "e \<in> set es" for e
  proof -
    obtain u where "infer \<Gamma> e = Some u" using es(2) [OF e] by (auto simp: leaf_def)
    then show ?thesis using ListLit.IH [OF e] es(2) [OF e]
      by (auto intro!: ev_good_bind ev_good_lift run_ok_mono [OF leaf_good])
  qed
  then show ?case unfolding evalExpr.simps es(3) by (intro panel_good [OF es(1)]) auto
next
  case (DictLit ents p)
  then have es: "length ents \<le> MAX_PANEL" "\<And>k e. (k, e) \<in> set ents \<Longrightarrow> leaf (infer \<Gamma> e)" "t = TyDict"
    by (auto simp: list_all_iff split: if_splits)
  have "ev_good (\<lambda>_. True) (ev_bind (evalExpr svc wd env e) (\<lambda>v. ev_bind (ev_lift (asLeaf v (fst (expr_pos e)))) (\<lambda>leaf. ev_ret (k, leaf))))"
    if ke: "(k, e) \<in> set ents" for k e
  proof -
    obtain u where "infer \<Gamma> e = Some u" using es(2) [OF ke] by (auto simp: leaf_def)
    moreover have "ev_good (\<lambda>v. has_type v u) (evalExpr svc wd env e)" if "infer \<Gamma> e = Some u" for u
      using DictLit.IH [of "(k, e)" e u] ke that by simp
    ultimately show ?thesis using es(2) [OF ke]
      by (auto intro!: ev_good_bind ev_good_lift ev_good_ret run_ok_mono [OF leaf_good])
  qed
  then show ?case unfolding evalExpr.simps es(3) by (intro panel_good [OF es(1)]) auto
qed

lemma run_bindings_good:
  "env_typed \<Gamma> env \<Longrightarrow> infer_bindings \<Gamma> bs = Some \<Gamma>' \<Longrightarrow> ev_good (env_typed \<Gamma>') (run_bindings svc wd env bs)"
proof (induction bs arbitrary: \<Gamma> env)
  case Nil
  then show ?case by (auto intro: ev_good_ret)
next
  case (Cons b bs)
  then obtain t where t: "infer \<Gamma> (as_value b) = Some t" "infer_bindings (jm_set (as_name b) t \<Gamma>) bs = Some \<Gamma>'"
    by (auto split: option.splits)
  show ?case unfolding run_bindings.simps
    by (rule ev_good_bind [OF evalExpr_good [OF Cons.prems(1) t(1)]]) (rule Cons.IH [OF env_typed_set [OF Cons.prems(1)] t(2)])
qed

text \<open>C34: a script that has a type is not a wrong script.  Whatever the bar service answers, evaluating it does not end in an
  undeclared name, an unknown function, a wrong number or type of arguments, a wrong column, an oversized panel or a result that is
  a series: if it ends, it gives a value of the script's type, or an error about the data (a failed fetch, too few bars, a
  division by zero, a fractional index, an indicator's own complaint).\<close>

theorem typed_scripts:
  assumes "program_type p = Some t"
  shows "evaluate p svc wd = None \<or> (\<exists>out. evaluate p svc wd = ret out \<and> value_type (co_value out) t) \<or>
    (\<exists>e. evaluate p svc wd = fail e \<and> runtime_error e)"
proof -
  obtain \<Gamma> where g: "infer_bindings [] (pg_bindings p) = Some \<Gamma>" "infer \<Gamma> (pg_result p) = Some t" "leaf (Some t)"
    using assms by (auto simp: program_type_def split: option.splits if_splits)
  have "env_typed [] []" by (simp add: env_typed_def)
  from run_bindings_good [OF this g(1)]
  have "ev_good (\<lambda>v. has_type v t) (ev_bind (run_bindings svc wd [] (pg_bindings p)) (\<lambda>env. evalExpr svc wd env (pg_result p)))"
    by (rule ev_good_bind) (rule evalExpr_good [OF _ g(2)])
  then have "good (\<lambda>x. has_type (fst x) t)
      (ev_bind (run_bindings svc wd [] (pg_bindings p)) (\<lambda>env. evalExpr svc wd env (pg_result p)) empty_prov)" by (simp add: ev_good_def)
  then have "good (\<lambda>out. value_type (co_value out) t) (evaluate p svc wd)"
    unfolding evaluate_def
  proof (rule run_ok_bind)
    fix x :: "V \<times> prov"
    assume x: "has_type (fst x) t"
    have "result_value (fst x) l = asLeaf (fst x) l" for l
      using x g(3) by (cases "fst x") (auto simp: result_value_def leaf_def)
    then show "good (\<lambda>out. value_type (co_value out) t) (case x of (out, pv) \<Rightarrow>
        bindR (result_value out (fst (expr_pos (pg_result p)))) (\<lambda>v.
          ret \<lparr>co_value = v, co_range = pv_range pv, co_dates = (if wd then Some (pv_dates pv) else None)\<rparr>))"
      unfolding case_prod_unfold by (simp only: run_ok_bind [OF leaf_good [OF g(3) x]] run_ok_simps calc_output.simps)
  qed
  then show ?thesis by (auto simp: run_ok_def ret_def fail_def split: option.splits sum.splits)
qed


theorem typed_scripts_witness:
  "evaluate sample_program sample_service False = None \<or>
    (\<exists>out. evaluate sample_program sample_service False = ret out \<and> value_type (co_value out) TyNum) \<or>
    (\<exists>e. evaluate sample_program sample_service False = fail e \<and> runtime_error e)"
  by (rule typed_scripts) code_simp

end
