(* ===== verification/Calc_Provenance.thy ===== *)
theory Calc_Provenance
  imports Calc_Eval
begin

text \<open>
  What a script reports about its sources: one entry per source and interval, under the name of the source alone
  while it has one interval.
\<close>

section \<open>Keys\<close>

text \<open>A handle of a source: not empty, without the separator of the keys.\<close>

definition plain_id :: "string \<Rightarrow> bool" where
  "plain_id b \<longleftrightarrow> b \<noteq> [] \<and> CHR ''@'' \<notin> set b"

definition series_key :: "string list \<Rightarrow> string \<Rightarrow> string \<Rightarrow> string" where
  "series_key xs b i = (if length xs = 1 then b else intervalKey b i)"

lemma intervalKey_takeWhile: "plain_id b \<Longrightarrow> takeWhile (\<lambda>c. c \<noteq> CHR ''@'') (intervalKey b i) = b"
  unfolding plain_id_def intervalKey_def by (subst takeWhile_append2) auto

lemma intervalKey_eq: "plain_id b \<Longrightarrow> plain_id c \<Longrightarrow> intervalKey b i = intervalKey c j \<longleftrightarrow> b = c \<and> i = j"
  using intervalKey_takeWhile [of b i] intervalKey_takeWhile [of c j] by (auto simp: intervalKey_def)

lemma intervalKey_not_plain: "plain_id b \<Longrightarrow> b \<noteq> intervalKey c j"
  by (auto simp: plain_id_def intervalKey_def)

lemma series_key_eq:
  "plain_id b \<Longrightarrow> plain_id c \<Longrightarrow> series_key xs b i = series_key js c j \<longleftrightarrow>
     b = c \<and> (if length xs = 1 then length js = 1 else length js \<noteq> 1 \<and> i = j)"
  using intervalKey_not_plain [of b c j] intervalKey_not_plain [of c b i] by (auto simp: series_key_def intervalKey_eq)

section \<open>The invariant\<close>

definition entry_of :: "(string, string list) jsmap \<Rightarrow> string \<Rightarrow> string \<Rightarrow> string \<Rightarrow> bool" where
  "entry_of ivs k b i \<longleftrightarrow> (\<exists>xs. jm_get ivs b = Some xs \<and> i \<in> set xs \<and> k = series_key xs b i)"

definition intervals_ok :: "(string, string list) jsmap \<Rightarrow> bool" where
  "intervals_ok ivs \<longleftrightarrow> (\<forall>b xs. jm_get ivs b = Some xs \<longrightarrow> xs \<noteq> [] \<and> distinct xs \<and> plain_id b)"

definition range_ok :: "(string, string list) jsmap \<Rightarrow> (string \<Rightarrow> bar_meta option) \<Rightarrow> bool" where
  "range_ok ivs rng \<longleftrightarrow> (\<forall>k. (rng k = None \<longrightarrow> (\<forall>b i. \<not> entry_of ivs k b i)) \<and>
     (\<forall>m. rng k = Some m \<longrightarrow> (\<exists>b i. bm_barId m = Some b \<and> bm_interval m = Some i \<and> entry_of ivs k b i)))"

lemma range_ok_None: "range_ok ivs rng \<Longrightarrow> rng k = None \<Longrightarrow> \<not> entry_of ivs k b i"
  by (simp add: range_ok_def)

text \<open>The dates are kept under the same keys, when they are asked for.\<close>

definition maps_ok :: "bool \<Rightarrow> prov \<Rightarrow> bool" where
  "maps_ok wd pv \<longleftrightarrow> jm_ok (pv_range pv) \<and> jm_ok (pv_dates pv) \<and>
     (\<forall>k. jm_get (pv_dates pv) k \<noteq> None \<longleftrightarrow> wd \<and> jm_get (pv_range pv) k \<noteq> None)"

definition prov_ok :: "bool \<Rightarrow> prov \<Rightarrow> bool" where
  "prov_ok wd pv \<longleftrightarrow> maps_ok wd pv \<and> intervals_ok (pv_intervals pv) \<and> range_ok (pv_intervals pv) (jm_get (pv_range pv))"

lemma one_interval: "xs \<noteq> [] \<Longrightarrow> distinct xs \<Longrightarrow> length xs = 1 \<Longrightarrow> i \<in> set xs \<Longrightarrow> xs = [i]"
  by (cases "xs") auto

lemma entry_unique:
  assumes "intervals_ok ivs" "entry_of ivs k b i" "entry_of ivs k c j"
  shows "b = c \<and> i = j"
proof -
  obtain xs js where e: "jm_get ivs b = Some xs" "i \<in> set xs" "k = series_key xs b i" "jm_get ivs c = Some js" "j \<in> set js"
      "k = series_key js c j"
    using assms(2,3) unfolding entry_of_def by blast
  then have ok: "xs \<noteq> []" "distinct xs" "plain_id b" "plain_id c" using assms(1) unfolding intervals_ok_def by blast+
  then show ?thesis using e series_key_eq [OF ok(3,4), of "xs" i js j] one_interval [of xs] by (auto split: if_splits)
qed

text \<open>Recording a series that the intervals already count, or will count as the only one, or as one more of several.\<close>

lemma range_ok_put:
  assumes rng: "range_ok ivs rng" and ivs: "intervals_ok ivs'"
    and m: "bm_barId m = Some b" "bm_interval m = Some i" "entry_of ivs' key b i"
    and others: "\<And>k c j. k \<noteq> key \<Longrightarrow> entry_of ivs' k c j \<longleftrightarrow> entry_of ivs k c j"
  shows "range_ok ivs' (rng(key \<mapsto> m))"
  unfolding range_ok_def
proof (intro allI conjI impI)
  fix k c j
  assume "(rng(key \<mapsto> m)) k = None"
  then have "k \<noteq> key" "rng k = None" by (auto split: if_splits)
  then show "\<not> entry_of ivs' k c j" using rng others unfolding range_ok_def by blast
next
  fix k n
  assume "(rng(key \<mapsto> m)) k = Some n"
  then consider "k = key" "n = m" | "k \<noteq> key" "rng k = Some n" by (auto split: if_splits)
  then show "\<exists>c j. bm_barId n = Some c \<and> bm_interval n = Some j \<and> entry_of ivs' k c j"
  proof cases
    case 1
    with m show ?thesis by blast
  next
    case 2
    then obtain c j where "bm_barId n = Some c" "bm_interval n = Some j" "entry_of ivs k c j"
      using rng unfolding range_ok_def by blast
    with others [OF 2(1)] show ?thesis by blast
  qed
qed

lemma intervals_ok_set:
  "intervals_ok ivs \<Longrightarrow> xs \<noteq> [] \<Longrightarrow> distinct xs \<Longrightarrow> plain_id b \<Longrightarrow> intervals_ok (jm_set b xs ivs)"
  by (auto simp: intervals_ok_def jm.lookup_set)

lemma entry_of_set:
  "entry_of (jm_set b xs ivs) k c j \<longleftrightarrow> (if c = b then j \<in> set xs \<and> k = series_key xs b j else entry_of ivs k c j)"
  by (auto simp: entry_of_def jm.lookup_set)

lemma new_source:
  assumes "range_ok ivs rng" "intervals_ok ivs" "jm_get ivs b = None" "plain_id b" "bm_barId m = Some b" "bm_interval m = Some i"
  shows "range_ok (jm_set b [i] ivs) (rng(b \<mapsto> m))"
proof (rule range_ok_put [OF assms(1) intervals_ok_set [OF assms(2)]])
  show "entry_of (jm_set b [i] ivs) b b i" by (simp add: entry_of_set series_key_def)
  show "entry_of (jm_set b [i] ivs) k c j \<longleftrightarrow> entry_of ivs k c j" if "k \<noteq> b" for k c j
    using that assms(3) by (simp add: entry_of_set series_key_def) (simp add: entry_of_def)
qed (use assms in simp_all)

lemma known_series:
  assumes "range_ok ivs rng" "intervals_ok ivs" "jm_get ivs b = Some xs" "i \<in> set xs" "bm_barId m = Some b" "bm_interval m = Some i"
  shows "range_ok (jm_set b xs ivs) (rng(series_key xs b i \<mapsto> m))"
proof (rule range_ok_put [OF assms(1)])
  show "intervals_ok (jm_set b xs ivs)" using assms(2,3) by (intro intervals_ok_set) (auto simp: intervals_ok_def)
  show "entry_of (jm_set b xs ivs) (series_key xs b i) b i" using assms(4) by (simp add: entry_of_set)
  show "entry_of (jm_set b xs ivs) k c j \<longleftrightarrow> entry_of ivs k c j" for k c j
    unfolding entry_of_set using assms(3) by (auto simp: entry_of_def)
qed (use assms in simp_all)

lemma more_series:
  assumes "range_ok ivs rng" "intervals_ok ivs" "jm_get ivs b = Some xs" "i \<notin> set xs" "length xs \<noteq> 1"
    and "bm_barId m = Some b" "bm_interval m = Some i"
  shows "range_ok (jm_set b (xs @ [i]) ivs) (rng(intervalKey b i \<mapsto> m))"
proof (rule range_ok_put [OF assms(1)])
  have ok: "xs \<noteq> []" "distinct xs" "plain_id b" using assms(2,3) by (auto simp: intervals_ok_def)
  show "intervals_ok (jm_set b (xs @ [i]) ivs)" using assms(2,4) ok by (intro intervals_ok_set) auto
  show "entry_of (jm_set b (xs @ [i]) ivs) (intervalKey b i) b i" using ok by (simp add: entry_of_set series_key_def)
  show "entry_of (jm_set b (xs @ [i]) ivs) k c j \<longleftrightarrow> entry_of ivs k c j" if "k \<noteq> intervalKey b i" for k c j
    unfolding entry_of_set using that assms(3,5) ok(1) by (auto simp: entry_of_def series_key_def)
qed (use assms in simp_all)

text \<open>The second interval: the first series moves to its explicit key.\<close>

lemma second_series:
  assumes rng: "range_ok ivs rng" "intervals_ok ivs" and b: "jm_get ivs b = Some [j]" "rng b = Some m0" "i \<noteq> j"
    and m: "bm_barId m = Some b" "bm_interval m = Some i"
  shows "range_ok (jm_set b [j, i] ivs) ((rng(intervalKey b j \<mapsto> m0))(b := None, intervalKey b i \<mapsto> m))"
proof -
  have ok: "plain_id b" using b(1) rng(2) by (auto simp: intervals_ok_def)
  have "entry_of ivs b b j" using b(1) by (simp add: entry_of_def series_key_def)
  then have m0: "bm_barId m0 = Some b" "bm_interval m0 = Some j"
    using rng b(2) entry_unique [OF rng(2)] unfolding range_ok_def by (metis option.inject)+
  have keys: "b \<noteq> intervalKey c l" "intervalKey b j \<noteq> intervalKey b i" for c l
    using intervalKey_not_plain [OF ok] intervalKey_eq [OF ok ok] b(3) by auto
  have e: "entry_of (jm_set b [j, i] ivs) k c l \<longleftrightarrow>
      (if c = b then l \<in> {j, i} \<and> k = intervalKey b l else entry_of ivs k c l)" for k c l
    by (simp add: entry_of_set series_key_def)
  have old: "entry_of ivs k b l \<longleftrightarrow> l = j \<and> k = b" for k l using b(1) by (auto simp: entry_of_def series_key_def)
  have alone: "\<not> entry_of ivs b c x" if "c \<noteq> b" for c x
    using entry_unique [OF rng(2) \<open>entry_of ivs b b j\<close>] that by blast
  show ?thesis
    unfolding range_ok_def
  proof (intro allI conjI impI)
    fix k c l
    assume none': "((rng(intervalKey b j \<mapsto> m0))(b := None, intervalKey b i \<mapsto> m)) k = None"
    then have k: "k \<noteq> intervalKey b i" "k \<noteq> intervalKey b j" "k = b \<or> rng k = None" using keys by (auto split: if_splits)
    have "\<not> entry_of ivs k c l" if "c \<noteq> b"
      using k(3)
    proof
      assume "k = b"
      then show ?thesis using alone [OF that] by simp
    next
      assume "rng k = None"
      then show ?thesis by (rule range_ok_None [OF rng(1)])
    qed
    moreover have "\<not> (l \<in> {j, i} \<and> k = intervalKey b l)" using k(1,2) by blast
    ultimately show "\<not> entry_of (jm_set b [j, i] ivs) k c l" unfolding e by presburger
  next
    fix k n
    assume n: "((rng(intervalKey b j \<mapsto> m0))(b := None, intervalKey b i \<mapsto> m)) k = Some n"
    have n': "if k = intervalKey b i then Some m = Some n else if k = b then None = Some n
        else if k = intervalKey b j then Some m0 = Some n else rng k = Some n"
      using n unfolding fun_upd_apply by presburger
    consider "k = intervalKey b i" "n = m" | "k = intervalKey b j" "n = m0" | "k \<noteq> b" "rng k = Some n"
      using n' by (metis option.distinct(1) option.inject)
    then show "\<exists>c l. bm_barId n = Some c \<and> bm_interval n = Some l \<and> entry_of (jm_set b [j, i] ivs) k c l"
    proof cases
      case 3
      then obtain c l where cl: "bm_barId n = Some c" "bm_interval n = Some l" "entry_of ivs k c l"
        using rng(1) unfolding range_ok_def by blast
      have "c \<noteq> b" using cl(3) 3(1) old [of k l] by blast
      then have "entry_of (jm_set b [j, i] ivs) k c l" using cl(3) by (simp only: e if_False)
      with cl(1,2) show ?thesis by blast
    next
      case 1
      then show ?thesis using m by (intro exI [of _ b] exI [of _ i]) (simp add: e)
    next
      case 2
      then show ?thesis using m0 by (intro exI [of _ b] exI [of _ j]) (simp add: e)
    qed
  qed
qed


section \<open>Recording keeps it\<close>

lemma jm_get_put [simp]: "jm_get (jm_set k v m) = (jm_get m)(k \<mapsto> v)"
  by (rule jm.lookup_set)

lemma rekey_present:
  "jm_ok m \<Longrightarrow> jm_get m old = Some v \<Longrightarrow> jm_ok (rekey old new m) \<and> jm_get (rekey old new m) = (jm_get m)(new \<mapsto> v, old := None)"
  by (simp add: rekey_def jm.lookup_delete jm.invar_set jm.invar_delete)

lemma put_series_simps:
  "pv_range (put_series k m ax pv) = jm_set k m (pv_range pv)" "pv_intervals (put_series k m ax pv) = pv_intervals pv"
  "pv_dates (put_series k m ax pv) = (case ax of None \<Rightarrow> pv_dates pv | Some ds \<Rightarrow> jm_set k ds (pv_dates pv))"
  by (simp_all add: put_series_def)

text \<open>The steps of the record on the two maps, given that of the range.\<close>

lemma prov_ok_put:
  assumes "maps_ok wd pv" "intervals_ok ivs" "range_ok ivs ((jm_get (pv_range pv))(k \<mapsto> m))"
  shows "prov_ok wd (put_series k m (if wd then Some ds else None) (pv\<lparr>pv_intervals := ivs\<rparr>))"
proof -
  have "maps_ok wd (put_series k m (if wd then Some ds else None) (pv\<lparr>pv_intervals := ivs\<rparr>))"
    using assms(1) unfolding maps_ok_def put_series_simps by (auto simp: jm.invar_set)
  then show ?thesis using assms(2,3) by (simp add: prov_ok_def put_series_simps)
qed

lemma split_key_maps:
  assumes "maps_ok wd pv" "jm_get (pv_range pv) b = Some m0"
  shows "maps_ok wd (split_key wd b j pv)"
    and "jm_get (pv_range (split_key wd b j pv)) = (jm_get (pv_range pv))(intervalKey b j \<mapsto> m0, b := None)"
    and "pv_intervals (split_key wd b j pv) = pv_intervals pv"
proof -
  have ok: "jm_ok (pv_range pv)" "jm_ok (pv_dates pv)"
    and dates: "\<And>k. jm_get (pv_dates pv) k \<noteq> None \<longleftrightarrow> wd \<and> jm_get (pv_range pv) k \<noteq> None"
    using assms(1) unfolding maps_ok_def by blast+
  note rk = rekey_present [OF ok(1) assms(2), of "intervalKey b j"]
  show "jm_get (pv_range (split_key wd b j pv)) = (jm_get (pv_range pv))(intervalKey b j \<mapsto> m0, b := None)"
    "pv_intervals (split_key wd b j pv) = pv_intervals pv"
    using rk by (simp_all add: split_key_def)
  show "maps_ok wd (split_key wd b j pv)"
  proof (cases wd)
    case True
    then obtain ds where "jm_get (pv_dates pv) b = Some ds" using dates [of b] assms(2) by auto
    from rekey_present [OF ok(2) this, of "intervalKey b j"] rk dates True show ?thesis
      unfolding maps_ok_def split_key_def by simp
  next
    case False
    then show ?thesis using rk ok(2) dates unfolding maps_ok_def split_key_def by simp
  qed
qed

text \<open>The four cases of the record.\<close>

lemma record_cases:
  assumes "bm_barId (br_meta r) = Some b" "b \<noteq> []"
  shows "recordProvenance wd r i pv =
    (let m = (br_meta r)\<lparr>bm_interval := Some i\<rparr>; ax = (if wd then Some (map ob_date (br_bars r)) else None) in
     case jm_get (pv_intervals pv) b of
       None \<Rightarrow> put_series b m ax (pv\<lparr>pv_intervals := jm_set b [i] (pv_intervals pv)\<rparr>)
     | Some xs \<Rightarrow>
        if i \<in> set xs then put_series (series_key xs b i) m ax (pv\<lparr>pv_intervals := jm_set b xs (pv_intervals pv)\<rparr>)
        else (let pv1 = if length xs = 1 then split_key wd b (hd xs) pv else pv in
          put_series (series_key (xs @ [i]) b i) m ax (pv1\<lparr>pv_intervals := jm_set b (xs @ [i]) (pv_intervals pv1)\<rparr>)))"
  using assms by (simp add: recordProvenance_def series_key_def Let_def split: option.split)

lemma recordProvenance_ok:
  assumes ok: "prov_ok wd pv" and b: "bm_barId (br_meta r) = Some b" "plain_id b"
  shows "prov_ok wd (recordProvenance wd r i pv)"
proof -
  let ?m = "(br_meta r)\<lparr>bm_interval := Some i\<rparr>"
  have m: "bm_barId ?m = Some b" "bm_interval ?m = Some i" and ne: "b \<noteq> []" using b by (simp_all add: plain_id_def)
  have maps: "maps_ok wd pv" and ivs: "intervals_ok (pv_intervals pv)" and rng: "range_ok (pv_intervals pv) (jm_get (pv_range pv))"
    using ok unfolding prov_ok_def by blast+
  note rec = record_cases [OF b(1) ne, of wd i pv, unfolded Let_def]
  show ?thesis
  proof (cases "jm_get (pv_intervals pv) b")
    case None
    show ?thesis unfolding rec None option.case
      by (rule prov_ok_put [OF maps intervals_ok_set [OF ivs _ _ b(2)] new_source [OF rng ivs None b(2) m]]) simp_all
  next
    case (Some xs)
    then have xs: "xs \<noteq> []" "distinct xs" using ivs by (auto simp: intervals_ok_def)
    consider "i \<in> set xs" | "i \<notin> set xs" "length xs \<noteq> 1" | j where "i \<noteq> j" "xs = [j]"
      using xs by (cases xs) auto
    then show ?thesis
    proof cases
      case 1
      show ?thesis unfolding rec Some option.case if_P [OF 1]
        by (rule prov_ok_put [OF maps intervals_ok_set [OF ivs xs b(2)] known_series [OF rng ivs Some 1 m]])
    next
      case 2
      have "series_key (xs @ [i]) b i = intervalKey b i" "xs @ [i] \<noteq> []" "distinct (xs @ [i])"
        using xs 2 by (simp_all add: series_key_def)
      with prov_ok_put [OF maps intervals_ok_set [OF ivs this(2,3) b(2)] more_series [OF rng ivs Some 2 m]] 2 show ?thesis
        unfolding rec Some option.case by simp
    next
      case (3 j)
      then have "entry_of (pv_intervals pv) b b j" using Some by (simp add: entry_of_def series_key_def)
      then obtain m0 where m0: "jm_get (pv_range pv) b = Some m0"
        using rng unfolding range_ok_def by (cases "jm_get (pv_range pv) b") blast+
      have key: "series_key ([j] @ [i]) b i = intervalKey b i" by (simp add: series_key_def)
      have "intervals_ok (jm_set b [j, i] (pv_intervals pv))" using 3(1) by (intro intervals_ok_set [OF ivs _ _ b(2)]) auto
      moreover have "range_ok (jm_set b [j, i] (pv_intervals pv))
          ((jm_get (pv_range (split_key wd b j pv)))(intervalKey b i \<mapsto> ?m))"
        using second_series [OF rng ivs Some [unfolded 3(2)] m0 3(1) m] by (simp only: split_key_maps(2) [OF maps m0])
      ultimately show ?thesis
        unfolding rec Some option.case using prov_ok_put [OF split_key_maps(1) [OF maps m0]] 3 key
        by (simp add: split_key_maps(3) [OF maps m0])
    qed
  qed
qed


section \<open>The record tells what was used\<close>

text \<open>
  The calls of the service, in order: the reference and the options of each, of which \<open>svc n\<close> is the answer
  to the one of number \<open>n\<close>.  A call whose answer names its source is a use of that source at the interval
  asked for.
\<close>

definition use_of :: "bar_service \<Rightarrow> nat \<Rightarrow> bar_ref \<times> bars_opts \<Rightarrow> ((string \<times> string) \<times> bar_meta) list" where
  "use_of svc n c = (case svc n (fst c) (snd c) of
      Inl e \<Rightarrow> []
    | Inr r \<Rightarrow> (case bm_barId (br_meta r) of
        None \<Rightarrow> []
      | Some b \<Rightarrow> if b = [] then []
          else [((b, bo_interval (snd c)), (br_meta r)\<lparr>bm_interval := Some (bo_interval (snd c))\<rparr>)]))"

fun uses :: "bar_service \<Rightarrow> nat \<Rightarrow> (bar_ref \<times> bars_opts) list \<Rightarrow> ((string \<times> string) \<times> bar_meta) list" where
  "uses svc n [] = []"
| "uses svc n (c # cs) = use_of svc n c @ uses svc (Suc n) cs"

lemma uses_snoc: "uses svc n (cs @ [c]) = uses svc n cs @ use_of svc (n + length cs) c"
  by (induction cs arbitrary: n) simp_all

definition recorded :: "((string \<times> string) \<times> bar_meta) list \<Rightarrow> prov \<Rightarrow> bool" where
  "recorded used pv \<longleftrightarrow>
     (\<forall>b i. (\<exists>xs. jm_get (pv_intervals pv) b = Some xs \<and> i \<in> set xs) \<longleftrightarrow> (b, i) \<in> fst ` set used) \<and>
     (\<forall>k b i. entry_of (pv_intervals pv) k b i \<longrightarrow> jm_get (pv_range pv) k = map_of (rev used) (b, i))"

lemma recorded_step:
  assumes old: "recorded used pv" and ivs: "intervals_ok (pv_intervals pv')"
    and xs: "pv_intervals pv' = jm_set b xs (pv_intervals pv)"
      "set xs = insert i {j. \<exists>ys. jm_get (pv_intervals pv) b = Some ys \<and> j \<in> set ys}"
    and key: "jm_get (pv_range pv') = rng(key \<mapsto> m)" "entry_of (pv_intervals pv') key b i"
    and others: "\<And>k c j. entry_of (pv_intervals pv') k c j \<Longrightarrow> (c, j) \<noteq> (b, i) \<Longrightarrow> rng k = map_of (rev used) (c, j)"
  shows "recorded (used @ [((b, i), m)]) pv'"
  unfolding recorded_def
proof (intro conjI allI impI)
  fix c j
  have "(\<exists>ys. jm_get (pv_intervals pv) c = Some ys \<and> j \<in> set ys) \<longleftrightarrow> (c, j) \<in> fst ` set used"
    using old unfolding recorded_def by blast
  then show "(\<exists>ys. jm_get (pv_intervals pv') c = Some ys \<and> j \<in> set ys) \<longleftrightarrow> (c, j) \<in> fst ` set (used @ [((b, i), m)])"
    using xs by (auto simp: jm.lookup_set)
next
  fix k c j assume e: "entry_of (pv_intervals pv') k c j"
  show "jm_get (pv_range pv') k = map_of (rev (used @ [((b, i), m)])) (c, j)"
  proof (cases "(c, j) = (b, i)")
    case True
    then have "k = key" using e key(2) by (auto simp: entry_of_def)
    then show ?thesis using key(1) True by simp
  next
    case False
    then have "k \<noteq> key" using entry_unique [OF ivs key(2)] e by blast
    then show ?thesis using others [OF e False] False key(1) by auto
  qed
qed

lemma put_series_range: "jm_get (pv_range (put_series k m ax pv)) = (jm_get (pv_range pv))(k \<mapsto> m)"
  by (simp add: put_series_def jm.lookup_set fun_eq_iff)

lemma recordProvenance_recorded:
  assumes ok: "prov_ok wd pv" and old: "recorded used pv" and b: "bm_barId (br_meta r) = Some b" "plain_id b"
  shows "recorded (used @ [((b, i), (br_meta r)\<lparr>bm_interval := Some i\<rparr>)]) (recordProvenance wd r i pv)"
proof -
  let ?pv = "recordProvenance wd r i pv"
  have ne: "b \<noteq> []" using b(2) by (simp add: plain_id_def)
  have maps: "maps_ok wd pv" and ivs: "intervals_ok (pv_intervals pv)" and rng: "range_ok (pv_intervals pv) (jm_get (pv_range pv))"
    using ok unfolding prov_ok_def by blast+
  have ivs': "intervals_ok (pv_intervals ?pv)" using recordProvenance_ok [OF ok b] unfolding prov_ok_def by blast
  have known: "jm_get (pv_range pv) k = map_of (rev used) (c, j)" if "entry_of (pv_intervals pv) k c j" for k c j
    using old that unfolding recorded_def by blast
  note rec = record_cases [OF b(1) ne, of wd i pv, unfolded Let_def]
  note step = recorded_step [OF old ivs']
  show ?thesis
  proof (cases "jm_get (pv_intervals pv) b")
    case None
    note eq = rec [unfolded None option.case]
    show ?thesis
    proof (rule step)
      show "pv_intervals ?pv = jm_set b [i] (pv_intervals pv)" unfolding eq by (simp add: put_series_simps)
      show "set [i] = insert i {j. \<exists>ys. jm_get (pv_intervals pv) b = Some ys \<and> j \<in> set ys}" using None by simp
      show "jm_get (pv_range ?pv) = (jm_get (pv_range pv))(b \<mapsto> (br_meta r)\<lparr>bm_interval := Some i\<rparr>)"
        unfolding eq by (simp add: put_series_range)
      show "entry_of (pv_intervals ?pv) b b i" unfolding eq by (simp add: put_series_simps entry_of_set series_key_def)
      show "jm_get (pv_range pv) k = map_of (rev used) (c, j)" if "entry_of (pv_intervals ?pv) k c j" "(c, j) \<noteq> (b, i)" for k c j
        using that known by (auto simp: eq put_series_simps entry_of_set split: if_splits)
    qed
  next
    case (Some xs)
    then have xs: "xs \<noteq> []" "distinct xs" using ivs by (auto simp: intervals_ok_def)
    consider "i \<in> set xs" | "i \<notin> set xs" "length xs \<noteq> 1" | j where "i \<noteq> j" "xs = [j]"
      using xs by (cases xs) auto
    then show ?thesis
    proof cases
      case 1
      note eq = rec [unfolded Some option.case if_P [OF 1]]
      have same: "entry_of (pv_intervals ?pv) k c j \<longleftrightarrow> entry_of (pv_intervals pv) k c j" for k c j
        using Some by (simp add: eq put_series_simps entry_of_set) (auto simp: entry_of_def)
      show ?thesis
      proof (rule step)
        show "pv_intervals ?pv = jm_set b xs (pv_intervals pv)" unfolding eq by (simp add: put_series_simps)
        show "set xs = insert i {j. \<exists>ys. jm_get (pv_intervals pv) b = Some ys \<and> j \<in> set ys}" using Some 1 by auto
        show "jm_get (pv_range ?pv) = (jm_get (pv_range pv))(series_key xs b i \<mapsto> (br_meta r)\<lparr>bm_interval := Some i\<rparr>)"
          unfolding eq by (simp add: put_series_range)
        show "entry_of (pv_intervals ?pv) (series_key xs b i) b i" unfolding same using Some 1 by (auto simp: entry_of_def)
      qed (use same known in blast)
    next
      case 2
      note eq = rec [unfolded Some option.case if_not_P [OF 2(1)] if_not_P [OF 2(2)]]
      have key: "series_key (xs @ [i]) b j = series_key xs b j" for j using xs(1) 2(2) by (simp add: series_key_def)
      show ?thesis
      proof (rule step)
        show "pv_intervals ?pv = jm_set b (xs @ [i]) (pv_intervals pv)" unfolding eq by (simp add: put_series_simps)
        show "set (xs @ [i]) = insert i {j. \<exists>ys. jm_get (pv_intervals pv) b = Some ys \<and> j \<in> set ys}" using Some by auto
        show "jm_get (pv_range ?pv) = (jm_get (pv_range pv))(series_key (xs @ [i]) b i \<mapsto> (br_meta r)\<lparr>bm_interval := Some i\<rparr>)"
          unfolding eq by (simp add: put_series_range)
        show "entry_of (pv_intervals ?pv) (series_key (xs @ [i]) b i) b i" unfolding eq by (simp add: put_series_simps entry_of_set)
        show "jm_get (pv_range pv) k = map_of (rev used) (c, j)" if "entry_of (pv_intervals ?pv) k c j" "(c, j) \<noteq> (b, i)" for k c j
          using that known Some by (auto simp: eq put_series_simps entry_of_set key entry_of_def split: if_splits)
      qed
    next
      case (3 j)
      have e0: "entry_of (pv_intervals pv) b b j" using Some 3 by (simp add: entry_of_def series_key_def)
      then obtain m0 where m0: "jm_get (pv_range pv) b = Some m0"
        using rng unfolding range_ok_def by (cases "jm_get (pv_range pv) b") blast+
      have "i \<notin> set xs" "length xs = 1" using 3 by simp_all
      note eq = rec [unfolded Some option.case if_not_P [OF this(1)] if_P [OF this(2)]]
      note split = split_key_maps [OF maps m0, of j]
      have eqs: "pv_intervals ?pv = jm_set b [j, i] (pv_intervals pv)"
        "jm_get (pv_range ?pv) = ((jm_get (pv_range pv))(intervalKey b j \<mapsto> m0, b := None))
           (intervalKey b i \<mapsto> (br_meta r)\<lparr>bm_interval := Some i\<rparr>)"
        unfolding eq using 3 split(2,3) by (simp_all add: put_series_simps put_series_range series_key_def)
      have e: "entry_of (pv_intervals ?pv) k c l \<longleftrightarrow>
          (if c = b then l \<in> {j, i} \<and> k = intervalKey b l else entry_of (pv_intervals pv) k c l)" for k c l
        by (simp add: eqs entry_of_set series_key_def)
      show ?thesis
      proof (rule step)
        show "pv_intervals ?pv = jm_set b [j, i] (pv_intervals pv)" by (rule eqs)
        show "set [j, i] = insert i {j. \<exists>ys. jm_get (pv_intervals pv) b = Some ys \<and> j \<in> set ys}" using Some 3 by auto
        show "jm_get (pv_range ?pv) = ((jm_get (pv_range pv))(intervalKey b j \<mapsto> m0, b := None))
           (intervalKey b i \<mapsto> (br_meta r)\<lparr>bm_interval := Some i\<rparr>)" by (rule eqs)
        show "entry_of (pv_intervals ?pv) (intervalKey b i) b i" by (simp add: e)
        fix k c l assume kcl: "entry_of (pv_intervals ?pv) k c l" "(c, l) \<noteq> (b, i)"
        show "((jm_get (pv_range pv))(intervalKey b j \<mapsto> m0, b := None)) k = map_of (rev used) (c, l)"
        proof (cases "c = b")
          case True
          then have "l = j" "k = intervalKey b j" using kcl by (auto simp: e)
          then show ?thesis using True known [OF e0] m0 intervalKey_not_plain [OF b(2), of b j] by simp
        next
          case False
          then have old: "entry_of (pv_intervals pv) k c l" using kcl(1) by (simp add: e)
          then have "k \<noteq> b" using entry_unique [OF ivs e0] False by blast
          moreover have "k \<noteq> intervalKey b j"
            using entry_unique [OF ivs' kcl(1), of b j] False by (auto simp: e)
          ultimately show ?thesis using known [OF old] by simp
        qed
      qed
    qed
  qed
qed

text \<open>The invariant of a run: the calls that the service answered, and their record.\<close>

definition answered_calls :: "bar_service \<Rightarrow> (bar_ref \<times> bars_opts) list \<Rightarrow> bool" where
  "answered_calls svc calls \<longleftrightarrow> (\<forall>n < length calls. \<exists>r. svc n (fst (calls ! n)) (snd (calls ! n)) = Inr r)"

definition run_ok :: "bool \<Rightarrow> bar_service \<Rightarrow> prov \<Rightarrow> bool" where
  "run_ok wd svc pv \<longleftrightarrow> prov_ok wd pv \<and>
     (\<exists>calls. length calls = pv_calls pv \<and> answered_calls svc calls \<and> recorded (uses svc 0 calls) pv)"

section \<open>Evaluation keeps it\<close>

definition ev_keeps :: "(prov \<Rightarrow> bool) \<Rightarrow> 'a ev \<Rightarrow> bool" where
  "ev_keeps I m \<longleftrightarrow> (\<forall>pv a pv'. I pv \<longrightarrow> m pv = ret (a, pv') \<longrightarrow> I pv')"

lemma ev_keeps_lift [simp]: "ev_keeps I (ev_lift m)" "ev_keeps I (ev_ret a)" "ev_keeps I (ev_fail e)"
  by (auto simp: ev_keeps_def ev_ret_def ev_fail_def ev_lift_def bindR_eq_ret)

lemma ev_keeps_bind: "ev_keeps I m \<Longrightarrow> (\<And>a. ev_keeps I (f a)) \<Longrightarrow> ev_keeps I (ev_bind m f)"
  unfolding ev_keeps_def ev_bind_def
proof (intro allI impI)
  fix pv b pv'
  assume m: "\<forall>pv a pv'. I pv \<longrightarrow> m pv = ret (a, pv') \<longrightarrow> I pv'"
    and f: "\<And>a. \<forall>pv b pv'. I pv \<longrightarrow> f a pv = ret (b, pv') \<longrightarrow> I pv'"
    and I: "I pv" and r: "bindR (m pv) (\<lambda>(a, pv'). f a pv') = ret (b, pv')"
  obtain a pv1 where "m pv = ret (a, pv1)" "f a pv1 = ret (b, pv')" using r by (auto simp: bindR_eq_ret)
  then show "I pv'" using m f I by blast
qed

lemma ev_keeps_seq: "(\<And>m. m \<in> set ms \<Longrightarrow> ev_keeps I m) \<Longrightarrow> ev_keeps I (ev_seq ms)"
  by (induction ms) (auto intro!: ev_keeps_bind)

lemma ev_keeps_arg: "ev_keeps I m \<Longrightarrow> ev_keeps I (ev_num ctx l m)" "ev_keeps I m \<Longrightarrow> ev_keeps I (ev_str f i l m)"
  by (auto simp: ev_num_def ev_str_def intro: ev_keeps_bind)

lemma ev_keeps_keyword:
  assumes "\<And>n m. (n, m) \<in> set args \<Longrightarrow> ev_keeps I m" "\<And>m. ev_keeps I m \<Longrightarrow> ev_keeps I (conv m)"
  shows "ev_keeps I (keyword args k conv)"
  using assms by (auto simp: keyword_def split: option.split intro!: ev_keeps_bind dest!: map_of_SomeD)

text \<open>The handles of the answers of the service have no \<open>@\<close>.\<close>

definition plain_service :: "bar_service \<Rightarrow> bool" where
  "plain_service svc \<longleftrightarrow> (\<forall>n ref opts r b. svc n ref opts = Inr r \<longrightarrow> bm_barId (br_meta r) = Some b \<longrightarrow> b \<noteq> [] \<longrightarrow> plain_id b)"

lemma counted_call: "prov_ok wd (pv\<lparr>pv_calls := n\<rparr>) = prov_ok wd pv" "recorded u (pv\<lparr>pv_calls := n\<rparr>) = recorded u pv"
  by (simp_all add: prov_ok_def maps_ok_def recorded_def)

lemma recordProvenance_calls: "pv_calls (recordProvenance wd r i pv) = pv_calls pv"
  by (simp add: recordProvenance_def put_series_def split_key_def Let_def split: option.splits)

lemma answered_call_ok:
  assumes plain: "plain_service svc" and pv: "run_ok wd svc pv"
    and r: "svc (pv_calls pv) ref opts = Inr r"
  shows "run_ok wd svc (recordProvenance wd r (bo_interval opts) (pv\<lparr>pv_calls := Suc (pv_calls pv)\<rparr>))"
proof -
  let ?pv1 = "pv\<lparr>pv_calls := Suc (pv_calls pv)\<rparr>"
  let ?pv = "recordProvenance wd r (bo_interval opts) ?pv1"
  obtain calls where calls: "length calls = pv_calls pv" "answered_calls svc calls" "recorded (uses svc 0 calls) ?pv1"
    and ok: "prov_ok wd ?pv1" using pv by (auto simp: run_ok_def counted_call)
  let ?calls = "calls @ [(ref, opts)]"
  have "length ?calls = pv_calls ?pv" using calls(1) by (simp add: recordProvenance_calls)
  moreover have "answered_calls svc ?calls"
    using calls(1,2) r by (auto simp: answered_calls_def nth_append less_Suc_eq)
  moreover have "prov_ok wd ?pv \<and> recorded (uses svc 0 ?calls) ?pv"
  proof (cases "bm_barId (br_meta r) = None \<or> bm_barId (br_meta r) = Some []")
    case True
    then have "?pv = ?pv1" "uses svc 0 ?calls = uses svc 0 calls"
      using r calls(1) by (auto simp: recordProvenance_def uses_snoc use_of_def)
    with ok calls(3) show ?thesis by simp
  next
    case False
    then obtain b where b: "bm_barId (br_meta r) = Some b" "b \<noteq> []" by auto
    then have "plain_id b" using plain r unfolding plain_service_def by blast
    moreover have "uses svc 0 ?calls =
        uses svc 0 calls @ [((b, bo_interval opts), (br_meta r)\<lparr>bm_interval := Some (bo_interval opts)\<rparr>)]"
      using r b calls(1) by (simp add: uses_snoc use_of_def)
    ultimately show ?thesis
      using recordProvenance_ok [OF ok b(1)] recordProvenance_recorded [OF ok calls(3) b(1)] by simp
  qed
  ultimately show ?thesis unfolding run_ok_def by blast
qed

text \<open>A fetch that fails ends the script; one that is answered is recorded.\<close>

lemma fetchBars_keeps:
  assumes "plain_service svc" "\<And>r. ev_keeps (run_ok wd svc) (f (Inr r))" "\<And>e pv. \<exists>x. f (Inl e) pv = Some (Inl x)"
  shows "ev_keeps (run_ok wd svc) (ev_bind (fetchBars svc wd barId opts a) f)"
  unfolding ev_keeps_def ev_bind_def
proof (intro allI impI)
  fix pv v pv'
  assume ok: "run_ok wd svc pv" and r: "bindR (fetchBars svc wd barId opts a pv) (\<lambda>(x, pv). f x pv) = ret (v, pv')"
  define ref where "ref = \<lparr>rf_barId = barId, rf_assetClass = (if a = Some [] then None else a)\<rparr>"
  show "run_ok wd svc pv'"
  proof (cases "svc (pv_calls pv) ref opts")
    case (Inl e)
    then show ?thesis using r assms(3) [of e "pv\<lparr>pv_calls := Suc (pv_calls pv)\<rparr>"]
      by (auto simp: fetchBars_def ref_def [symmetric] Let_def bindR_eq_ret ret_def)
  next
    case (Inr x)
    let ?pv = "recordProvenance wd x (bo_interval opts) (pv\<lparr>pv_calls := Suc (pv_calls pv)\<rparr>)"
    have "f (Inr x) ?pv = ret (v, pv')"
      using r Inr by (auto simp: fetchBars_def ref_def [symmetric] Let_def bindR_eq_ret ret_def)
    then show ?thesis using assms(2) answered_call_ok [OF assms(1) ok Inr] unfolding ev_keeps_def by blast
  qed
qed

lemma evalBars_keeps:
  assumes "plain_service svc" "\<And>n m. (n, m) \<in> set args \<Longrightarrow> ev_keeps (run_ok wd svc) m"
  shows "ev_keeps (run_ok wd svc) (evalBars svc wd args p)"
proof -
  let ?ps = "map snd (filter (\<lambda>a. unnamed (fst a)) args)"
  have "ev_keeps (run_ok wd svc) (?ps ! i)" if "i < length ?ps" for i
    using nth_mem [OF that] assms(2) by auto
  then have ps: "ev_keeps (run_ok wd svc) (?ps ! 0)" "ev_keeps (run_ok wd svc) (?ps ! 1)" if "\<not> length ?ps < 2"
    using that by (metis linorder_not_less not_numeral_le_zero zero_less_iff_neq_zero, metis One_nat_def Suc_1 Suc_le_lessD linorder_not_less)
  have kw: "ev_keeps (run_ok wd svc) (keyword args k (ev_num c l))" "ev_keeps (run_ok wd svc) (keyword args k (ev_str g i l))" for k c l g i
    by (rule ev_keeps_keyword, erule assms(2), erule ev_keeps_arg)+
  show ?thesis
  proof (cases "length ?ps < 2")
    case True
    then show ?thesis unfolding evalBars_def Let_def by (simp only: if_True ev_keeps_lift)
  next
    case False
    show ?thesis unfolding evalBars_def Let_def if_not_P [OF False]
      by (rule ev_keeps_bind [OF ev_keeps_arg(2) [OF ps(1) [OF False]]],
          rule ev_keeps_bind [OF ev_keeps_arg(2) [OF ps(2) [OF False]]],
          (rule ev_keeps_bind [OF kw(1)] ev_keeps_bind [OF kw(2)])+,
          rule fetchBars_keeps [OF assms(1)]) (simp_all add: ev_fail_def ev_lift_def fail_def bindR_def)
  qed
qed

lemma evalFunction_keeps:
  assumes "\<And>n m. (n, m) \<in> set args \<Longrightarrow> ev_keeps I m"
  shows "ev_keeps I (evalFunction f args p)"
proof -
  have "ev_keeps I (ev_seq (map snd args))" by (rule ev_keeps_seq) (auto intro: assms)
  then show ?thesis by (auto simp: evalFunction_def split: option.split intro: ev_keeps_bind)
qed

lemma evalExpr_keeps:
  assumes "plain_service svc"
  shows "ev_keeps (run_ok wd svc) (evalExpr svc wd env e)"
proof (induction e)
  case (CallExpr f args p)
  then have e: "ev_keeps (run_ok wd svc) (evalExpr svc wd env e)" if "(n, e) \<in> set args" for n e using that by fastforce
  then have m: "ev_keeps (run_ok wd svc) m" if "(n, m) \<in> set (map (\<lambda>(n, e). (n, evalExpr svc wd env e)) args)" for n m using that by auto
  have "ev_keeps (run_ok wd svc) (evalBars svc wd (map (\<lambda>(n, e). (n, evalExpr svc wd env e)) args) p)"
    by (rule evalBars_keeps [OF assms m])
  moreover have "ev_keeps (run_ok wd svc) (evalFunction f (map (\<lambda>(n, e). (n, evalExpr svc wd env e)) args) p)"
    by (rule evalFunction_keeps [OF m])
  ultimately show ?case by (simp add: Let_def)
next
  case (DictLit ents p)
  then have "ev_keeps (run_ok wd svc) (evalExpr svc wd env e)" if "(k, e) \<in> set ents" for k e using that by fastforce
  then show ?case by (auto intro!: ev_keeps_bind ev_keeps_seq)
qed (auto intro!: ev_keeps_bind ev_keeps_seq ev_keeps_arg)

lemma run_bindings_keeps: "plain_service svc \<Longrightarrow> ev_keeps (run_ok wd svc) (run_bindings svc wd env bs)"
  by (induction bs arbitrary: env) (auto intro: ev_keeps_bind evalExpr_keeps)

section \<open>The keys of the answer\<close>

lemma range_key:
  assumes ok: "prov_ok wd pv" and k: "jm_get (pv_range pv) k = Some m"
  shows "\<exists>b i. bm_barId m = Some b \<and> bm_interval m = Some i \<and>
    k = (if \<exists>k' m'. jm_get (pv_range pv) k' = Some m' \<and> bm_barId m' = Some b \<and> bm_interval m' \<noteq> Some i then intervalKey b i else b)"
proof -
  let ?I = "pv_intervals pv"
  have ivs: "intervals_ok ?I" and rng: "range_ok ?I (jm_get (pv_range pv))" using ok unfolding prov_ok_def by blast+
  have entry: "\<exists>b i. bm_barId m = Some b \<and> bm_interval m = Some i \<and> entry_of ?I k b i" if "jm_get (pv_range pv) k = Some m" for k m
    using rng that unfolding range_ok_def by blast
  obtain b i where b: "bm_barId m = Some b" "bm_interval m = Some i" "entry_of ?I k b i" using entry [OF k] by blast
  then obtain xs where xs: "jm_get ?I b = Some xs" "i \<in> set xs" "k = series_key xs b i" unfolding entry_of_def by blast
  have d: "xs \<noteq> []" "distinct xs" using ivs xs(1) by (auto simp: intervals_ok_def)
  have other: "(\<exists>k' m'. jm_get (pv_range pv) k' = Some m' \<and> bm_barId m' = Some b \<and> bm_interval m' \<noteq> Some i) \<longleftrightarrow> length xs \<noteq> 1"
  proof
    assume "\<exists>k' m'. jm_get (pv_range pv) k' = Some m' \<and> bm_barId m' = Some b \<and> bm_interval m' \<noteq> Some i"
    then obtain k' j where "entry_of ?I k' b j" "j \<noteq> i" using entry by fastforce
    then have "j \<in> set xs" "j \<noteq> i" using xs(1) by (auto simp: entry_of_def)
    then show "length xs \<noteq> 1" using one_interval [OF d] xs(2) by fastforce
  next
    assume l: "length xs \<noteq> 1"
    have "\<exists>j \<in> set xs. j \<noteq> i"
    proof (rule ccontr)
      assume "\<not> ?thesis"
      then have "set xs = {i}" using xs(2) by blast
      then have "card (set xs) = 1" by simp
      with l distinct_card [OF d(2)] show False by simp
    qed
    then obtain j where j: "j \<in> set xs" "j \<noteq> i" by blast
    then have e: "entry_of ?I (series_key xs b j) b j" using xs(1) by (auto simp: entry_of_def)
    then obtain m' where m': "jm_get (pv_range pv) (series_key xs b j) = Some m'"
      using range_ok_None [OF rng] by (cases "jm_get (pv_range pv) (series_key xs b j)") blast+
    then obtain c l where c: "bm_barId m' = Some c" "bm_interval m' = Some l" "entry_of ?I (series_key xs b j) c l" using entry by blast
    then have "c = b" "l = j" using entry_unique [OF ivs e] by blast+
    with c j(2) have "bm_barId m' = Some b" "bm_interval m' \<noteq> Some i" by simp_all
    with m' show "\<exists>k' m'. jm_get (pv_range pv) k' = Some m' \<and> bm_barId m' = Some b \<and> bm_interval m' \<noteq> Some i" by blast
  qed
  have "k = (if length xs \<noteq> 1 then intervalKey b i else b)" using xs(3) by (simp add: series_key_def)
  then show ?thesis unfolding other [symmetric] using b(1,2) by blast
qed

text \<open>The key under which a use is reported: the handle alone when the uses have it at one interval.\<close>

definition use_key :: "((string \<times> string) \<times> bar_meta) list \<Rightarrow> string \<Rightarrow> string \<Rightarrow> string" where
  "use_key used b i = (if \<exists>j. (b, j) \<in> fst ` set used \<and> j \<noteq> i then intervalKey b i else b)"

lemma recorded_keys:
  assumes ok: "prov_ok wd pv" and rec: "recorded used pv"
  shows "jm_get (pv_range pv) k = Some m \<longleftrightarrow>
    (\<exists>b i. map_of (rev used) (b, i) = Some m \<and> k = use_key used b i)"
proof -
  let ?I = "pv_intervals pv"
  have ivs: "intervals_ok ?I" and rng: "range_ok ?I (jm_get (pv_range pv))" using ok unfolding prov_ok_def by blast+
  have used: "(\<exists>xs. jm_get ?I b = Some xs \<and> i \<in> set xs) \<longleftrightarrow> (b, i) \<in> fst ` set used" for b i
    using rec unfolding recorded_def by blast
  have val: "jm_get (pv_range pv) k = map_of (rev used) (b, i)" if "entry_of ?I k b i" for k b i
    using rec that unfolding recorded_def by blast
  have key: "series_key xs b i = use_key used b i" if xs: "jm_get ?I b = Some xs" "i \<in> set xs" for xs b i
  proof -
    have d: "xs \<noteq> []" "distinct xs" using ivs xs(1) by (auto simp: intervals_ok_def)
    have "length xs = 1 \<longleftrightarrow> \<not> (\<exists>j \<in> set xs. j \<noteq> i)"
      using one_interval [OF d _ xs(2)] d xs(2) by (cases xs; cases "tl xs") auto
    moreover have "(\<exists>j \<in> set xs. j \<noteq> i) \<longleftrightarrow> (\<exists>j. (b, j) \<in> fst ` set used \<and> j \<noteq> i)"
      unfolding used [symmetric] using xs(1) by auto
    ultimately have "length xs = 1 \<longleftrightarrow> \<not> (\<exists>j. (b, j) \<in> fst ` set used \<and> j \<noteq> i)" by blast
    then show ?thesis unfolding series_key_def use_key_def by (simp only: split: if_split) blast
  qed
  show ?thesis
  proof
    assume m: "jm_get (pv_range pv) k = Some m"
    then obtain b i where e: "entry_of ?I k b i" using rng unfolding range_ok_def by blast
    then obtain xs where "jm_get ?I b = Some xs" "i \<in> set xs" "k = series_key xs b i" unfolding entry_of_def by blast
    then show "\<exists>b i. map_of (rev used) (b, i) = Some m \<and> k = use_key used b i" using val [OF e] m key by auto
  next
    assume "\<exists>b i. map_of (rev used) (b, i) = Some m \<and> k = use_key used b i"
    then obtain b i where m: "map_of (rev used) (b, i) = Some m" "k = use_key used b i" by blast
    then have "(b, i) \<in> fst ` set used" by (metis image_set map_of_SomeD set_rev fst_conv image_eqI)
    then obtain xs where xs: "jm_get ?I b = Some xs" "i \<in> set xs" unfolding used [symmetric] by blast
    then have "entry_of ?I k b i" using m(2) key by (auto simp: entry_of_def)
    then show "jm_get (pv_range pv) k = Some m" using val m(1) by simp
  qed
qed

definition script_run :: "program \<Rightarrow> bar_service \<Rightarrow> bool \<Rightarrow> (V \<times> prov) run" where
  "script_run p svc wd =
     ev_bind (run_bindings svc wd [] (pg_bindings p)) (\<lambda>env. evalExpr svc wd env (pg_result p)) empty_prov"



end
