(* ===== verification/Calc_Grammar.thy ===== *)
theory Calc_Grammar
  imports Calc_Parser
begin

text \<open>
  The parser comes to an end on every text, and the tests for fewer tokens never fail: the expression parser
  satisfies the equation the code writes.
\<close>

section \<open>Consumption\<close>

text \<open>The run returns, and a result leaves fewer than \<open>n\<close> tokens.\<close>

definition leaves :: "nat \<Rightarrow> ('a \<times> token list) run \<Rightarrow> bool" where
  "leaves n m \<longleftrightarrow> returns m \<and> (\<forall>a ts. m = ret (a, ts) \<longrightarrow> length ts < n)"

lemma leaves_simps [simp]:
  "leaves n (ret (a, ts)) \<longleftrightarrow> length ts < n" "leaves n (fail e)" "\<not> leaves n None"
  by (auto simp: leaves_def)

lemma leavesD: "leaves n m \<Longrightarrow> m = ret (a, ts) \<Longrightarrow> length ts < n"
  by (simp add: leaves_def)

lemma leaves_mono: "leaves k m \<Longrightarrow> k \<le> n \<Longrightarrow> leaves n m"
  by (auto simp: leaves_def)

lemma leaves_bind: "leaves k m \<Longrightarrow> (\<And>a ts. length ts < k \<Longrightarrow> leaves n (f (a, ts))) \<Longrightarrow> leaves n (bindR m f)"
  by (auto simp: leaves_def bindR_eq_ret)

lemma tl_shorter: "at_type t ts \<Longrightarrow> t \<noteq> TEof \<Longrightarrow> length (tl ts) < length ts"
  by (auto simp: neq_Nil_conv dest!: at_type_nonempty)

lemma leaves_eat: "t \<noteq> TEof \<Longrightarrow> leaves (length ts) (eat t ts)"
  using tl_shorter [of t ts] by (auto simp: eat_def)

lemma skip_newlines_le: "length (skip_newlines ts) \<le> length ts"
  by (simp add: skip_newlines_def length_dropWhile_le)

lemma op_nonempty: "add_op (tk_type (peek 0 ts)) = Some op \<Longrightarrow> length (tl ts) < length ts"
    "mul_op (tk_type (peek 0 ts)) = Some op \<Longrightarrow> length (tl ts) < length ts"
  by (cases ts; auto simp: add_op_def mul_op_def peek_def mk_token_def split: if_splits)+

text \<open>A parser of expressions that takes at least one token, on fewer than \<open>n\<close> tokens.\<close>

definition consumes :: "nat \<Rightarrow> 'a parser \<Rightarrow> bool" where
  "consumes n E \<longleftrightarrow> (\<forall>ts. length ts < n \<longrightarrow> leaves (length ts) (E ts))"

lemma consumesD: "consumes n E \<Longrightarrow> length ts < n \<Longrightarrow> leaves (length ts) (E ts)"
  by (simp add: consumes_def)

lemma consumes_mono: "consumes n E \<Longrightarrow> k \<le> n \<Longrightarrow> consumes k E"
  by (simp add: consumes_def)

text \<open>The loops; a loop may stop at once.\<close>

lemma binary_loop_leaves:
  assumes ops: "\<And>ts op. ops (tk_type (peek 0 ts)) = Some op \<Longrightarrow> length (tl ts) < length ts" and U: "consumes (length ts) U"
  shows "leaves (Suc (length ts)) (binary_loop ops U left ts)"
  using U
proof (induction "length ts" arbitrary: left ts rule: less_induct)
  case less
  have IH: "leaves (Suc (length ts)) (binary_loop ops U l ts')" if "length ts' < length ts" for l ts'
    by (rule leaves_mono [OF less.hyps [OF that consumes_mono [OF less.prems]]]) (use that in simp_all)
  show ?case
  proof (cases "ops (tk_type (peek 0 ts))")
    case (Some op)
    then have t: "length (tl ts) < length ts" by (rule ops)
    have "leaves (Suc (length ts)) (bindR (U (tl ts)) (\<lambda>(right, ts').
        if fewer ts' ts then binary_loop ops U (BinaryExpr op left right (expr_pos left)) ts' else None))"
      by (rule leaves_bind [OF consumesD [OF less.prems t]]) (use IH t in simp)
    with Some show ?thesis by (subst binary_loop.simps) simp
  qed (subst binary_loop.simps, simp)
qed

lemma parse_unary_leaves:
  assumes "consumes (Suc (length ts)) P"
  shows "leaves (length ts) (parse_unary P ts)"
  using assms
proof (induction "length ts" arbitrary: ts rule: less_induct)
  case less
  show ?case
  proof (cases "at_type TMinus ts")
    case True
    then have t: "length (tl ts) < length ts" by (rule tl_shorter) simp
    have "leaves (length (tl ts)) (parse_unary P (tl ts))"
      using less.hyps [OF t] consumes_mono [OF less.prems] t by simp
    then show ?thesis using True t by (subst parse_unary.simps) (auto intro: leaves_bind)
  qed (use consumesD [OF less.prems] in \<open>simp add: parse_unary.simps [of P ts]\<close>)
qed

lemma postfix_loop_leaves:
  assumes "consumes (length ts) E"
  shows "leaves (Suc (length ts)) (postfix_loop E e ts)"
  using assms
proof (induction "length ts" arbitrary: e ts rule: less_induct)
  case less
  have IH: "leaves (Suc (length ts)) (postfix_loop E l ts')" if "length ts' < length ts" for l ts'
    by (rule leaves_mono [OF less.hyps [OF that consumes_mono [OF less.prems]]]) (use that in simp_all)
  consider "at_type TDot ts" | "at_type TLBrack ts" | "\<not> at_type TDot ts" "\<not> at_type TLBrack ts" by blast
  then show ?case
  proof cases
    case 1
    then have t: "length (tl ts) < length ts" by (rule tl_shorter) simp
    have "leaves (Suc (length ts)) (bindR (eat TName (tl ts)) (\<lambda>(name, ts').
        if fewer ts' ts then postfix_loop E (AttrExpr e (tk_value name) (tk_pos name)) ts' else None))"
      by (rule leaves_bind [OF leaves_eat]) (use IH t in simp_all)
    with 1 show ?thesis by (subst postfix_loop.simps) simp
  next
    case 2
    then have t: "length (tl ts) < length ts" by (rule tl_shorter) simp
    have inner: "leaves (Suc (length ts)) (bindR (eat TRBrack ts1) (\<lambda>(_, ts').
        if fewer ts' ts then postfix_loop E x ts' else None))" if "length ts1 < length ts" for ts1 x
      by (rule leaves_bind [OF leaves_eat]) (use IH that in simp_all)
    have "leaves (Suc (length ts)) (bindR (E (tl ts)) (\<lambda>(index, ts1).
        if at_type TColon ts1 then fail (slice_reflex (peek 0 ts1))
        else bindR (eat TRBrack ts1) (\<lambda>(_, ts').
          if fewer ts' ts then postfix_loop E (IndexExpr e index (tk_pos (peek 0 ts))) ts' else None)))"
      by (rule leaves_bind [OF consumesD [OF less.prems t]]) (use inner t in simp)
    moreover have "\<not> at_type TDot ts" using 2 by (simp add: at_type_def)
    ultimately show ?thesis using 2 by (subst postfix_loop.simps) simp
  qed (subst postfix_loop.simps, simp)
qed

lemma skip_newlines_less: "length ts < n \<Longrightarrow> length (skip_newlines ts) < n"
  using skip_newlines_le [of ts] by simp

lemma next_element: "at_type TComma (skip_newlines ts) \<Longrightarrow> length ts < n \<Longrightarrow> length (skip_newlines (tl (skip_newlines ts))) < n"
  using tl_shorter [of TComma "skip_newlines ts"] skip_newlines_less [of ts n]
  by (intro skip_newlines_less) simp

lemma list_loop_leaves:
  assumes "consumes (Suc (length ts)) E"
  shows "leaves (Suc (length ts)) (list_loop E els ts)"
  using assms
proof (induction "length ts" arbitrary: els ts rule: less_induct)
  case less
  have IH: "leaves (Suc (length ts)) (list_loop E l ts')" if "length ts' < length ts" for l ts'
    by (rule leaves_mono [OF less.hyps [OF that consumes_mono [OF less.prems]]]) (use that in simp_all)
  have "leaves (Suc (length ts)) (bindR (E ts) (\<lambda>(e, ts1). let ts2 = skip_newlines ts1 in
        if at_type TComma ts2
        then (let ts' = skip_newlines (tl ts2) in if fewer ts' ts then list_loop E (els @ [e]) ts' else None)
        else ret (els @ [e], ts2)))"
    by (rule leaves_bind [OF consumesD [OF less.prems lessI]])
       (use next_element skip_newlines_less IH in \<open>simp add: Let_def less_Suc_eq\<close>)
  then show ?case by (subst list_loop.simps) simp
qed

lemma parse_dict_key_leaves: "leaves (length ts) (parse_dict_key ts)"
  by (cases ts) (auto simp: parse_dict_key_def Let_def peek_def mk_token_def)

lemma dict_loop_leaves:
  assumes "consumes (length ts) E"
  shows "leaves (Suc (length ts)) (dict_loop E ents ts)"
  using assms
proof (induction "length ts" arbitrary: ents ts rule: less_induct)
  case less
  have IH: "leaves (Suc (length ts)) (dict_loop E l ts')" if "length ts' < length ts" for l ts'
    by (rule leaves_mono [OF less.hyps [OF that consumes_mono [OF less.prems]]]) (use that in simp_all)
  have E: "leaves (Suc (length ts)) (bindR (E ts2) (\<lambda>(e, ts3). let ts4 = skip_newlines ts3 in
          if at_type TComma ts4
          then (let ts' = skip_newlines (tl ts4) in if fewer ts' ts then dict_loop E (ents @ [(key, e)]) ts' else None)
          else ret (ents @ [(key, e)], ts4)))" if "length ts2 < length ts" for ts2 key
    by (rule leaves_bind [OF consumesD [OF less.prems that]])
       (use that next_element skip_newlines_less IH in \<open>simp add: Let_def less_Suc_eq\<close>)
  have "leaves (Suc (length ts)) (bindR (eat TColon ts1) (\<lambda>(_, ts2).
        bindR (E ts2) (\<lambda>(e, ts3). let ts4 = skip_newlines ts3 in
          if at_type TComma ts4
          then (let ts' = skip_newlines (tl ts4) in if fewer ts' ts then dict_loop E (ents @ [(key, e)]) ts' else None)
          else ret (ents @ [(key, e)], ts4))))" if "length ts1 < length ts" for ts1 key
    by (rule leaves_bind [OF leaves_eat]) (use that E in simp_all)
  then show ?case by (subst dict_loop.simps) (auto intro: leaves_bind [OF parse_dict_key_leaves])
qed

lemma parse_arg_leaves:
  assumes "consumes (Suc (length ts)) E"
  shows "leaves (length ts) (parse_arg E ts)"
proof -
  have E: "leaves (length ts) (bindR (E ts1) (\<lambda>(e, ts2). ret ((x, e), ts2)))" if "length ts1 < Suc (length ts)"
    for ts1 and x :: "string option"
    by (rule leaves_bind [OF consumesD [OF assms that]]) (use that in simp)
  have "leaves (length ts) (bindR (eat TEq (tl ts)) (\<lambda>(_, ts1). bindR (E ts1) (\<lambda>(e, ts2). ret ((x, e), ts2))))"
    for x :: "string option"
  proof (rule leaves_bind [OF leaves_eat])
    fix a :: token and ts1 :: "token list"
    assume "length ts1 < length (tl ts)"
    then have "length ts1 < Suc (length ts)" by simp
    then show "leaves (length ts) (case (a, ts1) of (_, ts1) \<Rightarrow> bindR (E ts1) (\<lambda>(e, ts2). ret ((x, e), ts2)))"
      using E [of ts1 x] by simp
  qed simp
  then show ?thesis using E [of ts None] by (simp add: parse_arg_def)
qed

lemma args_loop_leaves:
  assumes "consumes (Suc (length ts)) E"
  shows "leaves (Suc (length ts)) (args_loop E args ts)"
  using assms
proof (induction "length ts" arbitrary: args ts rule: less_induct)
  case less
  have IH: "leaves (Suc (length ts)) (args_loop E l ts')" if "length ts' < length ts" for l ts'
    by (rule leaves_mono [OF less.hyps [OF that consumes_mono [OF less.prems]]]) (use that in simp_all)
  have "length (tl ts1) < length ts" if "length ts1 < length ts" for ts1 :: "token list" using that by simp
  then show ?case
    by (subst args_loop.simps) (rule leaves_bind [OF parse_arg_leaves [OF less.prems]], use IH in simp)
qed

text \<open>The parts of an expression.\<close>

lemma parse_list_leaves: "consumes (length ts) E \<Longrightarrow> leaves (length ts) (parse_list E ts)"
proof -
  assume E: "consumes (length ts) E"
  have last: "leaves (length ts) (bindR (eat TRBrack (skip_newlines ts2)) (\<lambda>(_, ts3). ret (x, ts3)))"
    if "length ts2 < length ts" for ts2 and x :: expr
    by (rule leaves_bind [OF leaves_eat]) (use skip_newlines_less [OF that] in simp_all)
  have "leaves (length ts) (bindR (list_loop E [] (skip_newlines ts1)) (\<lambda>(els, ts2).
      bindR (eat TRBrack (skip_newlines ts2)) (\<lambda>(_, ts3). ret (ListLit els p, ts3))))" if "length ts1 < length ts" for ts1 p
    by (rule leaves_bind [OF list_loop_leaves [OF consumes_mono [OF E]]])
       (use last skip_newlines_less [OF that] in simp_all)
  then show ?thesis unfolding parse_list_def by (intro leaves_bind [OF leaves_eat]) simp_all
qed

lemma parse_dict_leaves: "consumes (length ts) E \<Longrightarrow> leaves (length ts) (parse_dict E ts)"
proof -
  assume E: "consumes (length ts) E"
  have last: "leaves (length ts) (bindR (eat TRBrace (skip_newlines ts2)) (\<lambda>(_, ts3). ret (x, ts3)))"
    if "length ts2 < length ts" for ts2 and x :: expr
    by (rule leaves_bind [OF leaves_eat]) (use skip_newlines_less [OF that] in simp_all)
  have "leaves (length ts) (bindR (dict_loop E [] (skip_newlines ts1)) (\<lambda>(ents, ts2).
      bindR (eat TRBrace (skip_newlines ts2)) (\<lambda>(_, ts3). ret (DictLit ents p, ts3))))" if "length ts1 < length ts" for ts1 p
    by (rule leaves_bind [OF dict_loop_leaves [OF consumes_mono [OF E]]])
       (use last skip_newlines_less [OF that] in simp_all)
  then show ?thesis unfolding parse_dict_def by (intro leaves_bind [OF leaves_eat]) simp_all
qed

lemma parse_call_leaves: "consumes (length ts) E \<Longrightarrow> leaves (length ts) (parse_call E ts)"
proof -
  assume E: "consumes (length ts) E"
  have last: "leaves (length ts) (bindR (eat TRPar ts3) (\<lambda>(_, ts4). ret (x, ts4)))"
    if "length ts3 < length ts" for ts3 and x :: expr
    by (rule leaves_bind [OF leaves_eat]) (use that in simp_all)
  have "leaves (Suc (length ts2)) (if at_type TRPar ts2 then ret ([], ts2) else args_loop E [] ts2)"
    if "length ts2 < length ts" for ts2
    using args_loop_leaves [OF consumes_mono [OF E]] that by simp
  then have args: "leaves (length ts) (bindR (if at_type TRPar ts2 then ret ([], ts2) else args_loop E [] ts2) (\<lambda>(args, ts3).
      bindR (eat TRPar ts3) (\<lambda>(_, ts4). ret (CallExpr f args p, ts4))))" if "length ts2 < length ts" for ts2 f p
    by (rule leaves_bind) (use that last in simp_all)
  have "leaves (length ts) (bindR (eat TLPar ts1) (\<lambda>(_, ts2).
      bindR (if at_type TRPar ts2 then ret ([], ts2) else args_loop E [] ts2) (\<lambda>(args, ts3).
      bindR (eat TRPar ts3) (\<lambda>(_, ts4). ret (CallExpr f args p, ts4)))))" if "length ts1 < length ts" for ts1 f p
    by (rule leaves_bind [OF leaves_eat]) (use that args in simp_all)
  then show ?thesis unfolding parse_call_def by (intro leaves_bind [OF leaves_eat]) simp_all
qed

lemma parse_primary_leaves:
  assumes "consumes (length ts) E"
  shows "leaves (length ts) (parse_primary E ts)"
proof (cases ts)
  case Nil
  then show ?thesis by (simp add: parse_primary_def Let_def peek_def mk_token_def)
next
  case (Cons t us)
  have "leaves (length ts) (bindR (eat TRPar ts1) (\<lambda>(_, ts2). ret (e, ts2)))" if "length ts1 < length us" for ts1 and e :: expr
    by (rule leaves_bind [OF leaves_eat]) (use that Cons in simp_all)
  then have "leaves (length ts) (bindR (E us) (\<lambda>(e, ts1). bindR (eat TRPar ts1) (\<lambda>(_, ts2). ret (e, ts2))))"
    using Cons by (intro leaves_bind [OF consumesD [OF assms]]) simp_all
  then show ?thesis
    using Cons parse_list_leaves [OF assms] parse_dict_leaves [OF assms] parse_call_leaves [OF assms]
    by (auto simp: parse_primary_def Let_def peek_def split: token_type.splits)
qed

text \<open>With an expression parser for shorter inputs, the levels take at least one token.\<close>

lemma parse_postfix_consumes:
  assumes E: "consumes n E"
  shows "consumes (Suc n) (parse_postfix E)"
  unfolding consumes_def
proof (intro allI impI)
  fix ts :: "token list"
  assume ts: "length ts < Suc n"
  have "leaves (length ts) (postfix_loop E e ts')" if "length ts' < length ts" for e ts'
    by (rule leaves_mono [OF postfix_loop_leaves [OF consumes_mono [OF E]]]) (use that ts in simp_all)
  then show "leaves (length ts) (parse_postfix E ts)"
    unfolding parse_postfix_def
    by (intro leaves_bind [OF parse_primary_leaves [OF consumes_mono [OF E]]]) (use ts in simp_all)
qed

lemma parse_unary_consumes: "consumes n P \<Longrightarrow> consumes n (parse_unary P)"
  unfolding consumes_def [of n "parse_unary P"]
  by (intro allI impI parse_unary_leaves) (auto elim: consumes_mono)

lemma binary_consumes:
  assumes U: "consumes n U" and ops: "\<And>ts op. ops (tk_type (peek 0 ts)) = Some op \<Longrightarrow> length (tl ts) < length ts"
  shows "consumes n (\<lambda>ts. bindR (U ts) (\<lambda>(left, ts'). binary_loop ops U left ts'))"
  unfolding consumes_def
proof (intro allI impI)
  fix ts :: "token list"
  assume ts: "length ts < n"
  have "leaves (length ts) (binary_loop ops U e ts')" if "length ts' < length ts" for e ts'
    by (rule leaves_mono [OF binary_loop_leaves [OF ops consumes_mono [OF U]]]) (use that ts in simp_all)
  then show "leaves (length ts) (bindR (U ts) (\<lambda>(left, ts'). binary_loop ops U left ts'))"
    by (intro leaves_bind [OF consumesD [OF U ts]]) simp
qed

lemma parse_mult_consumes: "consumes n E \<Longrightarrow> consumes (Suc n) (parse_mult E)"
  using binary_consumes [OF parse_unary_consumes [OF parse_postfix_consumes] op_nonempty(2)]
  by (simp add: parse_mult_def [abs_def] Let_def)

lemma parse_additive_consumes: "consumes n E \<Longrightarrow> consumes (Suc n) (parse_additive E)"
  using binary_consumes [OF parse_mult_consumes op_nonempty(1)] by (simp add: parse_additive_def [abs_def])

lemma parse_expr_leaves: "leaves (length ts) (parse_expr ts)"
proof (induction ts rule: parse_expr.induct)
  case (1 ts)
  then have "consumes (length ts) (\<lambda>ts'. if fewer ts' ts then parse_expr ts' else None)" by (simp add: consumes_def)
  then have "consumes (Suc (length ts)) (parse_additive (\<lambda>ts'. if fewer ts' ts then parse_expr ts' else None))"
    by (rule parse_additive_consumes)
  then show ?case by (subst parse_expr.simps) (simp add: consumes_def)
qed

lemma parse_expr_consumes: "consumes n parse_expr"
  by (simp add: consumes_def parse_expr_leaves)

section \<open>Every text is answered\<close>

lemma parse_statement_leaves: "leaves (length ts) (parse_statement ts)"
proof -
  have E: "leaves (length ts) (bindR (parse_expr ts1) (\<lambda>(e, ts2). ret (f e, ts2)))"
    if "length ts1 < Suc (length ts)" for ts1 and f :: "expr \<Rightarrow> assign + expr"
    by (rule leaves_bind [OF parse_expr_leaves]) (use that in simp)
  have "leaves (length ts) (bindR (eat TEq (tl ts)) (\<lambda>(eq, ts1). bindR (parse_expr ts1) (\<lambda>(e, ts2).
        ret (Inl \<lparr>as_name = v, as_value = e, as_pos = tk_pos eq\<rparr> :: assign + expr, ts2))))" for v
  proof (rule leaves_bind [OF leaves_eat])
    fix eq :: token and ts1 :: "token list"
    assume "length ts1 < length (tl ts)"
    then have "length ts1 < Suc (length ts)" by simp
    then show "leaves (length ts) (case (eq, ts1) of (eq, ts1) \<Rightarrow> bindR (parse_expr ts1) (\<lambda>(e, ts2).
        ret (Inl \<lparr>as_name = v, as_value = e, as_pos = tk_pos eq\<rparr> :: assign + expr, ts2)))"
      using E [of ts1 "\<lambda>e. Inl \<lparr>as_name = v, as_value = e, as_pos = tk_pos eq\<rparr>"] by simp
  qed simp
  then show ?thesis using E [of ts Inr] by (simp add: parse_statement_def)
qed

lemma end_statement_leaves: "leaves (Suc (length ts)) (end_statement ts)"
proof -
  have eat: "leaves (Suc (length ts)) (bindR (eat TNewline ts) (\<lambda>(_, ts1). ret ((), ts1)))"
    by (rule leaves_bind [OF leaves_eat]) simp_all
  have "leaves (Suc (length ts)) (bindR (if at_type TEof ts then ret ((), ts) else bindR (eat TNewline ts) (\<lambda>(_, ts1). ret ((), ts1)))
        (\<lambda>(_, ts1). ret ((), skip_newlines ts1)))"
    by (rule leaves_bind [of "Suc (length ts)"]) (use eat skip_newlines_less in simp_all)
  then show ?thesis by (simp add: end_statement_def)
qed

lemma program_loop_returns: "returns (program_loop bs res ts)"
proof (induction "length ts" arbitrary: bs res ts rule: less_induct)
  case less
  have "returns (bindR (parse_statement ts) (\<lambda>(st, ts1). bindR (end_statement ts1) (\<lambda>(_, ts').
        if fewer ts' ts then
          (case st of Inl b \<Rightarrow> program_loop (bs @ [b]) None ts' | Inr e \<Rightarrow> program_loop bs (Some e) ts')
        else None)))"
    using parse_statement_leaves [of ts] end_statement_leaves less
    by (fastforce simp: leaves_def split: sum.splits)
  then show ?case by (subst program_loop.simps) (simp split: option.split)
qed

text \<open>C32: parsing always comes to an end.  For every text the lexer and the parser return a program or an error; in
  particular each recursive call and each round of a loop is made on fewer tokens.\<close>

theorem parse_total: "(\<exists>p. parse src = ret p) \<or> (\<exists>e. parse src = fail e)"
  using program_loop_returns by (intro returnsD) (simp add: parse_def split: sum.splits)

section \<open>The equation of the code\<close>

text \<open>A level depends on the expression parser only where that is called, on fewer tokens.\<close>

definition agree :: "nat \<Rightarrow> 'a parser \<Rightarrow> 'a parser \<Rightarrow> bool" where
  "agree n E F \<longleftrightarrow> (\<forall>ts. length ts < n \<longrightarrow> E ts = F ts)"

lemma agreeD: "agree n E F \<Longrightarrow> length ts < n \<Longrightarrow> E ts = F ts"
  by (simp add: agree_def)

lemma agree_mono: "agree n E F \<Longrightarrow> k \<le> n \<Longrightarrow> agree k E F"
  by (simp add: agree_def)

lemma bindR_cong: "m = m' \<Longrightarrow> (\<And>a ts. m' = ret (a, ts) \<Longrightarrow> f (a, ts) = g (a, ts)) \<Longrightarrow> bindR m f = bindR m' g"
  by (auto simp: bindR_def ret_def split: option.splits sum.splits)

lemma bindR_eat_cong:
  "t \<noteq> TEof \<Longrightarrow> (\<And>a us. length us < length ts \<Longrightarrow> f (a, us) = g (a, us)) \<Longrightarrow> bindR (eat t ts) f = bindR (eat t ts) g"
  by (rule bindR_cong) (auto dest: leavesD [OF leaves_eat])

lemma binary_loop_cong:
  assumes ops: "\<And>ts op. ops (tk_type (peek 0 ts)) = Some op \<Longrightarrow> length (tl ts) < length ts" and U: "agree (length ts) U V"
  shows "binary_loop ops U left ts = binary_loop ops V left ts"
  using U
proof (induction "length ts" arbitrary: left ts rule: less_induct)
  case less
  have IH: "binary_loop ops U l ts' = binary_loop ops V l ts'" if "length ts' < length ts" for l ts'
    by (rule less.hyps [OF that agree_mono [OF less.prems]]) (use that in simp)
  show ?case
  proof (cases "ops (tk_type (peek 0 ts))")
    case (Some op)
    then have "U (tl ts) = V (tl ts)" by (intro agreeD [OF less.prems] ops)
    then show ?thesis
      by (subst (1 2) binary_loop.simps) (auto simp: Some IH intro!: bindR_cong)
  qed (subst (1 2) binary_loop.simps, simp)
qed

lemma parse_unary_cong: "agree (Suc (length ts)) P Q \<Longrightarrow> parse_unary P ts = parse_unary Q ts"
proof (induction "length ts" arbitrary: ts rule: less_induct)
  case less
  show ?case
  proof (cases "at_type TMinus ts")
    case True
    then have t: "length (tl ts) < length ts" by (rule tl_shorter) simp
    have "parse_unary P (tl ts) = parse_unary Q (tl ts)"
      by (rule less.hyps [OF t agree_mono [OF less.prems]]) (use t in simp)
    with True show ?thesis by (subst (1 2) parse_unary.simps) simp
  next
    case False
    then show ?thesis using agreeD [OF less.prems lessI] by (subst (1 2) parse_unary.simps) simp
  qed
qed

lemma postfix_loop_cong: "agree (length ts) E F \<Longrightarrow> postfix_loop E e ts = postfix_loop F e ts"
proof (induction "length ts" arbitrary: e ts rule: less_induct)
  case less
  have IH: "postfix_loop E l ts' = postfix_loop F l ts'" if "length ts' < length ts" for l ts'
    by (rule less.hyps [OF that agree_mono [OF less.prems]]) (use that in simp)
  have E: "E (tl ts) = F (tl ts)" if "at_type TLBrack ts"
    by (rule agreeD [OF less.prems]) (use tl_shorter [OF that] in simp)
  show ?case
    by (subst (1 2) postfix_loop.simps) (auto simp: IH E intro!: bindR_cong)
qed

lemma list_loop_cong: "agree (Suc (length ts)) E F \<Longrightarrow> list_loop E els ts = list_loop F els ts"
proof (induction "length ts" arbitrary: els ts rule: less_induct)
  case less
  have IH: "list_loop E l ts' = list_loop F l ts'" if "length ts' < length ts" for l ts'
    by (rule less.hyps [OF that agree_mono [OF less.prems]]) (use that in simp)
  show ?case
    by (subst (1 2) list_loop.simps) (auto simp: IH Let_def agreeD [OF less.prems lessI] intro!: bindR_cong)
qed

lemma dict_loop_cong: "agree (length ts) E F \<Longrightarrow> dict_loop E ents ts = dict_loop F ents ts"
proof (induction "length ts" arbitrary: ents ts rule: less_induct)
  case less
  have IH: "dict_loop E l ts' = dict_loop F l ts'" if "length ts' < length ts" for l ts'
    by (rule less.hyps [OF that agree_mono [OF less.prems]]) (use that in simp)
  have "E ts2 = F ts2" if "parse_dict_key ts = ret (k, ts1)" "eat TColon ts1 = ret (a, ts2)" for k ts1 a ts2
    using leavesD [OF parse_dict_key_leaves that(1)] leavesD [OF leaves_eat that(2)] by (intro agreeD [OF less.prems]) simp
  then show ?case
    by (subst (1 2) dict_loop.simps) (auto simp: IH Let_def intro!: bindR_cong)
qed

lemma parse_arg_cong: "agree (Suc (length ts)) E F \<Longrightarrow> parse_arg E ts = parse_arg F ts"
  using agreeD [of "Suc (length ts)" E F]
  by (auto simp: parse_arg_def intro!: bindR_cong dest!: leavesD [OF leaves_eat, rotated])

lemma args_loop_cong: "agree (Suc (length ts)) E F \<Longrightarrow> args_loop E args ts = args_loop F args ts"
proof (induction "length ts" arbitrary: args ts rule: less_induct)
  case less
  have IH: "args_loop E l ts' = args_loop F l ts'" if "length ts' < length ts" for l ts'
    by (rule less.hyps [OF that agree_mono [OF less.prems]]) (use that in simp)
  show ?case
    by (subst (1 2) args_loop.simps) (auto simp: IH parse_arg_cong [OF less.prems] intro!: bindR_cong)
qed

lemma parse_primary_cong:
  assumes "agree (length ts) E F"
  shows "parse_primary E ts = parse_primary F ts"
proof (cases ts)
  case Nil
  then show ?thesis by (simp add: parse_primary_def Let_def peek_def mk_token_def)
next
  case (Cons t us)
  have sub: "agree (Suc (length us')) E F" if "length us' < length ts" for us'
    by (rule agree_mono [OF assms]) (use that in simp)
  have "list_loop E [] (skip_newlines us') = list_loop F [] (skip_newlines us')"
    "dict_loop E [] (skip_newlines us') = dict_loop F [] (skip_newlines us')" "args_loop E [] us' = args_loop F [] us'"
    if "length us' < length ts" for us'
    by (rule list_loop_cong [OF sub [OF skip_newlines_less [OF that]]],
        rule dict_loop_cong [OF agree_mono [OF sub [OF skip_newlines_less [OF that]]]], simp,
        rule args_loop_cong [OF sub [OF that]])
  then have "parse_list E ts = parse_list F ts" "parse_dict E ts = parse_dict F ts" "parse_call E ts = parse_call F ts"
    unfolding parse_list_def parse_dict_def parse_call_def by (auto intro!: bindR_eat_cong)
  then show ?thesis using Cons agreeD [OF assms, of us] by (auto simp: parse_primary_def Let_def split: token_type.splits)
qed

lemma parse_additive_cong:
  assumes E: "consumes (length ts) E" and F: "agree (length ts) E F"
  shows "parse_additive E ts = parse_additive F ts"
proof -
  have postfix: "parse_postfix E ts' = parse_postfix F ts'" if "length ts' < Suc (length ts)" for ts'
  proof -
    have F': "agree (length ts') E F" and E': "consumes (length ts') E"
      by (rule agree_mono [OF F] consumes_mono [OF E], use that in simp)+
    have "postfix_loop E e us = postfix_loop F e us" if "length us < length ts'" for e us
      by (rule postfix_loop_cong [OF agree_mono [OF F']]) (use that in simp)
    then show ?thesis
      unfolding parse_postfix_def parse_primary_cong [OF F', symmetric]
      by (intro bindR_cong) (auto dest!: leavesD [OF parse_primary_leaves [OF E']])
  qed
  have unary: "agree (Suc (length ts)) (parse_unary (parse_postfix E)) (parse_unary (parse_postfix F))"
    unfolding agree_def by (intro allI impI parse_unary_cong) (use postfix in \<open>simp add: agree_def\<close>)
  have binary: "bindR (U ts') (\<lambda>(l, us). binary_loop ops U l us) = bindR (V ts') (\<lambda>(l, us). binary_loop ops V l us)"
    if "agree (Suc (length ts)) U V" "consumes (Suc (length ts)) U" "length ts' < Suc (length ts)"
      "\<And>ts op. ops (tk_type (peek 0 ts)) = Some op \<Longrightarrow> length (tl ts) < length ts" for U V ops ts'
  proof (rule bindR_cong)
    show "U ts' = V ts'" by (rule agreeD [OF that(1,3)])
    fix l us
    assume "V ts' = ret (l, us)"
    then have "length us < length ts'" using agreeD [OF that(1,3)] leavesD [OF consumesD [OF that(2,3)]] by simp
    then have "agree (length us) U V" by (intro agree_mono [OF that(1)]) (use that(3) in simp)
    from binary_loop_cong [OF that(4) this] show "(case (l, us) of (l, us) \<Rightarrow> binary_loop ops U l us) =
        (case (l, us) of (l, us) \<Rightarrow> binary_loop ops V l us)" by simp
  qed
  have cu: "consumes (Suc (length ts)) (parse_unary (parse_postfix E))"
    by (rule parse_unary_consumes [OF parse_postfix_consumes [OF E]])
  have mult: "agree (Suc (length ts)) (parse_mult E) (parse_mult F)"
    unfolding agree_def parse_mult_def Let_def by (intro allI impI binary unary cu op_nonempty)
  show ?thesis
    unfolding parse_additive_def by (intro binary mult parse_mult_consumes E op_nonempty) simp
qed

text \<open>The recursive call is the expression parser itself.\<close>

lemma parse_expr_eq: "parse_expr ts = parse_additive parse_expr ts"
proof -
  have "consumes (length ts) (\<lambda>ts'. if fewer ts' ts then parse_expr ts' else None)"
    using parse_expr_leaves by (simp add: consumes_def)
  moreover have "agree (length ts) (\<lambda>ts'. if fewer ts' ts then parse_expr ts' else None) parse_expr"
    by (simp add: agree_def)
  ultimately show ?thesis by (subst parse_expr.simps) (rule parse_additive_cong)
qed

end
