(* ===== verification/Calc_Printer.thy ===== *)
theory Calc_Printer
  imports Calc_Grammar
begin

text \<open>
  A printer of programs, and the parser's promise about it: the text of a program is read back as that program, up to
  positions, with the fewest parentheses that the precedences of the code allow.
\<close>

section \<open>Printing\<close>

type_synonym symbol = "token_type \<times> string"

fun op_symbol :: "binop \<Rightarrow> symbol" where
  "op_symbol Add = (TPlus, ''+'')"
| "op_symbol Sub = (TMinus, ''-'')"
| "op_symbol Mul = (TStar, ''*'')"
| "op_symbol Div = (TSlash, ''/'')"

fun additive :: "binop \<Rightarrow> bool" where
  "additive Add = True"
| "additive Sub = True"
| "additive _ = False"

definition parens :: "symbol list \<Rightarrow> symbol list" where
  "parens s = (TLPar, ''('') # s @ [(TRPar, '')'')]"

text \<open>The symbols of an expression where level \<open>0\<close> (sums), \<open>1\<close> (products), \<open>2\<close> (signs), \<open>3\<close> (postfix) may stand, with the
  fewest parentheses.\<close>

fun pr :: "nat \<Rightarrow> 'p expr_at \<Rightarrow> symbol list"
  and pr_args :: "(string option \<times> 'p expr_at) list \<Rightarrow> symbol list"
  and pr_list :: "'p expr_at list \<Rightarrow> symbol list"
  and pr_entries :: "(string \<times> 'p expr_at) list \<Rightarrow> symbol list"
where
  "pr l (NumLit v _) = [(TNum, num_str v)]"
| "pr l (StrLit s _) = [(TStr, s)]"
| "pr l (NameRef x _) = [(TName, x)]"
| "pr l (CallExpr f args _) = (TName, f) # (TLPar, ''('') # pr_args args @ [(TRPar, '')'')]"
| "pr l (AttrExpr e n _) = pr 3 e @ [(TDot, ''.''), (TName, n)]"
| "pr l (IndexExpr e i _) = pr 3 e @ (TLBrack, ''['') # pr 0 i @ [(TRBrack, '']'')]"
| "pr l (BinaryExpr op a b _) =
     (if additive op
      then (if 0 < l then parens else id) (pr 0 a @ op_symbol op # pr 1 b)
      else (if 1 < l then parens else id) (pr 1 a @ op_symbol op # pr 2 b))"
| "pr l (UnaryExpr e _) = (if 2 < l then parens else id) ((TMinus, ''-'') # pr 2 e)"
| "pr l (ListLit es _) = (TLBrack, ''['') # pr_list es @ [(TRBrack, '']'')]"
| "pr l (DictLit ents _) = (TLBrace, ''{'') # pr_entries ents @ [(TRBrace, ''}'')]"
| "pr_args [] = []"
| "pr_args ((n, e) # as) = (case n of None \<Rightarrow> [] | Some x \<Rightarrow> [(TName, x), (TEq, ''='')]) @ pr 0 e @
     (if as = [] then [] else (TComma, '','') # pr_args as)"
| "pr_list [] = []"
| "pr_list (e # es) = pr 0 e @ (if es = [] then [] else (TComma, '','') # pr_list es)"
| "pr_entries [] = []"
| "pr_entries ((k, e) # es) = (TStr, k) # (TColon, '':'') # pr 0 e @ (if es = [] then [] else (TComma, '','') # pr_entries es)"

text \<open>Texts of numbers, names and strings that the lexer takes as one token; literals that read back.\<close>

definition numeral_text :: "string \<Rightarrow> bool" where
  "numeral_text s \<longleftrightarrow> (case s of [] \<Rightarrow> False | c # cs \<Rightarrow> starts_number c cs \<and> list_all is_numeral cs \<and>
     length (filter (\<lambda>x. x = CHR ''.'') s) \<le> 1)"

definition name_text :: "string \<Rightarrow> bool" where
  "name_text s \<longleftrightarrow> (case s of [] \<Rightarrow> False | c # cs \<Rightarrow> isIdentStart c \<and> list_all isIdentPart cs)"

definition string_text :: "string \<Rightarrow> bool" where
  "string_text s \<longleftrightarrow> list_all (\<lambda>c. c \<noteq> CHR 34 \<and> c \<noteq> newline) s"

fun readable :: "'p expr_at \<Rightarrow> bool"
  and readable_args :: "(string option \<times> 'p expr_at) list \<Rightarrow> bool"
  and readable_list :: "'p expr_at list \<Rightarrow> bool"
  and readable_entries :: "(string \<times> 'p expr_at) list \<Rightarrow> bool"
where
  "readable (NumLit v _) \<longleftrightarrow> js_number (num_str v) = v \<and> numeral_text (num_str v)"
| "readable (StrLit s _) \<longleftrightarrow> string_text s"
| "readable (NameRef x _) \<longleftrightarrow> name_text x"
| "readable (CallExpr f args _) \<longleftrightarrow> name_text f \<and> readable_args args"
| "readable (AttrExpr e n _) \<longleftrightarrow> name_text n \<and> readable e"
| "readable (IndexExpr e i _) \<longleftrightarrow> readable e \<and> readable i"
| "readable (BinaryExpr _ a b _) \<longleftrightarrow> readable a \<and> readable b"
| "readable (UnaryExpr e _) \<longleftrightarrow> readable e"
| "readable (ListLit es _) \<longleftrightarrow> readable_list es"
| "readable (DictLit ents _) \<longleftrightarrow> readable_entries ents"
| "readable_args [] \<longleftrightarrow> True"
| "readable_args ((n, e) # as) \<longleftrightarrow> (case n of None \<Rightarrow> True | Some x \<Rightarrow> name_text x) \<and> readable e \<and> readable_args as"
| "readable_list [] \<longleftrightarrow> True"
| "readable_list (e # es) \<longleftrightarrow> readable e \<and> readable_list es"
| "readable_entries [] \<longleftrightarrow> True"
| "readable_entries ((k, e) # es) \<longleftrightarrow> string_text k \<and> readable e \<and> readable_entries es"

definition erase :: "'p expr_at \<Rightarrow> unit expr_at" where
  "erase e = map_expr_at (\<lambda>_. ()) e"

definition syms :: "token list \<Rightarrow> symbol list" where
  "syms ts = map (\<lambda>t. (tk_type t, tk_value t)) ts"

text \<open>The first symbols of an expression.\<close>

definition starts :: "token_type set" where
  "starts = {TNum, TStr, TName, TLPar, TLBrack, TLBrace, TMinus}"

lemma pr_start:
  "\<exists>t v xs. pr l e = (t, v) # xs \<and> t \<in> starts \<and> (2 < l \<longrightarrow> t \<noteq> TMinus) \<and> (t = TName \<longrightarrow> xs = [] \<or> fst (hd xs) \<noteq> TEq)"
proof (induction e arbitrary: l)
  case (AttrExpr e n p)
  obtain t v xs where "pr 3 e = (t, v) # xs" "t \<in> starts" "t \<noteq> TMinus" "t = TName \<longrightarrow> xs = [] \<or> fst (hd xs) \<noteq> TEq"
    using AttrExpr.IH [of 3] by auto
  then show ?case by (cases xs) auto
next
  case (IndexExpr e i p)
  obtain t v xs where "pr 3 e = (t, v) # xs" "t \<in> starts" "t \<noteq> TMinus" "t = TName \<longrightarrow> xs = [] \<or> fst (hd xs) \<noteq> TEq"
    using IndexExpr.IH(1) [of 3] by auto
  then show ?case by (cases xs) auto
next
  case (BinaryExpr op a b p)
  have "\<exists>t v xs. pr k a @ op_symbol op # ys = (t, v) # xs \<and> t \<in> starts \<and> (t = TName \<longrightarrow> xs = [] \<or> fst (hd xs) \<noteq> TEq)" for k ys
  proof -
    obtain t v xs where "pr k a = (t, v) # xs" "t \<in> starts" "t = TName \<longrightarrow> xs = [] \<or> fst (hd xs) \<noteq> TEq"
      using BinaryExpr.IH(1) [of k] by auto
    then show ?thesis by (cases xs; cases op) auto
  qed
  then show ?case by (auto simp: parens_def starts_def)
qed (auto simp: starts_def parens_def)

section \<open>Reading back\<close>

lemma peek_simps [simp]: "peek 0 (t # ts) = t" "peek (Suc 0) (t # u # ts) = u" "at_type k (t # ts) \<longleftrightarrow> tk_type t = k"
  by (simp_all add: peek_def at_type_def)

lemma eat_Cons [simp]: "tk_type t = k \<Longrightarrow> eat k (t # ts) = ret (t, ts)"
  by (simp add: eat_def)

lemma syms_simps [simp]: "syms [] = []" "syms (t # ts) = (tk_type t, tk_value t) # syms ts" "syms (xs @ ys) = syms xs @ syms ys"
  by (simp_all add: syms_def)

lemma syms_Nil [simp]: "syms ts = [] \<longleftrightarrow> ts = []"
  by (simp add: syms_def)

lemma syms_Cons: "syms us = (k, v) # xs \<longleftrightarrow> (\<exists>t ts. us = t # ts \<and> tk_type t = k \<and> tk_value t = v \<and> syms ts = xs)"
  by (cases us) auto

lemma syms_append: "syms us = xs @ ys \<longleftrightarrow> (\<exists>as bs. us = as @ bs \<and> syms as = xs \<and> syms bs = ys)"
  unfolding syms_def by (simp add: map_eq_append_conv) metis

abbreviation U :: "expr parser" where
  "U \<equiv> parse_unary (parse_postfix parse_expr)"

abbreviation M :: "expr parser" where
  "M \<equiv> parse_mult parse_expr"

definition nt :: "token list \<Rightarrow> token_type" where
  "nt ts = tk_type (peek 0 ts)"

lemma nt_Cons [simp]: "nt (t # ts) = tk_type t"
  by (simp add: nt_def)

lemma at_type_nt: "at_type k ts \<longleftrightarrow> nt ts = k"
  by (simp add: at_type_def nt_def)

text \<open>What the parsers of the levels do with the symbols of an expression.\<close>

definition lv3 :: "'p expr_at \<Rightarrow> bool" where
  "lv3 e \<longleftrightarrow> (\<forall>us rest. syms us = pr 3 e \<longrightarrow> rest \<noteq> [] \<longrightarrow> nt rest \<noteq> TLPar \<longrightarrow>
     (\<exists>e'. erase e' = erase e \<and> parse_postfix parse_expr (us @ rest) = postfix_loop parse_expr e' rest))"

definition lv2 :: "'p expr_at \<Rightarrow> bool" where
  "lv2 e \<longleftrightarrow> (\<forall>us rest. syms us = pr 2 e \<longrightarrow> rest \<noteq> [] \<longrightarrow> nt rest \<notin> {TDot, TLBrack, TLPar} \<longrightarrow>
     (\<exists>e'. erase e' = erase e \<and> U (us @ rest) = ret (e', rest)))"

definition lv1 :: "'p expr_at \<Rightarrow> bool" where
  "lv1 e \<longleftrightarrow> (\<forall>us rest. syms us = pr 1 e \<longrightarrow> rest \<noteq> [] \<longrightarrow> nt rest \<notin> {TDot, TLBrack, TLPar} \<longrightarrow>
     (\<exists>e'. erase e' = erase e \<and> M (us @ rest) = binary_loop mul_op U e' rest))"

definition lv0 :: "'p expr_at \<Rightarrow> bool" where
  "lv0 e \<longleftrightarrow> (\<forall>us rest. syms us = pr 0 e \<longrightarrow> rest \<noteq> [] \<longrightarrow> nt rest \<notin> {TDot, TLBrack, TLPar, TStar, TSlash} \<longrightarrow>
     (\<exists>e'. erase e' = erase e \<and> parse_expr (us @ rest) = binary_loop add_op M e' rest))"

lemma binary_loop_stop: "ops (nt rest) = None \<Longrightarrow> binary_loop ops V e rest = ret (e, rest)"
  by (subst binary_loop.simps) (simp add: nt_def)

lemma postfix_loop_stop: "nt rest \<notin> {TDot, TLBrack, TLPar} \<Longrightarrow> postfix_loop E e rest = ret (e, rest)"
  by (subst postfix_loop.simps) (simp add: at_type_nt)

lemma lv3_lv2:
  assumes "lv3 e" "pr 2 e = pr 3 e"
  shows "lv2 e"
  unfolding lv2_def
proof (intro allI impI)
  fix us rest
  assume us: "syms us = pr 2 e" and rest: "rest \<noteq> []" "nt rest \<notin> {TDot, TLBrack, TLPar}"
  obtain t v xs where "pr 3 e = (t, v) # xs" "t \<noteq> TMinus" using pr_start [of 3 e] by auto
  then have "\<not> at_type TMinus (us @ rest)" using us assms(2) by (auto simp: syms_Cons)
  then have "U (us @ rest) = parse_postfix parse_expr (us @ rest)" by (subst parse_unary.simps) simp
  moreover obtain e' where "erase e' = erase e" "parse_postfix parse_expr (us @ rest) = postfix_loop parse_expr e' rest"
    using assms us rest unfolding lv3_def by auto
  ultimately show "\<exists>e'. erase e' = erase e \<and> U (us @ rest) = ret (e', rest)"
    using rest(2) by (auto simp: postfix_loop_stop)
qed

lemma lv2_lv1:
  assumes "lv2 e" "pr 1 e = pr 2 e"
  shows "lv1 e"
  unfolding lv1_def parse_mult_def Let_def
proof (intro allI impI)
  fix us rest
  assume "syms us = pr 1 e" "rest \<noteq> []" "nt rest \<notin> {TDot, TLBrack, TLPar}"
  then obtain e' where "erase e' = erase e" "U (us @ rest) = ret (e', rest)"
    using assms unfolding lv2_def by auto
  then show "\<exists>e'. erase e' = erase e \<and> bindR (U (us @ rest)) (\<lambda>(left, ts'). binary_loop mul_op U left ts') = binary_loop mul_op U e' rest"
    by auto
qed

lemma lv1_lv0:
  assumes "lv1 e" "pr 0 e = pr 1 e"
  shows "lv0 e"
  unfolding lv0_def
proof (intro allI impI)
  fix us rest
  assume a: "syms us = pr 0 e" "rest \<noteq> []" "nt rest \<notin> {TDot, TLBrack, TLPar, TStar, TSlash}"
  then obtain e' where "erase e' = erase e" "M (us @ rest) = binary_loop mul_op U e' rest"
    using assms unfolding lv1_def by auto
  moreover have "binary_loop mul_op U e' rest = ret (e', rest)" using a(3) by (intro binary_loop_stop) (simp add: mul_op_def)
  ultimately show "\<exists>e'. erase e' = erase e \<and> parse_expr (us @ rest) = binary_loop add_op M e' rest"
    by (subst parse_expr_eq) (auto simp: parse_additive_def)
qed

text \<open>A whole expression, before what can follow one.\<close>

definition ends_expr :: "token list \<Rightarrow> bool" where
  "ends_expr rest \<longleftrightarrow> rest \<noteq> [] \<and> nt rest \<notin> {TDot, TLBrack, TLPar, TStar, TSlash, TPlus, TMinus}"

lemma lv0_expr:
  assumes "lv0 e" "syms us = pr 0 e" "ends_expr rest"
  shows "\<exists>e'. erase e' = erase e \<and> parse_expr (us @ rest) = ret (e', rest)"
proof -
  obtain e' where "erase e' = erase e" "parse_expr (us @ rest) = binary_loop add_op M e' rest"
    using assms unfolding lv0_def ends_expr_def by auto
  moreover have "binary_loop add_op M e' rest = ret (e', rest)"
    using assms(3) by (intro binary_loop_stop) (simp add: add_op_def ends_expr_def)
  ultimately show ?thesis by auto
qed

lemma lv_all_from_3:
  assumes "lv3 e" "pr 2 e = pr 3 e" "pr 1 e = pr 2 e" "pr 0 e = pr 1 e"
  shows "lv3 e \<and> lv2 e \<and> lv1 e \<and> lv0 e"
  using lv3_lv2 lv2_lv1 lv1_lv0 assms by blast

lemma lv3_primary:
  assumes "\<And>us rest. syms us = pr 3 e \<Longrightarrow> rest \<noteq> [] \<Longrightarrow> nt rest \<noteq> TLPar \<Longrightarrow>
      \<exists>e'. erase e' = erase e \<and> parse_primary parse_expr (us @ rest) = ret (e', rest)"
  shows "lv3 e"
  unfolding lv3_def parse_postfix_def using assms by fastforce

lemma lv3_parens:
  assumes "lv0 e" "pr 3 e = parens (pr 0 e)"
  shows "lv3 e"
proof (rule lv3_primary)
  fix us rest
  assume us: "syms us = pr 3 e"
  then obtain t ts u where ts: "us = t # ts @ [u]" "tk_type t = TLPar" "syms ts = pr 0 e" "tk_type u = TRPar"
    using assms(2) by (auto simp: parens_def syms_Cons syms_append)
  then obtain e' where "erase e' = erase e" "parse_expr (ts @ u # rest) = ret (e', u # rest)"
    using lv0_expr [OF assms(1) ts(3), of "u # rest"] by (auto simp: ends_expr_def)
  then show "\<exists>e'. erase e' = erase e \<and> parse_primary parse_expr (us @ rest) = ret (e', rest)"
    using ts by (auto simp: parse_primary_def)
qed

section \<open>Panels and calls read back\<close>

lemma skip_stop: "nt ts \<noteq> TNewline \<Longrightarrow> skip_newlines ts = ts"
  by (cases ts) (auto simp: skip_newlines_def)

lemma nt_expr:
  assumes "syms us = pr l e @ xs"
  shows "nt (us @ rest) \<in> starts"
proof -
  obtain t v ys where "pr l e = (t, v) # ys" "t \<in> starts" using pr_start [of l e] by auto
  then show ?thesis using assms by (auto simp: syms_Cons)
qed

lemma starts_not: "t \<in> starts \<Longrightarrow> t \<notin> {TRBrack, TRBrace, TRPar, TNewline, TComma, TEof, TColon}"
  by (auto simp: starts_def)

lemma list_loop_reads:
  assumes "\<And>e. e \<in> set es \<Longrightarrow> lv0 e" "syms us = pr_list es" "tk_type rb = TRBrack"
  shows "\<exists>es'. map erase es' = map erase es \<and> list_loop parse_expr els (us @ rb # rest) = ret (els @ es', rb # rest)"
  using assms
proof (induction es arbitrary: us els)
  case Nil
  then show ?case by (subst list_loop.simps) simp
next
  case (Cons e es)
  obtain ue ur where u: "us = ue @ ur" "syms ue = pr 0 e" "syms ur = (if es = [] then [] else (TComma, '','') # pr_list es)"
    using Cons.prems(2) by (auto simp: syms_append)
  have first: "\<not> at_type TRBrack (us @ rb # rest)"
    using nt_expr [of us 0 e _ "rb # rest"] Cons.prems(2) by (auto simp: at_type_nt dest: starts_not)
  show ?case
  proof (cases "es = []")
    case True
    obtain e' where "erase e' = erase e" "parse_expr (ue @ rb # rest) = ret (e', rb # rest)"
      using lv0_expr [of e ue "rb # rest"] Cons.prems u(2) by (auto simp: ends_expr_def)
    then show ?thesis using True u(1,3) first Cons.prems(3)
      by (subst list_loop.simps) (auto simp: Let_def skip_stop intro!: exI [of _ "[e']"])
  next
    case False
    then obtain c uc where c: "ur = c # uc" "tk_type c = TComma" "syms uc = pr_list es" using u(3) by (auto simp: syms_Cons)
    obtain e' where e': "erase e' = erase e" "parse_expr (ue @ c # uc @ rb # rest) = ret (e', c # uc @ rb # rest)"
      using lv0_expr [of e ue "c # uc @ rb # rest"] Cons.prems u(2) c(2) by (auto simp: ends_expr_def)
    obtain es' where es': "map erase es' = map erase es"
      "list_loop parse_expr (els @ [e']) (uc @ rb # rest) = ret ((els @ [e']) @ es', rb # rest)"
      using Cons.IH [OF Cons.prems(1) c(3) Cons.prems(3), of "els @ [e']"] by auto
    obtain e2 es2 where "es = e2 # es2" using False by (cases es) auto
    then have "nt (uc @ rb # rest) \<in> starts" using c(3) by (intro nt_expr [of uc 0 e2]) simp
    then have "skip_newlines (uc @ rb # rest) = uc @ rb # rest" by (intro skip_stop) (auto dest: starts_not)
    then show ?thesis using u(1) c first e' es'
      by (subst list_loop.simps) (auto simp: Let_def skip_stop intro!: exI [of _ "e' # es'"])
  qed
qed

lemma dict_loop_reads:
  assumes "\<And>a. a \<in> set es \<Longrightarrow> lv0 (snd a)" "syms us = pr_entries es" "tk_type rb = TRBrace"
  shows "\<exists>es'. map (map_prod id erase) es' = map (map_prod id erase) es \<and>
    dict_loop parse_expr els (us @ rb # rest) = ret (els @ es', rb # rest)"
  using assms
proof (induction es arbitrary: us els)
  case Nil
  then show ?case by (subst dict_loop.simps) simp
next
  case (Cons ke es)
  obtain k e where ke: "ke = (k, e)" by (cases ke)
  obtain a b ue ur where u: "us = a # b # ue @ ur" "tk_type a = TStr" "tk_value a = k" "tk_type b = TColon" "syms ue = pr 0 e"
      "syms ur = (if es = [] then [] else (TComma, '','') # pr_entries es)"
    using Cons.prems(2) by (auto simp: ke syms_append syms_Cons)
  have key: "parse_dict_key (us @ ys) = ret (k, b # ue @ ur @ ys)" for ys using u by (simp add: parse_dict_key_def)
  show ?case
  proof (cases "es = []")
    case True
    obtain e' where "erase e' = erase e" "parse_expr (ue @ rb # rest) = ret (e', rb # rest)"
      using lv0_expr [of e ue "rb # rest"] Cons.prems(1) [of ke] Cons.prems(3) u(5) by (auto simp: ke ends_expr_def)
    then show ?thesis using True u Cons.prems(3) key
      by (subst dict_loop.simps) (auto simp: Let_def skip_stop ke intro!: exI [of _ "[(k, e')]"])
  next
    case False
    then obtain c uc where c: "ur = c # uc" "tk_type c = TComma" "syms uc = pr_entries es" using u(6) by (auto simp: syms_Cons)
    obtain e' where e': "erase e' = erase e" "parse_expr (ue @ c # uc @ rb # rest) = ret (e', c # uc @ rb # rest)"
      using lv0_expr [of e ue "c # uc @ rb # rest"] Cons.prems(1) [of ke] u(5) c(2) by (auto simp: ke ends_expr_def)
    obtain es' where es': "map (map_prod id erase) es' = map (map_prod id erase) es"
      "dict_loop parse_expr (els @ [(k, e')]) (uc @ rb # rest) = ret ((els @ [(k, e')]) @ es', rb # rest)"
      using Cons.IH [OF Cons.prems(1) [OF list.set_intros(2)] c(3) Cons.prems(3), where els = "els @ [(k, e')]"] by blast
    have "nt (uc @ rb # rest) = TStr" using False c(3) by (cases es) (auto simp: syms_Cons)
    then have "skip_newlines (uc @ rb # rest) = uc @ rb # rest" by (intro skip_stop) simp
    then show ?thesis using u c key e' es'
      by (subst dict_loop.simps) (auto simp: Let_def skip_stop ke intro!: exI [of _ "(k, e') # es'"])
  qed
qed

lemma no_binding:
  assumes "syms us = pr 0 e" "rest \<noteq> []" "nt rest \<noteq> TEq"
  shows "\<not> (at_type TName (us @ rest) \<and> tk_type (peek 1 (us @ rest)) = TEq)"
proof -
  obtain t v xs where p: "pr 0 e = (t, v) # xs" "t = TName \<longrightarrow> xs = [] \<or> fst (hd xs) \<noteq> TEq" using pr_start [of 0 e] by auto
  obtain a ur where a: "us = a # ur" "tk_type a = t" "syms ur = xs" using assms(1) p(1) by (auto simp: syms_Cons)
  have "tk_type (peek 1 (us @ rest)) \<noteq> TEq" if "t = TName"
  proof (cases ur)
    case Nil
    then show ?thesis using a assms(2,3) by (cases rest) auto
  next
    case (Cons b bs)
    then show ?thesis using a p(2) that by auto
  qed
  then show ?thesis using a by simp
qed

lemma parse_arg_reads:
  assumes "lv0 e" "syms us = (case n of None \<Rightarrow> [] | Some x \<Rightarrow> [(TName, x), (TEq, ''='')]) @ pr 0 e" "ends_expr rest" "nt rest \<noteq> TEq"
  shows "\<exists>e'. erase e' = erase e \<and> parse_arg parse_expr (us @ rest) = ret ((n, e'), rest)"
proof (cases n)
  case None
  then have us: "syms us = pr 0 e" using assms(2) by simp
  have "\<not> (at_type TName (us @ rest) \<and> tk_type (peek 1 (us @ rest)) = TEq)"
    by (rule no_binding [OF us]) (use assms(3,4) in \<open>simp_all add: ends_expr_def\<close>)
  moreover obtain e' where "erase e' = erase e" "parse_expr (us @ rest) = ret (e', rest)"
    using lv0_expr [OF assms(1) us assms(3)] by auto
  ultimately show ?thesis using None by (auto simp: parse_arg_def)
next
  case (Some x)
  then obtain a b ue where u: "us = a # b # ue" "tk_type a = TName" "tk_value a = x" "tk_type b = TEq" "syms ue = pr 0 e"
    using assms(2) by (auto simp: syms_Cons)
  obtain e' where "erase e' = erase e" "parse_expr (ue @ rest) = ret (e', rest)" using lv0_expr [OF assms(1) u(5) assms(3)] by auto
  then show ?thesis using u Some by (auto simp: parse_arg_def)
qed

lemma args_loop_reads:
  assumes "\<And>a. a \<in> set as \<Longrightarrow> lv0 (snd a)" "as \<noteq> []" "syms us = pr_args as" "tk_type rb = TRPar"
  shows "\<exists>as'. map (map_prod id erase) as' = map (map_prod id erase) as \<and>
    args_loop parse_expr els (us @ rb # rest) = ret (els @ as', rb # rest)"
  using assms
proof (induction as arbitrary: us els)
  case (Cons ne as)
  obtain n e where ne: "ne = (n, e)" by (cases ne)
  obtain ue ur where u: "us = ue @ ur" "syms ue = (case n of None \<Rightarrow> [] | Some x \<Rightarrow> [(TName, x), (TEq, ''='')]) @ pr 0 e"
      "syms ur = (if as = [] then [] else (TComma, '','') # pr_args as)"
    using Cons.prems(3) unfolding ne pr_args.simps append_assoc [symmetric] syms_append by blast
  have e: "lv0 e" using Cons.prems(1) [of ne] by (simp add: ne)
  show ?case
  proof (cases "as = []")
    case True
    obtain e' where "erase e' = erase e" "parse_arg parse_expr (ue @ rb # rest) = ret ((n, e'), rb # rest)"
      using parse_arg_reads [OF e u(2), of "rb # rest"] Cons.prems(4) by (auto simp: ends_expr_def)
    then show ?thesis using True u Cons.prems(4)
      by (subst args_loop.simps) (auto simp: ne intro!: exI [of _ "[(n, e')]"])
  next
    case False
    then obtain c uc where c: "ur = c # uc" "tk_type c = TComma" "syms uc = pr_args as" using u(3) by (auto simp: syms_Cons)
    obtain e' where e': "erase e' = erase e" "parse_arg parse_expr (ue @ c # uc @ rb # rest) = ret ((n, e'), c # uc @ rb # rest)"
      using parse_arg_reads [OF e u(2), of "c # uc @ rb # rest"] c(2) by (auto simp: ends_expr_def)
    obtain as' where as': "map (map_prod id erase) as' = map (map_prod id erase) as"
      "args_loop parse_expr (els @ [(n, e')]) (uc @ rb # rest) = ret ((els @ [(n, e')]) @ as', rb # rest)"
      using Cons.IH [OF Cons.prems(1) [OF list.set_intros(2)] False c(3) Cons.prems(4), where els = "els @ [(n, e')]"] by blast
    then show ?thesis using u c e'
      by (subst args_loop.simps) (auto simp: ne intro!: exI [of _ "(n, e') # as'"])
  qed
qed simp

section \<open>Expressions read back\<close>

lemma readable_lists:
  "readable_args as \<Longrightarrow> a \<in> set as \<Longrightarrow> readable (snd a)"
  "readable_list es \<Longrightarrow> e \<in> set es \<Longrightarrow> readable e"
  "readable_entries ents \<Longrightarrow> x \<in> set ents \<Longrightarrow> readable (snd x)"
proof -
  show "readable_args as \<Longrightarrow> a \<in> set as \<Longrightarrow> readable (snd a)" by (induction as) auto
  show "readable_list es \<Longrightarrow> e \<in> set es \<Longrightarrow> readable e" by (induction es) auto
  show "readable_entries ents \<Longrightarrow> x \<in> set ents \<Longrightarrow> readable (snd x)" by (induction ents) auto
qed

lemma erase_simps [simp]:
  "erase (NumLit v p) = NumLit v ()" "erase (StrLit s p) = StrLit s ()" "erase (NameRef x p) = NameRef x ()"
  "erase (CallExpr f as p) = CallExpr f (map (map_prod id erase) as) ()" "erase (AttrExpr e n p) = AttrExpr (erase e) n ()"
  "erase (IndexExpr e i p) = IndexExpr (erase e) (erase i) ()" "erase (BinaryExpr op a b p) = BinaryExpr op (erase a) (erase b) ()"
  "erase (UnaryExpr e p) = UnaryExpr (erase e) ()" "erase (ListLit es p) = ListLit (map erase es) ()"
  "erase (DictLit ents p) = DictLit (map (map_prod id erase) ents) ()"
  by (simp_all add: erase_def [abs_def])

lemma lv3_num: "js_number (num_str v) = v \<Longrightarrow> lv3 (NumLit v p)"
  by (rule lv3_primary) (auto simp: syms_Cons parse_primary_def)

lemma lv3_str: "lv3 (StrLit s p)"
  by (rule lv3_primary) (auto simp: syms_Cons parse_primary_def)

lemma lv3_name: "lv3 (NameRef x p)"
proof (rule lv3_primary)
  fix us rest
  assume "syms us = pr 3 (NameRef x p)" "rest \<noteq> []" "nt rest \<noteq> TLPar"
  then show "\<exists>e'. erase e' = erase (NameRef x p) \<and> parse_primary parse_expr (us @ rest) = ret (e', rest)"
    by (cases rest) (auto simp: syms_Cons parse_primary_def Let_def intro!: exI [of _ "NameRef x q" for q])
qed

lemma lv3_list:
  assumes "\<And>e. e \<in> set es \<Longrightarrow> lv0 e"
  shows "lv3 (ListLit es p)"
proof (rule lv3_primary)
  fix us rest
  assume "syms us = pr 3 (ListLit es p)"
  then obtain t ts u where u: "us = t # ts @ [u]" "tk_type t = TLBrack" "syms ts = pr_list es" "tk_type u = TRBrack"
    by (auto simp: syms_Cons syms_append)
  obtain es' where es': "map erase es' = map erase es" "list_loop parse_expr [] (ts @ u # rest) = ret (es', u # rest)"
    using list_loop_reads [OF assms u(3,4), of "[]" rest] by auto
  have "nt (ts @ u # rest) \<noteq> TNewline"
    using u(3,4) nt_expr [of ts 0 _ _ "u # rest"] by (cases es) (auto dest: starts_not)
  then have "skip_newlines (ts @ u # rest) = ts @ u # rest" by (rule skip_stop)
  then show "\<exists>e'. erase e' = erase (ListLit es p) \<and> parse_primary parse_expr (us @ rest) = ret (e', rest)"
    using u es' by (auto simp: parse_primary_def Let_def parse_list_def skip_stop intro!: exI [of _ "ListLit es' q" for q])
qed

lemma lv3_dict:
  assumes "\<And>a. a \<in> set es \<Longrightarrow> lv0 (snd a)"
  shows "lv3 (DictLit es p)"
proof (rule lv3_primary)
  fix us rest
  assume "syms us = pr 3 (DictLit es p)"
  then obtain t ts u where u: "us = t # ts @ [u]" "tk_type t = TLBrace" "syms ts = pr_entries es" "tk_type u = TRBrace"
    by (auto simp: syms_Cons syms_append)
  obtain es' where es': "map (map_prod id erase) es' = map (map_prod id erase) es"
      "dict_loop parse_expr [] (ts @ u # rest) = ret (es', u # rest)"
    using dict_loop_reads [OF assms u(3,4), of "[]" rest] by auto
  have "nt (ts @ u # rest) \<noteq> TNewline" using u(3,4) by (cases es) (auto simp: syms_Cons)
  then have "skip_newlines (ts @ u # rest) = ts @ u # rest" by (rule skip_stop)
  then show "\<exists>e'. erase e' = erase (DictLit es p) \<and> parse_primary parse_expr (us @ rest) = ret (e', rest)"
    using u es' by (auto simp: parse_primary_def Let_def parse_dict_def skip_stop intro!: exI [of _ "DictLit es' q" for q])
qed

lemma lv3_call:
  assumes "\<And>a. a \<in> set as \<Longrightarrow> lv0 (snd a)"
  shows "lv3 (CallExpr f as p)"
proof (rule lv3_primary)
  fix us rest
  assume "syms us = pr 3 (CallExpr f as p)"
  then obtain a b ts u where u: "us = a # b # ts @ [u]" "tk_type a = TName" "tk_value a = f" "tk_type b = TLPar"
      "syms ts = pr_args as" "tk_type u = TRPar"
    by (auto simp: syms_Cons syms_append)
  obtain as' where as': "map (map_prod id erase) as' = map (map_prod id erase) as"
      "(if at_type TRPar (ts @ u # rest) then ret ([], ts @ u # rest) else args_loop parse_expr [] (ts @ u # rest)) = ret (as', u # rest)"
  proof (cases "as = []")
    case True
    then show ?thesis using that u by simp
  next
    case False
    obtain as' where as': "map (map_prod id erase) as' = map (map_prod id erase) as"
        "args_loop parse_expr [] (ts @ u # rest) = ret (as', u # rest)"
      using args_loop_reads [OF assms False u(5,6), of "[]" rest] by auto
    obtain n e as2 where "as = (n, e) # as2" using False by (cases as) auto
    then have "nt (ts @ u # rest) \<in> starts"
      using u(5) nt_expr [of ts 0 e _ "u # rest"] by (cases n) (auto simp: syms_Cons starts_def)
    then have "\<not> at_type TRPar (ts @ u # rest)" by (auto simp: at_type_nt dest: starts_not)
    with that as' show ?thesis by simp
  qed
  then show "\<exists>e'. erase e' = erase (CallExpr f as p) \<and> parse_primary parse_expr (us @ rest) = ret (e', rest)"
    using u by (auto simp: parse_primary_def Let_def parse_call_def intro!: exI [of _ "CallExpr f as' q" for q])
qed

lemma lv3_attr:
  assumes "lv3 e"
  shows "lv3 (AttrExpr e n p)"
  unfolding lv3_def
proof (intro allI impI)
  fix us rest
  assume us: "syms us = pr 3 (AttrExpr e n p)" and rest: "rest \<noteq> []" "nt rest \<noteq> TLPar"
  then obtain ue d m where u: "us = ue @ [d, m]" "syms ue = pr 3 e" "tk_type d = TDot" "tk_type m = TName" "tk_value m = n"
    by (auto simp: syms_Cons syms_append)
  have "d # m # rest \<noteq> []" "nt (d # m # rest) \<noteq> TLPar" using u(3) by simp_all
  then obtain e' where e': "erase e' = erase e" "parse_postfix parse_expr (ue @ d # m # rest) = postfix_loop parse_expr e' (d # m # rest)"
    using assms u(2) unfolding lv3_def by blast
  have "postfix_loop parse_expr e' (d # m # rest) = postfix_loop parse_expr (AttrExpr e' n (tk_pos m)) rest"
    using u by (subst postfix_loop.simps) simp
  then show "\<exists>x. erase x = erase (AttrExpr e n p) \<and> parse_postfix parse_expr (us @ rest) = postfix_loop parse_expr x rest"
    using u e' by (intro exI [of _ "AttrExpr e' n (tk_pos m)"]) simp
qed

lemma lv3_index:
  assumes "lv3 e" "lv0 i"
  shows "lv3 (IndexExpr e i p)"
  unfolding lv3_def
proof (intro allI impI)
  fix us rest
  assume us: "syms us = pr 3 (IndexExpr e i p)" and rest: "rest \<noteq> []" "nt rest \<noteq> TLPar"
  then obtain ue b ui c where u: "us = ue @ b # ui @ [c]" "syms ue = pr 3 e" "tk_type b = TLBrack" "syms ui = pr 0 i"
      "tk_type c = TRBrack"
    by (auto simp: syms_Cons syms_append)
  have "b # ui @ c # rest \<noteq> []" "nt (b # ui @ c # rest) \<noteq> TLPar" using u(3) by simp_all
  then obtain e' where e': "erase e' = erase e"
      "parse_postfix parse_expr (ue @ b # ui @ c # rest) = postfix_loop parse_expr e' (b # ui @ c # rest)"
    using assms(1) u(2) unfolding lv3_def by blast
  obtain i' where i': "erase i' = erase i" "parse_expr (ui @ c # rest) = ret (i', c # rest)"
    using lv0_expr [OF assms(2) u(4), of "c # rest"] u(5) by (auto simp: ends_expr_def)
  have "postfix_loop parse_expr e' (b # ui @ c # rest) = postfix_loop parse_expr (IndexExpr e' i' (tk_pos b)) rest"
    using u i' by (subst postfix_loop.simps) simp
  then show "\<exists>x. erase x = erase (IndexExpr e i p) \<and> parse_postfix parse_expr (us @ rest) = postfix_loop parse_expr x rest"
    using u e' i' by (intro exI [of _ "IndexExpr e' i' (tk_pos b)"]) simp
qed

lemma lv2_unary:
  assumes "lv2 e"
  shows "lv2 (UnaryExpr e p)"
  unfolding lv2_def
proof (intro allI impI)
  fix us rest
  assume us: "syms us = pr 2 (UnaryExpr e p)" and rest: "rest \<noteq> []" "nt rest \<notin> {TDot, TLBrack, TLPar}"
  then obtain t ue where u: "us = t # ue" "tk_type t = TMinus" "syms ue = pr 2 e" by (auto simp: syms_Cons)
  then obtain e' where e': "erase e' = erase e" "U (ue @ rest) = ret (e', rest)"
    using assms rest unfolding lv2_def by blast
  have "U (us @ rest) = ret (UnaryExpr e' (tk_pos t), rest)"
    unfolding u(1) append_Cons by (subst parse_unary.simps) (simp add: u(2) e'(2))
  then show "\<exists>x. erase x = erase (UnaryExpr e p) \<and> U (us @ rest) = ret (x, rest)"
    using e'(1) by (intro exI [of _ "UnaryExpr e' (tk_pos t)"]) simp
qed

lemma lv1_mul:
  assumes "lv1 a" "lv2 b" "\<not> additive op"
  shows "lv1 (BinaryExpr op a b p)"
  unfolding lv1_def
proof (intro allI impI)
  fix us rest
  assume us: "syms us = pr 1 (BinaryExpr op a b p)" and rest: "rest \<noteq> []" "nt rest \<notin> {TDot, TLBrack, TLPar}"
  then obtain ua t ub where u: "us = ua @ t # ub" "syms ua = pr 1 a" "(tk_type t, tk_value t) = op_symbol op" "syms ub = pr 2 b"
    using assms(3) by (auto simp: syms_append syms_Cons) (metis prod.collapse syms_Cons)
  have op: "mul_op (tk_type t) = Some op" "nt (t # ub @ rest) \<notin> {TDot, TLBrack, TLPar}" "t # ub @ rest \<noteq> []"
    using u(3) assms(3) by (cases op; simp add: mul_op_def)+
  obtain a' where a': "erase a' = erase a" "M (ua @ t # ub @ rest) = binary_loop mul_op U a' (t # ub @ rest)"
    using assms(1) u(2) op(2,3) unfolding lv1_def by blast
  obtain b' where b': "erase b' = erase b" "U (ub @ rest) = ret (b', rest)"
    using assms(2) u(4) rest unfolding lv2_def by blast
  have "binary_loop mul_op U a' (t # ub @ rest) = binary_loop mul_op U (BinaryExpr op a' b' (expr_pos a')) rest"
    using op(1) b'(2) by (subst binary_loop.simps) simp
  then show "\<exists>x. erase x = erase (BinaryExpr op a b p) \<and> M (us @ rest) = binary_loop mul_op U x rest"
    using u(1) a' b'(1) by (intro exI [of _ "BinaryExpr op a' b' (expr_pos a')"]) simp
qed

lemma lv0_add:
  assumes "lv0 a" "lv1 b" "additive op"
  shows "lv0 (BinaryExpr op a b p)"
  unfolding lv0_def
proof (intro allI impI)
  fix us rest
  assume us: "syms us = pr 0 (BinaryExpr op a b p)" and rest: "rest \<noteq> []" "nt rest \<notin> {TDot, TLBrack, TLPar, TStar, TSlash}"
  then obtain ua t ub where u: "us = ua @ t # ub" "syms ua = pr 0 a" "(tk_type t, tk_value t) = op_symbol op" "syms ub = pr 1 b"
    using assms(3) by (auto simp: syms_append syms_Cons) (metis prod.collapse syms_Cons)
  have op: "add_op (tk_type t) = Some op" "nt (t # ub @ rest) \<notin> {TDot, TLBrack, TLPar, TStar, TSlash}" "t # ub @ rest \<noteq> []"
    using u(3) assms(3) by (cases op; simp add: add_op_def)+
  obtain a' where a': "erase a' = erase a" "parse_expr (ua @ t # ub @ rest) = binary_loop add_op M a' (t # ub @ rest)"
    using assms(1) u(2) op(2,3) unfolding lv0_def by blast
  obtain b' where b': "erase b' = erase b" "M (ub @ rest) = binary_loop mul_op U b' rest"
    using assms(2) u(4) rest unfolding lv1_def by blast
  have "binary_loop mul_op U b' rest = ret (b', rest)" using rest(2) by (intro binary_loop_stop) (simp add: mul_op_def)
  then have "binary_loop add_op M a' (t # ub @ rest) = binary_loop add_op M (BinaryExpr op a' b' (expr_pos a')) rest"
    using op(1) b'(2) by (subst binary_loop.simps) simp
  then show "\<exists>x. erase x = erase (BinaryExpr op a b p) \<and> parse_expr (us @ rest) = binary_loop add_op M x rest"
    using u(1) a' b'(1) by (intro exI [of _ "BinaryExpr op a' b' (expr_pos a')"]) simp
qed

lemma reads_back: "readable e \<Longrightarrow> lv3 e \<and> lv2 e \<and> lv1 e \<and> lv0 e"
proof (induction e)
  case (NumLit v p)
  then show ?case by (intro lv_all_from_3 lv3_num) simp_all
next
  case (StrLit s p)
  show ?case by (intro lv_all_from_3 lv3_str) simp_all
next
  case (NameRef x p)
  show ?case by (intro lv_all_from_3 lv3_name) simp_all
next
  case (CallExpr f as p)
  have "lv0 (snd a)" if "a \<in> set as" for a
  proof -
    have "readable (snd a)" using CallExpr.prems by (intro readable_lists(1) [OF _ that]) simp
    moreover have "snd a \<in> Basic_BNFs.snds a" by (cases a) auto
    ultimately show ?thesis using CallExpr.IH [OF that] by blast
  qed
  then show ?case by (intro lv_all_from_3 lv3_call) simp_all
next
  case (AttrExpr e n p)
  then show ?case by (intro lv_all_from_3 lv3_attr) simp_all
next
  case (IndexExpr e i p)
  then show ?case by (intro lv_all_from_3 lv3_index) simp_all
next
  case (BinaryExpr op a b p)
  then have ab: "lv2 a \<and> lv1 a \<and> lv0 a" "lv2 b \<and> lv1 b \<and> lv0 b" by simp_all
  show ?case
  proof (cases "additive op")
    case True
    then have "lv0 (BinaryExpr op a b p)" using ab by (intro lv0_add) simp_all
    moreover from this have three: "lv3 (BinaryExpr op a b p)" by (rule lv3_parens) (use True in simp)
    moreover from three have two: "lv2 (BinaryExpr op a b p)" by (rule lv3_lv2) (use True in simp)
    moreover from two have "lv1 (BinaryExpr op a b p)" by (rule lv2_lv1) (use True in simp)
    ultimately show ?thesis by blast
  next
    case False
    then have "lv1 (BinaryExpr op a b p)" using ab by (intro lv1_mul) simp_all
    moreover from this have z: "lv0 (BinaryExpr op a b p)" by (rule lv1_lv0) (use False in simp)
    moreover from z have three: "lv3 (BinaryExpr op a b p)" by (rule lv3_parens) (use False in simp)
    moreover from three have "lv2 (BinaryExpr op a b p)" by (rule lv3_lv2) (use False in simp)
    ultimately show ?thesis by blast
  qed
next
  case (UnaryExpr e p)
  then have "lv2 (UnaryExpr e p)" by (intro lv2_unary) simp
  moreover from this have "lv1 (UnaryExpr e p)" by (rule lv2_lv1) simp
  moreover from this have z: "lv0 (UnaryExpr e p)" by (rule lv1_lv0) simp
  moreover from z have "lv3 (UnaryExpr e p)" by (rule lv3_parens) simp
  ultimately show ?case by blast
next
  case (ListLit es p)
  have "lv0 e" if "e \<in> set es" for e
    using ListLit.IH [OF that] readable_lists(2) [OF _ that] ListLit.prems by simp
  then show ?case by (intro lv_all_from_3 lv3_list) simp_all
next
  case (DictLit ents p)
  have "lv0 (snd a)" if "a \<in> set ents" for a
  proof -
    have "readable (snd a)" using DictLit.prems by (intro readable_lists(3) [OF _ that]) simp
    moreover have "snd a \<in> Basic_BNFs.snds a" by (cases a) auto
    ultimately show ?thesis using DictLit.IH [OF that] by blast
  qed
  then show ?case by (intro lv_all_from_3 lv3_dict) simp_all
qed

end
