(* ===== verification/Calc_Round_Trip.thy ===== *)
theory Calc_Round_Trip
  imports Calc_Printer
begin

text \<open>
  The round trip of whole programs: statements are read back from their symbols, the symbols from their text.
\<close>

section \<open>Programs\<close>

text \<open>Names that may be bound, literals that read back.\<close>

definition readable_program :: "program \<Rightarrow> bool" where
  "readable_program p \<longleftrightarrow> list_all (\<lambda>b. name_text (as_name b) \<and> readable (as_value b)) (pg_bindings p) \<and> readable (pg_result p)"

definition pr_binding :: "assign \<Rightarrow> symbol list" where
  "pr_binding b = (TName, as_name b) # (TEq, ''='') # pr 0 (as_value b) @ [(TNewline, [newline])]"

definition pr_program :: "program \<Rightarrow> symbol list" where
  "pr_program p = concat (map pr_binding (pg_bindings p)) @ pr 0 (pg_result p)"

text \<open>A program without its positions.\<close>

definition erase_program :: "program \<Rightarrow> (string \<times> unit expr_at) list \<times> unit expr_at" where
  "erase_program p = (map (\<lambda>b. (as_name b, erase (as_value b))) (pg_bindings p), erase (pg_result p))"

lemma readable_lv0: "readable e \<Longrightarrow> lv0 e"
  using reads_back by blast

lemma starts_statement: "syms us = pr_program p @ xs \<Longrightarrow> nt (us @ rest) \<in> starts"
proof (cases "pg_bindings p")
  case Nil
  then show "syms us = pr_program p @ xs \<Longrightarrow> nt (us @ rest) \<in> starts" by (auto simp: pr_program_def intro: nt_expr)
next
  case (Cons b bs)
  then show "syms us = pr_program p @ xs \<Longrightarrow> nt (us @ rest) \<in> starts"
    by (auto simp: pr_program_def pr_binding_def syms_Cons starts_def)
qed

lemma binding_reads:
  assumes "readable (as_value b)" "syms us = pr_binding b" "rest \<noteq> []" "nt rest \<noteq> TNewline"
  shows "\<exists>b' us'. as_name b' = as_name b \<and> erase (as_value b') = erase (as_value b) \<and> nt us' = TNewline \<and>
    length us' = Suc (length rest) \<and>
    parse_statement (us @ rest) = ret (Inl b', us') \<and> end_statement us' = ret ((), rest)"
proof -
  obtain a q ue n where u: "us = a # q # ue @ [n]" "tk_type a = TName" "tk_value a = as_name b" "tk_type q = TEq"
      "syms ue = pr 0 (as_value b)" "tk_type n = TNewline"
    using assms(2) by (auto simp: pr_binding_def syms_Cons syms_append)
  obtain e' where e': "erase e' = erase (as_value b)" "parse_expr (ue @ n # rest) = ret (e', n # rest)"
    using lv0_expr [OF readable_lv0 [OF assms(1)] u(5), of "n # rest"] u(6) by (auto simp: ends_expr_def)
  have "parse_statement (us @ rest) = ret (Inl \<lparr>as_name = as_name b, as_value = e', as_pos = tk_pos q\<rparr>, n # rest)"
    using u e'(2) by (simp add: parse_statement_def)
  moreover have "end_statement (n # rest) = ret ((), rest)"
    using u(6) skip_stop [OF assms(4)] by (simp add: end_statement_def)
  ultimately show ?thesis using u(6) e'(1)
    by (intro exI [of _ "\<lparr>as_name = as_name b, as_value = e', as_pos = tk_pos q\<rparr>"] exI [of _ "n # rest"]) simp
qed

lemma result_reads:
  assumes "readable e" "syms us = pr 0 e" "tk_type z = TEof"
  shows "\<exists>e'. erase e' = erase e \<and> parse_statement (us @ [z]) = ret (Inr e', [z])"
proof -
  have "\<not> (at_type TName (us @ [z]) \<and> tk_type (peek 1 (us @ [z])) = TEq)"
    by (rule no_binding [OF assms(2)]) (use assms(3) in simp_all)
  moreover obtain e' where "erase e' = erase e" "parse_expr (us @ [z]) = ret (e', [z])"
    using lv0_expr [OF readable_lv0 [OF assms(1)] assms(2), of "[z]"] assms(3) by (auto simp: ends_expr_def)
  ultimately show ?thesis by (auto simp: parse_statement_def)
qed

lemma program_loop_reads:
  assumes "readable_program p" "syms us = pr_program p" "tk_type z = TEof"
  shows "\<exists>q. program_loop bs None (us @ [z]) = ret q \<and>
    erase_program q = (map (\<lambda>b. (as_name b, erase (as_value b))) bs @ fst (erase_program p), snd (erase_program p))"
  using assms
proof (induction "pg_bindings p" arbitrary: p us bs)
  case Nil
  then have e: "readable (pg_result p)" "syms us = pr 0 (pg_result p)" by (simp_all add: readable_program_def pr_program_def)
  obtain e' where e': "erase e' = erase (pg_result p)" "parse_statement (us @ [z]) = ret (Inr e', [z])"
    using result_reads [OF e Nil.prems(3)] by blast
  have "nt (us @ [z]) \<in> starts" using e(2) nt_expr [of us 0 "pg_result p" "[]" "[z]"] by simp
  then have z: "\<not> at_type TEof (us @ [z])" and us: "us \<noteq> []" using Nil.prems(3) by (auto simp: at_type_nt starts_def)
  have "end_statement [z] = ret ((), [z])" using Nil.prems(3) by (simp add: end_statement_def skip_stop)
  then have "program_loop bs None (us @ [z]) = program_loop bs (Some e') [z]"
    using z e'(2) us by (subst program_loop.simps) simp
  also have "\<dots> = ret \<lparr>pg_bindings = bs, pg_result = e'\<rparr>"
    using Nil.prems(3) by (subst program_loop.simps) simp
  finally show ?case using e'(1) Nil.hyps by (auto simp: erase_program_def)
next
  case (Cons b cs)
  let ?p = "p\<lparr>pg_bindings := cs\<rparr>"
  have r: "readable (as_value b)" "readable_program ?p"
    using Cons.prems(1) Cons.hyps(2) by (cases p; auto simp: readable_program_def)+
  have "pr_program p = pr_binding b @ pr_program ?p" using Cons.hyps(2) by (cases p) (auto simp: pr_program_def)
  then obtain ub ur where u: "us = ub @ ur" "syms ub = pr_binding b" "syms ur = pr_program ?p"
    using Cons.prems(2) by (auto simp: syms_append)
  have next_line: "nt (ur @ [z]) \<in> starts" using u(3) starts_statement [of ur ?p "[]"] by simp
  obtain b' us' where b': "as_name b' = as_name b" "erase (as_value b') = erase (as_value b)" "nt us' = TNewline"
      "length us' = Suc (length (ur @ [z]))" "parse_statement (ub @ ur @ [z]) = ret (Inl b', us')"
      "end_statement us' = ret ((), ur @ [z])"
    using binding_reads [OF r(1) u(2), of "ur @ [z]"] next_line by (auto dest: starts_not)
  have "\<not> at_type TEof (ub @ ur @ [z])" "length (ur @ [z]) < length (ub @ ur @ [z])"
    using u(2) by (auto simp: pr_binding_def syms_Cons)
  then have step: "program_loop bs None (us @ [z]) = program_loop (bs @ [b']) None (ur @ [z])"
    using b'(5,6) u(1) by (subst program_loop.simps) simp
  obtain q where q: "program_loop (bs @ [b']) None (ur @ [z]) = ret q"
      "erase_program q = (map (\<lambda>b. (as_name b, erase (as_value b))) (bs @ [b']) @ fst (erase_program ?p), snd (erase_program ?p))"
    using Cons.hyps(1) [of ?p ur "bs @ [b']"] r(2) u(3) Cons.prems(3) by auto
  show ?case using step q b'(1,2) Cons.hyps(2) [symmetric] by (auto simp: erase_program_def)
qed

section \<open>Texts\<close>

text \<open>Each symbol is followed by a space.\<close>

definition show_symbol :: "symbol \<Rightarrow> string" where
  "show_symbol s = (if fst s = TStr then quoted (snd s) else snd s) @ '' ''"

definition show_symbols :: "symbol list \<Rightarrow> string" where
  "show_symbols xs = concat (map show_symbol xs)"

definition print_program :: "program \<Rightarrow> string" where
  "print_program p = show_symbols (pr_program p)"

fun lexable :: "symbol \<Rightarrow> bool" where
  "lexable (TNum, v) = numeral_text v"
| "lexable (TStr, v) = string_text v"
| "lexable (TName, v) = name_text v"
| "lexable (TNewline, v) = (v = [newline])"
| "lexable (TEof, v) = False"
| "lexable (t, v) = (v = type_text t)"

text \<open>No newline first, last or after another.\<close>

fun tidy :: "bool \<Rightarrow> symbol list \<Rightarrow> bool" where
  "tidy b [] = b"
| "tidy b (s # xs) = (if fst s = TNewline then b \<and> tidy False xs else tidy True xs)"

lemma space_classes [simp]: "\<not> is_numeral CHR '' ''" "\<not> isIdentPart CHR '' ''" "\<not> is_digit CHR '' ''" "is_space CHR '' ''"
    "CHR '' '' \<noteq> newline"
  by (simp_all add: is_numeral_def isIdentPart_def is_digit_def is_letter_def is_space_def newline_def)

lemma lex_space [simp]: "lex (CHR '' '' # cs) line col toks = lex cs line (col + 1) toks"
  by (simp add: lex.simps(2))

lemma starts_number_char: "starts_number c cs \<Longrightarrow> c \<noteq> newline \<and> \<not> is_space c \<and> c \<noteq> CHR ''#'' \<and> \<not> is_quote c"
  by (auto simp: starts_number_def is_digit_def newline_def is_space_def is_quote_def)

lemma ident_char:
  "isIdentStart c \<Longrightarrow> c \<noteq> newline \<and> \<not> is_space c \<and> c \<noteq> CHR ''#'' \<and> \<not> is_quote c \<and> \<not> starts_number c cs"
  by (auto simp: starts_number_def isIdentStart_def is_letter_def is_digit_def newline_def is_space_def is_quote_def)

lemma takeWhile_space: "list_all P cs \<Longrightarrow> \<not> P CHR '' '' \<Longrightarrow> takeWhile P (cs @ CHR '' '' # rest) = cs"
  by (induction cs) auto

lemma dropWhile_space: "list_all P cs \<Longrightarrow> \<not> P CHR '' '' \<Longrightarrow> dropWhile P (cs @ CHR '' '' # rest) = CHR '' '' # rest"
  by (induction cs) auto

lemma lex_num:
  assumes "numeral_text v"
  shows "\<exists>l c. lex (v @ CHR '' '' # rest) line col toks = lex rest l c (toks @ [mk_token TNum v (line, col)])"
proof -
  obtain c cs where v: "v = c # cs" "starts_number c cs" "list_all is_numeral cs" "length (filter (\<lambda>x. x = CHR ''.'') v) \<le> 1"
    using assms by (auto simp: numeral_text_def split: list.splits)
  have "starts_number c (cs @ CHR '' '' # rest)" using v(2) by (cases cs) (auto simp: starts_number_def)
  moreover have "takeWhile is_numeral (cs @ CHR '' '' # rest) = cs" "dropWhile is_numeral (cs @ CHR '' '' # rest) = CHR '' '' # rest"
    using v(3) by (simp_all add: takeWhile_space dropWhile_space)
  ultimately show ?thesis using v(1,4) starts_number_char [OF v(2)]
    by (auto simp: lex.simps(2) Let_def)
qed

lemma lex_name:
  assumes "name_text v"
  shows "\<exists>l c. lex (v @ CHR '' '' # rest) line col toks = lex rest l c (toks @ [mk_token TName v (line, col)])"
proof -
  obtain c cs where v: "v = c # cs" "isIdentStart c" "list_all isIdentPart cs"
    using assms by (auto simp: name_text_def split: list.splits)
  have "takeWhile isIdentPart (cs @ CHR '' '' # rest) = cs" "dropWhile isIdentPart (cs @ CHR '' '' # rest) = CHR '' '' # rest"
    using v(3) by (simp_all add: takeWhile_space dropWhile_space)
  then show ?thesis using v(1,2) ident_char [OF v(2)] by (auto simp: lex.simps(2) Let_def)
qed

lemma lex_str:
  assumes "string_text v"
  shows "\<exists>l c. lex (quoted v @ CHR '' '' # rest) line col toks = lex rest l c (toks @ [mk_token TStr v (line, col)])"
proof -
  have "takeWhile (\<lambda>x. x \<noteq> CHR 34 \<and> x \<noteq> newline) (v @ CHR 34 # CHR '' '' # rest) = v"
    "dropWhile (\<lambda>x. x \<noteq> CHR 34 \<and> x \<noteq> newline) (v @ CHR 34 # CHR '' '' # rest) = CHR 34 # CHR '' '' # rest"
    using assms by (induction v) (auto simp: string_text_def)
  then show ?thesis by (auto simp: lex.simps(2) Let_def quoted_def is_quote_def is_space_def newline_def)
qed

lemma lex_single:
  assumes "single c = Some t"
  shows "\<exists>l k. lex (c # CHR '' '' # rest) line col toks = lex rest l k (toks @ [mk_token t [c] (line, col)])"
proof -
  have "c \<in> set ''+-*/=()[]{},.:''" using assms by (auto simp: single_def split: if_splits)
  then have "c \<noteq> newline \<and> \<not> is_space c \<and> c \<noteq> CHR ''#'' \<and> \<not> is_quote c \<and> \<not> starts_number c (CHR '' '' # rest) \<and> \<not> isIdentStart c"
    by (auto simp: newline_def is_space_def is_quote_def starts_number_def is_digit_def isIdentStart_def is_letter_def)
  then show ?thesis using assms by (auto simp: lex.simps(2))
qed

lemma lex_newline: "lex (newline # CHR '' '' # rest) line col toks = lex rest (line + 1) 2 (push_newline (line, col) toks)"
  by (simp add: lex.simps(2) numeral_2_eq_2)

lemma lex_symbol:
  assumes "lexable (t, v)" "t \<noteq> TNewline"
  shows "\<exists>l c. lex (show_symbol (t, v) @ rest) line col toks = lex rest l c (toks @ [mk_token t v (line, col)])"
proof (cases "t \<in> {TNum, TStr, TName}")
  case True
  then show ?thesis using assms lex_num lex_str lex_name by (auto simp: show_symbol_def)
next
  case False
  then obtain c where "v = [c]" "single c = Some t" using assms by (cases t) (auto simp: single_def)
  then show ?thesis using False lex_single by (auto simp: show_symbol_def)
qed

definition after_symbol :: "token list \<Rightarrow> bool" where
  "after_symbol toks \<longleftrightarrow> toks \<noteq> [] \<and> tk_type (last toks) \<noteq> TNewline"

lemma lex_reads:
  assumes "list_all lexable xs" "tidy (after_symbol toks) xs"
  shows "\<exists>ts z. syms ts = xs \<and> tk_type z = TEof \<and> lex (show_symbols xs) line col toks = Inr (toks @ ts @ [z])"
  using assms
proof (induction xs arbitrary: line col toks)
  case Nil
  then have "finish (line, col) toks = toks @ [mk_token TEof [] (line, col)]" by (simp add: finish_def after_symbol_def)
  then show ?case by (simp add: show_symbols_def mk_token_def)
next
  case (Cons x xs)
  obtain t v where x: "x = (t, v)" by (cases x)
  obtain l c k where lexed: "lex (show_symbols (x # xs)) line col toks = lex (show_symbols xs) l c (toks @ [k])" "tk_type k = t"
      "tk_value k = v"
  proof (cases "t = TNewline")
    case True
    then have "push_newline (line, col) toks = toks @ [mk_token t v (line, col)]" "v = [newline]"
      using Cons.prems by (auto simp: x push_newline_def after_symbol_def)
    with True show ?thesis
      by (intro that [of _ _ "mk_token t v (line, col)"]) (simp_all add: x show_symbols_def show_symbol_def lex_newline mk_token_def)
  next
    case False
    then show ?thesis
      using that lex_symbol [of t v "show_symbols xs" line col toks] Cons.prems(1) by (fastforce simp: x show_symbols_def mk_token_def)
  qed
  have "tidy (after_symbol (toks @ [k])) xs" using Cons.prems(2) lexed(2) by (auto simp: x after_symbol_def split: if_splits)
  then obtain ts z where "syms ts = xs" "tk_type z = TEof" "lex (show_symbols xs) l c (toks @ [k]) = Inr ((toks @ [k]) @ ts @ [z])"
    using Cons.IH [of "toks @ [k]" l c] Cons.prems(1) by auto
  then show ?case using lexed x by (intro exI [of _ "k # ts"] exI [of _ z]) simp
qed

section \<open>The symbols of a program are texts of tokens\<close>

lemma lexable_op [simp]: "lexable (op_symbol op)" "fst (op_symbol op) \<noteq> TNewline"
  by (cases op; simp)+

lemma pr_lexable:
  fixes e :: "'p expr_at" and as :: "(string option \<times> 'p expr_at) list" and es :: "'p expr_at list" and ents :: "(string \<times> 'p expr_at) list"
  shows "readable e \<Longrightarrow> list_all (\<lambda>s. lexable s \<and> fst s \<noteq> TNewline) (pr l e)"
  "readable_args as \<Longrightarrow> list_all (\<lambda>s. lexable s \<and> fst s \<noteq> TNewline) (pr_args as)"
  "readable_list es \<Longrightarrow> list_all (\<lambda>s. lexable s \<and> fst s \<noteq> TNewline) (pr_list es)"
  "readable_entries ents \<Longrightarrow> list_all (\<lambda>s. lexable s \<and> fst s \<noteq> TNewline) (pr_entries ents)"
  by (induction l e and as and es and ents rule: pr_pr_args_pr_list_pr_entries.induct)
     (auto simp: parens_def split: option.splits)

lemma tidy_append: "list_all (\<lambda>s. fst s \<noteq> TNewline) xs \<Longrightarrow> tidy b (xs @ ys) = tidy (b \<or> xs \<noteq> []) ys"
  by (induction xs arbitrary: b) auto

lemma pr_tidy:
  assumes "readable e"
  shows "tidy b (pr l e @ ys) = tidy True ys"
proof -
  have "list_all (\<lambda>s. fst s \<noteq> TNewline) (pr l e)" using pr_lexable(1) [OF assms, of l] by (auto simp: list_all_iff)
  moreover have "pr l e \<noteq> []" using pr_start [of l e] by auto
  ultimately show ?thesis by (simp add: tidy_append)
qed

lemma program_text:
  assumes "readable_program p"
  shows "list_all lexable (pr_program p)" "tidy b (pr_program p)"
proof -
  have bs: "list_all (\<lambda>b. name_text (as_name b) \<and> readable (as_value b)) (pg_bindings p)" and r: "readable (pg_result p)"
    using assms by (simp_all add: readable_program_def)
  have "list_all lexable (pr 0 e)" if "readable e" for e :: expr using pr_lexable(1) [OF that] by (auto simp: list_all_iff)
  with bs r show "list_all lexable (pr_program p)"
    by (auto simp: pr_program_def pr_binding_def list_all_iff)
  have last: "tidy b (pr 0 (pg_result p))" for b using pr_tidy [OF r, of b 0 "[]"] by simp
  have "list_all (\<lambda>b. name_text (as_name b) \<and> readable (as_value b)) bs \<Longrightarrow>
      tidy b (concat (map pr_binding bs) @ pr 0 (pg_result p))" for bs b
    by (induction bs arbitrary: b) (simp_all add: last pr_binding_def pr_tidy)
  with bs show "tidy b (pr_program p)" by (simp add: pr_program_def)
qed

section \<open>The round trip\<close>

text \<open>C33: what the parser reads from a printed program is that program.  The printer writes every construct of the
  language, parentheses only where the precedences of the parser ask for them.  For programs whose names and strings the
  lexer can take and whose numbers their text gives back, \<open>parse\<close> succeeds on the text, and its result has the same
  bindings and the same result expression; only positions differ.\<close>

theorem parse_print_round_trip:
  assumes "readable_program p"
  shows "\<exists>q. parse (print_program p) = ret q \<and> erase_program q = erase_program p"
proof -
  have "tidy (after_symbol []) (pr_program p)" by (rule program_text(2) [OF assms])
  then obtain ts z where t: "syms ts = pr_program p" "tk_type z = TEof" "tokenize (print_program p) = Inr (ts @ [z])"
    using lex_reads [OF program_text(1) [OF assms], of "[]" 1 1] by (auto simp: tokenize_def print_program_def)
  have "nt (ts @ [z]) \<in> starts" using t(1) by (intro starts_statement [of ts p "[]"]) simp
  then have "skip_newlines (ts @ [z]) = ts @ [z]" by (intro skip_stop) (auto dest: starts_not)
  then show ?thesis using program_loop_reads [OF assms t(1,2), of "[]"] t(3) by (auto simp: parse_def prod_eq_iff)
qed


theorem parse_print_round_trip_witness:
  "\<exists>q. parse (print_program sample_program) = ret q \<and> erase_program q = erase_program sample_program"
  by (rule parse_print_round_trip) code_simp

end
