(* ===== verification/Calc_Script.thy ===== *)
theory Calc_Script
  imports Calc_Types Calc_Provenance Calc_Round_Trip
begin

text \<open>
  Whole scripts, from the text to the answer: a script that has no answer, and what the entry point does with an error
  that is not one of the calculator's own.
\<close>

section \<open>Scripts and their trees\<close>

definition on_bars :: "string \<Rightarrow> string" where
  "on_bars e = ''s = bars('' @ quoted ''a|B'' @ '', '' @ quoted ''1d'' @ '')'' @ [newline] @ e"

definition on_bars_program :: "expr \<Rightarrow> program" where
  "on_bars_program e =
     \<lparr>pg_bindings = [\<lparr>as_name = ''s'', as_value = CallExpr ''bars'' [(None, StrLit ''a|B'' (1, 10)), (None, StrLit ''1d'' (1, 17))] (1, 5),
        as_pos = (1, 3)\<rparr>],
      pg_result = e\<rparr>"

definition stuck_script :: string where
  "stuck_script = on_bars ''ema(s.close, -18014398509481984)''"

definition stuck_result :: expr where
  "stuck_result = CallExpr ''ema'' [(None, AttrExpr (NameRef ''s'' (2, 5)) ''close'' (2, 7)),
     (None, UnaryExpr (NumLit (Fin 18014398509481984) (2, 15)) (2, 14))] (2, 1)"

lemma stuck_script_parsed: "parse stuck_script = ret (on_bars_program stuck_result)"
  by code_simp

definition atr_script :: string where
  "atr_script = on_bars ''atr(s.high, s.low, s.close, 3)''"

definition atr_result :: expr where
  "atr_result = (let s = NameRef ''s'' in
     CallExpr ''atr'' [(None, AttrExpr (s (2, 5)) ''high'' (2, 7)), (None, AttrExpr (s (2, 13)) ''low'' (2, 15)),
       (None, AttrExpr (s (2, 20)) ''close'' (2, 22)), (None, NumLit (Fin 3) (2, 29))] (2, 1))"

lemma atr_script_parsed: "parse atr_script = ret (on_bars_program atr_result)"
  by code_simp

section \<open>Evaluation up to the result\<close>

definition request :: bar_ref where
  "request = \<lparr>rf_barId = ''a|B'', rf_assetClass = None\<rparr>"

definition daily :: bars_opts where
  "daily = \<lparr>bo_interval = ''1d'', bo_count = None, bo_start = None, bo_end = None, bo_asOf = None\<rparr>"

definition answer :: "expr \<Rightarrow> bool \<Rightarrow> V \<times> prov \<Rightarrow> calc_output run" where
  "answer e wd vp = bindR (result_value (fst vp) (fst (expr_pos e))) (\<lambda>v.
     ret \<lparr>co_value = v, co_range = pv_range (snd vp), co_dates = (if wd then Some (pv_dates (snd vp)) else None)\<rparr>)"

lemma bars_evaluated:
  assumes "svc 0 request daily = Inr r" "br_bars r \<noteq> []"
  shows "\<exists>pv. run_bindings svc wd [] (pg_bindings (on_bars_program e)) empty_prov = ret ([(''s'', VSeries ''a|B'' r)], pv)"
  using assms
  by (simp add: on_bars_program_def ev_bind_def ev_ret_def ev_lift_def evalBars_def unnamed_def ev_str_def asStr_def
      keyword_def fetchBars_def empty_prov_def request_def daily_def jm_set_def Let_def)

lemma on_bars_evaluated:
  assumes "svc 0 request daily = Inr r" "br_bars r \<noteq> []"
  obtains pv where "evaluate (on_bars_program e) svc wd = bindR (evalExpr svc wd [(''s'', VSeries ''a|B'' r)] e pv) (answer e wd)"
proof -
  obtain pv where "run_bindings svc wd [] (pg_bindings (on_bars_program e)) empty_prov = ret ([(''s'', VSeries ''a|B'' r)], pv)"
    using bars_evaluated [where svc = svc and r = r, OF assms] by blast
  then have "evaluate (on_bars_program e) svc wd = bindR (evalExpr svc wd [(''s'', VSeries ''a|B'' r)] e pv) (answer e wd)"
    unfolding evaluate_def ev_bind_def by (simp add: answer_def [abs_def] case_prod_unfold on_bars_program_def)
  then show ?thesis by (rule that)
qed

lemmas evaluation_simps = evalFunction_def FUNCTIONS_def unnamed_def ev_bind_def ev_lift_def ev_ret_def ev_num_def asNum_def
  eval_name_def jm_get_def eval_attr_def series_columns_def

section \<open>Properties\<close>

text \<open>C36: a script that never answers.  The period of an indicator is not checked: for \<open>ema(s.close, -18014398509481984)\<close>, on
  any data, the bars are enough, and the loop starts at a number that adding one does not change.\<close>

theorem script_never_answers:
  assumes "svc 0 request daily = Inr r" "br_bars r \<noteq> []"
  shows "runScript stuck_script svc k wd = None"
proof -
  obtain pv where pv: "evaluate (on_bars_program stuck_result) svc wd =
      bindR (evalExpr svc wd [(''s'', VSeries ''a|B'' r)] stuck_result pv) (answer stuck_result wd)"
    by (rule on_bars_evaluated [where svc = svc and r = r, OF assms])
  let ?v = "map (column_of ''close'') (br_bars r)" and ?p = "Fin (- 18014398509481984)"
  have one: "n_plus ?p n_one = ?p" by code_simp
  have "EMA ?v ?p = None" by (rule conjunct1 [OF stuck_period [OF one refl]]) simp
  moreover have "\<not> d_lt (n_len ?v) ?p" by (simp add: n_len_def n_of_def)
  ultimately have "period_fn id EMA ''ema'' [VCol ?v (br_meta r), VNum ?p] 2 = None"
    by (simp add: period_fn_def argument_simps needBars_def num_result_def)
  then have "evalExpr svc wd [(''s'', VSeries ''a|B'' r)] stuck_result pv = None"
    by (simp add: stuck_result_def evaluation_simps)
  then show ?thesis by (simp add: runScript_def stuck_script_parsed pv)
qed

text \<open>C37: not every failure becomes a diagnostic.  \<open>atr\<close> is let through with as many bars as its period, where the indicator
  wants one more: its plain error leaves the entry point as an exception.\<close>

theorem atr_error_escapes:
  assumes "svc 0 request daily = Inr r" "length (br_bars r) = 3"
  shows "runScript atr_script svc k wd = fail (PlainErr ''ATR requires at least 4 data points for all arrays'')"
proof -
  have ne: "br_bars r \<noteq> []" using assms(2) by auto
  obtain pv where pv: "evaluate (on_bars_program atr_result) svc wd =
      bindR (evalExpr svc wd [(''s'', VSeries ''a|B'' r)] atr_result pv) (answer atr_result wd)"
    by (rule on_bars_evaluated [where svc = svc and r = r, OF assms(1) ne])
  have four: "num_str (n_plus (Fin 3) n_one) = ''4''" by code_simp
  have less: "d_lt (Fin 3) (n_plus (Fin 3) n_one)" by code_simp
  have "evalExpr svc wd [(''s'', VSeries ''a|B'' r)] atr_result pv = fail (PlainErr ''ATR requires at least 4 data points for all arrays'')"
    using assms(2) less four
    by (simp add: atr_result_def evaluation_simps atr_fn_def argument_simps needBars_def num_result_def ATR_def n_len_def n_of_def Let_def)
  then show ?thesis by (simp add: runScript_def atr_script_parsed pv fail_def)
qed

lemma script_never_answers_witness: "runScript stuck_script sample_service 4 True = None"
proof -
  obtain r where "sample_service 0 request daily = Inr r" "br_bars r \<noteq> []" by (simp add: sample_service_def)
  then show ?thesis by (rule script_never_answers)
qed

definition three_bars :: bar_service where
  "three_bars n ref opts = map_sum id (\<lambda>r. r\<lparr>br_bars := concat (replicate 3 (br_bars r))\<rparr>) (sample_service n ref opts)"

lemma atr_error_escapes_witness:
  "runScript atr_script three_bars 4 False = fail (PlainErr ''ATR requires at least 4 data points for all arrays'')"
proof -
  obtain r where "three_bars 0 request daily = Inr r" "length (br_bars r) = 3"
    by (simp add: three_bars_def sample_service_def numeral_3_eq_3)
  then show ?thesis by (rule atr_error_escapes)
qed

end
