(* ===== verification/Jsonl_Files.thy ===== *)
theory Jsonl_Files
  imports UTA_Prelude
begin

text \<open>
  What the journals of the program share: files of one JSON object per line, and \<open>Array.slice\<close>.

  A file is the list of its complete lines with the text after the last newline, if there is any.
  The stores write objects only, so a line either parses to an entry or is one that \<open>JSON.parse\<close>
  refuses; blank lines are skipped by every reader and are left out.  A process that dies while it
  appends leaves an unterminated tail, which is the whole entry or a beginning of it that does not
  parse.  The next append lands behind that tail, on the same line.
\<close>

section \<open>Lines\<close>

datatype 'a jline = Entry 'a | Garbled

type_synonym 'a jfile = "'a jline list \<times> 'a jline option"

definition jf_lines :: "'a jfile \<Rightarrow> 'a jline list" where
  "jf_lines f = fst f @ (case snd f of None \<Rightarrow> [] | Some l \<Rightarrow> [l])"

text \<open>\<open>appendFile(path, JSON.stringify(e) + newline)\<close>; it creates the file.\<close>

definition jf_append :: "'a \<Rightarrow> 'a jfile option \<Rightarrow> 'a jfile option" where
  "jf_append e f =
     (case f of
        None \<Rightarrow> Some ([Entry e], None)
      | Some (ls, None) \<Rightarrow> Some (ls @ [Entry e], None)
      | Some (ls, Some t) \<Rightarrow> Some (ls @ [Garbled], None))"

text \<open>The same write, cut short by the end of the process: all but the newline, or less.\<close>

definition jf_tear :: "'a \<Rightarrow> bool \<Rightarrow> 'a jfile option \<Rightarrow> 'a jfile option" where
  "jf_tear e whole f =
     (case f of
        None \<Rightarrow> Some ([], Some (if whole then Entry e else Garbled))
      | Some (ls, None) \<Rightarrow> Some (ls, Some (if whole then Entry e else Garbled))
      | Some (ls, Some t) \<Rightarrow> Some (ls, Some Garbled))"

text \<open>The entries of the lines that parse.\<close>

fun parsed :: "'a jline list \<Rightarrow> 'a list" where
  "parsed [] = []"
| "parsed (Entry e # ls) = e # parsed ls"
| "parsed (Garbled # ls) = parsed ls"

definition jf_entries :: "'a jfile option \<Rightarrow> 'a list" where
  "jf_entries f = (case f of None \<Rightarrow> [] | Some g \<Rightarrow> parsed (jf_lines g))"

text \<open>A file that ends with a newline.\<close>

definition jf_clean :: "'a jfile option \<Rightarrow> bool" where
  "jf_clean f \<longleftrightarrow> (case f of None \<Rightarrow> True | Some g \<Rightarrow> snd g = None)"

lemma parsed_append [simp]: "parsed (xs @ ys) = parsed xs @ parsed ys"
  by (induction xs rule: parsed.induct) auto

lemma parsed_map_Entry [simp]: "parsed (map Entry es) = es"
  by (induction es) auto

lemma jf_entries_None [simp]: "jf_entries None = []" "jf_clean None"
  by (simp_all add: jf_entries_def jf_clean_def)

lemma jf_entries_append [simp]: "jf_clean f \<Longrightarrow> jf_entries (jf_append e f) = jf_entries f @ [e]"
  by (auto simp: jf_clean_def jf_entries_def jf_append_def jf_lines_def split: option.splits)

lemma jf_clean_append [simp]: "jf_clean (jf_append e f)"
  by (auto simp: jf_clean_def jf_append_def split: option.splits prod.splits)

section \<open>\<open>Array.slice\<close>\<close>

text \<open>Bounds below 0 count from the end; bounds outside the array are moved to its ends.\<close>

definition slice_bound :: "int \<Rightarrow> nat \<Rightarrow> nat" where
  "slice_bound i n = (if i < 0 then nat (int n + i) else min (nat i) n)"

definition slice_to :: "int \<Rightarrow> int \<Rightarrow> 'a list \<Rightarrow> 'a list" where
  "slice_to s e xs =
     (let from = slice_bound s (length xs); to = slice_bound e (length xs) in take (to - from) (drop from xs))"

definition slice_from :: "int \<Rightarrow> 'a list \<Rightarrow> 'a list" where
  "slice_from s xs = drop (slice_bound s (length xs)) xs"

lemma slice_from_last: "0 < n \<Longrightarrow> slice_from (- int n) xs = drop (length xs - n) xs"
  by (simp add: slice_from_def slice_bound_def nat_minus_as_int)

lemma slice_from_0 [simp]: "slice_from 0 xs = xs"
  by (simp add: slice_from_def slice_bound_def)

text \<open>The last \<open>n\<close> elements, kept while elements are pushed.\<close>

definition newest :: "nat \<Rightarrow> 'a list \<Rightarrow> 'a list" where
  "newest n xs = drop (length xs - n) xs"

lemma newest_snoc: "newest n (newest n xs @ [x]) = newest n (xs @ [x])"
  by (cases "length xs \<le> n") (simp_all add: newest_def Suc_diff_le)

end
