(* ===== verification/Event_Log.thy ===== *)
theory Event_Log
  imports Jsonl_Files
begin

text \<open>
  The event log (\<open>core/event-log.ts\<close>): an append-only journal on disk with a buffer of the newest
  entries in memory and listeners.  An append numbers its entry, then awaits the write; appends that
  overlap reach the disk in any order, and their continuations run in any order too, so the log is a
  machine with those steps.  A restart reads the file back.
\<close>

section \<open>State\<close>

record 'p event_entry =
  ev_seq :: int
  ev_ts :: int
  ev_type :: string
  ev_payload :: 'p
  ev_causedBy :: "int option"

text \<open>
  \<open>el_writing\<close> are the entries whose write is under way, \<open>el_written\<close> those on disk whose append has
  not gone on yet.  The listeners of a type are a set object: \<open>typeListeners\<close> maps the type to it, and
  the function that unsubscribes keeps it.  \<open>el_calls\<close> lists the calls of listeners.
\<close>

record 'p event_log =
  el_bufferSize :: nat
  el_file :: "'p event_entry jfile option"
  el_seq :: int
  el_buffer :: "'p event_entry list"
  el_writing :: "'p event_entry list"
  el_written :: "'p event_entry list"
  el_listeners :: "string list"
  el_typed :: "(string, nat) jsmap"
  el_sets :: "string list list"
  el_calls :: "(string \<times> 'p event_entry) list"

definition recoverState :: "nat \<Rightarrow> 'p event_entry jfile option \<Rightarrow> 'p event_entry list \<times> int" where
  "recoverState sz f =
     (let es = jf_entries f in
      if es = [] then ([], 0) else (slice_from (- int sz) es, ev_seq (last es)))"

definition createEventLog :: "nat \<Rightarrow> 'p event_entry jfile option \<Rightarrow> 'p event_log" where
  "createEventLog sz f =
     (case recoverState sz f of
        (buffer, seq) \<Rightarrow>
          \<lparr>el_bufferSize = sz, el_file = f, el_seq = seq, el_buffer = buffer, el_writing = [], el_written = [],
           el_listeners = [], el_typed = [], el_sets = [], el_calls = []\<rparr>)"

section \<open>Append\<close>

definition begin_append :: "string \<Rightarrow> 'p \<Rightarrow> int option \<Rightarrow> int \<Rightarrow> 'p event_log \<Rightarrow> 'p event_log" where
  "begin_append ty p cause now l =
     (let s = el_seq l + 1 in
      l\<lparr>el_seq := s,
        el_writing := el_writing l @ [\<lparr>ev_seq = s, ev_ts = now, ev_type = ty, ev_payload = p, ev_causedBy = cause\<rparr>]\<rparr>)"

definition without :: "nat \<Rightarrow> 'a list \<Rightarrow> 'a list" where
  "without k xs = take k xs @ drop (Suc k) xs"

definition disk_write :: "nat \<Rightarrow> 'p event_log \<Rightarrow> 'p event_log option" where
  "disk_write k l =
     (if length (el_writing l) \<le> k then None
      else Some (l\<lparr>el_file := jf_append (el_writing l ! k) (el_file l), el_writing := without k (el_writing l),
        el_written := el_written l @ [el_writing l ! k]\<rparr>))"

text \<open>A write that rejects ends its append with the error; the number is spent.\<close>

definition write_fails :: "nat \<Rightarrow> 'p event_log \<Rightarrow> 'p event_log option" where
  "write_fails k l =
     (if length (el_writing l) \<le> k then None else Some (l\<lparr>el_writing := without k (el_writing l)\<rparr>))"

definition push_buffer :: "nat \<Rightarrow> 'a \<Rightarrow> 'a list \<Rightarrow> 'a list" where
  "push_buffer sz e buf =
     (let b = buf @ [e] in if sz < length b then slice_from (int (length b) - int sz) b else b)"

definition typed_listeners :: "'p event_log \<Rightarrow> string \<Rightarrow> string list" where
  "typed_listeners l ty = (case jm_get (el_typed l) ty of None \<Rightarrow> [] | Some i \<Rightarrow> el_sets l ! i)"

definition fan_out :: "'p event_entry \<Rightarrow> 'p event_log \<Rightarrow> (string \<times> 'p event_entry) list" where
  "fan_out e l = map (\<lambda>f. (f, e)) (el_listeners l @ typed_listeners l (ev_type e))"

definition finish_append :: "nat \<Rightarrow> 'p event_log \<Rightarrow> ('p event_entry \<times> 'p event_log) option" where
  "finish_append k l =
     (if length (el_written l) \<le> k then None
      else let e = el_written l ! k in
        Some (e, l\<lparr>el_buffer := push_buffer (el_bufferSize l) e (el_buffer l), el_written := without k (el_written l),
          el_calls := el_calls l @ fan_out e l\<rparr>))"

section \<open>Queries\<close>

definition passes :: "string option \<Rightarrow> int \<Rightarrow> 'p event_entry \<Rightarrow> bool" where
  "passes ty after e \<longleftrightarrow> after < ev_seq e \<and> (truthy ty \<longrightarrow> ev_type e = the ty)"

text \<open>The loop over the entries, which tests the limit after it has pushed; no limit is \<open>Infinity\<close>.\<close>

fun collect :: "string option \<Rightarrow> int \<Rightarrow> int option \<Rightarrow> 'p event_entry list \<Rightarrow> 'p event_entry list \<Rightarrow> 'p event_entry list" where
  "collect ty after limit [] acc = acc"
| "collect ty after limit (e # es) acc =
     (if \<not> passes ty after e then collect ty after limit es acc
      else let acc1 = acc @ [e] in
        if (case limit of None \<Rightarrow> False | Some n \<Rightarrow> n \<le> int (length acc1)) then acc1
        else collect ty after limit es acc1)"

definition default :: "'a \<Rightarrow> 'a option \<Rightarrow> 'a" where
  "default d x = (case x of None \<Rightarrow> d | Some y \<Rightarrow> y)"

definition el_read :: "int option \<Rightarrow> int option \<Rightarrow> string option \<Rightarrow> 'p event_log \<Rightarrow> 'p event_entry list" where
  "el_read after limit ty l = collect ty (default 0 after) limit (jf_entries (el_file l)) []"

definition el_recent :: "int option \<Rightarrow> int option \<Rightarrow> string option \<Rightarrow> 'p event_log \<Rightarrow> 'p event_entry list" where
  "el_recent after limit ty l = collect ty (default 0 after) limit (el_buffer l) []"

record 'p query_result =
  qr_entries :: "'p event_entry list"
  qr_total :: int
  qr_page :: int
  qr_pageSize :: int
  qr_totalPages :: int

definition ceil_div :: "int \<Rightarrow> int \<Rightarrow> int" where
  "ceil_div a b = - ((- a) div b)"

definition page_of :: "int \<Rightarrow> int \<Rightarrow> 'a list \<Rightarrow> 'a list" where
  "page_of page sz xs =
     (let total = int (length xs) in
      rev (slice_to (max 0 (total - page * sz)) (total - (page - 1) * sz) xs))"

definition el_query :: "int option \<Rightarrow> int option \<Rightarrow> string option \<Rightarrow> 'p event_log \<Rightarrow> 'p query_result" where
  "el_query page pageSize ty l =
     (let p = max 1 (default 1 page); n = max 1 (default 100 pageSize);
          xs = el_read None None ty l; total = int (length xs) in
      \<lparr>qr_entries = page_of p n xs, qr_total = total, qr_page = p, qr_pageSize = n,
       qr_totalPages = max 1 (ceil_div total n)\<rparr>)"

section \<open>Listeners and life cycle\<close>

definition set_add :: "'a \<Rightarrow> 'a list \<Rightarrow> 'a list" where
  "set_add x xs = (if x \<in> set xs then xs else xs @ [x])"

definition set_delete :: "'a \<Rightarrow> 'a list \<Rightarrow> 'a list" where
  "set_delete x xs = filter (\<lambda>y. y \<noteq> x) xs"

definition subscribe :: "string \<Rightarrow> 'p event_log \<Rightarrow> 'p event_log" where
  "subscribe f l = l\<lparr>el_listeners := set_add f (el_listeners l)\<rparr>"

definition unsubscribe :: "string \<Rightarrow> 'p event_log \<Rightarrow> 'p event_log" where
  "unsubscribe f l = l\<lparr>el_listeners := set_delete f (el_listeners l)\<rparr>"

text \<open>The returned function is the type, the set object and the listener that it closes over.\<close>

type_synonym handle = "string \<times> nat \<times> string"

definition subscribeType :: "string \<Rightarrow> string \<Rightarrow> 'p event_log \<Rightarrow> handle \<times> 'p event_log" where
  "subscribeType ty f l =
     (case jm_get (el_typed l) ty of
        Some i \<Rightarrow> ((ty, i, f), l\<lparr>el_sets := (el_sets l)[i := set_add f (el_sets l ! i)]\<rparr>)
      | None \<Rightarrow>
          (let i = length (el_sets l) in
           ((ty, i, f), l\<lparr>el_typed := jm_set ty i (el_typed l), el_sets := el_sets l @ [[f]]\<rparr>)))"

definition unsubscribeType :: "handle \<Rightarrow> 'p event_log \<Rightarrow> 'p event_log" where
  "unsubscribeType h l =
     (case h of (ty, i, f) \<Rightarrow>
        (let s = set_delete f (el_sets l ! i) in
         l\<lparr>el_sets := (el_sets l)[i := s],
           el_typed := (if s = [] then jm_delete ty (el_typed l) else el_typed l)\<rparr>))"

definition close_log :: "'p event_log \<Rightarrow> 'p event_log" where
  "close_log l = l\<lparr>el_listeners := [], el_typed := [], el_buffer := []\<rparr>"

definition resetForTest :: "'p event_log \<Rightarrow> 'p event_log" where
  "resetForTest l = (close_log l)\<lparr>el_seq := 0, el_file := None\<rparr>"

section \<open>The machine\<close>

datatype 'p log_event =
    BeginAppend string 'p "int option" int
  | DiskWrite nat
  | WriteFails nat
  | FinishAppend nat
  | Restart
  | DieWriting nat bool

fun log_step :: "'p log_event \<Rightarrow> 'p event_log \<Rightarrow> 'p event_log option" where
  "log_step (BeginAppend ty p cause now) l = Some (begin_append ty p cause now l)"
| "log_step (DiskWrite k) l = disk_write k l"
| "log_step (WriteFails k) l = write_fails k l"
| "log_step (FinishAppend k) l = map_option snd (finish_append k l)"
| "log_step Restart l = Some (createEventLog (el_bufferSize l) (el_file l))"
| "log_step (DieWriting k whole) l =
     (if length (el_writing l) \<le> k then None
      else Some (createEventLog (el_bufferSize l) (jf_tear (el_writing l ! k) whole (el_file l))))"

fun log_run :: "'p log_event list \<Rightarrow> 'p event_log \<Rightarrow> 'p event_log option" where
  "log_run [] l = Some l"
| "log_run (ev # evs) l = (case log_step ev l of None \<Rightarrow> None | Some l1 \<Rightarrow> log_run evs l1)"


section \<open>Appends that do not overlap\<close>

text \<open>Every append waits for the one before it, and no process dies during a write.\<close>

fun one_at_a_time :: "'p log_event list \<Rightarrow> 'p event_log \<Rightarrow> bool" where
  "one_at_a_time [] l = True"
| "one_at_a_time (ev # evs) l =
     ((case ev of BeginAppend ty p cause now \<Rightarrow> el_writing l = [] \<and> el_written l = [] | DieWriting k whole \<Rightarrow> False
       | _ \<Rightarrow> True) \<and>
      (case log_step ev l of None \<Rightarrow> True | Some l1 \<Rightarrow> one_at_a_time evs l1))"

definition numbered :: "'p event_entry list \<Rightarrow> bool" where
  "numbered es \<longleftrightarrow> sorted_wrt (<) (map ev_seq es)"

definition journal_ok :: "'p event_log \<Rightarrow> bool" where
  "journal_ok l \<longleftrightarrow>
     jf_clean (el_file l) \<and> 0 < el_bufferSize l \<and>
     length (el_writing l) + length (el_written l) \<le> 1 \<and>
     numbered (jf_entries (el_file l) @ el_writing l) \<and>
     (\<forall>e \<in> set (jf_entries (el_file l) @ el_writing l). ev_seq e \<le> el_seq l) \<and>
     (\<exists>es. jf_entries (el_file l) = es @ el_written l \<and> el_buffer l = newest (el_bufferSize l) es)"

lemma slice_from_newest: "0 < n \<Longrightarrow> slice_from (- int n) xs = newest n xs"
  by (simp add: slice_from_last newest_def)

lemma push_buffer_newest: "push_buffer n e buf = newest n (buf @ [e])"
  by (auto simp: push_buffer_def newest_def Let_def slice_from_def slice_bound_def min_def nat_diff_distrib
      nat_add_distrib)

lemma numbered_last:
  assumes "numbered es" "e \<in> set es"
  shows "ev_seq e \<le> ev_seq (last es)"
proof (cases es rule: rev_cases)
  case Nil
  then show ?thesis using assms(2) by simp
next
  case (snoc ys y)
  then show ?thesis using assms by (auto simp: numbered_def sorted_wrt_append)
qed

lemma journal_ok_create:
  assumes "jf_clean f" "0 < n" "numbered (jf_entries f)"
  shows "journal_ok (createEventLog n f)"
  using assms
  by (auto simp: journal_ok_def createEventLog_def recoverState_def Let_def slice_from_newest newest_def
      numbered_last split: prod.splits if_splits)

lemma numbered_snoc:
  "numbered (es @ [e]) \<longleftrightarrow> numbered es \<and> (\<forall>x \<in> set es. ev_seq x < ev_seq e)"
  by (auto simp: numbered_def sorted_wrt_append)

lemma only_one: "length xs + length ys \<le> 1 \<Longrightarrow> \<not> length xs \<le> k \<Longrightarrow> k = 0 \<and> (\<exists>x. xs = [x]) \<and> ys = []"
  by (cases xs) auto

lemma journal_ok_step:
  assumes "journal_ok l" "log_step ev l = Some l1" "one_at_a_time [ev] l"
  shows "journal_ok l1 \<and> el_bufferSize l1 = el_bufferSize l"
proof (cases ev)
  case (BeginAppend ty p cause now)
  with assms show ?thesis
    by (force simp: journal_ok_def begin_append_def Let_def numbered_snoc)
next
  case (DiskWrite k)
  then show ?thesis
    using assms only_one [of "el_writing l" "el_written l" k]
    by (auto simp: journal_ok_def not_le disk_write_def without_def split: if_splits)
next
  case (WriteFails k)
  then show ?thesis
    using assms only_one [of "el_writing l" "el_written l" k]
    by (auto simp: journal_ok_def not_le write_fails_def without_def numbered_snoc split: if_splits)
next
  case (FinishAppend k)
  then show ?thesis
    using assms only_one [of "el_written l" "el_writing l" k]
    by (auto simp: journal_ok_def not_le finish_append_def without_def push_buffer_newest newest_snoc Let_def
        split: if_splits)
next
  case Restart
  with assms show ?thesis
    using journal_ok_create [of "el_file l" "el_bufferSize l"]
    by (auto simp: journal_ok_def numbered_def sorted_wrt_append createEventLog_def split: prod.splits)
next
  case (DieWriting k whole)
  with assms(3) show ?thesis by simp
qed

lemma journal_ok_run:
  assumes "journal_ok l" "log_run evs l = Some l1" "one_at_a_time evs l"
  shows "journal_ok l1 \<and> el_bufferSize l1 = el_bufferSize l"
  using assms
proof (induction evs arbitrary: l)
  case Nil
  then show ?case by simp
next
  case (Cons ev evs)
  then obtain l2 where l2: "log_step ev l = Some l2" by (cases "log_step ev l") auto
  with Cons.prems journal_ok_step [of l ev l2] have "journal_ok l2 \<and> el_bufferSize l2 = el_bufferSize l"
    by simp
  with Cons.IH [of l2] Cons.prems l2 show ?case by simp
qed

section \<open>Pages\<close>

lemma page_of_rev:
  assumes "p * n \<le> length xs" "0 < n"
  shows "page_of (int p + 1) (int n) xs = take n (drop (p * n) (rev xs))"
proof -
  have low: "slice_bound (max 0 (int (length xs) - (int p + 1) * int n)) (length xs) = length xs - (p + 1) * n"
    by (simp add: slice_bound_def min_def max_def nat_diff_distrib algebra_simps flip: of_nat_mult of_nat_add)
  have high: "slice_bound (int (length xs) - (int p + 1 - 1) * int n) (length xs) = length xs - p * n"
    using assms
    by (simp add: slice_bound_def min_def nat_diff_distrib algebra_simps flip: of_nat_mult of_nat_add)
  let ?a = "length xs - p * n" and ?b = "length xs - (p + 1) * n"
  have "page_of (int p + 1) (int n) xs = rev (drop ?b (take ?a xs))"
    by (simp only: page_of_def slice_to_def Let_def low high drop_take)
  also have "\<dots> = take (?a - ?b) (drop (length xs - ?a) (rev xs))"
    by (simp add: rev_drop rev_take)
  also have "\<dots> = take n (drop (p * n) (rev xs))"
  proof (cases "n \<le> ?a")
    case True
    with assms have "?a - ?b = n" "length xs - ?a = p * n" by (simp_all add: algebra_simps)
    then show ?thesis by simp
  next
    case False
    with assms have "?a - ?b = ?a" "length xs - ?a = p * n" by (simp_all add: algebra_simps)
    with False show ?thesis by simp
  qed
  finally show ?thesis .
qed

lemma concat_pages: "concat (map (\<lambda>p. take n (drop (p * n) ys)) [0..<k]) = take (k * n) ys"
proof (induction k)
  case 0
  then show ?case by simp
next
  case (Suc k)
  then show ?case by (simp add: take_add add.commute [of n])
qed

lemma ceil_div_bounds:
  fixes t n k :: nat
  assumes "0 < n" "k = nat (max 1 (ceil_div (int t) (int n)))"
  shows "t \<le> k * n" "q < k \<Longrightarrow> q * n \<le> t"
proof -
  let ?c = "ceil_div (int t) (int n)"
  have n: "0 < int n" using assms(1) by simp
  have split: "int n * (- int t div int n) + - int t mod int n = - int t" by (rule mult_div_mod_eq)
  have c: "?c * int n = - (int n * (- int t div int n))" by (simp add: ceil_div_def)
  have up: "int t \<le> ?c * int n"
    using split pos_mod_sign [OF n, of "- int t"] unfolding c by linarith
  have "?c * int n < int t + int n"
    using split pos_mod_bound [OF n, of "- int t"] unfolding c by linarith
  then have down: "(?c - 1) * int n < int t" by (simp add: algebra_simps)
  have k: "int k = max 1 ?c" using assms(2) by simp
  have "?c * int n \<le> int k * int n"
    using n by (intro mult_right_mono) (simp_all add: k)
  with up have "int t \<le> int (k * n)" by simp
  then show "t \<le> k * n" by linarith
  assume q: "q < k"
  show "q * n \<le> t"
  proof (cases "q = 0")
    case False
    with q k have "int q \<le> ?c - 1" by linarith
    with n have "int q * int n \<le> (?c - 1) * int n" by (intro mult_right_mono) simp_all
    with down have "int (q * n) < int t" by simp
    then show ?thesis by linarith
  qed simp
qed

lemma map_upt_Suc_shift: "map f [1..<Suc k] = map (\<lambda>q. f (Suc q)) [0..<k]"
  by (simp only: One_nat_def map_Suc_upt [symmetric] map_map o_def)

text \<open>The pages of \<open>query\<close>, from the first to the last that it reports, show every entry of the
  type on disk exactly once, newest first, whatever page size is asked for.\<close>

theorem pages_show_every_entry_once:
  "concat (map (\<lambda>p. qr_entries (el_query (Some (int p)) pageSize ty l))
      [1..<Suc (nat (qr_totalPages (el_query None pageSize ty l)))])
    = rev (el_read None None ty l)"
proof -
  define xs where "xs = el_read None None ty l"
  define n where "n = nat (max 1 (default 100 pageSize))"
  define k where "k = nat (max 1 (ceil_div (int (length xs)) (int n)))"
  have n: "0 < n" "max 1 (default 100 pageSize) = int n" by (simp_all add: n_def)
  have total: "nat (qr_totalPages (el_query None pageSize ty l)) = k"
    by (simp add: el_query_def Let_def k_def xs_def n(2))
  have page: "qr_entries (el_query (Some (int (Suc q))) pageSize ty l) = take n (drop (q * n) (rev xs))"
    if "q < k" for q
  proof -
    have p: "max 1 (default 1 (Some (int (Suc q)))) = int q + 1" by (simp add: default_def)
    have "q * n \<le> length xs" using ceil_div_bounds(2) [OF n(1) k_def that] .
    with n(1) show ?thesis by (simp only: el_query_def Let_def event_log.simps query_result.simps p n(2) xs_def [symmetric] page_of_rev)
  qed
  have "concat (map (\<lambda>p. qr_entries (el_query (Some (int p)) pageSize ty l)) [1..<Suc k])
    = concat (map (\<lambda>q. take n (drop (q * n) (rev xs))) [0..<k])"
    unfolding map_upt_Suc_shift by (intro arg_cong [where f = concat] map_cong refl page) simp
  also have "\<dots> = rev xs"
    using ceil_div_bounds(1) [OF n(1) k_def] by (simp add: concat_pages)
  finally show ?thesis by (simp only: total xs_def)
qed

text \<open>A page that starts beyond the oldest entry is not empty: the bound falls below 0 and counts from the end.\<close>

lemma page_past_the_end:
  assumes "int (length xs) < (page - 1) * n" "0 < n"
  shows "page_of page n xs = rev (take (nat (2 * int (length xs) - (page - 1) * n)) xs)"
proof -
  have low: "int (length xs) - page * n \<le> 0" using assms by (simp add: algebra_simps)
  have high: "slice_bound (int (length xs) - (page - 1) * n) (length xs) = nat (2 * int (length xs) - (page - 1) * n)"
    using assms(1) by (simp add: slice_bound_def algebra_simps)
  show ?thesis
    using low by (simp only: page_of_def slice_to_def Let_def high) (simp add: slice_bound_def max_def)
qed

section \<open>What the log promises\<close>

text \<open>C13: take a log that starts without a file and has a buffer of at least one entry, and any run of
  appends, failing writes, reads and restarts in which no append starts before the one before it has
  answered and no write is cut short.  Then the entries on disk carry strictly increasing numbers, all at
  or below the counter, and between appends a query of the memory buffer (\<open>recent\<close>, with any bound, type
  and limit) answers what the newest \<open>bufferSize\<close> entries on disk give.\<close>

theorem sequential_appends_numbered:
  assumes "0 < n" "one_at_a_time evs (createEventLog n None)" "log_run evs (createEventLog n None) = Some l"
  shows "sorted_wrt (<) (map ev_seq (jf_entries (el_file l))) \<and>
    list_all (\<lambda>e. ev_seq e \<le> el_seq l) (jf_entries (el_file l)) \<and>
    (el_writing l = [] \<and> el_written l = [] \<longrightarrow>
      el_recent after limit ty l = collect ty (default 0 after) limit (newest n (jf_entries (el_file l))) [])"
proof -
  have start: "journal_ok (createEventLog n None)" "el_bufferSize (createEventLog n None :: 'a event_log) = n"
    using assms(1) journal_ok_create [of None n]
    by (simp_all add: numbered_def createEventLog_def recoverState_def)
  have "journal_ok l" "el_bufferSize l = n"
    using journal_ok_run [OF start(1) assms(3,2)] start(2) by simp_all
  then show ?thesis
    by (auto simp: journal_ok_def numbered_def sorted_wrt_append list_all_iff el_recent_def)
qed

text \<open>Two appends that overlap may reach the disk in the other order; after a restart the counter is
  that of the last line, and the next append gets the number of an entry that is on disk already.\<close>

theorem overlapping_appends_reuse_a_number:
  "\<exists>l a b c. log_run
      [BeginAppend ty1 p1 c1 t1, BeginAppend ty2 p2 c2 t2, DiskWrite 1, DiskWrite 0, FinishAppend 0, FinishAppend 0,
       Restart, BeginAppend ty3 p3 c3 t3, DiskWrite 0, FinishAppend 0] (createEventLog n (Some (ls, None))) = Some l \<and>
      jf_entries (el_file l) = parsed ls @ [b, a, c] \<and> ev_payload b = p2 \<and> ev_payload c = p3 \<and>
      ev_seq b = ev_seq c"
  by (simp add: createEventLog_def recoverState_def begin_append_def disk_write_def finish_append_def without_def
      jf_append_def jf_entries_def jf_lines_def Let_def split: prod.splits)

text \<open>After a process has died during a write, the next append answers with its entry and keeps it in
  memory, but not on disk: it shares its line with what the dead write left, and that line does not parse.\<close>

theorem append_after_torn_write_is_lost:
  "\<exists>l e. log_run [BeginAppend ty0 p0 c0 t0, DieWriting 0 whole, BeginAppend ty p cause now, DiskWrite 0]
        (createEventLog (Suc n) (Some (ls, None))) = Some l \<and>
      map_option (\<lambda>(x, l1). x = e \<and> e \<in> set (el_buffer l1)) (finish_append 0 l) = Some True \<and>
      ev_payload e = p \<and> jf_entries (el_file l) = parsed ls"
  by (simp add: createEventLog_def recoverState_def begin_append_def disk_write_def finish_append_def without_def
      jf_append_def jf_tear_def jf_entries_def jf_lines_def push_buffer_newest newest_def Let_def split: prod.splits)

text \<open>
  The function that unsubscribes a typed listener, called again after its set was emptied and the type
  had a new subscriber, removes the new subscriber's set.
\<close>

lemma stale_unsubscribe_drops_listener:
  assumes "jm_get (el_typed l) ty = None"
    and "subscribeType ty f l = (h, l1)" "subscribeType ty g (unsubscribeType h l1) = (h2, l2)"
  shows "typed_listeners l2 ty = [g] \<and> typed_listeners (unsubscribeType h l2) ty = []"
  using assms
  by (auto simp: subscribeType_def unsubscribeType_def typed_listeners_def set_delete_def Let_def nth_append
      jm_get_def jm_set_def jm_delete_def update_conv' delete_conv')

section \<open>Witnesses\<close>

definition demo_log_events :: "nat log_event list" where
  "demo_log_events =
     [BeginAppend ''trade.open'' 7 None 100, DiskWrite 0, FinishAppend 0, BeginAppend ''heartbeat.ok'' 8 (Some 1) 200,
      WriteFails 0, Restart, BeginAppend ''trade.close'' 9 (Some 1) 300, DiskWrite 0, FinishAppend 0]"

theorem sequential_appends_numbered_witness:
  "\<exists>l. log_run demo_log_events (createEventLog 1 None) = Some l \<and>
     map ev_payload (jf_entries (el_file l)) = [7, 9] \<and> sorted_wrt (<) (map ev_seq (jf_entries (el_file l))) \<and>
     map ev_payload (el_recent None None (Some ''trade.close'') l) = [9]"
proof -
  define l :: "nat event_log" where "l = the (log_run demo_log_events (createEventLog 1 None))"
  have run: "log_run demo_log_events (createEventLog 1 None) = Some l" unfolding l_def by code_simp
  have calm: "one_at_a_time demo_log_events (createEventLog 1 None)" by code_simp
  have idle: "el_writing l = [] \<and> el_written l = []" "map ev_payload (jf_entries (el_file l)) = [7, 9]"
    "map ev_payload (collect (Some ''trade.close'') (default 0 None) None (newest 1 (jf_entries (el_file l))) []) = [9]"
    unfolding l_def by code_simp+
  show ?thesis
    using sequential_appends_numbered [OF zero_less_one calm run, of None None "Some ''trade.close''"] run idle by auto
qed

end
