(* ===== verification/Inbox_Store.thy ===== *)
theory Inbox_Store
  imports Jsonl_Files JS_Strings
begin

text \<open>
  The inbox (\<open>core/inbox-store.ts\<close>): entries in an append-only file, the state of attention in a second
  file, and the store in memory that the tests use in its place.  \<open>randomUUID()\<close> and \<open>Date.now()\<close> are
  arguments of the calls.
\<close>

section \<open>Entries\<close>

datatype origin_kind = Headless | Interactive | ManualPush

record inbox_origin =
  io_kind :: origin_kind
  io_runId :: "string option"
  io_issueId :: "string option"
  io_issueWorkspaceId :: "string option"
  io_sessionId :: "string option"
  io_resumeId :: "string option"
  io_agent :: "string option"

record inbox_doc =
  id_path :: string
  id_revision :: "string option"

record inbox_input =
  ii_workspaceId :: string
  ii_workspaceLabel :: "string option"
  ii_docs :: "inbox_doc list option"
  ii_comments :: "string option"
  ii_origin :: "inbox_origin option"

record inbox_entry = inbox_input +
  ie_id :: string
  ie_ts :: int
  ie_readAt :: "int option"

record inbox_read_opts =
  ro_limit :: "int option"
  ro_before :: "string option"
  ro_workspaceId :: "string option"
  ro_unread :: bool

datatype inbox_error = InvalidInput string | SyntaxError

definition validateInput :: "inbox_input \<Rightarrow> inbox_error + unit" where
  "validateInput i =
     (let docs = (case ii_docs i of None \<Rightarrow> [] | Some ds \<Rightarrow> ds);
          comments = trim (case ii_comments i of None \<Rightarrow> [] | Some c \<Rightarrow> c) in
      bindE (ensure (ii_workspaceId i \<noteq> []) (InvalidInput ''InboxStore.append: workspaceId is required'')) (\<lambda>_.
      bindE (ensure (docs \<noteq> [] \<or> comments \<noteq> [])
               (InvalidInput ''InboxStore.append: at least one of docs or comments must be present'')) (\<lambda>_.
      ensure (list_all (\<lambda>d. id_path d \<noteq> []) docs)
        (InvalidInput ''InboxStore.append: each doc must have a non-empty `path` string''))))"

definition new_entry :: "inbox_input \<Rightarrow> string \<Rightarrow> int \<Rightarrow> inbox_entry" where
  "new_entry i uuid now = inbox_input.extend i \<lparr>ie_id = uuid, ie_ts = now, ie_readAt = None\<rparr>"

text \<open>The part of a read that both stores have: which entries, and the window before the cursor.\<close>

definition is_unread :: "inbox_entry \<Rightarrow> bool" where
  "is_unread e \<longleftrightarrow> (case ie_readAt e of None \<Rightarrow> True | Some t \<Rightarrow> t = 0)"

definition wanted :: "inbox_read_opts \<Rightarrow> inbox_entry list \<Rightarrow> inbox_entry list" where
  "wanted opts es =
     (let xs = (if truthy (ro_workspaceId opts) then filter (\<lambda>e. ii_workspaceId e = the (ro_workspaceId opts)) es else es)
      in if ro_unread opts then filter is_unread xs else xs)"

fun find_index :: "('a \<Rightarrow> bool) \<Rightarrow> 'a list \<Rightarrow> nat option" where
  "find_index P [] = None"
| "find_index P (x # xs) = (if P x then Some 0 else map_option Suc (find_index P xs))"

definition older :: "inbox_read_opts \<Rightarrow> inbox_entry list \<Rightarrow> inbox_entry list" where
  "older opts xs =
     (if truthy (ro_before opts) then
        (case find_index (\<lambda>e. ie_id e = the (ro_before opts)) xs of Some i \<Rightarrow> take i xs | None \<Rightarrow> [])
      else xs)"

definition page_window :: "inbox_read_opts \<Rightarrow> inbox_entry list \<Rightarrow> inbox_entry list \<times> bool" where
  "page_window opts es =
     (let scoped = older opts (wanted opts es);
          limit = (case ro_limit opts of None \<Rightarrow> 100 | Some n \<Rightarrow> n);
          window = slice_from (- limit) scoped in
      (rev window, length window < length scoped))"

section \<open>The store on disk\<close>

text \<open>
  The file of the state of attention is missing, does not parse, or maps ids to times.  \<open>if_events\<close> lists
  what the emitter announced.
\<close>

datatype read_file = NoReadFile | BadReadFile | ReadFile "(string, int) jsmap"

datatype inbox_event = Appended inbox_entry | Removed string

record inbox_files =
  if_entries :: "inbox_entry jfile option"
  if_read :: read_file
  if_events :: "inbox_event list"

definition no_inbox :: inbox_files where
  "no_inbox = \<lparr>if_entries = None, if_read = NoReadFile, if_events = []\<rparr>"

definition readReadState :: "inbox_files \<Rightarrow> inbox_error + (string, int) jsmap" where
  "readReadState f =
     (case if_read f of NoReadFile \<Rightarrow> Inr [] | BadReadFile \<Rightarrow> Inl SyntaxError | ReadFile m \<Rightarrow> Inr m)"

definition entryExists :: "string \<Rightarrow> inbox_files \<Rightarrow> bool" where
  "entryExists i f = list_ex (\<lambda>e. ie_id e = i) (jf_entries (if_entries f))"

definition fs_append :: "inbox_input \<Rightarrow> string \<Rightarrow> int \<Rightarrow> inbox_files \<Rightarrow> (inbox_error + inbox_entry) \<times> inbox_files" where
  "fs_append inp uuid now f =
     (case validateInput inp of
        Inl e \<Rightarrow> (Inl e, f)
      | Inr _ \<Rightarrow>
          (let e = new_entry inp uuid now in
           (Inr e, f\<lparr>if_entries := jf_append e (if_entries f), if_events := if_events f @ [Appended e]\<rparr>)))"

text \<open>Every line is parsed, the first that does not parse throws.\<close>

fun parse_all :: "'a jline list \<Rightarrow> inbox_error + 'a list" where
  "parse_all [] = Inr []"
| "parse_all (Entry e # ls) = bindE (parse_all ls) (\<lambda>es. Inr (e # es))"
| "parse_all (Garbled # ls) = Inl SyntaxError"

definition with_read :: "(string, int) jsmap \<Rightarrow> inbox_entry \<Rightarrow> inbox_entry" where
  "with_read m e = (case jm_get m (ie_id e) of Some t \<Rightarrow> if 0 < t then e\<lparr>ie_readAt := Some t\<rparr> else e | None \<Rightarrow> e)"

definition fs_read :: "inbox_read_opts \<Rightarrow> inbox_files \<Rightarrow> inbox_error + inbox_entry list \<times> bool" where
  "fs_read opts f =
     (case if_entries f of
        None \<Rightarrow> Inr ([], False)
      | Some g \<Rightarrow>
          bindE (readReadState f) (\<lambda>m.
          bindE (parse_all (jf_lines g)) (\<lambda>es.
          Inr (page_window opts (map (with_read m) es)))))"

definition fs_get :: "string \<Rightarrow> inbox_files \<Rightarrow> inbox_entry option" where
  "fs_get i f = find (\<lambda>e. ie_id e = i) (jf_entries (if_entries f))"

definition fs_markRead :: "string \<Rightarrow> int \<Rightarrow> inbox_files \<Rightarrow> (inbox_error + bool) \<times> inbox_files" where
  "fs_markRead i t f =
     (if \<not> entryExists i f then (Inr False, f)
      else (case readReadState f of Inl e \<Rightarrow> (Inl e, f) | Inr m \<Rightarrow> (Inr True, f\<lparr>if_read := ReadFile (jm_set i t m)\<rparr>)))"

text \<open>The write that \<open>markUnread\<close> and \<open>delete\<close> share, inside the lock.\<close>

definition forget_read :: "string \<Rightarrow> inbox_files \<Rightarrow> (inbox_error + unit) \<times> inbox_files" where
  "forget_read i f =
     (case readReadState f of
        Inl e \<Rightarrow> (Inl e, f)
      | Inr m \<Rightarrow> (Inr (), if jm_get m i = None then f else f\<lparr>if_read := ReadFile (jm_delete i m)\<rparr>))"

definition fs_markUnread :: "string \<Rightarrow> inbox_files \<Rightarrow> (inbox_error + bool) \<times> inbox_files" where
  "fs_markUnread i f =
     (if \<not> entryExists i f then (Inr False, f)
      else (case forget_read i f of (Inl e, f1) \<Rightarrow> (Inl e, f1) | (Inr _, f1) \<Rightarrow> (Inr True, f1)))"

text \<open>
  A delete reads the file, then replaces it by what it kept; other calls may run between the two.
  Lines that do not parse are kept.
\<close>

fun is_entry :: "string \<Rightarrow> inbox_entry jline \<Rightarrow> bool" where
  "is_entry i (Entry e) = (ie_id e = i)"
| "is_entry i Garbled = False"

definition delete_reads :: "string \<Rightarrow> inbox_files \<Rightarrow> inbox_entry jline list option" where
  "delete_reads i f =
     (case if_entries f of
        None \<Rightarrow> None
      | Some g \<Rightarrow> if list_ex (is_entry i) (jf_lines g) then Some (filter (\<lambda>l. \<not> is_entry i l) (jf_lines g)) else None)"

definition delete_writes :: "string \<Rightarrow> inbox_entry jline list \<Rightarrow> inbox_files \<Rightarrow> (inbox_error + bool) \<times> inbox_files" where
  "delete_writes i kept f =
     (case forget_read i (f\<lparr>if_entries := Some (kept, None)\<rparr>) of
        (Inl e, f1) \<Rightarrow> (Inl e, f1)
      | (Inr _, f1) \<Rightarrow> (Inr True, f1\<lparr>if_events := if_events f1 @ [Removed i]\<rparr>))"

definition deleteEntry :: "string \<Rightarrow> inbox_files \<Rightarrow> (inbox_error + bool) \<times> inbox_files" where
  "deleteEntry i f = (case delete_reads i f of None \<Rightarrow> (Inr False, f) | Some kept \<Rightarrow> delete_writes i kept f)"

section \<open>The store in memory\<close>

record inbox_memory =
  im_entries :: "inbox_entry list"
  im_events :: "inbox_event list"

definition no_memory :: inbox_memory where
  "no_memory = \<lparr>im_entries = [], im_events = []\<rparr>"

definition mem_append :: "inbox_input \<Rightarrow> string \<Rightarrow> int \<Rightarrow> inbox_memory \<Rightarrow> (inbox_error + inbox_entry) \<times> inbox_memory" where
  "mem_append inp uuid now s =
     (case validateInput inp of
        Inl e \<Rightarrow> (Inl e, s)
      | Inr _ \<Rightarrow>
          (let e = new_entry inp uuid now in
           (Inr e, s\<lparr>im_entries := im_entries s @ [e], im_events := im_events s @ [Appended e]\<rparr>)))"

definition mem_read :: "inbox_read_opts \<Rightarrow> inbox_memory \<Rightarrow> inbox_error + inbox_entry list \<times> bool" where
  "mem_read opts s = Inr (page_window opts (im_entries s))"

definition mem_get :: "string \<Rightarrow> inbox_memory \<Rightarrow> inbox_entry option" where
  "mem_get i s = find (\<lambda>e. ie_id e = i) (im_entries s)"

definition update_first :: "('a \<Rightarrow> bool) \<Rightarrow> ('a \<Rightarrow> 'a) \<Rightarrow> 'a list \<Rightarrow> 'a list" where
  "update_first P u xs = (case find_index P xs of None \<Rightarrow> xs | Some k \<Rightarrow> xs[k := u (xs ! k)])"

definition mem_mark :: "string \<Rightarrow> int option \<Rightarrow> inbox_memory \<Rightarrow> (inbox_error + bool) \<times> inbox_memory" where
  "mem_mark i t s =
     (if mem_get i s = None then (Inr False, s)
      else (Inr True, s\<lparr>im_entries := update_first (\<lambda>e. ie_id e = i) (\<lambda>e. e\<lparr>ie_readAt := t\<rparr>) (im_entries s)\<rparr>))"

definition mem_delete :: "string \<Rightarrow> inbox_memory \<Rightarrow> (inbox_error + bool) \<times> inbox_memory" where
  "mem_delete i s =
     (case find_index (\<lambda>e. ie_id e = i) (im_entries s) of
        None \<Rightarrow> (Inr False, s)
      | Some k \<Rightarrow>
          (Inr True, s\<lparr>im_entries := take k (im_entries s) @ drop (Suc k) (im_entries s), im_events := im_events s @ [Removed i]\<rparr>))"

section \<open>Both stores answer alike\<close>

datatype inbox_call =
    CallAppend inbox_input string int
  | CallRead inbox_read_opts
  | CallGet string
  | CallMarkRead string int
  | CallMarkUnread string
  | CallDelete string

datatype inbox_answer =
    AnswerEntry "inbox_error + inbox_entry"
  | AnswerPage "inbox_error + inbox_entry list \<times> bool"
  | AnswerFound "inbox_entry option"
  | AnswerDone "inbox_error + bool"

fun fs_call :: "inbox_call \<Rightarrow> inbox_files \<Rightarrow> inbox_answer \<times> inbox_files" where
  "fs_call (CallAppend inp uuid now) f = map_prod AnswerEntry id (fs_append inp uuid now f)"
| "fs_call (CallRead opts) f = (AnswerPage (fs_read opts f), f)"
| "fs_call (CallGet i) f = (AnswerFound (fs_get i f), f)"
| "fs_call (CallMarkRead i t) f = map_prod AnswerDone id (fs_markRead i t f)"
| "fs_call (CallMarkUnread i) f = map_prod AnswerDone id (fs_markUnread i f)"
| "fs_call (CallDelete i) f = map_prod AnswerDone id (deleteEntry i f)"

fun mem_call :: "inbox_call \<Rightarrow> inbox_memory \<Rightarrow> inbox_answer \<times> inbox_memory" where
  "mem_call (CallAppend inp uuid now) s = map_prod AnswerEntry id (mem_append inp uuid now s)"
| "mem_call (CallRead opts) s = (AnswerPage (mem_read opts s), s)"
| "mem_call (CallGet i) s = (AnswerFound (mem_get i s), s)"
| "mem_call (CallMarkRead i t) s = map_prod AnswerDone id (mem_mark i (Some t) s)"
| "mem_call (CallMarkUnread i) s = map_prod AnswerDone id (mem_mark i None s)"
| "mem_call (CallDelete i) s = map_prod AnswerDone id (mem_delete i s)"

fun run_calls :: "('c \<Rightarrow> 's \<Rightarrow> 'a \<times> 's) \<Rightarrow> 'c list \<Rightarrow> 's \<Rightarrow> 'a list" where
  "run_calls f [] s = []"
| "run_calls f (c # cs) s = (case f c s of (a, s1) \<Rightarrow> a # run_calls f cs s1)"

text \<open>\<open>get\<close> of the store on disk returns the line, without the time of reading.\<close>

definition unmark :: "inbox_entry \<Rightarrow> inbox_entry" where
  "unmark e = e\<lparr>ie_readAt := None\<rparr>"

fun get_unmarked :: "inbox_answer \<Rightarrow> inbox_answer" where
  "get_unmarked (AnswerFound r) = AnswerFound (map_option unmark r)"
| "get_unmarked a = a"

text \<open>Calls as the program makes them: ids are new and times are positive.\<close>

fun call_id :: "inbox_call \<Rightarrow> string list" where
  "call_id (CallAppend inp uuid now) = [uuid]"
| "call_id c = []"

fun call_time_ok :: "inbox_call \<Rightarrow> bool" where
  "call_time_ok (CallMarkRead i t) = (0 < t)"
| "call_time_ok c = True"

definition calls_ok :: "inbox_call list \<Rightarrow> bool" where
  "calls_ok cs \<longleftrightarrow> distinct (concat (map call_id cs)) \<and> list_all call_time_ok cs"

definition read_map :: "inbox_files \<Rightarrow> (string, int) jsmap" where
  "read_map f = (case if_read f of ReadFile m \<Rightarrow> m | _ \<Rightarrow> [])"

text \<open>
  The simulation: the lines are the entries of the memory without their times, the second file has the
  times; only ids of entries have a time.
\<close>

definition same_inbox :: "inbox_files \<Rightarrow> inbox_memory \<Rightarrow> bool" where
  "same_inbox f s \<longleftrightarrow>
     (case if_entries f of None \<Rightarrow> im_entries s = [] | Some g \<Rightarrow> g = (map (Entry \<circ> unmark) (im_entries s), None)) \<and>
     if_read f \<noteq> BadReadFile \<and> jm_ok (read_map f) \<and> distinct (map ie_id (im_entries s)) \<and>
     (\<forall>e \<in> set (im_entries s). jm_get (read_map f) (ie_id e) = ie_readAt e \<and> (\<forall>t. ie_readAt e = Some t \<longrightarrow> 0 < t)) \<and>
     (\<forall>i. i \<notin> ie_id ` set (im_entries s) \<longrightarrow> jm_get (read_map f) i = None) \<and>
     if_events f = im_events s"

lemma unmark_sel [simp]:
  "ie_id (unmark e) = ie_id e" "ie_readAt (unmark e) = None" "unmark (unmark e) = unmark e"
  "unmark (e\<lparr>ie_readAt := t\<rparr>) = unmark e"
  by (simp_all add: unmark_def)

lemma new_entry_sel [simp]:
  "ie_id (new_entry inp i t) = i" "ie_readAt (new_entry inp i t) = None" "unmark (new_entry inp i t) = new_entry inp i t"
  by (simp_all add: new_entry_def inbox_input.extend_def unmark_def)

lemma entries_same [simp]: "same_inbox f s \<Longrightarrow> jf_entries (if_entries f) = map unmark (im_entries s)"
  by (auto simp: same_inbox_def jf_entries_def jf_lines_def simp flip: map_map split: option.splits)

lemma readState_same: "same_inbox f s \<Longrightarrow> readReadState f = Inr (read_map f)"
  by (auto simp: same_inbox_def readReadState_def read_map_def split: read_file.splits)

lemma same_ids: "same_inbox f s \<Longrightarrow> distinct (map ie_id (im_entries s))"
  by (simp add: same_inbox_def)

lemma parse_all_Entry [simp]: "parse_all (map Entry es) = Inr es"
  by (induction es) auto

lemma find_map_unmark: "find (\<lambda>e. ie_id e = i) (map unmark es) = map_option unmark (find (\<lambda>e. ie_id e = i) es)"
  by (induction es) auto

lemma exists_same: "same_inbox f s \<Longrightarrow> entryExists i f \<longleftrightarrow> mem_get i s \<noteq> None"
  by (auto simp: entryExists_def mem_get_def list_ex_iff find_None_iff)

lemma with_read_unmark:
  "jm_get m (ie_id e) = ie_readAt e \<Longrightarrow> (\<And>t. ie_readAt e = Some t \<Longrightarrow> 0 < t) \<Longrightarrow> with_read m (unmark e) = e"
  by (auto simp: with_read_def unmark_def split: option.splits)

lemma read_same:
  assumes "same_inbox f s"
  shows "fs_read opts f = mem_read opts s"
proof (cases "if_entries f")
  case None
  with assms show ?thesis
    by (simp add: same_inbox_def fs_read_def mem_read_def page_window_def older_def wanted_def slice_from_def Let_def)
next
  case (Some g)
  with assms have g: "jf_lines g = map Entry (map unmark (im_entries s))"
    by (simp add: same_inbox_def jf_lines_def)
  have "map (with_read (read_map f)) (map unmark (im_entries s)) = im_entries s"
    unfolding map_map using assms
    by (intro map_idI) (auto simp: same_inbox_def intro!: with_read_unmark)
  with Some show ?thesis
    unfolding fs_read_def by (simp add: readState_same [OF assms] g mem_read_def del: map_map)
qed

lemma update_first_Cons: "update_first P u (x # xs) = (if P x then u x # xs else x # update_first P u xs)"
  by (auto simp: update_first_def split: option.splits)

lemma update_first_id:
  "distinct (map ie_id es) \<Longrightarrow>
     update_first (\<lambda>e. ie_id e = i) u es = map (\<lambda>e. if ie_id e = i then u e else e) es"
proof (induction es)
  case Nil
  then show ?case by (simp add: update_first_def)
next
  case (Cons e es)
  then show ?case by (auto simp: update_first_Cons image_iff intro!: map_idI [symmetric])
qed

lemma remove_first_id:
  "distinct (map ie_id es) \<Longrightarrow> find_index (\<lambda>e. ie_id e = i) es = Some k \<Longrightarrow>
     take k es @ drop (Suc k) es = filter (\<lambda>e. ie_id e \<noteq> i) es"
proof (induction es arbitrary: k)
  case (Cons e es)
  then show ?case by (auto simp: image_iff split: if_splits intro!: filter_True [symmetric])
qed simp

lemma find_index_None: "find_index P xs = None \<longleftrightarrow> \<not> list_ex P xs"
  by (induction xs) auto

lemma find_index_Some: "find_index P xs = Some k \<Longrightarrow> k < length xs \<and> P (xs ! k)"
  by (induction xs arbitrary: k) (auto split: if_splits)

lemma forget_same:
  assumes "if_read f \<noteq> BadReadFile" "jm_ok (read_map f)"
  shows "\<exists>f1. forget_read i f = (Inr (), f1) \<and> if_entries f1 = if_entries f \<and> if_events f1 = if_events f \<and>
    if_read f1 \<noteq> BadReadFile \<and> jm_ok (read_map f1) \<and> jm_get (read_map f1) = (jm_get (read_map f))(i := None)"
  using assms
  by (cases "if_read f") (auto simp: forget_read_def readReadState_def read_map_def jm.lookup_delete jm.invar_delete)

lemma reads_same: "same_inbox f s \<Longrightarrow> if_read f \<noteq> BadReadFile \<and> jm_ok (read_map f)"
  by (simp add: same_inbox_def)

lemma read_map_events: "read_map (f\<lparr>if_events := evs\<rparr>) = read_map f"
  by (simp add: read_map_def)

lemma mark_map_same:
  assumes "same_inbox f s" "if_entries f1 = if_entries f" "if_events f1 = if_events f" "if_read f1 \<noteq> BadReadFile"
    "jm_ok (read_map f1)" "jm_get (read_map f1) = (jm_get (read_map f))(i := t)"
    "i \<in> ie_id ` set (im_entries s)" "\<And>u. t = Some u \<Longrightarrow> 0 < u"
  shows "same_inbox f1 (s\<lparr>im_entries := map (\<lambda>e. if ie_id e = i then e\<lparr>ie_readAt := t\<rparr> else e) (im_entries s)\<rparr>)"
proof -
  define es where "es = map (\<lambda>e. if ie_id e = i then e\<lparr>ie_readAt := t\<rparr> else e) (im_entries s)"
  have ids: "map ie_id es = map ie_id (im_entries s)"
    by (simp add: es_def o_def if_distrib cong: if_cong)
  have lines: "map (Entry \<circ> unmark) es = map (Entry \<circ> unmark) (im_entries s)"
    by (simp add: es_def o_def if_distrib cong: if_cong)
  have id_set: "ie_id ` set es = ie_id ` set (im_entries s)"
    using ids by (metis set_map)
  have old: "\<exists>e0 \<in> set (im_entries s). ie_id e = ie_id e0 \<and> ie_readAt e = (if ie_id e0 = i then t else ie_readAt e0)"
    if "e \<in> set es" for e
    using that by (auto simp: es_def)
  have times: "jm_get (read_map f1) (ie_id e) = ie_readAt e \<and> (\<forall>u. ie_readAt e = Some u \<longrightarrow> 0 < u)"
    if "e \<in> set es" for e
    using old [OF that] assms(1,6,8) by (auto simp: same_inbox_def)
  show ?thesis
    unfolding es_def [symmetric]
    using assms(1-5,7) times by (auto simp: same_inbox_def ids lines id_set assms(6) split: option.splits)
qed

lemma mem_get_ids: "mem_get i s \<noteq> None \<longleftrightarrow> i \<in> ie_id ` set (im_entries s)"
  by (auto simp: mem_get_def find_None_iff)

lemma mark_same:
  assumes "same_inbox f s" "0 < t"
  shows "fst (fs_markRead i t f) = fst (mem_mark i (Some t) s) \<and>
    same_inbox (snd (fs_markRead i t f)) (snd (mem_mark i (Some t) s))"
proof (cases "mem_get i s = None")
  case True
  with assms(1) show ?thesis by (simp add: fs_markRead_def mem_mark_def exists_same)
next
  case False
  then have i: "i \<in> ie_id ` set (im_entries s)" unfolding mem_get_ids .
  have "same_inbox (f\<lparr>if_read := ReadFile (jm_set i t (read_map f))\<rparr>)
    (s\<lparr>im_entries := map (\<lambda>e. if ie_id e = i then e\<lparr>ie_readAt := Some t\<rparr> else e) (im_entries s)\<rparr>)"
    using assms
    by (intro mark_map_same [OF assms(1)])
      (auto simp: read_map_def jm.lookup_set i jm.invar_set same_inbox_def split: read_file.splits)
  with False assms show ?thesis
    by (simp add: fs_markRead_def mem_mark_def exists_same readState_same update_first_id same_ids)
qed

lemma unmark_same:
  assumes "same_inbox f s"
  shows "fst (fs_markUnread i f) = fst (mem_mark i None s) \<and>
    same_inbox (snd (fs_markUnread i f)) (snd (mem_mark i None s))"
proof (cases "mem_get i s = None")
  case True
  with assms(1) show ?thesis by (simp add: fs_markUnread_def mem_mark_def exists_same)
next
  case False
  obtain f1 where f1: "forget_read i f = (Inr (), f1)" "if_entries f1 = if_entries f" "if_events f1 = if_events f"
    "if_read f1 \<noteq> BadReadFile" "jm_ok (read_map f1)" "jm_get (read_map f1) = (jm_get (read_map f))(i := None)"
    using forget_same [of f i] reads_same [OF assms] by blast
  have "same_inbox f1 (s\<lparr>im_entries := map (\<lambda>e. if ie_id e = i then e\<lparr>ie_readAt := None\<rparr> else e) (im_entries s)\<rparr>)"
    using False [unfolded mem_get_ids] f1 by (intro mark_map_same [OF assms]) simp_all
  with False assms f1(1) show ?thesis
    by (simp add: fs_markUnread_def mem_mark_def exists_same update_first_id same_ids)
qed

lemma append_same:
  assumes "same_inbox f s" "uuid \<notin> ie_id ` set (im_entries s)"
  shows "fst (fs_append inp uuid now f) = fst (mem_append inp uuid now s) \<and>
    same_inbox (snd (fs_append inp uuid now f)) (snd (mem_append inp uuid now s))"
  using assms
  by (auto simp: fs_append_def mem_append_def same_inbox_def jf_append_def read_map_def Let_def split: sum.splits option.splits)

lemma kept_lines:
  "filter (\<lambda>l. \<not> is_entry i l) (map (Entry \<circ> unmark) es) = map (Entry \<circ> unmark) (filter (\<lambda>e. ie_id e \<noteq> i) es)"
  by (induction es) auto

lemma has_line: "list_ex (is_entry i) (map (Entry \<circ> unmark) es) \<longleftrightarrow> list_ex (\<lambda>e. ie_id e = i) es"
  by (induction es) auto

lemma deletion_same:
  assumes "same_inbox f s"
  shows "fst (deleteEntry i f) = fst (mem_delete i s) \<and> same_inbox (snd (deleteEntry i f)) (snd (mem_delete i s))"
proof (cases "find_index (\<lambda>e. ie_id e = i) (im_entries s)")
  case None
  then have "delete_reads i f = None"
    using assms by (auto simp: delete_reads_def same_inbox_def jf_lines_def has_line find_index_None split: option.splits)
  with None assms show ?thesis by (simp add: deleteEntry_def mem_delete_def)
next
  case (Some k)
  then have ex: "list_ex (\<lambda>e. ie_id e = i) (im_entries s)" using find_index_None by (metis option.distinct(1))
  then have lines: "if_entries f = Some (map (Entry \<circ> unmark) (im_entries s), None)"
    using assms by (auto simp: same_inbox_def split: option.splits)
  define es where "es = filter (\<lambda>e. ie_id e \<noteq> i) (im_entries s)"
  have reads: "delete_reads i f = Some (map (Entry \<circ> unmark) es)"
    by (simp add: delete_reads_def lines jf_lines_def has_line kept_lines ex es_def)
  have mem: "mem_delete i s = (Inr True, s\<lparr>im_entries := es, im_events := im_events s @ [Removed i]\<rparr>)"
    by (simp add: mem_delete_def Some remove_first_id [OF same_ids [OF assms] Some] es_def)
  define f0 where "f0 = f\<lparr>if_entries := Some (map (Entry \<circ> unmark) es, None)\<rparr>"
  have f0: "readReadState f0 = readReadState f" "read_map f0 = read_map f" "if_events f0 = if_events f" "if_read f0 = if_read f"
    by (simp_all add: f0_def readReadState_def read_map_def)
  obtain f1 where f1: "forget_read i f0 = (Inr (), f1)" "if_entries f1 = if_entries f0" "if_events f1 = if_events f"
    "if_read f1 \<noteq> BadReadFile" "jm_ok (read_map f1)" "jm_get (read_map f1) = (jm_get (read_map f))(i := None)"
    using forget_same [of f0 i] reads_same [OF assms] unfolding f0 by blast
  have ids: "distinct (map ie_id es)" "ie_id ` set es = ie_id ` set (im_entries s) - {i}"
    using same_ids [OF assms] by (auto simp: es_def distinct_map_filter)
  have "same_inbox (f1\<lparr>if_events := if_events f1 @ [Removed i]\<rparr>) (s\<lparr>im_entries := es, im_events := im_events s @ [Removed i]\<rparr>)"
    using assms f1(2-6) ids unfolding same_inbox_def
    by (simp add: f0_def read_map_events) (simp add: es_def, blast)
  with f1(1) show ?thesis
    by (simp add: deleteEntry_def reads delete_writes_def mem f0_def)
qed

lemma mem_ids_step:
  "ie_id ` set (im_entries (snd (mem_call c s))) \<subseteq> ie_id ` set (im_entries s) \<union> set (call_id c)"
proof (cases c)
  case (CallMarkRead i t)
  show ?thesis unfolding CallMarkRead
    by (auto simp: mem_mark_def update_first_def split: option.splits
        dest!: set_update_subset_insert [THEN subsetD] find_index_Some)
next
  case (CallMarkUnread i)
  show ?thesis unfolding CallMarkUnread
    by (auto simp: mem_mark_def update_first_def split: option.splits
        dest!: set_update_subset_insert [THEN subsetD] find_index_Some)
qed (auto simp: mem_append_def mem_delete_def Let_def split: sum.splits option.splits dest: in_set_takeD in_set_dropD)

lemma call_same:
  assumes "same_inbox f s" "call_time_ok c" "set (call_id c) \<inter> ie_id ` set (im_entries s) = {}"
  shows "get_unmarked (fst (fs_call c f)) = get_unmarked (fst (mem_call c s)) \<and>
    same_inbox (snd (fs_call c f)) (snd (mem_call c s))"
proof (cases c)
  case (CallAppend inp uuid now)
  with assms append_same [OF assms(1), of uuid inp now] show ?thesis by (simp add: map_prod_def split_beta)
next
  case (CallRead opts)
  with assms show ?thesis by (simp add: read_same)
next
  case (CallGet i)
  with assms show ?thesis by (simp add: fs_get_def mem_get_def find_map_unmark option.map_comp o_def)
next
  case (CallMarkRead i t)
  with assms mark_same [OF assms(1), of t i] show ?thesis by (simp add: map_prod_def split_beta)
next
  case (CallMarkUnread i)
  with unmark_same [OF assms(1), of i] show ?thesis by (simp add: map_prod_def split_beta)
next
  case (CallDelete i)
  with deletion_same [OF assms(1), of i] show ?thesis by (simp add: map_prod_def split_beta)
qed

lemma calls_same:
  assumes "same_inbox f s" "calls_ok cs" "set (concat (map call_id cs)) \<inter> ie_id ` set (im_entries s) = {}"
  shows "map get_unmarked (run_calls fs_call cs f) = map get_unmarked (run_calls mem_call cs s)"
  using assms
proof (induction cs arbitrary: f s)
  case Nil
  then show ?case by simp
next
  case (Cons c cs)
  have now: "get_unmarked (fst (fs_call c f)) = get_unmarked (fst (mem_call c s))"
    "same_inbox (snd (fs_call c f)) (snd (mem_call c s))"
    using call_same [of f s c] Cons.prems by (auto simp: calls_ok_def)
  have "map get_unmarked (run_calls fs_call cs (snd (fs_call c f)))
    = map get_unmarked (run_calls mem_call cs (snd (mem_call c s)))"
  proof (rule Cons.IH [OF now(2)])
    show "calls_ok cs" using Cons.prems(2) by (simp add: calls_ok_def)
    have "set (call_id c) \<inter> set (concat (map call_id cs)) = {}"
      using Cons.prems(2) by (simp add: calls_ok_def)
    then show "set (concat (map call_id cs)) \<inter> ie_id ` set (im_entries (snd (mem_call c s))) = {}"
      using mem_ids_step [of c s] Cons.prems(3) unfolding list.map concat.simps set_append by blast
  qed
  with now(1) show ?case by (simp add: split_beta)
qed

text \<open>C19: the store on disk and the store in memory that stands in for it, both starting empty, give the
  same answers to every sequence of calls that run one after the other, as long as the ids of the appended
  entries are new and the times of reading positive.  The answers of \<open>get\<close> are compared without the time of
  reading, which the one on disk lacks.\<close>

theorem disk_inbox_like_memory:
  assumes "calls_ok cs"
  shows "map get_unmarked (run_calls fs_call cs no_inbox) = map get_unmarked (run_calls mem_call cs no_memory)"
  using assms
  by (intro calls_same) (simp_all add: same_inbox_def no_inbox_def no_memory_def read_map_def)

section \<open>Paging\<close>

text \<open>A client that reads on, each time before the last entry that it got.\<close>

fun read_on :: "nat \<Rightarrow> inbox_read_opts \<Rightarrow> inbox_files \<Rightarrow> inbox_error + inbox_entry list" where
  "read_on 0 opts f = Inr []"
| "read_on (Suc k) opts f =
     bindE (fs_read opts f) (\<lambda>(es, more).
     if more then bindE (read_on k (opts\<lparr>ro_before := Some (ie_id (last es))\<rparr>) f) (\<lambda>rest. Inr (es @ rest)) else Inr es)"

lemma wanted_before [simp]: "wanted (opts\<lparr>ro_before := b\<rparr>) es = wanted opts es"
  by (simp add: wanted_def)

lemma wanted_ids:
  "distinct (map ie_id es) \<Longrightarrow> distinct (map ie_id (wanted opts es)) \<and> set (wanted opts es) \<subseteq> set es"
  by (auto simp: wanted_def distinct_map_filter Let_def simp del: filter_filter)

lemma find_index_nth:
  "distinct (map ie_id xs) \<Longrightarrow> k < length xs \<Longrightarrow> find_index (\<lambda>e. ie_id e = ie_id (xs ! k)) xs = Some k"
proof (induction xs arbitrary: k)
  case (Cons x xs)
  then show ?case by (cases k) (auto simp: image_iff)
qed simp

lemma read_on_from:
  assumes "\<And>b. fs_read (opts\<lparr>ro_before := b\<rparr>) f = Inr (page_window (opts\<lparr>ro_before := b\<rparr>) es)"
    and "distinct (map ie_id (wanted opts es))" "[] \<notin> ie_id ` set (wanted opts es)"
    and "ro_limit opts = Some (int n)" "0 < n"
    and "older (opts\<lparr>ro_before := b\<rparr>) (wanted opts es) = take k (wanted opts es)" "k \<le> length (wanted opts es)" "k < fuel"
  shows "read_on fuel (opts\<lparr>ro_before := b\<rparr>) f = Inr (rev (take k (wanted opts es)))"
  using assms(6-8)
proof (induction fuel arbitrary: b k)
  case 0
  then show ?case by simp
next
  case (Suc fuel)
  let ?xs = "wanted opts es"
  have page: "page_window (opts\<lparr>ro_before := b\<rparr>) es = (rev (drop (k - n) (take k ?xs)), n < k)"
    using Suc.prems assms(4,5) by (auto simp: page_window_def slice_from_last)
  show ?case
  proof (cases "n < k")
    case False
    then show ?thesis by (simp add: assms(1) page)
  next
    case True
    then have len: "k - n < length ?xs" using Suc.prems(2) assms(5) by simp
    have cursor: "ie_id (last (rev (drop (k - n) (take k ?xs)))) = ie_id (?xs ! (k - n))"
      using True Suc.prems(2) assms(5) by (simp add: last_rev hd_drop_conv_nth)
    have "ie_id (?xs ! (k - n)) \<noteq> []" using assms(3) nth_mem [OF len] by (metis image_eqI)
    then have "older (opts\<lparr>ro_before := Some (ie_id (?xs ! (k - n)))\<rparr>) ?xs = take (k - n) ?xs"
      by (simp add: older_def find_index_nth [OF assms(2) len])
    then have rest: "read_on fuel (opts\<lparr>ro_before := Some (ie_id (?xs ! (k - n)))\<rparr>) f = Inr (rev (take (k - n) ?xs))"
      using Suc.prems assms(5) True by (intro Suc.IH) simp_all
    have "take k ?xs = take (k - n) ?xs @ drop (k - n) (take k ?xs)"
      using append_take_drop_id [of "k - n" "take k ?xs"] by (simp add: min_def)
    then have "rev (drop (k - n) (take k ?xs)) @ rev (take (k - n) ?xs) = rev (take k ?xs)"
      by (metis rev_append)
    with True show ?thesis by (simp add: assms(1) page cursor rest del: rev_take)
  qed
qed

text \<open>Reading on by pages of at least one entry, each before the last entry of the page before,
  returns every entry that the filters want exactly once, newest first, and comes to an end.\<close>

theorem paging_reads_every_entry:
  assumes "if_entries f = Some g" "parse_all (jf_lines g) = Inr es" "readReadState f = Inr m"
    and "distinct (map ie_id es)" "[] \<notin> set (map ie_id es)"
    and "ro_limit opts = Some (int n)" "0 < n" "ro_before opts = None"
  shows "read_on (Suc (length es)) opts f = Inr (rev (wanted opts (map (with_read m) es)))"
proof -
  let ?es = "map (with_read m) es"
  have id: "ie_id (with_read m e) = ie_id e" for e by (simp add: with_read_def split: option.splits)
  have ids: "map ie_id ?es = map ie_id es" by (simp add: id)
  then have d: "distinct (map ie_id (wanted opts ?es))" "[] \<notin> ie_id ` set (wanted opts ?es)"
    using wanted_ids [of ?es opts] assms(4,5) by (auto simp: ids id simp del: map_map)
  have read: "fs_read (opts\<lparr>ro_before := b\<rparr>) f = Inr (page_window (opts\<lparr>ro_before := b\<rparr>) ?es)" for b
    by (simp add: fs_read_def assms(1-3))
  have len: "length (wanted opts ?es) < Suc (length es)"
    by (auto simp: wanted_def Let_def less_Suc_eq_le intro: le_trans [OF length_filter_le])
  have "read_on (Suc (length es)) (opts\<lparr>ro_before := None\<rparr>) f = Inr (rev (take (length (wanted opts ?es)) (wanted opts ?es)))"
    by (rule read_on_from [OF read d assms(6,7) _ _ len]) (simp_all add: older_def)
  moreover have "opts\<lparr>ro_before := None\<rparr> = opts" using assms(8) by simp
  ultimately show ?thesis by simp
qed

section \<open>Failures\<close>

fun after_calls :: "inbox_call list \<Rightarrow> inbox_files \<Rightarrow> inbox_files" where
  "after_calls [] f = f"
| "after_calls (c # cs) f = after_calls cs (snd (fs_call c f))"

definition has_garbled :: "inbox_files \<Rightarrow> bool" where
  "has_garbled f \<longleftrightarrow> (\<exists>g. if_entries f = Some g \<and> Garbled \<in> set (jf_lines g))"

lemma parse_all_Garbled: "Garbled \<in> set ls \<Longrightarrow> parse_all ls = Inl SyntaxError"
  by (induction ls rule: parse_all.induct) auto

lemma forget_entries: "if_entries (snd (forget_read i f)) = if_entries f"
  and forget_events: "if_events (snd (forget_read i f)) = if_events f"
  by (simp_all add: forget_read_def split: sum.splits)

lemma garbled_call: "has_garbled f \<Longrightarrow> has_garbled (snd (fs_call c f))"
proof (cases c)
  case (CallMarkUnread i)
  assume "has_garbled f"
  with CallMarkUnread show ?thesis
    using forget_entries [of i f]
    by (auto simp: has_garbled_def fs_markUnread_def split: prod.splits sum.splits)
next
  case (CallDelete i)
  assume f: "has_garbled f"
  show ?thesis
  proof (cases "delete_reads i f")
    case (Some kept)
    with f have "Garbled \<in> set kept" by (auto simp: has_garbled_def delete_reads_def split: if_splits)
    with CallDelete Some show ?thesis
      using forget_entries [of i "f\<lparr>if_entries := Some (kept, None)\<rparr>"]
      by (auto simp: has_garbled_def deleteEntry_def delete_writes_def jf_lines_def split: prod.splits sum.splits)
  qed (use f CallDelete in \<open>simp add: deleteEntry_def\<close>)
qed (auto simp: has_garbled_def fs_append_def jf_append_def jf_lines_def fs_markRead_def Let_def
    split: sum.splits option.splits)

lemma garbled_calls: "has_garbled f \<Longrightarrow> has_garbled (after_calls cs f)"
  by (induction cs arbitrary: f) (simp_all add: garbled_call)

text \<open>A line that does not parse makes every read of the inbox throw, and no call of the store
  removes it.\<close>

theorem garbled_line_blocks_every_read:
  assumes "if_entries f = Some g" "Garbled \<in> set (jf_lines g)"
  shows "fs_read opts (after_calls cs f) = Inl SyntaxError"
proof -
  have "has_garbled f" using assms by (auto simp: has_garbled_def)
  then have "has_garbled (after_calls cs f)" by (rule garbled_calls)
  then show ?thesis
    by (auto simp: has_garbled_def fs_read_def parse_all_Garbled readReadState_def split: read_file.splits)
qed

text \<open>An append that runs between the read and the write of a delete is answered and announced, and
  its entry is gone when the delete is done.\<close>

theorem append_during_delete_is_lost:
  assumes "delete_reads i f = Some kept" "fs_append inp uuid now f = (Inr e, f1)"
    and "delete_writes i kept f1 = (r, f2)" "fs_get uuid f = None"
  shows "fs_get uuid f2 = None \<and> Appended e \<in> set (if_events f2)"
proof -
  obtain g where g: "if_entries f = Some g" "kept = filter (\<lambda>l. \<not> is_entry i l) (jf_lines g)"
    using assms(1) by (auto simp: delete_reads_def split: option.splits if_splits)
  have "set (parsed (filter P ls)) \<subseteq> set (parsed ls)" for P :: "inbox_entry jline \<Rightarrow> bool" and ls
    by (induction ls rule: parsed.induct) auto
  then have kept: "set (parsed kept) \<subseteq> set (jf_entries (if_entries f))"
    by (simp add: g jf_entries_def)
  define f0 where "f0 = f1\<lparr>if_entries := Some (kept, None)\<rparr>"
  have f2: "if_entries f2 = if_entries (snd (forget_read i f0))" "set (if_events (snd (forget_read i f0))) \<subseteq> set (if_events f2)"
    using assms(3) unfolding delete_writes_def f0_def [symmetric] by (auto split: prod.splits sum.splits)
  have "if_entries f2 = Some (kept, None)"
    unfolding f2(1) forget_entries by (simp add: f0_def)
  then have "fs_get uuid f2 = None"
    using kept assms(4) by (auto simp: fs_get_def find_None_iff jf_entries_def jf_lines_def)
  moreover have "Appended e \<in> set (if_events f2)"
    using f2(2) assms(2) unfolding forget_events
    by (auto simp: f0_def fs_append_def Let_def split: sum.splits)
  ultimately show ?thesis by simp
qed

text \<open>
  The cursor of a reader of unread entries is looked up among the unread: once its entry has been read,
  the next page is empty and says that there is no more.  A limit of 0 takes the whole list.
\<close>

lemma reading_the_cursor_ends_paging:
  assumes "ro_unread opts" "ro_before opts = Some i" "i \<noteq> []" "\<forall>e \<in> set es. ie_id e = i \<longrightarrow> \<not> is_unread e"
  shows "page_window opts es = ([], False)"
proof -
  have "\<not> list_ex (\<lambda>e. ie_id e = i) (wanted opts es)"
    using assms(1,4) by (auto simp: wanted_def Let_def list_ex_iff)
  then have "older opts (wanted opts es) = []"
    using assms(2,3) by (simp add: older_def find_index_None [symmetric])
  then show ?thesis by (simp add: page_window_def slice_from_def)
qed

lemma limit_zero_is_no_limit: "ro_limit opts = Some 0 \<Longrightarrow> fst (page_window opts es) = rev (older opts (wanted opts es))"
  by (simp add: page_window_def)

section \<open>Witnesses\<close>

definition demo_input :: "string \<Rightarrow> inbox_input" where
  "demo_input c =
     \<lparr>ii_workspaceId = ''ws'', ii_workspaceLabel = None, ii_docs = None, ii_comments = Some c, ii_origin = None\<rparr>"

definition demo_opts :: inbox_read_opts where
  "demo_opts = \<lparr>ro_limit = Some (int 2), ro_before = None, ro_workspaceId = None, ro_unread = False\<rparr>"

definition demo_calls :: "inbox_call list" where
  "demo_calls =
     [CallAppend (demo_input ''hey'') ''a'' 10, CallAppend (demo_input ''done'') ''b'' 20, CallAppend (demo_input '' '') ''c'' 30,
      CallMarkRead ''b'' 40, CallRead (demo_opts\<lparr>ro_unread := True\<rparr>), CallGet ''b'', CallDelete ''a'', CallRead demo_opts]"

theorem disk_inbox_like_memory_witness:
  "calls_ok demo_calls \<and> map get_unmarked (run_calls fs_call demo_calls no_inbox) = map get_unmarked (run_calls mem_call demo_calls no_memory)
   \<and> run_calls fs_call demo_calls no_inbox ! 7 = AnswerPage (Inr ([(new_entry (demo_input ''done'') ''b'' 20)\<lparr>ie_readAt := Some 40\<rparr>], False))"
proof -
  have ok: "calls_ok demo_calls" by code_simp
  have page: "run_calls fs_call demo_calls no_inbox ! 7 = AnswerPage (Inr ([(new_entry (demo_input ''done'') ''b'' 20)\<lparr>ie_readAt := Some 40\<rparr>], False))"
    by code_simp
  show ?thesis using disk_inbox_like_memory [OF ok] ok page by simp
qed

definition demo_inbox :: inbox_files where
  "demo_inbox =
     after_calls [CallAppend (demo_input ''1'') ''a'' 10, CallAppend (demo_input ''2'') ''b'' 20, CallAppend (demo_input ''3'') ''c'' 30] no_inbox"

definition demo_entries :: "inbox_entry list" where
  "demo_entries = [new_entry (demo_input ''1'') ''a'' 10, new_entry (demo_input ''2'') ''b'' 20, new_entry (demo_input ''3'') ''c'' 30]"

theorem paging_reads_every_entry_witness:
  "read_on 4 demo_opts demo_inbox = Inr (rev demo_entries) \<and> fs_read demo_opts demo_inbox = Inr (rev (tl demo_entries), True)"
proof -
  have f: "if_entries demo_inbox = Some (map Entry demo_entries, None)" by code_simp
  have es: "parse_all (jf_lines (map Entry demo_entries, None)) = Inr demo_entries" by code_simp
  have m: "readReadState demo_inbox = Inr []" by code_simp
  have ids: "distinct (map ie_id demo_entries)" "[] \<notin> set (map ie_id demo_entries)" by code_simp+
  have opts: "ro_limit demo_opts = Some (int 2)" "ro_before demo_opts = None" by (simp_all add: demo_opts_def)
  have len: "Suc (length demo_entries) = 4" "wanted demo_opts (map (with_read []) demo_entries) = demo_entries"
    by code_simp+
  have page: "fs_read demo_opts demo_inbox = Inr (rev (tl demo_entries), True)" by code_simp
  show ?thesis
    using paging_reads_every_entry [OF f es m ids opts(1) _ opts(2)] len page by simp
qed

theorem garbled_line_blocks_every_read_witness:
  "fs_read demo_opts (after_calls demo_calls (demo_inbox\<lparr>if_entries := Some ([], Some Garbled)\<rparr>)) = Inl SyntaxError"
  by (rule garbled_line_blocks_every_read [where g = "([], Some Garbled)"]) (simp_all add: jf_lines_def)

theorem append_during_delete_is_lost_witness:
  "\<exists>kept f1 f2. delete_reads ''a'' demo_inbox = Some kept \<and>
     fs_append (demo_input ''late'') ''d'' 40 demo_inbox = (Inr (new_entry (demo_input ''late'') ''d'' 40), f1) \<and>
     fs_get ''d'' f1 \<noteq> None \<and> delete_writes ''a'' kept f1 = (Inr True, f2) \<and> fs_get ''d'' f2 = None \<and>
     Appended (new_entry (demo_input ''late'') ''d'' 40) \<in> set (if_events f2)"
proof -
  define kept where "kept = map Entry (tl demo_entries)"
  define f1 where "f1 = snd (fs_append (demo_input ''late'') ''d'' 40 demo_inbox)"
  define f2 where "f2 = snd (delete_writes ''a'' kept f1)"
  have 1: "delete_reads ''a'' demo_inbox = Some kept" unfolding kept_def by code_simp
  have 2: "fs_append (demo_input ''late'') ''d'' 40 demo_inbox = (Inr (new_entry (demo_input ''late'') ''d'' 40), f1)"
    unfolding f1_def by code_simp
  have 3: "delete_writes ''a'' kept f1 = (Inr True, f2)" unfolding f2_def kept_def f1_def by code_simp
  have 4: "fs_get ''d'' demo_inbox = None" by code_simp
  have 5: "fs_get ''d'' f1 \<noteq> None" unfolding f1_def by code_simp
  show ?thesis using append_during_delete_is_lost [OF 1 2 3 4] 1 2 3 5 by blast
qed

end
