(* ===== verification/Symbol_Search.thy ===== *)
theory Symbol_Search
  imports JS_Number JS_Strings JS_Sort
begin

text \<open>
  Search for instruments: the scores and the merge of \<open>domain/market-data/aggregate-search.ts\<close> with the local
  indexes that it asks (\<open>equity/symbol-index.ts\<close>, \<open>commodity/commodity-catalog.ts\<close>), and on the trading
  side the ranking of a broker's catalogue (\<open>brokers/fuzzy-rank.ts\<close>), the rule that turns a vendor symbol into
  a search pattern (\<open>search-rules.ts\<close>) and the sweep over accounts (\<open>contract-search.ts\<close>).  The clients of
  the vendors, the accounts and the engine of regular expressions are parameters.
\<close>

section \<open>Matching\<close>

definition is_alnum :: "char \<Rightarrow> bool" where
  "is_alnum c \<longleftrightarrow> (let n = (of_char c :: nat) in (48 \<le> n \<and> n \<le> 57) \<or> (65 \<le> n \<and> n \<le> 90) \<or> (97 \<le> n \<and> n \<le> 122))"

definition is_word :: "char \<Rightarrow> bool" where
  "is_word c \<longleftrightarrow> is_alnum c \<or> c = CHR ''_''"

text \<open>\<open>new RegExp('\b' + escape(q) + '\b')\<close>, tested at each position with the character before it.\<close>

definition boundary :: "char option \<Rightarrow> char option \<Rightarrow> bool" where
  "boundary a b \<longleftrightarrow> (case a of None \<Rightarrow> False | Some x \<Rightarrow> is_word x) \<noteq> (case b of None \<Rightarrow> False | Some x \<Rightarrow> is_word x)"

definition first_char :: "string \<Rightarrow> char option" where
  "first_char s = (case s of [] \<Rightarrow> None | c # _ \<Rightarrow> Some c)"

definition word_at :: "string \<Rightarrow> char option \<Rightarrow> string \<Rightarrow> bool" where
  "word_at q before s \<longleftrightarrow> starts_with q s \<and> boundary before (first_char s) \<and>
     boundary (if q = [] then before else Some (last q)) (first_char (drop (length q) s))"

fun word_from :: "string \<Rightarrow> char option \<Rightarrow> string \<Rightarrow> bool" where
  "word_from q before [] = word_at q before []"
| "word_from q before (c # cs) = (word_at q before (c # cs) \<or> word_from q (Some c) cs)"

definition word_found :: "string \<Rightarrow> string \<Rightarrow> bool" where
  "word_found q s = word_from q None s"

text \<open>The name starts with the query and the query ends there or before something that is no letter or digit.\<close>

definition starts_name :: "string \<Rightarrow> string \<Rightarrow> bool" where
  "starts_name q name \<longleftrightarrow> starts_with q name \<and>
     (case first_char (drop (length q) name) of None \<Rightarrow> True | Some c \<Rightarrow> \<not> is_alnum c)"

section \<open>Search results\<close>

datatype asset_class = Equity | Crypto | Currency | Commodity

record vendor_row =
  vr_symbol :: "string option"
  vr_id :: "string option"
  vr_name :: "string option"
  vr_aliases :: "string list"

record search_result = vendor_row +
  sr_assetClass :: asset_class
  sr_sourceId :: "string option"

definition result_of :: "vendor_row \<Rightarrow> asset_class \<Rightarrow> string option \<Rightarrow> search_result" where
  "result_of r c src = vendor_row.extend r \<lparr>sr_assetClass = c, sr_sourceId = src\<rparr>"

definition opt_str :: "string option \<Rightarrow> string" where
  "opt_str x = (case x of None \<Rightarrow> [] | Some s \<Rightarrow> s)"

definition symbol_of :: "'a vendor_row_scheme \<Rightarrow> string" where
  "symbol_of r = opt_str (case vr_symbol r of None \<Rightarrow> vr_id r | s \<Rightarrow> s)"

definition matchScore :: "string \<Rightarrow> 'a vendor_row_scheme \<Rightarrow> int" where
  "matchScore query r =
     (let q = to_lower query; sy = to_lower (symbol_of r); name = to_lower (opt_str (vr_name r)) in
      if sy = q \<or> name = q then 100
      else if q \<in> set (map to_lower (vr_aliases r)) then 90
      else if sy \<noteq> [] \<and> starts_with q sy then 80
      else if starts_name q name then 70
      else if word_found q name then 50
      else if occurs_in q name then 30 else 10)"

section \<open>The local indexes\<close>

text \<open>\<open>new RegExp(pattern, 'i')\<close> is a parameter: the test, or nothing when it throws.\<close>

type_synonym regex = "string \<Rightarrow> (string \<Rightarrow> bool) option"

definition pattern_test :: "regex \<Rightarrow> string \<Rightarrow> string \<Rightarrow> bool" where
  "pattern_test re pattern =
     (case re pattern of Some test \<Rightarrow> test | None \<Rightarrow> (\<lambda>s. occurs_in (to_lower pattern) (to_lower s)))"

text \<open>The loop of both searches, which stops after the push that reaches the limit.\<close>

fun search_loop :: "('a \<Rightarrow> bool) \<Rightarrow> nat \<Rightarrow> 'a list \<Rightarrow> 'a list \<Rightarrow> 'a list" where
  "search_loop P limit [] acc = acc"
| "search_loop P limit (e # es) acc =
     (if P e then
        (let acc1 = acc @ [e] in if limit \<le> length acc1 then acc1 else search_loop P limit es acc1)
      else search_loop P limit es acc)"

record symbol_entry =
  se_symbol :: string
  se_name :: string
  se_source :: string

definition index_search :: "regex \<Rightarrow> symbol_entry list \<Rightarrow> string \<Rightarrow> nat \<Rightarrow> symbol_entry list" where
  "index_search re es pattern limit =
     search_loop (\<lambda>e. pattern_test re pattern (se_symbol e) \<or> pattern_test re pattern (se_name e)) limit es []"

definition index_resolve :: "symbol_entry list \<Rightarrow> string \<Rightarrow> symbol_entry option" where
  "index_resolve es symbol = find (\<lambda>e. to_upper (se_symbol e) = to_upper symbol) es"

record commodity_entry =
  ce_id :: string
  ce_name :: string
  ce_category :: string
  ce_aliases :: "string list"

definition catalog_search :: "regex \<Rightarrow> commodity_entry list \<Rightarrow> string \<Rightarrow> nat \<Rightarrow> commodity_entry list" where
  "catalog_search re es pattern limit =
     search_loop (\<lambda>e. pattern_test re pattern (ce_id e) \<or> pattern_test re pattern (ce_name e) \<or>
       list_ex (pattern_test re pattern) (ce_aliases e)) limit es []"

definition catalog_resolve :: "commodity_entry list \<Rightarrow> string \<Rightarrow> commodity_entry option" where
  "catalog_resolve es i = find (\<lambda>e. ce_id e = to_lower i) es"

definition CATALOG :: "commodity_entry list" where
  "CATALOG =
    [
     \<lparr>ce_id = ''gold'', ce_name = ''Gold'', ce_category = ''metals'',
      ce_aliases = [[CHR 0xE9, CHR 0xBB, CHR 0x84, CHR 0xE9, CHR 0x87, CHR 0x91], ''xau'', ''GC=F'', ''GCUSD'']\<rparr>,
     \<lparr>ce_id = ''silver'', ce_name = ''Silver'', ce_category = ''metals'',
      ce_aliases = [[CHR 0xE7, CHR 0x99, CHR 0xBD, CHR 0xE9, CHR 0x93, CHR 0xB6], ''xag'', ''SI=F'', ''SIUSD'']\<rparr>,
     \<lparr>ce_id = ''platinum'', ce_name = ''Platinum'', ce_category = ''metals'',
      ce_aliases = [[CHR 0xE9, CHR 0x93, CHR 0x82, CHR 0xE9, CHR 0x87, CHR 0x91], ''PL=F'', ''PLUSD'']\<rparr>,
     \<lparr>ce_id = ''palladium'', ce_name = ''Palladium'', ce_category = ''metals'',
      ce_aliases = [[CHR 0xE9, CHR 0x92, CHR 0xAF, CHR 0xE9, CHR 0x87, CHR 0x91], ''PA=F'', ''PAUSD'']\<rparr>,
     \<lparr>ce_id = ''copper'', ce_name = ''Copper'', ce_category = ''metals'',
      ce_aliases = [[CHR 0xE9, CHR 0x93, CHR 0x9C], ''HG=F'', ''HGUSD'']\<rparr>,
     \<lparr>ce_id = ''crude_oil'', ce_name = ''Crude Oil (WTI)'', ce_category = ''energy'',
      ce_aliases = [[CHR 0xE5, CHR 0x8E, CHR 0x9F, CHR 0xE6, CHR 0xB2, CHR 0xB9], ''wti'', ''CL=F'', ''CLUSD'']\<rparr>,
     \<lparr>ce_id = ''brent'', ce_name = ''Brent Crude'', ce_category = ''energy'',
      ce_aliases = [[CHR 0xE5, CHR 0xB8, CHR 0x83, CHR 0xE4, CHR 0xBC, CHR 0xA6, CHR 0xE7, CHR 0x89, CHR 0xB9, CHR 0xE5, CHR 0x8E, CHR 0x9F, CHR 0xE6, CHR 0xB2, CHR 0xB9], ''BZ=F'', ''BZUSD'']\<rparr>,
     \<lparr>ce_id = ''natural_gas'', ce_name = ''Natural Gas'', ce_category = ''energy'',
      ce_aliases = [[CHR 0xE5, CHR 0xA4, CHR 0xA9, CHR 0xE7, CHR 0x84, CHR 0xB6, CHR 0xE6, CHR 0xB0, CHR 0x94], ''NG=F'', ''NGUSD'']\<rparr>,
     \<lparr>ce_id = ''heating_oil'', ce_name = ''Heating Oil'', ce_category = ''energy'',
      ce_aliases = [[CHR 0xE5, CHR 0x8F, CHR 0x96, CHR 0xE6, CHR 0x9A, CHR 0x96, CHR 0xE6, CHR 0xB2, CHR 0xB9], ''HO=F'', ''HOUSD'']\<rparr>,
     \<lparr>ce_id = ''gasoline'', ce_name = ''Gasoline (RBOB)'', ce_category = ''energy'',
      ce_aliases = [[CHR 0xE6, CHR 0xB1, CHR 0xBD, CHR 0xE6, CHR 0xB2, CHR 0xB9], ''RB=F'', ''RBUSD'']\<rparr>,
     \<lparr>ce_id = ''corn'', ce_name = ''Corn'', ce_category = ''agriculture'',
      ce_aliases = [[CHR 0xE7, CHR 0x8E, CHR 0x89, CHR 0xE7, CHR 0xB1, CHR 0xB3], ''ZC=F'', ''ZCUSX'']\<rparr>,
     \<lparr>ce_id = ''wheat'', ce_name = ''Wheat'', ce_category = ''agriculture'',
      ce_aliases = [[CHR 0xE5, CHR 0xB0, CHR 0x8F, CHR 0xE9, CHR 0xBA, CHR 0xA6], ''ZW=F'', ''KEUSX'']\<rparr>,
     \<lparr>ce_id = ''soybeans'', ce_name = ''Soybeans'', ce_category = ''agriculture'',
      ce_aliases = [[CHR 0xE5, CHR 0xA4, CHR 0xA7, CHR 0xE8, CHR 0xB1, CHR 0x86], ''ZS=F'', ''ZSUSX'']\<rparr>,
     \<lparr>ce_id = ''oats'', ce_name = ''Oats'', ce_category = ''agriculture'',
      ce_aliases = [[CHR 0xE7, CHR 0x87, CHR 0x95, CHR 0xE9, CHR 0xBA, CHR 0xA6], ''ZO=F'']\<rparr>,
     \<lparr>ce_id = ''rice'', ce_name = ''Rough Rice'', ce_category = ''agriculture'',
      ce_aliases = [[CHR 0xE7, CHR 0xA8, CHR 0xBB, CHR 0xE7, CHR 0xB1, CHR 0xB3], ''ZR=F'']\<rparr>,
     \<lparr>ce_id = ''sugar'', ce_name = ''Sugar #11'', ce_category = ''softs'',
      ce_aliases = [[CHR 0xE7, CHR 0xB3, CHR 0x96], ''SB=F'', ''SBUSX'']\<rparr>,
     \<lparr>ce_id = ''coffee'', ce_name = ''Coffee'', ce_category = ''softs'',
      ce_aliases = [[CHR 0xE5, CHR 0x92, CHR 0x96, CHR 0xE5, CHR 0x95, CHR 0xA1], ''KC=F'', ''KCUSX'']\<rparr>,
     \<lparr>ce_id = ''cocoa'', ce_name = ''Cocoa'', ce_category = ''softs'',
      ce_aliases = [[CHR 0xE5, CHR 0x8F, CHR 0xAF, CHR 0xE5, CHR 0x8F, CHR 0xAF], ''CC=F'', ''CCUSX'']\<rparr>,
     \<lparr>ce_id = ''cotton'', ce_name = ''Cotton'', ce_category = ''softs'',
      ce_aliases = [[CHR 0xE6, CHR 0xA3, CHR 0x89, CHR 0xE8, CHR 0x8A, CHR 0xB1], ''CT=F'', ''CTUSX'']\<rparr>,
     \<lparr>ce_id = ''lumber'', ce_name = ''Lumber'', ce_category = ''softs'',
      ce_aliases = [[CHR 0xE6, CHR 0x9C, CHR 0xA8, CHR 0xE6, CHR 0x9D, CHR 0x90], ''LBS=F'']\<rparr>,
     \<lparr>ce_id = ''orange_juice'', ce_name = ''Orange Juice'', ce_category = ''softs'',
      ce_aliases = [[CHR 0xE6, CHR 0xA9, CHR 0x99, CHR 0xE6, CHR 0xB1, CHR 0x81], ''OJ=F'']\<rparr>,
     \<lparr>ce_id = ''live_cattle'', ce_name = ''Live Cattle'', ce_category = ''livestock'',
      ce_aliases = [[CHR 0xE6, CHR 0xB4, CHR 0xBB, CHR 0xE7, CHR 0x89, CHR 0x9B], ''LE=F'']\<rparr>,
     \<lparr>ce_id = ''lean_hogs'', ce_name = ''Lean Hogs'', ce_category = ''livestock'',
      ce_aliases = [[CHR 0xE7, CHR 0x98, CHR 0xA6, CHR 0xE8, CHR 0x82, CHR 0x89, CHR 0xE7, CHR 0x8C, CHR 0xAA], ''HE=F'']\<rparr>,
     \<lparr>ce_id = ''feeder_cattle'', ce_name = ''Feeder Cattle'', ce_category = ''livestock'',
      ce_aliases = [[CHR 0xE6, CHR 0x9E, CHR 0xB6, CHR 0xE5, CHR 0xAD, CHR 0x90, CHR 0xE7, CHR 0x89, CHR 0x9B], ''GF=F'']\<rparr>]"

section \<open>The merge\<close>

record market_search =
  ms_regex :: regex
  ms_index :: "symbol_entry list"
  ms_catalog :: "commodity_entry list"
  ms_equityVendors :: "string list"
  ms_equity :: "string \<Rightarrow> string \<Rightarrow> string + vendor_row list"
  ms_crypto :: "string \<Rightarrow> string + vendor_row list"
  ms_currency :: "string \<Rightarrow> string + vendor_row list"

text \<open>\<open>Math.max(1, Math.min(100, Number.isFinite(n) ? Math.floor(n) : 20))\<close>.\<close>

definition bounded_limit :: "dec \<Rightarrow> nat" where
  "bounded_limit d = (case d of Fin q \<Rightarrow> nat (max 1 (min 100 \<lfloor>q\<rfloor>)) | _ \<Rightarrow> 20)"

definition settled :: "'e + 'a list \<Rightarrow> 'a list" where
  "settled r = (case r of Inl _ \<Rightarrow> [] | Inr xs \<Rightarrow> xs)"

definition index_row :: "symbol_entry \<Rightarrow> vendor_row" where
  "index_row e = \<lparr>vr_symbol = Some (se_symbol e), vr_id = None, vr_name = Some (se_name e), vr_aliases = []\<rparr>"

definition catalog_row :: "commodity_entry \<Rightarrow> vendor_row" where
  "catalog_row e = \<lparr>vr_symbol = None, vr_id = Some (ce_id e), vr_name = Some (ce_name e), vr_aliases = ce_aliases e\<rparr>"

definition equity_key :: "string \<Rightarrow> string \<Rightarrow> string" where
  "equity_key vendor s = vendor @ ''|'' @ to_upper s"

definition result_key :: "search_result \<Rightarrow> string" where
  "result_key r = equity_key (opt_str (sr_sourceId r)) (opt_str (vr_symbol r))"

text \<open>The loop over the rows of one vendor, with the set of keys seen so far.\<close>

fun add_online :: "string \<Rightarrow> vendor_row list \<Rightarrow> string set \<times> search_result list \<Rightarrow> string set \<times> search_result list" where
  "add_online v [] st = st"
| "add_online v (r # rs) (seen, out) =
     (let sy = opt_str (vr_symbol r); key = equity_key v sy in
      if sy = [] \<or> key \<in> seen then add_online v rs (seen, out)
      else add_online v rs (insert key seen, out @ [result_of (r\<lparr>vr_symbol := Some sy\<rparr>) Equity (Some v)]))"

definition equity_results :: "market_search \<Rightarrow> string \<Rightarrow> nat \<Rightarrow> search_result list" where
  "equity_results ms q limit =
     (let primary = (case ms_equityVendors ms of [] \<Rightarrow> ''yfinance'' | v # _ \<Rightarrow> v) in
      map (\<lambda>e. result_of (index_row e) Equity (Some primary)) (index_search (ms_regex ms) (ms_index ms) q limit))"

definition online_results :: "market_search \<Rightarrow> string \<Rightarrow> search_result list \<Rightarrow> search_result list" where
  "online_results ms q local =
     snd (fold (\<lambda>v. add_online v (settled (ms_equity ms v q))) (ms_equityVendors ms) (set (map result_key local), []))"

definition crypto_results :: "market_search \<Rightarrow> string \<Rightarrow> search_result list" where
  "crypto_results ms q = map (\<lambda>r. result_of r Crypto None) (settled (ms_crypto ms q))"

definition currency_results :: "market_search \<Rightarrow> string \<Rightarrow> search_result list" where
  "currency_results ms q =
     map (\<lambda>r. result_of r Currency None)
       (filter (\<lambda>r. case vr_symbol r of None \<Rightarrow> False | Some s \<Rightarrow> ends_with ''USD'' s) (settled (ms_currency ms q)))"

definition commodity_results :: "market_search \<Rightarrow> string \<Rightarrow> nat \<Rightarrow> search_result list" where
  "commodity_results ms q limit =
     map (\<lambda>e. result_of (catalog_row e) Commodity None) (catalog_search (ms_regex ms) (ms_catalog ms) q limit)"

definition search_pool :: "market_search \<Rightarrow> string \<Rightarrow> nat \<Rightarrow> search_result list" where
  "search_pool ms q limit =
     (let eq = equity_results ms q limit in
      eq @ online_results ms q eq @ crypto_results ms q @ currency_results ms q @ commodity_results ms q limit)"

definition aggregateSymbolSearch :: "market_search \<Rightarrow> string \<Rightarrow> dec \<Rightarrow> search_result list" where
  "aggregateSymbolSearch ms query limit =
     (let q = trim query; n = bounded_limit limit in
      if q = [] then [] else take n (rank_by (matchScore q) (search_pool ms q n)))"

section \<open>The catalogue of a broker\<close>

record rank_input =
  ri_symbol :: "string option"
  ri_localSymbol :: "string option"
  ri_description :: "string option"
  ri_base :: "string option"
  ri_quote :: "string option"
  ri_name :: "string option"

definition fuzzy_score :: "string \<Rightarrow> rank_input \<Rightarrow> int" where
  "fuzzy_score query e =
     (let q = to_lower query; sy = to_lower (opt_str (ri_symbol e)); loc = to_lower (opt_str (ri_localSymbol e));
          base = to_lower (opt_str (ri_base e)); quo = to_lower (opt_str (ri_quote e));
          name = to_lower (opt_str (case ri_name e of None \<Rightarrow> ri_description e | n \<Rightarrow> n)) in
      if q = [] then 0
      else if sy = q \<or> base = q \<or> name = q then 100
      else if (sy \<noteq> [] \<and> starts_with q sy) \<or> (base \<noteq> [] \<and> starts_with q base) then 80
      else if starts_name q name then 70
      else if name \<noteq> [] \<and> word_found q name then 50
      else if occurs_in q sy \<or> occurs_in q loc \<or> occurs_in q name then 30
      else if quo = q then 20 else 0)"

text \<open>The positions are those in the whole catalogue; the filter keeps them.\<close>

definition fuzzyRankContracts :: "rank_input list \<Rightarrow> string \<Rightarrow> nat option \<Rightarrow> rank_input list" where
  "fuzzyRankContracts es query limit =
     (let q = trim query in
      if q = [] then []
      else take (case limit of None \<Rightarrow> 50 | Some n \<Rightarrow> n)
        (map fst (js_sort (by_score (fuzzy_score q)) (filter (\<lambda>x. 0 < fuzzy_score q (fst x)) (zip es [0..<length es])))))"

section \<open>From vendor symbols to broker patterns\<close>

datatype class_hint = HintClass asset_class | HintUnknown

definition QUOTE_CURRENCIES :: "string list" where
  "QUOTE_CURRENCIES = [''USDT'', ''USDC'', ''BUSD'', ''USD'', ''EUR'', ''JPY'', ''GBP'', ''CNY'']"

text \<open>
  The match of \<open>^([A-Z0-9]{2,})(?:USDT|...)$\<close>: the group is greedy, so the longest base that a quote
  currency follows wins.
\<close>

fun longest_base :: "nat \<Rightarrow> string \<Rightarrow> string option" where
  "longest_base k s =
     (if k < 2 then None
      else if list_all is_alnum (take k s) \<and> to_upper (drop k s) \<in> set QUOTE_CURRENCIES then Some (take k s)
      else longest_base (k - 1) s)"

declare longest_base.simps [simp del]

definition normalizeBrokerSearchPattern :: "string \<Rightarrow> class_hint \<Rightarrow> string" where
  "normalizeBrokerSearchPattern symbol hint =
     (let s = trim symbol in
      if s = [] then s
      else if hint = HintClass Crypto \<or> hint = HintClass Currency then
        (case longest_base (length s) s of Some b \<Rightarrow> to_upper b | None \<Rightarrow> s)
      else s)"

text \<open>An account of the manager: its id, whether it takes part in searches, and its search.\<close>

record 'c search_account =
  sa_id :: string
  sa_asVendor :: "bool option"
  sa_search :: "string \<Rightarrow> string + 'c list"
  sa_class :: "'c \<Rightarrow> asset_class option"

definition searchTradeableContracts ::
  "'c search_account list \<Rightarrow> (string \<Rightarrow> 'c search_account list) \<Rightarrow> string \<Rightarrow> class_hint \<Rightarrow> string option \<Rightarrow>
    (string \<times> 'c \<times> asset_class option) list"
where
  "searchTradeableContracts all resolve pattern hint source =
     (let p = normalizeBrokerSearchPattern pattern hint;
          targets = (if truthy source then resolve (the source) else filter (\<lambda>a. sa_asVendor a \<noteq> Some False) all) in
      if p = [] then []
      else concat (map (\<lambda>a. map (\<lambda>c. (sa_id a, c, sa_class a c)) (settled (sa_search a p))) targets))"

section \<open>What a search shows\<close>

lemma bounded_limit_range: "1 \<le> bounded_limit d \<and> bounded_limit d \<le> 100"
  by (auto simp: bounded_limit_def split: dec.splits)

text \<open>A prefix of a list in descending order: what is left out is no better than what is in.\<close>

lemma descending_take:
  assumes "sorted_wrt (\<lambda>a b. f b \<le> f a) xs" "x \<in> set xs" "x \<notin> set (take n xs)" "y \<in> set (take n xs)"
  shows "length (take n xs) = n \<and> (f x :: 'k::linorder) \<le> f y"
proof -
  have x: "x \<in> set (drop n xs)"
    using assms(2,3) by (metis Un_iff append_take_drop_id set_append)
  then have "n < length xs" by (cases "n < length xs") auto
  moreover have "sorted_wrt (\<lambda>a b. f b \<le> f a) (take n xs @ drop n xs)" using assms(1) by simp
  ultimately show ?thesis using x assms(4) by (auto simp: sorted_wrt_append simp del: append_take_drop_id)
qed

text \<open>A search returns at most a hundred results and at most the limit, all from the pool of what the
  sources found, best score first, and a result of the pool that it leaves out scores no better than any
  that it returns and is left out only because the limit is reached.\<close>

theorem search_shows_the_best:
  assumes "r \<in> set (search_pool ms (trim query) (bounded_limit limit))" "r \<notin> set (aggregateSymbolSearch ms query limit)"
    and "x \<in> set (aggregateSymbolSearch ms query limit)"
  shows "length (aggregateSymbolSearch ms query limit) = bounded_limit limit \<and> bounded_limit limit \<le> 100 \<and>
    matchScore (trim query) r \<le> matchScore (trim query) x \<and>
    x \<in> set (search_pool ms (trim query) (bounded_limit limit)) \<and>
    sorted_wrt (\<lambda>a b. matchScore (trim query) b \<le> matchScore (trim query) a) (aggregateSymbolSearch ms query limit)"
proof -
  let ?p = "search_pool ms (trim query) (bounded_limit limit)"
  have q: "trim query \<noteq> []" using assms(3) by (auto simp: aggregateSymbolSearch_def)
  have out: "aggregateSymbolSearch ms query limit = take (bounded_limit limit) (rank_by (matchScore (trim query)) ?p)"
    by (simp add: aggregateSymbolSearch_def Let_def q)
  have sorted: "sorted_wrt (\<lambda>a b. matchScore (trim query) b \<le> matchScore (trim query) a) (rank_by (matchScore (trim query)) ?p)"
    by (rule rank_by_sorted)
  have "x \<in> set ?p" using assms(3) unfolding out by (metis in_set_takeD set_rank_by)
  then show ?thesis
    using descending_take [OF sorted _ assms(2,3) [unfolded out]] assms(1) bounded_limit_range [of limit] sorted_wrt_take [OF sorted]
    unfolding out by simp
qed

text \<open>Each vendor offers a symbol once; the symbols of the local index are not offered again under its vendor.\<close>

lemma add_online_keys:
  assumes "add_online v rs (seen, out) = (seen', out')" "set (map result_key out) \<subseteq> seen" "distinct (map result_key out)"
  shows "set (map result_key out') \<subseteq> seen' \<and> distinct (map result_key out') \<and> seen \<subseteq> seen' \<and>
    (\<exists>new. out' = out @ new \<and> result_key ` set new \<inter> seen = {})"
  using assms
proof (induction rs arbitrary: seen out)
  case Nil
  then show ?case by auto
next
  case (Cons r rs)
  show ?case
  proof (cases "opt_str (vr_symbol r) = [] \<or> equity_key v (opt_str (vr_symbol r)) \<in> seen")
    case True
    with Cons.prems Cons.IH [of seen out] show ?thesis by (simp add: Let_def)
  next
    case False
    let ?k = "equity_key v (opt_str (vr_symbol r))"
    let ?n = "result_of (r\<lparr>vr_symbol := Some (opt_str (vr_symbol r))\<rparr>) Equity (Some v)"
    have key: "result_key ?n = ?k" by (simp add: result_key_def result_of_def vendor_row.extend_def opt_str_def)
    have step: "add_online v rs (insert ?k seen, out @ [?n]) = (seen', out')"
      using Cons.prems(1) False by (auto simp: Let_def)
    have ok: "set (map result_key (out @ [?n])) \<subseteq> insert ?k seen" "distinct (map result_key (out @ [?n]))"
      using Cons.prems(2,3) False by (auto simp: key)
    from Cons.IH [OF step ok] show ?thesis using False by (auto simp: key)
  qed
qed

theorem online_symbols_offered_once:
  "distinct (map result_key (online_results ms q local)) \<and>
   result_key ` set (online_results ms q local) \<inter> result_key ` set local = {}"
proof -
  have "set (map result_key (snd st)) \<subseteq> fst st \<and> distinct (map result_key (snd st)) \<and>
      result_key ` set local \<subseteq> fst st \<and> result_key ` set (snd st) \<inter> result_key ` set local = {} \<Longrightarrow>
    (let st' = fold (\<lambda>v. add_online v (settled (ms_equity ms v q))) vs st in
      distinct (map result_key (snd st')) \<and> result_key ` set (snd st') \<inter> result_key ` set local = {})" for vs st
  proof (induction vs arbitrary: st)
    case Nil
    then show ?case by simp
  next
    case (Cons v vs)
    obtain seen out where st: "st = (seen, out)" by (cases st)
    obtain seen' out' where st': "add_online v (settled (ms_equity ms v q)) (seen, out) = (seen', out')"
      by (cases "add_online v (settled (ms_equity ms v q)) (seen, out)")
    have start: "set (map result_key out) \<subseteq> seen" "distinct (map result_key out)"
      using Cons.prems unfolding st by simp_all
    from add_online_keys [OF st' start] obtain new where new: "out' = out @ new" "result_key ` set new \<inter> seen = {}"
      and keys: "set (map result_key out') \<subseteq> seen'" "distinct (map result_key out')" "seen \<subseteq> seen'"
      by blast
    have old: "result_key ` set local \<subseteq> seen" "result_key ` set out \<inter> result_key ` set local = {}"
      using Cons.prems unfolding st by simp_all
    have sets: "A \<inter> C = {} \<Longrightarrow> B \<inter> D = {} \<Longrightarrow> C \<subseteq> D \<Longrightarrow> (A \<union> B) \<inter> C = {}" for A B C D :: "string set" by blast
    have "result_key ` set out' \<inter> result_key ` set local = {}"
      unfolding new(1) set_append image_Un by (rule sets [OF old(2) new(2) old(1)])
    moreover have "result_key ` set local \<subseteq> seen'" by (rule order_trans [OF old(1) keys(3)])
    ultimately have local: "result_key ` set local \<subseteq> seen'" "result_key ` set out' \<inter> result_key ` set local = {}"
      by simp_all
    with keys(1,2) have "set (map result_key out') \<subseteq> seen' \<and> distinct (map result_key out') \<and>
      result_key ` set local \<subseteq> seen' \<and> result_key ` set out' \<inter> result_key ` set local = {}"
      by simp
    with Cons.IH [of "(seen', out')"] show ?case by (simp add: st st')
  qed
  from this [of "(set (map result_key local), [])"] show ?thesis by (simp add: online_results_def Let_def)
qed

section \<open>The quote currency\<close>

lemma trim_alnum: "list_all is_alnum s \<Longrightarrow> trim s = s"
proof -
  have "is_alnum c \<Longrightarrow> \<not> is_space c" for c by (auto simp: is_alnum_def is_space_def Let_def)
  then have "list_all is_alnum t \<Longrightarrow> dropWhile is_space t = t" for t by (cases t) auto
  moreover assume "list_all is_alnum s"
  ultimately show ?thesis by (simp add: trim_def list_all_rev)
qed

lemma upper_suffix: "to_upper (drop k s) = drop k (to_upper s)"
  by (simp add: to_upper_def drop_map)

text \<open>No pair quoted in BUSD reaches a broker under its base: the pattern keeps the B of the quote
  currency, because USD leaves the longer base.\<close>

theorem busd_pairs_keep_a_letter:
  assumes "list_all is_alnum b" "b \<noteq> []"
  shows "normalizeBrokerSearchPattern (b @ ''BUSD'') (HintClass Crypto) = to_upper b @ ''B''"
proof -
  have alnum: "list_all is_alnum (b @ ''BUSD'')" using assms(1) by (simp add: is_alnum_def Let_def)
  have len: "\<not> length b + 4 < 2" "\<not> length b + 3 < 2" "\<not> length b + 2 < 2" "\<not> length b + 1 < 2"
    using assms(2) by (cases b; simp)+
  have upper: "to_upper ''BUSD'' = ''BUSD''" "to_upper ''USD'' = ''USD''" "to_upper ''SD'' = ''SD''" "to_upper ''D'' = ''D''"
      "to_upper [] = []"
    by code_simp+
  have no: "[] \<notin> set QUOTE_CURRENCIES" "''D'' \<notin> set QUOTE_CURRENCIES" "''SD'' \<notin> set QUOTE_CURRENCIES"
      "''USD'' \<in> set QUOTE_CURRENCIES"
    by code_simp+
  have prefix: "list_all is_alnum (b @ ''B'')" using alnum by simp
  have next_base: "longest_base (Suc k) s = longest_base k s" if "1 \<le> k" "to_upper (drop (Suc k) s) \<notin> set QUOTE_CURRENCIES" for k s
    using that by (subst longest_base.simps) simp
  have steps: "longest_base (length b + 4) (b @ ''BUSD'') = longest_base (length b + 1) (b @ ''BUSD'')"
    using next_base [of "length b + 3" "b @ ''BUSD''"] next_base [of "length b + 2" "b @ ''BUSD''"]
      next_base [of "length b + 1" "b @ ''BUSD''"] no
    by (simp add: upper eval_nat_numeral)
  have "longest_base (length b + 1) (b @ ''BUSD'') = Some (b @ ''B'')"
    using len prefix no by (subst longest_base.simps) (simp add: upper)
  then have "longest_base (length b + 4) (b @ ''BUSD'') = Some (b @ ''B'')" by (simp only: steps)
  moreover have "length (b @ ''BUSD'') = length b + 4" by simp
  ultimately have base: "longest_base (length (b @ ''BUSD'')) (b @ ''BUSD'') = Some (b @ ''B'')" by (simp only:)
  have "to_upper (b @ ''B'') = to_upper b @ ''B''" by (simp add: to_upper_def upper_char_def Let_def)
  then show ?thesis
    unfolding normalizeBrokerSearchPattern_def trim_alnum [OF alnum] Let_def base by simp
qed

section \<open>Witnesses\<close>

definition demo_search :: market_search where
  "demo_search =
     \<lparr>ms_regex = (\<lambda>p. Some (\<lambda>s. occurs_in (to_lower p) (to_lower s))),
      ms_index = [\<lparr>se_symbol = ''GS'', se_name = ''Goldman Sachs Group'', se_source = ''sec''\<rparr>,
                  \<lparr>se_symbol = ''GLD'', se_name = ''SPDR Gold Trust'', se_source = ''sec''\<rparr>],
      ms_catalog = [\<lparr>ce_id = ''gold'', ce_name = ''Gold'', ce_category = ''metals'', ce_aliases = [''xau'']\<rparr>],
      ms_equityVendors = [''yfinance''],
      ms_equity = (\<lambda>v q. Inl ''offline''), ms_crypto = (\<lambda>q. Inl ''offline''), ms_currency = (\<lambda>q. Inr [])\<rparr>"

theorem search_shows_the_best_witness:
  "\<exists>(r :: search_result) (x :: search_result). map symbol_of (aggregateSymbolSearch demo_search ''gold'' (Fin 2)) = [''gold'', ''GLD''] \<and>
     symbol_of r = ''GS'' \<and> symbol_of x = ''GLD'' \<and>
     length (aggregateSymbolSearch demo_search ''gold'' (Fin 2)) = bounded_limit (Fin 2) \<and>
     matchScore (trim ''gold'') r \<le> matchScore (trim ''gold'') x"
proof -
  define r where "r = result_of (index_row \<lparr>se_symbol = ''GS'', se_name = ''Goldman Sachs Group'', se_source = ''sec''\<rparr>) Equity (Some ''yfinance'')"
  define x where "x = result_of (index_row \<lparr>se_symbol = ''GLD'', se_name = ''SPDR Gold Trust'', se_source = ''sec''\<rparr>) Equity (Some ''yfinance'')"
  have 1: "r \<in> set (search_pool demo_search (trim ''gold'') (bounded_limit (Fin 2)))" unfolding r_def by code_simp
  have 2: "r \<notin> set (aggregateSymbolSearch demo_search ''gold'' (Fin 2))" unfolding r_def by code_simp
  have 3: "x \<in> set (aggregateSymbolSearch demo_search ''gold'' (Fin 2))" unfolding x_def by code_simp
  have 4: "map symbol_of (aggregateSymbolSearch demo_search ''gold'' (Fin 2)) = [''gold'', ''GLD'']" by code_simp
  have 5: "symbol_of r = ''GS''" "symbol_of x = ''GLD''" unfolding r_def x_def by code_simp+
  note 6 = search_shows_the_best [OF 1 2 3]
  show ?thesis
    by (intro exI [of _ r] exI [of _ x] conjI 4 5 conjunct1 [OF 6] conjunct1 [OF conjunct2 [OF conjunct2 [OF 6]]])
qed

theorem busd_pairs_keep_a_letter_witness:
  "normalizeBrokerSearchPattern ''BTCBUSD'' (HintClass Crypto) = ''BTCB'' \<and>
   normalizeBrokerSearchPattern ''BTCUSDT'' (HintClass Crypto) = ''BTC''"
proof -
  have b: "list_all is_alnum ''BTC''" by code_simp
  have u: "to_upper ''BTC'' @ ''B'' = ''BTCB''" by code_simp
  have t: "normalizeBrokerSearchPattern ''BTCUSDT'' (HintClass Crypto) = ''BTC''" by code_simp
  show ?thesis using busd_pairs_keep_a_letter [OF b] u t by simp
qed

end
