(* ===== verification/Date_JS.thy ===== *)
theory Date_JS
  imports JS_Strings Decimal_Instance
begin

text \<open>
  JavaScript dates in UTC: a time is a number of milliseconds since 1970, a day the number of days since
  then.  Years are found from day numbers and back, and \<open>toISOString\<close> prints a time.  What \<open>new Date(text)\<close>
  parses and what \<open>setDate\<close> does in the zone of the machine are parameters.
\<close>

section \<open>Years\<close>

definition leap :: "int \<Rightarrow> bool" where
  "leap y \<longleftrightarrow> y mod 4 = 0 \<and> (y mod 100 \<noteq> 0 \<or> y mod 400 = 0)"

definition days_in_year :: "int \<Rightarrow> int" where
  "days_in_year y = (if leap y then 366 else 365)"

text \<open>The first day of a year.\<close>

definition year_start :: "int \<Rightarrow> int" where
  "year_start y = 365 * (y - 1970) + (y - 1969) div 4 - (y - 1901) div 100 + (y - 1601) div 400"

lemma div_step:
  fixes x m :: int
  assumes "0 < m"
  shows "(x + 1) div m = x div m + (if (x + 1) mod m = 0 then 1 else 0)"
proof (cases "x mod m + 1 = m")
  case True
  then have "x + 1 = m * (x div m) + m" using mult_div_mod_eq [of m x] by linarith
  then have "x + 1 = m * (x div m + 1) + 0" by (simp add: distrib_left)
  then have "(x + 1) div m = x div m + 1" "(x + 1) mod m = 0"
    using assms by (metis int_div_pos_eq order_refl, metis add.right_neutral mod_mult_self1_is_0)
  then show ?thesis by simp
next
  case False
  have eq: "x + 1 = m * (x div m) + (x mod m + 1)" using mult_div_mod_eq [of m x] by simp
  have r: "0 \<le> x mod m + 1" "x mod m + 1 < m" "x mod m + 1 \<noteq> 0"
    using assms False pos_mod_bound [OF assms, of x] pos_mod_sign [OF assms, of x] by linarith+
  then have "(x + 1) div m = x div m" "(x + 1) mod m = x mod m + 1"
    using int_div_pos_eq [OF eq] int_mod_pos_eq [OF eq] by simp_all
  with r show ?thesis by simp
qed

lemma year_start_Suc: "year_start (y + 1) = year_start y + days_in_year y"
proof -
  have base: "(y - 1969 + 1) mod 4 = y mod 4" "(y - 1901 + 1) mod 100 = y mod 100" "(y - 1601 + 1) mod 400 = y mod 400"
    using mod_mult_self2 [of y 4 "- 492"] mod_mult_self2 [of y 100 "- 19"] mod_mult_self2 [of y 400 "- 4"]
    by (simp_all add: algebra_simps)
  define a where "a = (y - 1969) div 4"
  define b where "b = (y - 1901) div 100"
  define c where "c = (y - 1601) div 400"
  have one: "y + 1 - 1969 = y - 1969 + 1" "y + 1 - 1901 = y - 1901 + 1" "y + 1 - 1601 = y - 1601 + 1" by simp_all
  have next_year: "year_start (y + 1) = 365 * (y + 1 - 1970) + (a + (if y mod 4 = 0 then 1 else 0))
      - (b + (if y mod 100 = 0 then 1 else 0)) + (c + (if y mod 400 = 0 then 1 else 0))"
    unfolding year_start_def one a_def b_def c_def
    by (simp only: div_step [of 4] div_step [of 100] div_step [of 400] base zero_less_numeral)
  define p q r where "p \<longleftrightarrow> y mod 4 = 0" and "q \<longleftrightarrow> y mod 100 = 0" and "r \<longleftrightarrow> y mod 400 = 0"
  have "q \<longrightarrow> p" "r \<longrightarrow> q"
    unfolding p_def q_def r_def
    using mod_mod_cancel [of 4 100 y] mod_mod_cancel [of 100 400 y] by fastforce+
  moreover have "year_start y = 365 * (y - 1970) + a - b + c" unfolding year_start_def a_def b_def c_def ..
  ultimately show ?thesis
    unfolding next_year days_in_year_def leap_def p_def [symmetric] q_def [symmetric] r_def [symmetric]
    by (cases p; cases q; cases r) simp_all
qed

lemma year_start_less: "year_start y < year_start (y + 1)"
  by (simp add: year_start_Suc days_in_year_def)

lemma year_start_mono: "x \<le> y \<Longrightarrow> year_start x \<le> year_start y"
proof (induction rule: int_ge_induct)
  case (step i)
  with year_start_less [of i] show ?case by simp
qed simp

text \<open>The year of a day, from an estimate that is not too late.\<close>

function year_from :: "int \<Rightarrow> int \<Rightarrow> int" where
  "year_from n y = (if year_start (y + 1) \<le> n then year_from n (y + 1) else y)"
  by auto
termination
  by (relation "measure (\<lambda>(n, y). nat (n - year_start y))") (auto simp: year_start_less dest: order.strict_trans2 [OF year_start_less])

declare year_from.simps [simp del]

definition year_of :: "int \<Rightarrow> int" where
  "year_of n = year_from n (1970 + n div (if 0 \<le> n then 366 else 365))"

lemma year_from_spec:
  "year_start y \<le> n \<Longrightarrow> year_start (year_from n y) \<le> n \<and> n < year_start (year_from n y + 1)"
proof (induction n y rule: year_from.induct)
  case (1 n y)
  then show ?case by (cases "year_start (y + 1) \<le> n") (simp_all add: year_from.simps [of n y])
qed

lemma year_of_spec: "year_start (year_of n) \<le> n \<and> n < year_start (year_of n + 1)"
proof -
  have few: "(k + 1) div 4 - (k + 69) div 100 + (k + 369) div 400 \<le> max k 0" for k :: int
  proof (cases "2 \<le> k \<or> k \<le> - 7")
    case True
    define a b c where "a = (k + 1) div 4" and "b = (k + 69) div 100" and "c = (k + 369) div 400"
    have "4 * a \<le> k + 1" "k + 69 < 100 * b + 100" "400 * c \<le> k + 369"
      unfolding a_def b_def c_def
      using mult_div_mod_eq [of 4 "k + 1"] pos_mod_sign [of 4 "k + 1"] mult_div_mod_eq [of 100 "k + 69"]
        pos_mod_bound [of 100 "k + 69"] mult_div_mod_eq [of 400 "k + 369"] pos_mod_sign [of 400 "k + 369"]
      by (metis add_le_cancel_left add.right_neutral zero_less_numeral, metis add_less_cancel_left zero_less_numeral,
          metis add_le_cancel_left add.right_neutral zero_less_numeral)
    with True have "a - b + c \<le> max k 0" by linarith
    then show ?thesis unfolding a_def b_def c_def .
  next
    case False
    then have "k \<in> {-6, -5, -4, -3, -2, -1, 0, 1}" by auto
    then show ?thesis by (elim insertE) simp_all
  qed
  have "year_start (1970 + n div (if 0 \<le> n then 366 else 365)) \<le> n"
  proof (cases "0 \<le> n")
    case True
    define k where "k = n div 366"
    have k: "366 * k \<le> n" "0 \<le> k"
      using mult_div_mod_eq [of 366 n] pos_mod_sign [of 366 n] pos_imp_zdiv_nonneg_iff [of 366 n] True
      unfolding k_def by (metis add_le_cancel_left add.right_neutral zero_less_numeral, simp)
    have "year_start (1970 + k) = 365 * k + ((k + 1) div 4 - (k + 69) div 100 + (k + 369) div 400)"
      by (simp add: year_start_def add.commute)
    with k few [of k] True show ?thesis by (simp only: k_def [symmetric] if_True max_absorb1)
  next
    case False
    define k where "k = n div 365"
    have k: "365 * k \<le> n" "k < 0"
      using mult_div_mod_eq [of 365 n] pos_mod_sign [of 365 n] pos_imp_zdiv_nonneg_iff [of 365 n] False
      unfolding k_def by (metis add_le_cancel_left add.right_neutral zero_less_numeral, simp)
    have "year_start (1970 + k) = 365 * k + ((k + 1) div 4 - (k + 69) div 100 + (k + 369) div 400)"
      by (simp add: year_start_def add.commute)
    with k few [of k] False show ?thesis by (simp only: k_def [symmetric] if_False max_absorb2 less_imp_le)
  qed
  then show ?thesis unfolding year_of_def by (rule year_from_spec)
qed

lemma year_of_unique: "year_start y \<le> n \<Longrightarrow> n < year_start (y + 1) \<Longrightarrow> year_of n = y"
proof -
  assume y: "year_start y \<le> n" "n < year_start (y + 1)"
  have "\<not> year_of n < y" "\<not> y < year_of n"
    using year_start_mono [of "year_of n + 1" y] year_start_mono [of "y + 1" "year_of n"] y year_of_spec [of n] by auto
  then show ?thesis by simp
qed

section \<open>Months and days\<close>

definition month_lengths :: "int \<Rightarrow> int list" where
  "month_lengths y = [31, if leap y then 29 else 28, 31, 30, 31, 30, 31, 31, 30, 31, 30, 31]"

text \<open>The month, from 1, and the day of it, from the day of the year, from 0.\<close>

fun month_day :: "int list \<Rightarrow> int \<Rightarrow> int \<Rightarrow> int \<times> int" where
  "month_day [] m d = (m, d + 1)"
| "month_day (l # ls) m d = (if d < l then (m, d + 1) else month_day ls (m + 1) (d - l))"

definition date_of :: "int \<Rightarrow> int \<times> int \<times> int" where
  "date_of n = (let y = year_of n in (y, month_day (month_lengths y) 1 (n - year_start y)))"

definition day_of :: "int \<times> int \<times> int \<Rightarrow> int" where
  "day_of ymd = (case ymd of (y, m, d) \<Rightarrow> year_start y + sum_list (take (nat (m - 1)) (month_lengths y)) + d - 1)"

definition valid_date :: "int \<times> int \<times> int \<Rightarrow> bool" where
  "valid_date ymd = (case ymd of (y, m, d) \<Rightarrow> 1 \<le> m \<and> m \<le> 12 \<and> 1 \<le> d \<and> d \<le> month_lengths y ! nat (m - 1))"

lemma month_lengths_sum: "length (month_lengths y) = 12" "sum_list (month_lengths y) = days_in_year y"
  by (simp_all add: month_lengths_def days_in_year_def)

lemma month_lengths_pos: "l \<in> set (month_lengths y) \<Longrightarrow> 0 < l"
  by (auto simp: month_lengths_def split: if_splits)

lemma month_day_reads:
  "k < length ls \<Longrightarrow> (\<forall>l \<in> set ls. 0 < l) \<Longrightarrow> 0 \<le> d \<Longrightarrow> d < ls ! k \<Longrightarrow>
     month_day ls m (sum_list (take k ls) + d) = (m + int k, d + 1)"
proof (induction ls arbitrary: k m)
  case (Cons l ls)
  show ?case
  proof (cases k)
    case 0
    with Cons.prems show ?thesis by simp
  next
    case (Suc j)
    have pos: "\<forall>x \<in> set (take j ls). 0 \<le> x" using Cons.prems(2) by (auto dest!: in_set_takeD)
    then have "0 \<le> sum_list (take j ls)" by (intro sum_list_nonneg) auto
    moreover have "month_day ls (m + 1) (sum_list (take j ls) + d) = (m + 1 + int j, d + 1)"
      using Cons.prems Suc by (intro Cons.IH) auto
    ultimately show ?thesis using Cons.prems Suc by (simp add: algebra_simps)
  qed
qed simp

theorem date_of_day_of:
  assumes "valid_date ymd"
  shows "date_of (day_of ymd) = ymd"
proof -
  obtain y m d where ymd: "ymd = (y, m, d)" by (cases ymd)
  let ?ls = "month_lengths y" and ?k = "nat (m - 1)"
  have v: "1 \<le> m" "m \<le> 12" "1 \<le> d" "d \<le> ?ls ! ?k" using assms by (simp_all add: ymd valid_date_def)
  then have k: "?k < length ?ls" by (simp add: month_lengths_sum)
  have split: "sum_list ?ls = sum_list (take ?k ?ls) + ?ls ! ?k + sum_list (drop (Suc ?k) ?ls)"
    using id_take_nth_drop [OF k] by (metis add.assoc sum_list.Cons sum_list_append)
  have nonneg: "0 \<le> sum_list (take ?k ?ls)" "0 \<le> sum_list (drop (Suc ?k) ?ls)"
    by (intro sum_list_nonneg, auto dest!: in_set_takeD in_set_dropD month_lengths_pos)+
  have "year_of (day_of ymd) = y"
    using v split nonneg by (intro year_of_unique) (simp_all add: ymd day_of_def year_start_Suc month_lengths_sum(2) [symmetric])
  moreover have "month_day ?ls 1 (sum_list (take ?k ?ls) + (d - 1)) = (1 + int ?k, d - 1 + 1)"
    using k v month_lengths_pos by (intro month_day_reads) auto
  ultimately show ?thesis using v by (simp add: date_of_def Let_def ymd day_of_def algebra_simps)
qed

section \<open>Times\<close>

definition MS_DAY :: int where "MS_DAY = 86400000"

text \<open>\<open>getUTCDay\<close>: 1970 began on a Thursday; 0 is Sunday.\<close>

definition week_day :: "int \<Rightarrow> int" where
  "week_day n = (n + 4) mod 7"

definition digits :: "nat \<Rightarrow> int \<Rightarrow> string" where
  "digits w k = map digit_char (pad_digits w (nat k))"

definition iso_year :: "int \<Rightarrow> string" where
  "iso_year y =
     (if 0 \<le> y \<and> y \<le> 9999 then digits 4 y else if y < 0 then ''-'' @ digits 6 (- y) else ''+'' @ digits 6 y)"

definition iso_day :: "int \<Rightarrow> string" where
  "iso_day n = (case date_of n of (y, m, d) \<Rightarrow> iso_year y @ ''-'' @ digits 2 m @ ''-'' @ digits 2 d)"

text \<open>\<open>toISOString\<close>.\<close>

definition iso_string :: "int \<Rightarrow> string" where
  "iso_string t =
     (let s = t mod MS_DAY in
      iso_day (t div MS_DAY) @ ''T'' @ digits 2 (s div 3600000) @ '':'' @ digits 2 (s div 60000 mod 60) @ '':'' @
      digits 2 (s div 1000 mod 60) @ ''.'' @ digits 3 (s mod 1000) @ ''Z'')"

text \<open>
  What a program asks the date library for: the time that a text denotes, the time now, and a time moved
  back by days in the zone of the machine (\<open>setDate(getDate() - n)\<close>); nothing for an invalid date.
\<close>

record js_clock =
  dc_parse :: "string \<Rightarrow> int option"
  dc_now :: int
  dc_minus_days :: "int \<Rightarrow> int \<Rightarrow> int option"

text \<open>A machine in UTC, reading dates and times of day in ISO form.\<close>

definition digits_in :: "string \<Rightarrow> bool" where
  "digits_in s \<longleftrightarrow> list_all (\<lambda>c. 48 \<le> (of_char c :: nat) \<and> (of_char c :: nat) \<le> 57) s"

definition number_in :: "string \<Rightarrow> int" where
  "number_in s = foldl (\<lambda>a c. 10 * a + (int (of_char c) - 48)) 0 s"

definition parse_iso :: "string \<Rightarrow> int option" where
  "parse_iso s =
     (let y = take 4 s; m = take 2 (drop 5 s); d = take 2 (drop 8 s); t = drop 10 s;
          h = take 2 (drop 1 t); mi = take 2 (drop 4 t); se = take 2 (drop 7 t);
          ymd = (number_in y, number_in m, number_in d) in
      if length s < 10 \<or> \<not> digits_in (y @ m @ d) \<or> s ! 4 \<noteq> CHR ''-'' \<or> s ! 7 \<noteq> CHR ''-'' \<or> \<not> valid_date ymd then None
      else if t = [] then Some (MS_DAY * day_of ymd)
      else if t = ''T'' @ h @ '':'' @ mi @ '':'' @ se @ ''Z'' \<and> digits_in (h @ mi @ se) then
        Some (MS_DAY * day_of ymd + 3600000 * number_in h + 60000 * number_in mi + 1000 * number_in se)
      else None)"

definition utc_clock :: "int \<Rightarrow> js_clock" where
  "utc_clock now = \<lparr>dc_parse = parse_iso, dc_now = now, dc_minus_days = (\<lambda>t n. Some (t - MS_DAY * n))\<rparr>"

end
