(* ===== verification/Bar_Service.thy ===== *)
theory Bar_Service
  imports Symbol_Search Date_JS Calc_Eval
begin

text \<open>
  The federated bar layer (\<open>domain/market-data/bars\<close>): bar handles, the search for sources of bars over vendors
  and brokers, and the fetch of bars from one source with its statement of freshness.  The clients of the
  vendors, the gateway to the accounts, the date library and \<open>Number(text)\<close> are parameters; what they throw
  is a message.
\<close>

section \<open>Handles\<close>

text \<open>\<open>indexOf('|')\<close> and the two slices; a handle without a source or without a symbol is none.\<close>

definition bar_sep :: char where "bar_sep = CHR ''|''"

definition parseBarId :: "string \<Rightarrow> (string \<times> string) option" where
  "parseBarId b =
     (let src = takeWhile (\<lambda>c. c \<noteq> bar_sep) b; rest = dropWhile (\<lambda>c. c \<noteq> bar_sep) b in
      if rest = [] \<or> src = [] \<or> length b = length src + 1 then None else Some (src, tl rest))"

definition formatBarId :: "string \<Rightarrow> string \<Rightarrow> string" where
  "formatBarId sourceId nativeSymbol = sourceId @ bar_sep # nativeSymbol"

definition isDerivativeBarId :: "string \<Rightarrow> bool" where
  "isDerivativeBarId b = (case parseBarId b of None \<Rightarrow> False | Some (s, n) \<Rightarrow> CHR '':'' \<in> set n)"

lemma format_parse: "parseBarId b = Some (s, n) \<Longrightarrow> formatBarId s n = b \<and> s \<noteq> [] \<and> n \<noteq> [] \<and> bar_sep \<notin> set s"
proof -
  assume p: "parseBarId b = Some (s, n)"
  let ?s = "takeWhile (\<lambda>c. c \<noteq> bar_sep) b" and ?r = "dropWhile (\<lambda>c. c \<noteq> bar_sep) b"
  have eq: "s = ?s" "n = tl ?r" "?r \<noteq> []" "?s \<noteq> []" "length b \<noteq> length ?s + 1"
    using p by (simp_all add: parseBarId_def Let_def split: if_splits)
  then have "hd ?r = bar_sep" using hd_dropWhile [of "\<lambda>c. c \<noteq> bar_sep" b] by simp
  then have r: "?r = bar_sep # n" using eq(2,3) by (cases ?r) auto
  have len: "length ?s + length ?r = length b" by (metis length_append takeWhile_dropWhile_id)
  have "n \<noteq> []"
  proof
    assume "n = []"
    then have "length ?r = 1" using r by simp
    with len eq(5) show False by simp
  qed
  moreover have "bar_sep \<notin> set s" unfolding eq(1) by (auto dest: set_takeWhileD)
  moreover have "s @ ?r = b" unfolding eq(1) by (rule takeWhile_dropWhile_id)
  ultimately show ?thesis using eq(4) unfolding r eq(1) [symmetric] by (simp add: formatBarId_def)
qed

lemma parse_format:
  assumes "s \<noteq> []" "n \<noteq> []" "bar_sep \<notin> set s"
  shows "parseBarId (formatBarId s n) = Some (s, n)"
proof -
  have s: "\<forall>c \<in> set s. c \<noteq> bar_sep" using assms(3) by auto
  then have "takeWhile (\<lambda>c. c \<noteq> bar_sep) (s @ bar_sep # n) = s" "dropWhile (\<lambda>c. c \<noteq> bar_sep) (s @ bar_sep # n) = bar_sep # n"
    by (simp_all add: takeWhile_append2 dropWhile_append2)
  with assms show ?thesis by (simp add: parseBarId_def formatBarId_def Let_def)
qed

section \<open>Windows\<close>

text \<open>\<open>/^(\d+)([dwhm])$/\<close>.\<close>

definition interval_parts :: "string \<Rightarrow> (int \<times> char) option" where
  "interval_parts s =
     (if 2 \<le> length s \<and> digits_in (butlast s) \<and> last s \<in> set ''dwhm'' then Some (number_in (butlast s), last s) else None)"

definition getCalendarDays :: "string \<Rightarrow> dec" where
  "getCalendarDays s =
     (case interval_parts s of
        None \<Rightarrow> Fin 365
      | Some (n, u) \<Rightarrow>
          n_times (fl (of_int n)) (Fin (if u = CHR ''d'' then 730 else if u = CHR ''w'' then 1825 else if u = CHR ''h'' then 90 else 30)))"

definition perBarDays :: "string \<Rightarrow> dec" where
  "perBarDays s =
     (case interval_parts s of
        None \<Rightarrow> fl (16 / 10)
      | Some (n, u) \<Rightarrow>
          n_times (fl (of_int n))
            (if u = CHR ''d'' then fl (16 / 10) else if u = CHR ''w'' then fl (75 / 10)
             else if u = CHR ''h'' then fl (2 / 10) else fl (5 / 100)))"

definition n_ceil :: "dec \<Rightarrow> dec" where
  "n_ceil d = (case d of Fin q \<Rightarrow> Fin (of_int \<lceil>q\<rceil>) | _ \<Rightarrow> d)"

definition n_max :: "dec \<Rightarrow> dec \<Rightarrow> dec" where
  "n_max a b = (if a = NotANumber \<or> b = NotANumber then NotANumber else if d_lt a b then b else a)"

definition window_days :: "bars_opts \<Rightarrow> dec" where
  "window_days opts =
     (case bo_count opts of
        None \<Rightarrow> getCalendarDays (bo_interval opts)
      | Some c \<Rightarrow>
          n_max (getCalendarDays (bo_interval opts)) (n_plus (n_ceil (n_times c (perBarDays (bo_interval opts)))) (Fin 5)))"

definition range_error :: string where "range_error = ''Invalid time value''"

definition throw_none :: "string \<Rightarrow> 'a option \<Rightarrow> string + 'a" where
  "throw_none e x = (case x of None \<Rightarrow> Inl e | Some y \<Rightarrow> Inr y)"

definition startDateFor :: "js_clock \<Rightarrow> bars_opts \<Rightarrow> string + string" where
  "startDateFor cl opts =
     (if truthy (bo_start opts) then Inr (the (bo_start opts))
      else
        let anchor = (case bo_asOf opts of None \<Rightarrow> bo_end opts | a \<Rightarrow> a);
            end = (if truthy anchor then dc_parse cl (the anchor) else Some (dc_now cl)) in
        bindE (throw_none range_error
          (case (end, window_days opts) of (Some t, Fin q) \<Rightarrow> dc_minus_days cl t (rat_trunc q) | _ \<Rightarrow> None)) (\<lambda>t.
        Inr (take 10 (iso_string t))))"

section \<open>Bars\<close>

definition MAX_BARS :: nat where "MAX_BARS = 5000"

datatype bar_capability = FreeData | Delayed | Subscription | Iex | Realtime

definition VENDOR_CAPABILITY :: "string \<Rightarrow> bar_capability option" where
  "VENDOR_CAPABILITY p = (if p \<in> {''yfinance'', ''fmp'', ''eastmoney'', ''twse''} then Some Delayed else None)"

definition BAR_INTERVALS :: "string list" where
  "BAR_INTERVALS = [''1m'', ''5m'', ''15m'', ''30m'', ''1h'', ''4h'', ''1d'', ''1w'']"

definition toBarInterval :: "string \<Rightarrow> string" where
  "toBarInterval i = (if i \<in> set BAR_INTERVALS then i else ''1d'')"

text \<open>A row of a vendor; \<open>null\<close> and a missing field are the same here.\<close>

record raw_bar =
  rb_date :: string
  rb_open :: "dec option"
  rb_high :: "dec option"
  rb_low :: "dec option"
  rb_close :: "dec option"
  rb_volume :: "dec option"

definition isFullBar :: "raw_bar \<Rightarrow> bool" where
  "isFullBar d \<longleftrightarrow> rb_close d \<noteq> None \<and> rb_open d \<noteq> None \<and> rb_high d \<noteq> None \<and> rb_low d \<noteq> None"

definition full_bar :: "raw_bar \<Rightarrow> ohlcv_bar" where
  "full_bar d =
     \<lparr>ob_date = rb_date d, ob_open = the (rb_open d), ob_high = the (rb_high d), ob_low = the (rb_low d),
      ob_close = the (rb_close d), ob_volume = rb_volume d\<rparr>"

text \<open>A bar on the wire of an account: the time and the numbers as text.\<close>

record wire_bar =
  wb_timestamp :: string
  wb_open :: string
  wb_high :: string
  wb_low :: string
  wb_close :: string
  wb_volume :: "string option"

definition dateOf :: "js_clock \<Rightarrow> string \<Rightarrow> string \<Rightarrow> string + string" where
  "dateOf cl timestamp interval =
     bindE (throw_none range_error (dc_parse cl timestamp)) (\<lambda>t.
     let iso = iso_string t in
     Inr (if interval = ''1d'' \<or> interval = ''1w'' \<or> ends_with ''T00:00:00.000Z'' iso then take 10 iso
          else map (\<lambda>c. if c = CHR ''T'' then CHR '' '' else c) (take 19 iso)))"

definition barToOhlcv :: "js_clock \<Rightarrow> (string \<Rightarrow> dec) \<Rightarrow> string \<Rightarrow> wire_bar \<Rightarrow> string + ohlcv_bar" where
  "barToOhlcv cl num interval b =
     bindE (dateOf cl (wb_timestamp b) interval) (\<lambda>d.
     Inr \<lparr>ob_date = d, ob_open = num (wb_open b), ob_high = num (wb_high b), ob_low = num (wb_low b),
       ob_close = num (wb_close b), ob_volume = (if truthy (wb_volume b) then Some (num (the (wb_volume b))) else None)\<rparr>)"

section \<open>Freshness\<close>

text \<open>The loop of \<open>tradingDaysBetween\<close>: it steps a day and counts it unless it is a Saturday or a Sunday.\<close>

function count_days :: "int \<Rightarrow> int \<Rightarrow> int \<Rightarrow> int" where
  "count_days t b days =
     (if t < b then
        (let t1 = t + MS_DAY; wd = week_day (t1 div MS_DAY) in
         count_days t1 b (if wd \<noteq> 0 \<and> wd \<noteq> 6 then days + 1 else days))
      else days)"
  by auto
termination
  by (relation "measure (\<lambda>(t, b, days). nat (b - t))") (auto simp: MS_DAY_def)

declare count_days.simps [simp del]

definition midnight :: "js_clock \<Rightarrow> string \<Rightarrow> int option" where
  "midnight cl d = dc_parse cl (d @ ''T00:00:00Z'')"

definition tradingDaysBetween :: "js_clock \<Rightarrow> string \<Rightarrow> string \<Rightarrow> int" where
  "tradingDaysBetween cl from_iso to_iso =
     (case (midnight cl from_iso, midnight cl to_iso) of
        (Some a, Some b) \<Rightarrow> if a < b then count_days a b 0 else 0
      | _ \<Rightarrow> 0)"

record freshness =
  fr_asOf :: string
  fr_isLatestActual :: bool
  fr_staleTradingDays :: int

definition computeFreshness :: "js_clock \<Rightarrow> string \<Rightarrow> bars_opts \<Rightarrow> freshness option" where
  "computeFreshness cl lastBarDate opts =
     (if lastBarDate = [] then None
      else
        let anchor = take 10 (case bo_end opts of Some e \<Rightarrow> e
              | None \<Rightarrow> (case bo_asOf opts of Some a \<Rightarrow> a | None \<Rightarrow> take 10 (iso_string (dc_now cl))));
            gap = tradingDaysBetween cl (take 10 lastBarDate) anchor in
        Some \<lparr>fr_asOf = anchor, fr_isLatestActual = (gap = 0), fr_staleTradingDays = gap\<rparr>)"

section \<open>The answer\<close>

datatype bar_source_kind = FromVendor | FromUta

record served_meta =
  sm_symbol :: string
  sm_from :: string
  sm_to :: string
  sm_bars :: nat
  sm_source :: bar_source_kind
  sm_sourceId :: string
  sm_barId :: string
  sm_provider :: "string option"
  sm_barCapability :: "bar_capability option"
  sm_freshness :: "freshness option"

record served =
  sv_bars :: "ohlcv_bar list"
  sv_meta :: served_meta

definition date_compare :: "ohlcv_bar \<Rightarrow> ohlcv_bar \<Rightarrow> int" where
  "date_compare a b = (if ob_date a < ob_date b then - 1 else if ob_date b < ob_date a then 1 else 0)"

definition finalize :: "ohlcv_bar list \<Rightarrow> dec option \<Rightarrow> ohlcv_bar list" where
  "finalize data most =
     (let sorted = js_sort date_compare data;
          out = (if MAX_BARS < length sorted then slice_from (d_neg (n_of MAX_BARS)) sorted else sorted) in
      case most of None \<Rightarrow> out | Some c \<Rightarrow> if d_gt (n_of (length out)) c then slice_from (d_neg c) out else out)"

definition last_date :: "ohlcv_bar list \<Rightarrow> string" where
  "last_date bars = (if bars = [] then [] else ob_date (last bars))"

definition buildMeta ::
  "js_clock \<Rightarrow> string \<Rightarrow> ohlcv_bar list \<Rightarrow> bar_source_kind \<Rightarrow> string \<Rightarrow> string \<Rightarrow> string option \<Rightarrow> bar_capability option \<Rightarrow>
    bars_opts \<Rightarrow> served_meta"
where
  "buildMeta cl symbol bars src sourceId barId provider cap opts =
     \<lparr>sm_symbol = symbol, sm_from = (if bars = [] then [] else ob_date (hd bars)), sm_to = last_date bars,
      sm_bars = length bars, sm_source = src, sm_sourceId = sourceId, sm_barId = barId, sm_provider = provider,
      sm_barCapability = cap, sm_freshness = computeFreshness cl (last_date bars) opts\<rparr>"

section \<open>Fetching\<close>

record vendor_query =
  vq_symbol :: string
  vq_start_date :: string
  vq_provider :: string
  vq_end_date :: "string option"
  vq_interval :: "string option"

text \<open>The bounds of a fetch from an account are \<open>Date\<close> objects, which may be invalid, or missing.\<close>

record bar_params =
  bp_interval :: string
  bp_start :: "int option option"
  bp_end :: "int option option"
  bp_limit :: "dec option"

record search_hit =
  sh_source :: string
  sh_aliceId :: "string option"
  sh_symbol :: "string option"
  sh_localSymbol :: "string option"
  sh_secType :: "string option"
  sh_assetClass :: "asset_class option"

record uta_gateway =
  ug_has :: "string \<Rightarrow> string + bool"
  ug_get :: "string \<Rightarrow> string + (string \<Rightarrow> bar_params \<Rightarrow> string + wire_bar list) option"
  ug_searchContracts :: "string \<Rightarrow> string + search_hit list"
  ug_capabilities :: "(string + (string, bar_capability) jsmap) option"

record bar_deps =
  bd_clock :: js_clock
  bd_number :: "string \<Rightarrow> dec"
  bd_search :: market_search
  bd_history :: "asset_class \<Rightarrow> vendor_query \<Rightarrow> string + raw_bar list"
  bd_uta :: uta_gateway
  bd_vendorProviders :: "asset_class \<Rightarrow> string"

text \<open>Commodities have spot prices, which take no interval.\<close>

definition vendor_request :: "asset_class \<Rightarrow> string \<Rightarrow> string \<Rightarrow> string \<Rightarrow> bars_opts \<Rightarrow> vendor_query" where
  "vendor_request c provider symbol start opts =
     \<lparr>vq_symbol = symbol, vq_start_date = start, vq_provider = provider,
      vq_end_date = (if truthy (bo_end opts) then bo_end opts else None),
      vq_interval = (if c = Commodity then None else Some (bo_interval opts))\<rparr>"

definition getVendorBars :: "bar_deps \<Rightarrow> string \<Rightarrow> asset_class \<Rightarrow> string \<Rightarrow> bars_opts \<Rightarrow> string + served" where
  "getVendorBars bd provider c symbol opts =
     bindE (startDateFor (bd_clock bd) opts) (\<lambda>start.
     bindE (bd_history bd c (vendor_request c provider symbol start opts)) (\<lambda>raw.
     let full = map full_bar (filter isFullBar raw);
         bars = (if truthy (bo_end opts) then filter (\<lambda>b. take 10 (ob_date b) \<le> the (bo_end opts)) full else full);
         filtered = finalize bars (bo_count opts) in
     Inr \<lparr>sv_bars = filtered,
       sv_meta = buildMeta (bd_clock bd) symbol filtered FromVendor provider (formatBarId provider symbol) (Some provider)
         (VENDOR_CAPABILITY provider) opts\<rparr>))"

definition uta_capability :: "uta_gateway \<Rightarrow> string \<Rightarrow> string + bar_capability" where
  "uta_capability ug sourceId =
     (case ug_capabilities ug of
        None \<Rightarrow> Inr Realtime
      | Some reply \<Rightarrow>
          bindE reply (\<lambda>caps.
          case jm_get caps sourceId of
            None \<Rightarrow> Inl (''UTA source '' @ quoted sourceId @ '' does not advertise historical-bar support.'')
          | Some cap \<Rightarrow> Inr cap))"

definition uta_params :: "js_clock \<Rightarrow> bars_opts \<Rightarrow> string + bar_params" where
  "uta_params cl opts =
     bindE (if bo_start opts \<noteq> None then Inr (bo_start opts)
            else if bo_count opts \<noteq> None then bindE (startDateFor cl opts) (\<lambda>s. Inr (Some s)) else Inr None) (\<lambda>start.
     let end = (case bo_end opts of None \<Rightarrow> bo_asOf opts | e \<Rightarrow> e) in
     Inr \<lparr>bp_interval = toBarInterval (bo_interval opts),
       bp_start = (if truthy start then Some (dc_parse cl (the start)) else None),
       bp_end = (if truthy end then Some (dc_parse cl (the end)) else None), bp_limit = bo_count opts\<rparr>)"

definition getUtaBars :: "bar_deps \<Rightarrow> string \<Rightarrow> string \<Rightarrow> bars_opts \<Rightarrow> string + served" where
  "getUtaBars bd sourceId barId opts =
     bindE (ug_get (bd_uta bd) sourceId) (\<lambda>acct.
     bindE (throw_none (''UTA source '' @ quoted sourceId @ '' not found for barId '' @ quoted barId) acct) (\<lambda>history.
     bindE (uta_capability (bd_uta bd) sourceId) (\<lambda>cap.
     bindE (uta_params (bd_clock bd) opts) (\<lambda>params.
     bindE (history barId params) (\<lambda>wire.
     bindE (mapE (barToOhlcv (bd_clock bd) (bd_number bd) (bp_interval params)) wire) (\<lambda>raw.
     let bars = finalize raw (bo_count opts);
         symbol = (case parseBarId barId of None \<Rightarrow> barId | Some (s, n) \<Rightarrow> n) in
     Inr \<lparr>sv_bars = bars,
       sv_meta = buildMeta (bd_clock bd) symbol bars FromUta sourceId barId None (Some cap) opts\<rparr>))))))"

datatype bar_source_ref = BySymbol string asset_class | ByBarId string "asset_class option"

fun getBars :: "bar_deps \<Rightarrow> bar_source_ref \<Rightarrow> bars_opts \<Rightarrow> string + served" where
  "getBars bd (BySymbol symbol c) opts = getVendorBars bd (bd_vendorProviders bd c) c symbol opts"
| "getBars bd (ByBarId barId c) opts =
     (case parseBarId barId of
        None \<Rightarrow> Inl (''Invalid barId '' @ quoted barId @ '' (expected '' @ quoted ''sourceId|nativeSymbol'' @ '')'')
      | Some (src, native) \<Rightarrow>
          bindE (ug_has (bd_uta bd) src) (\<lambda>isUta.
          if isUta then getUtaBars bd src barId opts
          else (case c of
              None \<Rightarrow> Inl (''Vendor barId '' @ quoted barId @ '' needs an assetClass to route. '' @
                ''Pass { barId, assetClass } or use { symbol, assetClass }.'')
            | Some k \<Rightarrow> getVendorBars bd src k native opts)))"

section \<open>Sources\<close>

record bar_candidate =
  bc_barId :: string
  bc_source :: bar_source_kind
  bc_sourceId :: string
  bc_symbol :: string
  bc_name :: "string option"
  bc_assetClass :: class_hint
  bc_label :: string
  bc_cap :: "bar_capability option"

definition secTypeToAssetClass :: "string option \<Rightarrow> class_hint" where
  "secTypeToAssetClass s =
     (let t = to_upper (opt_str s) in
      if t \<in> {''STK'', ''ETF'', ''WAR''} then HintClass Equity
      else if t \<in> {''CRYPTO'', ''CRYPTO_PERP''} then HintClass Crypto
      else if t = ''CASH'' then HintClass Currency
      else if t \<in> {''FUT'', ''FOP'', ''CMDTY''} then HintClass Commodity
      else HintUnknown)"

definition candidateRelevance :: "string \<Rightarrow> bar_candidate \<Rightarrow> int" where
  "candidateRelevance query c =
     (let q = to_lower (trim query); symbol = to_lower (bc_symbol c); name = to_lower (opt_str (bc_name c)) in
      if symbol = q \<or> name = q then 4
      else if starts_with q symbol then 3
      else if starts_with q name then 2
      else if occurs_in q symbol \<or> occurs_in q name then 1 else 0)"

definition middle_dot :: string where "middle_dot = '' '' @ [CHR 0xC2, CHR 0xB7] @ '' ''"

fun capability_name :: "bar_capability \<Rightarrow> string" where
  "capability_name FreeData = ''free''"
| "capability_name Delayed = ''delayed''"
| "capability_name Subscription = ''subscription''"
| "capability_name Iex = ''iex''"
| "capability_name Realtime = ''realtime''"

definition capability_label :: "string \<Rightarrow> bar_capability option \<Rightarrow> string" where
  "capability_label base cap = (case cap of None \<Rightarrow> base | Some c \<Rightarrow> base @ middle_dot @ capability_name c)"

definition vendor_candidate :: "bar_deps \<Rightarrow> search_result \<Rightarrow> bar_candidate" where
  "vendor_candidate bd r =
     (let symbol = symbol_of r;
          provider = (case sr_sourceId r of None \<Rightarrow> bd_vendorProviders bd (sr_assetClass r) | Some p \<Rightarrow> p);
          base = (if truthy (vr_name r) then symbol @ middle_dot @ the (vr_name r) @ '' ('' @ provider @ '')''
                  else symbol @ '' ('' @ provider @ '')'') in
      \<lparr>bc_barId = formatBarId provider symbol, bc_source = FromVendor, bc_sourceId = provider, bc_symbol = symbol,
       bc_name = vr_name r, bc_assetClass = HintClass (sr_assetClass r),
       bc_label = capability_label base (VENDOR_CAPABILITY provider), bc_cap = VENDOR_CAPABILITY provider\<rparr>)"

text \<open>
  What a hit of a broker becomes, if anything: the gateway that tells capabilities must know one for the
  account, the handle must parse, and \<open>-1\<close> is no instrument.
\<close>

definition uta_candidate ::
  "(string + (string, bar_capability) jsmap) option \<Rightarrow> search_hit \<Rightarrow> bar_candidate option"
where
  "uta_candidate capsRes hit =
     (let barId = opt_str (sh_aliceId hit);
          cap = (case capsRes of Some (Inr caps) \<Rightarrow> jm_get caps (sh_source hit) | _ \<Rightarrow> None);
          symbol = trim (opt_or (sh_symbol hit) (opt_str (sh_localSymbol hit)));
          effective = (case cap of None \<Rightarrow> Realtime | Some c \<Rightarrow> c) in
      if barId = [] \<or> (capsRes \<noteq> None \<and> cap = None) then None
      else (case parseBarId barId of
          None \<Rightarrow> None
        | Some (s, native) \<Rightarrow>
            if native = ''-1'' then None
            else Some
              \<lparr>bc_barId = barId, bc_source = FromUta, bc_sourceId = sh_source hit, bc_symbol = symbol, bc_name = None,
               bc_assetClass = (case sh_assetClass hit of Some c \<Rightarrow> HintClass c | None \<Rightarrow> secTypeToAssetClass (sh_secType hit)),
               bc_label = capability_label (symbol @ '' ('' @ sh_source hit @ '')'') (Some effective),
               bc_cap = Some effective\<rparr>))"

text \<open>The guard of \<open>append\<close>, over the candidates in their order.\<close>

definition append_candidate :: "bar_candidate \<Rightarrow> bar_candidate list \<Rightarrow> bar_candidate list" where
  "append_candidate c out =
     (if trim (bc_symbol c) = [] \<or> trim (bc_barId c) = [] \<or> bc_barId c \<in> set (map bc_barId out) then out else out @ [c])"

definition freshness_rank :: "bar_capability option \<Rightarrow> int" where
  "freshness_rank c =
     (case c of Some Realtime \<Rightarrow> 0 | Some Iex \<Rightarrow> 1 | Some Subscription \<Rightarrow> 2 | Some Delayed \<Rightarrow> 3 | Some FreeData \<Rightarrow> 4 | None \<Rightarrow> 5)"

definition derivative_rank :: "bar_candidate \<Rightarrow> int" where
  "derivative_rank c = (if isDerivativeBarId (bc_barId c) then 1 else 0)"

definition candidate_compare :: "string \<Rightarrow> bar_candidate \<Rightarrow> bar_candidate \<Rightarrow> int" where
  "candidate_compare query a b =
     (let r = candidateRelevance query b - candidateRelevance query a; d = derivative_rank a - derivative_rank b in
      if r \<noteq> 0 then r else if d \<noteq> 0 then d else freshness_rank (bc_cap a) - freshness_rank (bc_cap b))"

definition all_candidates :: "bar_deps \<Rightarrow> string \<Rightarrow> nat \<Rightarrow> bar_candidate list" where
  "all_candidates bd query limit =
     (let vendors = map (vendor_candidate bd) (aggregateSymbolSearch (bd_search bd) query (n_of limit));
          hits = settled (ug_searchContracts (bd_uta bd) query);
          utas = List.map_filter (uta_candidate (ug_capabilities (bd_uta bd))) hits in
      fold append_candidate (vendors @ utas) [])"

definition searchBarSources :: "bar_deps \<Rightarrow> string \<Rightarrow> dec option \<Rightarrow> bar_candidate list" where
  "searchBarSources bd query requested =
     (let limit = bounded_limit (case requested of None \<Rightarrow> Fin 20 | Some d \<Rightarrow> d) in
      take limit (js_sort (candidate_compare query) (all_candidates bd query limit)))"

section \<open>Trading days\<close>

definition is_weekday :: "int \<Rightarrow> bool" where
  "is_weekday n \<longleftrightarrow> week_day n \<noteq> 0 \<and> week_day n \<noteq> 6"

lemma count_days_weekdays:
  "x \<le> y \<Longrightarrow> count_days (MS_DAY * x) (MS_DAY * y) n = n + int (length (filter is_weekday [x + 1..y]))"
proof (induction "nat (y - x)" arbitrary: x n)
  case 0
  then show ?case by (simp add: count_days.simps)
next
  case (Suc k)
  then have less: "x < y" by simp
  have up: "[x + 1..y] = (x + 1) # [x + 1 + 1..y]" using less by (simp add: upto.simps [of "x + 1" y])
  have next_day: "MS_DAY * x + MS_DAY = MS_DAY * (x + 1)" "MS_DAY * (x + 1) div MS_DAY = x + 1"
    by (simp_all add: algebra_simps MS_DAY_def)
  have ih: "count_days (MS_DAY * (x + 1)) (MS_DAY * y) m = m + int (length (filter is_weekday [x + 1 + 1..y]))" for m
    using Suc.hyps(2) less by (intro Suc.hyps(1)) simp_all
  have "MS_DAY * x < MS_DAY * y" using less by (simp add: MS_DAY_def)
  then show ?case
    by (subst count_days.simps) (simp only: if_True Let_def next_day ih up, simp add: is_weekday_def)
qed

text \<open>C27: for two dates that parse to midnights in UTC, the trading-day gap between them is the number of
  days after the first, up to and including the second, that are no Saturday and no Sunday; in particular
  it is 0 when the second is not later, and the loop over the days ends.\<close>

theorem trading_days_are_weekdays:
  assumes "midnight cl from_iso = Some (MS_DAY * x)" "midnight cl to_iso = Some (MS_DAY * y)"
  shows "tradingDaysBetween cl from_iso to_iso = int (card {d. x < d \<and> d \<le> y \<and> week_day d \<notin> {0, 6}})"
proof (cases "x < y")
  case True
  have "length (filter is_weekday [x + 1..y]) = card (set (filter is_weekday [x + 1..y]))"
    by (metis distinct_card distinct_filter distinct_upto)
  also have "set (filter is_weekday [x + 1..y]) = {d. x < d \<and> d \<le> y \<and> week_day d \<notin> {0, 6}}"
    by (auto simp: is_weekday_def)
  finally have n: "count_days (MS_DAY * x) (MS_DAY * y) 0 = int (card {d. x < d \<and> d \<le> y \<and> week_day d \<notin> {0, 6}})"
    using count_days_weekdays [of x y 0] True by simp
  have "MS_DAY * x < MS_DAY * y" using True by (simp add: MS_DAY_def)
  then show ?thesis unfolding tradingDaysBetween_def assms by (simp only: prod.case option.case if_True n)
next
  case False
  then have none: "{d. x < d \<and> d \<le> y \<and> week_day d \<notin> {0, 6}} = {}" by auto
  show ?thesis unfolding none tradingDaysBetween_def assms using False by (simp add: MS_DAY_def)
qed

section \<open>The window\<close>

lemma compares_date: "compares ob_date date_compare"
  by (auto simp: compares_def date_compare_def)

lemma trunc_int [simp]: "rat_trunc (of_int k) = k"
  by (simp add: rat_trunc_def)

lemma slice_last: "slice_from (d_neg (n_of n)) xs = (if n = 0 then xs else drop (length xs - n) xs)"
  using trunc_int [of "- int n"] by (simp add: slice_from_def slice_pos_def n_of_def Let_def rat_trunc_def nat_minus_as_int)

lemma n_of_gt: "d_gt (n_of a) (n_of b) \<longleftrightarrow> b < a"
  by (simp add: n_of_def d_gt_Fin)

text \<open>The bars that a fetch for the last \<open>n\<close> returns are the newest \<open>n\<close> by date, five thousand at
  most, in ascending order, bars of one date in the order of the source.\<close>

theorem finalize_keeps_the_newest:
  assumes "0 < n"
  shows "finalize data (Some (n_of n)) = drop (length data - min n MAX_BARS) (sort_key ob_date data)"
  using assms
  by (auto simp: finalize_def js_sort_key [OF compares_date] slice_last n_of_gt Let_def min_def MAX_BARS_def not_less)

lemma count_zero_is_no_count: "finalize data (Some (n_of 0)) = finalize data None"
  by (simp add: finalize_def slice_last Let_def)

text \<open>The bars of a fetch, without what is said about them.\<close>

definition bars_of :: "string + served \<Rightarrow> string + ohlcv_bar list" where
  "bars_of r = (case r of Inl e \<Rightarrow> Inl e | Inr s \<Rightarrow> Inr (sv_bars s))"

text \<open>A vendor fetch with an explicit start returns the same bars whatever point in time \<open>asOf\<close> names,
  so a request as of a past date is answered with the bars after it.\<close>

theorem vendor_bars_ignore_as_of:
  assumes "truthy (bo_start opts)"
  shows "bars_of (getVendorBars bd provider c symbol (opts\<lparr>bo_asOf := a\<rparr>)) = bars_of (getVendorBars bd provider c symbol opts)"
  using assms
  by (auto simp: bars_of_def getVendorBars_def startDateFor_def vendor_request_def Let_def bindE_def split: sum.splits)

text \<open>An anchor that is no date makes the gap 0: the newest bar is declared current, however old.\<close>

lemma invalid_anchor_reads_fresh:
  assumes "bo_end opts = Some e" "midnight cl (take 10 e) = None" "d \<noteq> []"
  shows "computeFreshness cl d opts = Some \<lparr>fr_asOf = take 10 e, fr_isLatestActual = True, fr_staleTradingDays = 0\<rparr>"
  using assms by (simp add: computeFreshness_def tradingDaysBetween_def Let_def split: option.splits)

section \<open>What a search for sources shows\<close>

definition candidate_key :: "string \<Rightarrow> bar_candidate \<Rightarrow> int" where
  "candidate_key query c = 100 * (4 - candidateRelevance query c) + 10 * derivative_rank c + freshness_rank (bc_cap c)"

lemma rank_ranges: "0 \<le> freshness_rank k \<and> freshness_rank k \<le> 5" "0 \<le> derivative_rank c \<and> derivative_rank c \<le> 1"
  by (auto simp: freshness_rank_def derivative_rank_def split: option.splits bar_capability.splits)

lemma compares_candidates: "compares (candidate_key query) (candidate_compare query)"
  unfolding compares_def
proof (intro allI)
  fix a b
  show "candidate_compare query a b < 0 \<longleftrightarrow> candidate_key query a < candidate_key query b"
    using rank_ranges(1) [of "bc_cap a"] rank_ranges(1) [of "bc_cap b"] rank_ranges(2) [of a] rank_ranges(2) [of b]
    unfolding candidate_compare_def candidate_key_def Let_def by (simp split: if_splits) linarith
qed

definition usable :: "bar_candidate \<Rightarrow> bool" where
  "usable c \<longleftrightarrow> trim (bc_symbol c) \<noteq> [] \<and> trim (bc_barId c) \<noteq> []"

lemma append_candidate_inv:
  "distinct (map bc_barId out) \<Longrightarrow> list_all usable out \<Longrightarrow>
     distinct (map bc_barId (append_candidate c out)) \<and> list_all usable (append_candidate c out) \<and>
     set (append_candidate c out) \<subseteq> insert c (set out)"
  by (auto simp: append_candidate_def usable_def)

lemma fold_append_inv:
  "distinct (map bc_barId out) \<Longrightarrow> list_all usable out \<Longrightarrow>
     distinct (map bc_barId (fold append_candidate cs out)) \<and> list_all usable (fold append_candidate cs out) \<and>
     set (fold append_candidate cs out) \<subseteq> set cs \<union> set out"
proof (induction cs arbitrary: out)
  case (Cons c cs)
  from append_candidate_inv [OF Cons.prems, of c] Cons.IH [of "append_candidate c out"] show ?case by auto
qed simp

lemma all_candidates_inv:
  "distinct (map bc_barId (all_candidates bd q n)) \<and> list_all usable (all_candidates bd q n) \<and>
   set (all_candidates bd q n) \<subseteq>
     vendor_candidate bd ` set (aggregateSymbolSearch (bd_search bd) q (n_of n)) \<union>
     {c. \<exists>h. uta_candidate (ug_capabilities (bd_uta bd)) h = Some c}"
proof -
  have hits: "set (List.map_filter f xs) \<subseteq> {c. \<exists>h. f h = Some c}" for f :: "search_hit \<Rightarrow> bar_candidate option" and xs
    by (auto simp: map_filter_def)
  show ?thesis
    using fold_append_inv [of "[]" "map (vendor_candidate bd) (aggregateSymbolSearch (bd_search bd) q (n_of n)) @
      List.map_filter (uta_candidate (ug_capabilities (bd_uta bd))) (settled (ug_searchContracts (bd_uta bd) q))"]
      hits [of "uta_candidate (ug_capabilities (bd_uta bd))" "settled (ug_searchContracts (bd_uta bd) q)"]
    by (auto simp: all_candidates_def Let_def)
qed

text \<open>A search for sources of bars returns at most a hundred candidates with different handles, ordered by
  relevance, then spot before derivative, then freshness.\<close>

theorem bar_sources_ranked_and_distinct:
  "distinct (map bc_barId (searchBarSources bd query most)) \<and> length (searchBarSources bd query most) \<le> 100 \<and>
   sorted_wrt (\<lambda>a b. \<not> candidate_compare query b a < 0) (searchBarSources bd query most)"
proof -
  let ?n = "bounded_limit (case most of None \<Rightarrow> Fin 20 | Some d \<Rightarrow> d)"
  let ?xs = "js_sort (candidate_compare query) (all_candidates bd query ?n)"
  have out: "searchBarSources bd query most = take ?n ?xs" by (simp add: searchBarSources_def Let_def)
  have "mset (map bc_barId ?xs) = mset (map bc_barId (all_candidates bd query ?n))" by simp
  then have d: "distinct (map bc_barId ?xs)"
    using all_candidates_inv [of bd query ?n] by (metis mset_eq_imp_distinct_iff)
  have "sorted_wrt (\<lambda>a b. candidate_key query a \<le> candidate_key query b) ?xs"
    using js_sort_sorted [OF compares_candidates] by (simp add: sorted_map)
  then have "sorted_wrt (\<lambda>a b. \<not> candidate_compare query b a < 0) ?xs"
    using compares_candidates [of query] by (simp add: compares_def not_less)
  with d bounded_limit_range show ?thesis
    unfolding out by (simp add: take_map [symmetric] sorted_wrt_take min_le_iff_disj)
qed

text \<open>A candidate of a vendor leads back to the vendor and the symbol that the search found: unless an
  account has the vendor's name, fetching its handle is the fetch of that symbol from that vendor.\<close>

theorem vendor_candidates_can_be_fetched:
  assumes "cand \<in> set (searchBarSources bd query most)" "bc_source cand = FromVendor"
    and "bc_sourceId cand \<noteq> []" "bar_sep \<notin> set (bc_sourceId cand)"
    and "ug_has (bd_uta bd) (bc_sourceId cand) = Inr False"
  shows "getBars bd (ByBarId (bc_barId cand) (Some c)) opts = getVendorBars bd (bc_sourceId cand) c (bc_symbol cand) opts"
proof -
  let ?n = "bounded_limit (case most of None \<Rightarrow> Fin 20 | Some d \<Rightarrow> d)"
  have c: "cand \<in> set (all_candidates bd query ?n)"
    using assms(1) by (auto simp: searchBarSources_def Let_def dest: in_set_takeD)
  then have "trim (bc_symbol cand) \<noteq> []"
    using all_candidates_inv [of bd query ?n] by (auto simp: list_all_iff usable_def)
  then have symbol: "bc_symbol cand \<noteq> []" by (auto simp: trim_def)
  consider r where "cand = vendor_candidate bd r" | h where "uta_candidate (ug_capabilities (bd_uta bd)) h = Some cand"
    using c all_candidates_inv [of bd query ?n] by blast
  then have "bc_barId cand = formatBarId (bc_sourceId cand) (bc_symbol cand)"
  proof cases
    case 1
    then show ?thesis by (simp add: vendor_candidate_def Let_def)
  next
    case 2
    then show ?thesis using assms(2) by (auto simp: uta_candidate_def Let_def split: if_splits option.splits prod.splits)
  qed
  then show ?thesis using parse_format [OF assms(3) symbol assms(4)] assms(5) by simp
qed

text \<open>The answer to a fetch by handle carries that handle, which is what the record of a script's sources is keyed by.\<close>

lemma vendor_barId: "getVendorBars bd p c sy opts = Inr r \<Longrightarrow> sm_barId (sv_meta r) = formatBarId p sy"
  by (auto simp: getVendorBars_def buildMeta_def bindE_eq_Inr Let_def)

lemma uta_barId: "getUtaBars bd src b opts = Inr r \<Longrightarrow> sm_barId (sv_meta r) = b"
  by (auto simp: getUtaBars_def buildMeta_def bindE_eq_Inr Let_def)

lemma getBars_echoes_barId:
  assumes "getBars bd (ByBarId b c) opts = Inr r"
  shows "sm_barId (sv_meta r) = b"
proof -
  from assms obtain s n where p: "parseBarId b = Some (s, n)" by (cases "parseBarId b") auto
  with assms obtain u where u: "ug_has (bd_uta bd) s = Inr u" by (cases "ug_has (bd_uta bd) s") auto
  with p assms show ?thesis
    using format_parse [OF p] by (cases u; cases c) (auto dest: vendor_barId uta_barId)
qed

section \<open>Witnesses\<close>

theorem trading_days_are_weekdays_witness:
  "tradingDaysBetween (utc_clock 0) ''2024-01-05'' ''2024-01-09'' = 2 \<and>
   card {d :: int. 19727 < d \<and> d \<le> 19731 \<and> week_day d \<notin> {0, 6}} = 2"
proof -
  have a: "midnight (utc_clock 0) ''2024-01-05'' = Some (MS_DAY * 19727)" by code_simp
  have b: "midnight (utc_clock 0) ''2024-01-09'' = Some (MS_DAY * 19731)" by code_simp
  have n: "tradingDaysBetween (utc_clock 0) ''2024-01-05'' ''2024-01-09'' = 2" by code_simp
  show ?thesis using trading_days_are_weekdays [OF a b] n by simp
qed

definition demo_bar :: "string \<Rightarrow> rat \<Rightarrow> raw_bar" where
  "demo_bar d x =
     \<lparr>rb_date = d, rb_open = Some (Fin x), rb_high = Some (Fin x), rb_low = Some (Fin x), rb_close = Some (Fin x),
      rb_volume = None\<rparr>"

definition demo_rows :: "raw_bar list" where
  "demo_rows =
     [demo_bar ''2024-01-10'' 12, demo_bar ''2024-01-05'' 10, (demo_bar ''2024-01-08'' 0)\<lparr>rb_close := None\<rparr>, demo_bar ''2024-01-09'' 11]"

theorem finalize_keeps_the_newest_witness:
  "map ob_date (finalize (map full_bar (filter isFullBar demo_rows)) (Some (n_of 2))) = [''2024-01-09'', ''2024-01-10'']"
proof -
  have "map ob_date (drop (length (map full_bar (filter isFullBar demo_rows)) - min 2 MAX_BARS)
      (sort_key ob_date (map full_bar (filter isFullBar demo_rows)))) = [''2024-01-09'', ''2024-01-10'']"
    by code_simp
  then show ?thesis using finalize_keeps_the_newest [of 2 "map full_bar (filter isFullBar demo_rows)"] by simp
qed

definition demo_deps :: bar_deps where
  "demo_deps =
     \<lparr>bd_clock = utc_clock 1704844800000, bd_number = (\<lambda>s. NotANumber), bd_search = demo_search,
      bd_history = (\<lambda>c q. Inr demo_rows),
      bd_uta = \<lparr>ug_has = (\<lambda>i. Inr False), ug_get = (\<lambda>i. Inr None), ug_searchContracts = (\<lambda>p. Inl ''offline''),
        ug_capabilities = None\<rparr>,
      bd_vendorProviders = (\<lambda>c. ''yfinance'')\<rparr>"

definition past_opts :: "string option \<Rightarrow> bars_opts" where
  "past_opts asOf =
     \<lparr>bo_interval = ''1d'', bo_count = None, bo_start = Some ''2024-01-01'', bo_end = None, bo_asOf = asOf\<rparr>"

theorem vendor_bars_ignore_as_of_witness:
  "\<exists>bars. bars_of (getVendorBars demo_deps ''yfinance'' Equity ''AAPL'' (past_opts (Some ''2024-01-05''))) = Inr bars \<and>
     bars_of (getVendorBars demo_deps ''yfinance'' Equity ''AAPL'' (past_opts None)) = Inr bars \<and>
     map ob_date bars = [''2024-01-05'', ''2024-01-09'', ''2024-01-10'']"
proof -
  have t: "truthy (bo_start (past_opts None))" by code_simp
  have o: "(past_opts None)\<lparr>bo_asOf := Some ''2024-01-05''\<rparr> = past_opts (Some ''2024-01-05'')" by (simp add: past_opts_def)
  define r where "r = bars_of (getVendorBars demo_deps ''yfinance'' Equity ''AAPL'' (past_opts None))"
  have dates: "(case r of Inl e \<Rightarrow> [] | Inr b \<Rightarrow> map ob_date b) = [''2024-01-05'', ''2024-01-09'', ''2024-01-10'']"
    unfolding r_def by code_simp
  show ?thesis
    using vendor_bars_ignore_as_of [OF t, of demo_deps "''yfinance''" Equity "''AAPL''" "Some ''2024-01-05''"] dates
    unfolding o r_def [symmetric] by (cases r) auto
qed

theorem vendor_candidates_can_be_fetched_witness:
  "''yfinance|GS'' \<in> set (map bc_barId (searchBarSources demo_deps ''gold'' None)) \<and>
   getBars demo_deps (ByBarId ''yfinance|GS'' (Some Equity)) (past_opts None)
     = getVendorBars demo_deps ''yfinance'' Equity ''GS'' (past_opts None)"
proof -
  have "map (\<lambda>c. (bc_barId c, bc_source c, bc_sourceId c, bc_symbol c)) (searchBarSources demo_deps ''gold'' None)
    = [(''yfinance|gold'', FromVendor, ''yfinance'', ''gold''), (''yfinance|GS'', FromVendor, ''yfinance'', ''GS''),
       (''yfinance|GLD'', FromVendor, ''yfinance'', ''GLD'')]"
    by code_simp
  then have "(''yfinance|GS'', FromVendor, ''yfinance'', ''GS'')
    \<in> set (map (\<lambda>c. (bc_barId c, bc_source c, bc_sourceId c, bc_symbol c)) (searchBarSources demo_deps ''gold'' None))"
    by (simp only:) simp
  then obtain cand where m: "cand \<in> set (searchBarSources demo_deps ''gold'' None)"
    and c: "bc_barId cand = ''yfinance|GS''" "bc_source cand = FromVendor" "bc_sourceId cand = ''yfinance''" "bc_symbol cand = ''GS''"
    unfolding set_map by auto
  have src: "bc_sourceId cand \<noteq> []" "bar_sep \<notin> set (bc_sourceId cand)" "ug_has (bd_uta demo_deps) (bc_sourceId cand) = Inr False"
    unfolding c(3) by code_simp+
  have "''yfinance|GS'' \<in> set (map bc_barId (searchBarSources demo_deps ''gold'' None))"
    using m c(1) by force
  then show ?thesis
    using vendor_candidates_can_be_fetched [OF m c(2) src, of Equity "past_opts None"] unfolding c by blast
qed

end
