(* ===== verification/Spec2Isabelle.thy ===== *)
theory Spec2Isabelle
  imports Git_Log Git_Interleaving Simulate Cost_Basis Order_History Contract_Discipline
    UTA_Reads Mock_Orders Snapshots Fx_Service Order_Poller Calc_Script Event_Log Inbox_Store Bar_Service
begin

text \<open>
  Verification library of OpenAlice: the trading core, the service under \<open>src/services/uta\<close>; the quant calculator
  under \<open>src/src/domain/analysis\<close>; the symbol search and the bar service under \<open>src/src/domain/market-data\<close>; and
  the event log and the inbox under \<open>src/src/core\<close>.

  \<^bold>\<open>The program.\<close>  An account (\<open>UnifiedTradingAccount.ts\<close>) stands between an agent and a broker.  What
  the agent wants done is staged as operations in a ledger (\<open>git/TradingGit.ts\<close>), prepared as a commit
  with a message, approved, and pushed: the ledger hands each operation to the account's dispatcher,
  which runs it through guards (\<open>guards/\<close>) and, for pushes that an agent started, the automation
  envelope (\<open>auto-trading-risk.ts\<close>), and records the broker's answers as a commit.  Fills come back
  later: a sync compares the log's pending orders with the broker and appends what has settled;
  orders placed outside and balances that the log cannot explain are booked as commits too.  The log
  is the account's memory: positions' average cost (\<open>cost-basis.ts\<close>) and the order and trade
  histories (\<open>order-history.ts\<close>) are projections of it, and it is saved and restored as JSON.

  What an agent bases its orders on it computes with the calculator (\<open>calc-v2\<close>): a script of bindings and a
  result expression is read by a lexer and a recursive-descent parser, and evaluated over price bars that a bar
  service delivers and indicator functions (\<open>indicator/functions\<close>) on doubles; a failure is to be a diagnostic that
  the agent can act on.  The bar service (\<open>bars/bar-service.ts\<close>) fetches bars from data vendors or from an account's
  broker, and finds sources for a query by the symbol search (\<open>aggregate-search.ts\<close>).  What happens is kept in an
  append-only event log (\<open>event-log.ts\<close>), and what agents report to the user in an inbox (\<open>inbox-store.ts\<close>), both JSONL files.

  \<^bold>\<open>Theories.\<close>  In the order of dependence:

  \<^item> \<open>UTA_Prelude\<close>: results (\<open>error + value\<close>), JavaScript truthiness, maps in insertion order
    (a locale with its interpretation), loops that may throw, shared lemmas.
  \<^item> \<open>Decimal_JS\<close>, \<open>Decimal_Instance\<close>: \<open>decimal.js\<close> is not part of the repository.  It is a record of its
    functions with the locales \<open>decimal_laws\<close> (documented behaviour of parsing, printing, rounding
    and comparison) and \<open>decimal_exact\<close> (no rounding); both are interpreted, on an exact instance
    and on one that rounds to 20 digits, whose parser and printer are executable.
  \<^item> \<open>Git_Types\<close>: contracts, orders, positions, operations, results, commits (\<open>uta-protocol\<close> and
    \<open>ibkr\<close>), with the \<open>UNSET\<close> sentinels and \<open>OrderHelper.ts\<close>, the boundary where they are dropped.
  \<^item> \<open>Trading_Git\<close>: the write side of the ledger; its record is the object's fields, and a method is a
    function to its result or exception, the new ledger and the new world.  Sequences of calls, the
    invariant of the ledger at rest, what push and reject do on every path.
  \<^item> \<open>Git_Interleaving\<close>: the same methods cut at every \<open>await\<close>, as a machine over events: mutual
    exclusion of writes, their end after a bounded number of answers, and the refinement of
    interleavings by the sequential calls of \<open>Trading_Git\<close>.
  \<^item> \<open>JS_Strings\<close>, \<open>JS_Sort\<close>: trimming and searching of strings; the stable \<open>sort\<close> by a comparison function and ranking by a score.
  \<^item> \<open>Git_Log\<close>, \<open>Simulate\<close>: reading the log (pending orders, summaries, status), export and restore,
    price simulation.
  \<^item> \<open>Position_Math\<close>, \<open>Cost_Basis\<close>, \<open>Order_History\<close>: derived numbers and the projections.
  \<^item> \<open>Contract_Discipline\<close>: the instrument taxonomy and the builders of contracts and positions.
  \<^item> \<open>Guards\<close>, \<open>Auto_Risk\<close>: the guard pipeline (a locale for what a guard must promise, interpreted on
    the built-in guards) and the automation envelope, with runs over time.
  \<^item> \<open>Account_Health\<close>: reach, health and recovery as an inductive step relation over an account's
    timers, calls and notifications.
  \<^item> \<open>UTA_Account\<close>, \<open>UTA_Reads\<close>: the account: staging, the dispatcher, commit, push, reject, the one-shot
    order (\<open>order-entry.ts\<close>); sync, external orders, reconciliation of wallet positions, reads.
  \<^item> \<open>State_Error\<close>: methods that may throw after they have changed their object, with weakest
    preconditions, kept invariants and a locale (\<open>event_invariant\<close>) for what every sequence of calls keeps.
  \<^item> \<open>Mock_Broker\<close>, \<open>Mock_Market\<close>, \<open>Mock_Orders\<close>: the in-memory exchange (\<open>brokers/mock/MockBroker.ts\<close>)
    behind demo accounts and the simulator; the invariant of its book and the life of its orders (two
    interpretations of \<open>event_invariant\<close>), conservation of money by fills, completeness of matching.
  \<^item> \<open>Order_Poller\<close>: the timer that calls sync and observation on every account, as a machine over ticks
    and steps of passes.
  \<^item> \<open>Snapshots\<close>: what a snapshot of an account captures, the chunked store with its index, the service
    with its retry.
  \<^item> \<open>Fx_Service\<close>: dollar rates from a cache, the hub, a vendor and the built-in table, as JavaScript numbers that
    may be infinite or NaN; every rate served was quoted by one of the sources under that source's test.
  \<^item> \<open>Jsonl_Files\<close>, \<open>Event_Log\<close>, \<open>Inbox_Store\<close>: files of lines that may end in a torn one, and \<open>slice\<close>; the event log
    as a machine whose appends are split at the write, with restarts, and what its pages and its buffer show; the
    inbox on disk, simulated by the inbox in memory, its paging, and what a delete and a broken line do to it.
  \<^item> \<open>Rat_Rounding\<close>, \<open>JS_Number\<close>: rounding of rationals to a number of digits (the locale \<open>int_rounding\<close>, interpreted on
    rounding half up for \<open>decimal.js\<close> and half to even for doubles); JavaScript numbers as correctly rounded
    operations on \<open>dec\<close>, with \<open>slice\<close>, \<open>sort\<close>, reading and printing.
  \<^item> \<open>Calc_Base\<close>: diagnostics, near misses (\<open>editDistance\<close> against its specification as the least number of edits), and
    \<open>for\<close> loops over doubles, which may not end (\<open>num_loop\<close>, a \<open>partial_function\<close>).
  \<^item> \<open>Indicators\<close>: the indicator functions, the range of the oscillators, a linear \<open>MACD\<close> that gives the same doubles.
  \<^item> \<open>Calc_Syntax\<close>, \<open>Calc_Parser\<close>: syntax trees and tokens, the lexer and the parser.
  \<^item> \<open>Calc_Grammar\<close>, \<open>Calc_Printer\<close>, \<open>Calc_Round_Trip\<close>: each call of the parser takes tokens, so it ends; a printer with the fewest
    parentheses, whose text is read back as the same program.
  \<^item> \<open>Calc_Eval\<close>: the evaluator, its record of the sources, the table of functions, the entry point.
  \<^item> \<open>Calc_Types\<close>, \<open>Calc_Provenance\<close>, \<open>Calc_Script\<close>: a static typing and its soundness, the invariant of the record of sources,
    scripts from text to answer.
  \<^item> \<open>Symbol_Search\<close>: the scores, the pool and the order of a search, the index and the catalogue, the rules for
    the patterns that brokers get.
  \<^item> \<open>Date_JS\<close>, \<open>Bar_Service\<close>: the calendar of \<open>Date\<close> in UTC (days and dates are inverse); windows, freshness,
    fetches from vendors and accounts, and the candidates that a search for sources offers.

  \<^bold>\<open>Conventions.\<close>  A function that can throw returns \<open>js_error + 'a\<close>.  A broker, a clock, a hash and the
  persistence callback are parameters over a world \<open>'w\<close>; nothing is assumed of them unless a theorem
  says so.  Quantities are \<open>dec\<close> (a rational, an infinity or NaN); JavaScript numbers that the code
  uses as counters, times and settings are \<open>int\<close>, \<open>nat\<close> or \<open>rat\<close>, and their rounding is not
  modelled; in the calculator they are doubles, \<open>dec\<close> rounded by every operation, without the sign of zero, with
  \<open>Math.sqrt\<close> and squares correctly rounded.  Objects that two places share are written out where the code depends on it (the positions
  inside a reconcile commit, \<open>UTA_Reads.share_positions\<close>).  Snapshots and observed operations in the ledger are values:
  a broker that later changes an order object it has handed out, as the in-memory exchange does, changes them in
  the program and not in the model.

  \<^bold>\<open>Bounds.\<close>  Nearly every loop of the modelled code is structural or a \<open>foldE\<close> over a list; the day count and the
  calendar recurse with a measure, so there is no fuel; the
  indicators' loops over doubles may run forever (None), and the parser's loops test that tokens were taken, a test that never fails.  The
  recovery loop and interleavings are step relations and runs over event lists of any length.

  \<^bold>\<open>Not modelled.\<close>  The broker adapters (third-party SDKs; the model's broker is any record of functions, and the in-memory exchange is one),
  HTTP routes, the front end, the CLI and process supervision, workspaces, connectors, the clients of the market data vendors and the
  IBKR wire client: I/O and glue around the core, or generated code.  Within the calculator: the bar service (any
  function there; \<open>Bar_Service\<close> models the one of the program), the order in which the concurrently started arguments of a call finish, names inherited from
  \<open>Object.prototype\<close>, and arrays of \<open>2 ^ 32\<close> elements or more.  Within the search: user-written regular expressions
  (a parameter) and the loading of the index.  Within the account: live quote
  subscriptions and pure delegations to the broker; console output; the contract fields that no
  modelled code reads.
\<close>

end
